(* ===== verification/Prelude.thy ===== *)
theory Prelude
  imports Main "HOL-Library.Sublist"
begin

text \<open>
  Shared vocabulary of the development.

  \<^item> The fragments of Python's \<open>str\<close> that the router uses (\<open>split\<close>, \<open>partition\<close>, \<open>rstrip\<close>,
    \<open>strip\<close>, \<open>lower\<close>, \<open>upper\<close>, \<open>startswith\<close>, \<open>removeprefix\<close>, \<open>isdigit\<close>). A Python string is
    the list of the bytes of its UTF-8 form, so \<open>CHR ''a''\<close> is one element and a non-ASCII code
    point is several elements that are all at least 128. Case conversion and whitespace are the
    ASCII ones, which is where the router applies them (host names, header names, identifiers).
  \<^item> SQL-table operations on lists of rows: select, update, delete, and the uniqueness and
    foreign-key facts every table shares.
  \<^item> Two interfaces: \<open>guarded_system\<close> (operations that keep an invariant, lifted to runs) and
    \<open>token_table\<close> (a table of credentials keyed by the hash of the token).
\<close>

named_theorems table_simps \<open>rewrite rules for table operations\<close>
named_theorems inv_intros \<open>one lemma per operation: it keeps its component's invariant\<close>

section \<open>Results\<close>

text \<open>
  A computation that may raise is \<open>'e + 'a\<close>, with \<open>Inl\<close> for the exception. \<open>bind_res r f\<close> runs
  \<open>f\<close> on the value of \<open>r\<close> and passes an exception on, as a Python statement sequence does.
\<close>

definition bind_res :: "'e + 'a \<Rightarrow> ('a \<Rightarrow> 'e + 'b) \<Rightarrow> 'e + 'b" where
  "bind_res r f = (case r of Inl e \<Rightarrow> Inl e | Inr a \<Rightarrow> f a)"

definition guard_res :: "bool \<Rightarrow> 'e \<Rightarrow> 'e + unit" where
  "guard_res b e = (if b then Inr () else Inl e)"

lemma bind_res_simps [simp]:
  "bind_res (Inl e) f = Inl e"
  "bind_res (Inr a) f = f a"
  by (simp_all add: bind_res_def)

lemma bind_res_eq_Inr: "bind_res r f = Inr y \<longleftrightarrow> (\<exists>x. r = Inr x \<and> f x = Inr y)"
  by (cases r) auto

lemma guard_res_eq_Inr: "guard_res b e = Inr u \<longleftrightarrow> b"
  by (simp add: guard_res_def)

lemmas res_simps = bind_res_eq_Inr guard_res_eq_Inr

section \<open>Python strings\<close>

definition lower_char :: "char \<Rightarrow> char" where
  "lower_char c = (let n = (of_char c :: nat) in if 65 \<le> n \<and> n \<le> 90 then char_of (n + 32) else c)"

definition upper_char :: "char \<Rightarrow> char" where
  "upper_char c = (let n = (of_char c :: nat) in if 97 \<le> n \<and> n \<le> 122 then char_of (n - 32) else c)"

definition lower :: "string \<Rightarrow> string" where
  "lower s = map lower_char s"

definition upper :: "string \<Rightarrow> string" where
  "upper s = map upper_char s"

definition is_digit_char :: "char \<Rightarrow> bool" where
  "is_digit_char c \<longleftrightarrow> (let n = (of_char c :: nat) in 48 \<le> n \<and> n \<le> 57)"

definition is_lower_char :: "char \<Rightarrow> bool" where
  "is_lower_char c \<longleftrightarrow> (let n = (of_char c :: nat) in 97 \<le> n \<and> n \<le> 122)"

definition is_upper_char :: "char \<Rightarrow> bool" where
  "is_upper_char c \<longleftrightarrow> (let n = (of_char c :: nat) in 65 \<le> n \<and> n \<le> 90)"

text \<open>The ASCII characters \<open>str.isspace\<close> accepts: 9 to 13, 28 to 31 and the blank.\<close>

definition is_space_char :: "char \<Rightarrow> bool" where
  "is_space_char c \<longleftrightarrow>
     (let n = (of_char c :: nat) in (9 \<le> n \<and> n \<le> 13) \<or> (28 \<le> n \<and> n \<le> 32))"

definition py_isdigit :: "string \<Rightarrow> bool" where
  "py_isdigit s \<longleftrightarrow> s \<noteq> [] \<and> list_all is_digit_char s"

text \<open>\<open>s.split(c)\<close> for a one-character separator: always at least one piece.\<close>

fun split_on :: "char \<Rightarrow> string \<Rightarrow> string list" where
  "split_on c [] = [[]]"
| "split_on c (x # xs) =
     (if x = c then [] # split_on c xs
      else (case split_on c xs of [] \<Rightarrow> [[x]] | y # ys \<Rightarrow> (x # y) # ys))"

text \<open>\<open>s.split(c)[0]\<close>, which is also \<open>s.partition(c)[0]\<close>.\<close>

definition before_char :: "char \<Rightarrow> string \<Rightarrow> string" where
  "before_char c s = takeWhile (\<lambda>x. x \<noteq> c) s"

text \<open>What follows the first \<open>c\<close>, and whether there is one: \<open>s.partition(c)\<close>.\<close>

definition after_char :: "char \<Rightarrow> string \<Rightarrow> string" where
  "after_char c s = drop 1 (dropWhile (\<lambda>x. x \<noteq> c) s)"

definition rstrip_char :: "char \<Rightarrow> string \<Rightarrow> string" where
  "rstrip_char c s = rev (dropWhile (\<lambda>x. x = c) (rev s))"

definition py_strip :: "string \<Rightarrow> string" where
  "py_strip s = rev (dropWhile is_space_char (rev (dropWhile is_space_char s)))"

definition startswith :: "string \<Rightarrow> string \<Rightarrow> bool" where
  "startswith s p \<longleftrightarrow> take (length p) s = p"

definition endswith :: "string \<Rightarrow> string \<Rightarrow> bool" where
  "endswith s p \<longleftrightarrow> length p \<le> length s \<and> drop (length s - length p) s = p"

definition removeprefix :: "string \<Rightarrow> string \<Rightarrow> string" where
  "removeprefix s p = (if startswith s p then drop (length p) s else s)"

text \<open>\<open>sub in s\<close> for strings.\<close>

fun contains_str :: "string \<Rightarrow> string \<Rightarrow> bool" where
  "contains_str [] sub = (sub = [])"
| "contains_str (x # xs) sub = (startswith (x # xs) sub \<or> contains_str xs sub)"

fun join_with :: "string \<Rightarrow> string list \<Rightarrow> string" where
  "join_with sep [] = []"
| "join_with sep [x] = x"
| "join_with sep (x # y # ys) = x @ sep @ join_with sep (y # ys)"

text \<open>Decimal text of an integer, as an f-string prints it.\<close>

definition digit_char :: "nat \<Rightarrow> char" where
  "digit_char d = char_of (48 + d)"

fun show_nat :: "nat \<Rightarrow> string" where
  "show_nat n = (if n < 10 then [digit_char n] else show_nat (n div 10) @ [digit_char (n mod 10)])"

declare show_nat.simps [simp del]

definition show_int :: "int \<Rightarrow> string" where
  "show_int i = (if i < 0 then CHR ''-'' # show_nat (nat (- i)) else show_nat (nat i))"

text \<open>The truth value of an optional string: None and the empty string are both false.\<close>

definition non_empty :: "string option \<Rightarrow> string option" where
  "non_empty x = (case x of None \<Rightarrow> None | Some s \<Rightarrow> if s = [] then None else Some s)"

text \<open>\<open>os.path.join(a, b)\<close>: an absolute \<open>b\<close> replaces \<open>a\<close>.\<close>

definition path_join :: "string \<Rightarrow> string \<Rightarrow> string" where
  "path_join a b =
     (if take 1 b = [CHR ''/''] then b
      else if a = [] \<or> last a = CHR ''/'' then a @ b else a @ [CHR ''/''] @ b)"

text \<open>Lines of text, each with its line break.\<close>

definition text_lines :: "string list \<Rightarrow> string" where
  "text_lines ls = concat (map (\<lambda>l. l @ [CHR 0x0A]) ls)"

text \<open>Whether a byte string is what \<open>bytes.decode('utf-8')\<close> accepts (no overlong form, no surrogate).\<close>

definition is_cont :: "char \<Rightarrow> bool" where
  "is_cont c \<longleftrightarrow> (let n = (of_char c :: nat) in 128 \<le> n \<and> n \<le> 191)"

fun utf8_valid :: "string \<Rightarrow> bool" where
  "utf8_valid [] = True"
| "utf8_valid (c # cs) =
     (let n = (of_char c :: nat) in
      if n < 128 then utf8_valid cs
      else if n < 194 \<or> 244 < n then False
      else (case cs of
          [] \<Rightarrow> False
        | c1 # cs1 \<Rightarrow>
            (let m = (of_char c1 :: nat) in
             if \<not> is_cont c1 then False
             else if n < 224 then utf8_valid cs1
             else if (n = 224 \<and> m < 160) \<or> (n = 237 \<and> 159 < m) \<or> (n = 240 \<and> m < 144)
                     \<or> (n = 244 \<and> 143 < m) then False
             else (case cs1 of
                 [] \<Rightarrow> False
               | c2 # cs2 \<Rightarrow>
                   if \<not> is_cont c2 then False
                   else if n < 240 then utf8_valid cs2
                   else (case cs2 of
                       [] \<Rightarrow> False
                     | c3 # cs3 \<Rightarrow> is_cont c3 \<and> utf8_valid cs3)))))"

lemma startswith_prefix: "startswith s p \<longleftrightarrow> prefix p s"
  by (metis append_eq_conv_conj prefix_def startswith_def append_take_drop_id)

lemma endswith_suffix: "endswith s p \<longleftrightarrow> suffix p s"
  by (metis append_take_drop_id diff_le_self endswith_def length_drop
      suffix_drop suffix_def append_eq_conv_conj add_diff_cancel_right'
      length_append)

lemma startswith_append [simp]: "startswith (p @ s) p"
  by (simp add: startswith_def)

lemma startswith_refl [simp]: "startswith s s"
  by (simp add: startswith_def)

lemma lower_append [simp]: "lower (s @ t) = lower s @ lower t"
  by (simp add: lower_def)

lemma length_lower [simp]: "length (lower s) = length s"
  by (simp add: lower_def)

lemma lower_char_idem [simp]: "lower_char (lower_char c) = lower_char c"
proof -
  have "(of_char c :: nat) \<le> 90 \<Longrightarrow> of_char (char_of (of_char c + 32 :: nat) :: char) = (of_char c + 32 :: nat)"
    by simp
  then show ?thesis by (auto simp: lower_char_def Let_def)
qed

lemma lower_idem [simp]: "lower (lower s) = lower s"
  by (simp add: lower_def)

lemma lower_char_sep:
  assumes "(of_char c :: nat) < 65 \<or> 122 < (of_char c :: nat)"
  shows "lower_char d = c \<longleftrightarrow> d = c"
proof -
  have "of_char (lower_char d) = (of_char c :: nat) \<longleftrightarrow> of_char d = (of_char c :: nat)"
    using assms by (auto simp: lower_char_def Let_def)
  then show ?thesis by simp
qed

lemma before_char_lower:
  assumes "(of_char c :: nat) < 65 \<or> 122 < (of_char c :: nat)"
  shows "before_char c (lower s) = lower (before_char c s)"
  by (induction s) (simp_all add: before_char_def lower_def lower_char_sep [OF assms])

lemma before_char_notin: "c \<notin> set (before_char c s)"
  by (auto simp: before_char_def dest: set_takeWhileD)

lemma before_char_id: "c \<notin> set s \<Longrightarrow> before_char c s = s"
  by (induction s) (auto simp: before_char_def)

lemma before_char_idem [simp]: "before_char c (before_char c s) = before_char c s"
  by (rule before_char_id [OF before_char_notin])

lemma split_on_nonempty [simp]: "split_on c s \<noteq> []"
  by (induction s) (auto split: list.splits)

lemma join_split_on: "join_with [c] (split_on c s) = s"
proof (induction s)
  case Nil
  then show ?case by simp
next
  case (Cons x xs)
  obtain y ys where y: "split_on c xs = y # ys"
    by (cases "split_on c xs") auto
  with Cons.IH show ?case by (cases ys) auto
qed

lemma hd_split_on: "hd (split_on c s) = before_char c s"
  by (induction s) (auto simp: before_char_def split: list.splits)

lemma split_on_sep_free: "p \<in> set (split_on c s) \<Longrightarrow> c \<notin> set p"
proof (induction s arbitrary: p)
  case (Cons x xs)
  then show ?case by (cases "split_on c xs") (auto split: if_splits)
qed simp

lemma split_on_append: "c \<notin> set s \<Longrightarrow> split_on c (s @ c # t) = s # split_on c t"
  by (induction s) auto

lemma split_on_free: "c \<notin> set s \<Longrightarrow> split_on c s = [s]"
  by (induction s) auto

lemma split_on_append_sep: "split_on c (a @ c # b) = split_on c a @ split_on c b"
proof (induction a)
  case (Cons x xs)
  then show ?case by (cases "split_on c xs") auto
qed simp

lemma join_with_append: "xs \<noteq> [] \<Longrightarrow> ys \<noteq> [] \<Longrightarrow> join_with sep (xs @ ys) = join_with sep xs @ sep @ join_with sep ys"
proof (induction sep xs rule: join_with.induct)
  case (2 sep x)
  then show ?case by (cases ys) auto
qed auto

section \<open>SQL tables as lists of rows\<close>

text \<open>
  \<open>SELECT ... WHERE P\<close> with \<open>fetchone()\<close> is \<open>List.find P\<close>; \<open>fetchall()\<close> is \<open>filter P\<close>.
  A table without a rowid gap keeps insertion order, which is the order an unindexed scan
  returns.
\<close>

definition exists_row :: "('r \<Rightarrow> bool) \<Rightarrow> 'r list \<Rightarrow> bool" where
  "exists_row P t \<longleftrightarrow> list_ex P t"

definition update_rows :: "('r \<Rightarrow> bool) \<Rightarrow> ('r \<Rightarrow> 'r) \<Rightarrow> 'r list \<Rightarrow> 'r list" where
  "update_rows P f t = map (\<lambda>r. if P r then f r else r) t"

definition delete_rows :: "('r \<Rightarrow> bool) \<Rightarrow> 'r list \<Rightarrow> 'r list" where
  "delete_rows P t = filter (\<lambda>r. \<not> P r) t"

lemma exists_row_iff [table_simps]: "exists_row P t \<longleftrightarrow> (\<exists>r\<in>set t. P r)"
  by (simp add: exists_row_def list_ex_iff)

lemma find_SomeD: "List.find P t = Some r \<Longrightarrow> r \<in> set t \<and> P r"
  by (induction t) (auto split: if_splits)

lemma find_NoneD: "List.find P t = None \<Longrightarrow> r \<in> set t \<Longrightarrow> \<not> P r"
  by (auto simp: find_None_iff)

lemma find_unique:
  assumes "distinct (map key t)" and "r \<in> set t"
  shows "List.find (\<lambda>x. key x = key r) t = Some r"
  using assms
proof (induction t)
  case (Cons x xs)
  show ?case
  proof (cases "key x = key r")
    case True
    with Cons.prems have "x = r" by (auto simp: image_iff)
    with True show ?thesis by simp
  next
    case False
    with Cons show ?thesis by auto
  qed
qed simp

lemma set_update_rows [table_simps]:
  "set (update_rows P f t) = (\<lambda>r. if P r then f r else r) ` set t"
  by (simp add: update_rows_def)

lemma length_update_rows [simp]: "length (update_rows P f t) = length t"
  by (simp add: update_rows_def)

lemma set_delete_rows [table_simps]: "set (delete_rows P t) = {r \<in> set t. \<not> P r}"
  by (auto simp: delete_rows_def)

lemma map_update_rows_same:
  assumes "\<And>r. P r \<Longrightarrow> key (f r) = key r"
  shows "map key (update_rows P f t) = map key t"
  using assms by (simp add: update_rows_def)

lemma distinct_delete_rows: "distinct (map key t) \<Longrightarrow> distinct (map key (delete_rows P t))"
  by (simp add: delete_rows_def distinct_map_filter)

lemma find_update_rows_same:
  assumes "\<And>r. Q (if P r then f r else r) = Q r"
  shows "List.find Q (update_rows P f t) = map_option (\<lambda>r. if P r then f r else r) (List.find Q t)"
  using assms by (induction t) (auto simp: update_rows_def)

lemma find_delete_rows:
  assumes "\<And>r. Q r \<Longrightarrow> \<not> P r"
  shows "List.find Q (delete_rows P t) = List.find Q t"
  using assms by (induction t) (auto simp: delete_rows_def)

lemma find_delete_same: "List.find P (delete_rows P t) = None"
  by (auto simp: find_None_iff delete_rows_def)

section \<open>Interfaces\<close>

text \<open>
  A component whose operations keep an invariant: \<open>step\<close> performs one operation \<open>e\<close> (a request,
  a background thread reaching its next commit, a timer tick), and whatever sequence of
  operations the scheduler picks, the invariant holds after it.
\<close>

locale guarded_system =
  fixes step :: "'s \<Rightarrow> 'e \<Rightarrow> 's"
    and inv :: "'s \<Rightarrow> bool"
  assumes step_inv: "inv s \<Longrightarrow> inv (step s e)"
begin

fun run :: "'s \<Rightarrow> 'e list \<Rightarrow> 's" where
  "run s [] = s"
| "run s (e # es) = run (step s e) es"

lemma run_inv: "inv s \<Longrightarrow> inv (run s es)"
  by (induction es arbitrary: s) (auto intro: step_inv)

lemma run_append: "run s (es @ fs) = run (run s es) fs"
  by (induction es arbitrary: s) auto

lemma run_foldl: "run s es = foldl step s es"
  by (induction es arbitrary: s) auto

lemma foldl_inv: "inv s \<Longrightarrow> inv (foldl step s es)"
  using run_inv run_foldl by metis

end

text \<open>
  A table of credentials: rows are found by the hash of the presented token. The laws are what
  the authentication code relies on; \<open>tok_valid\<close> is the expiry (or other) check on a found row.
\<close>

locale token_table =
  fixes tok_find :: "'db \<Rightarrow> 'h \<Rightarrow> 'r option"
    and tok_add :: "'h \<Rightarrow> 'r \<Rightarrow> 'db \<Rightarrow> 'db"
    and tok_del :: "'h \<Rightarrow> 'db \<Rightarrow> 'db"
  assumes find_add_same: "tok_find db h = None \<Longrightarrow> tok_find (tok_add h r db) h = Some r"
    and find_add_other: "h \<noteq> h' \<Longrightarrow> tok_find (tok_add h r db) h' = tok_find db h'"
    and find_del_same: "tok_find (tok_del h db) h = None"
    and find_del_other: "h \<noteq> h' \<Longrightarrow> tok_find (tok_del h db) h' = tok_find db h'"
begin

lemma add_then_del: "h \<noteq> h' \<Longrightarrow> tok_find (tok_del h (tok_add h r db)) h' = tok_find db h'"
  by (simp add: find_add_other find_del_other)

lemma revoked_stays_revoked:
  "h \<notin> set (map fst hs) \<Longrightarrow>
     tok_find (fold (\<lambda>(h', r) d. tok_add h' r d) hs (tok_del h db)) h = None"
proof (induction hs arbitrary: db rule: rev_induct)
  case Nil
  then show ?case by (simp add: find_del_same)
next
  case (snoc x xs)
  then show ?case by (cases x) (auto simp: find_add_other)
qed

end

end
