(* ===== verification/PyValues.thy ===== *)
theory PyValues
  imports Complex_Main Prelude "HOL-Library.Char_ord" "HOL-Library.List_Lexorder"
    "HOL-Library.Multiset"
begin

text \<open>
  The dynamically typed values that reach the router from \<open>tomllib\<close> and \<open>json\<close>, with the
  Python operations the source applies to them: truth value, \<open>isinstance\<close>, \<open>dict.get\<close>,
  iteration, equality (where \<open>True == 1 == 1.0\<close> and dictionaries compare without order), the
  lazy \<open>or\<close>, and \<open>json.dumps(..., sort_keys=True)\<close>. Finite floats are exact rationals;
  their printed form is a parameter (\<open>float_repr\<close>).
\<close>

datatype pyval =
    PNone
  | PStr string
  | PInt int
  | PFloat rat
  | PBool bool
  | PList "pyval list"
  | PDict "(string \<times> pyval) list"
  | PDate string

text \<open>The exceptions of the dynamic operations; the payload is the source's own message kind.\<close>

datatype 'm py_exn = ValueError 'm | TypeError | AttributeError

fun truthy :: "pyval \<Rightarrow> bool" where
  "truthy PNone = False"
| "truthy (PStr s) = (s \<noteq> [])"
| "truthy (PInt i) = (i \<noteq> 0)"
| "truthy (PFloat r) = (r \<noteq> 0)"
| "truthy (PBool b) = b"
| "truthy (PList xs) = (xs \<noteq> [])"
| "truthy (PDict d) = (d \<noteq> [])"
| "truthy (PDate d) = True"

text \<open>\<open>a or b\<close>: the first operand if it is true, else the second, unconverted.\<close>

definition py_or :: "pyval \<Rightarrow> pyval \<Rightarrow> pyval" where
  "py_or a b = (if truthy a then a else b)"

text \<open>\<open>isinstance(v, int)\<close> holds for \<open>bool\<close> too; this is the integer it stands for.\<close>

fun as_int :: "pyval \<Rightarrow> int option" where
  "as_int (PInt i) = Some i"
| "as_int (PBool b) = Some (if b then 1 else 0)"
| "as_int _ = None"

fun as_str :: "pyval \<Rightarrow> string option" where
  "as_str (PStr s) = Some s"
| "as_str _ = None"

definition dict_lookup :: "(string \<times> pyval) list \<Rightarrow> string \<Rightarrow> pyval \<Rightarrow> pyval" where
  "dict_lookup d k dflt = (case map_of d k of None \<Rightarrow> dflt | Some v \<Rightarrow> v)"

text \<open>\<open>v.get(k, dflt)\<close>: only a dictionary has the attribute.\<close>

fun py_get :: "pyval \<Rightarrow> string \<Rightarrow> pyval \<Rightarrow> 'm py_exn + pyval" where
  "py_get (PDict d) k dflt = Inr (dict_lookup d k dflt)"
| "py_get _ k dflt = Inl AttributeError"

text \<open>\<open>for x in v\<close>: a list's elements, a dictionary's keys, a string's characters.\<close>

fun py_iter :: "pyval \<Rightarrow> 'm py_exn + pyval list" where
  "py_iter (PList xs) = Inr xs"
| "py_iter (PDict d) = Inr (map (\<lambda>(k, _). PStr k) d)"
| "py_iter (PStr s) = Inr (map (\<lambda>c. PStr [c]) s)"
| "py_iter _ = Inl TypeError"

text \<open>
  \<open>a == b\<close> is equality of normal forms: booleans and integral floats are the integers they
  equal, dictionaries are sorted by key.
\<close>

fun py_norm :: "pyval \<Rightarrow> pyval" where
  "py_norm PNone = PNone"
| "py_norm (PStr s) = PStr s"
| "py_norm (PInt i) = PInt i"
| "py_norm (PFloat r) = (if of_int \<lfloor>r\<rfloor> = r then PInt \<lfloor>r\<rfloor> else PFloat r)"
| "py_norm (PBool b) = PInt (if b then 1 else 0)"
| "py_norm (PList xs) = PList (map py_norm xs)"
| "py_norm (PDict d) = PDict (sort_key fst (map (\<lambda>(k, v). (k, py_norm v)) d))"
| "py_norm (PDate d) = PDate d"

definition py_eq :: "pyval \<Rightarrow> pyval \<Rightarrow> bool" where
  "py_eq a b \<longleftrightarrow> py_norm a = py_norm b"

lemma py_eq_refl [simp]: "py_eq a a"
  by (simp add: py_eq_def)

lemma py_eq_sym: "py_eq a b \<Longrightarrow> py_eq b a"
  by (simp add: py_eq_def)

lemma py_eq_trans: "py_eq a b \<Longrightarrow> py_eq b c \<Longrightarrow> py_eq a c"
  by (simp add: py_eq_def)

section \<open>json.dumps\<close>

text \<open>
  \<open>json.dumps\<close> with its defaults (\<open>ensure_ascii\<close>, separators \<open>", "\<close> and \<open>": "\<close>). ASCII
  control characters become short escapes or \<open>\\u00XX\<close>; a non-ASCII character is decoded from
  its UTF-8 bytes and written as one or two \<open>\\uXXXX\<close> units.
\<close>

definition hex_digit :: "nat \<Rightarrow> char" where
  "hex_digit d = (if d < 10 then char_of (48 + d) else char_of (87 + d))"

definition u_escape :: "nat \<Rightarrow> string" where
  "u_escape n = [CHR 0x5C, CHR ''u'', hex_digit (n div 4096 mod 16), hex_digit (n div 256 mod 16),
                 hex_digit (n div 16 mod 16), hex_digit (n mod 16)]"

definition code_point_escape :: "nat \<Rightarrow> string" where
  "code_point_escape n =
     (if n < 65536 then u_escape n
      else u_escape (55296 + (n - 65536) div 1024) @ u_escape (56320 + (n - 65536) mod 1024))"

definition ascii_escape :: "char \<Rightarrow> string" where
  "ascii_escape c =
     (if c = CHR 0x22 then [CHR 0x5C, CHR 0x22]
      else if c = CHR 0x5C then [CHR 0x5C, CHR 0x5C]
      else if c = CHR 0x0A then [CHR 0x5C, CHR ''n'']
      else if c = CHR 0x0D then [CHR 0x5C, CHR ''r'']
      else if c = CHR 0x09 then [CHR 0x5C, CHR ''t'']
      else if c = CHR 0x0C then [CHR 0x5C, CHR ''f'']
      else if c = CHR 0x08 then [CHR 0x5C, CHR ''b'']
      else if (of_char c :: nat) < 32 \<or> (of_char c :: nat) = 127 then u_escape (of_char c)
      else [c])"

fun json_escape :: "string \<Rightarrow> string" where
  "json_escape [] = []"
| "json_escape (c # cs) =
     (let n = (of_char c :: nat) in
      if n < 128 then ascii_escape c @ json_escape cs
      else (case cs of
          [] \<Rightarrow> []
        | c1 # cs1 \<Rightarrow>
            if n < 224 then code_point_escape ((n - 192) * 64 + (of_char c1 - 128)) @ json_escape cs1
            else (case cs1 of
                [] \<Rightarrow> []
              | c2 # cs2 \<Rightarrow>
                  if n < 240
                  then code_point_escape ((n - 224) * 4096 + (of_char c1 - 128) * 64 + (of_char c2 - 128))
                         @ json_escape cs2
                  else (case cs2 of
                      [] \<Rightarrow> []
                    | c3 # cs3 \<Rightarrow>
                        code_point_escape ((n - 240) * 262144 + (of_char c1 - 128) * 4096
                                           + (of_char c2 - 128) * 64 + (of_char c3 - 128))
                          @ json_escape cs3))))"

definition json_string :: "string \<Rightarrow> string" where
  "json_string s = [CHR 0x22] @ json_escape s @ [CHR 0x22]"

fun json_dumps :: "(rat \<Rightarrow> string) \<Rightarrow> pyval \<Rightarrow> string" where
  "json_dumps fr PNone = ''null''"
| "json_dumps fr (PStr s) = json_string s"
| "json_dumps fr (PInt i) = show_int i"
| "json_dumps fr (PFloat r) = fr r"
| "json_dumps fr (PBool b) = (if b then ''true'' else ''false'')"
| "json_dumps fr (PList xs) = ''['' @ join_with '', '' (map (json_dumps fr) xs) @ '']''"
| "json_dumps fr (PDict d) =
     ''{'' @ join_with '', ''
       (map (\<lambda>(k, t). json_string k @ '': '' @ t)
         (sort_key fst (map (\<lambda>(k, v). (k, json_dumps fr v)) d))) @ ''}''"
| "json_dumps fr (PDate d) = json_string d"


text \<open>The serialisation does not depend on the order in which a dictionary was written.\<close>

lemma sort_key_distinct_eq:
  assumes "distinct (map fst d)" and "mset d = mset d'"
  shows "sort_key fst d = sort_key fst (d' :: (string \<times> 'a) list)"
proof (rule sort_key_inj_key_eq)
  show "mset d = mset (sort_key fst d')" using assms(2) by simp
  show "inj_on fst (set d)" using assms(1) by (simp add: distinct_map)
  show "sorted (map fst (sort_key fst d'))" by simp
qed

lemma json_dumps_dict_order:
  assumes "distinct (map fst d)" and "mset d = mset d'"
  shows "json_dumps fr (PDict d) = json_dumps fr (PDict d')"
proof -
  let ?f = "\<lambda>(k, v). (k, json_dumps fr v)"
  have "map fst (map ?f d) = map fst d" by (simp add: case_prod_beta comp_def)
  then have "distinct (map fst (map ?f d))" using assms(1) by metis
  moreover have "mset (map ?f d) = mset (map ?f d')" using assms(2) by (metis mset_map)
  ultimately have "sort_key fst (map ?f d) = sort_key fst (map ?f d')"
    by (rule sort_key_distinct_eq)
  then show ?thesis by simp
qed

end
