(* ===== verification/AppIds.thy ===== *)
theory AppIds
  imports Prelude
begin

text \<open>
  \<open>core/app_id.py\<close>: the opaque base58 identity of an app and the DNS-label-like app name.
  \<open>re.match\<close> with a final \<open>$\<close> also accepts one trailing newline; \<open>dollar\<close> says so.
\<close>

definition BASE58_ALPHABET :: string where
  "BASE58_ALPHABET = ''123456789ABCDEFGHJKLMNPQRSTUVWXYZabcdefghijkmnopqrstuvwxyz''"

definition APP_ID_LENGTH :: nat where
  "APP_ID_LENGTH = 12"

definition ROUTER_APP_ID :: string where
  "ROUTER_APP_ID = ''_openhost_router''"

definition ROUTER_APP_NAME :: string where
  "ROUTER_APP_NAME = ''OpenHost Router''"

text \<open>The loop of \<open>_encode_base58_padded\<close>: one digit per round, least significant first.\<close>

fun base58_digits :: "nat \<Rightarrow> nat \<Rightarrow> string" where
  "base58_digits 0 n = []"
| "base58_digits (Suc k) n = (BASE58_ALPHABET ! (n mod 58)) # base58_digits k (n div 58)"

definition encode_base58_padded :: "nat \<Rightarrow> string" where
  "encode_base58_padded n = rev (base58_digits APP_ID_LENGTH n)"

text \<open>\<open>new_app_id\<close>: the nine random bytes are the argument.\<close>

definition int_from_bytes_big :: "nat list \<Rightarrow> nat" where
  "int_from_bytes_big bs = foldl (\<lambda>a b. 256 * a + b) 0 bs"

definition new_app_id :: "nat list \<Rightarrow> string" where
  "new_app_id token_bytes = encode_base58_padded (int_from_bytes_big token_bytes)"

definition is_valid_app_id :: "string \<Rightarrow> bool" where
  "is_valid_app_id s \<longleftrightarrow>
     length s = APP_ID_LENGTH \<and> list_all (\<lambda>c. c \<in> set BASE58_ALPHABET) s"

definition is_name_edge :: "char \<Rightarrow> bool" where
  "is_name_edge c \<longleftrightarrow> is_lower_char c \<or> is_digit_char c"

definition is_name_char :: "char \<Rightarrow> bool" where
  "is_name_char c \<longleftrightarrow> is_name_edge c \<or> c = CHR ''-''"

text \<open>\<open>[a-z0-9]([a-z0-9-]*[a-z0-9])?\<close>, the whole string.\<close>

definition app_name_body :: "string \<Rightarrow> bool" where
  "app_name_body s \<longleftrightarrow>
     s \<noteq> [] \<and> is_name_edge (hd s) \<and> is_name_edge (last s) \<and> list_all is_name_char s"

text \<open>\<open>re.match('^...$', s)\<close>: \<open>$\<close> matches at the end and before a final newline.\<close>

definition dollar :: "(string \<Rightarrow> bool) \<Rightarrow> string \<Rightarrow> bool" where
  "dollar P s \<longleftrightarrow> P s \<or> (s \<noteq> [] \<and> last s = CHR 0x0A \<and> P (butlast s))"

definition is_valid_app_name :: "string \<Rightarrow> bool" where
  "is_valid_app_name s \<longleftrightarrow> dollar app_name_body s"

text \<open>The reading of an id back as a number, most significant digit first.\<close>

fun alphabet_index :: "string \<Rightarrow> char \<Rightarrow> nat" where
  "alphabet_index [] c = 0"
| "alphabet_index (x # xs) c = (if x = c then 0 else Suc (alphabet_index xs c))"

definition decode_base58 :: "string \<Rightarrow> nat" where
  "decode_base58 s = foldl (\<lambda>a c. 58 * a + alphabet_index BASE58_ALPHABET c) 0 s"

lemma length_alphabet [simp]: "length BASE58_ALPHABET = 58"
  by (simp add: BASE58_ALPHABET_def)

lemma distinct_alphabet: "distinct BASE58_ALPHABET"
  by (simp add: BASE58_ALPHABET_def)

lemma alphabet_index_nth:
  "distinct xs \<Longrightarrow> i < length xs \<Longrightarrow> alphabet_index xs (xs ! i) = i"
  by (induction xs arbitrary: i) (auto simp: nth_Cons split: nat.splits)

lemma length_base58_digits [simp]: "length (base58_digits k n) = k"
  by (induction k arbitrary: n) auto

lemma base58_digits_in_alphabet: "set (base58_digits k n) \<subseteq> set BASE58_ALPHABET"
  by (induction k arbitrary: n) auto

lemma decode_base58_digits:
  "foldr (\<lambda>c a. 58 * a + alphabet_index BASE58_ALPHABET c) (base58_digits k n) 0 = n mod 58 ^ k"
proof (induction k arbitrary: n)
  case (Suc k)
  have "n mod (58 * 58 ^ k) = 58 * (n div 58 mod 58 ^ k) + n mod 58"
    by (rule mod_mult2_eq)
  with Suc show ?case by (simp add: alphabet_index_nth distinct_alphabet)
qed simp

lemma decode_encode: "decode_base58 (encode_base58_padded n) = n mod 58 ^ 12"
  using decode_base58_digits [of 12 n]
  by (simp add: decode_base58_def encode_base58_padded_def APP_ID_LENGTH_def foldl_conv_foldr)

lemma encode_valid: "is_valid_app_id (encode_base58_padded n)"
  using base58_digits_in_alphabet [of APP_ID_LENGTH n]
  by (auto simp: is_valid_app_id_def encode_base58_padded_def list_all_iff)

lemma router_id_not_valid: "\<not> is_valid_app_id ROUTER_APP_ID"
  by (simp add: is_valid_app_id_def ROUTER_APP_ID_def APP_ID_LENGTH_def)

lemma new_app_id_not_router: "new_app_id bs \<noteq> ROUTER_APP_ID"
  using encode_valid router_id_not_valid by (metis new_app_id_def)

text \<open>
  An app name, apart from the one trailing newline that \<open>$\<close> lets through, is a single DNS
  label: no dot, colon, slash or upper-case letter.
\<close>

lemma name_char_cases:
  assumes "is_name_char c"
  shows "c \<noteq> CHR ''.'' \<and> c \<noteq> CHR '':'' \<and> c \<noteq> CHR ''/'' \<and> lower_char c = c"
proof -
  have "(of_char CHR ''.'' :: nat) = 46 \<and> (of_char CHR '':'' :: nat) = 58 \<and> (of_char CHR ''/'' :: nat) = 47
      \<and> (of_char CHR ''-'' :: nat) = 45"
    by simp
  with assms show ?thesis
    by (auto simp: is_name_char_def is_name_edge_def is_lower_char_def is_digit_char_def
        lower_char_def Let_def)
qed

lemma app_name_body_label:
  assumes "app_name_body s"
  shows "CHR ''.'' \<notin> set s" and "CHR '':'' \<notin> set s" and "CHR ''/'' \<notin> set s" and "lower s = s"
  using assms name_char_cases
  by (auto simp: app_name_body_def list_all_iff lower_def intro!: map_idI)

lemma valid_name_cases:
  assumes "is_valid_app_name s"
  obtains "app_name_body s" | t where "s = t @ [CHR 0x0A]" and "app_name_body t"
  using assms by (auto simp: is_valid_app_name_def dollar_def)
    (metis append_butlast_last_id)

lemma valid_name_no_dot: "is_valid_app_name s \<Longrightarrow> CHR ''.'' \<notin> set s"
  by (erule valid_name_cases) (auto dest: app_name_body_label)

end
