(* ===== verification/Manifest.thy ===== *)
theory Manifest
  imports PyValues AppIds
begin

text \<open>
  \<open>core/manifest.py\<close>: parsing and validating an app manifest, the permissions it declares, and
  the diff that gates an update. The manifest's tables are \<open>pyval\<close> values. Fields the source
  copies without a check stay \<open>pyval\<close> (the attrs class does not check its annotations); fields
  it checks have the checked type. What the module takes from outside the repository is the
  record \<open>manifest_env\<close>: \<open>tomllib.loads\<close> (None is \<open>TOMLDecodeError\<close>, a \<open>ValueError\<close>),
  \<open>cattrs.structure\<close> for \<open>ServiceProvides\<close> (None is the exceptions the caller catches),
  \<open>packaging\<close>'s \<open>Version\<close> and \<open>SpecifierSet\<close> constructors (False is the invalid-input
  exception), \<open>float\<close> of a string, and the printed form of floats, dates and dictionaries.
\<close>

section \<open>Data\<close>

record port_mapping =
  pm_label :: string
  pm_container_port :: int
  pm_host_port :: int

record app_link =
  al_name :: string
  al_path :: string

record service_provides =
  sp_service :: string
  sp_version :: string
  sp_endpoint :: string

record service_consumes =
  sc_service :: string
  sc_shortname :: string
  sc_version :: pyval
  sc_grants :: "pyval list"

record manifest_env =
  toml_loads :: "string \<Rightarrow> (string \<times> pyval) list option"
  structure_provides :: "pyval \<Rightarrow> (string \<times> string \<times> string) option"
  version_ok :: "string \<Rightarrow> bool"
  spec_ok :: "pyval \<Rightarrow> bool"
  float_of_str :: "string \<Rightarrow> rat option"
  float_repr :: "rat \<Rightarrow> string"
  other_str :: "pyval \<Rightarrow> string"

record app_manifest =
  m_name :: pyval
  m_version :: pyval
  m_description :: pyval
  m_authors :: pyval
  m_runtime_type :: pyval
  m_container_image :: pyval
  m_container_port :: pyval
  m_container_command :: pyval
  m_port_mappings :: "port_mapping list"
  m_capabilities :: "string list"
  m_devices :: "string list"
  m_shm_mb :: pyval
  m_network_host :: pyval
  m_health_check :: pyval
  m_public_paths :: pyval
  m_links :: "app_link list"
  m_memory_mb :: pyval
  m_build_memory_mb :: pyval
  m_cpu_cores :: rat
  m_gpu :: pyval
  m_sqlite_dbs :: pyval
  m_app_data :: pyval
  m_app_temp_data :: pyval
  m_app_archive :: pyval
  m_access_all_app_data :: pyval
  m_provides :: "service_provides list"
  m_consumes :: "service_consumes list"
  m_hidden :: pyval
  m_raw_toml :: string

text \<open>The messages of the module's \<open>ValueError\<close>s, one constructor per \<open>raise\<close>.\<close>

datatype manifest_error =
    TomlError | NotUtf8 | NoManifestFound string
  | MissingAppName | MissingAppVersion | InvalidRuntimeType pyval
  | MissingImage | MissingPort | BadShmMb
  | DevicesNotList | DeviceNotString | DeviceNotAllowed string
  | CapsNotList | CapNotString | CapNotSafe string
  | PortNotTable | PortLabelRequired | DuplicatePortLabel string
  | BadContainerPort string | DuplicateContainerPort int
  | BadHostPort string | HostPortBelowFloor string int | DuplicateHostPort int
  | LinksNotList | LinkNotTable | LinkNameRequired | LinkPathRequired string
  | BadFloat | InvalidProvides | InvalidProvidesVersion string string
  | ConsumeNotTable | ConsumeMissingField string | GrantsNotList | GrantBadType
  | BadShortname string | DuplicateShortname string | BadVersionSpecifier string

type_synonym 'a parsed = "manifest_error py_exn + 'a"

definition MANIFEST_FILENAMES :: "string list" where
  "MANIFEST_FILENAMES = [''cloudinabottle.toml'', ''openhost.toml'']"

definition UNPRIVILEGED_PORT_FLOOR :: int where
  "UNPRIVILEGED_PORT_FLOOR = 25"

definition SAFE_CAPABILITIES :: "string list" where
  "SAFE_CAPABILITIES =
     [''NET_ADMIN'', ''NET_RAW'', ''NET_BIND_SERVICE'', ''NET_BROADCAST'',
      ''CHOWN'', ''DAC_OVERRIDE'', ''DAC_READ_SEARCH'', ''FOWNER'', ''FSETID'', ''SETFCAP'',
      ''KILL'', ''SETUID'', ''SETGID'', ''SETPCAP'',
      ''MKNOD'', ''AUDIT_WRITE'', ''IPC_LOCK'', ''IPC_OWNER'', ''SYS_CHROOT'']"

definition SAFE_DEVICE_PATHS :: "string list" where
  "SAFE_DEVICE_PATHS =
     [''/dev/net/tun'', ''/dev/fuse'']
     @ map (\<lambda>i. ''/dev/ttyS'' @ show_nat i) [0..<8]
     @ map (\<lambda>i. ''/dev/ttyUSB'' @ show_nat i) [0..<8]
     @ map (\<lambda>i. ''/dev/ttyACM'' @ show_nat i) [0..<8]"

definition normalize_service_url :: "string \<Rightarrow> string" where
  "normalize_service_url url =
     rstrip_char (CHR ''/'') (removeprefix (removeprefix url ''https://'') ''http://'')"

text \<open>\<open>AppManifest.effective_build_memory_mb\<close>.\<close>

definition effective_build_memory_mb :: "app_manifest \<Rightarrow> pyval" where
  "effective_build_memory_mb m =
     (if m_build_memory_mb m \<noteq> PNone then m_build_memory_mb m else m_memory_mb m)"

section \<open>Validation of devices, capabilities, ports and links\<close>

fun validate_devices_loop :: "pyval list \<Rightarrow> string list parsed" where
  "validate_devices_loop [] = Inr []"
| "validate_devices_loop (entry # rest) =
     (case entry of
        PStr e \<Rightarrow>
          (if py_strip (before_char (CHR '':'') e) \<notin> set SAFE_DEVICE_PATHS
           then Inl (ValueError (DeviceNotAllowed e))
           else (case validate_devices_loop rest of Inl x \<Rightarrow> Inl x | Inr vs \<Rightarrow> Inr (e # vs)))
      | _ \<Rightarrow> Inl (ValueError DeviceNotString))"

definition validate_devices :: "pyval \<Rightarrow> string list parsed" where
  "validate_devices devices =
     (case devices of PList xs \<Rightarrow> validate_devices_loop xs | _ \<Rightarrow> Inl (ValueError DevicesNotList))"

definition capability_name :: "string \<Rightarrow> string" where
  "capability_name entry =
     (let name = upper (py_strip entry)
      in if startswith name ''CAP_'' then drop 4 name else name)"

fun validate_capabilities_loop :: "pyval list \<Rightarrow> string list parsed" where
  "validate_capabilities_loop [] = Inr []"
| "validate_capabilities_loop (entry # rest) =
     (case entry of
        PStr e \<Rightarrow>
          (let name = capability_name e
           in if name \<notin> set SAFE_CAPABILITIES then Inl (ValueError (CapNotSafe e))
              else (case validate_capabilities_loop rest of
                      Inl x \<Rightarrow> Inl x | Inr vs \<Rightarrow> Inr (name # vs)))
      | _ \<Rightarrow> Inl (ValueError CapNotString))"

definition validate_capabilities :: "pyval \<Rightarrow> string list parsed" where
  "validate_capabilities caps =
     (case caps of PList xs \<Rightarrow> validate_capabilities_loop xs | _ \<Rightarrow> Inl (ValueError CapsNotList))"

text \<open>
  One round of the loop of \<open>_parse_ports\<close>. The three sets are the loop's \<open>seen_labels\<close>,
  \<open>seen_container_ports\<close> and \<open>seen_host_ports\<close>.
\<close>

definition parse_port_entry ::
    "string list \<Rightarrow> int list \<Rightarrow> int list \<Rightarrow> pyval \<Rightarrow> port_mapping parsed" where
  "parse_port_entry seen_labels seen_container_ports seen_host_ports entry =
     (case entry of
        PDict d \<Rightarrow>
          (case dict_lookup d ''label'' PNone of
             PStr label \<Rightarrow>
               (if label = [] then Inl (ValueError PortLabelRequired)
                else if label \<in> set seen_labels then Inl (ValueError (DuplicatePortLabel label))
                else (case as_int (dict_lookup d ''container_port'' PNone) of
                   None \<Rightarrow> Inl (ValueError (BadContainerPort label))
                 | Some cport \<Rightarrow>
                     if cport < 0 then Inl (ValueError (BadContainerPort label))
                     else if cport \<in> set seen_container_ports
                     then Inl (ValueError (DuplicateContainerPort cport))
                     else (case as_int (dict_lookup d ''host_port'' (PInt 0)) of
                        None \<Rightarrow> Inl (ValueError (BadHostPort label))
                      | Some hport \<Rightarrow>
                          if hport < 0 then Inl (ValueError (BadHostPort label))
                          else if hport \<noteq> 0 \<and> hport < UNPRIVILEGED_PORT_FLOOR
                          then Inl (ValueError (HostPortBelowFloor label hport))
                          else if hport \<noteq> 0 \<and> hport \<in> set seen_host_ports
                          then Inl (ValueError (DuplicateHostPort hport))
                          else Inr \<lparr>pm_label = label, pm_container_port = cport,
                                    pm_host_port = hport\<rparr>)))
           | _ \<Rightarrow> Inl (ValueError PortLabelRequired))
      | _ \<Rightarrow> Inl (ValueError PortNotTable))"

fun parse_ports_loop ::
    "string list \<Rightarrow> int list \<Rightarrow> int list \<Rightarrow> pyval list \<Rightarrow> port_mapping list parsed" where
  "parse_ports_loop ls cs hs [] = Inr []"
| "parse_ports_loop ls cs hs (entry # rest) =
     (case parse_port_entry ls cs hs entry of
        Inl e \<Rightarrow> Inl e
      | Inr pm \<Rightarrow>
          (case parse_ports_loop (pm_label pm # ls) (pm_container_port pm # cs)
                  (if pm_host_port pm \<noteq> 0 then pm_host_port pm # hs else hs) rest of
             Inl e \<Rightarrow> Inl e
           | Inr pms \<Rightarrow> Inr (pm # pms)))"

definition parse_ports :: "pyval \<Rightarrow> port_mapping list parsed" where
  "parse_ports ports_list =
     (case py_iter ports_list of Inl e \<Rightarrow> Inl e | Inr xs \<Rightarrow> parse_ports_loop [] [] [] xs)"

fun parse_links_loop :: "pyval list \<Rightarrow> app_link list parsed" where
  "parse_links_loop [] = Inr []"
| "parse_links_loop (entry # rest) =
     (case entry of
        PDict d \<Rightarrow>
          (case dict_lookup d ''name'' PNone of
             PStr name \<Rightarrow>
               (if name = [] then Inl (ValueError LinkNameRequired)
                else (case dict_lookup d ''path'' PNone of
                   PStr path \<Rightarrow>
                     (if path = [] then Inl (ValueError (LinkPathRequired name))
                      else (case parse_links_loop rest of
                              Inl e \<Rightarrow> Inl e
                            | Inr ls \<Rightarrow> Inr (\<lparr>al_name = name, al_path = path\<rparr> # ls)))
                 | _ \<Rightarrow> Inl (ValueError (LinkPathRequired name))))
           | _ \<Rightarrow> Inl (ValueError LinkNameRequired))
      | _ \<Rightarrow> Inl (ValueError LinkNotTable))"

definition parse_links :: "pyval \<Rightarrow> app_link list parsed" where
  "parse_links links_list =
     (case links_list of PList xs \<Rightarrow> parse_links_loop xs | _ \<Rightarrow> Inl (ValueError LinksNotList))"

text \<open>\<open>float(v)\<close>.\<close>

definition py_float :: "manifest_env \<Rightarrow> pyval \<Rightarrow> rat parsed" where
  "py_float env v =
     (case v of
        PFloat r \<Rightarrow> Inr r
      | PInt i \<Rightarrow> Inr (of_int i)
      | PBool b \<Rightarrow> Inr (if b then 1 else 0)
      | PStr s \<Rightarrow> (case float_of_str env s of None \<Rightarrow> Inl (ValueError BadFloat) | Some r \<Rightarrow> Inr r)
      | _ \<Rightarrow> Inl TypeError)"

text \<open>\<open>_parse_cpu_cores\<close>; the table \<open>resources\<close> is a dictionary when it is called.\<close>

definition parse_cpu_cores :: "manifest_env \<Rightarrow> (string \<times> pyval) list \<Rightarrow> rat parsed" where
  "parse_cpu_cores env resources =
     (case map_of resources ''cpu_cores'' of
        Some v \<Rightarrow> py_float env v
      | None \<Rightarrow>
          (case map_of resources ''cpu_millicores'' of
             Some v \<Rightarrow> map_sum id (\<lambda>r. r / 1000) (py_float env v)
           | None \<Rightarrow> Inr (1 / 10)))"

section \<open>Services\<close>

fun structure_provides_list :: "manifest_env \<Rightarrow> pyval list \<Rightarrow> service_provides list parsed" where
  "structure_provides_list env [] = Inr []"
| "structure_provides_list env (entry # rest) =
     (case structure_provides env entry of
        None \<Rightarrow> Inl (ValueError InvalidProvides)
      | Some (service, version, endpoint) \<Rightarrow>
          bind_res (structure_provides_list env rest)
            (\<lambda>ps. Inr (\<lparr>sp_service = normalize_service_url service, sp_version = version,
                         sp_endpoint = endpoint\<rparr> # ps)))"

text \<open>
  \<open>_structure_list\<close> catches the \<open>TypeError\<close> of iterating something that is not iterable and
  raises \<open>ValueError\<close> for it; \<open>_parse_services_v2\<close> then checks each version in turn.
\<close>

definition structure_list :: "manifest_env \<Rightarrow> pyval \<Rightarrow> service_provides list parsed" where
  "structure_list env entries =
     (case (py_iter entries :: pyval list parsed) of
        Inl e \<Rightarrow> Inl (ValueError InvalidProvides)
      | Inr xs \<Rightarrow> structure_provides_list env xs)"

fun check_provides_versions ::
    "manifest_env \<Rightarrow> service_provides list \<Rightarrow> unit parsed" where
  "check_provides_versions env [] = Inr ()"
| "check_provides_versions env (p # ps) =
     (if version_ok env (sp_version p) then check_provides_versions env ps
      else Inl (ValueError (InvalidProvidesVersion (sp_version p) (sp_service p))))"

definition services_v2_entry :: "pyval \<Rightarrow> string \<Rightarrow> pyval parsed" where
  "services_v2_entry data key =
     bind_res (py_get data ''services'' (PDict [])) (\<lambda>services.
     bind_res (py_get services ''v2'' (PDict [])) (\<lambda>v2.
     py_get v2 key (PList [])))"

definition parse_services_v2 :: "manifest_env \<Rightarrow> pyval \<Rightarrow> service_provides list parsed" where
  "parse_services_v2 env data =
     bind_res (services_v2_entry data ''provides'') (\<lambda>entries.
     bind_res (structure_list env entries) (\<lambda>provides.
     bind_res (check_provides_versions env provides) (\<lambda>_. Inr provides)))"

fun is_grant :: "pyval \<Rightarrow> bool" where
  "is_grant (PStr s) = True"
| "is_grant (PDict d) = True"
| "is_grant (PList xs) = True"
| "is_grant _ = False"

definition is_shortname_char :: "char \<Rightarrow> bool" where
  "is_shortname_char c \<longleftrightarrow> is_name_edge c \<or> c = CHR ''_'' \<or> c = CHR ''-''"

definition shortname_body :: "string \<Rightarrow> bool" where
  "shortname_body s \<longleftrightarrow>
     s \<noteq> [] \<and> is_lower_char (hd s) \<and> list_all is_shortname_char (tl s) \<and> length s \<le> 32"

text \<open>One round of the loop of \<open>_parse_services_v2_consumes\<close>.\<close>

definition parse_consume_entry ::
    "manifest_env \<Rightarrow> string list \<Rightarrow> pyval \<Rightarrow> service_consumes parsed" where
  "parse_consume_entry env seen_shortnames entry =
     (case entry of
        PDict d \<Rightarrow>
          (case List.find (\<lambda>k. map_of d k = None) [''service'', ''shortname'', ''version''] of
             Some k \<Rightarrow> Inl (ValueError (ConsumeMissingField k))
           | None \<Rightarrow>
          (case dict_lookup d ''grants'' (PList []) of
             PList grants \<Rightarrow>
               (if \<not> list_all is_grant grants then Inl (ValueError GrantBadType)
                else (case dict_lookup d ''service'' PNone of
                   PStr service \<Rightarrow>
                     (case dict_lookup d ''shortname'' PNone of
                        PStr shortname \<Rightarrow>
                          (if \<not> dollar shortname_body shortname
                           then Inl (ValueError (BadShortname shortname))
                           else if shortname \<in> set seen_shortnames
                           then Inl (ValueError (DuplicateShortname shortname))
                           else if \<not> spec_ok env (dict_lookup d ''version'' PNone)
                           then Inl (ValueError (BadVersionSpecifier shortname))
                           else Inr \<lparr>sc_service = normalize_service_url service,
                                     sc_shortname = shortname,
                                     sc_version = dict_lookup d ''version'' PNone,
                                     sc_grants = grants\<rparr>)
                      | _ \<Rightarrow> Inl TypeError)
                 | _ \<Rightarrow> Inl AttributeError))
           | _ \<Rightarrow> Inl (ValueError GrantsNotList)))
      | _ \<Rightarrow> Inl (ValueError ConsumeNotTable))"

fun parse_consumes_loop ::
    "manifest_env \<Rightarrow> string list \<Rightarrow> pyval list \<Rightarrow> service_consumes list parsed" where
  "parse_consumes_loop env seen [] = Inr []"
| "parse_consumes_loop env seen (entry # rest) =
     bind_res (parse_consume_entry env seen entry) (\<lambda>p.
     bind_res (parse_consumes_loop env (sc_shortname p # seen) rest) (\<lambda>ps. Inr (p # ps)))"

definition parse_services_v2_consumes :: "manifest_env \<Rightarrow> pyval \<Rightarrow> service_consumes list parsed" where
  "parse_services_v2_consumes env data =
     bind_res (services_v2_entry data ''consumes'') (\<lambda>raw_entries.
     bind_res (py_iter raw_entries) (parse_consumes_loop env []))"

section \<open>The parser\<close>

fun is_container_value :: "pyval \<Rightarrow> bool" where
  "is_container_value (PStr s) = True"
| "is_container_value (PList xs) = True"
| "is_container_value (PDict d) = True"
| "is_container_value _ = False"

text \<open>
  \<open>parse_manifest_from_string\<close> after \<open>tomllib.loads\<close>: the checks and the constructor's argument
  expressions in the source's evaluation order. The two warnings about deprecated keys only
  log; \<open>deprecated_flag in data_section\<close> raises \<open>TypeError\<close> on a value that is no container.
\<close>

definition parse_manifest_data :: "manifest_env \<Rightarrow> string \<Rightarrow> (string \<times> pyval) list \<Rightarrow> app_manifest parsed" where
  "parse_manifest_data env raw_text toml =
     (let data = PDict toml; get = (\<lambda>k dflt. dict_lookup toml k dflt); empty = PDict [] in
      bind_res (py_get (get ''app'' empty) ''name'' PNone) (\<lambda>name.
      bind_res (guard_res (truthy name) (ValueError MissingAppName)) (\<lambda>_.
      bind_res (py_get (get ''app'' empty) ''version'' PNone) (\<lambda>version.
      bind_res (guard_res (truthy version) (ValueError MissingAppVersion)) (\<lambda>_.
      bind_res (py_get (get ''runtime'' empty) ''type'' (PStr ''serverfull'')) (\<lambda>runtime_type.
      bind_res (guard_res (runtime_type = PStr ''serverless'' \<or> runtime_type = PStr ''serverfull'')
                 (ValueError (InvalidRuntimeType runtime_type))) (\<lambda>_.
      bind_res (py_get (get ''runtime'' empty) ''container'' empty) (\<lambda>container.
      bind_res (py_get container ''image'' PNone) (\<lambda>image.
      bind_res (guard_res (truthy image) (ValueError MissingImage)) (\<lambda>_.
      bind_res (py_get container ''port'' PNone) (\<lambda>port.
      bind_res (guard_res (truthy port) (ValueError MissingPort)) (\<lambda>_.
      bind_res (py_get container ''shm_mb'' (PInt 0)) (\<lambda>shm_mb.
      bind_res (guard_res (case as_int shm_mb of None \<Rightarrow> False | Some i \<Rightarrow> 0 \<le> i) (ValueError BadShmMb)) (\<lambda>_.
      bind_res (guard_res (is_container_value (get ''data'' empty)) TypeError) (\<lambda>_.
      bind_res (py_get (get ''app'' empty) ''description'' (PStr [])) (\<lambda>description.
      bind_res (py_get (get ''app'' empty) ''authors'' (PList [])) (\<lambda>authors.
      bind_res (py_get (get ''app'' empty) ''hidden'' (PBool False)) (\<lambda>hidden.
      bind_res (py_get container ''command'' PNone) (\<lambda>command.
      bind_res (parse_ports (get ''ports'' (PList []))) (\<lambda>port_mappings.
      bind_res (py_get container ''capabilities'' (PList [])) (\<lambda>caps.
      bind_res (validate_capabilities caps) (\<lambda>capabilities.
      bind_res (py_get container ''devices'' (PList [])) (\<lambda>devs.
      bind_res (validate_devices devs) (\<lambda>devices.
      bind_res (py_get container ''network_host'' (PBool False)) (\<lambda>network_host.
      bind_res (py_get (get ''routing'' empty) ''health_check'' PNone) (\<lambda>health_check.
      bind_res (py_get (get ''routing'' empty) ''public_paths'' (PList [])) (\<lambda>public_paths.
      bind_res (parse_links (get ''links'' (PList []))) (\<lambda>links.
      bind_res (py_get (get ''resources'' empty) ''memory_mb'' (PInt 128)) (\<lambda>memory_mb.
      bind_res (py_get (get ''resources'' empty) ''build_memory_mb'' PNone) (\<lambda>build_memory_mb.
      bind_res (parse_cpu_cores env
                 (case get ''resources'' empty of PDict d \<Rightarrow> d | _ \<Rightarrow> [])) (\<lambda>cpu_cores.
      bind_res (py_get (get ''resources'' empty) ''gpu'' (PBool False)) (\<lambda>gpu.
      bind_res (py_get (get ''data'' empty) ''sqlite'' (PList [])) (\<lambda>sqlite_dbs.
      bind_res (py_get (get ''data'' empty) ''app_data'' (PBool True)) (\<lambda>app_data.
      bind_res (py_get (get ''data'' empty) ''app_temp_data'' (PBool False)) (\<lambda>app_temp_data.
      bind_res (py_get (get ''data'' empty) ''app_archive'' (PBool False)) (\<lambda>app_archive.
      bind_res (py_get (get ''data'' empty) ''access_all_app_data'' (PBool False)) (\<lambda>all_app_data.
      bind_res (py_get (get ''data'' empty) ''access_all_data'' (PBool False)) (\<lambda>all_data.
      bind_res (py_get (get ''data'' empty) ''access_all_archive'' (PBool False)) (\<lambda>all_archive.
      bind_res (parse_services_v2 env data) (\<lambda>provides.
      bind_res (parse_services_v2_consumes env data) (\<lambda>consumes.
      Inr \<lparr>m_name = name, m_version = version, m_description = description, m_authors = authors,
           m_runtime_type = runtime_type, m_container_image = image, m_container_port = port,
           m_container_command = command, m_port_mappings = port_mappings,
           m_capabilities = capabilities, m_devices = devices, m_shm_mb = shm_mb,
           m_network_host = network_host, m_health_check = health_check,
           m_public_paths = public_paths, m_links = links, m_memory_mb = memory_mb,
           m_build_memory_mb = build_memory_mb, m_cpu_cores = cpu_cores, m_gpu = gpu,
           m_sqlite_dbs = sqlite_dbs, m_app_data = app_data, m_app_temp_data = app_temp_data,
           m_app_archive = app_archive,
           m_access_all_app_data = py_or (py_or all_app_data all_data) all_archive,
           m_provides = provides, m_consumes = consumes, m_hidden = hidden,
           m_raw_toml = raw_text\<rparr>)))))))))))))))))))))))))))))))))))))))))"

definition parse_manifest_from_string :: "manifest_env \<Rightarrow> string \<Rightarrow> app_manifest parsed" where
  "parse_manifest_from_string env raw_text =
     (case toml_loads env raw_text of
        None \<Rightarrow> Inl (ValueError TomlError)
      | Some toml \<Rightarrow> parse_manifest_data env raw_text toml)"

text \<open>
  The repository's files as the parser sees them: a path's bytes, None where nothing exists.
\<close>

definition find_manifest_path :: "(string \<Rightarrow> string option) \<Rightarrow> string \<Rightarrow> string option" where
  "find_manifest_path files repo_path =
     List.find (\<lambda>candidate. files candidate \<noteq> None) (map (path_join repo_path) MANIFEST_FILENAMES)"

definition parse_manifest ::
    "manifest_env \<Rightarrow> (string \<Rightarrow> string option) \<Rightarrow> string \<Rightarrow> app_manifest parsed" where
  "parse_manifest env files repo_path =
     (case find_manifest_path files repo_path of
        None \<Rightarrow> Inl (ValueError (NoManifestFound (path_join repo_path (hd MANIFEST_FILENAMES))))
      | Some manifest_path \<Rightarrow>
          (case files manifest_path of
             None \<Rightarrow> Inl (ValueError (NoManifestFound manifest_path))
           | Some raw_bytes \<Rightarrow>
               if utf8_valid raw_bytes then parse_manifest_from_string env raw_bytes
               else Inl (ValueError NotUtf8)))"

section \<open>Declared permissions and the update gate\<close>

record permission_grant =
  pg_service_url :: string
  pg_grant :: pyval

record permission_record =
  pr_consumer_app_id :: string
  pr_service_url :: string
  pr_grant :: pyval
  pr_scope :: string
  pr_provider_app_id :: "string option"

definition all_manifest_permissions_v2 :: "app_manifest \<Rightarrow> permission_grant list" where
  "all_manifest_permissions_v2 manifest =
     concat (map (\<lambda>perm. map (\<lambda>g. \<lparr>pg_service_url = sc_service perm, pg_grant = g\<rparr>) (sc_grants perm))
       (m_consumes manifest))"

definition permission_key :: "manifest_env \<Rightarrow> string \<Rightarrow> pyval \<Rightarrow> string \<times> string" where
  "permission_key env service_url grant_payload =
     (service_url, json_dumps (float_repr env) grant_payload)"

definition grant_key :: "manifest_env \<Rightarrow> permission_grant \<Rightarrow> string \<times> string" where
  "grant_key env pg = permission_key env (pg_service_url pg) (pg_grant pg)"

text \<open>
  The nested loops of \<open>manifest_ungranted_permissions_v2\<close> over the declared grants in order,
  \<open>seen\<close> starting from the granted keys.
\<close>

fun ungranted_loop ::
    "manifest_env \<Rightarrow> (string \<times> string) list \<Rightarrow> permission_grant list \<Rightarrow> permission_grant list" where
  "ungranted_loop env seen [] = []"
| "ungranted_loop env seen (pg # pgs) =
     (if grant_key env pg \<in> set seen then ungranted_loop env seen pgs
      else pg # ungranted_loop env (grant_key env pg # seen) pgs)"

definition manifest_ungranted_permissions_v2 ::
    "manifest_env \<Rightarrow> app_manifest \<Rightarrow> permission_record list \<Rightarrow> permission_grant list" where
  "manifest_ungranted_permissions_v2 env manifest granted =
     ungranted_loop env (map (\<lambda>rec. permission_key env (pr_service_url rec) (pr_grant rec)) granted)
       (all_manifest_permissions_v2 manifest)"

text \<open>
  Only \<open>ValueError\<close> is caught; another exception of the parser leaves the function. The
  previous manifest is absent when it is None or the empty string.
\<close>

definition manifest_newly_declared_permissions_v2 ::
    "manifest_env \<Rightarrow> app_manifest \<Rightarrow> permission_record list \<Rightarrow> string option
       \<Rightarrow> permission_grant list parsed" where
  "manifest_newly_declared_permissions_v2 env manifest granted previous_manifest_raw =
     (let ungranted = manifest_ungranted_permissions_v2 env manifest granted in
      case previous_manifest_raw of
        None \<Rightarrow> Inr ungranted
      | Some raw \<Rightarrow>
          if raw = [] then Inr ungranted
          else (case parse_manifest_from_string env raw of
             Inl (ValueError _) \<Rightarrow> Inr ungranted
           | Inl e \<Rightarrow> Inl e
           | Inr previous \<Rightarrow>
               (let previously_declared = map (grant_key env) (all_manifest_permissions_v2 previous)
                in Inr (filter (\<lambda>pg. grant_key env pg \<notin> set previously_declared) ungranted))))"

section \<open>The settings diff\<close>

text \<open>
  A labelled field's value as the diff sees it: a plain value, or a list of attrs instances
  given by their \<open>asdict\<close> dictionaries.
\<close>

datatype setting_value = SPlain pyval | SAttrs "pyval list"

record setting_label =
  sl_group :: string
  sl_text :: string
  sl_review_required :: bool

definition strs :: "string list \<Rightarrow> pyval" where
  "strs xs = PList (map PStr xs)"

definition port_dict :: "port_mapping \<Rightarrow> pyval" where
  "port_dict pm = PDict [(''label'', PStr (pm_label pm)), (''container_port'', PInt (pm_container_port pm)),
                         (''host_port'', PInt (pm_host_port pm))]"

definition link_dict :: "app_link \<Rightarrow> pyval" where
  "link_dict l = PDict [(''name'', PStr (al_name l)), (''path'', PStr (al_path l))]"

definition provides_dict :: "service_provides \<Rightarrow> pyval" where
  "provides_dict p = PDict [(''service'', PStr (sp_service p)), (''version'', PStr (sp_version p)),
                            (''endpoint'', PStr (sp_endpoint p))]"

text \<open>
  \<open>manifest_setting_labels()\<close> with the reader of each field, in declaration order: every
  \<open>AppManifest\<close> field annotated with a \<open>SettingLabel\<close>.
\<close>

definition manifest_setting_labels ::
    "(setting_label \<times> (app_manifest \<Rightarrow> setting_value)) list" where
  "manifest_setting_labels =
     (let lab = (\<lambda>g t r f. (\<lparr>sl_group = g, sl_text = t, sl_review_required = r\<rparr>, f));
          plain = (\<lambda>f m. SPlain (f m)) in
     [lab ''App'' ''Version'' False (plain m_version),
      lab ''App'' ''Description'' False (plain m_description),
      lab ''App'' ''Authors'' False (plain m_authors),
      lab ''App'' ''Runtime type'' True (plain m_runtime_type),
      lab ''Container'' ''Image'' True (plain m_container_image),
      lab ''Container'' ''Container port'' True (plain m_container_port),
      lab ''Container'' ''Command'' True (plain m_container_command),
      lab ''Ports'' ''Port mappings'' True (\<lambda>m. SAttrs (map port_dict (m_port_mappings m))),
      lab ''Container'' ''Linux capabilities'' True (\<lambda>m. SPlain (strs (m_capabilities m))),
      lab ''Container'' ''Devices'' True (\<lambda>m. SPlain (strs (m_devices m))),
      lab ''Container'' ''Shared memory (MB)'' True (plain m_shm_mb),
      lab ''Container'' ''Host networking'' True (plain m_network_host),
      lab ''Routing'' ''Health check'' False (plain m_health_check),
      lab ''Routing'' ''Public paths'' True (plain m_public_paths),
      lab ''Routing'' ''Links'' False (\<lambda>m. SAttrs (map link_dict (m_links m))),
      lab ''Resources'' ''Memory (MB)'' True (plain m_memory_mb),
      lab ''Resources'' ''Build memory (MB)'' True (plain m_build_memory_mb),
      lab ''Resources'' ''CPU cores'' True (\<lambda>m. SPlain (PFloat (m_cpu_cores m))),
      lab ''Resources'' ''GPU'' True (plain m_gpu),
      lab ''Data'' ''SQLite databases'' True (plain m_sqlite_dbs),
      lab ''Data'' ''Permanent data'' True (plain m_app_data),
      lab ''Data'' ''Temporary data'' True (plain m_app_temp_data),
      lab ''Data'' ''Archive data'' True (plain m_app_archive),
      lab ''Data'' ''Access all app data'' True (plain m_access_all_app_data),
      lab ''Services'' ''Services provided'' True (\<lambda>m. SAttrs (map provides_dict (m_provides m))),
      lab ''App'' ''Hidden'' True (plain m_hidden)])"

record setting_change =
  ch_group :: string
  ch_label :: string
  ch_old :: string
  ch_new :: string
  ch_review_required :: bool

fun setting_eq :: "setting_value \<Rightarrow> setting_value \<Rightarrow> bool" where
  "setting_eq (SPlain a) (SPlain b) = py_eq a b"
| "setting_eq (SAttrs xs) (SAttrs ys) = (xs = ys)"
| "setting_eq _ _ = False"

fun render_pyval :: "manifest_env \<Rightarrow> pyval \<Rightarrow> string" where
  "render_pyval env (PBool b) = (if b then ''yes'' else ''no'')"
| "render_pyval env (PList xs) =
     (if xs = [] then ''(none)'' else join_with '', '' (map (render_pyval env) xs))"
| "render_pyval env (PStr s) = s"
| "render_pyval env (PInt i) = show_int i"
| "render_pyval env (PFloat r) = float_repr env r"
| "render_pyval env PNone = ''None''"
| "render_pyval env v = other_str env v"

fun render_setting_value :: "manifest_env \<Rightarrow> setting_value \<Rightarrow> string" where
  "render_setting_value env (SPlain v) = render_pyval env v"
| "render_setting_value env (SAttrs ds) =
     (if ds = [] then ''(none)'' else join_with '', '' (map (json_dumps (float_repr env)) ds))"

definition manifest_settings_changes ::
    "manifest_env \<Rightarrow> app_manifest \<Rightarrow> string option \<Rightarrow> setting_change list parsed" where
  "manifest_settings_changes env manifest previous_manifest_raw =
     (case previous_manifest_raw of
        None \<Rightarrow> Inr []
      | Some raw \<Rightarrow>
          if raw = [] then Inr []
          else (case parse_manifest_from_string env raw of
             Inl (ValueError _) \<Rightarrow> Inr []
           | Inl e \<Rightarrow> Inl e
           | Inr previous \<Rightarrow>
               Inr (concat (map (\<lambda>(l, field).
                 let old_val = field previous; new_val = field manifest in
                 if setting_eq old_val new_val then []
                 else [\<lparr>ch_group = sl_group l, ch_label = sl_text l,
                        ch_old = render_setting_value env old_val,
                        ch_new = render_setting_value env new_val,
                        ch_review_required = sl_review_required l\<rparr>]) manifest_setting_labels))))"

definition settings_changes_require_review :: "setting_change list \<Rightarrow> bool" where
  "settings_changes_require_review changes = list_ex ch_review_required changes"

section \<open>What a parsed manifest guarantees\<close>

definition ports_wf :: "port_mapping list \<Rightarrow> bool" where
  "ports_wf pms \<longleftrightarrow>
     distinct (map pm_label pms) \<and> distinct (map pm_container_port pms) \<and>
     distinct (filter (\<lambda>h. h \<noteq> 0) (map pm_host_port pms)) \<and>
     (\<forall>pm\<in>set pms. pm_label pm \<noteq> [] \<and> 0 \<le> pm_container_port pm \<and>
        (pm_host_port pm = 0 \<or> UNPRIVILEGED_PORT_FLOOR \<le> pm_host_port pm))"

definition manifest_wf :: "manifest_env \<Rightarrow> app_manifest \<Rightarrow> bool" where
  "manifest_wf env m \<longleftrightarrow>
     truthy (m_name m) \<and> truthy (m_version m) \<and>
     m_runtime_type m \<in> {PStr ''serverless'', PStr ''serverfull''} \<and>
     truthy (m_container_image m) \<and> truthy (m_container_port m) \<and>
     ports_wf (m_port_mappings m) \<and>
     set (m_capabilities m) \<subseteq> set SAFE_CAPABILITIES \<and>
     (\<forall>d\<in>set (m_devices m). py_strip (before_char (CHR '':'') d) \<in> set SAFE_DEVICE_PATHS) \<and>
     (\<forall>l\<in>set (m_links m). al_name l \<noteq> [] \<and> al_path l \<noteq> []) \<and>
     (\<forall>p\<in>set (m_provides m). version_ok env (sp_version p)) \<and>
     distinct (map sc_shortname (m_consumes m)) \<and>
     (\<forall>c\<in>set (m_consumes m). dollar shortname_body (sc_shortname c) \<and>
        spec_ok env (sc_version c) \<and> list_all is_grant (sc_grants c))"

lemma validate_devices_loop_safe:
  "validate_devices_loop xs = Inr vs \<Longrightarrow> d \<in> set vs \<Longrightarrow>
     py_strip (before_char (CHR '':'') d) \<in> set SAFE_DEVICE_PATHS"
proof (induction xs arbitrary: vs)
  case (Cons x xs)
  then show ?case by (cases x) (auto split: if_splits sum.splits)
qed simp

lemma validate_devices_safe:
  "validate_devices v = Inr vs \<Longrightarrow> d \<in> set vs \<Longrightarrow>
     py_strip (before_char (CHR '':'') d) \<in> set SAFE_DEVICE_PATHS"
  by (cases v) (auto simp: validate_devices_def intro: validate_devices_loop_safe)

lemma validate_capabilities_loop_safe:
  "validate_capabilities_loop xs = Inr vs \<Longrightarrow> set vs \<subseteq> set SAFE_CAPABILITIES"
proof (induction xs arbitrary: vs)
  case (Cons x xs)
  then show ?case by (cases x) (auto simp: Let_def split: if_splits sum.splits)
qed simp

lemma validate_capabilities_safe:
  "validate_capabilities v = Inr vs \<Longrightarrow> set vs \<subseteq> set SAFE_CAPABILITIES"
  by (cases v) (auto simp: validate_capabilities_def dest: validate_capabilities_loop_safe)

lemma parse_port_entry_ok:
  assumes "parse_port_entry ls cs hs e = Inr pm"
  shows "pm_label pm \<notin> set ls \<and> pm_label pm \<noteq> [] \<and>
    pm_container_port pm \<notin> set cs \<and> 0 \<le> pm_container_port pm \<and>
    (pm_host_port pm = 0 \<or> UNPRIVILEGED_PORT_FLOOR \<le> pm_host_port pm \<and> pm_host_port pm \<notin> set hs)"
  using assms
  by (auto simp: parse_port_entry_def split: pyval.splits option.splits if_splits)

lemma parse_ports_loop_ok:
  "parse_ports_loop ls cs hs xs = Inr pms \<Longrightarrow>
     ports_wf pms \<and> set ls \<inter> pm_label ` set pms = {} \<and>
     set cs \<inter> pm_container_port ` set pms = {} \<and>
     set hs \<inter> {h \<in> pm_host_port ` set pms. h \<noteq> 0} = {}"
proof (induction xs arbitrary: ls cs hs pms)
  case Nil
  then show ?case by (simp add: ports_wf_def)
next
  case (Cons x xs)
  let ?hs = "\<lambda>pm. if pm_host_port pm \<noteq> 0 then pm_host_port pm # hs else hs"
  from Cons.prems obtain pm pms' where pm: "parse_port_entry ls cs hs x = Inr pm"
    and rest: "parse_ports_loop (pm_label pm # ls) (pm_container_port pm # cs) (?hs pm) xs = Inr pms'"
    and eq: "pms = pm # pms'"
    by (auto split: sum.splits)
  note ok = parse_port_entry_ok [OF pm] and IH = Cons.IH [OF rest]
  have "ports_wf pms"
    using ok IH by (auto simp: eq ports_wf_def image_iff split: if_splits)
  with ok IH show ?case by (auto simp: eq split: if_splits)
qed

lemma parse_ports_wf: "parse_ports v = Inr pms \<Longrightarrow> ports_wf pms"
  by (auto simp: parse_ports_def split: sum.splits dest: parse_ports_loop_ok)

lemma parse_links_loop_ok:
  "parse_links_loop xs = Inr ls \<Longrightarrow> l \<in> set ls \<Longrightarrow> al_name l \<noteq> [] \<and> al_path l \<noteq> []"
proof (induction xs arbitrary: ls)
  case (Cons x xs)
  from Cons.prems(1) obtain d name path ls' where "name \<noteq> []" and "path \<noteq> []"
    and "parse_links_loop xs = Inr ls'" and "ls = \<lparr>al_name = name, al_path = path\<rparr> # ls'"
    by (auto split: pyval.splits if_splits sum.splits)
  with Cons show ?case by auto
qed simp

lemma parse_links_ok:
  "parse_links v = Inr ls \<Longrightarrow> l \<in> set ls \<Longrightarrow> al_name l \<noteq> [] \<and> al_path l \<noteq> []"
  by (cases v) (auto simp: parse_links_def dest: parse_links_loop_ok)

lemma check_provides_versions_ok:
  "check_provides_versions env ps = Inr u \<Longrightarrow> p \<in> set ps \<Longrightarrow> version_ok env (sp_version p)"
  by (induction ps) (auto split: if_splits)

lemma parse_services_v2_ok:
  "parse_services_v2 env data = Inr ps \<Longrightarrow> p \<in> set ps \<Longrightarrow> version_ok env (sp_version p)"
  by (auto simp: parse_services_v2_def res_simps dest: check_provides_versions_ok)

lemma parse_consume_entry_ok:
  assumes "parse_consume_entry env seen e = Inr c"
  shows "sc_shortname c \<notin> set seen \<and> dollar shortname_body (sc_shortname c) \<and>
    spec_ok env (sc_version c) \<and> list_all is_grant (sc_grants c)"
  using assms by (auto simp: parse_consume_entry_def split: pyval.splits option.splits if_splits)

lemma parse_consumes_loop_ok:
  "parse_consumes_loop env seen xs = Inr cs \<Longrightarrow>
     distinct (map sc_shortname cs) \<and> set seen \<inter> sc_shortname ` set cs = {} \<and>
     (\<forall>c\<in>set cs. dollar shortname_body (sc_shortname c) \<and> spec_ok env (sc_version c) \<and>
        list_all is_grant (sc_grants c))"
proof (induction xs arbitrary: seen cs)
  case (Cons x xs)
  from Cons.prems obtain c cs' where c: "parse_consume_entry env seen x = Inr c"
    and rest: "parse_consumes_loop env (sc_shortname c # seen) xs = Inr cs'" and eq: "cs = c # cs'"
    by (auto simp: res_simps)
  from parse_consume_entry_ok [OF c] Cons.IH [OF rest] show ?case
    by (auto simp: eq)
qed simp

lemma parse_services_v2_consumes_ok:
  "parse_services_v2_consumes env data = Inr cs \<Longrightarrow>
     distinct (map sc_shortname cs) \<and>
     (\<forall>c\<in>set cs. dollar shortname_body (sc_shortname c) \<and> spec_ok env (sc_version c) \<and>
        list_all is_grant (sc_grants c))"
  by (auto simp: parse_services_v2_consumes_def res_simps dest: parse_consumes_loop_ok)

text \<open>Which check produced which field: the parser's run, read off the returned record.\<close>

lemma parse_manifest_data_fields:
  assumes "parse_manifest_data env raw toml = Inr m"
  shows "truthy (m_name m) \<and> truthy (m_version m) \<and> truthy (m_container_image m) \<and>
      truthy (m_container_port m) \<and> m_raw_toml m = raw \<and>
      (m_runtime_type m = PStr ''serverless'' \<or> m_runtime_type m = PStr ''serverfull'') \<and>
      (\<exists>v. parse_ports v = Inr (m_port_mappings m)) \<and>
      (\<exists>v. validate_capabilities v = Inr (m_capabilities m)) \<and>
      (\<exists>v. validate_devices v = Inr (m_devices m)) \<and>
      (\<exists>v. parse_links v = Inr (m_links m)) \<and>
      parse_services_v2 env (PDict toml) = Inr (m_provides m) \<and>
      parse_services_v2_consumes env (PDict toml) = Inr (m_consumes m)"
  using assms
  unfolding parse_manifest_data_def Let_def res_simps
  by (elim exE conjE)
    (drule sum.inject(2) [THEN iffD1], hypsubst, simp only: app_manifest.select_convs,
      intro conjI; (rule refl | rule TrueI | assumption | rule exI, assumption))

lemma parse_manifest_data_wf:
  assumes "parse_manifest_data env raw toml = Inr m"
  shows "manifest_wf env m \<and> m_raw_toml m = raw"
proof -
  from parse_manifest_data_fields [OF assms] have
    fields: "truthy (m_name m) \<and> truthy (m_version m) \<and> truthy (m_container_image m) \<and>
      truthy (m_container_port m) \<and> m_raw_toml m = raw \<and>
      (m_runtime_type m = PStr ''serverless'' \<or> m_runtime_type m = PStr ''serverfull'')"
    and parts: "\<exists>v. parse_ports v = Inr (m_port_mappings m)"
      "\<exists>v. validate_capabilities v = Inr (m_capabilities m)"
      "\<exists>v. validate_devices v = Inr (m_devices m)"
      "\<exists>v. parse_links v = Inr (m_links m)"
    and provides: "parse_services_v2 env (PDict toml) = Inr (m_provides m)"
    and consumes: "parse_services_v2_consumes env (PDict toml) = Inr (m_consumes m)"
    by blast+
  obtain v1 v2 v3 v4 where "parse_ports v1 = Inr (m_port_mappings m)"
    and "validate_capabilities v2 = Inr (m_capabilities m)"
    and "validate_devices v3 = Inr (m_devices m)" and "parse_links v4 = Inr (m_links m)"
    using parts by blast
  then have "ports_wf (m_port_mappings m)" and "set (m_capabilities m) \<subseteq> set SAFE_CAPABILITIES"
    and "\<forall>d\<in>set (m_devices m). py_strip (before_char (CHR '':'') d) \<in> set SAFE_DEVICE_PATHS"
    and "\<forall>l\<in>set (m_links m). al_name l \<noteq> [] \<and> al_path l \<noteq> []"
    using parse_ports_wf validate_capabilities_safe validate_devices_safe parse_links_ok by blast+
  moreover have "\<forall>p\<in>set (m_provides m). version_ok env (sp_version p)"
    using parse_services_v2_ok [OF provides] by blast
  ultimately show ?thesis
    using fields parse_services_v2_consumes_ok [OF consumes] by (simp add: manifest_wf_def)
qed

section \<open>Properties\<close>

definition manifest_keys :: "manifest_env \<Rightarrow> permission_grant list \<Rightarrow> (string \<times> string) set" where
  "manifest_keys env pgs = grant_key env ` set pgs"

definition granted_keys :: "manifest_env \<Rightarrow> permission_record list \<Rightarrow> (string \<times> string) set" where
  "granted_keys env granted =
     (\<lambda>rec. permission_key env (pr_service_url rec) (pr_grant rec)) ` set granted"

lemma ungranted_loop_keys:
  "grant_key env ` set (ungranted_loop env seen pgs) = grant_key env ` set pgs - set seen"
  by (induction pgs arbitrary: seen) auto

lemma ungranted_loop_distinct:
  "distinct (map (grant_key env) (ungranted_loop env seen pgs))"
proof (induction pgs arbitrary: seen)
  case (Cons pg pgs)
  have "grant_key env pg \<notin> grant_key env ` set (ungranted_loop env (grant_key env pg # seen) pgs)"
    by (simp add: ungranted_loop_keys)
  with Cons show ?case by simp
qed simp

lemma ungranted_loop_subseq: "subseq (ungranted_loop env seen pgs) pgs"
  by (induction pgs arbitrary: seen) auto

lemma ungranted_keys:
  "manifest_keys env (manifest_ungranted_permissions_v2 env m granted) =
     manifest_keys env (all_manifest_permissions_v2 m) - granted_keys env granted"
  by (simp add: manifest_ungranted_permissions_v2_def ungranted_loop_keys manifest_keys_def
      granted_keys_def)

lemma safe_capability_fixed: "c \<in> set SAFE_CAPABILITIES \<Longrightarrow> capability_name c = c"
proof -
  have "list_all (\<lambda>c. capability_name c = c) SAFE_CAPABILITIES" by code_simp
  then show "c \<in> set SAFE_CAPABILITIES \<Longrightarrow> capability_name c = c" by (simp add: list_all_iff)
qed

lemma validate_capabilities_loop_fixed:
  "set vs \<subseteq> set SAFE_CAPABILITIES \<Longrightarrow> validate_capabilities_loop (map PStr vs) = Inr vs"
  by (induction vs) (auto simp: Let_def safe_capability_fixed)

lemma settings_changes_of_parsed:
  assumes "raw \<noteq> []" and "parse_manifest_from_string env raw = Inr prev"
    and "manifest_settings_changes env m (Some raw) = Inr cs"
  shows "map ch_review_required cs =
    map (\<lambda>(l, f). sl_review_required l)
      (filter (\<lambda>(l, f). \<not> setting_eq (f prev) (f m)) manifest_setting_labels)"
proof -
  let ?h = "\<lambda>(l :: setting_label, field). let old_val = field prev; new_val = field m in
      if setting_eq old_val new_val then []
      else [\<lparr>ch_group = sl_group l, ch_label = sl_text l,
             ch_old = render_setting_value env old_val, ch_new = render_setting_value env new_val,
             ch_review_required = sl_review_required l\<rparr>]"
  have "map ch_review_required (concat (map ?h ls)) =
      map (\<lambda>(l, f). sl_review_required l) (filter (\<lambda>(l, f). \<not> setting_eq (f prev) (f m)) ls)" for ls
    by (induction ls) (auto simp: Let_def)
  moreover have "cs = concat (map ?h manifest_setting_labels)"
    using assms by (simp add: manifest_settings_changes_def)
  ultimately show ?thesis by (simp only:)
qed

text \<open>
  A small manifest and environment on which the witnesses run: one fixed port, one assigned
  port, a capability written with its prefix, a device and one consumed service.
\<close>

definition demo_toml :: "(string \<times> pyval) list" where
  "demo_toml =
     [(''app'', PDict [(''name'', PStr ''notes''), (''version'', PStr ''1.0'')]),
      (''runtime'', PDict [(''container'', PDict [(''image'', PStr ''Dockerfile''), (''port'', PInt 8080),
          (''capabilities'', PList [PStr ''cap_chown'']), (''devices'', PList [PStr ''/dev/fuse:/dev/f''])])]),
      (''ports'', PList [PDict [(''label'', PStr ''ssh''), (''container_port'', PInt 22), (''host_port'', PInt 2222)],
                         PDict [(''label'', PStr ''web''), (''container_port'', PInt 80)]]),
      (''services'', PDict [(''v2'', PDict [(''consumes'',
          PList [PDict [(''service'', PStr ''https://example.com/secrets/''), (''shortname'', PStr ''sec''),
                        (''version'', PStr ''>=1''), (''grants'', PList [PStr ''read'', PStr ''write''])]])])])]"

definition demo_old_toml :: "(string \<times> pyval) list" where
  "demo_old_toml =
     [(''app'', PDict [(''name'', PStr ''notes''), (''version'', PStr ''0.9'')]),
      (''runtime'', PDict [(''container'', PDict [(''image'', PStr ''Dockerfile''), (''port'', PInt 8080)])]),
      (''services'', PDict [(''v2'', PDict [(''consumes'',
          PList [PDict [(''service'', PStr ''example.com/secrets''), (''shortname'', PStr ''s''),
                        (''version'', PStr ''>=1''), (''grants'', PList [PStr ''read''])]])])])]"

definition demo_env :: manifest_env where
  "demo_env = \<lparr>toml_loads = (\<lambda>raw. if raw = ''new'' then Some demo_toml
                              else if raw = ''old'' then Some demo_old_toml else None),
     structure_provides = (\<lambda>_. None), version_ok = (\<lambda>_. True), spec_ok = (\<lambda>_. True),
     float_of_str = (\<lambda>_. None), float_repr = (\<lambda>_. ''0.1''), other_str = (\<lambda>_. ''?'')\<rparr>"

definition demo_manifest :: app_manifest where
  "demo_manifest = projr (parse_manifest_from_string demo_env ''new'')"

definition demo_old_manifest :: app_manifest where
  "demo_old_manifest = projr (parse_manifest_from_string demo_env ''old'')"

lemma demo_parse: "parse_manifest_from_string demo_env ''new'' = Inr demo_manifest"
proof -
  have "\<not> isl (parse_manifest_from_string demo_env ''new'')" by code_simp
  then show ?thesis by (simp add: demo_manifest_def)
qed

lemma demo_old_parse: "parse_manifest_from_string demo_env ''old'' = Inr demo_old_manifest"
proof -
  have "\<not> isl (parse_manifest_from_string demo_env ''old'')" by code_simp
  then show ?thesis by (simp add: demo_old_manifest_def)
qed

lemma parse_manifest_implies_wf:
  "parse_manifest_from_string env raw = Inr m \<Longrightarrow> manifest_wf env m"
  by (auto simp: parse_manifest_from_string_def split: option.splits dest: parse_manifest_data_wf)

text \<open>C1. A manifest that parses is well formed: name, version, image and port are present, the
  runtime type is one of the two known ones, every capability and device is on its allowlist,
  port labels, container ports and fixed host ports do not repeat and no fixed host port is below
  the unprivileged floor, links are complete, provided versions are valid, and the consumed
  services have distinct, well-formed shortnames. The raw text is kept.\<close>

theorem parse_manifest_wf:
  assumes "parse_manifest_from_string env raw = Inr m"
  shows "manifest_wf env m \<and> m_raw_toml m = raw"
  using assms
  by (auto simp: parse_manifest_from_string_def split: option.splits dest: parse_manifest_data_wf)

theorem parse_manifest_wf_witness:
  "manifest_wf demo_env demo_manifest \<and> m_raw_toml demo_manifest = ''new''"
  using parse_manifest_wf [OF demo_parse] by simp

text \<open>The permissions still to be approved are exactly the declared ones whose normalised key
  is not granted, each key once, in the order of the manifest.\<close>

lemma ungranted_permissions_exact:
  "manifest_keys env (manifest_ungranted_permissions_v2 env m granted) =
     manifest_keys env (all_manifest_permissions_v2 m) - granted_keys env granted
   \<and> distinct (map (grant_key env) (manifest_ungranted_permissions_v2 env m granted))
   \<and> subseq (manifest_ungranted_permissions_v2 env m granted) (all_manifest_permissions_v2 m)"
  by (simp add: ungranted_keys)
    (simp add: manifest_ungranted_permissions_v2_def ungranted_loop_distinct ungranted_loop_subseq)

text \<open>The update gate: with a parseable deployed manifest the permissions held for approval
  are those declared now, not granted and not declared before, so a permission the owner revoked
  is not asked for again and one the author added is; with a deployed manifest that raises
  \<open>ValueError\<close> everything not granted is held.\<close>

lemma newly_declared_permissions_gate:
  assumes "raw \<noteq> []"
  shows "(parse_manifest_from_string env raw = Inr prev \<longrightarrow>
      (\<exists>pgs. manifest_newly_declared_permissions_v2 env m granted (Some raw) = Inr pgs \<and>
         manifest_keys env pgs = manifest_keys env (all_manifest_permissions_v2 m)
           - granted_keys env granted - manifest_keys env (all_manifest_permissions_v2 prev)))
    \<and> (parse_manifest_from_string env raw = Inl (ValueError e) \<longrightarrow>
         manifest_newly_declared_permissions_v2 env m granted (Some raw) =
           Inr (manifest_ungranted_permissions_v2 env m granted))"
proof -
  have "manifest_keys env (filter (\<lambda>pg. grant_key env pg \<notin> S) pgs) = manifest_keys env pgs - S"
    for S pgs by (auto simp: manifest_keys_def)
  then show ?thesis
    using assms
    by (auto simp: manifest_newly_declared_permissions_v2_def ungranted_keys Let_def)
      (auto simp: manifest_keys_def)
qed

lemma newly_declared_permissions_gate_witness:
  "\<exists>pgs. manifest_newly_declared_permissions_v2 demo_env demo_manifest [] (Some ''old'') = Inr pgs \<and>
     manifest_keys demo_env pgs = manifest_keys demo_env (all_manifest_permissions_v2 demo_manifest)
       - granted_keys demo_env [] - manifest_keys demo_env (all_manifest_permissions_v2 demo_old_manifest)"
  using newly_declared_permissions_gate [of "''old''" demo_env demo_old_manifest demo_manifest "[]"]
    demo_old_parse by simp

text \<open>The settings diff asks for review exactly when a labelled field that needs review has
  changed, and it is empty exactly when no labelled field has changed.\<close>

lemma settings_diff_gate:
  assumes "raw \<noteq> []" and "parse_manifest_from_string env raw = Inr prev"
    and "manifest_settings_changes env m (Some raw) = Inr cs"
  shows "(settings_changes_require_review cs \<longleftrightarrow>
      (\<exists>(l, f)\<in>set manifest_setting_labels. sl_review_required l \<and> \<not> setting_eq (f prev) (f m)))
    \<and> (cs = [] \<longleftrightarrow> (\<forall>(l, f)\<in>set manifest_setting_labels. setting_eq (f prev) (f m)))"
proof -
  note flags = settings_changes_of_parsed [OF assms]
  have "settings_changes_require_review cs \<longleftrightarrow> True \<in> set (map ch_review_required cs)"
    by (auto simp: settings_changes_require_review_def list_ex_iff)
  moreover have "cs = [] \<longleftrightarrow> map ch_review_required cs = []" by simp
  ultimately show ?thesis unfolding flags
    by (force simp: filter_empty_conv)
qed

lemma settings_diff_gate_witness:
  "\<exists>cs. manifest_settings_changes demo_env demo_manifest (Some ''old'') = Inr cs \<and>
     (settings_changes_require_review cs \<longleftrightarrow>
      (\<exists>(l, f)\<in>set manifest_setting_labels. sl_review_required l \<and>
         \<not> setting_eq (f demo_old_manifest) (f demo_manifest)))"
proof -
  obtain cs where "manifest_settings_changes demo_env demo_manifest (Some ''old'') = Inr cs"
    by (auto simp: manifest_settings_changes_def demo_old_parse)
  then show ?thesis
    using settings_diff_gate [OF _ demo_old_parse, of demo_manifest cs] by auto
qed

text \<open>Validating capabilities normalises them to a fixed point: the accepted names are on the
  allowlist and validate to themselves.\<close>

lemma validate_capabilities_idempotent:
  assumes "validate_capabilities v = Inr vs"
  shows "set vs \<subseteq> set SAFE_CAPABILITIES \<and> validate_capabilities (strs vs) = Inr vs"
  using validate_capabilities_safe [OF assms] validate_capabilities_loop_fixed
  by (simp add: validate_capabilities_def strs_def)

end
