(* ===== verification/Db.thy ===== *)
theory Db
  imports Manifest
begin

text \<open>
  The router's SQLite database (\<open>db/schema.sql\<close>): one list of rows per table, its uniqueness
  constraints and the cascading foreign keys into \<open>apps\<close>. Columns copied unchecked from a
  manifest keep their dynamic type, as SQLite columns do; JSON columns hold the decoded value.
\<close>

datatype app_status = Building | Starting | Running | Stopped | Errored | Removing

instantiation app_status :: linorder
begin

fun status_rank :: "app_status \<Rightarrow> nat" where
  "status_rank Building = 0" | "status_rank Errored = 1" | "status_rank Removing = 2"
| "status_rank Running = 3" | "status_rank Starting = 4" | "status_rank Stopped = 5"

definition less_eq_app_status :: "app_status \<Rightarrow> app_status \<Rightarrow> bool" where
  "less_eq_app_status a b \<longleftrightarrow> status_rank a \<le> status_rank b"

definition less_app_status :: "app_status \<Rightarrow> app_status \<Rightarrow> bool" where
  "less_app_status a b \<longleftrightarrow> status_rank a < status_rank b"

instance
proof
  fix a b c :: app_status
  show "a < b \<longleftrightarrow> a \<le> b \<and> \<not> b \<le> a" by (auto simp: less_app_status_def less_eq_app_status_def)
  show "a \<le> a" by (simp add: less_eq_app_status_def)
  show "a \<le> b \<Longrightarrow> b \<le> c \<Longrightarrow> a \<le> c" by (simp add: less_eq_app_status_def)
  show "a \<le> b \<Longrightarrow> b \<le> a \<Longrightarrow> a = b"
    by (cases a; cases b) (simp_all add: less_eq_app_status_def)
  show "a \<le> b \<or> b \<le> a" by (auto simp: less_eq_app_status_def)
qed

end

record app_row =
  a_app_id :: string
  a_name :: string
  a_manifest_name :: pyval
  a_version :: pyval
  a_description :: pyval
  a_runtime_type :: pyval
  a_repo_path :: string
  a_repo_url :: "string option"
  a_health_check :: pyval
  a_local_port :: int
  a_container_port :: pyval
  a_container_id :: "string option"
  a_status :: app_status
  a_error_message :: "string option"
  a_memory_mb :: pyval
  a_cpu_cores :: rat
  a_gpu :: pyval
  a_public_paths :: pyval
  a_links :: "app_link list"
  a_manifest_raw :: "string option"
  a_created_at :: int

record port_row =
  p_app_id :: string
  p_label :: string
  p_container_port :: int
  p_host_port :: int

record database_row =
  d_app_id :: string
  d_db_name :: string
  d_db_path :: string

record app_token_row =
  t_app_id :: string
  t_token_hash :: string

record provider_row =
  v_service_url :: string
  v_app_id :: string
  v_service_version :: string
  v_endpoint :: string

record permission_row =
  r_consumer_app_id :: string
  r_service_url :: string
  r_grant_payload :: string
  r_scope :: string
  r_provider_app_id :: string

record default_row =
  f_service_url :: string
  f_app_id :: string

record user_row =
  u_user_id :: int
  u_username :: string
  u_password_hash :: string

record session_row =
  s_token_hash :: string
  s_user_id :: int
  s_expires_at :: int

record api_token_row =
  k_id :: int
  k_name :: string
  k_token_hash :: string
  k_expires_at :: "int option"
  k_created_at :: int

datatype cert_status = CertNone | CertAcquiring | CertActive | CertError

record domain_row =
  n_name :: string
  n_tls :: bool
  n_is_primary :: bool
  n_cert_status :: cert_status
  n_error_message :: "string option"

record db =
  apps :: "app_row list"
  app_port_mappings :: "port_row list"
  app_databases :: "database_row list"
  app_tokens :: "app_token_row list"
  service_providers :: "provider_row list"
  permissions :: "permission_row list"
  service_defaults :: "default_row list"
  users :: "user_row list"
  sessions :: "session_row list"
  api_tokens :: "api_token_row list"
  domains :: "domain_row list"
  settings :: "(string \<times> string) list"

definition empty_db :: db where
  "empty_db = \<lparr>apps = [], app_port_mappings = [], app_databases = [], app_tokens = [],
     service_providers = [], permissions = [], service_defaults = [], users = [], sessions = [],
     api_tokens = [], domains = [], settings = []\<rparr>"

text \<open>The constraints of the \<open>apps\<close> table and of the tables that reference it.\<close>

definition app_ids :: "db \<Rightarrow> string set" where
  "app_ids db = a_app_id ` set (apps db)"

definition apps_ok :: "app_row list \<Rightarrow> bool" where
  "apps_ok rows \<longleftrightarrow>
     distinct (map a_app_id rows) \<and> distinct (map a_name rows) \<and> distinct (map a_local_port rows)"

definition ports_ok :: "port_row list \<Rightarrow> bool" where
  "ports_ok rows \<longleftrightarrow>
     distinct (map (\<lambda>r. (p_app_id r, p_label r)) rows) \<and> distinct (map p_host_port rows)"

definition tokens_ok :: "app_token_row list \<Rightarrow> bool" where
  "tokens_ok rows \<longleftrightarrow> distinct (map t_app_id rows) \<and> distinct (map t_token_hash rows)"

definition foreign_keys_ok :: "db \<Rightarrow> bool" where
  "foreign_keys_ok db \<longleftrightarrow>
     p_app_id ` set (app_port_mappings db) \<subseteq> app_ids db \<and>
     d_app_id ` set (app_databases db) \<subseteq> app_ids db \<and>
     t_app_id ` set (app_tokens db) \<subseteq> app_ids db \<and>
     v_app_id ` set (service_providers db) \<subseteq> app_ids db \<and>
     r_consumer_app_id ` set (permissions db) \<subseteq> app_ids db \<and>
     f_app_id ` set (service_defaults db) \<subseteq> app_ids db"

definition db_ok :: "db \<Rightarrow> bool" where
  "db_ok db \<longleftrightarrow>
     apps_ok (apps db) \<and> ports_ok (app_port_mappings db) \<and> tokens_ok (app_tokens db) \<and>
     distinct (map (\<lambda>r. (d_app_id r, d_db_name r)) (app_databases db)) \<and>
     distinct (map (\<lambda>r. (v_service_url r, v_app_id r, v_service_version r)) (service_providers db)) \<and>
     distinct (permissions db) \<and>
     distinct (map f_service_url (service_defaults db)) \<and>
     foreign_keys_ok db"

text \<open>
  \<open>UPDATE apps SET ... WHERE app_id = ?\<close> and \<open>DELETE FROM apps WHERE app_id = ?\<close> on a connection
  with \<open>foreign_keys = ON\<close>, which cascades to the six tables that reference the row.
\<close>

definition update_app :: "string \<Rightarrow> (app_row \<Rightarrow> app_row) \<Rightarrow> db \<Rightarrow> db" where
  "update_app app_id f db = db\<lparr>apps := update_rows (\<lambda>r. a_app_id r = app_id) f (apps db)\<rparr>"

definition delete_app_cascade :: "string \<Rightarrow> db \<Rightarrow> db" where
  "delete_app_cascade app_id db = db\<lparr>
     apps := delete_rows (\<lambda>r. a_app_id r = app_id) (apps db),
     app_port_mappings := delete_rows (\<lambda>r. p_app_id r = app_id) (app_port_mappings db),
     app_databases := delete_rows (\<lambda>r. d_app_id r = app_id) (app_databases db),
     app_tokens := delete_rows (\<lambda>r. t_app_id r = app_id) (app_tokens db),
     service_providers := delete_rows (\<lambda>r. v_app_id r = app_id) (service_providers db),
     permissions := delete_rows (\<lambda>r. r_consumer_app_id r = app_id) (permissions db),
     service_defaults := delete_rows (\<lambda>r. f_app_id r = app_id) (service_defaults db)\<rparr>"

definition find_app :: "string \<Rightarrow> db \<Rightarrow> app_row option" where
  "find_app app_id db = List.find (\<lambda>r. a_app_id r = app_id) (apps db)"

text \<open>\<open>find_app_by_name\<close> of \<open>core/apps.py\<close>.\<close>

definition find_app_by_name :: "db \<Rightarrow> string \<Rightarrow> app_row option" where
  "find_app_by_name db name = List.find (\<lambda>r. a_name r = name) (apps db)"

text \<open>\<open>INSERT OR REPLACE INTO app_tokens\<close>: rows that clash on either unique column go first.\<close>

definition replace_app_token :: "string \<Rightarrow> string \<Rightarrow> db \<Rightarrow> db" where
  "replace_app_token app_id token_hash db = db\<lparr>app_tokens :=
     delete_rows (\<lambda>r. t_app_id r = app_id \<or> t_token_hash r = token_hash) (app_tokens db)
       @ [\<lparr>t_app_id = app_id, t_token_hash = token_hash\<rparr>]\<rparr>"

section \<open>The constraints are kept\<close>

definition key_preserving :: "(app_row \<Rightarrow> app_row) \<Rightarrow> bool" where
  "key_preserving f \<longleftrightarrow>
     (\<forall>r. a_app_id (f r) = a_app_id r \<and> a_name (f r) = a_name r \<and> a_local_port (f r) = a_local_port r)"

lemma find_app_SomeD: "find_app i db = Some r \<Longrightarrow> r \<in> set (apps db) \<and> a_app_id r = i"
  by (auto simp: find_app_def dest: find_SomeD)

lemma find_app_None_iff: "find_app i db = None \<longleftrightarrow> i \<notin> app_ids db"
  by (auto simp: find_app_def app_ids_def find_None_iff)

lemma app_ids_update_rows:
  assumes "key_preserving f"
  shows "app_ids (db\<lparr>apps := update_rows P f (apps db)\<rparr>) = app_ids db"
proof -
  have "map a_app_id (update_rows P f (apps db)) = map a_app_id (apps db)"
    by (rule map_update_rows_same) (use assms in \<open>simp add: key_preserving_def\<close>)
  then have "set (map a_app_id (update_rows P f (apps db))) = set (map a_app_id (apps db))"
    by (rule arg_cong)
  then show ?thesis by (simp add: app_ids_def)
qed

lemma app_ids_update_app:
  "key_preserving f \<Longrightarrow> app_ids (update_app i f db) = app_ids db"
  unfolding update_app_def by (rule app_ids_update_rows)

lemma apps_ok_update:
  assumes "key_preserving f" and "apps_ok rows"
  shows "apps_ok (update_rows P f rows)"
  using assms map_update_rows_same [of P a_app_id f] map_update_rows_same [of P a_name f]
    map_update_rows_same [of P a_local_port f]
  by (simp add: apps_ok_def key_preserving_def)

lemma db_ok_update_rows [inv_intros]:
  assumes "key_preserving f" and "db_ok db"
  shows "db_ok (db\<lparr>apps := update_rows P f (apps db)\<rparr>)"
  using assms apps_ok_update app_ids_update_rows [OF assms(1), of P db]
  by (simp add: db_ok_def foreign_keys_ok_def)

lemma db_ok_update_app [inv_intros]:
  "key_preserving f \<Longrightarrow> db_ok db \<Longrightarrow> db_ok (update_app i f db)"
  unfolding update_app_def by (rule db_ok_update_rows)

lemma db_ok_delete_app_cascade [inv_intros]: "db_ok db \<Longrightarrow> db_ok (delete_app_cascade i db)"
  by (auto simp: db_ok_def delete_app_cascade_def apps_ok_def ports_ok_def tokens_ok_def
      foreign_keys_ok_def app_ids_def distinct_delete_rows table_simps)
    (simp add: delete_rows_def)

lemma db_ok_replace_app_token [inv_intros]:
  assumes "db_ok db" and "i \<in> app_ids db"
  shows "db_ok (replace_app_token i h db)"
  using assms
  by (auto simp: db_ok_def replace_app_token_def tokens_ok_def foreign_keys_ok_def app_ids_def
      distinct_delete_rows table_simps)

lemma find_app_update_app:
  assumes "key_preserving f"
  shows "find_app i (update_app j f db) =
    map_option (\<lambda>r. if i = j then f r else r) (find_app i db)"
proof -
  have "List.find (\<lambda>r. a_app_id r = i) (update_rows (\<lambda>r. a_app_id r = j) f (apps db)) =
      map_option (\<lambda>r. if a_app_id r = j then f r else r) (List.find (\<lambda>r. a_app_id r = i) (apps db))"
    by (rule find_update_rows_same) (use assms in \<open>auto simp: key_preserving_def\<close>)
  then show ?thesis
    by (cases "List.find (\<lambda>r. a_app_id r = i) (apps db)")
      (auto simp: find_app_def update_app_def dest: find_SomeD)
qed

lemma find_app_delete_cascade:
  "find_app i (delete_app_cascade j db) = (if i = j then None else find_app i db)"
  by (auto simp: find_app_def delete_app_cascade_def find_delete_same intro: find_delete_rows)

lemma delete_app_cascade_no_rows:
  "i \<notin> app_ids (delete_app_cascade i db)"
  by (simp add: find_app_None_iff [symmetric] find_app_delete_cascade)

lemma empty_db_ok: "db_ok empty_db"
  by (simp add: db_ok_def empty_db_def apps_ok_def ports_ok_def tokens_ok_def foreign_keys_ok_def)

section \<open>A small database for the concrete instances\<close>

definition demo_domain_row :: "string \<Rightarrow> bool \<Rightarrow> domain_row" where
  "demo_domain_row n p = \<lparr>n_name = n, n_tls = True, n_is_primary = p, n_cert_status = CertActive,
     n_error_message = None\<rparr>"

definition demo_app :: "string \<Rightarrow> string \<Rightarrow> int \<Rightarrow> app_status \<Rightarrow> app_row" where
  "demo_app i n port st = \<lparr>a_app_id = i, a_name = n, a_manifest_name = PStr n, a_version = PStr ''1'',
     a_description = PStr [], a_runtime_type = PStr ''serverfull'', a_repo_path = ''/r'', a_repo_url = None,
     a_health_check = PNone, a_local_port = port, a_container_port = PInt 80, a_container_id = None,
     a_status = st, a_error_message = None, a_memory_mb = PInt 128, a_cpu_cores = 1 / 10, a_gpu = PInt 0,
     a_public_paths = PList [], a_links = [], a_manifest_raw = None, a_created_at = 0\<rparr>"

definition demo_db :: db where
  "demo_db = empty_db\<lparr>
     apps := [demo_app ''A1'' ''notes'' 9000 Running, demo_app ''A2'' ''chat'' 9001 Stopped],
     domains := [demo_domain_row ''example.com'' True, demo_domain_row ''home.example.com'' False]\<rparr>"

lemma demo_db_ok: "db_ok demo_db"
  by (simp add: demo_db_def db_ok_def apps_ok_def ports_ok_def tokens_ok_def foreign_keys_ok_def
      empty_db_def demo_app_def)

end
