(* ===== verification/Permissions.thy ===== *)
theory Permissions
  imports Db
begin

text \<open>
  \<open>core/auth/permissions_v2.py\<close>: grants of a service to a consumer app, stored by the canonical
  JSON text of the grant. \<open>fr\<close> prints floats (see \<open>PyValues\<close>), \<open>loads\<close> is \<open>json.loads\<close>.
  The connections come from \<open>get_db\<close>, which enforces foreign keys.
\<close>

record granted_permission =
  gp_grant :: pyval
  gp_scope :: string
  gp_provider_app_id :: "string option"

datatype permission_error = PermissionIntegrityError

text \<open>The column stores '' for None; \<open>x or ''\<close> one way, \<open>x or None\<close> the other.\<close>

definition provider_column :: "string option \<Rightarrow> string" where
  "provider_column p = (case p of None \<Rightarrow> [] | Some s \<Rightarrow> s)"

definition provider_of_column :: "string \<Rightarrow> string option" where
  "provider_of_column s = (if s = [] then None else Some s)"

definition get_granted_permissions_v2 ::
    "(string \<Rightarrow> pyval) \<Rightarrow> db \<Rightarrow> string \<Rightarrow> string \<Rightarrow> granted_permission list" where
  "get_granted_permissions_v2 loads db consumer_app_id service_url =
     map (\<lambda>r. \<lparr>gp_grant = loads (r_grant_payload r), gp_scope = r_scope r,
              gp_provider_app_id = provider_of_column (r_provider_app_id r)\<rparr>)
       (filter (\<lambda>r. r_consumer_app_id r = consumer_app_id \<and> r_service_url r = service_url)
         (permissions db))"

definition permission_row_of ::
    "(rat \<Rightarrow> string) \<Rightarrow> string \<Rightarrow> string \<Rightarrow> pyval \<Rightarrow> string \<Rightarrow> string option \<Rightarrow> permission_row" where
  "permission_row_of fr consumer_app_id service_url grant_payload scope provider_app_id =
     \<lparr>r_consumer_app_id = consumer_app_id, r_service_url = service_url,
      r_grant_payload = json_dumps fr grant_payload, r_scope = scope,
      r_provider_app_id = provider_column provider_app_id\<rparr>"

text \<open>
  \<open>INSERT OR IGNORE\<close>: a row that repeats the primary key (all five columns) or violates the
  \<open>CHECK\<close> on the scope is skipped; a consumer that is not an app violates the foreign key, which
  is not ignored.
\<close>

definition grant_permission_v2 ::
    "(rat \<Rightarrow> string) \<Rightarrow> db \<Rightarrow> string \<Rightarrow> string \<Rightarrow> pyval \<Rightarrow> string \<Rightarrow> string option
       \<Rightarrow> permission_error + db" where
  "grant_permission_v2 fr db consumer_app_id service_url grant_payload scope provider_app_id =
     (let row = permission_row_of fr consumer_app_id service_url grant_payload scope provider_app_id in
      if scope \<noteq> ''global'' \<and> scope \<noteq> ''app'' then Inr db
      else if row \<in> set (permissions db) then Inr db
      else if consumer_app_id \<notin> app_ids db then Inl PermissionIntegrityError
      else Inr (db\<lparr>permissions := permissions db @ [row]\<rparr>))"

definition revoke_permission_v2 ::
    "(rat \<Rightarrow> string) \<Rightarrow> db \<Rightarrow> string \<Rightarrow> string \<Rightarrow> pyval \<Rightarrow> string \<Rightarrow> string option \<Rightarrow> db \<times> bool" where
  "revoke_permission_v2 fr db consumer_app_id service_url grant_payload scope provider_app_id =
     (let row = permission_row_of fr consumer_app_id service_url grant_payload scope provider_app_id in
      (db\<lparr>permissions := delete_rows (\<lambda>r. r = row) (permissions db)\<rparr>,
       exists_row (\<lambda>r. r = row) (permissions db)))"

definition permission_record_of :: "(string \<Rightarrow> pyval) \<Rightarrow> permission_row \<Rightarrow> permission_record" where
  "permission_record_of loads r =
     \<lparr>pr_consumer_app_id = r_consumer_app_id r, pr_service_url = r_service_url r,
      pr_grant = loads (r_grant_payload r), pr_scope = r_scope r,
      pr_provider_app_id = provider_of_column (r_provider_app_id r)\<rparr>"

definition get_all_permissions_v2 ::
    "(string \<Rightarrow> pyval) \<Rightarrow> db \<Rightarrow> string option \<Rightarrow> permission_record list" where
  "get_all_permissions_v2 loads db consumer_app_id =
     map (permission_record_of loads)
       (case non_empty consumer_app_id of
          Some c \<Rightarrow> sort_key r_service_url (filter (\<lambda>r. r_consumer_app_id r = c) (permissions db))
        | None \<Rightarrow> sort_key r_consumer_app_id (sort_key r_service_url (permissions db)))"

section \<open>Facts\<close>

lemma grant_keeps_apps:
  "grant_permission_v2 fr db c u g s p = Inr db' \<Longrightarrow> apps db' = apps db \<and> app_ids db' = app_ids db"
  by (auto simp: grant_permission_v2_def Let_def app_ids_def split: if_splits)

lemma app_ids_permissions [simp]: "app_ids (db\<lparr>permissions := x\<rparr>) = app_ids db"
  by (simp add: app_ids_def)

text \<open>The only constraints that mention the table.\<close>

lemma db_ok_permissionsI:
  assumes "db_ok db" and "distinct x" and "r_consumer_app_id ` set x \<subseteq> app_ids db"
  shows "db_ok (db\<lparr>permissions := x\<rparr>)"
  using assms unfolding db_ok_def foreign_keys_ok_def by simp

lemma db_ok_permissionsD:
  "db_ok db \<Longrightarrow> distinct (permissions db) \<and> r_consumer_app_id ` set (permissions db) \<subseteq> app_ids db"
  unfolding db_ok_def foreign_keys_ok_def by simp

lemma grant_cases:
  assumes "grant_permission_v2 fr db c u g s p = Inr db'"
  shows "db' = db \<or> (c \<in> app_ids db \<and> permission_row_of fr c u g s p \<notin> set (permissions db)
    \<and> db' = db\<lparr>permissions := permissions db @ [permission_row_of fr c u g s p]\<rparr>)"
  using assms by (auto simp: grant_permission_v2_def Let_def split: if_splits)

lemma grant_db_ok [inv_intros]:
  assumes "db_ok db" and "grant_permission_v2 fr db c u g s p = Inr db'"
  shows "db_ok db'"
proof -
  let ?row = "permission_row_of fr c u g s p"
  have "db_ok (db\<lparr>permissions := permissions db @ [?row]\<rparr>)"
    if "c \<in> app_ids db" "?row \<notin> set (permissions db)"
    using db_ok_permissionsD [OF assms(1)] that
    by (intro db_ok_permissionsI assms(1)) (simp_all add: permission_row_of_def)
  then show ?thesis using grant_cases [OF assms(2)] assms(1) by blast
qed

lemma revoke_db_ok [inv_intros]:
  assumes "db_ok db"
  shows "db_ok (fst (revoke_permission_v2 fr db c u g s p))"
proof -
  have "db_ok (db\<lparr>permissions := delete_rows P (permissions db)\<rparr>)" for P
    using db_ok_permissionsD [OF assms]
    by (intro db_ok_permissionsI assms) (auto simp: delete_rows_def)
  then show ?thesis by (simp add: revoke_permission_v2_def Let_def)
qed

lemma grant_known_app:
  assumes "c \<in> app_ids db" and "s = ''global'' \<or> s = ''app''"
  shows "\<exists>db'. grant_permission_v2 fr db c u g s p = Inr db'
    \<and> set (permissions db') = insert (permission_row_of fr c u g s p) (set (permissions db))"
proof (cases "permission_row_of fr c u g s p \<in> set (permissions db)")
  case True
  then have "grant_permission_v2 fr db c u g s p = Inr db" by (simp add: grant_permission_v2_def Let_def)
  with True show ?thesis by (auto intro!: exI [of _ db])
next
  case False
  with assms show ?thesis by (auto simp: grant_permission_v2_def Let_def)
qed

section \<open>Properties\<close>



end
