(* ===== verification/Services.thy ===== *)
theory Services
  imports Permissions
begin

text \<open>
  \<open>core/service_interface\<close>: which app provides a service, which provider serves it by default,
  and resolving a call to a running provider (\<open>services.py\<close>, \<open>resolve.py\<close>,
  \<open>builtin_services.py\<close>, the grant filter of \<open>headers.py\<close>). From \<open>packaging\<close> it takes
  \<open>version_rank\<close>, which embeds the total order of \<open>Version\<close>s, and the record \<open>spec_env\<close>. A
  service URL and an app name are strings; \<open>fk\<close> says whether the connection enforces foreign keys.
\<close>

record builtin_service =
  bs_service_url :: string
  bs_version :: string

definition APP_DEFINITIONS_SERVICE_URL :: string where
  "APP_DEFINITIONS_SERVICE_URL = ''github.com/cloud-in-a-bottle/cloud-in-a-bottle/services/app-definitions''"

definition BUILTIN_SERVICES :: "builtin_service list" where
  "BUILTIN_SERVICES = [\<lparr>bs_service_url = APP_DEFINITIONS_SERVICE_URL, bs_version = ''0.1.0''\<rparr>]"

definition builtin_by_url :: "string \<Rightarrow> builtin_service option" where
  "builtin_by_url service_url = List.find (\<lambda>s. bs_service_url s = service_url) BUILTIN_SERVICES"

record service_provider =
  spv_service_url :: string
  spv_app_id :: string
  spv_app_name :: string
  spv_service_version :: string
  spv_endpoint :: string
  spv_status :: app_status
  spv_is_default :: bool

datatype service_error =
    NoManifestStored string | ShortnameNotDeclared string string | StoredManifestError "manifest_error py_exn"
  | NotProvidedByRouter string | NotProvidedByApp string string | ServiceIntegrityError

section \<open>Registration\<close>

definition lookup_service_by_manifest_shortname ::
    "manifest_env \<Rightarrow> string \<Rightarrow> string \<Rightarrow> db \<Rightarrow> service_error + (string \<times> pyval)" where
  "lookup_service_by_manifest_shortname env consumer_app_id shortname db =
     (case find_app consumer_app_id db of
        None \<Rightarrow> Inl (NoManifestStored consumer_app_id)
      | Some row \<Rightarrow>
     (case non_empty (a_manifest_raw row) of
        None \<Rightarrow> Inl (NoManifestStored consumer_app_id)
      | Some raw \<Rightarrow>
     (case parse_manifest_from_string env raw of
        Inl e \<Rightarrow> Inl (StoredManifestError e)
      | Inr manifest \<Rightarrow>
     (case List.find (\<lambda>perm. sc_shortname perm = shortname) (m_consumes manifest) of
        None \<Rightarrow> Inl (ShortnameNotDeclared shortname consumer_app_id)
      | Some perm \<Rightarrow> Inr (sc_service perm, sc_version perm)))))"

definition provider_row_of :: "string \<Rightarrow> service_provides \<Rightarrow> provider_row" where
  "provider_row_of app_id svc =
     \<lparr>v_service_url = sp_service svc, v_app_id = app_id, v_service_version = sp_version svc,
      v_endpoint = sp_endpoint svc\<rparr>"

definition provider_key :: "provider_row \<Rightarrow> string \<times> string \<times> string" where
  "provider_key r = (v_service_url r, v_app_id r, v_service_version r)"

text \<open>\<open>INSERT OR REPLACE\<close> on the primary key (service, app, version).\<close>

definition replace_provider :: "provider_row list \<Rightarrow> provider_row \<Rightarrow> provider_row list" where
  "replace_provider rows row = delete_rows (\<lambda>r. provider_key r = provider_key row) rows @ [row]"

definition register_services_provided_by_app ::
    "bool \<Rightarrow> string \<Rightarrow> app_manifest \<Rightarrow> db \<Rightarrow> service_error + db" where
  "register_services_provided_by_app fk app_id manifest db =
     (if fk \<and> m_provides manifest \<noteq> [] \<and> app_id \<notin> app_ids db then Inl ServiceIntegrityError
      else Inr (db\<lparr>service_providers :=
             foldl replace_provider (delete_rows (\<lambda>r. v_app_id r = app_id) (service_providers db))
               (map (provider_row_of app_id) (m_provides manifest))\<rparr>))"

section \<open>The default provider\<close>

text \<open>The rows joined with their app: (provider row, app row).\<close>

definition providers_joined :: "db \<Rightarrow> (provider_row \<times> app_row) list" where
  "providers_joined db =
     concat (map (\<lambda>sp. case find_app (v_app_id sp) db of None \<Rightarrow> [] | Some a \<Rightarrow> [(sp, a)])
       (service_providers db))"


text \<open>\<open>(Version(a), b) > (Version(c), d)\<close>, as tuples compare.\<close>

definition incumbent_better ::
    "(string \<Rightarrow> rat) \<Rightarrow> provider_row \<Rightarrow> provider_row \<Rightarrow> bool" where
  "incumbent_better version_rank old new =
     (version_rank (v_service_version old) < version_rank (v_service_version new)
      \<or> (version_rank (v_service_version old) = version_rank (v_service_version new)
         \<and> v_app_id old < v_app_id new))"

definition incumbent_provider_id :: "(string \<Rightarrow> rat) \<Rightarrow> string \<Rightarrow> db \<Rightarrow> string option" where
  "incumbent_provider_id version_rank service_url db =
     (case filter (\<lambda>(sp, a). v_service_url sp = service_url) (providers_joined db) of
        [] \<Rightarrow> None
      | r # rs \<Rightarrow>
          (let rows = r # rs;
               oldest = Min (set (map (\<lambda>(sp, a). a_created_at a) rows));
               tied = map fst (filter (\<lambda>(sp, a). a_created_at a = oldest) rows)
           in Some (v_app_id (foldl (\<lambda>best new. if incumbent_better version_rank best new then new else best)
                                (hd tied) (tl tied)))))"

definition default_provider_id_for_service ::
    "(string \<Rightarrow> rat) \<Rightarrow> string \<Rightarrow> db \<Rightarrow> string option" where
  "default_provider_id_for_service version_rank service_url db =
     (case List.find (\<lambda>r. f_service_url r = service_url) (service_defaults db) of
        Some row \<Rightarrow> Some (f_app_id row)
      | None \<Rightarrow>
          if builtin_by_url service_url \<noteq> None then Some ROUTER_APP_ID
          else incumbent_provider_id version_rank service_url db)"

definition builtin_as_provider :: "builtin_service \<Rightarrow> bool \<Rightarrow> service_provider" where
  "builtin_as_provider b is_default =
     \<lparr>spv_service_url = bs_service_url b, spv_app_id = ROUTER_APP_ID, spv_app_name = ROUTER_APP_NAME,
      spv_service_version = bs_version b, spv_endpoint = ''/'', spv_status = Running,
      spv_is_default = is_default\<rparr>"

definition list_all_service_providers ::
    "(string \<Rightarrow> rat) \<Rightarrow> db \<Rightarrow> string option \<Rightarrow> service_provider list" where
  "list_all_service_providers version_rank db service_url =
     (let wanted = (\<lambda>u. service_url = None \<or> service_url = Some u);
          rows = filter (\<lambda>(sp, a). wanted (v_service_url sp)) (providers_joined db);
          builtins = filter (\<lambda>b. wanted (bs_service_url b)) BUILTIN_SERVICES
      in map (\<lambda>b. builtin_as_provider b
                (default_provider_id_for_service version_rank (bs_service_url b) db = Some ROUTER_APP_ID))
           builtins
         @ map (\<lambda>(sp, a).
             \<lparr>spv_service_url = v_service_url sp, spv_app_id = v_app_id sp, spv_app_name = a_name a,
              spv_service_version = v_service_version sp, spv_endpoint = v_endpoint sp,
              spv_status = a_status a,
              spv_is_default = default_provider_id_for_service version_rank (v_service_url sp) db
                = Some (v_app_id sp)\<rparr>) rows)"

definition clear_default :: "string \<Rightarrow> db \<Rightarrow> db" where
  "clear_default service_url db =
     db\<lparr>service_defaults := delete_rows (\<lambda>r. f_service_url r = service_url) (service_defaults db)\<rparr>"

definition set_default :: "string \<Rightarrow> string \<Rightarrow> db \<Rightarrow> service_error + db" where
  "set_default service_url app_id db =
     (if app_id = ROUTER_APP_ID
      then (if builtin_by_url service_url = None then Inl (NotProvidedByRouter service_url)
            else Inr (clear_default service_url db))
      else if \<not> exists_row (\<lambda>r. v_service_url r = service_url \<and> v_app_id r = app_id) (service_providers db)
      then Inl (NotProvidedByApp app_id service_url)
      else if app_id \<notin> app_ids db then Inl ServiceIntegrityError
      else Inr (db\<lparr>service_defaults :=
             delete_rows (\<lambda>r. f_service_url r = service_url) (service_defaults db)
               @ [\<lparr>f_service_url = service_url, f_app_id = app_id\<rparr>]\<rparr>))"

section \<open>Resolving a call\<close>

record spec_env =
  se_spec_valid :: "string \<Rightarrow> bool"
  se_version_valid :: "string \<Rightarrow> bool"
  se_version_in :: "string \<Rightarrow> string \<Rightarrow> bool"

datatype proxy_target = InProcess string | LocalPort int

record resolved_provider =
  rp_service_url :: string
  rp_app_id :: string
  rp_app_name :: string
  rp_service_version :: string
  rp_endpoint :: string
  rp_target :: proxy_target

datatype provider_error =
    InvalidVersionSpecifier string
  | NoProvider string
  | ProviderNotFound string string
  | ProviderNotRunning string string
  | ProviderVersionInvalid string string
  | ProviderVersionMismatch string string string

definition check_version :: "spec_env \<Rightarrow> string \<Rightarrow> string \<Rightarrow> string \<Rightarrow> provider_error + unit" where
  "check_version se provider_version specifier_text provider_name =
     (if \<not> se_version_valid se provider_version
      then Inl (ProviderVersionInvalid provider_name provider_version)
      else if \<not> se_version_in se provider_version specifier_text
      then Inl (ProviderVersionMismatch provider_name provider_version specifier_text)
      else Inr ())"

definition resolve_provider ::
    "spec_env \<Rightarrow> (string \<Rightarrow> rat) \<Rightarrow> string \<Rightarrow> string \<Rightarrow> db \<Rightarrow> string option
       \<Rightarrow> provider_error + resolved_provider" where
  "resolve_provider se version_rank service_url version_specifier db provider_app_id =
     (if \<not> se_spec_valid se version_specifier then Inl (InvalidVersionSpecifier version_specifier)
      else
     (case (case non_empty provider_app_id of
              Some i \<Rightarrow> Some i
            | None \<Rightarrow> default_provider_id_for_service version_rank service_url db) of
        None \<Rightarrow> Inl (NoProvider service_url)
      | Some target_app_id \<Rightarrow>
          if target_app_id = ROUTER_APP_ID
          then (case builtin_by_url service_url of
             None \<Rightarrow> Inl (NoProvider service_url)
           | Some builtin \<Rightarrow>
               bind_res (check_version se (bs_version builtin) version_specifier ROUTER_APP_NAME) (\<lambda>_.
               Inr \<lparr>rp_service_url = service_url, rp_app_id = ROUTER_APP_ID,
                    rp_app_name = ROUTER_APP_NAME, rp_service_version = bs_version builtin,
                    rp_endpoint = ''/'', rp_target = InProcess (bs_service_url builtin)\<rparr>))
          else (case List.find (\<lambda>(sp, a). v_service_url sp = service_url \<and> v_app_id sp = target_app_id)
                       (providers_joined db) of
             None \<Rightarrow> Inl (ProviderNotFound target_app_id service_url)
           | Some (sp, a) \<Rightarrow>
               if a_status a \<noteq> Running then Inl (ProviderNotRunning (a_name a) service_url)
               else bind_res (check_version se (v_service_version sp) version_specifier (a_name a)) (\<lambda>_.
               Inr \<lparr>rp_service_url = service_url, rp_app_id = target_app_id, rp_app_name = a_name a,
                    rp_service_version = v_service_version sp, rp_endpoint = v_endpoint sp,
                    rp_target = LocalPort (a_local_port a)\<rparr>))))"

text \<open>\<open>grants_for_provider\<close> of \<open>headers.py\<close>: (grant, scope) of each grant that applies.\<close>

definition grants_for_provider ::
    "(string \<Rightarrow> pyval) \<Rightarrow> db \<Rightarrow> string \<Rightarrow> string \<Rightarrow> string \<Rightarrow> (pyval \<times> string) list" where
  "grants_for_provider loads db consumer_app_id service_url provider_app_id =
     map (\<lambda>g. (gp_grant g, gp_scope g))
       (filter (\<lambda>g. gp_scope g = ''global'' \<or> gp_provider_app_id g = Some provider_app_id)
         (get_granted_permissions_v2 loads db consumer_app_id service_url))"

section \<open>Facts\<close>

lemma joined_iff:
  "(sp, a) \<in> set (providers_joined db) \<longleftrightarrow>
     sp \<in> set (service_providers db) \<and> find_app (v_app_id sp) db = Some a"
  by (auto simp: providers_joined_def split: option.splits)

lemma incumbent_better_trans:
  "\<not> incumbent_better vr a b \<Longrightarrow> \<not> incumbent_better vr b c \<Longrightarrow> \<not> incumbent_better vr a c"
  unfolding incumbent_better_def by (auto simp: not_less)

lemma foldl_incumbent:
  fixes vr :: "string \<Rightarrow> rat"
  defines "pick \<equiv> \<lambda>b n. if incumbent_better vr b n then n else b"
  shows "foldl pick b xs \<in> insert b (set xs) \<and>
    (\<forall>x\<in>insert b (set xs). \<not> incumbent_better vr (foldl pick b xs) x)"
proof (induction xs arbitrary: b)
  case Nil
  then show ?case by (simp add: incumbent_better_def)
next
  case (Cons x xs)
  let ?r = "foldl pick (pick b x) xs"
  have r: "?r \<in> insert (pick b x) (set xs)"
    and best: "\<not> incumbent_better vr ?r y" if "y \<in> insert (pick b x) (set xs)" for y
    using Cons.IH [of "pick b x"] that by blast+
  have "\<not> incumbent_better vr (pick b x) b" "\<not> incumbent_better vr (pick b x) x"
    by (auto simp: pick_def incumbent_better_def)
  then have b: "\<not> incumbent_better vr ?r b" and x: "\<not> incumbent_better vr ?r x"
    using incumbent_better_trans [OF best [of "pick b x"]] by blast+
  with best have "\<not> incumbent_better vr ?r y" if "y \<in> insert b (set (x # xs))" for y
    using that by (cases "y \<in> set xs") auto
  moreover have "?r \<in> insert b (set (x # xs))"
  proof -
    have "pick b x = b \<or> pick b x = x" by (simp add: pick_def)
    with r [OF insertI1] show ?thesis by (elim disjE) auto
  qed
  ultimately show ?case by simp
qed

lemma incumbent_None_iff:
  "incumbent_provider_id vr u db = None \<longleftrightarrow>
     (\<forall>(sp, a)\<in>set (providers_joined db). v_service_url sp \<noteq> u)"
proof -
  have "incumbent_provider_id vr u db = None \<longleftrightarrow>
      filter (\<lambda>(sp, a). v_service_url sp = u) (providers_joined db) = []"
    by (cases "filter (\<lambda>(sp, a). v_service_url sp = u) (providers_joined db)")
      (simp_all add: incumbent_provider_id_def Let_def)
  then show ?thesis by (auto simp: filter_empty_conv)
qed

lemma incumbent_Some:
  assumes "incumbent_provider_id vr u db = Some i"
  shows "\<exists>(sp, a)\<in>set (providers_joined db). v_service_url sp = u \<and> v_app_id sp = i \<and>
    (\<forall>(sp', a')\<in>set (providers_joined db). v_service_url sp' = u \<longrightarrow>
       a_created_at a \<le> a_created_at a' \<and>
       (a_created_at a' = a_created_at a \<longrightarrow> \<not> incumbent_better vr sp sp'))"
proof -
  define rows where "rows = filter (\<lambda>(sp, a). v_service_url sp = u) (providers_joined db)"
  define oldest where "oldest = Min (set (map (\<lambda>(sp, a). a_created_at a) rows))"
  define tied where "tied = map fst (filter (\<lambda>(sp, a). a_created_at a = oldest) rows)"
  have ne: "rows \<noteq> []"
    using assms by (cases rows) (simp_all add: incumbent_provider_id_def rows_def [symmetric])
  have in_rows: "(sp, a) \<in> set rows \<longleftrightarrow> (sp, a) \<in> set (providers_joined db) \<and> v_service_url sp = u" for sp a
    by (simp add: rows_def)
  have low: "oldest \<le> a_created_at a" if "(sp, a) \<in> set rows" for sp a
    unfolding oldest_def by (rule Min_le) (use that in force)+
  have "oldest \<in> set (map (\<lambda>(sp, a). a_created_at a) rows)"
    unfolding oldest_def by (rule Min_in) (use ne in auto)
  then have tied_ne: "tied \<noteq> []" by (force simp: tied_def filter_empty_conv)
  define best where "best = foldl (\<lambda>b n. if incumbent_better vr b n then n else b) (hd tied) (tl tied)"
  have i: "i = v_app_id best"
    using assms ne unfolding incumbent_provider_id_def rows_def [symmetric]
    by (cases rows) (simp_all add: Let_def best_def tied_def oldest_def)
  have "insert (hd tied) (set (tl tied)) = set tied"
    using tied_ne by (cases tied) auto
  then have best: "best \<in> set tied" and top: "\<And>x. x \<in> set tied \<Longrightarrow> \<not> incumbent_better vr best x"
    using foldl_incumbent [of vr "hd tied" "tl tied"] by (auto simp: best_def)
  obtain a where a: "(best, a) \<in> set rows" "a_created_at a = oldest"
    using best by (auto simp: tied_def)
  have "a_created_at a \<le> a_created_at a' \<and>
      (a_created_at a' = a_created_at a \<longrightarrow> \<not> incumbent_better vr best sp')"
    if "(sp', a') \<in> set (providers_joined db)" "v_service_url sp' = u" for sp' a'
  proof -
    have "(sp', a') \<in> set rows" using that in_rows by simp
    with low a top show ?thesis by (force simp: tied_def)
  qed
  with a in_rows i show ?thesis by (intro bexI [of _ "(best, a)"]) auto
qed

lemma foldl_replace_provider:
  "set (foldl replace_provider rows new) =
     {r \<in> set rows. provider_key r \<notin> provider_key ` set new} \<union> set (foldl replace_provider [] new)"
proof (induction new rule: rev_induct)
  case (snoc x xs)
  then show ?case by (auto simp: replace_provider_def table_simps)
qed simp

lemma foldl_replace_new: "set (foldl replace_provider [] new) \<subseteq> set new"
  by (induction new rule: rev_induct) (auto simp: replace_provider_def table_simps)

lemma foldl_replace_keys:
  "provider_key ` set (foldl replace_provider [] new) = provider_key ` set new"
proof (induction new rule: rev_induct)
  case (snoc x xs)
  have "provider_key ` set (replace_provider rows x) = insert (provider_key x) (provider_key ` set rows)"
    for rows by (auto simp: replace_provider_def table_simps image_iff)
  with snoc show ?case by simp
qed simp

lemma foldl_replace_distinct:
  "distinct (map provider_key rows) \<Longrightarrow> distinct (map provider_key (foldl replace_provider rows new))"
proof (induction new arbitrary: rows)
  case (Cons x xs)
  have "distinct (map provider_key (replace_provider rows x))"
    using Cons.prems by (auto simp: replace_provider_def distinct_delete_rows table_simps)
  then show ?case using Cons.IH by simp
qed simp

lemma foldl_replace_others:
  assumes "\<And>r. r \<in> set new \<Longrightarrow> v_app_id r = i"
  shows "filter (\<lambda>r. v_app_id r \<noteq> i) (foldl replace_provider rows new) = filter (\<lambda>r. v_app_id r \<noteq> i) rows"
  using assms
proof (induction new arbitrary: rows)
  case (Cons x xs)
  have "filter (\<lambda>r. v_app_id r \<noteq> i) (replace_provider rows x) = filter (\<lambda>r. v_app_id r \<noteq> i) rows"
    using Cons.prems [of x]
    by (auto simp: replace_provider_def delete_rows_def provider_key_def intro!: filter_cong)
  then show ?case using Cons by simp
qed simp

lemma db_ok_service_providersI:
  assumes "db_ok db" and "distinct (map provider_key x)" and "v_app_id ` set x \<subseteq> app_ids db"
  shows "db_ok (db\<lparr>service_providers := x\<rparr>)"
  using assms unfolding db_ok_def foreign_keys_ok_def provider_key_def app_ids_def by simp

lemma db_ok_service_providersD:
  "db_ok db \<Longrightarrow> distinct (map provider_key (service_providers db)) \<and>
     v_app_id ` set (service_providers db) \<subseteq> app_ids db"
  unfolding db_ok_def foreign_keys_ok_def provider_key_def app_ids_def by simp

lemma db_ok_service_defaultsI:
  assumes "db_ok db" and "distinct (map f_service_url x)" and "f_app_id ` set x \<subseteq> app_ids db"
  shows "db_ok (db\<lparr>service_defaults := x\<rparr>)"
  using assms unfolding db_ok_def foreign_keys_ok_def app_ids_def by simp

lemma db_ok_service_defaultsD:
  "db_ok db \<Longrightarrow> distinct (map f_service_url (service_defaults db)) \<and>
     f_app_id ` set (service_defaults db) \<subseteq> app_ids db"
  unfolding db_ok_def foreign_keys_ok_def app_ids_def by simp

lemma clear_default_db_ok [inv_intros]: "db_ok db \<Longrightarrow> db_ok (clear_default u db)"
  unfolding clear_default_def using db_ok_service_defaultsD [of db]
  by (intro db_ok_service_defaultsI) (auto simp: distinct_delete_rows table_simps)

lemma set_default_db_ok [inv_intros]:
  assumes "db_ok db" and "set_default u i db = Inr db'"
  shows "db_ok db'"
proof (cases "i = ROUTER_APP_ID")
  case True
  then show ?thesis
    using assms by (auto simp: set_default_def clear_default_db_ok split: if_splits)
next
  case False
  have "db_ok (db\<lparr>service_defaults :=
      delete_rows (\<lambda>r. f_service_url r = u) (service_defaults db) @ [\<lparr>f_service_url = u, f_app_id = i\<rparr>]\<rparr>)"
    if "i \<in> app_ids db"
    using that db_ok_service_defaultsD [OF assms(1)]
    by (intro db_ok_service_defaultsI assms(1)) (auto simp: distinct_delete_rows table_simps)
  with False assms(2) show ?thesis by (auto simp: set_default_def split: if_splits)
qed

lemma provider_rows_app: "r \<in> set (map (provider_row_of i) svcs) \<Longrightarrow> v_app_id r = i"
  by (auto simp: provider_row_of_def)

lemma delete_then_replace_idem:
  "delete_rows (\<lambda>r. v_app_id r = i)
     (foldl replace_provider (delete_rows (\<lambda>r. v_app_id r = i) rows) (map (provider_row_of i) svcs)) =
   delete_rows (\<lambda>r. v_app_id r = i) rows"
  unfolding delete_rows_def
  by (subst foldl_replace_others) (auto simp: provider_row_of_def)

lemma resolve_provider_cases:
  assumes "resolve_provider se vr u spec db pin = Inr rp"
  shows "se_spec_valid se spec \<and> se_version_valid se (rp_service_version rp) \<and>
    se_version_in se (rp_service_version rp) spec \<and> rp_service_url rp = u \<and>
    (case non_empty pin of Some i \<Rightarrow> rp_app_id rp = i
       | None \<Rightarrow> default_provider_id_for_service vr u db = Some (rp_app_id rp)) \<and>
    (if rp_app_id rp = ROUTER_APP_ID then builtin_by_url u \<noteq> None \<and> rp_target rp = InProcess u
     else \<exists>(sp, a)\<in>set (providers_joined db). v_service_url sp = u \<and> v_app_id sp = rp_app_id rp \<and>
       a_status a = Running \<and> rp_target rp = LocalPort (a_local_port a) \<and>
       rp_service_version rp = v_service_version sp \<and> rp_endpoint rp = v_endpoint sp)"
proof -
  obtain i where i: "(case non_empty pin of Some i \<Rightarrow> Some i
       | None \<Rightarrow> default_provider_id_for_service vr u db) = Some i" and spec: "se_spec_valid se spec"
    using assms by (auto simp: resolve_provider_def split: if_splits option.splits)
  have pinned: "case non_empty pin of Some j \<Rightarrow> i = j
       | None \<Rightarrow> default_provider_id_for_service vr u db = Some i"
    using i by (cases "non_empty pin") auto
  show ?thesis
  proof (cases "i = ROUTER_APP_ID")
    case True
    then obtain b where b: "builtin_by_url u = Some b" and url: "bs_service_url b = u"
      using assms i spec
      by (auto simp: resolve_provider_def builtin_by_url_def split: option.splits dest: find_SomeD)
    then show ?thesis
      using assms True i spec pinned
      by (auto simp: resolve_provider_def check_version_def res_simps split: if_splits option.splits)
  next
    case False
    let ?P = "\<lambda>(sp, a). v_service_url sp = u \<and> v_app_id sp = i"
    obtain sp a where sp: "List.find ?P (providers_joined db) = Some (sp, a)"
      using assms i spec False by (auto simp: resolve_provider_def split: option.splits)
    from find_SomeD [OF this] have mem: "(sp, a) \<in> set (providers_joined db)"
      "v_service_url sp = u" "v_app_id sp = i" by auto
    have "a_status a = Running" and "check_version se (v_service_version sp) spec (a_name a) = Inr ()"
      and rp: "rp = \<lparr>rp_service_url = u, rp_app_id = i, rp_app_name = a_name a,
                    rp_service_version = v_service_version sp, rp_endpoint = v_endpoint sp,
                    rp_target = LocalPort (a_local_port a)\<rparr>"
      using assms i spec False sp by (auto simp: resolve_provider_def res_simps split: if_splits)
    then show ?thesis
      using mem pinned spec False
      by (auto simp: check_version_def split: if_splits option.splits intro!: bexI [of _ "(sp, a)"])
  qed
qed

definition demo_services_db :: db where
  "demo_services_db = demo_db\<lparr>
     service_providers :=
       [\<lparr>v_service_url = ''mail'', v_app_id = ''A1'', v_service_version = ''1'', v_endpoint = ''/m''\<rparr>,
        \<lparr>v_service_url = ''mail'', v_app_id = ''A2'', v_service_version = ''2'', v_endpoint = ''/n''\<rparr>],
     service_defaults := [\<lparr>f_service_url = ''mail'', f_app_id = ''A1''\<rparr>]\<rparr>"

definition demo_rank :: "string \<Rightarrow> rat" where
  "demo_rank s = of_nat (length s)"

definition demo_spec_env :: spec_env where
  "demo_spec_env = \<lparr>se_spec_valid = (\<lambda>s. s \<noteq> []), se_version_valid = (\<lambda>v. v \<noteq> []),
     se_version_in = (\<lambda>v s. v = s)\<rparr>"

lemma demo_services_db_ok: "db_ok demo_services_db"
  unfolding demo_services_db_def
  by (intro db_ok_service_defaultsI db_ok_service_providersI demo_db_ok)
    (auto simp: provider_key_def app_ids_def demo_db_def demo_app_def)

lemma register_services_ok:
  assumes "db_ok db" and "i \<in> app_ids db"
  shows "\<exists>db'. register_services_provided_by_app fk i m db = Inr db' \<and> db_ok db' \<and> apps db' = apps db"
proof -
  let ?old = "delete_rows (\<lambda>r. v_app_id r = i) (service_providers db)"
  let ?new = "map (provider_row_of i) (m_provides m)"
  let ?rows = "foldl replace_provider ?old ?new"
  have "distinct (map provider_key ?rows)"
    using db_ok_service_providersD [OF assms(1)]
    by (intro foldl_replace_distinct distinct_delete_rows) simp
  moreover have "set ?rows \<subseteq> set (service_providers db) \<union> set ?new"
    using foldl_replace_new [of ?new]
    unfolding foldl_replace_provider [of ?old] set_delete_rows by blast
  then have "v_app_id ` set ?rows \<subseteq> app_ids db"
  proof -
    have "v_app_id ` set ?new \<subseteq> {i}" using provider_rows_app by blast
    then show ?thesis
      using db_ok_service_providersD [OF assms(1)] assms(2) \<open>set ?rows \<subseteq> _\<close> by blast
  qed
  ultimately have "db_ok (db\<lparr>service_providers := ?rows\<rparr>)" by (intro db_ok_service_providersI assms(1))
  then show ?thesis using assms(2) by (simp add: register_services_provided_by_app_def)
qed

section \<open>Properties\<close>

text \<open>The default provider of a service is the owner's choice if there is one, else the
  router's builtin, else an app that was installed first among those that provide it (the highest
  version, then id, among ties); there is none exactly when nothing provides the service.\<close>

lemma default_provider_priority:
  "case List.find (\<lambda>r. f_service_url r = u) (service_defaults db) of
     Some row \<Rightarrow> default_provider_id_for_service vr u db = Some (f_app_id row)
   | None \<Rightarrow> if builtin_by_url u \<noteq> None then default_provider_id_for_service vr u db = Some ROUTER_APP_ID
     else (case default_provider_id_for_service vr u db of
        None \<Rightarrow> (\<forall>(sp, a)\<in>set (providers_joined db). v_service_url sp \<noteq> u)
      | Some i \<Rightarrow> \<exists>(sp, a)\<in>set (providers_joined db). v_service_url sp = u \<and> v_app_id sp = i \<and>
          (\<forall>(sp', a')\<in>set (providers_joined db). v_service_url sp' = u \<longrightarrow>
             a_created_at a \<le> a_created_at a' \<and>
             (a_created_at a' = a_created_at a \<longrightarrow> \<not> incumbent_better vr sp sp')))"
  by (auto simp: default_provider_id_for_service_def incumbent_None_iff
      split: option.splits dest!: incumbent_Some)

lemma default_provider_priority_witness:
  "default_provider_id_for_service demo_rank ''mail'' demo_services_db = Some ''A1''
   \<and> default_provider_id_for_service demo_rank APP_DEFINITIONS_SERVICE_URL demo_services_db = Some ROUTER_APP_ID
   \<and> default_provider_id_for_service demo_rank ''dns'' demo_services_db = None"
proof -
  have "builtin_by_url ''dns'' = None \<and> builtin_by_url APP_DEFINITIONS_SERVICE_URL \<noteq> None" by code_simp
  moreover have "providers_joined demo_services_db \<noteq> []
      \<and> list_all (\<lambda>(sp, a). v_service_url sp = ''mail'') (providers_joined demo_services_db)" by code_simp
  moreover have "List.find (\<lambda>r. f_service_url r = u) (service_defaults demo_services_db) =
      (if u = ''mail'' then Some \<lparr>f_service_url = ''mail'', f_app_id = ''A1''\<rparr> else None)" for u
    by (auto simp: demo_services_db_def)
  ultimately show ?thesis
    using default_provider_priority [where u = "''mail''" and db = demo_services_db and vr = demo_rank]
      default_provider_priority [where u = APP_DEFINITIONS_SERVICE_URL and db = demo_services_db and vr = demo_rank]
      default_provider_priority [where u = "''dns''" and db = demo_services_db and vr = demo_rank]
    by (auto simp: list_all_iff APP_DEFINITIONS_SERVICE_URL_def split: option.splits)
qed

text \<open>Registering an app's services says only what it can serve: it replaces exactly that
  app's provider rows by those of its manifest, touches neither the owner's choices nor another
  app's rows, keeps every table constraint, and doing it again at the next start changes nothing
  more.\<close>

lemma register_services_exact:
  assumes "db_ok db" and "i \<in> app_ids db"
  shows "\<exists>db'. register_services_provided_by_app fk i m db = Inr db' \<and> db_ok db' \<and>
    service_defaults db' = service_defaults db \<and> apps db' = apps db \<and>
    filter (\<lambda>r. v_app_id r \<noteq> i) (service_providers db') = filter (\<lambda>r. v_app_id r \<noteq> i) (service_providers db) \<and>
    {r \<in> set (service_providers db'). v_app_id r = i} \<subseteq> provider_row_of i ` set (m_provides m) \<and>
    provider_key ` {r \<in> set (service_providers db'). v_app_id r = i} =
      (\<lambda>svc. (sp_service svc, i, sp_version svc)) ` set (m_provides m) \<and>
    register_services_provided_by_app fk i m db' = Inr db'"
proof -
  let ?old = "delete_rows (\<lambda>r. v_app_id r = i) (service_providers db)"
  let ?new = "map (provider_row_of i) (m_provides m)"
  let ?rows = "foldl replace_provider ?old ?new"
  let ?db = "db\<lparr>service_providers := ?rows\<rparr>"
  have reg: "register_services_provided_by_app fk i m db = Inr ?db"
    using assms by (simp add: register_services_provided_by_app_def)
  have mine: "{r \<in> set ?rows. v_app_id r = i} = set (foldl replace_provider [] ?new)"
  proof -
    have "set (foldl replace_provider [] ?new) \<subseteq> {r. v_app_id r = i}"
      using foldl_replace_new [of ?new] provider_rows_app by blast
    then show ?thesis
      unfolding foldl_replace_provider [of ?old] by (auto simp: set_delete_rows)
  qed
  have ok: "db_ok ?db"
    using register_services_ok [OF assms, of fk m] reg by simp
  have others: "filter (\<lambda>r. v_app_id r \<noteq> i) ?rows = filter (\<lambda>r. v_app_id r \<noteq> i) (service_providers db)"
    by (subst foldl_replace_others) (auto simp: provider_row_of_def delete_rows_def)
  have "provider_key ` set ?new = (\<lambda>svc. (sp_service svc, i, sp_version svc)) ` set (m_provides m)"
    by (simp add: image_image provider_key_def provider_row_of_def)
  then have keys: "provider_key ` {r \<in> set ?rows. v_app_id r = i} =
      (\<lambda>svc. (sp_service svc, i, sp_version svc)) ` set (m_provides m)"
    unfolding mine foldl_replace_keys .
  have sub: "{r \<in> set ?rows. v_app_id r = i} \<subseteq> provider_row_of i ` set (m_provides m)"
    unfolding mine using foldl_replace_new [of ?new] by simp
  have "register_services_provided_by_app fk i m ?db = Inr ?db"
    using assms(2) by (simp add: register_services_provided_by_app_def app_ids_def delete_then_replace_idem)
  with reg ok others keys sub show ?thesis by (intro exI [of _ ?db]) simp
qed

lemma register_services_exact_witness:
  "\<exists>db'. register_services_provided_by_app True ''A2''
      (demo_manifest\<lparr>m_provides := [\<lparr>sp_service = ''mail'', sp_version = ''3'', sp_endpoint = ''/v3''\<rparr>]\<rparr>)
      demo_services_db = Inr db' \<and> db_ok db' \<and> service_defaults db' = service_defaults demo_services_db"
proof -
  have "''A2'' \<in> app_ids demo_services_db" by (simp add: app_ids_def demo_services_db_def demo_db_def demo_app_def)
  from register_services_exact [OF demo_services_db_ok this] show ?thesis by blast
qed

text \<open>Pointing a service at a provider makes it the default, router included, disturbs no
  other service's choice, and keeps the constraints; clearing it puts the derived default back.\<close>

lemma set_default_takes_effect:
  assumes "db_ok db" and "set_default u i db = Inr db'"
  shows "default_provider_id_for_service vr u db' = Some i \<and> db_ok db' \<and>
    (\<forall>u'. u' \<noteq> u \<longrightarrow> default_provider_id_for_service vr u' db' = default_provider_id_for_service vr u' db) \<and>
    default_provider_id_for_service vr u (clear_default u db') =
      (if builtin_by_url u \<noteq> None then Some ROUTER_APP_ID else incumbent_provider_id vr u db)"
proof -
  have same: "providers_joined (d\<lparr>service_defaults := x\<rparr>) = providers_joined d" for d x
    by (simp add: providers_joined_def find_app_def)
  then have inc: "incumbent_provider_id vr v (d\<lparr>service_defaults := x\<rparr>) = incumbent_provider_id vr v d" for v d x
    by (simp add: incumbent_provider_id_def)
  have other: "List.find (\<lambda>r. f_service_url r = u') (delete_rows (\<lambda>r. f_service_url r = u) t) =
      List.find (\<lambda>r. f_service_url r = u') t" if "u' \<noteq> u" for u' t
    by (rule find_delete_rows) (use that in simp)
  have app: "List.find P (xs @ [r]) = (case List.find P xs of Some x \<Rightarrow> Some x | None \<Rightarrow> if P r then Some r else None)"
    for P xs and r :: default_row by (induction xs) auto
  have ok: "db_ok db'" by (rule set_default_db_ok [OF assms])
  have cleared: "default_provider_id_for_service vr u (clear_default u d) =
      (if builtin_by_url u \<noteq> None then Some ROUTER_APP_ID else incumbent_provider_id vr u d)"
    and untouched: "u' \<noteq> u \<Longrightarrow> default_provider_id_for_service vr u' (clear_default u d) =
      default_provider_id_for_service vr u' d" for d u'
    by (auto simp: default_provider_id_for_service_def clear_default_def inc find_delete_same other
        split: option.splits)
  show ?thesis
  proof (cases "i = ROUTER_APP_ID")
    case True
    then have "builtin_by_url u \<noteq> None" and db': "db' = clear_default u db"
      using assms(2) by (simp_all add: set_default_def split: if_splits)
    then show ?thesis
      using True ok cleared untouched by (simp add: clear_default_def delete_rows_def)
  next
    case False
    then have db': "db' = db\<lparr>service_defaults :=
        delete_rows (\<lambda>r. f_service_url r = u) (service_defaults db) @ [\<lparr>f_service_url = u, f_app_id = i\<rparr>]\<rparr>"
      using assms(2) by (simp add: set_default_def split: if_splits)
    have "default_provider_id_for_service vr u db' = Some i"
      by (simp add: db' default_provider_id_for_service_def app find_delete_same)
    moreover have "default_provider_id_for_service vr u' db' = default_provider_id_for_service vr u' db"
      if "u' \<noteq> u" for u'
      using that by (auto simp: db' default_provider_id_for_service_def app other inc split: option.splits)
    moreover have "incumbent_provider_id vr u db' = incumbent_provider_id vr u db"
      by (simp add: db' inc)
    ultimately show ?thesis using ok cleared [of db'] by simp
  qed
qed

lemma set_default_takes_effect_witness:
  "\<exists>db'. set_default ''mail'' ''A2'' demo_services_db = Inr db' \<and> db_ok db' \<and>
     default_provider_id_for_service demo_rank ''mail'' db' = Some ''A2''"
proof -
  have "isl (set_default ''mail'' ''A2'' demo_services_db) = False" by code_simp
  then obtain db' where eq: "set_default ''mail'' ''A2'' demo_services_db = Inr db'"
    by (cases "set_default ''mail'' ''A2'' demo_services_db") auto
  from set_default_takes_effect [OF demo_services_db_ok eq] eq show ?thesis by blast
qed

text \<open>A call that resolves is served by a provider of that service whose version satisfies
  the specifier: the pinned provider when one is named, else the default; the router only serves a
  service it has a builtin for, and an app only while it is running, on its own port.\<close>

lemma resolve_provider_sound:
  assumes "resolve_provider se vr u spec db pin = Inr rp"
  shows "se_version_valid se (rp_service_version rp) \<and> se_version_in se (rp_service_version rp) spec \<and>
    (case non_empty pin of Some i \<Rightarrow> rp_app_id rp = i
       | None \<Rightarrow> default_provider_id_for_service vr u db = Some (rp_app_id rp)) \<and>
    (if rp_app_id rp = ROUTER_APP_ID then builtin_by_url u \<noteq> None \<and> rp_target rp = InProcess u
     else \<exists>a\<in>set (apps db). a_app_id a = rp_app_id rp \<and> a_status a = Running \<and>
       rp_target rp = LocalPort (a_local_port a) \<and>
       (\<exists>sp\<in>set (service_providers db). v_service_url sp = u \<and> v_app_id sp = a_app_id a \<and>
          v_service_version sp = rp_service_version rp \<and> v_endpoint sp = rp_endpoint rp))"
proof -
  note r = resolve_provider_cases [OF assms]
  show ?thesis
  proof (cases "rp_app_id rp = ROUTER_APP_ID")
    case False
    with r obtain sp a where "sp \<in> set (service_providers db)" "v_service_url sp = u"
      "v_app_id sp = rp_app_id rp" "rp_service_version rp = v_service_version sp"
      "rp_endpoint rp = v_endpoint sp" and a: "find_app (v_app_id sp) db = Some a"
      "a_status a = Running" "rp_target rp = LocalPort (a_local_port a)"
      by (auto simp: joined_iff)
    moreover have "a \<in> set (apps db)" "a_app_id a = v_app_id sp"
      using find_app_SomeD [OF a(1)] by auto
    ultimately have "\<exists>a\<in>set (apps db). a_app_id a = rp_app_id rp \<and> a_status a = Running \<and>
       rp_target rp = LocalPort (a_local_port a) \<and>
       (\<exists>sp\<in>set (service_providers db). v_service_url sp = u \<and> v_app_id sp = a_app_id a \<and>
          v_service_version sp = rp_service_version rp \<and> v_endpoint sp = rp_endpoint rp)"
      by (intro bexI [of _ a] conjI bexI [of _ sp]) simp_all
    with r False show ?thesis by simp
  qed (use r in simp)
qed

lemma resolve_provider_sound_witness:
  "\<exists>rp. resolve_provider demo_spec_env demo_rank ''mail'' ''1'' demo_services_db None = Inr rp \<and>
     rp_app_id rp \<noteq> ROUTER_APP_ID \<and> (\<exists>a\<in>set (apps demo_services_db). rp_target rp = LocalPort (a_local_port a))"
proof -
  have res: "map_sum id rp_app_id (resolve_provider demo_spec_env demo_rank ''mail'' ''1'' demo_services_db None)
      = Inr ''A1''" by code_simp
  then obtain rp where eq: "resolve_provider demo_spec_env demo_rank ''mail'' ''1'' demo_services_db None = Inr rp"
    and id: "rp_app_id rp = ''A1''"
    by (cases "resolve_provider demo_spec_env demo_rank ''mail'' ''1'' demo_services_db None") auto
  have "''A1'' \<noteq> ROUTER_APP_ID" by code_simp
  with resolve_provider_sound [OF eq] eq id show ?thesis by auto
qed

end
