(* ===== verification/Ports.thy ===== *)
theory Ports
  imports Db
begin

text \<open>
  \<open>core/ports.py\<close>: host port allocation. Whether the host lets a port be bound (for TCP and for
  UDP) is the parameter \<open>bindable\<close>, the state of the host when the function runs; the order
  \<open>random.shuffle\<close> puts the candidates in is the parameter \<open>shuffle\<close>, any permutation.
\<close>

datatype used_by = MainPort string | PortMappingOf string string | HostService

datatype port_error =
    PortInUse int string "used_by option"
  | PortRequestedTwice int
  | NoFreePort int int
  | NoFreeHostPort int int

section \<open>Binding and availability\<close>

text \<open>\<open>_port_is_bindable\<close>: a TCP bind, then a UDP bind; either \<open>OSError\<close> makes it false.\<close>

definition port_is_bindable :: "(int \<Rightarrow> bool) \<times> (int \<Rightarrow> bool) \<Rightarrow> int \<Rightarrow> bool" where
  "port_is_bindable host port = (if \<not> fst host port then False else if \<not> snd host port then False else True)"

definition int_range :: "int \<Rightarrow> int \<Rightarrow> int list" where
  "int_range range_start range_end = [range_start .. range_end]"

definition allocate_port ::
    "(int \<Rightarrow> bool) \<times> (int \<Rightarrow> bool) \<Rightarrow> db \<Rightarrow> int \<Rightarrow> int \<Rightarrow> port_error + int" where
  "allocate_port host db range_start range_end =
     (let used_ports = map a_local_port (apps db) @ map p_host_port (app_port_mappings db) in
      case List.find (\<lambda>port. port \<notin> set used_ports \<and> port_is_bindable host port)
             (int_range range_start range_end) of
        Some port \<Rightarrow> Inr port
      | None \<Rightarrow> Inl (NoFreePort range_start range_end))"

definition port_reserved_by_app :: "int \<Rightarrow> db \<Rightarrow> string \<Rightarrow> bool" where
  "port_reserved_by_app port db app_id =
     (if exists_row (\<lambda>r. a_app_id r = app_id \<and> a_local_port r = port) (apps db) then True
      else exists_row (\<lambda>r. p_app_id r = app_id \<and> p_host_port r = port) (app_port_mappings db))"

text \<open>
  \<open>check_port_available\<close>: None is available, \<open>Some u\<close> says what uses the port. \<open>exclude_app_id\<close>
  is None or the empty string when no app is excluded. The join drops a mapping whose app is gone.
\<close>

definition check_mapping_or_host ::
    "(int \<Rightarrow> bool) \<times> (int \<Rightarrow> bool) \<Rightarrow> int \<Rightarrow> db \<Rightarrow> string option \<Rightarrow> used_by option" where
  "check_mapping_or_host host port db ex =
     (case List.find (\<lambda>m. p_host_port m = port \<and> Some (p_app_id m) \<noteq> ex \<and> p_app_id m \<in> app_ids db)
             (app_port_mappings db) of
        Some m \<Rightarrow>
          Some (PortMappingOf (case find_app (p_app_id m) db of Some a \<Rightarrow> a_name a | None \<Rightarrow> [])
                  (p_label m))
      | None \<Rightarrow>
          if (case ex of None \<Rightarrow> False | Some i \<Rightarrow> port_reserved_by_app port db i) then None
          else if \<not> port_is_bindable host port then Some HostService
          else None)"

definition check_port_available ::
    "(int \<Rightarrow> bool) \<times> (int \<Rightarrow> bool) \<Rightarrow> int \<Rightarrow> db \<Rightarrow> string option \<Rightarrow> used_by option" where
  "check_port_available host port db exclude_app_id =
     (case List.find (\<lambda>r. a_local_port r = port) (apps db) of
        Some r \<Rightarrow>
          if Some (a_app_id r) \<noteq> exclude_app_id then Some (MainPort (a_name r))
          else check_mapping_or_host host port db (non_empty exclude_app_id)
      | None \<Rightarrow> check_mapping_or_host host port db (non_empty exclude_app_id))"

definition format_used_by :: "used_by option \<Rightarrow> string" where
  "format_used_by u =
     (case u of
        None \<Rightarrow> ''unknown''
      | Some (MainPort n) \<Rightarrow> ''app '' @ [CHR 0x27] @ n @ [CHR 0x27] @ '' (main port)''
      | Some (PortMappingOf n l) \<Rightarrow>
          ''app '' @ [CHR 0x27] @ n @ [CHR 0x27] @ '' (port mapping '' @ [CHR 0x27] @ l @ [CHR 0x27] @ '')''
      | Some HostService \<Rightarrow> ''host-level service'')"

definition port_error_message :: "port_error \<Rightarrow> string" where
  "port_error_message e =
     (case e of
        PortInUse p l u \<Rightarrow> ''Port '' @ show_int p @ '' for '' @ [CHR 0x27] @ l @ [CHR 0x27]
          @ '' is already in use by '' @ format_used_by u
      | PortRequestedTwice p \<Rightarrow> ''Port '' @ show_int p @ '' requested by multiple mappings in this deploy''
      | NoFreePort a b \<Rightarrow> ''No free ports in range '' @ show_int a @ ''-'' @ show_int b
      | NoFreeHostPort a b \<Rightarrow>
          ''No free ports in range '' @ show_int a @ ''-'' @ show_int b @ '' for auto-assignment'')"

section \<open>Resolving a manifest's mappings\<close>

definition find_free_host_port ::
    "(int \<Rightarrow> bool) \<times> (int \<Rightarrow> bool) \<Rightarrow> (int list \<Rightarrow> int list) \<Rightarrow> int \<Rightarrow> int \<Rightarrow> db \<Rightarrow> int list
       \<Rightarrow> string option \<Rightarrow> port_error + int" where
  "find_free_host_port host shuffle range_start range_end db exclude exclude_app_id =
     (let used_ports = map a_local_port (apps db)
            @ map p_host_port (filter (\<lambda>m. Some (p_app_id m) \<noteq> non_empty exclude_app_id)
                                 (app_port_mappings db))
            @ exclude in
      case List.find (\<lambda>port. port \<notin> set used_ports \<and> port_is_bindable host port)
             (shuffle (int_range range_start range_end)) of
        Some port \<Rightarrow> Inr port
      | None \<Rightarrow> Inl (NoFreeHostPort range_start range_end))"

text \<open>First pass: the fixed ports, against the database, the host and each other.\<close>

fun resolve_fixed ::
    "(int \<Rightarrow> bool) \<times> (int \<Rightarrow> bool) \<Rightarrow> db \<Rightarrow> string option \<Rightarrow> int list \<Rightarrow> port_mapping list
       \<Rightarrow> port_error + port_mapping list" where
  "resolve_fixed host db ex claimed [] = Inr []"
| "resolve_fixed host db ex claimed (pm # pms) =
     (if pm_host_port pm = 0 then resolve_fixed host db ex claimed pms
      else (case check_port_available host (pm_host_port pm) db ex of
         Some u \<Rightarrow> Inl (PortInUse (pm_host_port pm) (pm_label pm) (Some u))
       | None \<Rightarrow>
           if pm_host_port pm \<in> set claimed then Inl (PortRequestedTwice (pm_host_port pm))
           else bind_res (resolve_fixed host db ex (pm_host_port pm # claimed) pms)
                  (\<lambda>rs. Inr (pm # rs))))"

text \<open>Second pass: a free port for each mapping that asks for one.\<close>

fun resolve_auto ::
    "(int \<Rightarrow> bool) \<times> (int \<Rightarrow> bool) \<Rightarrow> (int list \<Rightarrow> int list) \<Rightarrow> int \<Rightarrow> int \<Rightarrow> db \<Rightarrow> string option
       \<Rightarrow> int list \<Rightarrow> port_mapping list \<Rightarrow> port_error + port_mapping list" where
  "resolve_auto host sh a b db ex claimed [] = Inr []"
| "resolve_auto host sh a b db ex claimed (pm # pms) =
     (if pm_host_port pm \<noteq> 0 then resolve_auto host sh a b db ex claimed pms
      else bind_res (find_free_host_port host sh a b db claimed ex) (\<lambda>assigned.
           bind_res (resolve_auto host sh a b db ex (assigned # claimed) pms) (\<lambda>rs.
           Inr (pm\<lparr>pm_host_port := assigned\<rparr> # rs))))"

definition resolve_port_mappings ::
    "(int \<Rightarrow> bool) \<times> (int \<Rightarrow> bool) \<Rightarrow> (int list \<Rightarrow> int list) \<Rightarrow> port_mapping list \<Rightarrow> db \<Rightarrow> int \<Rightarrow> int
       \<Rightarrow> string option \<Rightarrow> port_error + port_mapping list" where
  "resolve_port_mappings host shuffle mappings db range_start range_end exclude_app_id =
     bind_res (resolve_fixed host db exclude_app_id [] mappings) (\<lambda>fixed.
     bind_res (resolve_auto host shuffle range_start range_end db exclude_app_id
                 (rev (map pm_host_port fixed)) mappings) (\<lambda>auto.
     Inr (fixed @ auto)))"

section \<open>The allocator's contract\<close>

text \<open>
  What a batch of automatic assignments relies on: \<open>alloc claimed\<close> returns a port outside
  \<open>reserved\<close> and outside the ports already claimed, and one of the usable ones; it fails only when
  no such port is left.
\<close>

locale port_source =
  fixes reserved :: "int set"
    and usable :: "int set"
    and alloc :: "int list \<Rightarrow> 'e + int"
  assumes alloc_Inr: "alloc claimed = Inr p \<Longrightarrow> p \<in> usable - reserved - set claimed"
    and alloc_Inl: "alloc claimed = Inl e \<Longrightarrow> usable - reserved - set claimed = {}"
begin

fun batch :: "int list \<Rightarrow> nat \<Rightarrow> 'e + int list" where
  "batch claimed 0 = Inr []"
| "batch claimed (Suc n) =
     bind_res (alloc claimed) (\<lambda>p. bind_res (batch (p # claimed) n) (\<lambda>ps. Inr (p # ps)))"

lemma batch_Inr:
  "batch claimed n = Inr ps \<Longrightarrow>
     length ps = n \<and> distinct ps \<and> set ps \<subseteq> usable - reserved - set claimed"
proof (induction n arbitrary: claimed ps)
  case (Suc n)
  from Suc.prems obtain p ps' where p: "alloc claimed = Inr p"
    and ps': "batch (p # claimed) n = Inr ps'" and eq: "ps = p # ps'"
    by (auto simp: res_simps)
  from alloc_Inr [OF p] Suc.IH [OF ps'] show ?case by (auto simp: eq)
qed simp

lemma batch_succeeds:
  "finite usable \<Longrightarrow> n \<le> card (usable - reserved - set claimed) \<Longrightarrow> \<exists>ps. batch claimed n = Inr ps"
proof (induction n arbitrary: claimed)
  case (Suc n)
  let ?free = "usable - reserved - set claimed"
  have "?free \<noteq> {}"
  proof
    assume "?free = {}"
    then have "card ?free = 0" by (simp only: card.empty)
    with Suc.prems(2) show False by simp
  qed
  then obtain p where p: "alloc claimed = Inr p"
    by (cases "alloc claimed") (auto dest: alloc_Inl)
  have "card (usable - reserved - set (p # claimed)) = card (?free - {p})"
    by (rule arg_cong [where f = card]) auto
  also have "\<dots> = card ?free - 1" using alloc_Inr [OF p] Suc.prems(1) by simp
  finally have "n \<le> card (usable - reserved - set (p # claimed))" using Suc.prems(2) by simp
  from Suc.IH [OF Suc.prems(1) this] p show ?case by auto
qed simp

end

text \<open>The ports the automatic assignment may not take, and those the host would accept.\<close>

definition reserved_ports :: "db \<Rightarrow> string option \<Rightarrow> int set" where
  "reserved_ports db ex = a_local_port ` set (apps db) \<union>
     p_host_port ` {m \<in> set (app_port_mappings db). Some (p_app_id m) \<noteq> non_empty ex}"

definition usable_ports ::
    "(int \<Rightarrow> bool) \<times> (int \<Rightarrow> bool) \<Rightarrow> (int list \<Rightarrow> int list) \<Rightarrow> int \<Rightarrow> int \<Rightarrow> int set" where
  "usable_ports host shuffle a b = {p \<in> set (shuffle (int_range a b)). port_is_bindable host p}"

interpretation auto_ports: port_source "reserved_ports db ex" "usable_ports host shuffle a b"
    "\<lambda>claimed. find_free_host_port host shuffle a b db claimed ex"
  for db ex host shuffle a b
proof unfold_locales
  fix claimed p
  assume "find_free_host_port host shuffle a b db claimed ex = Inr p"
  then show "p \<in> usable_ports host shuffle a b - reserved_ports db ex - set claimed"
    by (auto simp: find_free_host_port_def Let_def usable_ports_def reserved_ports_def
        split: option.splits dest: find_SomeD)
next
  fix claimed e
  assume "find_free_host_port host shuffle a b db claimed ex = Inl e"
  then show "usable_ports host shuffle a b - reserved_ports db ex - set claimed = {}"
    by (auto simp: find_free_host_port_def Let_def usable_ports_def reserved_ports_def
        find_None_iff split: option.splits)
qed

text \<open>The second pass is such a batch, laid over the mappings that ask for a port.\<close>

lemma resolve_auto_batch:
  "resolve_auto host sh a b db ex claimed pms =
     bind_res (auto_ports.batch host sh a b db ex claimed (length (filter (\<lambda>pm. pm_host_port pm = 0) pms)))
       (\<lambda>ps. Inr (map2 (\<lambda>pm p. pm\<lparr>pm_host_port := p\<rparr>) (filter (\<lambda>pm. pm_host_port pm = 0) pms) ps))"
proof (induction pms arbitrary: claimed)
  case (Cons pm pms)
  then show ?case
    by (auto simp: bind_res_def split: sum.splits)
qed simp

lemma resolve_auto_Inr:
  assumes "resolve_auto host sh a b db ex claimed pms = Inr rs"
  shows "map pm_label rs = map pm_label (filter (\<lambda>pm. pm_host_port pm = 0) pms) \<and>
    map pm_container_port rs = map pm_container_port (filter (\<lambda>pm. pm_host_port pm = 0) pms) \<and>
    distinct (map pm_host_port rs) \<and>
    set (map pm_host_port rs) \<subseteq> usable_ports host sh a b - reserved_ports db ex - set claimed"
proof -
  let ?auto = "filter (\<lambda>pm. pm_host_port pm = 0) pms"
  obtain ps where ps: "auto_ports.batch host sh a b db ex claimed (length ?auto) = Inr ps"
    and rs: "rs = map2 (\<lambda>pm p. pm\<lparr>pm_host_port := p\<rparr>) ?auto ps"
    using assms by (auto simp: resolve_auto_batch res_simps)
  note batch = auto_ports.batch_Inr [OF ps]
  have "map pm_label rs = map pm_label (map fst (zip ?auto ps))"
    and "map pm_container_port rs = map pm_container_port (map fst (zip ?auto ps))"
    and "map pm_host_port rs = map snd (zip ?auto ps)"
    by (auto simp: rs)
  with batch show ?thesis by simp
qed

lemma check_available_free:
  assumes "db_ok db" and "check_port_available host port db ex = None"
  shows "(\<forall>r\<in>set (apps db). a_local_port r = port \<longrightarrow> Some (a_app_id r) = ex) \<and>
    (\<forall>m\<in>set (app_port_mappings db). p_host_port m = port \<longrightarrow> Some (p_app_id m) = non_empty ex)"
proof -
  have rest: "check_mapping_or_host host port db (non_empty ex) = None"
    using assms(2) by (auto simp: check_port_available_def split: option.splits if_splits)
  then have "m \<in> set (app_port_mappings db) \<Longrightarrow> p_host_port m = port \<Longrightarrow> Some (p_app_id m) \<noteq> non_empty ex
      \<Longrightarrow> p_app_id m \<notin> app_ids db" for m
    by (auto simp: check_mapping_or_host_def find_None_iff split: option.splits)
  moreover have "Some (a_app_id r) = ex" if r: "r \<in> set (apps db)" "a_local_port r = port" for r
  proof -
    have "distinct (map a_local_port (apps db))" using assms(1) by (simp add: db_ok_def apps_ok_def)
    from find_unique [OF this r(1)] r(2) have "List.find (\<lambda>r. a_local_port r = port) (apps db) = Some r"
      by simp
    with assms(2) show ?thesis by (auto simp: check_port_available_def split: if_splits)
  qed
  moreover have "m \<in> set (app_port_mappings db) \<Longrightarrow> p_app_id m \<in> app_ids db" for m
    using assms(1) by (auto simp: db_ok_def foreign_keys_ok_def)
  ultimately show ?thesis by blast
qed

lemma resolve_fixed_Inr:
  assumes "resolve_fixed host db ex claimed pms = Inr rs"
  shows "rs = filter (\<lambda>pm. pm_host_port pm \<noteq> 0) pms \<and> distinct (map pm_host_port rs) \<and>
    set (map pm_host_port rs) \<inter> set claimed = {} \<and>
    (\<forall>pm\<in>set rs. check_port_available host (pm_host_port pm) db ex = None)"
  using assms
proof (induction pms arbitrary: claimed rs)
  case (Cons pm pms)
  show ?case
  proof (cases "pm_host_port pm = 0")
    case False
    with Cons.prems obtain rs' where free: "check_port_available host (pm_host_port pm) db ex = None"
      and new: "pm_host_port pm \<notin> set claimed"
      and rs': "resolve_fixed host db ex (pm_host_port pm # claimed) pms = Inr rs'" and eq: "rs = pm # rs'"
      by (auto simp: res_simps split: option.splits if_splits)
    note IH = Cons.IH [OF rs']
    then have "distinct (map pm_host_port rs)" and "set (map pm_host_port rs) \<inter> set claimed = {}"
      using new by (simp_all only: eq list.map distinct.simps list.set) blast+
    with IH free False show ?thesis by (simp add: eq)
  qed (use Cons in simp)
qed simp

lemma mset_filter_split:
  "mset (map f (filter P xs)) + mset (map f (filter (\<lambda>x. \<not> P x) xs)) = mset (map f xs)"
  by (induction xs) auto

lemma resolve_port_mappings_Inr:
  assumes "resolve_port_mappings host sh pms db a b ex = Inr rs"
  obtains auto where "rs = filter (\<lambda>pm. pm_host_port pm \<noteq> 0) pms @ auto"
    and "resolve_fixed host db ex [] pms = Inr (filter (\<lambda>pm. pm_host_port pm \<noteq> 0) pms)"
    and "resolve_auto host sh a b db ex
           (rev (map pm_host_port (filter (\<lambda>pm. pm_host_port pm \<noteq> 0) pms))) pms = Inr auto"
proof -
  obtain fixed auto where fixed: "resolve_fixed host db ex [] pms = Inr fixed"
    and auto: "resolve_auto host sh a b db ex (rev (map pm_host_port fixed)) pms = Inr auto"
    and rs: "rs = fixed @ auto"
    using assms by (auto simp: resolve_port_mappings_def res_simps)
  have "fixed = filter (\<lambda>pm. pm_host_port pm \<noteq> 0) pms" using resolve_fixed_Inr [OF fixed] by blast
  with fixed auto rs that show ?thesis by blast
qed

definition mapping_id :: "port_mapping \<Rightarrow> string \<times> int" where
  "mapping_id pm = (pm_label pm, pm_container_port pm)"

text \<open>A host with every port free, and the trivial shuffle, for the witnesses.\<close>

definition demo_host :: "(int \<Rightarrow> bool) \<times> (int \<Rightarrow> bool)" where
  "demo_host = ((\<lambda>_. True), (\<lambda>_. True))"

definition demo_mappings :: "port_mapping list" where
  "demo_mappings = [\<lparr>pm_label = ''ssh'', pm_container_port = 22, pm_host_port = 2222\<rparr>,
                    \<lparr>pm_label = ''web'', pm_container_port = 80, pm_host_port = 0\<rparr>]"

definition demo_resolved :: "port_mapping list" where
  "demo_resolved = [\<lparr>pm_label = ''ssh'', pm_container_port = 22, pm_host_port = 2222\<rparr>,
                    \<lparr>pm_label = ''web'', pm_container_port = 80, pm_host_port = 9000\<rparr>]"

lemma demo_resolve:
  "resolve_port_mappings demo_host id demo_mappings empty_db 9000 9002 None = Inr demo_resolved"
  by (simp add: resolve_port_mappings_def demo_mappings_def check_port_available_def
      check_mapping_or_host_def non_empty_def find_free_host_port_def int_range_def demo_host_def
      empty_db_def port_is_bindable_def demo_resolved_def upto.simps)

section \<open>Properties\<close>

text \<open>C2. Resolving a manifest's port mappings keeps every label with its container port, keeps each
  fixed host port, and assigns host ports that are distinct, that no other app uses as its main
  port or in a mapping, and, where assigned automatically, that lie among the bindable candidates
  and are no app's main port at all.\<close>

theorem resolve_port_mappings_sound:
  assumes "db_ok db" and "resolve_port_mappings host shuffle pms db a b ex = Inr rs"
  shows "mset (map mapping_id rs) = mset (map mapping_id pms)
    \<and> (\<forall>pm\<in>set pms. pm_host_port pm \<noteq> 0 \<longrightarrow> pm \<in> set rs)
    \<and> distinct (map pm_host_port rs)
    \<and> (\<forall>pm\<in>set rs. (\<forall>r\<in>set (apps db). a_local_port r = pm_host_port pm \<longrightarrow> Some (a_app_id r) = ex)
        \<and> (\<forall>m\<in>set (app_port_mappings db). p_host_port m = pm_host_port pm \<longrightarrow> Some (p_app_id m) = non_empty ex))
    \<and> (\<forall>pm\<in>set rs. pm \<in> set pms \<or>
         pm_host_port pm \<in> usable_ports host shuffle a b - reserved_ports db ex)"
proof -
  let ?fixed = "filter (\<lambda>pm. pm_host_port pm \<noteq> 0) pms"
  obtain auto where rs: "rs = ?fixed @ auto" and f: "resolve_fixed host db ex [] pms = Inr ?fixed"
    and a: "resolve_auto host shuffle a b db ex (rev (map pm_host_port ?fixed)) pms = Inr auto"
    using resolve_port_mappings_Inr [OF assms(2)] by blast
  note fixed = resolve_fixed_Inr [OF f] and auto = resolve_auto_Inr [OF a]
  let ?zero = "filter (\<lambda>pm. pm_host_port pm = 0) pms"
  have "length auto = length ?zero" using auto by (metis length_map)
  then have "map mapping_id auto = map mapping_id ?zero"
    using auto by (intro nth_equalityI) (auto simp: mapping_id_def list_eq_iff_nth_eq)
  then have ids: "mset (map mapping_id rs) = mset (map mapping_id pms)"
    using mset_filter_split [of mapping_id "\<lambda>pm. pm_host_port pm \<noteq> 0" pms] by (simp add: rs)
  have dist: "distinct (map pm_host_port rs)" using fixed auto by (auto simp: rs)
  have auto_free: "pm_host_port pm \<in> usable_ports host shuffle a b - reserved_ports db ex"
    if "pm \<in> set auto" for pm
    using auto that by auto
  have "(\<forall>r\<in>set (apps db). a_local_port r = pm_host_port pm \<longrightarrow> Some (a_app_id r) = ex) \<and>
      (\<forall>m\<in>set (app_port_mappings db). p_host_port m = pm_host_port pm \<longrightarrow> Some (p_app_id m) = non_empty ex)"
    if "pm \<in> set rs" for pm
  proof (cases "pm \<in> set ?fixed")
    case True
    then show ?thesis using check_available_free [OF assms(1)] fixed by blast
  next
    case False
    with that have "pm \<in> set auto" by (auto simp: rs)
    from auto_free [OF this] show ?thesis
      by (metis (mono_tags, lifting) DiffD2 UnCI image_eqI mem_Collect_eq reserved_ports_def)
  qed
  with ids dist auto_free show ?thesis by (auto simp: rs)
qed

theorem resolve_port_mappings_sound_witness:
  "mset (map mapping_id demo_resolved) = mset (map mapping_id demo_mappings)
    \<and> distinct (map pm_host_port demo_resolved)"
  using resolve_port_mappings_sound [OF empty_db_ok demo_resolve] by blast

text \<open>Resolution fails only for a reason: if the fixed ports pass their checks and at least as
  many bindable candidates are free as mappings ask for one, it succeeds.\<close>

lemma resolve_port_mappings_complete:
  assumes "resolve_fixed host db ex [] pms = Inr fixed"
    and "length (filter (\<lambda>pm. pm_host_port pm = 0) pms)
      \<le> card (usable_ports host shuffle a b - reserved_ports db ex - set (map pm_host_port fixed))"
  shows "\<exists>rs. resolve_port_mappings host shuffle pms db a b ex = Inr rs"
proof -
  let ?n = "length (filter (\<lambda>pm. pm_host_port pm = 0) pms)"
  have "finite (usable_ports host shuffle a b)" by (simp add: usable_ports_def)
  from auto_ports.batch_succeeds [OF this, of ?n db ex "rev (map pm_host_port fixed)"] assms(2)
  obtain ps where "auto_ports.batch host shuffle a b db ex (rev (map pm_host_port fixed)) ?n = Inr ps"
    by auto
  with assms(1) show ?thesis by (simp add: resolve_port_mappings_def resolve_auto_batch)
qed

lemma resolve_port_mappings_complete_witness:
  "\<exists>rs. resolve_port_mappings demo_host id demo_mappings empty_db 9000 9002 None = Inr rs"
proof (rule resolve_port_mappings_complete)
  show "resolve_fixed demo_host empty_db None [] demo_mappings =
      Inr [\<lparr>pm_label = ''ssh'', pm_container_port = 22, pm_host_port = 2222\<rparr>]"
    by (simp add: demo_mappings_def check_port_available_def check_mapping_or_host_def non_empty_def
        demo_host_def empty_db_def port_is_bindable_def)
  have "usable_ports demo_host id 9000 9002 - reserved_ports empty_db None - {2222} = {9000, 9001, 9002}"
    by (auto simp: usable_ports_def reserved_ports_def demo_host_def empty_db_def port_is_bindable_def
        int_range_def upto.simps)
  then show "length (filter (\<lambda>pm. pm_host_port pm = 0) demo_mappings)
      \<le> card (usable_ports demo_host id 9000 9002 - reserved_ports empty_db None
          - set (map pm_host_port [\<lparr>pm_label = ''ssh'', pm_container_port = 22, pm_host_port = 2222\<rparr>]))"
    by (simp add: demo_mappings_def)
qed

text \<open>The main port of an app is the least port of the range that no app and no mapping uses and
  that the host can bind; it is refused exactly when there is none.\<close>

lemma allocate_port_least:
  "case allocate_port host db a b of
     Inr p \<Rightarrow> p \<in> {a..b} \<and> p \<notin> reserved_ports db None \<and> port_is_bindable host p \<and>
        (\<forall>q\<in>{a..<p}. q \<in> reserved_ports db None \<or> \<not> port_is_bindable host q)
   | Inl e \<Rightarrow> e = NoFreePort a b \<and> (\<forall>q\<in>{a..b}. q \<in> reserved_ports db None \<or> \<not> port_is_bindable host q)"
proof -
  let ?P = "\<lambda>port. port \<notin> reserved_ports db None \<and> port_is_bindable host port"
  have alloc: "allocate_port host db a b =
      (case List.find ?P (int_range a b) of Some p \<Rightarrow> Inr p | None \<Rightarrow> Inl (NoFreePort a b))"
    by (simp add: allocate_port_def reserved_ports_def non_empty_def image_Un)
  have least: "\<forall>q\<in>{x..<p}. \<not> ?P q" if "List.find ?P [x..b] = Some p" for x p
    using that
  proof (induction "nat (b - x + 1)" arbitrary: x)
    case 0
    then show ?case by simp
  next
    case (Suc n)
    then have cons: "[x..b] = x # [x + 1..b]" by (intro upto_rec1) auto
    show ?case
    proof (cases "?P x")
      case True
      with Suc.prems show ?thesis by (simp add: cons)
    next
      case False
      with Suc.prems have "List.find ?P [x + 1..b] = Some p" by (simp add: cons)
      moreover have "n = nat (b - (x + 1) + 1)" using Suc.hyps(2) by simp
      ultimately have "\<forall>q\<in>{x + 1..<p}. \<not> ?P q" by (intro Suc.hyps(1))
      moreover have "q \<in> {x..<p} \<Longrightarrow> q = x \<or> q \<in> {x + 1..<p}" for q by auto
      ultimately show ?thesis using False by blast
    qed
  qed
  show ?thesis
  proof (cases "List.find ?P (int_range a b)")
    case None
    then have "\<forall>q\<in>{a..b}. q \<in> reserved_ports db None \<or> \<not> port_is_bindable host q"
      by (auto simp: find_None_iff int_range_def)
    with None show ?thesis by (simp add: alloc)
  next
    case (Some p)
    with least [of a p] find_SomeD [OF Some] show ?thesis by (auto simp: alloc int_range_def)
  qed
qed

lemma allocate_port_least_witness:
  "allocate_port demo_host empty_db 9000 9002 = Inr 9000 \<and> 9000 \<notin> reserved_ports empty_db None"
proof -
  have "allocate_port demo_host empty_db 9000 9002 = Inr 9000"
    by (simp add: allocate_port_def empty_db_def int_range_def demo_host_def port_is_bindable_def upto.simps)
  then show ?thesis using allocate_port_least
      [where host = demo_host and db = empty_db and a = 9000 and b = 9002] by simp
qed

end
