(* ===== verification/Containers.thy ===== *)
theory Containers
  imports Services Ports
begin

text \<open>
  \<open>core/containers.py\<close> and the environment of \<open>core/data.py\<close>: the command lines given to
  podman, recognising a corrupt build cache, and the variables an app container receives. A
  command is the list of the argument groups the source appends, in order; podman's answer
  (exit code and output) is a parameter of the operations that run it. Dictionaries are
  association lists in insertion order. \<open>env\<close> prints floats and composite values.
\<close>

section \<open>Exceptions of the app lifecycle\<close>

datatype app_exn =
    BuildCacheCorrupt
  | BuildFailed int
  | BuildTimedOut
  | ContainerStartFailed string
  | ContainerTimedOut
  | ArchiveDirMissing string
  | ArchiveNotMounted
  | StorageTooLow int int
  | NoAppFound string
  | PortError port_error
  | ManifestError "manifest_error py_exn"
  | ServiceError service_error
  | DynamicError "unit py_exn"
  | DbIntegrityError
  | OtherError string

text \<open>Which Python class each one is, as the \<open>except\<close> clauses ask.\<close>

fun is_runtime_error :: "app_exn \<Rightarrow> bool" where
  "is_runtime_error BuildCacheCorrupt = True"
| "is_runtime_error (BuildFailed rc) = True"
| "is_runtime_error (ContainerStartFailed s) = True"
| "is_runtime_error (ArchiveDirMissing s) = True"
| "is_runtime_error ArchiveNotMounted = True"
| "is_runtime_error (StorageTooLow a b) = True"
| "is_runtime_error (NoAppFound i) = True"
| "is_runtime_error (PortError e) = True"
| "is_runtime_error _ = False"

fun is_value_error :: "app_exn \<Rightarrow> bool" where
  "is_value_error (ManifestError (ValueError m)) = True"
| "is_value_error (DynamicError (ValueError m)) = True"
| "is_value_error _ = False"

definition lift_dynamic :: "unit py_exn + 'a \<Rightarrow> app_exn + 'a" where
  "lift_dynamic r = (case r of Inl e \<Rightarrow> Inl (DynamicError e) | Inr a \<Rightarrow> Inr a)"

section \<open>Python values in text\<close>

fun py_str :: "manifest_env \<Rightarrow> pyval \<Rightarrow> string" where
  "py_str env PNone = ''None''"
| "py_str env (PStr s) = s"
| "py_str env (PInt i) = show_int i"
| "py_str env (PBool b) = (if b then ''True'' else ''False'')"
| "py_str env (PFloat r) = float_repr env r"
| "py_str env v = other_str env v"

text \<open>\<open>d[k] = v\<close> and \<open>d.setdefault(k, v)\<close>: a new key goes last, an old one keeps its place.\<close>

definition dict_set :: "string \<Rightarrow> string \<Rightarrow> (string \<times> string) list \<Rightarrow> (string \<times> string) list" where
  "dict_set k v d =
     (if k \<in> fst ` set d then map (\<lambda>(k', v'). if k' = k then (k', v) else (k', v')) d else d @ [(k, v)])"

definition dict_setdefault :: "string \<Rightarrow> string \<Rightarrow> (string \<times> string) list \<Rightarrow> (string \<times> string) list" where
  "dict_setdefault k v d = (if k \<in> fst ` set d then d else d @ [(k, v)])"

text \<open>\<open>s.split()\<close> on runs of (ASCII) whitespace.\<close>

fun split_words_acc :: "string \<Rightarrow> string \<Rightarrow> string list" where
  "split_words_acc w [] = (if w = [] then [] else [rev w])"
| "split_words_acc w (c # cs) =
     (if is_space_char c then (if w = [] then split_words_acc [] cs else rev w # split_words_acc [] cs)
      else split_words_acc (c # w) cs)"

definition split_words :: "string \<Rightarrow> string list" where
  "split_words s = split_words_acc [] s"

text \<open>\<open>str.splitlines\<close> at the ASCII line boundaries.\<close>

definition is_line_break :: "char \<Rightarrow> bool" where
  "is_line_break c \<longleftrightarrow>
     (let n = (of_char c :: nat) in (10 \<le> n \<and> n \<le> 13) \<or> (28 \<le> n \<and> n \<le> 30))"

fun splitlines_acc :: "string \<Rightarrow> string \<Rightarrow> string list" where
  "splitlines_acc l [] = (if l = [] then [] else [rev l])"
| "splitlines_acc l (c # cs) =
     (if c = CHR 0x0D then
        (case cs of
           d # ds \<Rightarrow> rev l # (if d = CHR 0x0A then splitlines_acc [] ds else splitlines_acc [] cs)
         | [] \<Rightarrow> [rev l])
      else if is_line_break c then rev l # splitlines_acc [] cs
      else splitlines_acc (c # l) cs)"

definition splitlines :: "string \<Rightarrow> string list" where
  "splitlines s = splitlines_acc [] s"

text \<open>\<open>os.path.relpath\<close> of two absolute paths.\<close>

definition path_components :: "string \<Rightarrow> string list" where
  "path_components p =
     foldl (\<lambda>acc c. if c = [] \<or> c = ''.'' then acc else if c = ''..'' then butlast acc else acc @ [c])
       [] (split_on CHR ''/'' p)"

fun common_prefix_length :: "string list \<Rightarrow> string list \<Rightarrow> nat" where
  "common_prefix_length (x # xs) (y # ys) = (if x = y then Suc (common_prefix_length xs ys) else 0)"
| "common_prefix_length _ _ = 0"

definition relpath :: "string \<Rightarrow> string \<Rightarrow> string" where
  "relpath path start =
     (let start_list = path_components start; path_list = path_components path;
          i = common_prefix_length start_list path_list;
          rel_list = replicate (length start_list - i) ''..'' @ drop i path_list
      in if rel_list = [] then ''.'' else join_with ''/'' rel_list)"

section \<open>Names and environment\<close>

definition LEGACY_ENV_PREFIX :: string where
  "LEGACY_ENV_PREFIX = ''OPENHOST_''"

definition ENV_PREFIX :: string where
  "ENV_PREFIX = ''BOTTLE_''"

definition add_bottle_env_aliases :: "(string \<times> string) list \<Rightarrow> (string \<times> string) list" where
  "add_bottle_env_aliases env =
     foldl (\<lambda>aliased (key, v).
         if startswith key LEGACY_ENV_PREFIX
         then dict_setdefault (ENV_PREFIX @ drop (length LEGACY_ENV_PREFIX) key) v aliased
         else aliased)
       env env"

definition CONTAINER_ROOT :: string where
  "CONTAINER_ROOT = ''/data''"

definition CONTAINER_GATEWAY_IP :: string where
  "CONTAINER_GATEWAY_IP = ''10.200.0.1''"

definition ROUTER_GATEWAY_HOST :: string where
  "ROUTER_GATEWAY_HOST = ''host.containers.internal''"

definition DOCKER_COMPAT_HOST :: string where
  "DOCKER_COMPAT_HOST = ''host.docker.internal''"

definition ROUTER_LOOPBACK_HOST :: string where
  "ROUTER_LOOPBACK_HOST = ''127.0.0.1''"

definition DEFAULT_CAPABILITIES :: "string list" where
  "DEFAULT_CAPABILITIES =
     [''CHOWN'', ''DAC_OVERRIDE'', ''FOWNER'', ''FSETID'', ''KILL'', ''NET_BIND_SERVICE'',
      ''SETFCAP'', ''SETGID'', ''SETPCAP'', ''SETUID'', ''SYS_CHROOT'', ''NET_RAW'', ''MKNOD'',
      ''AUDIT_WRITE'']"

definition app_data_dir :: "string \<Rightarrow> string \<Rightarrow> string" where
  "app_data_dir data_dir app_name = path_join (path_join data_dir ''app_data'') app_name"

definition app_temp_data_dir :: "string \<Rightarrow> string \<Rightarrow> string" where
  "app_temp_data_dir temp_data_dir app_name = path_join (path_join temp_data_dir ''app_temp_data'') app_name"

definition app_container_name :: "string \<Rightarrow> string" where
  "app_container_name app_name = ''openhost-'' @ app_name"

definition app_image_tag :: "string \<Rightarrow> string" where
  "app_image_tag app_name = ''openhost-'' @ app_name @ '':latest''"

definition bind_mount_arg :: "string \<Rightarrow> string \<Rightarrow> bool \<Rightarrow> string" where
  "bind_mount_arg host_path container_path read_only =
     host_path @ '':'' @ container_path @ '':'' @ (if read_only then ''ro,idmap'' else ''idmap'')"

section \<open>Building an image\<close>

definition BUILD_CACHE_CORRUPT_MARKER :: string where
  "BUILD_CACHE_CORRUPT_MARKER = ''[BUILD_CACHE_CORRUPT]''"

definition BUILD_CACHE_CORRUPT_FRAGMENTS_UNCONDITIONAL :: "string list" where
  "BUILD_CACHE_CORRUPT_FRAGMENTS_UNCONDITIONAL =
     [''storage-driver errored'', ''layer not known'', ''identifier is not a container'']"

text \<open>What follows the first occurrence of \<open>sub\<close>.\<close>

fun after_str :: "string \<Rightarrow> string \<Rightarrow> string option" where
  "after_str sub [] = (if sub = [] then Some [] else None)"
| "after_str sub (c # cs) =
     (if startswith (c # cs) sub then Some (drop (length sub) (c # cs)) else after_str sub cs)"

text \<open>\<open>_OVERLAY_LINK_CORRUPT_RE.search\<close>: the three parts in order, whatever lies between.\<close>

definition overlay_link_corrupt :: "string \<Rightarrow> bool" where
  "overlay_link_corrupt line =
     (case after_str ''readlink '' (lower line) of
        None \<Rightarrow> False
      | Some r1 \<Rightarrow>
          (case after_str ''overlay'' r1 of
             None \<Rightarrow> False
           | Some r2 \<Rightarrow> after_str '': invalid argument'' r2 \<noteq> None))"

definition is_hex_lower :: "char \<Rightarrow> bool" where
  "is_hex_lower c \<longleftrightarrow> is_digit_char c \<or> (let n = (of_char c :: nat) in 97 \<le> n \<and> n \<le> 102)"

text \<open>\<open>_MISSING_LAYER_RE.search\<close>.\<close>

definition missing_layer_at :: "string \<Rightarrow> bool" where
  "missing_layer_at s =
     (startswith s ''content digest sha256:'' \<and>
      (let rest = drop (length ''content digest sha256:'') s; tail = dropWhile is_hex_lower rest in
       takeWhile is_hex_lower rest \<noteq> [] \<and> startswith tail '':'' \<and>
       startswith (dropWhile is_space_char (drop 1 tail)) ''not found''))"

fun missing_layer_search :: "string \<Rightarrow> bool" where
  "missing_layer_search [] = False"
| "missing_layer_search (c # cs) = (missing_layer_at (c # cs) \<or> missing_layer_search cs)"

definition is_build_cache_corrupt_line :: "string \<Rightarrow> bool" where
  "is_build_cache_corrupt_line line =
     (if list_ex (contains_str line) BUILD_CACHE_CORRUPT_FRAGMENTS_UNCONDITIONAL then True
      else missing_layer_search (lower line) \<or> overlay_link_corrupt line)"

definition is_build_cache_corrupt :: "string \<Rightarrow> bool" where
  "is_build_cache_corrupt output = list_ex is_build_cache_corrupt_line (splitlines output)"

definition raise_build_failed :: "string \<Rightarrow> int \<Rightarrow> app_exn" where
  "raise_build_failed output returncode =
     (if is_build_cache_corrupt output then BuildCacheCorrupt else BuildFailed returncode)"

text \<open>What podman does with a command: an exit code and its output, or no answer in time.\<close>

datatype podman_result = Exited int string | TimedOut

definition build_image_cmd :: "manifest_env \<Rightarrow> string \<Rightarrow> string \<Rightarrow> string \<Rightarrow> pyval \<Rightarrow> string list" where
  "build_image_cmd env app_name repo_path dockerfile_rel_path memory_mb =
     [''podman'', ''build'', ''-t'', app_image_tag app_name, ''-f'', path_join repo_path dockerfile_rel_path]
     @ (if memory_mb \<noteq> PNone
        then [''--memory='' @ py_str env memory_mb @ ''m'', ''--memory-swap='' @ py_str env memory_mb @ ''m'']
        else [])
     @ [repo_path]"

definition build_image ::
    "manifest_env \<Rightarrow> (string list \<Rightarrow> podman_result) \<Rightarrow> string \<Rightarrow> string \<Rightarrow> pyval \<Rightarrow> pyval
       \<Rightarrow> app_exn + string" where
  "build_image env podman app_name repo_path dockerfile_rel_path memory_mb =
     (case as_str dockerfile_rel_path of
        None \<Rightarrow> Inl (DynamicError TypeError)
      | Some dockerfile \<Rightarrow>
     (case podman (build_image_cmd env app_name repo_path dockerfile memory_mb) of
        TimedOut \<Rightarrow> Inl BuildTimedOut
      | Exited returncode output \<Rightarrow>
          if returncode \<noteq> 0 then Inl (raise_build_failed output returncode)
          else Inr (app_image_tag app_name)))"

section \<open>Running a container\<close>

text \<open>What \<open>run_container\<close> reads from the host: whether the archive mountpoint is a directory,
  and whether the router's resolver listens on the gateway address.\<close>

record run_host =
  rh_archive_is_dir :: bool
  rh_gateway_bindable :: bool

definition container_env_value ::
    "string \<Rightarrow> string \<Rightarrow> string \<Rightarrow> string \<Rightarrow> string \<times> string \<Rightarrow> string \<times> string" where
  "container_env_value host_app_data_dir c_app_data c_app_temp c_app_archive = (\<lambda>(key, v).
     if startswith key ''OPENHOST_SQLITE_'' then (key, path_join c_app_data (relpath v host_app_data_dir))
     else if key = ''OPENHOST_APP_DATA_DIR'' then (key, c_app_data)
     else if key = ''OPENHOST_APP_TEMP_DIR'' then (key, c_app_temp)
     else if key = ''OPENHOST_APP_ARCHIVE_DIR'' then (key, c_app_archive)
     else (key, v))"

definition network_options :: "manifest_env \<Rightarrow> run_host \<Rightarrow> app_manifest \<Rightarrow> int \<Rightarrow> string list list" where
  "network_options env host m local_port =
     (if truthy (m_network_host m) then [[''--network=host'']]
      else [[''-p'', ''127.0.0.1:'' @ show_int local_port @ '':'' @ py_str env (m_container_port m)],
            [''--add-host='' @ DOCKER_COMPAT_HOST @ '':host-gateway''],
            [''--add-host='' @ ROUTER_GATEWAY_HOST @ '':host-gateway'']]
           @ (if rh_gateway_bindable host then [[''--dns'', CONTAINER_GATEWAY_IP]] else []))"

definition mount_options ::
    "run_host \<Rightarrow> app_manifest \<Rightarrow> string \<Rightarrow> string \<Rightarrow> string \<Rightarrow> string \<Rightarrow> string list list" where
  "mount_options host m app_name data_dir temp_data_dir archive_dir =
     (let wants_all_app_data = truthy (m_access_all_app_data m);
          has_app_data = truthy (m_app_data m) \<or> truthy (m_sqlite_dbs m) \<or> wants_all_app_data;
          has_app_temp = truthy (m_app_temp_data m) \<or> wants_all_app_data;
          has_app_archive = truthy (m_app_archive m) \<or> wants_all_app_data;
          v = (\<lambda>h c. [''-v'', bind_mount_arg h c False])
      in (if wants_all_app_data
          then [v (path_join data_dir ''app_data'') (CONTAINER_ROOT @ ''/app_data''),
                v (path_join temp_data_dir ''app_temp_data'') (CONTAINER_ROOT @ ''/app_temp_data'')]
          else (if has_app_data
                then [v (app_data_dir data_dir app_name) (CONTAINER_ROOT @ ''/app_data/'' @ app_name)] else [])
             @ (if has_app_temp
                then [v (app_temp_data_dir temp_data_dir app_name) (CONTAINER_ROOT @ ''/app_temp_data/'' @ app_name)]
                else []))
         @ (if wants_all_app_data
            then (if rh_archive_is_dir host then [v archive_dir (CONTAINER_ROOT @ ''/app_archive'')] else [])
            else if has_app_archive
            then [v (path_join archive_dir app_name) (CONTAINER_ROOT @ ''/app_archive/'' @ app_name)]
            else []))"

definition port_options :: "app_manifest \<Rightarrow> port_mapping list \<Rightarrow> string list list" where
  "port_options m port_mappings =
     (if \<not> truthy (m_network_host m)
      then concat (map (\<lambda>pm.
          let hp = show_int (pm_host_port pm); cp = show_int (pm_container_port pm) in
          [[''-p'', ''0.0.0.0:'' @ hp @ '':'' @ cp @ ''/tcp''],
           [''-p'', ''0.0.0.0:'' @ hp @ '':'' @ cp @ ''/udp'']]) port_mappings)
      else [])"

definition resource_options :: "manifest_env \<Rightarrow> app_manifest \<Rightarrow> string \<Rightarrow> string list list" where
  "resource_options env m container_log_file =
     [[''--memory='' @ py_str env (m_memory_mb m) @ ''m''],
      [''--cpus='' @ float_repr env (m_cpu_cores m)],
      [''--restart=unless-stopped''],
      [''--cap-drop=ALL''],
      [''--security-opt=no-new-privileges=true''],
      [''--log-driver=k8s-file''],
      [''--log-opt=path='' @ container_log_file],
      [''--log-opt=max-size=1mb'']]
     @ (case as_int (m_shm_mb m) of
          Some i \<Rightarrow> if 0 < i then [[''--shm-size='' @ py_str env (m_shm_mb m) @ ''m'']] else []
        | None \<Rightarrow> [])"

text \<open>Everything before the image: one element per group of arguments the source appends.\<close>

definition run_container_options ::
    "manifest_env \<Rightarrow> run_host \<Rightarrow> string \<Rightarrow> app_manifest \<Rightarrow> int \<Rightarrow> (string \<times> string) list
       \<Rightarrow> string \<Rightarrow> string \<Rightarrow> string \<Rightarrow> port_mapping list \<Rightarrow> string list list" where
  "run_container_options env host app_name m local_port env_vars data_dir temp_data_dir archive_dir port_mappings =
     (let host_app_data_dir = app_data_dir data_dir app_name;
          app_temp_dir = app_temp_data_dir temp_data_dir app_name;
          container_name = app_container_name app_name;
          translated = map (container_env_value host_app_data_dir (CONTAINER_ROOT @ ''/app_data/'' @ app_name)
            (CONTAINER_ROOT @ ''/app_temp_data/'' @ app_name) (CONTAINER_ROOT @ ''/app_archive/'' @ app_name)) env_vars;
          container_env = add_bottle_env_aliases
            (if truthy (m_network_host m) then dict_set ''OPENHOST_LOCAL_PORT'' (show_int local_port) translated
             else translated)
      in [[''podman'', ''run'', ''-d'', ''--name'', container_name, ''--hostname'', container_name]]
         @ network_options env host m local_port
         @ resource_options env m (path_join app_temp_dir ''container.log'')
         @ map (\<lambda>cap. [''--cap-add'', cap]) (sort DEFAULT_CAPABILITIES)
         @ mount_options host m app_name data_dir temp_data_dir archive_dir
         @ port_options m port_mappings
         @ map (\<lambda>cap. [''--cap-add'', cap]) (filter (\<lambda>cap. cap \<notin> set DEFAULT_CAPABILITIES) (m_capabilities m))
         @ map (\<lambda>device. [''--device'', device]) (m_devices m)
         @ map (\<lambda>(key, v). [''-e'', key @ ''='' @ v]) container_env)"

definition run_container_cmd ::
    "manifest_env \<Rightarrow> run_host \<Rightarrow> string \<Rightarrow> string \<Rightarrow> app_manifest \<Rightarrow> int \<Rightarrow> (string \<times> string) list
       \<Rightarrow> string \<Rightarrow> string \<Rightarrow> string \<Rightarrow> port_mapping list \<Rightarrow> app_exn + string list" where
  "run_container_cmd env host app_name image_tag m local_port env_vars data_dir temp_data_dir archive_dir port_mappings =
     (let options = concat (run_container_options env host app_name m local_port env_vars
            data_dir temp_data_dir archive_dir port_mappings) in
      if as_int (m_shm_mb m) = None then Inl (DynamicError TypeError)
      else if truthy (m_container_command m)
      then (case as_str (m_container_command m) of
          None \<Rightarrow> Inl (DynamicError AttributeError)
        | Some command \<Rightarrow> Inr (options @ [image_tag] @ split_words command))
      else Inr (options @ [image_tag]))"

text \<open>The old container of that name is removed first; its exit code is ignored, a timeout is not.\<close>

definition run_container ::
    "manifest_env \<Rightarrow> run_host \<Rightarrow> (string list \<Rightarrow> podman_result) \<Rightarrow> string \<Rightarrow> string \<Rightarrow> app_manifest \<Rightarrow> int
       \<Rightarrow> (string \<times> string) list \<Rightarrow> string \<Rightarrow> string \<Rightarrow> string \<Rightarrow> port_mapping list \<Rightarrow> app_exn + string" where
  "run_container env host podman app_name image_tag m local_port env_vars data_dir temp_data_dir archive_dir port_mappings =
     bind_res (run_container_cmd env host app_name image_tag m local_port env_vars data_dir temp_data_dir
                 archive_dir port_mappings) (\<lambda>cmd.
     (case podman [''podman'', ''rm'', ''-f'', app_container_name app_name] of
        TimedOut \<Rightarrow> Inl ContainerTimedOut
      | Exited _ _ \<Rightarrow>
     (case podman cmd of
        TimedOut \<Rightarrow> Inl ContainerTimedOut
      | Exited returncode output \<Rightarrow>
          if returncode \<noteq> 0 then Inl (ContainerStartFailed output) else Inr (py_strip output))))"

section \<open>The variables of an app (\<open>core/data.py\<close>)\<close>

text \<open>The sqlite variables: the declared name, and its upper-case twin when that differs.\<close>

definition sqlite_env_key :: "string \<Rightarrow> string" where
  "sqlite_env_key db_name = ''OPENHOST_SQLITE_'' @ db_name"

fun sqlite_env :: "manifest_env \<Rightarrow> string \<Rightarrow> pyval list \<Rightarrow> (string \<times> string) list
    \<Rightarrow> app_exn + (string \<times> string) list" where
  "sqlite_env env sqlite_dir [] acc = Inr acc"
| "sqlite_env env sqlite_dir (db_name # rest) acc =
     (let name = py_str env db_name; db_path = path_join sqlite_dir (name @ ''.db'');
          env_key = sqlite_env_key name; acc1 = dict_set env_key db_path acc in
      case as_str db_name of
        None \<Rightarrow> Inl (DynamicError AttributeError)
      | Some s \<Rightarrow>
          (let upper_key = sqlite_env_key (upper s) in
           sqlite_env env sqlite_dir rest
             (if upper_key \<noteq> env_key then dict_set upper_key db_path acc1 else acc1)))"

record zone_info =
  zi_redirect_domain :: string
  zi_zone_domain :: string
  zi_router_public_url :: string
  zi_port :: int
  zi_owner_username :: string

definition app_data_env ::
    "manifest_env \<Rightarrow> app_manifest \<Rightarrow> string \<Rightarrow> app_exn + (string \<times> string) list" where
  "app_data_env env m host_app_data_dir =
     (if truthy (m_app_data m) \<or> truthy (m_sqlite_dbs m) \<or> truthy (m_access_all_app_data m)
      then bind_res (lift_dynamic (py_iter (m_sqlite_dbs m))) (\<lambda>names.
             sqlite_env env (path_join host_app_data_dir ''sqlite'') names
               [(''OPENHOST_APP_DATA_DIR'', host_app_data_dir)])
      else Inr [])"

definition app_archive_env ::
    "bool \<Rightarrow> app_manifest \<Rightarrow> string \<Rightarrow> string \<Rightarrow> (string \<times> string) list \<Rightarrow> app_exn + (string \<times> string) list" where
  "app_archive_env archive_available m archive_dir app_name vars =
     (if truthy (m_app_archive m)
      then (if \<not> archive_available then Inl (ArchiveDirMissing archive_dir)
            else Inr (dict_set ''OPENHOST_APP_ARCHIVE_DIR'' (path_join archive_dir app_name) vars))
      else if truthy (m_access_all_app_data m) \<and> archive_available
      then Inr (dict_set ''OPENHOST_APP_ARCHIVE_DIR'' (path_join archive_dir app_name) vars)
      else Inr vars)"

definition router_env ::
    "string \<Rightarrow> string \<Rightarrow> string \<Rightarrow> app_manifest \<Rightarrow> zone_info \<Rightarrow> (string \<times> string) list" where
  "router_env token app_id app_name m zone =
     [(''OPENHOST_APP_NAME'', app_name),
      (''OPENHOST_APP_ID'', app_id),
      (''OPENHOST_APP_TOKEN'', token),
      (''OPENHOST_ROUTER_URL'', ''http://'' @ (if truthy (m_network_host m) then ROUTER_LOOPBACK_HOST
         else ROUTER_GATEWAY_HOST) @ '':'' @ show_int (zi_port zone)),
      (''OPENHOST_ZONE_DOMAIN'', zi_zone_domain zone),
      (''OPENHOST_ROUTER_PUBLIC_URL'', zi_router_public_url zone),
      (''OPENHOST_MY_REDIRECT_DOMAIN'', zi_redirect_domain zone),
      (''OPENHOST_OWNER_USERNAME'', zi_owner_username zone)]"

definition make_data_dirs_and_env_vars ::
    "manifest_env \<Rightarrow> bool \<Rightarrow> string \<Rightarrow> string \<Rightarrow> string \<Rightarrow> app_manifest \<Rightarrow> string \<Rightarrow> string \<Rightarrow> string \<Rightarrow> zone_info
       \<Rightarrow> app_exn + (string \<times> string) list" where
  "make_data_dirs_and_env_vars env archive_available token app_id app_name m data_dir temp_data_dir archive_dir zone =
     bind_res (app_data_env env m (app_data_dir data_dir app_name)) (\<lambda>env1.
     bind_res (app_archive_env archive_available m archive_dir app_name
        (if truthy (m_app_temp_data m) \<or> truthy (m_access_all_app_data m)
         then dict_set ''OPENHOST_APP_TEMP_DIR'' (app_temp_data_dir temp_data_dir app_name) env1 else env1)) (\<lambda>env3.
     Inr (foldl (\<lambda>d (k, v). dict_set k v d) env3 (router_env token app_id app_name m zone))))"

section \<open>Facts\<close>

lemma map_of_dict_set: "map_of (dict_set k v d) = (map_of d)(k \<mapsto> v)"
proof (cases "k \<in> fst ` set d")
  case True
  have "map_of (map (\<lambda>(k', v'). if k' = k then (k', v) else (k', v')) d) j =
      (if j = k then (if k \<in> fst ` set d then Some v else None) else map_of d j)" for j
    by (induction d) (force+)
  with True show ?thesis by (simp add: dict_set_def fun_eq_iff)
next
  case False
  then have "map_of d k = None" by (simp add: map_of_eq_None_iff)
  with False show ?thesis
    by (auto simp: dict_set_def map_add_def fun_eq_iff split: option.splits)
qed

lemma keys_dict_set: "fst ` set (dict_set k v d) = insert k (fst ` set d)"
proof -
  have "map fst (map (\<lambda>(k', v'). if k' = k then (k', v) else (k', v')) d) = map fst d"
    by (induction d) auto
  then have "fst ` set (map (\<lambda>(k', v'). if k' = k then (k', v) else (k', v')) d) = fst ` set d"
    by (metis list.set_map)
  then show ?thesis by (auto simp: dict_set_def)
qed

lemma map_of_dict_setdefault:
  "map_of (dict_setdefault k v d) j =
     (case map_of d j of Some w \<Rightarrow> Some w | None \<Rightarrow> if j = k then Some v else None)"
proof (cases "k \<in> fst ` set d")
  case True
  then have "map_of d k \<noteq> None" by (simp add: map_of_eq_None_iff)
  with True show ?thesis by (auto simp: dict_setdefault_def split: option.splits)
next
  case False
  then show ?thesis by (auto simp: dict_setdefault_def map_add_def split: option.splits)
qed

lemma foldl_aliases_keep:
  assumes "map_of acc j = Some w"
  shows "map_of (foldl (\<lambda>aliased (key, v).
         if startswith key LEGACY_ENV_PREFIX
         then dict_setdefault (ENV_PREFIX @ drop (length LEGACY_ENV_PREFIX) key) v aliased
         else aliased) acc xs) j = Some w"
  using assms by (induction xs arbitrary: acc) (auto simp: map_of_dict_setdefault)

lemma foldl_aliases_twin:
  assumes "map_of acc (ENV_PREFIX @ n) = None" and "map_of xs (LEGACY_ENV_PREFIX @ n) = Some v"
  shows "map_of (foldl (\<lambda>aliased (key, v).
         if startswith key LEGACY_ENV_PREFIX
         then dict_setdefault (ENV_PREFIX @ drop (length LEGACY_ENV_PREFIX) key) v aliased
         else aliased) acc xs) (ENV_PREFIX @ n) = Some v"
  using assms
proof (induction xs arbitrary: acc)
  case (Cons x xs)
  obtain key u where x: "x = (key, u)" by (cases x)
  show ?case
  proof (cases "key = LEGACY_ENV_PREFIX @ n")
    case True
    then have "v = u" and "startswith key LEGACY_ENV_PREFIX"
      and "drop (length LEGACY_ENV_PREFIX) key = n"
      using Cons.prems x by simp_all
    then show ?thesis
      using Cons.prems(1) x foldl_aliases_keep by (simp add: map_of_dict_setdefault)
  next
    case False
    have "map_of (if startswith key LEGACY_ENV_PREFIX
         then dict_setdefault (ENV_PREFIX @ drop (length LEGACY_ENV_PREFIX) key) u acc
         else acc) (ENV_PREFIX @ n) = None"
    proof (cases "startswith key LEGACY_ENV_PREFIX")
      case True
      then have "key = LEGACY_ENV_PREFIX @ drop (length LEGACY_ENV_PREFIX) key"
        by (metis append_take_drop_id startswith_def)
      with False have "drop (length LEGACY_ENV_PREFIX) key \<noteq> n" by metis
      with True Cons.prems(1) show ?thesis by (simp add: map_of_dict_setdefault)
    qed (use Cons.prems in simp)
    with Cons False x show ?thesis by simp
  qed
qed simp

lemma alias_twin:
  assumes "map_of env (LEGACY_ENV_PREFIX @ n) = Some v"
  shows "map_of (add_bottle_env_aliases env) (LEGACY_ENV_PREFIX @ n) = Some v
    \<and> map_of (add_bottle_env_aliases env) (ENV_PREFIX @ n) =
        (case map_of env (ENV_PREFIX @ n) of Some w \<Rightarrow> Some w | None \<Rightarrow> Some v)"
  using assms foldl_aliases_keep [of env] foldl_aliases_twin [of env]
  unfolding add_bottle_env_aliases_def by (auto split: option.splits)

text \<open>Every variable the router sets has the legacy prefix, so the twins are never preset.\<close>

definition legacy_keys :: "(string \<times> string) list \<Rightarrow> bool" where
  "legacy_keys d \<longleftrightarrow> (\<forall>k\<in>fst ` set d. startswith k LEGACY_ENV_PREFIX)"

lemma legacy_keys_dict_set: "legacy_keys (dict_set k v d) \<longleftrightarrow> startswith k LEGACY_ENV_PREFIX \<and> (\<forall>j\<in>fst ` set d. startswith j LEGACY_ENV_PREFIX)"
  by (simp add: legacy_keys_def keys_dict_set)

lemma legacy_keys_step: "legacy_keys d \<Longrightarrow> startswith k LEGACY_ENV_PREFIX \<Longrightarrow> legacy_keys (dict_set k v d)"
  unfolding legacy_keys_dict_set by (simp add: legacy_keys_def)

lemma sqlite_key_legacy: "startswith (sqlite_env_key s) LEGACY_ENV_PREFIX"
  by (simp add: startswith_def LEGACY_ENV_PREFIX_def sqlite_env_key_def)

lemma sqlite_env_keys:
  "sqlite_env env dir names acc = Inr d \<Longrightarrow> legacy_keys acc \<Longrightarrow> legacy_keys d"
proof (induction names arbitrary: acc)
  case (Cons x xs)
  then show ?case
    by (auto simp: Let_def intro: legacy_keys_step sqlite_key_legacy split: option.splits if_splits)
qed simp

lemma foldl_dict_set_keys:
  "fst ` set (foldl (\<lambda>d (k, v). dict_set k v d) d kvs) = fst ` set d \<union> fst ` set kvs"
proof (induction kvs arbitrary: d)
  case (Cons x xs)
  then show ?case by (cases x) (simp add: keys_dict_set)
qed simp

lemma map_of_foldl_dict_set:
  "distinct (map fst kvs) \<Longrightarrow> (k, v) \<in> set kvs \<Longrightarrow>
     map_of (foldl (\<lambda>d (k, v). dict_set k v d) d kvs) k = Some v"
proof (induction kvs rule: rev_induct)
  case (snoc x xs)
  then show ?case
    by (cases x) (auto simp: map_of_dict_set rev_image_eqI)
qed simp

lemma app_data_env_keys: "app_data_env env m dir = Inr d \<Longrightarrow> legacy_keys d"
proof -
  have "legacy_keys [(''OPENHOST_APP_DATA_DIR'', dir)]" and "legacy_keys []"
    by (simp_all add: legacy_keys_def startswith_def LEGACY_ENV_PREFIX_def)
  then show "app_data_env env m dir = Inr d \<Longrightarrow> legacy_keys d"
    unfolding app_data_env_def by (auto simp: res_simps intro: sqlite_env_keys split: if_splits)
qed

lemma app_archive_env_keys:
  assumes "app_archive_env avail m ad n vars = Inr d" and "legacy_keys vars"
  shows "legacy_keys d"
proof -
  have "startswith ''OPENHOST_APP_ARCHIVE_DIR'' LEGACY_ENV_PREFIX"
    by (simp add: startswith_def LEGACY_ENV_PREFIX_def)
  with assms show ?thesis
    unfolding app_archive_env_def by (auto intro: legacy_keys_step split: if_splits)
qed

lemma router_env_keys: "legacy_keys (router_env token i n m zone)"
  by (simp add: router_env_def legacy_keys_def startswith_def LEGACY_ENV_PREFIX_def)

lemma router_env_distinct: "distinct (map fst (router_env token i n m zone))"
  by (simp add: router_env_def)

lemma make_data_dirs_env:
  assumes "make_data_dirs_and_env_vars env avail token i n m dd td ad zone = Inr vars"
  shows "legacy_keys vars" and "(k, v) \<in> set (router_env token i n m zone) \<Longrightarrow> map_of vars k = Some v"
proof -
  define widen where "widen = (\<lambda>e. if truthy (m_app_temp_data m) \<or> truthy (m_access_all_app_data m)
      then dict_set ''OPENHOST_APP_TEMP_DIR'' (app_temp_data_dir td n) e else e)"
  obtain env1 env3 where env1: "app_data_env env m (app_data_dir dd n) = Inr env1"
    and env3: "app_archive_env avail m ad n (widen env1) = Inr env3"
    and vars: "vars = foldl (\<lambda>d (k, v). dict_set k v d) env3 (router_env token i n m zone)"
    using assms unfolding make_data_dirs_and_env_vars_def widen_def by (auto simp: res_simps)
  have temp: "startswith ''OPENHOST_APP_TEMP_DIR'' LEGACY_ENV_PREFIX"
    by (simp add: startswith_def LEGACY_ENV_PREFIX_def)
  have "legacy_keys (widen env1)"
    using app_data_env_keys [OF env1] legacy_keys_step [OF _ temp] by (simp add: widen_def)
  with env3 have "legacy_keys env3" by (rule app_archive_env_keys)
  then show "legacy_keys vars"
    using router_env_keys [of token i n m zone]
    unfolding vars legacy_keys_def foldl_dict_set_keys by blast
  show "map_of vars k = Some v" if "(k, v) \<in> set (router_env token i n m zone)"
    unfolding vars by (rule map_of_foldl_dict_set [OF router_env_distinct that])
qed

text \<open>The argument groups that start with a given flag.\<close>

lemma mount_options_own:
  assumes "\<not> truthy (m_access_all_app_data m)" and "g \<in> set (mount_options host m n dd td ad)"
  shows "\<exists>h c. g = [''-v'', bind_mount_arg h c False] \<and>
    h \<in> {app_data_dir dd n, app_temp_data_dir td n, path_join ad n}"
  using assms by (auto simp: mount_options_def Let_def split: if_splits)

lemma network_options_flags:
  assumes "g \<in> set (network_options env host m port)" and "\<not> truthy (m_network_host m)"
  shows "hd g \<notin> {''-v'', ''--cap-add'', ''--device'', ''--network=host''} \<and>
    (hd g = ''-p'' \<longrightarrow> g = [''-p'', ''127.0.0.1:'' @ show_int port @ '':'' @ py_str env (m_container_port m)])"
  using assms by (auto simp: network_options_def split: if_splits)

lemma resource_options_flags:
  "g \<in> set (resource_options env m lf) \<Longrightarrow>
     hd g \<notin> {''-v'', ''-p'', ''--cap-add'', ''--device'', ''--network=host''}"
  by (auto simp: resource_options_def split: option.splits if_splits)

lemma port_options_shape:
  assumes "g \<in> set (port_options m pms)"
  shows "\<exists>pm\<in>set pms. \<exists>r. g = [''-p'', (''0.0.0.0:'' @ show_int (pm_host_port pm) @ '':'') @ r]"
  using assms unfolding port_options_def Let_def by (auto split: if_splits)

lemma port_options_flags:
  assumes "g \<in> set (port_options m pms)"
  shows "hd g = ''-p'' \<and> (\<exists>pm\<in>set pms. prefix (''0.0.0.0:'' @ show_int (pm_host_port pm) @ '':'') (g ! 1))"
proof -
  obtain pm r where pm: "pm \<in> set pms" and g: "g = [''-p'', (''0.0.0.0:'' @ show_int (pm_host_port pm) @ '':'') @ r]"
    using port_options_shape [OF assms] by blast
  have "prefix (''0.0.0.0:'' @ show_int (pm_host_port pm) @ '':'') (g ! 1)"
    unfolding g by (simp only: nth_Cons_Suc nth_Cons_0 One_nat_def prefix_def) blast
  then show ?thesis using pm by (intro conjI bexI [of _ pm]) (simp add: g)
qed

lemma run_container_cmd_ok:
  "as_int (m_shm_mb m) \<noteq> None \<Longrightarrow> \<not> truthy (m_container_command m) \<Longrightarrow>
     \<exists>cmd. run_container_cmd env host n tag m port vars dd td ad pms = Inr cmd"
  by (simp add: run_container_cmd_def Let_def)

lemma sqlite_env_strings:
  "list_all (\<lambda>v. as_str v \<noteq> None) names \<Longrightarrow> \<exists>d. sqlite_env env dir names acc = Inr d"
  by (induction names arbitrary: acc) (auto simp: Let_def split: option.splits)

lemma make_data_dirs_ok:
  assumes "m_sqlite_dbs m = PList names" and "list_all (\<lambda>v. as_str v \<noteq> None) names"
    and "truthy (m_app_archive m) \<longrightarrow> avail"
  shows "\<exists>vars. make_data_dirs_and_env_vars env avail token i n m dd td ad zone = Inr vars"
proof -
  obtain e1 where e1: "app_data_env env m (app_data_dir dd n) = Inr e1"
    using sqlite_env_strings [OF assms(2)] assms(1) by (fastforce simp: app_data_env_def lift_dynamic_def)
  have "\<exists>d. app_archive_env avail m ad n v = Inr d" for v
    using assms(3) by (simp add: app_archive_env_def)
  then obtain e3 where "app_archive_env avail m ad n
      (if truthy (m_app_temp_data m) \<or> truthy (m_access_all_app_data m)
       then dict_set ''OPENHOST_APP_TEMP_DIR'' (app_temp_data_dir td n) e1 else e1) = Inr e3" by blast
  with e1 show ?thesis by (simp only: make_data_dirs_and_env_vars_def bind_res_simps) blast
qed

lemma run_options_cases:
  assumes "g \<in> set (run_container_options env host n m port vars dd td ad pms)"
  obtains "hd g = ''podman''"
  | "g \<in> set (network_options env host m port)"
  | "g \<in> set (resource_options env m (path_join (app_temp_data_dir td n) ''container.log''))"
  | cap where "g = [''--cap-add'', cap]" and "cap \<in> set DEFAULT_CAPABILITIES \<union> set (m_capabilities m)"
  | "g \<in> set (mount_options host m n dd td ad)"
  | "g \<in> set (port_options m pms)"
  | d where "g = [''--device'', d]" and "d \<in> set (m_devices m)"
  | "hd g = ''-e''"
  using assms unfolding run_container_options_def Let_def by (auto split: if_splits)

section \<open>Properties\<close>

text \<open>C6. A container is confined by its command line: whatever a well-formed manifest asks for
  short of host networking and cross-app data, podman is told to drop all capabilities and forbid
  new privileges, adds back only default and allowlisted capabilities, passes only allowlisted
  devices, mounts only the app's own directories, and publishes the app port on loopback alone,
  besides the host ports mapped for it.\<close>

theorem run_container_confined:
  assumes "manifest_wf env m" and "\<not> truthy (m_access_all_app_data m)" and "\<not> truthy (m_network_host m)"
    and "run_container_cmd env host n tag m port vars dd td ad pms = Inr cmd"
  shows "\<exists>opts args. cmd = concat opts @ tag # args \<and>
    [''--cap-drop=ALL''] \<in> set opts \<and> [''--security-opt=no-new-privileges=true''] \<in> set opts \<and>
    [''--network=host''] \<notin> set opts \<and>
    (\<forall>g\<in>set opts.
       (hd g = ''--cap-add'' \<longrightarrow> g ! 1 \<in> set DEFAULT_CAPABILITIES \<union> set SAFE_CAPABILITIES) \<and>
       (hd g = ''--device'' \<longrightarrow> py_strip (before_char CHR '':'' (g ! 1)) \<in> set SAFE_DEVICE_PATHS) \<and>
       (hd g = ''-v'' \<longrightarrow> (\<exists>h c. g = [''-v'', bind_mount_arg h c False] \<and>
          h \<in> {app_data_dir dd n, app_temp_data_dir td n, path_join ad n})) \<and>
       (hd g = ''-p'' \<longrightarrow> prefix (''127.0.0.1:'' @ show_int port @ '':'') (g ! 1) \<or>
          (\<exists>pm\<in>set pms. prefix (''0.0.0.0:'' @ show_int (pm_host_port pm) @ '':'') (g ! 1))))"
proof -
  let ?opts = "run_container_options env host n m port vars dd td ad pms"
  obtain args where cmd: "cmd = concat ?opts @ tag # args"
    using assms(4) by (auto simp: run_container_cmd_def Let_def split: if_splits option.splits)
  have wf: "set (m_capabilities m) \<subseteq> set SAFE_CAPABILITIES"
    "\<And>d. d \<in> set (m_devices m) \<Longrightarrow> py_strip (before_char CHR '':'' d) \<in> set SAFE_DEVICE_PATHS"
    using assms(1) by (auto simp: manifest_wf_def)
  have present: "[''--cap-drop=ALL''] \<in> set ?opts \<and> [''--security-opt=no-new-privileges=true''] \<in> set ?opts"
    by (simp add: run_container_options_def Let_def resource_options_def)
  have each: "hd g \<noteq> ''--network=host'' \<and>
      (hd g = ''--cap-add'' \<longrightarrow> g ! 1 \<in> set DEFAULT_CAPABILITIES \<union> set SAFE_CAPABILITIES) \<and>
      (hd g = ''--device'' \<longrightarrow> py_strip (before_char CHR '':'' (g ! 1)) \<in> set SAFE_DEVICE_PATHS) \<and>
      (hd g = ''-v'' \<longrightarrow> (\<exists>h c. g = [''-v'', bind_mount_arg h c False] \<and>
         h \<in> {app_data_dir dd n, app_temp_data_dir td n, path_join ad n})) \<and>
      (hd g = ''-p'' \<longrightarrow> prefix (''127.0.0.1:'' @ show_int port @ '':'') (g ! 1) \<or>
         (\<exists>pm\<in>set pms. prefix (''0.0.0.0:'' @ show_int (pm_host_port pm) @ '':'') (g ! 1)))"
    if "g \<in> set ?opts" for g
    using that
  proof (cases rule: run_options_cases)
    case 2
    with network_options_flags [OF this assms(3)] show ?thesis by auto
  next
    case 3
    with resource_options_flags [OF this] show ?thesis by auto
  next
    case (4 cap)
    with wf show ?thesis by auto
  next
    case 5
    with mount_options_own [OF assms(2) this] show ?thesis by auto
  next
    case 6
    with port_options_flags [OF this] show ?thesis by auto
  next
    case (7 d)
    with wf show ?thesis by auto
  qed simp_all
  have "[''--network=host''] \<notin> set ?opts" using each by fastforce
  with cmd present each show ?thesis by blast
qed

lemma demo_manifest_fields:
  "\<not> truthy (m_access_all_app_data demo_manifest)" "\<not> truthy (m_network_host demo_manifest)"
  "as_int (m_shm_mb demo_manifest) \<noteq> None" "\<not> truthy (m_container_command demo_manifest)"
  "\<not> truthy (m_app_archive demo_manifest)"
  by code_simp+

theorem run_container_confined_witness:
  "\<exists>opts args. projr (run_container_cmd demo_env \<lparr>rh_archive_is_dir = True, rh_gateway_bindable = True\<rparr>
        ''notes'' ''openhost-notes:latest'' demo_manifest 9000 [(''OPENHOST_APP_ID'', ''A1'')] ''/d'' ''/t'' ''/a''
        (m_port_mappings demo_manifest)) = concat opts @ ''openhost-notes:latest'' # args
     \<and> [''--cap-drop=ALL''] \<in> set opts"
proof -
  obtain cmd where cmd: "run_container_cmd demo_env \<lparr>rh_archive_is_dir = True, rh_gateway_bindable = True\<rparr>
        ''notes'' ''openhost-notes:latest'' demo_manifest 9000 [(''OPENHOST_APP_ID'', ''A1'')] ''/d'' ''/t'' ''/a''
        (m_port_mappings demo_manifest) = Inr cmd"
    using run_container_cmd_ok [OF demo_manifest_fields(3,4)] by blast
  from run_container_confined [OF parse_manifest_implies_wf [OF demo_parse] demo_manifest_fields(1,2) cmd]
  show ?thesis unfolding cmd sum.sel by blast
qed

text \<open>The variables by which an app knows itself cannot be forged by its manifest: whatever
  databases it declares, the container receives the router's app id, name and fresh token, under
  both the \<open>OPENHOST_\<close> and the \<open>BOTTLE_\<close> names.\<close>

lemma app_identity_env:
  assumes "make_data_dirs_and_env_vars env avail token i n m dd td ad zone = Inr vars"
  shows "map_of (add_bottle_env_aliases vars) ''OPENHOST_APP_ID'' = Some i \<and>
    map_of (add_bottle_env_aliases vars) ''BOTTLE_APP_ID'' = Some i \<and>
    map_of (add_bottle_env_aliases vars) ''OPENHOST_APP_NAME'' = Some n \<and>
    map_of (add_bottle_env_aliases vars) ''BOTTLE_APP_NAME'' = Some n \<and>
    map_of (add_bottle_env_aliases vars) ''OPENHOST_APP_TOKEN'' = Some token \<and>
    map_of (add_bottle_env_aliases vars) ''BOTTLE_APP_TOKEN'' = Some token"
proof -
  have "legacy_keys vars" by (rule make_data_dirs_env(1) [OF assms])
  moreover have "\<not> startswith (ENV_PREFIX @ s) LEGACY_ENV_PREFIX" for s
    by (simp add: startswith_def LEGACY_ENV_PREFIX_def ENV_PREFIX_def)
  ultimately have "map_of vars (ENV_PREFIX @ s) = None" for s
    unfolding map_of_eq_None_iff legacy_keys_def by blast
  then have both: "map_of (add_bottle_env_aliases vars) (LEGACY_ENV_PREFIX @ s) = Some v \<and>
      map_of (add_bottle_env_aliases vars) (ENV_PREFIX @ s) = Some v"
    if "(LEGACY_ENV_PREFIX @ s, v) \<in> set (router_env token i n m zone)" for s v
    using alias_twin [OF make_data_dirs_env(2) [OF assms that]] by simp
  have "(LEGACY_ENV_PREFIX @ ''APP_ID'', i) \<in> set (router_env token i n m zone)"
    "(LEGACY_ENV_PREFIX @ ''APP_NAME'', n) \<in> set (router_env token i n m zone)"
    "(LEGACY_ENV_PREFIX @ ''APP_TOKEN'', token) \<in> set (router_env token i n m zone)"
    by (simp_all add: router_env_def LEGACY_ENV_PREFIX_def)
  from this [THEN both] show ?thesis by (simp add: LEGACY_ENV_PREFIX_def ENV_PREFIX_def)
qed

definition demo_zone :: zone_info where
  "demo_zone = \<lparr>zi_redirect_domain = ''r.example'', zi_zone_domain = ''example.com'',
     zi_router_public_url = ''https://example.com'', zi_port = 8080, zi_owner_username = ''owner''\<rparr>"

lemma app_identity_env_witness:
  "\<exists>vars. make_data_dirs_and_env_vars demo_env True ''tok'' ''A1'' ''notes''
       (demo_manifest\<lparr>m_sqlite_dbs := PList [PStr ''x'', PStr ''../APP_ID'']\<rparr>) ''/d'' ''/t'' ''/a'' demo_zone = Inr vars
     \<and> map_of (add_bottle_env_aliases vars) ''BOTTLE_APP_ID'' = Some ''A1''"
proof -
  have "list_all (\<lambda>v. as_str v \<noteq> None) [PStr ''x'', PStr ''../APP_ID'']" by simp
  then obtain vars where "make_data_dirs_and_env_vars demo_env True ''tok'' ''A1'' ''notes''
       (demo_manifest\<lparr>m_sqlite_dbs := PList [PStr ''x'', PStr ''../APP_ID'']\<rparr>) ''/d'' ''/t'' ''/a'' demo_zone = Inr vars"
    using make_data_dirs_ok [where m = "demo_manifest\<lparr>m_sqlite_dbs := PList [PStr ''x'', PStr ''../APP_ID'']\<rparr>"]
    by fastforce
  with app_identity_env [OF this] show ?thesis by blast
qed

end
