(* ===== verification/Domains.thy ===== *)
theory Domains
  imports Db
begin

text \<open>
  \<open>core/domains.py\<close>: the host names the instance answers on, matching a request's host to a domain
  and to an app, and the \<open>domains\<close> table with its one primary row. A row of the table and a
  \<open>DomainRecord\<close> are the same record here (\<open>_row_to_record\<close> only converts SQLite's integers).
\<close>

section \<open>A domain and the hosts it owns\<close>

record domain =
  dn_name :: string
  dn_tls :: bool

text \<open>The attrs converter lower-cases the name.\<close>

definition mk_domain :: "string \<Rightarrow> bool \<Rightarrow> domain" where
  "mk_domain name tls = \<lparr>dn_name = lower name, dn_tls = tls\<rparr>"

definition name_no_port :: "domain \<Rightarrow> string" where
  "name_no_port d = before_char (CHR '':'') (dn_name d)"

definition is_mdns :: "domain \<Rightarrow> bool" where
  "is_mdns d = endswith (name_no_port d) ''.local''"

definition scheme :: "domain \<Rightarrow> string" where
  "scheme d = (if dn_tls d then ''https'' else ''http'')"

definition domain_url :: "domain \<Rightarrow> string" where
  "domain_url d = scheme d @ ''://'' @ dn_name d"

definition host_no_port :: "string \<Rightarrow> string" where
  "host_no_port host = lower (before_char (CHR '':'') host)"

definition owns :: "domain \<Rightarrow> string \<Rightarrow> bool" where
  "owns d host =
     (let name = name_no_port d in
      if name = [] then False
      else host_no_port host = name \<or> endswith (host_no_port host) (CHR ''.'' # name))"

definition looks_like_app_subdomain :: "domain \<Rightarrow> string \<Rightarrow> bool" where
  "looks_like_app_subdomain d host = (owns d host \<and> host_no_port host \<noteq> name_no_port d)"

definition app_name_from_hostname :: "domain \<Rightarrow> string \<Rightarrow> string option" where
  "app_name_from_hostname d host =
     (if \<not> looks_like_app_subdomain d host then None
      else (let h = host_no_port host;
                app_name = take (length h - (length (name_no_port d) + 1)) h
            in if is_valid_app_name app_name then Some app_name else None))"

text \<open>\<open>netloc.rpartition(':')\<close>: what follows the last colon, if there is one.\<close>

definition host_with_request_port :: "string \<Rightarrow> string \<Rightarrow> string" where
  "host_with_request_port host request_netloc =
     (let port = rev (before_char (CHR '':'') (rev request_netloc)) in
      if CHR '':'' \<in> set request_netloc \<and> py_isdigit port then host @ [CHR '':''] @ port else host)"

section \<open>The domains table\<close>

datatype domain_error =
    DomainNotFoundError string
  | AppsBusyForPrimaryChange "string list"
  | NoPrimaryDomain
  | PrimaryChangedConcurrently
  | DomainIntegrityError

definition PRIMARY_DOMAIN_RESTART_MARKER :: string where
  "PRIMARY_DOMAIN_RESTART_MARKER = ''Restarting after primary domain change''"

definition to_domain :: "domain_row \<Rightarrow> domain" where
  "to_domain r = mk_domain (n_name r) (n_tls r)"

text \<open>\<open>ORDER BY is_primary DESC, name\<close>.\<close>

definition load_records :: "db \<Rightarrow> domain_row list" where
  "load_records db = sort_key n_name (filter n_is_primary (domains db))
     @ sort_key n_name (filter (\<lambda>r. \<not> n_is_primary r) (domains db))"

definition get_record :: "db \<Rightarrow> string \<Rightarrow> domain_row option" where
  "get_record db name =
     List.find (\<lambda>r. host_no_port (n_name r) = host_no_port name) (domains db)"

text \<open>
  \<open>INSERT ... ON CONFLICT(name) DO UPDATE\<close>: an existing row keeps its primary flag; a new row
  flagged primary beside another primary violates the partial unique index.
\<close>

definition upsert_record :: "db \<Rightarrow> domain_row \<Rightarrow> domain_error + db" where
  "upsert_record db rec =
     (let name = lower (n_name rec) in
      if exists_row (\<lambda>r. n_name r = name) (domains db)
      then Inr (db\<lparr>domains := update_rows (\<lambda>r. n_name r = name)
             (\<lambda>r. r\<lparr>n_tls := n_tls rec, n_cert_status := n_cert_status rec,
                    n_error_message := n_error_message rec\<rparr>) (domains db)\<rparr>)
      else if n_is_primary rec \<and> exists_row n_is_primary (domains db) then Inl DomainIntegrityError
      else Inr (db\<lparr>domains := domains db @ [rec\<lparr>n_name := name\<rparr>]\<rparr>))"

definition remove_record :: "db \<Rightarrow> string \<Rightarrow> db \<times> bool" where
  "remove_record db name =
     (db\<lparr>domains := delete_rows (\<lambda>r. n_name r = lower name) (domains db)\<rparr>,
      exists_row (\<lambda>r. n_name r = lower name) (domains db))"

definition remove_non_primary_record :: "db \<Rightarrow> string \<Rightarrow> db \<times> bool" where
  "remove_non_primary_record db name =
     (let P = (\<lambda>r. n_name r = lower name \<and> \<not> n_is_primary r) in
      (db\<lparr>domains := delete_rows P (domains db)\<rparr>, exists_row P (domains db)))"

definition set_record_status :: "db \<Rightarrow> string \<Rightarrow> cert_status \<Rightarrow> string option \<Rightarrow> db" where
  "set_record_status db name st err =
     db\<lparr>domains := update_rows (\<lambda>r. n_name r = lower name)
          (\<lambda>r. r\<lparr>n_cert_status := st, n_error_message := err\<rparr>) (domains db)\<rparr>"

definition effective_domains :: "db \<Rightarrow> domain list" where
  "effective_domains db = map to_domain (load_records db)"

definition primary_domain_or_none :: "db \<Rightarrow> domain option" where
  "primary_domain_or_none db = map_option to_domain (List.find n_is_primary (domains db))"

definition primary_domain :: "db \<Rightarrow> domain_error + domain" where
  "primary_domain db =
     (case primary_domain_or_none db of None \<Rightarrow> Inl NoPrimaryDomain | Some d \<Rightarrow> Inr d)"

definition is_primary_domain :: "db \<Rightarrow> string \<Rightarrow> bool" where
  "is_primary_domain db name =
     (case primary_domain_or_none db of
        None \<Rightarrow> False | Some d \<Rightarrow> before_char (CHR '':'') name = name_no_port d)"

text \<open>\<open>Domain.match\<close>: the loop that keeps the first longest owner.\<close>

definition better_match :: "string \<Rightarrow> domain option \<Rightarrow> domain \<Rightarrow> domain option" where
  "better_match host best d =
     (if owns d host \<and> (case best of None \<Rightarrow> True | Some b \<Rightarrow> length (name_no_port b) < length (name_no_port d))
      then Some d else best)"

definition domain_match :: "db \<Rightarrow> string \<Rightarrow> domain option" where
  "domain_match db host = foldl (better_match host) None (effective_domains db)"

section \<open>Promotion and seeding\<close>

definition busy_apps :: "db \<Rightarrow> string list" where
  "busy_apps db = sort (map a_name (filter (\<lambda>r. a_status r \<in> {Building, Starting, Removing}) (apps db)))"

definition restart_for_promotion :: "app_row \<Rightarrow> app_row" where
  "restart_for_promotion r =
     r\<lparr>a_status := Starting, a_error_message := Some PRIMARY_DOMAIN_RESTART_MARKER\<rparr>"

definition needs_restart :: "app_row \<Rightarrow> bool" where
  "needs_restart r \<longleftrightarrow> a_status r = Running \<or> (a_status r = Errored \<and> a_container_id r \<noteq> None)"

definition demote_rows :: "string \<Rightarrow> domain_row list \<Rightarrow> domain_row list" where
  "demote_rows name = update_rows (\<lambda>r. n_name r = name \<and> n_is_primary r) (\<lambda>r. r\<lparr>n_is_primary := False\<rparr>)"

definition promote_rows :: "string \<Rightarrow> domain_row list \<Rightarrow> domain_row list" where
  "promote_rows name = update_rows (\<lambda>r. n_name r = name \<and> \<not> n_is_primary r) (\<lambda>r. r\<lparr>n_is_primary := True\<rparr>)"

text \<open>
  \<open>set_primary_domain\<close>: one immediate transaction. The result is the returned flag or the
  exception, and the database afterwards: a \<open>ROLLBACK\<close> leaves it as it was.
\<close>

definition set_primary_domain :: "db \<Rightarrow> string \<Rightarrow> (domain_error + bool) \<times> db" where
  "set_primary_domain db name =
     (let target_name = host_no_port name in
      case get_record db target_name of
        None \<Rightarrow> (Inl (DomainNotFoundError target_name), db)
      | Some target \<Rightarrow>
     (case List.find n_is_primary (domains db) of
        None \<Rightarrow> (Inl NoPrimaryDomain, db)
      | Some current \<Rightarrow>
          if n_name target = n_name current then (Inr False, db)
          else if busy_apps db \<noteq> [] then (Inl (AppsBusyForPrimaryChange (busy_apps db)), db)
          else
            (let demoted = length (filter (\<lambda>r. n_name r = n_name current \<and> n_is_primary r) (domains db));
                 rows1 = demote_rows (n_name current) (domains db);
                 promoted = length (filter (\<lambda>r. n_name r = n_name target \<and> \<not> n_is_primary r) rows1)
             in if demoted \<noteq> 1 \<or> promoted \<noteq> 1 then (Inl PrimaryChangedConcurrently, db)
                else (Inr True, db\<lparr>domains := promote_rows (n_name target) rows1,
                                   apps := update_rows needs_restart restart_for_promotion (apps db)\<rparr>))))"

fun seed_rows :: "string list \<Rightarrow> domain_row list \<Rightarrow> domain_row list" where
  "seed_rows seen [] = []"
| "seed_rows seen (rec # recs) =
     (let host = before_char (CHR '':'') (n_name rec) in
      if host \<in> set seen then seed_rows seen recs
      else rec\<lparr>n_is_primary := False\<rparr> # seed_rows (host # seen) recs)"

definition seed_domains :: "db \<Rightarrow> domain \<Rightarrow> domain_row list \<Rightarrow> db \<times> bool" where
  "seed_domains db primary extras =
     (if domains db \<noteq> [] then (db, False)
      else (db\<lparr>domains := \<lparr>n_name = dn_name primary, n_tls = dn_tls primary, n_is_primary = True,
                           n_cert_status = CertNone, n_error_message = None\<rparr>
                         # seed_rows [name_no_port primary] extras\<rparr>, True))"

section \<open>Facts\<close>

lemma host_no_port_idem [simp]: "host_no_port (host_no_port h) = host_no_port h"
proof -
  have "(of_char (CHR '':'') :: nat) < 65" by simp
  then show ?thesis by (simp add: host_no_port_def before_char_lower)
qed

lemma owns_iff:
  "owns d host \<longleftrightarrow> name_no_port d \<noteq> [] \<and>
     (host_no_port host = name_no_port d \<or> (\<exists>p. host_no_port host = p @ [CHR ''.''] @ name_no_port d))"
  by (auto simp: owns_def Let_def endswith_suffix suffix_def)

lemma foldl_better_match:
  "case foldl (better_match host) best ds of
     None \<Rightarrow> best = None \<and> (\<forall>d\<in>set ds. \<not> owns d host)
   | Some m \<Rightarrow> (best = Some m \<or> m \<in> set ds \<and> owns m host) \<and>
       (\<forall>b. best = Some b \<longrightarrow> length (name_no_port b) \<le> length (name_no_port m)) \<and>
       (\<forall>d\<in>set ds. owns d host \<longrightarrow> length (name_no_port d) \<le> length (name_no_port m))"
proof (induction ds arbitrary: best)
  case Nil
  then show ?case by (auto split: option.splits)
next
  case (Cons d ds)
  from Cons.IH [of "better_match host best d"] show ?case
    by (cases best) (auto simp: better_match_def split: option.splits if_splits)
qed

lemma set_load_records [simp]: "set (load_records db) = set (domains db)"
  by (auto simp: load_records_def)

definition domains_ok :: "db \<Rightarrow> bool" where
  "domains_ok db \<longleftrightarrow>
     distinct (map n_name (domains db)) \<and> length (filter n_is_primary (domains db)) = 1"

lemma domains_ok_primary:
  assumes "domains_ok db"
  obtains x where "filter n_is_primary (domains db) = [x]" and "x \<in> set (domains db)"
    and "n_is_primary x" and "\<And>r. r \<in> set (domains db) \<Longrightarrow> n_is_primary r \<Longrightarrow> r = x"
proof -
  obtain x where x: "filter n_is_primary (domains db) = [x]"
    using assms by (auto simp: domains_ok_def length_Suc_conv)
  have "r \<in> set (domains db) \<and> n_is_primary r \<longleftrightarrow> r \<in> set (filter n_is_primary (domains db))" for r
    by simp
  then have "r \<in> set (domains db) \<and> n_is_primary r \<longleftrightarrow> r = x" for r
    by (simp only: x list.set) simp
  with x that show ?thesis by blast
qed

lemma domains_ok_apps [simp]: "domains_ok (db\<lparr>apps := a\<rparr>) = domains_ok db"
  by (simp add: domains_ok_def)

lemma filter_update_rows_same:
  assumes "\<And>r. P r \<Longrightarrow> Q (f r) = Q r"
  shows "length (filter Q (update_rows P f t)) = length (filter Q t)"
  using assms by (induction t) (auto simp: update_rows_def)

lemma domains_ok_update [inv_intros]:
  assumes "domains_ok db"
    and "\<And>r. P r \<Longrightarrow> n_name (f r) = n_name r \<and> n_is_primary (f r) = n_is_primary r"
  shows "domains_ok (db\<lparr>domains := update_rows P f (domains db)\<rparr>)"
  using assms map_update_rows_same [of P n_name f] filter_update_rows_same [of P n_is_primary f]
  by (simp add: domains_ok_def)

lemma domains_ok_set_record_status [inv_intros]:
  "domains_ok db \<Longrightarrow> domains_ok (set_record_status db name st err)"
  unfolding set_record_status_def by (rule domains_ok_update) auto

lemma domains_ok_upsert [inv_intros]:
  assumes "domains_ok db" and "upsert_record db rec = Inr db'"
  shows "domains_ok db'"
proof (cases "exists_row (\<lambda>r. n_name r = lower (n_name rec)) (domains db)")
  case True
  then have "db' = db\<lparr>domains := update_rows (\<lambda>r. n_name r = lower (n_name rec))
      (\<lambda>r. r\<lparr>n_tls := n_tls rec, n_cert_status := n_cert_status rec,
             n_error_message := n_error_message rec\<rparr>) (domains db)\<rparr>"
    using assms(2) by (simp add: upsert_record_def)
  then show ?thesis by (simp only:) (rule domains_ok_update [OF assms(1)], simp)
next
  case False
  have "exists_row n_is_primary (domains db)"
    by (rule domains_ok_primary [OF assms(1)]) (unfold exists_row_iff, blast)
  with False assms have "\<not> n_is_primary rec" and "db' = db\<lparr>domains := domains db @ [rec\<lparr>n_name := lower (n_name rec)\<rparr>]\<rparr>"
    by (auto simp: upsert_record_def split: if_splits)
  with False assms(1) show ?thesis by (auto simp: domains_ok_def table_simps)
qed

lemma domains_ok_remove_non_primary [inv_intros]:
  assumes "domains_ok db"
  shows "domains_ok (fst (remove_non_primary_record db name))"
proof -
  have "filter n_is_primary (delete_rows (\<lambda>r. n_name r = x \<and> \<not> n_is_primary r) t) = filter n_is_primary t"
    for x and t :: "domain_row list" by (induction t) (auto simp: delete_rows_def)
  with assms show ?thesis
    by (simp add: domains_ok_def remove_non_primary_record_def distinct_delete_rows Let_def)
qed

lemma seed_rows_facts:
  "filter n_is_primary (seed_rows seen recs) = [] \<and>
   distinct (map (\<lambda>r. before_char (CHR '':'') (n_name r)) (seed_rows seen recs)) \<and>
   set seen \<inter> (\<lambda>r. before_char (CHR '':'') (n_name r)) ` set (seed_rows seen recs) = {}"
proof (induction recs arbitrary: seen)
  case (Cons rec recs)
  from Cons.IH [of seen] Cons.IH [of "before_char (CHR '':'') (n_name rec) # seen"]
  show ?case by (auto simp: Let_def)
qed simp

lemma distinct_map_comp: "distinct (map (f \<circ> g) xs) \<Longrightarrow> distinct (map g xs)"
  by (induction xs) auto

lemma seed_domains_ok [inv_intros]:
  assumes "domains db = []"
  shows "domains_ok (fst (seed_domains db primary extras))"
proof -
  note facts = seed_rows_facts [of "[name_no_port primary]" extras]
  let ?rows = "seed_rows [name_no_port primary] extras"
  have "distinct (map (before_char (CHR '':'') \<circ> n_name) ?rows)"
    using facts by (simp only: comp_def)
  then have "distinct (map n_name ?rows)" by (rule distinct_map_comp)
  moreover have "dn_name primary \<notin> n_name ` set ?rows"
    using conjunct2 [OF conjunct2 [OF facts]] unfolding name_no_port_def by fastforce
  moreover have "filter n_is_primary ?rows = []" using facts by blast
  ultimately show ?thesis using assms by (simp add: domains_ok_def seed_domains_def)
qed

lemma length_filter_unique:
  assumes "distinct (map key t)" and "r \<in> set t" and "P r"
  shows "length (filter (\<lambda>x. key x = key r \<and> P x) t) = 1"
  using assms
proof (induction t)
  case (Cons x xs)
  show ?case
  proof (cases "x = r")
    case True
    with Cons.prems have "filter (\<lambda>x. key x = key r \<and> P x) xs = []"
      by (auto simp: filter_empty_conv image_iff)
    with True Cons.prems show ?thesis by simp
  next
    case False
    with Cons.prems have "r \<in> set xs" and "key x \<noteq> key r" by (auto simp: image_iff)
    with Cons show ?thesis by simp
  qed
qed simp

lemma set_demote_rows:
  "set (demote_rows n t) = (\<lambda>r. if n_name r = n \<and> n_is_primary r then r\<lparr>n_is_primary := False\<rparr> else r) ` set t"
  by (simp add: demote_rows_def set_update_rows)

lemma map_name_promote_demote [simp]:
  "map n_name (promote_rows a t) = map n_name t" "map n_name (demote_rows a t) = map n_name t"
  unfolding promote_rows_def demote_rows_def by (rule map_update_rows_same; simp)+

lemma demote_only_primary:
  assumes "filter n_is_primary t = [c]"
  shows "filter n_is_primary (demote_rows (n_name c) t) = []"
proof -
  have "r = c" if "r \<in> set t \<and> n_is_primary r" for r
  proof -
    from that have "r \<in> set (filter n_is_primary t)" by simp
    with assms show ?thesis by simp
  qed
  then show ?thesis by (fastforce simp: filter_empty_conv set_demote_rows)
qed

lemma promote_counts:
  assumes "filter n_is_primary t = []" and "length (filter (\<lambda>r. n_name r = n \<and> \<not> n_is_primary r) t) = 1"
  shows "length (filter n_is_primary (promote_rows n t)) = 1"
proof -
  have "length (filter n_is_primary (promote_rows n t)) =
      length (filter n_is_primary t) + length (filter (\<lambda>r. n_name r = n \<and> \<not> n_is_primary r) t)"
    by (induction t) (auto simp: promote_rows_def update_rows_def)
  with assms show ?thesis by simp
qed

text \<open>What a promotion does, when the table has its one primary row and names are unique.\<close>

lemma set_primary_domain_cases:
  assumes "domains_ok db" and "set_primary_domain db name = (res, db')"
  shows "domains_ok db'"
    and "res \<noteq> Inr True \<Longrightarrow> db' = db"
    and "res = Inr True \<Longrightarrow> busy_apps db = [] \<and>
      (\<exists>t. get_record db (host_no_port name) = Some t \<and> \<not> n_is_primary t \<and>
         (\<forall>r\<in>set (domains db'). n_is_primary r \<longleftrightarrow> n_name r = n_name t)) \<and>
      map n_name (domains db') = map n_name (domains db) \<and>
      apps db' = update_rows needs_restart restart_for_promotion (apps db)"
proof -
  obtain c where c: "filter n_is_primary (domains db) = [c]" "c \<in> set (domains db)" "n_is_primary c"
    and uniq: "\<And>r. r \<in> set (domains db) \<Longrightarrow> n_is_primary r \<Longrightarrow> r = c"
    by (rule domains_ok_primary [OF assms(1)]) (rule that)
  have cur: "List.find n_is_primary (domains db) = Some c"
    using uniq c by (metis find_None_iff find_SomeD not_Some_eq)
  let ?t = "get_record db (host_no_port name)"
  show frame: "db' = db" if "res \<noteq> Inr True"
    using assms(2) that by (auto simp: set_primary_domain_def Let_def split: option.splits if_splits)
  have yes: "domains_ok db' \<and> busy_apps db = [] \<and>
      (\<exists>t. ?t = Some t \<and> \<not> n_is_primary t \<and>
         (\<forall>r\<in>set (domains db'). n_is_primary r \<longleftrightarrow> n_name r = n_name t)) \<and>
      map n_name (domains db') = map n_name (domains db) \<and>
      apps db' = update_rows needs_restart restart_for_promotion (apps db)" if r: "res = Inr True"
  proof -
    obtain t where t: "?t = Some t" using assms(2) r
      by (cases ?t) (auto simp: set_primary_domain_def Let_def)
    let ?rows1 = "demote_rows (n_name c) (domains db)"
    have facts: "n_name t \<noteq> n_name c" "busy_apps db = []"
        "length (filter (\<lambda>r. n_name r = n_name t \<and> \<not> n_is_primary r) ?rows1) = 1"
      and db': "db' = db\<lparr>domains := promote_rows (n_name t) ?rows1,
             apps := update_rows needs_restart restart_for_promotion (apps db)\<rparr>"
      using assms(2) r t cur
      by (auto simp: set_primary_domain_def Let_def split: if_splits)
    have none: "filter n_is_primary ?rows1 = []" by (rule demote_only_primary [OF c(1)])
    have "\<not> n_is_primary t"
      using t facts(1) uniq by (auto simp: get_record_def dest: find_SomeD)
    moreover have "\<forall>r\<in>set (promote_rows (n_name t) ?rows1). n_is_primary r \<longleftrightarrow> n_name r = n_name t"
      using none by (auto simp: promote_rows_def set_update_rows filter_empty_conv)
    moreover have "domains_ok db'"
      using assms(1) promote_counts [OF none facts(3)] by (simp add: domains_ok_def db')
    ultimately show ?thesis using facts t by (simp add: db')
  qed
  show "domains_ok db'" using yes frame assms(1) by (cases "res = Inr True") auto
  show "res = Inr True \<Longrightarrow> busy_apps db = [] \<and>
      (\<exists>t. ?t = Some t \<and> \<not> n_is_primary t \<and>
         (\<forall>r\<in>set (domains db'). n_is_primary r \<longleftrightarrow> n_name r = n_name t)) \<and>
      map n_name (domains db') = map n_name (domains db) \<and>
      apps db' = update_rows needs_restart restart_for_promotion (apps db)"
    using yes by blast
qed

text \<open>
  The operations the router performs on a seeded table, one constructor each; a refused
  operation leaves the table as it is.
\<close>

datatype domain_op =
    Upsert domain_row
  | RemoveNonPrimary string
  | SetStatus string cert_status "string option"
  | SetPrimary string
  | Seed domain "domain_row list"

fun domain_step :: "db \<Rightarrow> domain_op \<Rightarrow> db" where
  "domain_step db (Upsert rec) = (case upsert_record db rec of Inl _ \<Rightarrow> db | Inr db' \<Rightarrow> db')"
| "domain_step db (RemoveNonPrimary name) = fst (remove_non_primary_record db name)"
| "domain_step db (SetStatus name st err) = set_record_status db name st err"
| "domain_step db (SetPrimary name) = snd (set_primary_domain db name)"
| "domain_step db (Seed primary extras) = fst (seed_domains db primary extras)"

interpretation domain_table: guarded_system domain_step domains_ok
proof unfold_locales
  fix db op
  assume ok: "domains_ok db"
  show "domains_ok (domain_step db op)"
  proof (cases op)
    case (Upsert rec)
    then show ?thesis using ok domains_ok_upsert [OF ok] by (auto split: sum.splits)
  next
    case (SetPrimary name)
    then show ?thesis using set_primary_domain_cases(1) [OF ok] by (metis domain_step.simps(4) prod.collapse)
  next
    case (Seed primary extras)
    have "domains db \<noteq> []" using ok by (auto simp: domains_ok_def)
    then show ?thesis using ok Seed by (simp add: seed_domains_def)
  qed (use ok in \<open>auto intro: domains_ok_remove_non_primary domains_ok_set_record_status\<close>)
qed

section \<open>From a host header to an app\<close>

text \<open>\<open>get_app_from_hostname\<close> of \<open>core/apps.py\<close>.\<close>

definition get_app_from_hostname :: "string \<Rightarrow> db \<Rightarrow> app_row option" where
  "get_app_from_hostname host db =
     (case domain_match db host of
        None \<Rightarrow> None
      | Some matched \<Rightarrow>
          (case app_name_from_hostname matched host of
             None \<Rightarrow> None
           | Some app_name \<Rightarrow> find_app_by_name db app_name))"

lemma demo_domains_ok: "db_ok demo_db \<and> domains_ok demo_db"
  by (simp add: demo_db_def db_ok_def apps_ok_def ports_ok_def tokens_ok_def foreign_keys_ok_def
      domains_ok_def empty_db_def demo_app_def demo_domain_row_def)

section \<open>Properties\<close>

text \<open>\<open>Domain.match\<close> returns a configured domain that owns the host and whose name is longest
  among the owners, and None exactly when no configured domain owns the host.\<close>

lemma domain_match_longest:
  "case domain_match db host of
     None \<Rightarrow> (\<forall>d\<in>set (effective_domains db). \<not> owns d host)
   | Some m \<Rightarrow> m \<in> set (effective_domains db) \<and> owns m host \<and>
       (\<forall>d\<in>set (effective_domains db). owns d host \<longrightarrow>
          length (name_no_port d) \<le> length (name_no_port m))"
  using foldl_better_match [where host = host and best = None and ds = "effective_domains db"]
  by (auto simp: domain_match_def split: option.splits)

lemma domain_match_longest_witness:
  "\<exists>m. domain_match demo_db ''notes.home.example.com:8080'' = Some m \<and>
     name_no_port m = ''home.example.com'' \<and> owns m ''notes.home.example.com:8080''"
proof -
  have "domain_match demo_db ''notes.home.example.com:8080'' = Some (mk_domain ''home.example.com'' True)"
    by code_simp
  moreover have "name_no_port (mk_domain ''home.example.com'' True) = ''home.example.com''" by code_simp
  ultimately show ?thesis
    using domain_match_longest [where db = demo_db and host = "''notes.home.example.com:8080''"] by simp
qed

text \<open>A host names an app under a domain exactly when, lower-cased and without its port, it is
  a valid app name, a dot and the domain's name; so the label is one DNS label and one host cannot
  name two apps under the same domain.\<close>

lemma app_name_from_hostname_iff:
  "app_name_from_hostname d host = Some n \<longleftrightarrow>
     name_no_port d \<noteq> [] \<and> is_valid_app_name n \<and>
     host_no_port host = n @ [CHR ''.''] @ name_no_port d"
proof
  assume "app_name_from_hostname d host = Some n"
  then show "name_no_port d \<noteq> [] \<and> is_valid_app_name n \<and>
      host_no_port host = n @ [CHR ''.''] @ name_no_port d"
    by (auto simp: app_name_from_hostname_def looks_like_app_subdomain_def owns_iff Let_def
        split: if_splits)
next
  assume "name_no_port d \<noteq> [] \<and> is_valid_app_name n \<and>
      host_no_port host = n @ [CHR ''.''] @ name_no_port d"
  then show "app_name_from_hostname d host = Some n"
    by (auto simp: app_name_from_hostname_def looks_like_app_subdomain_def owns_iff Let_def)
qed

text \<open>A request reaches an app through its host name only if a configured domain owns the
  host and the host is that app's name under it; the row found is the app of that name.\<close>

lemma get_app_from_hostname_sound:
  assumes "get_app_from_hostname host db = Some app"
  shows "app \<in> set (apps db) \<and> is_valid_app_name (a_name app) \<and>
    (\<exists>d\<in>set (effective_domains db). host_no_port host = a_name app @ [CHR ''.''] @ name_no_port d)"
proof -
  obtain d n where d: "domain_match db host = Some d" and n: "app_name_from_hostname d host = Some n"
    and app: "find_app_by_name db n = Some app"
    using assms by (auto simp: get_app_from_hostname_def split: option.splits)
  have "d \<in> set (effective_domains db)"
    using foldl_better_match [where host = host and best = None and ds = "effective_domains db"] d by (simp add: domain_match_def)
  moreover have "app \<in> set (apps db) \<and> a_name app = n"
    using app by (auto simp: find_app_by_name_def dest: find_SomeD)
  moreover have "is_valid_app_name n \<and> host_no_port host = n @ [CHR ''.''] @ name_no_port d"
    using n by (auto simp: app_name_from_hostname_def looks_like_app_subdomain_def owns_iff Let_def
        split: if_splits)
  ultimately show ?thesis by auto
qed

lemma get_app_from_hostname_sound_witness:
  "get_app_from_hostname ''Notes.Example.com:443'' demo_db = Some (demo_app ''A1'' ''notes'' 9000 Running)
   \<and> is_valid_app_name ''notes''"
proof -
  have "get_app_from_hostname ''Notes.Example.com:443'' demo_db = Some (demo_app ''A1'' ''notes'' 9000 Running)"
    by (code_simp; simp add: demo_app_def)
  from this get_app_from_hostname_sound [OF this] show ?thesis by (simp add: demo_app_def)
qed

text \<open>Promoting a domain is all or nothing: on an exception or a no-op the database is
  unchanged; on success no app was building, starting or being removed, exactly the target row is
  primary, no domain was added or lost, and precisely the apps that were running, or failed with a
  container, are handed to startup recovery with the restart marker.\<close>

lemma set_primary_domain_atomic:
  assumes "domains_ok db" and "set_primary_domain db name = (res, db')"
  shows "domains_ok db' \<and> (res \<noteq> Inr True \<longrightarrow> db' = db) \<and>
    (res = Inr True \<longrightarrow> busy_apps db = [] \<and>
      (\<exists>t. get_record db (host_no_port name) = Some t \<and> \<not> n_is_primary t \<and>
         (\<forall>r\<in>set (domains db'). n_is_primary r \<longleftrightarrow> n_name r = n_name t)) \<and>
      map n_name (domains db') = map n_name (domains db) \<and>
      apps db' = update_rows needs_restart restart_for_promotion (apps db))"
  using set_primary_domain_cases [OF assms] by blast

lemma set_primary_domain_atomic_witness:
  "\<exists>db'. set_primary_domain demo_db ''Home.example.com:8443'' = (Inr True, db') \<and> domains_ok db' \<and>
     map n_name (domains db') = map n_name (domains demo_db)"
proof -
  have res: "fst (set_primary_domain demo_db ''Home.example.com:8443'') = Inr True" by code_simp
  obtain db' where eq: "set_primary_domain demo_db ''Home.example.com:8443'' = (Inr True, db')"
    using res by (metis prod.collapse)
  from set_primary_domain_atomic [OF conjunct2 [OF demo_domains_ok] eq] eq show ?thesis by blast
qed

text \<open>C3. Once seeded, the table has exactly one primary domain and no repeated name, and keeps
  both whatever sequence of upserts, removals, status changes, promotions and re-seeding the
  router performs.\<close>

theorem domain_ops_keep_one_primary:
  assumes "domains db = []"
  shows "domains_ok (foldl domain_step (fst (seed_domains db primary extras)) ops)"
  by (rule domain_table.foldl_inv [OF seed_domains_ok [OF assms]])

theorem domain_ops_keep_one_primary_witness:
  "domains_ok (foldl domain_step
     (fst (seed_domains empty_db (mk_domain ''example.com'' True) [demo_domain_row ''b.local'' True]))
     [SetPrimary ''b.local'', RemoveNonPrimary ''example.com''])"
  by (rule domain_ops_keep_one_primary) (simp add: empty_db_def)

end
