(* ===== verification/Host.thy ===== *)
theory Host
  imports Containers Domains
begin

text \<open>
  The machine under the router: the configuration (\<open>config.py\<close>), the database together with the
  containers that exist, the answers of podman, disk and clock while one operation runs, and the
  operations that only stop containers. \<open>host\<close> collects what the code asks of the outside:
  every field is the answer to one kind of call, so a theorem about all hosts covers every
  failure. \<open>h_others\<close> is what other threads do to the state while this one is blocked.
\<close>

section \<open>Configuration\<close>

record config =
  cf_data_root_dir :: string
  cf_apps_dir_override :: "string option"
  cf_storage_min_free_mb :: int
  cf_image_prune_interval_seconds :: int
  cf_image_orphan_max_age_seconds :: int
  cf_port_range_start :: int
  cf_port_range_end :: int
  cf_port :: int
  cf_redirect_domain :: string
  cf_default_apps :: "string list"

definition persistent_data_dir :: "config \<Rightarrow> string" where
  "persistent_data_dir cfg = path_join (cf_data_root_dir cfg) ''persistent_data''"

definition temporary_data_dir :: "config \<Rightarrow> string" where
  "temporary_data_dir cfg = path_join (cf_data_root_dir cfg) ''temporary_data''"

definition app_archive_dir :: "config \<Rightarrow> string" where
  "app_archive_dir cfg = path_join (cf_data_root_dir cfg) ''app_archive''"

definition apps_dir :: "config \<Rightarrow> string" where
  "apps_dir cfg =
     (case non_empty (cf_apps_dir_override cfg) of
        Some d \<Rightarrow> d | None \<Rightarrow> path_join (cf_data_root_dir cfg) ''apps'')"

section \<open>State and environment\<close>

text \<open>The committed database and the containers that exist, as pairs of id and name.\<close>

record sys =
  sdb :: db
  containers :: "(string \<times> string) list"

datatype phase = DuringBuild | DuringRun | DuringReady

record host =
  h_env :: manifest_env
  h_version_rank :: "string \<Rightarrow> rat"
  h_ports :: "(int \<Rightarrow> bool) \<times> (int \<Rightarrow> bool)"
  h_shuffle :: "int list \<Rightarrow> int list"
  h_disk_free :: int
  h_archive_backend :: string
  h_archive_mounted :: bool
  h_archive_is_dir :: bool
  h_gateway_bindable :: bool
  h_files :: "string \<Rightarrow> string option"
  h_is_dir :: "string \<Rightarrow> bool"
  h_fresh_ids :: "string list"
  h_token :: string
  h_sha256 :: "string \<Rightarrow> string"
  h_build :: "nat \<Rightarrow> string list \<Rightarrow> podman_result"
  h_podman :: "string list \<Rightarrow> podman_result"
  h_ready :: "app_exn + bool"
  h_stop_gone :: "string \<Rightarrow> bool"
  h_stop_raises :: "string \<Rightarrow> bool"
  h_recopy :: "app_exn + unit"
  h_now :: int
  h_text :: "app_exn \<Rightarrow> string"
  h_others :: "phase \<Rightarrow> sys \<Rightarrow> sys"

text \<open>\<open>is_archive_dir_healthy\<close> of \<open>archive_backend.py\<close>; \<open>is_mounted\<close> reads the kernel's mount table.\<close>

definition is_archive_dir_healthy :: "host \<Rightarrow> bool" where
  "is_archive_dir_healthy h =
     (if h_archive_backend h = ''local'' \<or> h_archive_backend h = ''s3'' then h_archive_mounted h else True)"

text \<open>
  \<open>_data_section\<close>: the \<open>[data]\<close> table of a stored manifest, empty when there is none or the text
  does not parse; what \<open>data.get\<close> does to a value that is no table is left to \<open>py_get\<close>.
\<close>

definition data_section :: "manifest_env \<Rightarrow> string \<Rightarrow> pyval" where
  "data_section env manifest_raw =
     (if manifest_raw = [] then PDict []
      else (case toml_loads env manifest_raw of
          None \<Rightarrow> PDict []
        | Some toml \<Rightarrow> py_or (dict_lookup toml ''data'' (PDict [])) (PDict [])))"

definition data_flag :: "pyval \<Rightarrow> string \<Rightarrow> app_exn + bool" where
  "data_flag data k = bind_res (lift_dynamic (py_get data k PNone)) (\<lambda>v. Inr (truthy v))"

definition manifest_requires_archive :: "manifest_env \<Rightarrow> string \<Rightarrow> app_exn + bool" where
  "manifest_requires_archive env manifest_raw = data_flag (data_section env manifest_raw) ''app_archive''"

definition manifest_uses_archive :: "manifest_env \<Rightarrow> string \<Rightarrow> app_exn + bool" where
  "manifest_uses_archive env manifest_raw =
     (let data = data_section env manifest_raw in
      bind_res (data_flag data ''app_archive'') (\<lambda>a. if a then Inr True else
      bind_res (data_flag data ''access_all_app_data'') (\<lambda>b. if b then Inr True else
      bind_res (data_flag data ''access_all_data'') (\<lambda>c. if c then Inr True else
      data_flag data ''access_all_archive''))))"

section \<open>Stopping containers\<close>

text \<open>
  \<open>stop_container\<close>: stop, escalate to kill, remove. The exit codes are not checked, so the call
  can return although the container is still there, and it raises only on a timeout. podman takes
  a container's id or its name.
\<close>

definition stop_container :: "host \<Rightarrow> string \<Rightarrow> sys \<Rightarrow> sys" where
  "stop_container h container_id s =
     (if h_stop_gone h container_id
      then s\<lparr>containers := filter (\<lambda>(i, n). i \<noteq> container_id \<and> n \<noteq> container_id) (containers s)\<rparr> else s)"

text \<open>\<open>stop_app_process\<close>: exceptions are logged and swallowed; the database is not touched.\<close>

definition stop_app_process :: "host \<Rightarrow> app_row \<Rightarrow> sys \<Rightarrow> sys" where
  "stop_app_process h row s =
     (case non_empty (a_container_id row) of None \<Rightarrow> s | Some c \<Rightarrow> stop_container h c s)"

lemma stop_container_db [simp]: "sdb (stop_container h c s) = sdb s"
  by (simp add: stop_container_def)

lemma stop_app_process_db [simp]: "sdb (stop_app_process h row s) = sdb s"
  by (simp add: stop_app_process_def split: option.splits)

lemma stop_container_containers: "set (containers (stop_container h c s)) \<subseteq> set (containers s)"
  by (auto simp: stop_container_def)

lemma stop_app_process_containers: "set (containers (stop_app_process h row s)) \<subseteq> set (containers s)"
  using stop_container_containers by (auto simp: stop_app_process_def split: option.splits)

definition is_container_running :: "string \<Rightarrow> sys \<Rightarrow> bool" where
  "is_container_running container_id s \<longleftrightarrow> (\<exists>(i, n)\<in>set (containers s). i = container_id \<or> n = container_id)"

section \<open>The storage guard (\<open>core/storage.py\<close>)\<close>

definition MIB :: int where
  "MIB = 1024 * 1024"

definition storage_min_free_bytes :: "config \<Rightarrow> int option" where
  "storage_min_free_bytes cfg =
     (let limit = cf_storage_min_free_mb cfg in if limit \<le> 0 then None else Some (limit * MIB))"

definition check_min_free :: "config \<Rightarrow> host \<Rightarrow> (int \<times> int) option" where
  "check_min_free cfg h =
     (case storage_min_free_bytes cfg of
        None \<Rightarrow> None
      | Some min_free \<Rightarrow> if h_disk_free h < min_free then Some (h_disk_free h, min_free) else None)"

definition storage_low :: "config \<Rightarrow> host \<Rightarrow> bool" where
  "storage_low cfg h = (check_min_free cfg h \<noteq> None)"

definition check_before_deploy :: "config \<Rightarrow> host \<Rightarrow> app_exn + unit" where
  "check_before_deploy cfg h =
     (case check_min_free cfg h of Some (free, min_free) \<Rightarrow> Inl (StorageTooLow free min_free) | None \<Rightarrow> Inr ())"

definition STORAGE_DETAIL :: string where
  "STORAGE_DETAIL = ''Storage too low. Free space by removing app data or resizing disks.''"

definition guard_stop :: "host \<Rightarrow> app_row \<Rightarrow> sys \<Rightarrow> sys" where
  "guard_stop h row s =
     (let s1 = stop_app_process h row s in
      s1\<lparr>sdb := update_app (a_app_id row)
           (\<lambda>r. r\<lparr>a_status := Errored, a_error_message := Some STORAGE_DETAIL, a_container_id := None\<rparr>) (sdb s1)\<rparr>)"

definition enforce_storage_guard :: "config \<Rightarrow> host \<Rightarrow> bool \<Rightarrow> sys \<Rightarrow> sys" where
  "enforce_storage_guard cfg h guard_paused s =
     (case check_min_free cfg h of
        None \<Rightarrow> s
      | Some _ \<Rightarrow>
          if guard_paused then s
          else foldl (\<lambda>s row. guard_stop h row s) s
                 (filter (\<lambda>r. a_status r = Running \<or> a_status r = Starting) (apps (sdb s))))"

section \<open>The image pruner (\<open>core/image_pruner.py\<close>)\<close>

record image =
  im_id :: string
  im_app_name :: string
  im_created_epoch :: int

text \<open>\<open>_OPENHOST_IMAGE_TAG_RE\<close>: an optional registry prefix, a non-empty name, the tag \<open>latest\<close>; the
  final \<open>$\<close> lets one newline follow.\<close>

definition parse_openhost_image_app_name :: "string \<Rightarrow> string option" where
  "parse_openhost_image_app_name tag =
     (let unprefixed = removeprefix tag ''localhost/'';
          body = (if endswith unprefixed [CHR 0x0A] then butlast unprefixed else unprefixed);
          name = take (length body - length (''openhost-'' @ '':latest'')) (drop (length ''openhost-'') body)
      in if startswith body ''openhost-'' \<and> endswith body '':latest'' \<and>
            length (''openhost-'' @ '':latest'') < length body \<and> CHR 0x0A \<notin> set name
         then Some name else None)"

text \<open>One row of \<open>podman images --format json\<close>; \<open>row.get\<close> needs a dictionary.\<close>

definition images_of_row :: "pyval \<Rightarrow> unit py_exn + image list" where
  "images_of_row row =
     bind_res (py_get row ''Id'' PNone) (\<lambda>image_id.
     bind_res (py_get row ''Created'' PNone) (\<lambda>created.
     (case as_int created of
        None \<Rightarrow> Inr []
      | Some epoch \<Rightarrow>
     bind_res (py_get row ''Names'' PNone) (\<lambda>ns.
     bind_res (py_get row ''RepoTags'' PNone) (\<lambda>ts.
     (case py_or (py_or ns ts) (PList []) of
        PList names \<Rightarrow> Inr (concat (map (\<lambda>name.
          (case (as_str name, as_str image_id) of
             (Some n, Some i) \<Rightarrow>
               (case parse_openhost_image_app_name n of
                  Some app_name \<Rightarrow> [\<lparr>im_id = i, im_app_name = app_name, im_created_epoch = epoch\<rparr>]
                | None \<Rightarrow> [])
           | _ \<Rightarrow> [])) names))
      | _ \<Rightarrow> Inr []))))))"

fun list_openhost_images :: "pyval list \<Rightarrow> unit py_exn + image list" where
  "list_openhost_images [] = Inr []"
| "list_openhost_images (row # rows) =
     bind_res (images_of_row row) (\<lambda>is.
     bind_res (list_openhost_images rows) (\<lambda>js. Inr (is @ js)))"

definition prune_interval_seconds :: "config \<Rightarrow> int option" where
  "prune_interval_seconds cfg =
     (let interval = cf_image_prune_interval_seconds cfg in if interval \<le> 0 then None else Some interval)"

definition orphan_max_age_seconds :: "config \<Rightarrow> int option" where
  "orphan_max_age_seconds cfg =
     (let max_age = cf_image_orphan_max_age_seconds cfg in if max_age \<le> 0 then None else Some max_age)"

definition current_app_names :: "db \<Rightarrow> string list" where
  "current_app_names db = map a_name (apps db)"

text \<open>\<open>removed_ok\<close> is podman's answer to each removal; the result lists the removed image ids.\<close>

definition sweep_orphaned_images ::
    "config \<Rightarrow> (string \<Rightarrow> bool) \<Rightarrow> db \<Rightarrow> image list \<Rightarrow> int \<Rightarrow> string list" where
  "sweep_orphaned_images cfg removed_ok db images now_epoch =
     (case orphan_max_age_seconds cfg of
        None \<Rightarrow> []
      | Some max_age \<Rightarrow>
          map im_id (filter (\<lambda>i. removed_ok (im_id i))
            (filter (\<lambda>i. \<not> (now_epoch - im_created_epoch i < max_age))
              (filter (\<lambda>i. im_app_name i \<notin> set (current_app_names db)) images))))"

section \<open>Memory pressure (\<open>core/memory_guard.py\<close>)\<close>

definition MEMORY_WARN_PERCENT :: rat where
  "MEMORY_WARN_PERCENT = 90"

definition MEMORY_CLEAR_PERCENT :: rat where
  "MEMORY_CLEAR_PERCENT = 80"

text \<open>The debounce state and whether this sample warns.\<close>

definition check_memory_pressure ::
    "rat option \<Rightarrow> string \<Rightarrow> string list \<Rightarrow> string list \<times> bool" where
  "check_memory_pressure percent app_id notified =
     (case percent of
        None \<Rightarrow> (notified, False)
      | Some p \<Rightarrow>
          if p < MEMORY_CLEAR_PERCENT then (removeAll app_id notified, False)
          else if p \<ge> MEMORY_WARN_PERCENT \<and> app_id \<notin> set notified then (app_id # notified, True)
          else (notified, False))"

fun pressure_run :: "string \<Rightarrow> string list \<Rightarrow> rat option list \<Rightarrow> bool list" where
  "pressure_run app_id notified [] = []"
| "pressure_run app_id notified (p # ps) =
     (let (n, w) = check_memory_pressure p app_id notified in w # pressure_run app_id n ps)"

section \<open>Facts\<close>

definition mark_storage :: "app_row \<Rightarrow> app_row" where
  "mark_storage r = r\<lparr>a_status := Errored, a_error_message := Some STORAGE_DETAIL, a_container_id := None\<rparr>"

lemma guard_stop_db: "sdb (guard_stop h row s) = update_app (a_app_id row) mark_storage (sdb s)"
  by (simp add: guard_stop_def Let_def mark_storage_def [abs_def])

lemma key_preserving_mark: "key_preserving mark_storage"
  by (simp add: key_preserving_def mark_storage_def)

lemma update_rows_twice:
  assumes "\<And>r. P (f r) = P r" and "\<And>r. f (f r) = f r" and "\<And>r. Q (f r) = Q r"
  shows "update_rows P f (update_rows Q f t) = update_rows (\<lambda>r. Q r \<or> P r) f t"
  unfolding update_rows_def using assms by (auto simp: comp_def)

lemma foldl_guard_stop_db:
  "sdb (foldl (\<lambda>s row. guard_stop h row s) s rows) =
     (sdb s)\<lparr>apps := update_rows (\<lambda>r. a_app_id r \<in> a_app_id ` set rows) mark_storage (apps (sdb s))\<rparr>"
proof (induction rows arbitrary: s)
  case Nil
  then show ?case by (simp add: update_rows_def)
next
  case (Cons x xs)
  have "update_rows (\<lambda>r. a_app_id r \<in> a_app_id ` set xs) mark_storage
      (update_rows (\<lambda>r. a_app_id r = a_app_id x) mark_storage (apps (sdb s))) =
    update_rows (\<lambda>r. a_app_id r = a_app_id x \<or> a_app_id r \<in> a_app_id ` set xs) mark_storage (apps (sdb s))"
    by (rule update_rows_twice) (simp_all add: mark_storage_def)
  with Cons.IH [of "guard_stop h x s"] show ?case
    by (simp add: guard_stop_db update_app_def)
qed

lemma foldl_guard_stop_containers:
  "set (containers (foldl (\<lambda>s row. guard_stop h row s) s rows)) \<subseteq> set (containers s)"
proof (induction rows arbitrary: s)
  case (Cons x xs)
  have "set (containers (guard_stop h x s)) \<subseteq> set (containers s)"
    using stop_app_process_containers by (simp add: guard_stop_def Let_def)
  with Cons.IH [of "guard_stop h x s"] show ?case by auto
qed simp

lemma enforce_storage_guard_db:
  assumes "distinct (map a_app_id (apps (sdb s)))"
  shows "sdb (enforce_storage_guard cfg h paused s) =
    (if storage_low cfg h \<and> \<not> paused
     then (sdb s)\<lparr>apps := update_rows (\<lambda>r. a_status r = Running \<or> a_status r = Starting) mark_storage (apps (sdb s))\<rparr>
     else sdb s)"
proof -
  let ?live = "filter (\<lambda>r. a_status r = Running \<or> a_status r = Starting) (apps (sdb s))"
  have "a_app_id r \<in> a_app_id ` set ?live \<longleftrightarrow> a_status r = Running \<or> a_status r = Starting"
    if "r \<in> set (apps (sdb s))" for r
    using assms that by (auto simp: distinct_map inj_on_def)
  then have "update_rows (\<lambda>r. a_app_id r \<in> a_app_id ` set ?live) mark_storage (apps (sdb s)) =
      update_rows (\<lambda>r. a_status r = Running \<or> a_status r = Starting) mark_storage (apps (sdb s))"
    by (simp add: update_rows_def)
  then show ?thesis
    by (auto simp: enforce_storage_guard_def storage_low_def foldl_guard_stop_db split: option.splits)
qed

lemma pressure_notified_or_cleared:
  assumes "pressure_run i n ps ! j" and "j < length ps" and "i \<in> set n"
  shows "\<exists>k<j. \<exists>p. ps ! k = Some p \<and> p < MEMORY_CLEAR_PERCENT"
  using assms
proof (induction ps arbitrary: n j)
  case (Cons q qs)
  obtain n' w where c: "check_memory_pressure q i n = (n', w)" by (cases "check_memory_pressure q i n")
  have w: "\<not> w"
    using c Cons.prems(3) by (auto simp: check_memory_pressure_def split: option.splits if_splits)
  with Cons.prems(1) c obtain j' where j: "j = Suc j'" by (cases j) auto
  show ?case
  proof (cases "i \<in> set n'")
    case True
    with Cons.IH [of n' j'] Cons.prems c j obtain k p where "k < j'" "qs ! k = Some p" "p < MEMORY_CLEAR_PERCENT"
      by auto
    with j show ?thesis by (intro exI [of _ "Suc k"]) auto
  next
    case False
    with c Cons.prems(3) obtain p where "q = Some p" "p < MEMORY_CLEAR_PERCENT"
      by (auto simp: check_memory_pressure_def split: option.splits if_splits)
    with j show ?thesis by (intro exI [of _ 0]) auto
  qed
qed simp

lemma pressure_run_length [simp]: "length (pressure_run i n ps) = length ps"
  by (induction ps arbitrary: n) (auto split: prod.splits)

lemma pressure_run_warns:
  assumes "pressure_run i n ps ! j" and "j < length ps"
  shows "\<exists>p. ps ! j = Some p \<and> MEMORY_WARN_PERCENT \<le> p"
  using assms
proof (induction ps arbitrary: n j)
  case (Cons q qs)
  obtain n' w where c: "check_memory_pressure q i n = (n', w)" by (cases "check_memory_pressure q i n")
  show ?case
  proof (cases j)
    case 0
    with Cons.prems c show ?thesis
      by (auto simp: check_memory_pressure_def split: option.splits if_splits)
  next
    case (Suc j')
    with Cons.IH [of n' j'] Cons.prems c show ?thesis by simp
  qed
qed simp

section \<open>Properties\<close>

text \<open>A pass of the storage guard acts exactly when a threshold is set, free space is below it
  and the guard is not paused: then no app is left running or starting, those that were are in
  error with the storage message and hold no container, every other app row and table is
  untouched, the constraints hold, and no container was started. Otherwise nothing changes.\<close>

lemma storage_guard_exact:
  assumes "db_ok (sdb s)"
  shows "let s' = enforce_storage_guard cfg h paused s in
    db_ok (sdb s') \<and> set (containers s') \<subseteq> set (containers s) \<and>
    (if 0 < cf_storage_min_free_mb cfg \<and> h_disk_free h < cf_storage_min_free_mb cfg * MIB \<and> \<not> paused
     then apps (sdb s') = map (\<lambda>r. if a_status r = Running \<or> a_status r = Starting
            then r\<lparr>a_status := Errored, a_error_message := Some STORAGE_DETAIL, a_container_id := None\<rparr> else r)
            (apps (sdb s)) \<and>
          (\<forall>r\<in>set (apps (sdb s')). a_status r \<noteq> Running \<and> a_status r \<noteq> Starting) \<and>
          sdb s'\<lparr>apps := apps (sdb s)\<rparr> = sdb s
     else s' = s)"
proof -
  let ?s' = "enforce_storage_guard cfg h paused s"
  have low: "storage_low cfg h \<longleftrightarrow> 0 < cf_storage_min_free_mb cfg \<and> h_disk_free h < cf_storage_min_free_mb cfg * MIB"
    by (auto simp: storage_low_def check_min_free_def storage_min_free_bytes_def Let_def)
  have "distinct (map a_app_id (apps (sdb s)))"
    using assms by (simp add: db_ok_def apps_ok_def)
  note db = enforce_storage_guard_db [OF this, of cfg h paused]
  have ok: "db_ok (sdb ?s')"
    unfolding db using db_ok_update_rows [OF key_preserving_mark assms] assms by simp
  have cont: "set (containers ?s') \<subseteq> set (containers s)"
    using foldl_guard_stop_containers by (auto simp: enforce_storage_guard_def split: option.splits)
  have same: "?s' = s" if "\<not> (storage_low cfg h \<and> \<not> paused)"
    using that by (auto simp: enforce_storage_guard_def storage_low_def split: option.splits)
  have acts: "apps (sdb ?s') = map (\<lambda>r. if a_status r = Running \<or> a_status r = Starting then mark_storage r else r)
      (apps (sdb s)) \<and> sdb ?s'\<lparr>apps := apps (sdb s)\<rparr> = sdb s" if "storage_low cfg h \<and> \<not> paused"
    using that unfolding db by (simp add: update_rows_def)
  show ?thesis
  proof (cases "storage_low cfg h \<and> \<not> paused")
    case True
    then have a: "apps (sdb ?s') = map (\<lambda>r. if a_status r = Running \<or> a_status r = Starting
        then r\<lparr>a_status := Errored, a_error_message := Some STORAGE_DETAIL, a_container_id := None\<rparr> else r) (apps (sdb s))"
      and rest: "sdb ?s'\<lparr>apps := apps (sdb s)\<rparr> = sdb s"
      using acts unfolding mark_storage_def by blast+
    have "\<forall>r\<in>set (apps (sdb ?s')). a_status r \<noteq> Running \<and> a_status r \<noteq> Starting"
      unfolding a by auto
    with a rest ok cont show ?thesis unfolding Let_def if_P [OF True [unfolded low conj_assoc]] by blast
  next
    case False
    with same ok cont show ?thesis unfolding Let_def if_not_P [OF False [unfolded low conj_assoc]] by blast
  qed
qed

definition demo_config :: config where
  "demo_config = \<lparr>cf_data_root_dir = ''/opt'', cf_apps_dir_override = None, cf_storage_min_free_mb = 500,
     cf_image_prune_interval_seconds = 60, cf_image_orphan_max_age_seconds = 60,
     cf_port_range_start = 9000, cf_port_range_end = 9009, cf_port = 8080, cf_redirect_domain = ''r'',
     cf_default_apps = []\<rparr>"

definition demo_host_env :: host where
  "demo_host_env = \<lparr>h_env = demo_env, h_version_rank = demo_rank, h_ports = demo_host, h_shuffle = id,
     h_disk_free = 1000 * MIB, h_archive_backend = ''local'', h_archive_mounted = True, h_archive_is_dir = True,
     h_gateway_bindable = True,
     h_files = (\<lambda>p. if p = ''/r/cloudinabottle.toml'' then Some ''new'' else None), h_is_dir = (\<lambda>_. True),
     h_fresh_ids = [''A1'', ''Z9''], h_token = ''tok'', h_sha256 = (\<lambda>s. ''#'' @ s),
     h_build = (\<lambda>_ _. Exited 0 []), h_podman = (\<lambda>_. Exited 0 ''cid''), h_ready = Inr True,
     h_stop_gone = (\<lambda>_. True), h_stop_raises = (\<lambda>_. False), h_recopy = Inr (), h_now = 100, h_text = (\<lambda>_. ''failed''),
     h_others = (\<lambda>_ s. s)\<rparr>"

lemma storage_guard_exact_witness:
  "list_all (\<lambda>r. a_status r \<noteq> Running) (apps (sdb
     (enforce_storage_guard demo_config (demo_host_env\<lparr>h_disk_free := 5\<rparr>) False
      \<lparr>sdb = demo_db, containers = []\<rparr>)))"
proof -
  have ok: "db_ok (sdb \<lparr>sdb = demo_db, containers = []\<rparr>)" using demo_db_ok by simp
  have low: "0 < cf_storage_min_free_mb demo_config \<and>
      h_disk_free (demo_host_env\<lparr>h_disk_free := 5\<rparr>) < cf_storage_min_free_mb demo_config * MIB \<and> \<not> False"
    by (simp add: demo_config_def MIB_def)
  show ?thesis
    using storage_guard_exact [OF ok, of demo_config "demo_host_env\<lparr>h_disk_free := 5\<rparr>" False]
    unfolding Let_def if_P [OF low] list_all_iff by blast
qed

text \<open>The owner is warned about an app's memory only at 90 percent or more, and a second time
  only after a sample below 80 percent in between; samples without a reading change nothing.\<close>

lemma memory_pressure_debounced:
  assumes "pressure_run i n ps ! j" and "pressure_run i n ps ! k" and "j < k" and "k < length ps"
  shows "(\<exists>p. ps ! j = Some p \<and> 90 \<le> p) \<and> (\<exists>p. ps ! k = Some p \<and> 90 \<le> p) \<and>
    (\<exists>l. j < l \<and> l < k \<and> (\<exists>p. ps ! l = Some p \<and> p < 80))"
proof -
  have "\<exists>l. j < l \<and> l < k \<and> (\<exists>p. ps ! l = Some p \<and> p < MEMORY_CLEAR_PERCENT)"
    using assms
  proof (induction ps arbitrary: n j k)
    case (Cons q qs)
    obtain n' w where c: "check_memory_pressure q i n = (n', w)" by (cases "check_memory_pressure q i n")
    obtain k' where k: "k = Suc k'" using Cons.prems(3) by (cases k) auto
    show ?case
    proof (cases j)
      case 0
      with Cons.prems(1) c have w by simp
      with c have "i \<in> set n'"
        by (auto simp: check_memory_pressure_def split: option.splits if_splits)
      moreover have "pressure_run i n' qs ! k'" "k' < length qs" using Cons.prems(2,4) c k by simp_all
      ultimately obtain l p where "l < k'" "qs ! l = Some p" "p < MEMORY_CLEAR_PERCENT"
        using pressure_notified_or_cleared [of i n' qs k'] by blast
      with 0 k show ?thesis by (intro exI [of _ "Suc l"]) auto
    next
      case (Suc j')
      then have "pressure_run i n' qs ! j'" "pressure_run i n' qs ! k'" "j' < k'" "k' < length qs"
        using Cons.prems c k by simp_all
      from Cons.IH [OF this] obtain l where "j' < l" "l < k'"
        "\<exists>p. qs ! l = Some p \<and> p < MEMORY_CLEAR_PERCENT" by blast
      with Suc k show ?thesis by (intro exI [of _ "Suc l"]) auto
    qed
  qed simp
  moreover have "j < length ps" using assms by simp
  ultimately show ?thesis
    using pressure_run_warns [OF assms(1)] pressure_run_warns [OF assms(2,4)]
    by (simp add: MEMORY_WARN_PERCENT_def MEMORY_CLEAR_PERCENT_def)
qed

lemma memory_pressure_debounced_witness:
  "\<exists>l. 0 < l \<and> l < 4 \<and> (\<exists>p. [Some 95, Some 85, Some 70, None, Some 92 :: rat option] ! l = Some p \<and> p < 80)"
proof -
  let ?ps = "[Some 95, Some 85, Some 70, None, Some 92 :: rat option]"
  have "pressure_run ''A1'' [] ?ps = [True, False, False, False, True]" by code_simp
  then have "pressure_run ''A1'' [] ?ps ! 0" "pressure_run ''A1'' [] ?ps ! 4" by simp_all
  from memory_pressure_debounced [OF this] show ?thesis by simp
qed

text \<open>A flaw: images are told apart by tag but removed by id. After a rename a cached rebuild gives
  the same image id a second tag; the old tag belongs to no app, so the sweep force-removes the
  image that the renamed app is running from.\<close>

theorem sweep_can_remove_image_of_live_app:
  "\<exists>images cfg db i. list_openhost_images [PDict [(''Id'', PStr ''sha''), (''Created'', PInt 0),
        (''Names'', PList [PStr ''localhost/openhost-old:latest'', PStr ''localhost/openhost-notes:latest''])]] = Inr images \<and>
     i \<in> set (sweep_orphaned_images cfg (\<lambda>_. True) db images 100) \<and>
     (\<exists>im\<in>set images. im_id im = i \<and> im_app_name im \<in> set (current_app_names db))"
proof -
  let ?images = "[\<lparr>im_id = ''sha'', im_app_name = ''old'', im_created_epoch = 0\<rparr>,
    \<lparr>im_id = ''sha'', im_app_name = ''notes'', im_created_epoch = 0\<rparr>]"
  have "list_openhost_images [PDict [(''Id'', PStr ''sha''), (''Created'', PInt 0),
      (''Names'', PList [PStr ''localhost/openhost-old:latest'', PStr ''localhost/openhost-notes:latest''])]] = Inr ?images"
    by code_simp
  moreover have "''sha'' \<in> set (sweep_orphaned_images demo_config (\<lambda>_. True) demo_db ?images 100)"
    by (simp add: sweep_orphaned_images_def orphan_max_age_seconds_def demo_config_def current_app_names_def
        demo_db_def demo_app_def)
  moreover have "''notes'' \<in> set (current_app_names demo_db)"
    by (simp add: current_app_names_def demo_db_def demo_app_def)
  ultimately show ?thesis by (intro exI conjI) (assumption | simp)+
qed

end
