(* ===== verification/AppLifecycle.thy ===== *)
theory AppLifecycle
  imports Host
begin

text \<open>
  \<open>core/apps.py\<close>: installing, launching, reloading and removing apps. An operation takes the
  state (committed database and containers) and returns the state it leaves, with its result or
  exception. \<open>fk\<close> says whether the connection enforces foreign keys: the ones from \<open>get_db\<close> and
  of the removal thread do, those the deploy and reload threads open do not. Errors of SQLite
  itself (a locked or full database) are not modelled.
\<close>

section \<open>Manifest columns\<close>

text \<open>\<open>int(x)\<close>: a string may have blanks around it, a sign, and single underscores between digits.\<close>

definition parse_int :: "string \<Rightarrow> int option" where
  "parse_int s =
     (let t = py_strip s;
          neg = startswith t ''-'';
          body = (if startswith t ''-'' \<or> startswith t ''+'' then drop 1 t else t);
          pieces = split_on CHR ''_'' body
      in if list_all py_isdigit pieces
         then (let n = foldl (\<lambda>n c. 10 * n + (int (of_char c) - 48)) 0 (concat pieces) in
               Some (if neg then - n else n))
         else None)"

fun py_int :: "pyval \<Rightarrow> app_exn + int" where
  "py_int (PInt i) = Inr i"
| "py_int (PBool b) = Inr (if b then 1 else 0)"
| "py_int (PFloat r) = Inr (if 0 \<le> r then \<lfloor>r\<rfloor> else \<lceil>r\<rceil>)"
| "py_int (PStr s) = (case parse_int s of Some i \<Rightarrow> Inr i | None \<Rightarrow> Inl (DynamicError (ValueError ())))"
| "py_int _ = Inl (DynamicError TypeError)"

text \<open>What \<open>json.dumps\<close> can write, and what \<open>sqlite3\<close> can bind to a placeholder.\<close>

fun json_able :: "pyval \<Rightarrow> bool" where
  "json_able (PList xs) = list_all json_able xs"
| "json_able (PDict d) = list_all (\<lambda>(k, v). json_able v) d"
| "json_able (PDate d) = False"
| "json_able _ = True"

fun sql_bindable :: "pyval \<Rightarrow> bool" where
  "sql_bindable (PList xs) = False"
| "sql_bindable (PDict d) = False"
| "sql_bindable (PInt i) = (- (2 ^ 63) \<le> i \<and> i < 2 ^ 63)"
| "sql_bindable _ = True"

definition manifest_column_values :: "app_manifest \<Rightarrow> app_exn + (app_row \<Rightarrow> app_row)" where
  "manifest_column_values m =
     bind_res (py_int (m_gpu m)) (\<lambda>gpu.
     bind_res (guard_res (json_able (m_public_paths m)) (DynamicError TypeError)) (\<lambda>_.
     bind_res (guard_res (list_all sql_bindable
         [m_name m, m_version m, m_description m, m_runtime_type m, m_health_check m,
          m_container_port m, m_memory_mb m, PInt gpu]) (OtherError ''binding'')) (\<lambda>_.
     Inr (\<lambda>r. r\<lparr>a_manifest_name := m_name m, a_version := m_version m, a_description := m_description m,
            a_runtime_type := m_runtime_type m, a_health_check := m_health_check m,
            a_container_port := m_container_port m, a_memory_mb := m_memory_mb m,
            a_cpu_cores := m_cpu_cores m, a_gpu := PInt gpu, a_public_paths := m_public_paths m,
            a_links := m_links m, a_manifest_raw := Some (m_raw_toml m)\<rparr>))))"

section \<open>Installing\<close>

definition lift_port :: "port_error + 'a \<Rightarrow> app_exn + 'a" where
  "lift_port r = (case r of Inl e \<Rightarrow> Inl (PortError e) | Inr a \<Rightarrow> Inr a)"

definition some_or :: "'e \<Rightarrow> 'a option \<Rightarrow> 'e + 'a" where
  "some_or e x = (case x of None \<Rightarrow> Inl e | Some a \<Rightarrow> Inr a)"

lemma lift_Inr [simp]:
  "lift_port r = Inr a \<longleftrightarrow> r = Inr a" "some_or e x = Inr a \<longleftrightarrow> x = Some a"
  by (auto simp: lift_port_def some_or_def split: sum.splits option.splits)

definition RESERVED_PATHS :: "string list" where
  "RESERVED_PATHS =
     [''/'', ''/dashboard'', ''/login'', ''/logout'', ''/add_app'', ''/remove_app'', ''/stop_app'',
      ''/reload_app'', ''/api'', ''/health'', ''/app'', ''/setup'', ''/.well-known'', ''/terminal'',
      ''/toggle-ssh'', ''/identity'', ''/settings'', ''/system'', ''/docs'']"

datatype name_problem = BadAppName | ReservedAppName string | AppNameInUse string

text \<open>\<open>app_name\<close> is the caller's or, when None, the manifest's, which is text if it passes \<open>re.match\<close>.\<close>

definition chosen_name :: "app_manifest \<Rightarrow> string option \<Rightarrow> app_exn + string" where
  "chosen_name m app_name =
     (case app_name of
        Some n \<Rightarrow> Inr n
      | None \<Rightarrow> (case as_str (m_name m) of Some n \<Rightarrow> Inr n | None \<Rightarrow> Inl (DynamicError TypeError)))"

definition validate_manifest ::
    "app_manifest \<Rightarrow> db \<Rightarrow> string option \<Rightarrow> app_exn + name_problem option" where
  "validate_manifest m db app_name =
     bind_res (chosen_name m app_name) (\<lambda>n.
     Inr (if \<not> is_valid_app_name n then Some BadAppName
          else if ''/'' @ n \<in> set RESERVED_PATHS then Some (ReservedAppName n)
          else if exists_row (\<lambda>r. a_name r = n) (apps db) then Some (AppNameInUse n)
          else None))"

text \<open>The loop of \<open>_mint_unique_app_id\<close> over the ids it draws.\<close>

definition mint_unique_app_id :: "string list \<Rightarrow> db \<Rightarrow> string option" where
  "mint_unique_app_id drawn db =
     List.find (\<lambda>candidate. \<not> exists_row (\<lambda>r. a_app_id r = candidate) (apps db)) drawn"

definition apply_port_overrides :: "(string \<times> int) list \<Rightarrow> port_mapping list \<Rightarrow> port_mapping list" where
  "apply_port_overrides port_overrides mappings =
     (if port_overrides = [] then mappings
      else map (\<lambda>pm. pm\<lparr>pm_host_port :=
        (case map_of port_overrides (pm_label pm) of Some p \<Rightarrow> p | None \<Rightarrow> pm_host_port pm)\<rparr>) mappings)"

text \<open>The \<open>INSERT\<close>s, with the uniqueness constraints of their tables.\<close>

definition insert_app :: "app_row \<Rightarrow> db \<Rightarrow> app_exn + db" where
  "insert_app row db =
     (if exists_row (\<lambda>r. a_app_id r = a_app_id row \<or> a_name r = a_name row \<or> a_local_port r = a_local_port row)
           (apps db)
      then Inl DbIntegrityError else Inr (db\<lparr>apps := apps db @ [row]\<rparr>))"

definition insert_port :: "port_row \<Rightarrow> db \<Rightarrow> app_exn + db" where
  "insert_port row db =
     (if exists_row (\<lambda>r. p_host_port r = p_host_port row \<or> (p_app_id r = p_app_id row \<and> p_label r = p_label row))
           (app_port_mappings db)
      then Inl DbIntegrityError else Inr (db\<lparr>app_port_mappings := app_port_mappings db @ [row]\<rparr>))"

definition insert_database :: "database_row \<Rightarrow> db \<Rightarrow> app_exn + db" where
  "insert_database row db =
     (if exists_row (\<lambda>r. d_app_id r = d_app_id row \<and> d_db_name r = d_db_name row) (app_databases db)
      then Inl DbIntegrityError else Inr (db\<lparr>app_databases := app_databases db @ [row]\<rparr>))"

fun insert_all :: "('r \<Rightarrow> db \<Rightarrow> app_exn + db) \<Rightarrow> 'r list \<Rightarrow> db \<Rightarrow> app_exn + db" where
  "insert_all ins [] db = Inr db"
| "insert_all ins (r # rs) db = bind_res (ins r db) (insert_all ins rs)"

definition port_row_of :: "string \<Rightarrow> port_mapping \<Rightarrow> port_row" where
  "port_row_of app_id pm =
     \<lparr>p_app_id = app_id, p_label = pm_label pm, p_container_port = pm_container_port pm, p_host_port = pm_host_port pm\<rparr>"

definition database_row_of :: "string \<Rightarrow> (string \<times> string) list \<Rightarrow> string \<Rightarrow> database_row" where
  "database_row_of app_id env_vars db_name =
     \<lparr>d_app_id = app_id, d_db_name = db_name,
      d_db_path = (case map_of env_vars (sqlite_env_key (upper db_name)) of Some p \<Rightarrow> p | None \<Rightarrow> [])\<rparr>"

definition zone_info_of :: "config \<Rightarrow> db \<Rightarrow> string \<Rightarrow> app_exn + zone_info" where
  "zone_info_of cfg db owner_username =
     (case primary_domain db of
        Inl e \<Rightarrow> Inl (OtherError ''no primary domain'')
      | Inr d \<Rightarrow> Inr \<lparr>zi_redirect_domain = cf_redirect_domain cfg, zi_zone_domain = dn_name d,
                        zi_router_public_url = domain_url d, zi_port = cf_port cfg,
                        zi_owner_username = owner_username\<rparr>)"

text \<open>\<open>read_owner_username(db) or DEFAULT_OWNER_USERNAME\<close> of \<open>core/auth/auth.py\<close>.\<close>

definition read_owner_username :: "db \<Rightarrow> string option" where
  "read_owner_username db =
     (case sort_key u_user_id (users db) of
        [] \<Rightarrow> None
      | u # us \<Rightarrow> non_empty (Some (u_username u)))"

definition DEFAULT_OWNER_USERNAME :: string where
  "DEFAULT_OWNER_USERNAME = ''owner''"

definition owner_name :: "db \<Rightarrow> string" where
  "owner_name db = (case read_owner_username db of Some u \<Rightarrow> u | None \<Rightarrow> DEFAULT_OWNER_USERNAME)"

definition app_env_vars ::
    "config \<Rightarrow> host \<Rightarrow> string \<Rightarrow> string \<Rightarrow> app_manifest \<Rightarrow> db \<Rightarrow> app_exn + (string \<times> string) list" where
  "app_env_vars cfg h app_id app_name m db =
     bind_res (zone_info_of cfg db (owner_name db)) (\<lambda>zone.
     make_data_dirs_and_env_vars (h_env h) (h_archive_is_dir h) (h_token h) app_id app_name m
       (persistent_data_dir cfg) (temporary_data_dir cfg) (app_archive_dir cfg) zone)"

fun string_list :: "pyval list \<Rightarrow> app_exn + string list" where
  "string_list [] = Inr []"
| "string_list (v # vs) =
     (case as_str v of
        None \<Rightarrow> Inl (DynamicError AttributeError)
      | Some s \<Rightarrow> bind_res (string_list vs) (\<lambda>ss. Inr (s # ss)))"

text \<open>
  Everything up to the commit. It is one transaction, so an exception leaves the database as it
  was. \<open>new_row\<close> is the row the column list and the table's defaults describe.
\<close>

definition new_app_row ::
    "host \<Rightarrow> string \<Rightarrow> string \<Rightarrow> string \<Rightarrow> string option \<Rightarrow> int \<Rightarrow> app_row" where
  "new_app_row h app_id app_name repo_path repo_url local_port =
     \<lparr>a_app_id = app_id, a_name = app_name, a_manifest_name = PNone, a_version = PNone,
      a_description = PNone, a_runtime_type = PNone, a_repo_path = repo_path, a_repo_url = repo_url,
      a_health_check = PNone, a_local_port = local_port, a_container_port = PNone, a_container_id = None,
      a_status = Building, a_error_message = None, a_memory_mb = PNone, a_cpu_cores = 0, a_gpu = PNone,
      a_public_paths = PNone, a_links = [], a_manifest_raw = None, a_created_at = h_now h\<rparr>"

text \<open>\<open>INSERT OR REPLACE\<close> of the hash of the app's own token.\<close>

definition store_app_token :: "host \<Rightarrow> string \<Rightarrow> (string \<times> string) list \<Rightarrow> db \<Rightarrow> db" where
  "store_app_token h app_id vars db =
     (case non_empty (map_of vars ''OPENHOST_APP_TOKEN'') of
        Some token \<Rightarrow> replace_app_token app_id (h_sha256 h token) db
      | None \<Rightarrow> db)"

definition lift_service :: "service_error + 'a \<Rightarrow> app_exn + 'a" where
  "lift_service r = (case r of Inl e \<Rightarrow> Inl (ServiceError e) | Inr a \<Rightarrow> Inr a)"

definition insert_app_rows ::
    "config \<Rightarrow> host \<Rightarrow> app_manifest \<Rightarrow> string \<Rightarrow> db \<Rightarrow> string option \<Rightarrow> string option \<Rightarrow> (string \<times> int) list
       \<Rightarrow> app_exn + (string \<times> (string \<times> string) list \<times> db)" where
  "insert_app_rows cfg h m repo_path db app_name repo_url port_overrides =
     bind_res (chosen_name m app_name) (\<lambda>n.
     bind_res (check_before_deploy cfg h) (\<lambda>_.
     bind_res (lift_port (allocate_port (h_ports h) db (cf_port_range_start cfg) (cf_port_range_end cfg))) (\<lambda>local_port.
     bind_res (some_or (OtherError ''no fresh id drawn'') (mint_unique_app_id (h_fresh_ids h) db)) (\<lambda>app_id.
     bind_res (lift_port (resolve_port_mappings (h_ports h) (h_shuffle h)
         (apply_port_overrides port_overrides (m_port_mappings m)) db
         (cf_port_range_start cfg) (cf_port_range_end cfg) None)) (\<lambda>resolved.
     bind_res (app_env_vars cfg h app_id n m db) (\<lambda>env_vars.
     bind_res (manifest_column_values m) (\<lambda>columns.
     bind_res (insert_app (columns (new_app_row h app_id n repo_path repo_url local_port)) db) (\<lambda>db1.
     bind_res (insert_all insert_port (map (port_row_of app_id) resolved) db1) (\<lambda>db2.
     bind_res (lift_dynamic (py_iter (m_sqlite_dbs m))) (\<lambda>db_names.
     bind_res (string_list db_names) (\<lambda>names.
     bind_res (insert_all insert_database (map (database_row_of app_id env_vars) names) db2) (\<lambda>db3.
     bind_res (lift_service (register_services_provided_by_app True app_id m
         (store_app_token h app_id env_vars db3))) (\<lambda>db4.
     Inr (app_id, env_vars, db4))))))))))))))"

text \<open>The grants are committed one by one on connections of their own.\<close>

fun grant_all :: "host \<Rightarrow> string \<Rightarrow> permission_grant list \<Rightarrow> db \<Rightarrow> (app_exn + unit) \<times> db" where
  "grant_all h app_id [] db = (Inr (), db)"
| "grant_all h app_id (g # gs) db =
     (if \<not> json_able (pg_grant g) then (Inl (DynamicError TypeError), db)
      else (case grant_permission_v2 (float_repr (h_env h)) db app_id (pg_service_url g) (pg_grant g) ''global'' None of
          Inl e \<Rightarrow> (Inl DbIntegrityError, db)
        | Inr db' \<Rightarrow> grant_all h app_id gs db'))"

text \<open>On success the deploy thread is started with the app id and these variables.\<close>

definition insert_and_deploy ::
    "config \<Rightarrow> host \<Rightarrow> app_manifest \<Rightarrow> string \<Rightarrow> db \<Rightarrow> permission_grant list \<Rightarrow> string option \<Rightarrow> string option
       \<Rightarrow> (string \<times> int) list \<Rightarrow> (app_exn + string \<times> (string \<times> string) list) \<times> db" where
  "insert_and_deploy cfg h m repo_path db grants app_name repo_url port_overrides =
     (case insert_app_rows cfg h m repo_path db app_name repo_url port_overrides of
        Inl e \<Rightarrow> (Inl e, db)
      | Inr (app_id, env_vars, db1) \<Rightarrow>
          (case grant_all h app_id grants db1 of
             (Inl e, db2) \<Rightarrow> (Inl e, db2)
           | (Inr u, db2) \<Rightarrow> (Inr (app_id, env_vars), db2)))"

section \<open>Launching\<close>

definition load_port_mappings_from_db :: "string \<Rightarrow> db \<Rightarrow> port_mapping list" where
  "load_port_mappings_from_db app_id db =
     map (\<lambda>r. \<lparr>pm_label = p_label r, pm_container_port = p_container_port r, pm_host_port = p_host_port r\<rparr>)
       (filter (\<lambda>r. p_app_id r = app_id) (app_port_mappings db))"

definition starting_row :: "app_row \<Rightarrow> app_row" where
  "starting_row r = r\<lparr>a_status := Starting,
     a_error_message := (if a_error_message r = Some PRIMARY_DOMAIN_RESTART_MARKER
                         then a_error_message r else None)\<rparr>"

definition mark_app_starting :: "db \<Rightarrow> string \<Rightarrow> db" where
  "mark_app_starting db app_id = update_app app_id starting_row db"

definition error_row :: "string \<Rightarrow> app_row \<Rightarrow> app_row" where
  "error_row msg r = r\<lparr>a_status := Errored, a_error_message := Some msg\<rparr>"

definition mark_error :: "string \<Rightarrow> string \<Rightarrow> db \<Rightarrow> db" where
  "mark_error app_id msg db = update_app app_id (error_row msg) db"

definition NOT_RESPONDING :: string where
  "NOT_RESPONDING = ''App started but not responding to HTTP''"

text \<open>Before the launch: archive check, environment, token and services, not yet committed.\<close>

definition prepare_launch ::
    "config \<Rightarrow> host \<Rightarrow> bool \<Rightarrow> app_row \<Rightarrow> app_manifest \<Rightarrow> (string \<times> string) list option \<Rightarrow> db
       \<Rightarrow> app_exn + (string \<times> string) list \<times> db" where
  "prepare_launch cfg h fk row m env_vars db =
     bind_res (guard_res (\<not> (truthy (m_app_archive m) \<and> \<not> is_archive_dir_healthy h)) ArchiveNotMounted) (\<lambda>_.
     bind_res (case env_vars of Some v \<Rightarrow> Inr v | None \<Rightarrow> app_env_vars cfg h (a_app_id row) (a_name row) m db) (\<lambda>vars.
     bind_res (lift_service (register_services_provided_by_app fk (a_app_id row) m
                 (store_app_token h (a_app_id row) vars db))) (\<lambda>db2.
     Inr (vars, db2))))"

text \<open>\<open>podman rm -f\<close> by name, then the new container.\<close>

definition add_container :: "host \<Rightarrow> string \<Rightarrow> string \<Rightarrow> sys \<Rightarrow> sys" where
  "add_container h container_id name s = s\<lparr>containers := (container_id, name) # containers s\<rparr>"

definition fail_launch :: "host \<Rightarrow> string \<Rightarrow> app_exn \<Rightarrow> string option \<Rightarrow> sys \<Rightarrow> sys" where
  "fail_launch h app_id e persisted s =
     s\<lparr>sdb := update_app app_id (\<lambda>r. r\<lparr>a_status := Errored, a_error_message := Some (h_text h e),
                                      a_container_id := persisted\<rparr>) (sdb s)\<rparr>"

definition set_container :: "string \<Rightarrow> string \<Rightarrow> sys \<Rightarrow> sys" where
  "set_container app_id container_id s =
     s\<lparr>sdb := update_app app_id (\<lambda>r. r\<lparr>a_container_id := Some container_id\<rparr>) (sdb s)\<rparr>"

definition set_ready :: "string \<Rightarrow> bool \<Rightarrow> sys \<Rightarrow> sys" where
  "set_ready app_id ready s =
     s\<lparr>sdb := update_app app_id
         (\<lambda>r. if ready then r\<lparr>a_status := Running, a_error_message := None\<rparr> else error_row NOT_RESPONDING r) (sdb s)\<rparr>"

text \<open>
  \<open>run_app_image\<close>. An exception before the commit in \<open>mark_app_starting\<close> is rolled back and keeps
  the container recorded before; one from \<open>run_container\<close> records none; one after it stops the
  container and records it only if that cleanup raised.
\<close>

definition run_app_image ::
    "config \<Rightarrow> host \<Rightarrow> bool \<Rightarrow> string \<Rightarrow> string \<Rightarrow> app_manifest \<Rightarrow> (string \<times> string) list option \<Rightarrow> sys
       \<Rightarrow> (app_exn + unit) \<times> sys" where
  "run_app_image cfg h fk app_id image_tag m env_vars s =
     (case find_app app_id (sdb s) of
        None \<Rightarrow> (Inl (NoAppFound app_id), s)
      | Some row \<Rightarrow>
     (case prepare_launch cfg h fk row m env_vars (sdb s) of
        Inl e \<Rightarrow> (Inl e, fail_launch h app_id e (a_container_id row) s)
      | Inr (vars, db1) \<Rightarrow>
     (let s1 = s\<lparr>sdb := mark_app_starting db1 app_id\<rparr>;
          launched = run_container (h_env h) \<lparr>rh_archive_is_dir = h_archive_is_dir h, rh_gateway_bindable = h_gateway_bindable h\<rparr>
            (h_podman h) (a_name row) image_tag m (a_local_port row) vars (persistent_data_dir cfg)
            (temporary_data_dir cfg) (app_archive_dir cfg) (load_port_mappings_from_db app_id db1);
          s2 = h_others h DuringRun (case launched of
                 Inl (DynamicError e) \<Rightarrow> s1
               | _ \<Rightarrow> stop_container h (app_container_name (a_name row)) s1)
      in case launched of
           Inl e \<Rightarrow> (Inl e, fail_launch h app_id e None s2)
         | Inr container_id \<Rightarrow>
     (let s3 = set_container app_id container_id (add_container h container_id (app_container_name (a_name row)) s2);
          s4 = h_others h DuringReady s3
      in case h_ready h of
           Inr ready \<Rightarrow> (Inr (), set_ready app_id ready s4)
         | Inl e \<Rightarrow>
             (Inl e, fail_launch h app_id e (if h_stop_raises h container_id then Some container_id else None)
                       (stop_container h container_id s4))))))"

text \<open>The build attempts \<open>attempt, ..., max\<close>; only a runtime error without the corruption marker is
  retried.\<close>

function build_attempts ::
    "host \<Rightarrow> string \<Rightarrow> string \<Rightarrow> app_manifest \<Rightarrow> nat \<Rightarrow> nat \<Rightarrow> app_exn + string" where
  "build_attempts h app_name repo_path m max_attempts attempt =
     (if max_attempts < attempt then Inr []
      else (case build_image (h_env h) (h_build h attempt) app_name repo_path (m_container_image m)
                   (effective_build_memory_mb m) of
          Inr image_tag \<Rightarrow> Inr image_tag
        | Inl e \<Rightarrow>
            if \<not> is_runtime_error e then Inl e
            else if e = BuildCacheCorrupt \<or> attempt = max_attempts then Inl e
            else build_attempts h app_name repo_path m max_attempts (Suc attempt)))"
  by pat_completeness auto
termination
  by (relation "measure (\<lambda>(h, n, r, m, max_attempts, attempt). Suc max_attempts - attempt)") auto

declare build_attempts.simps [simp del]

definition build_then_run_app ::
    "config \<Rightarrow> host \<Rightarrow> bool \<Rightarrow> string \<Rightarrow> string \<Rightarrow> string \<Rightarrow> app_manifest \<Rightarrow> nat \<Rightarrow> (string \<times> string) list option
       \<Rightarrow> sys \<Rightarrow> (app_exn + unit) \<times> sys" where
  "build_then_run_app cfg h fk app_id app_name repo_path m max_build_attempts env_vars s =
     (let s1 = h_others h DuringBuild s in
      case build_attempts h app_name repo_path m max_build_attempts 1 of
        Inl e \<Rightarrow> (Inl e, s1)
      | Inr image_tag \<Rightarrow> run_app_image cfg h fk app_id image_tag m env_vars s1)"

definition deploy_app_background ::
    "config \<Rightarrow> host \<Rightarrow> app_manifest \<Rightarrow> string \<Rightarrow> string \<Rightarrow> string option \<Rightarrow> (string \<times> string) list option \<Rightarrow> sys \<Rightarrow> sys" where
  "deploy_app_background cfg h m repo_path app_id app_name env_vars s =
     (let (res, s1) =
        (case bind_res (check_before_deploy cfg h) (\<lambda>_. chosen_name m app_name) of
           Inl e \<Rightarrow> (Inl e, s)
         | Inr n \<Rightarrow> build_then_run_app cfg h False app_id n repo_path m 3 env_vars s)
      in case res of
           Inl e \<Rightarrow> s1\<lparr>sdb := mark_error app_id (h_text h e) (sdb s1)\<rparr>
         | Inr u \<Rightarrow> s1)"

definition start_app_process :: "config \<Rightarrow> host \<Rightarrow> bool \<Rightarrow> string \<Rightarrow> sys \<Rightarrow> (app_exn + unit) \<times> sys" where
  "start_app_process cfg h fk app_id s =
     (case check_before_deploy cfg h of
        Inl e \<Rightarrow> (Inl e, s)
      | Inr u \<Rightarrow>
     (case find_app app_id (sdb s) of
        None \<Rightarrow> (Inl (DynamicError TypeError), s)
      | Some row \<Rightarrow>
     (case parse_manifest (h_env h) (h_files h) (a_repo_path row) of
        Inl e \<Rightarrow> (Inl (ManifestError e), s)
      | Inr m \<Rightarrow>
          build_then_run_app cfg h fk app_id (a_name row) (a_repo_path row) m 1 None
            (s\<lparr>sdb := mark_app_starting (sdb s) app_id\<rparr>))))"

definition restart_app_process :: "config \<Rightarrow> host \<Rightarrow> bool \<Rightarrow> string \<Rightarrow> sys \<Rightarrow> (app_exn + unit) \<times> sys" where
  "restart_app_process cfg h fk app_id s =
     (case find_app app_id (sdb s) of
        None \<Rightarrow> (Inl (NoAppFound app_id), s)
      | Some row \<Rightarrow>
     (case check_before_deploy cfg h of
        Inl e \<Rightarrow> (Inl e, s)
      | Inr u \<Rightarrow>
     (case (case non_empty (a_manifest_raw row) of
              Some raw \<Rightarrow> parse_manifest_from_string (h_env h) raw
            | None \<Rightarrow> parse_manifest (h_env h) (h_files h) (a_repo_path row)) of
        Inl e \<Rightarrow> (Inl (ManifestError e), s)
      | Inr m \<Rightarrow> run_app_image cfg h fk app_id (app_image_tag (a_name row)) m None s)))"

section \<open>Reloading and removing\<close>

definition update_port :: "string \<Rightarrow> port_mapping \<Rightarrow> db \<Rightarrow> app_exn + db" where
  "update_port app_id pm db =
     (let mine = (\<lambda>r. p_app_id r = app_id \<and> p_label r = pm_label pm) in
      if exists_row (\<lambda>r. p_host_port r = pm_host_port pm \<and> \<not> mine r) (app_port_mappings db)
      then Inl DbIntegrityError
      else Inr (db\<lparr>app_port_mappings := update_rows mine
              (\<lambda>r. r\<lparr>p_container_port := pm_container_port pm, p_host_port := pm_host_port pm\<rparr>)
              (app_port_mappings db)\<rparr>))"

fun upsert_ports :: "string \<Rightarrow> string list \<Rightarrow> port_mapping list \<Rightarrow> db \<Rightarrow> (app_exn + unit) \<times> db" where
  "upsert_ports app_id existing [] db = (Inr (), db)"
| "upsert_ports app_id existing (pm # pms) db =
     (case (if pm_label pm \<in> set existing then update_port app_id pm db
            else insert_port (port_row_of app_id pm) db) of
        Inl e \<Rightarrow> (Inl e, db)
      | Inr db' \<Rightarrow> upsert_ports app_id existing pms db')"

text \<open>
  \<open>_sync_port_mappings\<close>. The second component is the working database, which on an exception
  keeps the deletions already made. \<open>existing\<close> keeps the last row of a label, and labels are unique.
\<close>

definition sync_port_mappings ::
    "config \<Rightarrow> host \<Rightarrow> string \<Rightarrow> port_mapping list \<Rightarrow> db \<Rightarrow> (app_exn + unit) \<times> db" where
  "sync_port_mappings cfg h app_id new_mappings db =
     (let mine = filter (\<lambda>r. p_app_id r = app_id) (app_port_mappings db);
          existing = map p_label mine;
          new_labels = map pm_label new_mappings;
          db1 = db\<lparr>app_port_mappings := delete_rows
                  (\<lambda>r. p_app_id r = app_id \<and> p_label r \<notin> set new_labels) (app_port_mappings db)\<rparr>;
          to_resolve = map (\<lambda>pm. case List.find (\<lambda>r. p_label r = pm_label pm) mine of
                               Some r \<Rightarrow> pm\<lparr>pm_host_port := p_host_port r\<rparr> | None \<Rightarrow> pm) new_mappings
      in case resolve_port_mappings (h_ports h) (h_shuffle h) to_resolve db1 (cf_port_range_start cfg)
                (cf_port_range_end cfg) (Some app_id) of
           Inl e \<Rightarrow> (Inl (PortError e), db1)
         | Inr resolved \<Rightarrow> upsert_ports app_id existing resolved db1)"

text \<open>The block that re-reads the manifest; a \<open>ValueError\<close> in it is logged and dropped.\<close>

definition resync_from_manifest ::
    "config \<Rightarrow> host \<Rightarrow> string \<Rightarrow> string \<Rightarrow> db \<Rightarrow> (app_exn + unit) \<times> db" where
  "resync_from_manifest cfg h app_id repo_path db =
     (let (res, db') =
       (case parse_manifest (h_env h) (h_files h) repo_path of
          Inl e \<Rightarrow> (Inl (ManifestError e), db)
        | Inr m \<Rightarrow>
       (case manifest_column_values m of
          Inl e \<Rightarrow> (Inl e, db)
        | Inr columns \<Rightarrow>
       (case sync_port_mappings cfg h app_id (m_port_mappings m) (update_app app_id columns db) of
          (Inl e, db1) \<Rightarrow> (Inl e, db1)
        | (Inr u, db1) \<Rightarrow>
       (case lift_service (register_services_provided_by_app False app_id m db1) of
          Inl e \<Rightarrow> (Inl e, db1)
        | Inr db2 \<Rightarrow> (Inr (), db2)))))
      in case res of Inl e \<Rightarrow> (if is_value_error e then (Inr (), db') else (Inl e, db')) | Inr u \<Rightarrow> (Inr (), db'))"

text \<open>
  \<open>reload_app_background\<close>: the thread's connection is used throughout, so what the block above left
  uncommitted is committed by whichever commit comes next, the error report included.
  \<open>h_recopy\<close> is the outcome of copying a builtin app's sources again.
\<close>

definition reload_app_background :: "config \<Rightarrow> host \<Rightarrow> string \<Rightarrow> string \<Rightarrow> sys \<Rightarrow> sys" where
  "reload_app_background cfg h app_id repo_path s =
     (case find_app app_id (sdb s) of
        None \<Rightarrow> s
      | Some app_row \<Rightarrow>
     (let (res, s1) =
        (case h_recopy h of
           Inl e \<Rightarrow> (Inl e, s)
         | Inr u \<Rightarrow>
             (let (r, db1) = (if repo_path \<noteq> [] \<and> h_is_dir h repo_path
                              then resync_from_manifest cfg h app_id repo_path (sdb s) else (Inr (), sdb s));
                  s0 = s\<lparr>sdb := db1\<rparr>
              in case r of Inl e \<Rightarrow> (Inl e, s0) | Inr v \<Rightarrow> start_app_process cfg h False app_id s0))
      in case res of
           Inl e \<Rightarrow> s1\<lparr>sdb := mark_error app_id (h_text h e) (sdb s1)\<rparr>
         | Inr u \<Rightarrow> s1))"

text \<open>\<open>remove_app_background\<close>: errors of stopping, of the image and of the data are swallowed.\<close>

definition remove_app_background :: "host \<Rightarrow> string \<Rightarrow> sys \<Rightarrow> sys" where
  "remove_app_background h app_id s =
     (case find_app app_id (sdb s) of
        None \<Rightarrow> s
      | Some app_row \<Rightarrow>
          (let s1 = stop_app_process h app_row s in s1\<lparr>sdb := delete_app_cascade app_id (sdb s1)\<rparr>))"

section \<open>Quiescing the archive\<close>

fun stop_archive_rows ::
    "host \<Rightarrow> app_row list \<Rightarrow> string list \<Rightarrow> string list \<Rightarrow> sys \<Rightarrow> (app_exn + string list) \<times> string list \<times> sys" where
  "stop_archive_rows h [] recorded still_running s =
     (if still_running \<noteq> [] then (Inl (OtherError (join_with '', '' still_running)), recorded, s)
      else (Inr recorded, recorded, s))"
| "stop_archive_rows h (row # rows) recorded still_running s =
     (if a_status row \<noteq> Running then stop_archive_rows h rows recorded still_running s
      else (case manifest_uses_archive (h_env h) (case a_manifest_raw row of Some raw \<Rightarrow> raw | None \<Rightarrow> []) of
          Inl e \<Rightarrow> (Inl e, recorded, s)
        | Inr uses \<Rightarrow>
            if \<not> uses then stop_archive_rows h rows recorded still_running s
            else (let s1 = stop_app_process h row s;
                      alive = (case non_empty (a_container_id row) of
                                 Some c \<Rightarrow> is_container_running c s1 | None \<Rightarrow> False)
                  in stop_archive_rows h rows (recorded @ [a_app_id row])
                       (if alive then still_running @ [a_name row] else still_running) s1)))"

definition stop_running_archive_apps ::
    "host \<Rightarrow> string list \<Rightarrow> sys \<Rightarrow> (app_exn + string list) \<times> string list \<times> sys" where
  "stop_running_archive_apps h stopped_out s = stop_archive_rows h (apps (sdb s)) stopped_out [] s"

definition restart_apps_by_id :: "config \<Rightarrow> host \<Rightarrow> bool \<Rightarrow> string list \<Rightarrow> sys \<Rightarrow> sys" where
  "restart_apps_by_id cfg h fk ids s =
     foldl (\<lambda>s app_id. snd (restart_app_process cfg h fk app_id s)) s ids"

section \<open>Facts\<close>

lemma key_preserving_simps [simp]:
  "key_preserving starting_row" "key_preserving (error_row msg)"
  "key_preserving (\<lambda>r. r\<lparr>a_container_id := c\<rparr>)"
  "key_preserving (\<lambda>r. r\<lparr>a_status := st, a_error_message := e, a_container_id := c\<rparr>)"
  "key_preserving (\<lambda>r. if b then r\<lparr>a_status := st, a_error_message := e\<rparr> else error_row msg r)"
  by (simp_all add: key_preserving_def starting_row_def error_row_def)

lemma manifest_column_values_key: "manifest_column_values m = Inr f \<Longrightarrow> key_preserving f"
  by (auto simp: manifest_column_values_def res_simps key_preserving_def)

lemma find_app_same_apps: "apps db = apps db' \<Longrightarrow> find_app i db = find_app i db'"
  by (simp add: find_app_def)

lemma mark_error_facts:
  "find_app j (mark_error i msg db) = map_option (\<lambda>r. if j = i then error_row msg r else r) (find_app j db)"
  "db_ok db \<Longrightarrow> db_ok (mark_error i msg db)"
  by (simp_all add: mark_error_def find_app_update_app db_ok_update_app)

lemma mark_app_starting_facts:
  "find_app j (mark_app_starting db i) = map_option (\<lambda>r. if j = i then starting_row r else r) (find_app j db)"
  "db_ok db \<Longrightarrow> db_ok (mark_app_starting db i)"
  by (simp_all add: mark_app_starting_def find_app_update_app db_ok_update_app)

lemma fail_launch_facts:
  "find_app j (sdb (fail_launch h i e c s)) =
     map_option (\<lambda>r. if j = i then r\<lparr>a_status := Errored, a_error_message := Some (h_text h e), a_container_id := c\<rparr> else r)
       (find_app j (sdb s))"
  "db_ok (sdb s) \<Longrightarrow> db_ok (sdb (fail_launch h i e c s))"
  "containers (fail_launch h i e c s) = containers s"
  by (simp_all add: fail_launch_def find_app_update_app db_ok_update_app)

lemma set_container_facts:
  "find_app j (sdb (set_container i c s)) =
     map_option (\<lambda>r. if j = i then r\<lparr>a_container_id := Some c\<rparr> else r) (find_app j (sdb s))"
  "db_ok (sdb s) \<Longrightarrow> db_ok (sdb (set_container i c s))"
  "containers (set_container i c s) = containers s"
  by (simp_all add: set_container_def find_app_update_app db_ok_update_app)

lemma set_ready_facts:
  "find_app j (sdb (set_ready i b s)) =
     map_option (\<lambda>r. if j = i then (if b then r\<lparr>a_status := Running, a_error_message := None\<rparr>
        else error_row NOT_RESPONDING r) else r) (find_app j (sdb s))"
  "db_ok (sdb s) \<Longrightarrow> db_ok (sdb (set_ready i b s))"
  "containers (set_ready i b s) = containers s"
  by (simp_all add: set_ready_def find_app_update_app db_ok_update_app)

lemma add_container_facts:
  "sdb (add_container h c n s) = sdb s" "containers (add_container h c n s) = (c, n) # containers s"
  by (simp_all add: add_container_def)

lemmas launch_facts = mark_error_facts mark_app_starting_facts fail_launch_facts set_container_facts
  set_ready_facts add_container_facts option.map_ident

lemma register_services_facts:
  assumes "register_services_provided_by_app fk i m db = Inr db'" and "db_ok db" and "i \<in> app_ids db"
  shows "db_ok db' \<and> apps db' = apps db"
  using register_services_ok [OF assms(2,3), of fk m] assms(1) by auto

lemma lift_service_Inr: "lift_service r = Inr a \<longleftrightarrow> r = Inr a"
  by (cases r) (simp_all add: lift_service_def)

lemma store_app_token_facts:
  assumes "db_ok db" and "i \<in> app_ids db"
  shows "db_ok (store_app_token h i vars db) \<and> apps (store_app_token h i vars db) = apps db"
proof -
  have "apps (replace_app_token i hash db) = apps db" for hash by (simp add: replace_app_token_def)
  then show ?thesis
    using db_ok_replace_app_token [OF assms] assms(1) by (simp add: store_app_token_def split: option.splits)
qed

lemma store_app_token_tables [simp]:
  "apps (store_app_token h i vars db) = apps db"
  "app_port_mappings (store_app_token h i vars db) = app_port_mappings db"
  by (simp_all add: store_app_token_def replace_app_token_def split: option.splits)

lemma prepare_launch_facts:
  assumes "prepare_launch cfg h fk row m env_vars db = Inr (vars, db1)" and "db_ok db"
    and "a_app_id row \<in> app_ids db"
  shows "db_ok db1 \<and> apps db1 = apps db"
proof -
  let ?tok = "store_app_token h (a_app_id row) vars db"
  have reg: "register_services_provided_by_app fk (a_app_id row) m ?tok = Inr db1"
    using assms(1) unfolding prepare_launch_def by (auto simp: res_simps lift_service_Inr)
  have tok: "db_ok ?tok" "apps ?tok = apps db"
    using store_app_token_facts [OF assms(2,3)] by auto
  then have "a_app_id row \<in> app_ids ?tok" using assms(3) by (simp add: app_ids_def)
  with register_services_facts [OF reg tok(1)] tok show ?thesis by simp
qed

text \<open>Under no interference: what one launch does to the app's row and the containers.\<close>

lemma run_app_image_cases:
  assumes "db_ok (sdb s)" and "find_app i (sdb s) = Some row" and "h_others h = (\<lambda>_ s. s)"
    and "run_app_image cfg h fk i tag m vars s = (res, s')"
  obtains (prepare) e where "res = Inl e" and "s' = fail_launch h i e (a_container_id row) s"
  | (run) e db1 s2 where "res = Inl e" and "s' = fail_launch h i e None s2" and "db_ok db1" and "apps db1 = apps (sdb s)"
      and "sdb s2 = mark_app_starting db1 i" and "set (containers s2) \<subseteq> set (containers s)"
  | (ready) c db1 s3 where "db_ok db1" and "apps db1 = apps (sdb s)"
      and "sdb s3 = sdb (set_container i c (s\<lparr>sdb := mark_app_starting db1 i\<rparr>))"
      and "set (containers s3) \<subseteq> insert (c, app_container_name (a_name row)) (set (containers s))"
      and "(c, app_container_name (a_name row)) \<in> set (containers s3)"
      and "case h_ready h of
           Inr ready \<Rightarrow> res = Inr () \<and> s' = set_ready i ready s3
         | Inl e \<Rightarrow> res = Inl e \<and> s' = fail_launch h i e (if h_stop_raises h c then Some c else None) (stop_container h c s3)"
proof (cases "prepare_launch cfg h fk row m vars (sdb s)")
  case (Inl e)
  with assms prepare [of e] show thesis by (simp add: run_app_image_def)
next
  case (Inr p)
  obtain vs db1 where p: "p = (vs, db1)" by (cases p)
  have "a_app_id row \<in> app_ids (sdb s)"
    using find_app_SomeD [OF assms(2)] by (auto simp: app_ids_def)
  then have db1: "db_ok db1" "apps db1 = apps (sdb s)"
    using prepare_launch_facts [OF Inr [unfolded p] assms(1)] by auto
  let ?s1 = "s\<lparr>sdb := mark_app_starting db1 i\<rparr>"
  let ?n = "app_container_name (a_name row)"
  define launched where "launched = run_container (h_env h)
      \<lparr>rh_archive_is_dir = h_archive_is_dir h, rh_gateway_bindable = h_gateway_bindable h\<rparr>
      (h_podman h) (a_name row) tag m (a_local_port row) vs (persistent_data_dir cfg)
      (temporary_data_dir cfg) (app_archive_dir cfg) (load_port_mappings_from_db i db1)"
  define s2 where "s2 = (case launched of Inl (DynamicError e) \<Rightarrow> ?s1 | _ \<Rightarrow> stop_container h ?n ?s1)"
  have s2: "sdb s2 = mark_app_starting db1 i" "set (containers s2) \<subseteq> set (containers s)"
    using stop_container_containers [of h ?n ?s1] by (auto simp: s2_def split: sum.splits app_exn.splits)
  have run: "run_app_image cfg h fk i tag m vars s =
      (case launched of
         Inl e \<Rightarrow> (Inl e, fail_launch h i e None s2)
       | Inr c \<Rightarrow> (case h_ready h of
             Inr ready \<Rightarrow> (Inr (), set_ready i ready (set_container i c (add_container h c ?n s2)))
           | Inl e \<Rightarrow> (Inl e, fail_launch h i e (if h_stop_raises h c then Some c else None)
                         (stop_container h c (set_container i c (add_container h c ?n s2))))))"
    unfolding run_app_image_def Let_def assms(2) option.case Inr p sum.case prod.case assms(3)
      launched_def [symmetric] s2_def [symmetric] by (rule refl)
  show thesis
  proof (cases launched)
    case (Inl e)
    with run assms(4) db1 s2 that(2) show thesis by simp
  next
    case (Inr c)
    let ?s3 = "set_container i c (add_container h c ?n s2)"
    have "sdb ?s3 = sdb (set_container i c ?s1)"
      using s2 by (simp add: set_container_def add_container_def)
    moreover have "containers ?s3 = (c, ?n) # containers s2" by (simp add: launch_facts)
    ultimately show thesis
      using run assms(4) Inr db1 s2 that(3) [of db1 ?s3 c] by (auto split: sum.splits)
  qed
qed

text \<open>Whatever the other threads do, a launch ends in one of the two terminal states.\<close>

lemma run_app_image_ready_status:
  assumes "run_app_image cfg h fk i tag m vars s = (Inr u, s')" and "find_app i (sdb s') = Some r"
  shows "a_status r = Running \<or> a_status r = Errored"
proof -
  obtain b s4 where "s' = set_ready i b s4"
    using assms(1) by (auto simp: run_app_image_def Let_def split: option.splits sum.splits prod.splits)
  with assms(2) show ?thesis by (auto simp: launch_facts error_row_def split: if_splits)
qed

lemma mark_error_status:
  "find_app i (mark_error i msg db) = Some r \<Longrightarrow> a_status r = Errored \<and> a_error_message r = Some msg"
  by (auto simp: launch_facts error_row_def)

lemma build_then_run_ready_status:
  assumes "build_then_run_app cfg h fk i n repo m k vars s = (Inr u, s')" and "find_app i (sdb s') = Some r"
  shows "a_status r = Running \<or> a_status r = Errored"
  using assms run_app_image_ready_status
  by (auto simp: build_then_run_app_def Let_def split: sum.splits)

lemma start_app_ready_status:
  assumes "start_app_process cfg h fk i s = (Inr u, s')" and "find_app i (sdb s') = Some r"
  shows "a_status r = Running \<or> a_status r = Errored"
  using assms build_then_run_ready_status
  by (auto simp: start_app_process_def split: sum.splits option.splits)

text \<open>Database constraints through launches without interference.\<close>

lemma run_app_image_db_ok:
  assumes "db_ok (sdb s)" and "h_others h = (\<lambda>_ s. s)" and "run_app_image cfg h fk i tag m vars s = (res, s')"
  shows "db_ok (sdb s')"
proof (cases "find_app i (sdb s)")
  case None
  with assms show ?thesis by (simp add: run_app_image_def)
next
  case (Some row)
  from assms(1) Some assms(2,3) show ?thesis
  proof (cases rule: run_app_image_cases)
    case (ready c db1 s3)
    have "db_ok (sdb s3)" using ready(1,3) by (simp add: launch_facts)
    with ready(6) show ?thesis by (auto simp: launch_facts split: sum.splits)
  qed (use assms(1) in \<open>simp_all add: launch_facts\<close>)
qed

text \<open>Installing.\<close>

lemma allocate_port_free:
  assumes "allocate_port hp db a b = Inr p"
  shows "p \<in> {a..b} \<and> p \<notin> a_local_port ` set (apps db) \<and> p \<notin> p_host_port ` set (app_port_mappings db)"
  using assms by (auto simp: allocate_port_def Let_def int_range_def split: option.splits dest!: find_SomeD)

lemma db_ok_appendI:
  assumes "db_ok db" and "a_app_id row \<notin> app_ids db" and "a_name row \<notin> a_name ` set (apps db)"
    and "a_local_port row \<notin> a_local_port ` set (apps db)"
  shows "db_ok (db\<lparr>apps := apps db @ [row]\<rparr>)"
proof -
  have "app_ids (db\<lparr>apps := apps db @ [row]\<rparr>) = insert (a_app_id row) (app_ids db)" by (simp add: app_ids_def)
  moreover have "apps_ok (apps db @ [row])"
    using assms by (simp add: db_ok_def apps_ok_def app_ids_def)
  ultimately show ?thesis
    using assms(1) unfolding db_ok_def foreign_keys_ok_def by (simp add: subset_insertI2)
qed

lemma insert_app_facts:
  assumes "insert_app row db = Inr db'" and "db_ok db"
  shows "db_ok db' \<and> db' = db\<lparr>apps := apps db @ [row]\<rparr> \<and> a_app_id row \<notin> app_ids db"
proof -
  have "db' = db\<lparr>apps := apps db @ [row]\<rparr>" and "a_app_id row \<notin> app_ids db"
    "a_name row \<notin> a_name ` set (apps db)" "a_local_port row \<notin> a_local_port ` set (apps db)"
    using assms(1) by (auto simp: insert_app_def app_ids_def table_simps split: if_splits)
  with db_ok_appendI [OF assms(2), of row] show ?thesis by simp
qed

lemma insert_port_facts:
  assumes "insert_port row db = Inr db'" and "db_ok db" and "p_app_id row \<in> app_ids db"
  shows "db_ok db' \<and> apps db' = apps db \<and> permissions db' = permissions db"
proof -
  have db': "db' = db\<lparr>app_port_mappings := app_port_mappings db @ [row]\<rparr>"
    and new: "p_host_port row \<notin> p_host_port ` set (app_port_mappings db)"
      "(p_app_id row, p_label row) \<notin> (\<lambda>r. (p_app_id r, p_label r)) ` set (app_port_mappings db)"
    using assms(1) by (auto simp: insert_port_def table_simps split: if_splits)
  have "ports_ok (app_port_mappings db @ [row])"
    using assms(2) new by (simp add: db_ok_def ports_ok_def)
  then show ?thesis
    using assms(2,3) by (simp add: db' db_ok_def foreign_keys_ok_def app_ids_def)
qed

lemma insert_database_facts:
  assumes "insert_database row db = Inr db'" and "db_ok db" and "d_app_id row \<in> app_ids db"
  shows "db_ok db' \<and> apps db' = apps db \<and> permissions db' = permissions db"
proof -
  have db': "db' = db\<lparr>app_databases := app_databases db @ [row]\<rparr>"
    and new: "(d_app_id row, d_db_name row) \<notin> (\<lambda>r. (d_app_id r, d_db_name r)) ` set (app_databases db)"
    using assms(1) by (auto simp: insert_database_def table_simps split: if_splits)
  then show ?thesis
    using assms(2,3) by (simp add: db_ok_def foreign_keys_ok_def app_ids_def)
qed

lemma insert_all_inv:
  assumes "\<And>r d d'. r \<in> set rs \<Longrightarrow> P d \<Longrightarrow> ins r d = Inr d' \<Longrightarrow> P d'" and "P db"
    and "insert_all ins rs db = Inr db'"
  shows "P db'"
  using assms
proof (induction rs arbitrary: db)
  case (Cons a rs)
  obtain d where d: "ins a db = Inr d" "insert_all ins rs d = Inr db'"
    using Cons.prems(3) by (auto simp: res_simps)
  have "P d" by (rule Cons.prems(1) [OF _ Cons.prems(2) d(1)]) simp
  then show ?case by (rule Cons.IH [rotated]) (use Cons.prems(1) d(2) in auto)
qed simp

lemma insert_app_rows_facts:
  assumes "insert_app_rows cfg h m repo db n url ov = Inr (i, vars, db')" and "db_ok db"
  shows "db_ok db' \<and> i \<notin> app_ids db \<and> permissions db' = permissions db \<and> map_of vars ''OPENHOST_APP_ID'' = Some i \<and>
    (\<exists>r. apps db' = apps db @ [r] \<and> a_app_id r = i \<and> a_status r = Building \<and>
      a_manifest_raw r = Some (m_raw_toml m) \<and> a_local_port r \<in> {cf_port_range_start cfg..cf_port_range_end cfg} \<and>
      a_local_port r \<notin> p_host_port ` set (app_port_mappings db)) \<and>
    (\<forall>t. map_of vars ''OPENHOST_APP_TOKEN'' = Some t \<and> t \<noteq> [] \<longrightarrow>
      \<lparr>t_app_id = i, t_token_hash = h_sha256 h t\<rparr> \<in> set (app_tokens db'))"
proof -
  obtain nm lp resolved columns names db1 db2 db3 where
    lp: "allocate_port (h_ports h) db (cf_port_range_start cfg) (cf_port_range_end cfg) = Inr lp"
    and env: "app_env_vars cfg h i nm m db = Inr vars"
    and cols: "manifest_column_values m = Inr columns"
    and ins1: "insert_app (columns (new_app_row h i nm repo url lp)) db = Inr db1"
    and ins2: "insert_all insert_port (map (port_row_of i) resolved) db1 = Inr db2"
    and ins3: "insert_all insert_database (map (database_row_of i vars) names) db2 = Inr db3"
    and reg: "register_services_provided_by_app True i m (store_app_token h i vars db3) = Inr db'"
    using assms(1) unfolding insert_app_rows_def
    by (auto simp: res_simps lift_service_Inr)
  let ?row = "columns (new_app_row h i nm repo url lp)"
  have row: "a_app_id ?row = i" "a_local_port ?row = lp" "a_status ?row = Building"
    "a_manifest_raw ?row = Some (m_raw_toml m)"
    using cols by (auto simp: manifest_column_values_def res_simps new_app_row_def)
  note db1 = insert_app_facts [OF ins1 assms(2)]
  let ?P = "\<lambda>d. db_ok d \<and> apps d = apps db @ [?row] \<and> permissions d = permissions db"
  have mem: "i \<in> app_ids d" if "?P d" for d using that row by (auto simp: app_ids_def)
  have "?P db1" using db1 by auto
  have "?P db2"
  proof (rule insert_all_inv [where P = ?P, OF _ \<open>?P db1\<close> ins2])
    fix row d d'
    assume "row \<in> set (map (port_row_of i) resolved)" "?P d" "insert_port row d = Inr d'"
    then show "?P d'" using insert_port_facts [of row d d'] mem [of d] by (auto simp: port_row_of_def)
  qed
  have db3: "?P db3"
  proof (rule insert_all_inv [where P = ?P, OF _ \<open>?P db2\<close> ins3])
    fix row d d'
    assume "row \<in> set (map (database_row_of i vars) names)" "?P d" "insert_database row d = Inr d'"
    then show "?P d'" using insert_database_facts [of row d d'] mem [of d] by (auto simp: database_row_of_def)
  qed
  have "map_of vars ''OPENHOST_APP_ID'' = Some i"
    using env make_data_dirs_env(2) by (fastforce simp: app_env_vars_def res_simps router_env_def)
  moreover have tok: "?P (store_app_token h i vars db3)"
    using store_app_token_facts [of db3 i h vars] db3 mem [OF db3]
    by (auto simp: store_app_token_def replace_app_token_def split: option.splits)
  moreover have "?P db'" "app_tokens db' = app_tokens (store_app_token h i vars db3)"
    using register_services_facts [OF reg] tok mem [OF tok] reg
    by (auto simp: register_services_provided_by_app_def split: if_splits)
  moreover have "\<lparr>t_app_id = i, t_token_hash = h_sha256 h t\<rparr> \<in> set (app_tokens (store_app_token h i vars db3))"
    if "map_of vars ''OPENHOST_APP_TOKEN'' = Some t" "t \<noteq> []" for t
    using that by (simp add: store_app_token_def non_empty_def replace_app_token_def)
  ultimately show ?thesis using db1 row allocate_port_free [OF lp] by auto
qed

lemma grant_all_facts:
  assumes "grant_all h i gs db = (res, db')" and "db_ok db" and "i \<in> app_ids db"
  shows "db_ok db' \<and> apps db' = apps db \<and> app_tokens db' = app_tokens db \<and>
    (case res of
       Inr u \<Rightarrow> set (permissions db') = set (permissions db) \<union>
         (\<lambda>g. permission_row_of (float_repr (h_env h)) i (pg_service_url g) (pg_grant g) ''global'' None) ` set gs
     | Inl e \<Rightarrow> \<exists>g\<in>set gs. \<not> json_able (pg_grant g))"
  using assms
proof (induction gs arbitrary: db)
  case (Cons g gs)
  let ?row = "permission_row_of (float_repr (h_env h)) i (pg_service_url g) (pg_grant g) ''global'' None"
  show ?case
  proof (cases "json_able (pg_grant g)")
    case True
    have scope: "''global'' = ''global'' \<or> ''global'' = ''app''" by simp
    obtain db1 where g: "grant_permission_v2 (float_repr (h_env h)) db i (pg_service_url g) (pg_grant g) ''global'' None = Inr db1"
      and set: "set (permissions db1) = insert ?row (set (permissions db))"
      using grant_known_app [OF Cons.prems(3) scope] by blast
    have db1: "db_ok db1" "apps db1 = apps db" "i \<in> app_ids db1"
      using grant_db_ok [OF Cons.prems(2) g] grant_keeps_apps [OF g] Cons.prems(3) by auto
    have tok: "app_tokens db1 = app_tokens db"
      using g by (auto simp: grant_permission_v2_def Let_def split: if_splits)
    have "grant_all h i gs db1 = (res, db')" using Cons.prems(1) True g by simp
    from Cons.IH [OF this db1(1,3)] show ?thesis using db1(2) set tok by (auto split: sum.splits)
  next
    case False
    with Cons.prems show ?thesis by auto
  qed
qed auto

lemma run_app_image_keeps_row:
  assumes "db_ok (sdb s)" and "find_app i (sdb s) = Some row" and "h_others h = (\<lambda>_ s. s)"
    and "run_app_image cfg h fk i tag m vars s = (res, s')"
  shows "find_app i (sdb s') \<noteq> None"
  using assms
proof (cases rule: run_app_image_cases)
  case (run e db1 s2)
  with find_app_same_apps [OF run(4), of i] assms(2) show ?thesis by (simp add: launch_facts)
next
  case (ready c db1 s3)
  have "find_app i (sdb s3) \<noteq> None"
    using ready(3) find_app_same_apps [OF ready(2), of i] assms(2) by (simp add: launch_facts)
  with ready(6) show ?thesis by (auto simp: launch_facts split: sum.splits)
qed (use assms in \<open>simp add: launch_facts\<close>)

lemma deploy_keeps_row:
  assumes "db_ok (sdb s)" and "find_app i (sdb s) = Some row" and "h_others h = (\<lambda>_ s. s)"
  shows "find_app i (sdb (deploy_app_background cfg h m repo i n vars s)) \<noteq> None"
proof -
  have "find_app i (sdb s1) \<noteq> None"
    if "build_then_run_app cfg h fk i nm repo m k vars s = (res, s1)" for fk nm k res s1
    using that run_app_image_keeps_row [OF assms] assms(2)
    by (auto simp: build_then_run_app_def assms(3) split: sum.splits)
  then show ?thesis
    using assms(2) by (auto simp: deploy_app_background_def Let_def launch_facts split: prod.splits sum.splits)
qed

section \<open>Properties\<close>


lemma demo_launch_db: "db_ok (sdb \<lparr>sdb = demo_db, containers = []\<rparr>)
    \<and> find_app ''A1'' (sdb \<lparr>sdb = demo_db, containers = []\<rparr>) = Some (demo_app ''A1'' ''notes'' 9000 Running)"
  using demo_db_ok by (simp add: find_app_def demo_db_def demo_app_def)


text \<open>C8. No deployment or reload strands its app: whatever podman answers and whatever other
  threads do meanwhile, when the background thread ends, the app, if it still exists, is either
  running or in error.\<close>

theorem background_threads_settle:
  "(find_app i (sdb (deploy_app_background cfg h m repo i n vars s)) = Some r \<longrightarrow>
      a_status r = Running \<or> a_status r = Errored) \<and>
   (find_app i (sdb (reload_app_background cfg h i repo s)) = Some r' \<longrightarrow>
      a_status r' = Running \<or> a_status r' = Errored)"
proof (intro conjI impI)
  assume r: "find_app i (sdb (deploy_app_background cfg h m repo i n vars s)) = Some r"
  show "a_status r = Running \<or> a_status r = Errored"
    using r mark_error_status [of i _ _ r] build_then_run_ready_status [of cfg h False i _ repo m 3 vars s _ _ r]
    by (auto simp: deploy_app_background_def Let_def split: sum.splits prod.splits)
next
  assume r: "find_app i (sdb (reload_app_background cfg h i repo s)) = Some r'"
  then obtain row where "find_app i (sdb s) = Some row"
    by (cases "find_app i (sdb s)") (simp_all add: reload_app_background_def)
  then show "a_status r' = Running \<or> a_status r' = Errored"
    using r mark_error_status [of i _ _ r'] start_app_ready_status [of cfg h False i _ _ _ r']
    by (auto simp: reload_app_background_def Let_def split: sum.splits prod.splits)
qed

theorem background_threads_settle_witness:
  "\<exists>r. find_app ''A1'' (sdb (deploy_app_background demo_config demo_host_env demo_manifest ''/r'' ''A1'' None None
      \<lparr>sdb = demo_db, containers = []\<rparr>)) = Some r \<and> (a_status r = Running \<or> a_status r = Errored)"
proof -
  have quiet: "h_others demo_host_env = (\<lambda>_ s. s)" by (simp add: demo_host_env_def)
  have "find_app ''A1'' (sdb (deploy_app_background demo_config demo_host_env demo_manifest
      ''/r'' ''A1'' None None \<lparr>sdb = demo_db, containers = []\<rparr>)) \<noteq> None"
    by (rule deploy_keeps_row [OF conjunct1 [OF demo_launch_db] conjunct2 [OF demo_launch_db] quiet])
  then show ?thesis
    using background_threads_settle by blast
qed

text \<open>A build is tried at most the given number of times: the outcome is that of one attempt
  within the bound, every earlier one failed in a way worth retrying, and a corrupt build cache,
  a timeout or the last attempt ends the loop at once.\<close>

lemma build_attempts_bounded:
  assumes "1 \<le> max_attempts"
  shows "\<exists>a\<in>{1..max_attempts}.
    build_attempts h n repo m max_attempts 1 =
      build_image (h_env h) (h_build h a) n repo (m_container_image m) (effective_build_memory_mb m) \<and>
    (\<forall>b\<in>{1..<a}. \<exists>e. build_image (h_env h) (h_build h b) n repo (m_container_image m) (effective_build_memory_mb m) = Inl e
       \<and> is_runtime_error e \<and> e \<noteq> BuildCacheCorrupt) \<and>
    (a < max_attempts \<longrightarrow> (\<forall>e. build_attempts h n repo m max_attempts 1 = Inl e \<longrightarrow>
       \<not> is_runtime_error e \<or> e = BuildCacheCorrupt))"
proof -
  let ?built = "\<lambda>a. build_image (h_env h) (h_build h a) n repo (m_container_image m) (effective_build_memory_mb m)"
  have "\<exists>a\<in>{k..max_attempts}. build_attempts h n repo m max_attempts k = ?built a \<and>
      (\<forall>b\<in>{k..<a}. \<exists>e. ?built b = Inl e \<and> is_runtime_error e \<and> e \<noteq> BuildCacheCorrupt) \<and>
      (a < max_attempts \<longrightarrow> (\<forall>e. build_attempts h n repo m max_attempts k = Inl e \<longrightarrow>
         \<not> is_runtime_error e \<or> e = BuildCacheCorrupt))" if "k \<le> max_attempts" for k
    using that
  proof (induction "max_attempts - k" arbitrary: k)
    case 0
    then have k: "k = max_attempts" by simp
    have "build_attempts h n repo m max_attempts k = ?built k"
      using k by (subst build_attempts.simps) (auto split: sum.splits)
    with k show ?case by auto
  next
    case (Suc d)
    show ?case
    proof (cases "\<exists>e. ?built k = Inl e \<and> is_runtime_error e \<and> e \<noteq> BuildCacheCorrupt")
      case True
      then have step: "build_attempts h n repo m max_attempts k = build_attempts h n repo m max_attempts (Suc k)"
        using Suc.hyps(2) by (subst build_attempts.simps) auto
      have "d = max_attempts - Suc k" "Suc k \<le> max_attempts" using Suc.hyps(2) by simp_all
      from Suc.hyps(1) [OF this] obtain a where a: "a \<in> {Suc k..max_attempts}"
        "build_attempts h n repo m max_attempts (Suc k) = ?built a"
        "\<forall>b\<in>{Suc k..<a}. \<exists>e. ?built b = Inl e \<and> is_runtime_error e \<and> e \<noteq> BuildCacheCorrupt"
        "a < max_attempts \<longrightarrow> (\<forall>e. build_attempts h n repo m max_attempts (Suc k) = Inl e \<longrightarrow>
           \<not> is_runtime_error e \<or> e = BuildCacheCorrupt)" by blast
      have "\<exists>e. ?built b = Inl e \<and> is_runtime_error e \<and> e \<noteq> BuildCacheCorrupt" if "b \<in> {k..<a}" for b
        using that True a(3) by (cases "b = k") auto
      with a step show ?thesis by (intro bexI [of _ a] conjI ballI) auto
    next
      case False
      then have "build_attempts h n repo m max_attempts k = ?built k"
        using Suc.prems by (subst build_attempts.simps) (auto split: sum.splits)
      with False Suc.prems show ?thesis by (intro bexI [of _ k]) auto
    qed
  qed
  with assms show ?thesis by blast
qed

lemma build_attempts_bounded_witness:
  "\<exists>a\<in>{1..3}. build_attempts demo_host_env ''notes'' ''/r'' demo_manifest 3 1 =
     build_image demo_env (h_build demo_host_env a) ''notes'' ''/r'' (m_container_image demo_manifest)
       (effective_build_memory_mb demo_manifest)"
proof -
  have env: "h_env demo_host_env = demo_env" by (simp add: demo_host_env_def)
  have "(1::nat) \<le> 3" by simp
  from build_attempts_bounded [OF this, of demo_host_env "''notes''" "''/r''" demo_manifest]
  show ?thesis unfolding env by blast
qed

text \<open>C9. Installing is all or nothing up to its commit: a failure before it leaves the database as
  it was; success adds exactly one app, building, with a fresh id, the manifest's text and a port
  from the range that nothing else was using, stores the hash of the token that the container is
  given, grants exactly the approved permissions, and keeps every constraint. After the commit only a grant that is not JSON can still fail.\<close>

theorem insert_and_deploy_atomic:
  assumes "db_ok db" and "insert_and_deploy cfg h m repo db grants n url ov = (res, db')"
  shows "db_ok db' \<and>
    (case res of
       Inr (i, vars) \<Rightarrow> i \<notin> app_ids db \<and> map_of vars ''OPENHOST_APP_ID'' = Some i \<and>
         (\<exists>r. apps db' = apps db @ [r] \<and> a_app_id r = i \<and> a_status r = Building \<and>
           a_manifest_raw r = Some (m_raw_toml m) \<and> a_local_port r \<in> {cf_port_range_start cfg..cf_port_range_end cfg} \<and>
           a_local_port r \<notin> a_local_port ` set (apps db) \<union> p_host_port ` set (app_port_mappings db)) \<and>
         (\<forall>t. map_of vars ''OPENHOST_APP_TOKEN'' = Some t \<and> t \<noteq> [] \<longrightarrow>
           \<lparr>t_app_id = i, t_token_hash = h_sha256 h t\<rparr> \<in> set (app_tokens db')) \<and>
         {p \<in> set (permissions db'). r_consumer_app_id p = i} =
           (\<lambda>g. permission_row_of (float_repr (h_env h)) i (pg_service_url g) (pg_grant g) ''global'' None) ` set grants
     | Inl e \<Rightarrow> db' = db \<or> (\<exists>g\<in>set grants. \<not> json_able (pg_grant g)))"
proof (cases "insert_app_rows cfg h m repo db n url ov")
  case (Inl e)
  with assms show ?thesis by (auto simp: insert_and_deploy_def)
next
  case (Inr p)
  obtain i vars db1 where p: "p = (i, vars, db1)" by (cases p)
  note rows = insert_app_rows_facts [OF Inr [unfolded p] assms(1)]
  obtain gres where g: "grant_all h i grants db1 = (gres, db')"
    and res: "case gres of Inr u \<Rightarrow> res = Inr (i, vars) | Inl e \<Rightarrow> res = Inl e"
    using assms(2) Inr p by (auto simp: insert_and_deploy_def split: prod.splits sum.splits)
  obtain r where r: "apps db1 = apps db @ [r]" "a_app_id r = i" "a_status r = Building"
    "a_manifest_raw r = Some (m_raw_toml m)" "a_local_port r \<in> {cf_port_range_start cfg..cf_port_range_end cfg}"
    "a_local_port r \<notin> p_host_port ` set (app_port_mappings db)" using rows by blast
  have "i \<in> app_ids db1" using r by (simp add: app_ids_def)
  note grants = grant_all_facts [OF g conjunct1 [OF rows] this]
  have fresh: "a_local_port r \<notin> a_local_port ` set (apps db)"
    using rows r(1) by (simp add: db_ok_def apps_ok_def)
  have none: "r_consumer_app_id q \<noteq> i" if "q \<in> set (permissions db)" for q
    using that rows db_ok_permissionsD [OF assms(1)] by auto
  show ?thesis
  proof (cases gres)
    case (Inl e)
    with grants res show ?thesis by simp
  next
    case (Inr u)
    have perms: "set (permissions db') = set (permissions db) \<union>
         (\<lambda>g. permission_row_of (float_repr (h_env h)) i (pg_service_url g) (pg_grant g) ''global'' None) ` set grants"
      using grants Inr rows by simp
    have "{q \<in> set (permissions db'). r_consumer_app_id q = i} =
           (\<lambda>g. permission_row_of (float_repr (h_env h)) i (pg_service_url g) (pg_grant g) ''global'' None) ` set grants"
      unfolding perms using none by (auto simp: permission_row_of_def)
    with Inr grants res rows r fresh show ?thesis by auto
  qed
qed

definition small_manifest :: app_manifest where
  "small_manifest = \<lparr>m_name = PStr ''fresh'', m_version = PStr ''1'', m_description = PStr [],
     m_authors = PList [], m_runtime_type = PStr ''serverfull'', m_container_image = PStr ''Dockerfile'',
     m_container_port = PInt 80, m_container_command = PNone,
     m_port_mappings = [\<lparr>pm_label = ''web'', pm_container_port = 80, pm_host_port = 0\<rparr>],
     m_capabilities = [], m_devices = [], m_shm_mb = PInt 0, m_network_host = PBool False,
     m_health_check = PNone, m_public_paths = PList [], m_links = [], m_memory_mb = PInt 128,
     m_build_memory_mb = PNone, m_cpu_cores = 1, m_gpu = PBool False, m_sqlite_dbs = PList [],
     m_app_data = PBool False, m_app_temp_data = PBool False, m_app_archive = PBool False,
     m_access_all_app_data = PBool False, m_provides = [], m_consumes = [], m_hidden = PBool False,
     m_raw_toml = ''raw''\<rparr>"

lemma small_install_steps:
  "allocate_port (h_ports demo_host_env) demo_db 9000 9009 = Inr 9002"
  "mint_unique_app_id (h_fresh_ids demo_host_env) demo_db = Some ''Z9''"
  "resolve_port_mappings (h_ports demo_host_env) (h_shuffle demo_host_env)
     (apply_port_overrides [] (m_port_mappings small_manifest)) demo_db 9000 9009 None =
   Inr [\<lparr>pm_label = ''web'', pm_container_port = 80, pm_host_port = 9002\<rparr>]"
  "check_before_deploy demo_config demo_host_env = Inr ()"
  by (code_simp; simp)+

lemma small_install_env:
  "\<exists>vars. app_env_vars demo_config demo_host_env ''Z9'' ''fresh'' small_manifest demo_db = Inr vars"
proof -
  have "m_sqlite_dbs small_manifest = PList []" "\<not> truthy (m_app_archive small_manifest)"
    by (simp_all add: small_manifest_def)
  then have make: "\<exists>vars. make_data_dirs_and_env_vars env avail token i n small_manifest dd td ad zone = Inr vars"
    for env avail token i n dd td ad zone
    using make_data_dirs_ok [of small_manifest "[]"] by simp
  have "\<exists>zone. zone_info_of demo_config demo_db (owner_name demo_db) = Inr zone"
    by (simp add: zone_info_of_def primary_domain_def primary_domain_or_none_def demo_db_def demo_domain_row_def)
  then obtain zone where "zone_info_of demo_config demo_db (owner_name demo_db) = Inr zone" by blast
  then show ?thesis using make by (simp add: app_env_vars_def)
qed

lemma small_install:
  "\<exists>vars db1. insert_app_rows demo_config demo_host_env small_manifest ''/r'' demo_db (Some ''fresh'') None []
      = Inr (''Z9'', vars, db1) \<and> (\<exists>r\<in>set (apps db1). a_app_id r = ''Z9'' \<and> a_local_port r = 9002) \<and>
      (\<exists>q\<in>set (app_port_mappings db1). p_app_id q = ''Z9'' \<and> p_host_port q = 9002)"
proof -
  obtain vars where env: "app_env_vars demo_config demo_host_env ''Z9'' ''fresh'' small_manifest demo_db = Inr vars"
    using small_install_env by blast
  have range: "cf_port_range_start demo_config = 9000" "cf_port_range_end demo_config = 9009"
    by (simp_all add: demo_config_def)
  show ?thesis
    unfolding insert_app_rows_def range small_install_steps lift_port_def some_or_def
    using env
    by (simp add: chosen_name_def manifest_column_values_def small_manifest_def new_app_row_def
        insert_app_def insert_port_def table_simps demo_db_def demo_app_def empty_db_def port_row_of_def
        guard_res_def lift_dynamic_def lift_service_def register_services_provided_by_app_def)
qed

theorem insert_and_deploy_atomic_witness:
  "\<exists>i vars db' r. insert_and_deploy demo_config demo_host_env small_manifest ''/r'' demo_db
      [\<lparr>pg_service_url = ''mail'', pg_grant = PStr ''read''\<rparr>] (Some ''fresh'') None [] = (Inr (i, vars), db') \<and>
    db_ok db' \<and> apps db' = apps demo_db @ [r] \<and> a_status r = Building"
proof -
  let ?res = "insert_and_deploy demo_config demo_host_env small_manifest ''/r'' demo_db
      [\<lparr>pg_service_url = ''mail'', pg_grant = PStr ''read''\<rparr>] (Some ''fresh'') None []"
  obtain vars db1 where rows: "insert_app_rows demo_config demo_host_env small_manifest ''/r'' demo_db (Some ''fresh'')
      None [] = Inr (''Z9'', vars, db1)" using small_install by blast
  have "db_ok db1" "''Z9'' \<in> app_ids db1"
    using insert_app_rows_facts [OF rows demo_db_ok] by (auto simp: app_ids_def)
  from grant_known_app [OF this(2), of "''global''"] obtain db' where
    "grant_permission_v2 (float_repr (h_env demo_host_env)) db1 ''Z9'' ''mail'' (PStr ''read'') ''global'' None = Inr db'"
    by blast
  then have eq: "?res = (Inr (''Z9'', vars), db')"
    by (simp add: insert_and_deploy_def rows)
  from insert_and_deploy_atomic [OF demo_db_ok eq] eq show ?thesis by auto
qed

text \<open>A flaw: the installer does not reserve the app's own port before it chooses the mapped ones, so
  an automatic mapping can be given the very port that the app itself is about to listen on.\<close>

theorem install_can_reuse_own_port:
  "\<exists>cfg h m db i vars db' r q. db_ok db \<and>
     insert_and_deploy cfg h m ''/r'' db [] (Some ''fresh'') None [] = (Inr (i, vars), db') \<and>
     r \<in> set (apps db') \<and> a_app_id r = i \<and> q \<in> set (app_port_mappings db') \<and> p_app_id q = i \<and>
     p_host_port q = a_local_port r"
proof -
  obtain vars db1 r q where "insert_app_rows demo_config demo_host_env small_manifest ''/r'' demo_db (Some ''fresh'')
      None [] = Inr (''Z9'', vars, db1)" and "r \<in> set (apps db1)" "a_app_id r = ''Z9''" "a_local_port r = 9002"
    and "q \<in> set (app_port_mappings db1)" "p_app_id q = ''Z9''" "p_host_port q = 9002"
    using small_install by blast
  moreover from this(1) have "insert_and_deploy demo_config demo_host_env small_manifest ''/r'' demo_db []
      (Some ''fresh'') None [] = (Inr (''Z9'', vars), db1)"
    by (simp add: insert_and_deploy_def)
  ultimately have "\<exists>i vars db' r q. insert_and_deploy demo_config demo_host_env small_manifest ''/r'' demo_db []
      (Some ''fresh'') None [] = (Inr (i, vars), db') \<and> r \<in> set (apps db') \<and> a_app_id r = i \<and>
      q \<in> set (app_port_mappings db') \<and> p_app_id q = i \<and> p_host_port q = a_local_port r"
    by (intro exI conjI) (assumption | simp)+
  with demo_db_ok show ?thesis by blast
qed

text \<open>A second one: removing an app while its container is being started deletes the row, and the
  container that then comes up belongs to no app.\<close>

theorem removal_during_launch_orphans_container:
  assumes "find_app i (sdb s) = Some row" and "prepare_launch cfg h fk row m vars (sdb s) = Inr (vs, db1)"
    and "h_others h = (\<lambda>p s. if p = DuringRun then remove_app_background h' i s else s)"
    and "\<And>host pms. run_container (h_env h) host (h_podman h) (a_name row) tag m (a_local_port row) vs
           (persistent_data_dir cfg) (temporary_data_dir cfg) (app_archive_dir cfg) pms = Inr c"
    and "h_ready h = Inr b" and "run_app_image cfg h fk i tag m vars s = (res, s')"
  shows "find_app i (sdb s') = None \<and> (c, app_container_name (a_name row)) \<in> set (containers s')"
proof -
  define s2 where "s2 = remove_app_background h' i
      (stop_container h (app_container_name (a_name row)) (s\<lparr>sdb := mark_app_starting db1 i\<rparr>))"
  have gone: "find_app i (sdb s2) = None"
    by (auto simp: s2_def remove_app_background_def Let_def find_app_delete_cascade split: option.splits)
  have "s' = set_ready i b (set_container i c (add_container h c (app_container_name (a_name row)) s2))"
    using assms(1-6) by (simp add: run_app_image_def Let_def s2_def)
  then show ?thesis using gone by (simp add: launch_facts)
qed



end
