(* ===== verification/Urls.thy ===== *)
theory Urls
  imports PyValues
begin

text \<open>
  \<open>urllib.parse.urlparse\<close> as the router uses it (ASCII URLs; the checks of bracketed hosts and of
  Unicode normalisation are the parameter \<open>netloc_ok\<close>, whose failure is a \<open>ValueError\<close>), and the
  repository URLs of \<open>core/git_ops.py\<close>.
\<close>

section \<open>Splitting a URL\<close>

record url_parts =
  up_scheme :: string
  up_netloc :: string
  up_path :: string
  up_params :: string
  up_query :: string
  up_fragment :: string

definition is_scheme_char :: "char \<Rightarrow> bool" where
  "is_scheme_char c \<longleftrightarrow> is_lower_char c \<or> is_upper_char c \<or> is_digit_char c \<or> c \<in> set ''+-.''"

text \<open>\<open>s.partition(c)\<close> and \<open>s.rpartition(c)\<close> as (before, found, after).\<close>

definition partition_char :: "char \<Rightarrow> string \<Rightarrow> string \<times> bool \<times> string" where
  "partition_char c s = (before_char c s, c \<in> set s, after_char c s)"

definition rpartition_char :: "char \<Rightarrow> string \<Rightarrow> string \<times> bool \<times> string" where
  "rpartition_char c s =
     (if c \<in> set s then (rev (after_char c (rev s)), True, rev (before_char c (rev s)))
      else ([], False, s))"

definition clean_url :: "string \<Rightarrow> string" where
  "clean_url url =
     filter (\<lambda>c. c \<noteq> CHR 0x09 \<and> c \<noteq> CHR 0x0A \<and> c \<noteq> CHR 0x0D)
       (dropWhile (\<lambda>c. (of_char c :: nat) \<le> 32) url)"

definition split_scheme :: "string \<Rightarrow> string \<times> string" where
  "split_scheme url =
     (let (s, found, rest) = partition_char CHR '':'' url in
      if found \<and> s \<noteq> [] \<and> (is_lower_char (hd s) \<or> is_upper_char (hd s)) \<and> list_all is_scheme_char s
      then (lower s, rest) else ([], url))"

definition split_netloc :: "string \<Rightarrow> string \<times> string" where
  "split_netloc url =
     (if startswith url ''//''
      then (let rest = drop 2 url; stop = (\<lambda>c. c = CHR ''/'' \<or> c = CHR ''?'' \<or> c = CHR ''#'') in
            (takeWhile (\<lambda>c. \<not> stop c) rest, dropWhile (\<lambda>c. \<not> stop c) rest))
      else ([], url))"

text \<open>The \<open>;params\<close> of the last path segment, for the schemes that have them.\<close>

definition USES_PARAMS :: "string list" where
  "USES_PARAMS =
     [[], ''ftp'', ''hdl'', ''prospero'', ''http'', ''https'', ''shttp'', ''rtsp'', ''rtsps'', ''rtspu'', ''sip'',
      ''sips'', ''mms'', ''sftp'', ''tel'']"

definition split_params :: "string \<Rightarrow> string \<Rightarrow> string \<times> string" where
  "split_params scheme path =
     (if scheme \<in> set USES_PARAMS \<and> CHR '';'' \<in> set path
      then (let (dir, found, seg) = rpartition_char CHR ''/'' path;
                (seg', has, params) = partition_char CHR '';'' seg
            in if \<not> found then (before_char CHR '';'' path, after_char CHR '';'' path)
               else if has then (dir @ ''/'' @ seg', params) else (path, []))
      else (path, []))"

definition urlparse :: "(string \<Rightarrow> bool) \<Rightarrow> string \<Rightarrow> url_parts option" where
  "urlparse netloc_ok raw =
     (let (scheme, url1) = split_scheme (clean_url raw);
          (netloc, url2) = split_netloc url1;
          (url3, _, fragment) = partition_char CHR ''#'' url2;
          (path0, _, query) = partition_char CHR ''?'' url3;
          (path, params) = split_params scheme path0
      in if \<not> netloc_ok netloc then None
         else Some \<lparr>up_scheme = scheme, up_netloc = netloc, up_path = path, up_params = params,
                    up_query = query, up_fragment = fragment\<rparr>)"

definition hostinfo :: "string \<Rightarrow> string \<times> string option" where
  "hostinfo netloc =
     (let (_, _, info) = rpartition_char CHR ''@'' netloc;
          (_, have_open_br, bracketed) = partition_char CHR ''['' info;
          (host, port) = (if have_open_br
             then (before_char CHR '']'' bracketed, after_char CHR '':'' (after_char CHR '']'' bracketed))
             else (before_char CHR '':'' info, after_char CHR '':'' info))
      in (host, if port = [] then None else Some port))"

definition url_hostname :: "url_parts \<Rightarrow> string option" where
  "url_hostname u =
     (let host = fst (hostinfo (up_netloc u)) in
      if host = [] then None
      else (let (name, percent, zone) = partition_char CHR ''%'' host in
            Some (lower name @ (if percent then ''%'' @ zone else []))))"

definition digits_value :: "string \<Rightarrow> int" where
  "digits_value s = foldl (\<lambda>n c. 10 * n + (int (of_char c) - 48)) 0 s"

text \<open>\<open>parsed.port\<close>: outer None is the \<open>ValueError\<close>.\<close>

definition url_port :: "url_parts \<Rightarrow> int option option" where
  "url_port u =
     (case snd (hostinfo (up_netloc u)) of
        None \<Rightarrow> Some None
      | Some p \<Rightarrow> if py_isdigit p \<and> digits_value p \<le> 65535 then Some (Some (digits_value p)) else None)"

definition url_has_username :: "url_parts \<Rightarrow> bool" where
  "url_has_username u \<longleftrightarrow> CHR ''@'' \<in> set (up_netloc u)"

text \<open>\<open>geturl\<close>, for the parts of a parsed hierarchical URL.\<close>

definition geturl :: "url_parts \<Rightarrow> string" where
  "geturl u =
     (let path = (if up_params u = [] then up_path u else up_path u @ '';'' @ up_params u);
          url1 = (if up_netloc u \<noteq> []
                  then ''//'' @ up_netloc u @ (if path \<noteq> [] \<and> hd path \<noteq> CHR ''/'' then ''/'' @ path else path)
                  else if startswith path ''//'' then ''//'' @ path else path);
          url2 = (if up_scheme u = [] then url1 else up_scheme u @ '':'' @ url1);
          url3 = (if up_query u = [] then url2 else url2 @ ''?'' @ up_query u)
      in if up_fragment u = [] then url3 else url3 @ ''#'' @ up_fragment u)"

section \<open>Repository URLs (\<open>core/git_ops.py\<close>)\<close>

definition KNOWN_SCHEMES :: "string list" where
  "KNOWN_SCHEMES = [''http'', ''https'', ''ssh'', ''git'', ''file'']"

text \<open>\<open>^[^/@]+@[^/:]+:\<close> at the start of the text.\<close>

definition scp_style_ssh :: "string \<Rightarrow> bool" where
  "scp_style_ssh s =
     (let user = takeWhile (\<lambda>c. c \<noteq> CHR ''/'' \<and> c \<noteq> CHR ''@'') s;
          rest = drop (length user) s;
          after_at = drop 1 rest;
          host = takeWhile (\<lambda>c. c \<noteq> CHR ''/'' \<and> c \<noteq> CHR '':'') after_at
      in user \<noteq> [] \<and> startswith rest ''@'' \<and> host \<noteq> [] \<and> startswith (drop (length host) after_at) '':'')"

definition is_ssh_url :: "(string \<Rightarrow> bool) \<Rightarrow> string \<Rightarrow> bool option" where
  "is_ssh_url netloc_ok repo_url =
     map_option (\<lambda>parsed. up_scheme parsed = ''ssh'' \<or> scp_style_ssh repo_url) (urlparse netloc_ok repo_url)"

definition repo_url_hostname :: "(string \<Rightarrow> bool) \<Rightarrow> string \<Rightarrow> string option" where
  "repo_url_hostname netloc_ok repo_url =
     (case urlparse netloc_ok repo_url of
        None \<Rightarrow> None
      | Some parsed \<Rightarrow>
          (case (if up_scheme parsed \<in> set KNOWN_SCHEMES then Some parsed
                 else urlparse netloc_ok (''https://'' @ repo_url)) of
             None \<Rightarrow> None
           | Some p \<Rightarrow> Some (lower (case url_hostname p of Some h \<Rightarrow> h | None \<Rightarrow> []))))"

definition is_github_repo_url :: "(string \<Rightarrow> bool) \<Rightarrow> string \<Rightarrow> bool option" where
  "is_github_repo_url netloc_ok repo_url =
     map_option (\<lambda>host. host = ''github.com'' \<or> endswith host ''.github.com'') (repo_url_hostname netloc_ok repo_url)"

definition github_token_git_config :: "string option \<Rightarrow> string list" where
  "github_token_git_config token =
     (case non_empty token of
        None \<Rightarrow> []
      | Some t \<Rightarrow> [''-c'', ''url.https://'' @ t @ ''@github.com/.insteadOf=https://github.com/''])"

definition inject_github_token_in_url :: "(string \<Rightarrow> bool) \<Rightarrow> string \<Rightarrow> string \<Rightarrow> string option" where
  "inject_github_token_in_url netloc_ok url token =
     (case urlparse netloc_ok url of
        None \<Rightarrow> None
      | Some parsed \<Rightarrow>
          if (up_scheme parsed = ''http'' \<or> up_scheme parsed = ''https'') \<and> url_hostname parsed \<noteq> None
          then (case url_port parsed of
              None \<Rightarrow> None
            | Some port \<Rightarrow>
                (let host = the (url_hostname parsed);
                     host_port = (case port of Some p \<Rightarrow> if p = 0 then host else host @ '':'' @ show_int p | None \<Rightarrow> host)
                 in Some (geturl (parsed\<lparr>up_netloc := token @ ''@'' @ host_port\<rparr>))))
          else Some url)"

text \<open>\<open>parse_repo_url\<close>; None is the \<open>ValueError\<close>.\<close>

definition parse_repo_url :: "(string \<Rightarrow> bool) \<Rightarrow> string \<Rightarrow> (string \<times> string option) option" where
  "parse_repo_url netloc_ok repo_url =
     (case (is_ssh_url netloc_ok repo_url, urlparse netloc_ok repo_url) of
        (Some False, Some parsed0) \<Rightarrow>
          (let url = (if up_scheme parsed0 \<in> set KNOWN_SCHEMES then repo_url else ''https://'' @ repo_url) in
           case urlparse netloc_ok url of
             None \<Rightarrow> None
           | Some parsed \<Rightarrow>
               (let (base_path, found, ref) = rpartition_char CHR ''@'' (up_path parsed) in
                if found then Some (geturl (parsed\<lparr>up_path := base_path\<rparr>), Some ref) else Some (url, None)))
      | _ \<Rightarrow> None)"

section \<open>Facts\<close>

lemma rpartition_char_notin: "rpartition_char c s = (a, f, b) \<Longrightarrow> c \<notin> set b"
  using before_char_notin [of c "rev s"] by (auto simp: rpartition_char_def split: if_splits)

lemma before_after_char: "c \<in> set s \<Longrightarrow> before_char c s @ [c] @ after_char c s = s"
  by (induction s) (auto simp: before_char_def after_char_def)

lemma rpartition_char_join:
  assumes "c \<in> set s"
  shows "rpartition_char c s = (a, f, b) \<longleftrightarrow> f \<and> s = a @ [c] @ b \<and> c \<notin> set b"
proof
  assume eq: "rpartition_char c s = (a, f, b)"
  have "before_char c (rev s) @ [c] @ after_char c (rev s) = rev s"
    using assms by (intro before_after_char) simp
  then have "rev (before_char c (rev s) @ [c] @ after_char c (rev s)) = s" by (metis rev_rev_ident)
  with eq assms show "f \<and> s = a @ [c] @ b \<and> c \<notin> set b"
    using rpartition_char_notin [OF eq] by (auto simp: rpartition_char_def)
next
  assume r: "f \<and> s = a @ [c] @ b \<and> c \<notin> set b"
  have "takeWhile (\<lambda>x. x \<noteq> c) (rev b @ c # rev a) = rev b"
    "dropWhile (\<lambda>x. x \<noteq> c) (rev b @ c # rev a) = c # rev a"
    using r by (auto simp: takeWhile_append dropWhile_append)
  with r assms show "rpartition_char c s = (a, f, b)"
    by (auto simp: rpartition_char_def before_char_def after_char_def)
qed

end
