(* ===== verification/Auth.thy ===== *)
theory Auth
  imports AppLifecycle
begin

text \<open>
  \<open>core/auth/auth.py\<close> and \<open>core/settings_store.py\<close>: the owner's account, session tokens, API tokens
  and app tokens. Times are microseconds since the epoch (an \<open>expires_at\<close> text is the time it
  parses to; the empty text of an API token that never expires is None). SHA-256, bcrypt and the
  random token are arguments.
\<close>

definition SESSION_TTL_SECONDS :: int where
  "SESSION_TTL_SECONDS = 28 * 24 * 60 * 60"

definition microseconds :: "int \<Rightarrow> int" where
  "microseconds s = 1000000 * s"

text \<open>\<open>len(s)\<close> counts code points: the bytes that do not continue one.\<close>

definition py_len :: "string \<Rightarrow> nat" where
  "py_len s = length (filter (\<lambda>c. \<not> is_cont c) s)"

section \<open>The owner's name\<close>

definition OWNER_USERNAME_MAX_LEN :: nat where
  "OWNER_USERNAME_MAX_LEN = 30"

definition is_username_char :: "char \<Rightarrow> bool" where
  "is_username_char c \<longleftrightarrow> is_lower_char c \<or> is_digit_char c \<or> c \<in> set ''._-''"

definition username_body :: "string \<Rightarrow> bool" where
  "username_body s \<longleftrightarrow>
     s \<noteq> [] \<and> (is_lower_char (hd s) \<or> is_digit_char (hd s)) \<and> list_all is_username_char s \<and> length s \<le> 30"

text \<open>\<open>_OWNER_USERNAME_RE.match\<close>: the final \<open>$\<close> also matches before a trailing newline.\<close>

definition owner_username_re :: "string \<Rightarrow> bool" where
  "owner_username_re s \<longleftrightarrow> dollar username_body s"

datatype username_error = UsernameRequired | UsernameTooLong | UsernameBadForm

definition validate_owner_username :: "string \<Rightarrow> username_error option" where
  "validate_owner_username v =
     (if v = [] then Some UsernameRequired
      else if OWNER_USERNAME_MAX_LEN < py_len v then Some UsernameTooLong
      else if \<not> owner_username_re v then Some UsernameBadForm
      else None)"

text \<open>None is the \<open>ValueError\<close> raised before setup.\<close>

definition update_owner_username :: "db \<Rightarrow> string \<Rightarrow> db option" where
  "update_owner_username db new =
     (case sort_key u_user_id (users db) of
        [] \<Rightarrow> None
      | u # us \<Rightarrow>
          Some (db\<lparr>users := update_rows (\<lambda>r. u_user_id r = u_user_id u) (\<lambda>r. r\<lparr>u_username := new\<rparr>) (users db)\<rparr>))"

section \<open>Credentials\<close>

datatype accessor =
    AuthenticatedUser int string
  | AuthenticatedAPIKey
  | AuthenticatedApp string

text \<open>
  \<open>SELECT ... FROM users LIMIT 1\<close> reads the first row. Without one, subscripting None raises
  \<open>TypeError\<close>; \<open>checkpw\<close> gives None where bcrypt raises.
\<close>

definition validate_password ::
    "(string \<Rightarrow> string \<Rightarrow> bool option) \<Rightarrow> string \<Rightarrow> db \<Rightarrow> string py_exn + int option" where
  "validate_password checkpw password db =
     (case users db of
        [] \<Rightarrow> Inl TypeError
      | u # us \<Rightarrow>
          (case checkpw password (u_password_hash u) of
             None \<Rightarrow> Inl (ValueError ''bcrypt'')
           | Some ok \<Rightarrow> Inr (if ok then Some (u_user_id u) else None)))"

text \<open>SQLite's \<open>datetime(t)\<close>: the time rounded to milliseconds, then cut to seconds.\<close>

definition sqlite_seconds :: "int \<Rightarrow> int" where
  "sqlite_seconds t = (t + 500) div 1000000"

definition find_session :: "db \<Rightarrow> string \<Rightarrow> (int \<times> int) option" where
  "find_session db h =
     map_option (\<lambda>r. (s_user_id r, s_expires_at r)) (List.find (\<lambda>r. s_token_hash r = h) (sessions db))"

definition sweep_sessions :: "int \<Rightarrow> db \<Rightarrow> db" where
  "sweep_sessions now db =
     db\<lparr>sessions := delete_rows (\<lambda>r. sqlite_seconds (s_expires_at r) < sqlite_seconds now) (sessions db)\<rparr>"

definition insert_session :: "string \<Rightarrow> int \<times> int \<Rightarrow> db \<Rightarrow> db" where
  "insert_session h r db =
     db\<lparr>sessions := sessions db @ [\<lparr>s_token_hash = h, s_user_id = fst r, s_expires_at = snd r\<rparr>]\<rparr>"

definition delete_session :: "string \<Rightarrow> db \<Rightarrow> db" where
  "delete_session h db = db\<lparr>sessions := delete_rows (\<lambda>r. s_token_hash r = h) (sessions db)\<rparr>"

text \<open>None is the integrity error: the hash is taken, or the user does not exist.\<close>

definition create_session :: "(string \<Rightarrow> string) \<Rightarrow> string \<Rightarrow> int \<Rightarrow> int \<Rightarrow> db \<Rightarrow> db option" where
  "create_session hsh token now user_id db =
     (let db1 = sweep_sessions now db;
          expires_at = now + microseconds SESSION_TTL_SECONDS
      in if find_session db1 (hsh token) = None \<and> exists_row (\<lambda>u. u_user_id u = user_id) (users db1)
         then Some (insert_session (hsh token) (user_id, expires_at) db1)
         else None)"

definition revoke_session :: "(string \<Rightarrow> string) \<Rightarrow> string \<Rightarrow> db \<Rightarrow> db" where
  "revoke_session hsh token db = delete_session (hsh token) db"

definition validate_session_token :: "(string \<Rightarrow> string) \<Rightarrow> int \<Rightarrow> string \<Rightarrow> db \<Rightarrow> accessor option" where
  "validate_session_token hsh now token db =
     (case find_session db (hsh token) of
        None \<Rightarrow> None
      | Some (user_id, expires_at) \<Rightarrow>
          (case List.find (\<lambda>u. u_user_id u = user_id) (users db) of
             None \<Rightarrow> None
           | Some u \<Rightarrow> if now \<le> expires_at then Some (AuthenticatedUser (u_user_id u) (u_username u)) else None))"

definition validate_api_token :: "(string \<Rightarrow> string) \<Rightarrow> int \<Rightarrow> string \<Rightarrow> db \<Rightarrow> accessor option" where
  "validate_api_token hsh now token db =
     (case List.find (\<lambda>r. k_token_hash r = hsh token) (api_tokens db) of
        None \<Rightarrow> None
      | Some r \<Rightarrow>
          (case k_expires_at r of
             None \<Rightarrow> Some AuthenticatedAPIKey
           | Some expires_at \<Rightarrow> if now \<le> expires_at then Some AuthenticatedAPIKey else None))"

definition validate_app_token :: "(string \<Rightarrow> string) \<Rightarrow> string \<Rightarrow> db \<Rightarrow> accessor option" where
  "validate_app_token hsh token db =
     (case List.find (\<lambda>r. t_token_hash r = hsh token) (app_tokens db) of
        None \<Rightarrow> None
      | Some r \<Rightarrow> map_option (\<lambda>a. AuthenticatedApp (a_app_id a)) (find_app (t_app_id r) db))"

definition is_openhost_credential :: "(string \<Rightarrow> string) \<Rightarrow> int \<Rightarrow> string \<Rightarrow> db \<Rightarrow> bool" where
  "is_openhost_credential hsh now token db \<longleftrightarrow>
     validate_api_token hsh now token db \<noteq> None \<or> validate_app_token hsh token db \<noteq> None \<or>
     validate_session_token hsh now token db \<noteq> None"

section \<open>The settings store\<close>

definition CLAIM_TOKEN_KEY :: string where
  "CLAIM_TOKEN_KEY = ''claim_token''"

definition get_setting :: "db \<Rightarrow> string \<Rightarrow> string option" where
  "get_setting db key = map_of (settings db) key"

definition set_setting :: "db \<Rightarrow> string \<Rightarrow> string \<Rightarrow> db" where
  "set_setting db key value =
     db\<lparr>settings := (if exists_row (\<lambda>r. fst r = key) (settings db)
        then update_rows (\<lambda>r. fst r = key) (\<lambda>r. (key, value)) (settings db)
        else settings db @ [(key, value)])\<rparr>"

definition delete_setting :: "db \<Rightarrow> string \<Rightarrow> db" where
  "delete_setting db key = db\<lparr>settings := delete_rows (\<lambda>r. fst r = key) (settings db)\<rparr>"

lemma get_delete_setting: "get_setting (delete_setting db k) j = (if j = k then None else get_setting db j)"
proof -
  have "map_of (filter (\<lambda>r. fst r \<noteq> k) xs) j = (if j = k then None else map_of xs j)" for xs :: "(string \<times> string) list"
    by (induction xs) auto
  then show ?thesis by (simp add: get_setting_def delete_setting_def delete_rows_def)
qed

section \<open>Session rows as a token table\<close>

lemma find_append_other: "\<not> P r \<Longrightarrow> List.find P (xs @ [r]) = List.find P xs"
  by (induction xs) auto

lemma find_append_same: "List.find P xs = None \<Longrightarrow> P r \<Longrightarrow> List.find P (xs @ [r]) = Some r"
  by (induction xs) (auto split: if_splits)

interpretation session_table: token_table find_session insert_session delete_session
proof
  fix db :: db and h h' :: string and r :: "int \<times> int"
  show "find_session db h = None \<Longrightarrow> find_session (insert_session h r db) h = Some r"
    by (simp add: find_session_def insert_session_def find_append_same)
  show "h \<noteq> h' \<Longrightarrow> find_session (insert_session h r db) h' = find_session db h'"
    by (simp add: find_session_def insert_session_def find_append_other)
  show "find_session (delete_session h db) h = None"
    by (simp add: find_session_def delete_session_def find_delete_same)
  show "h \<noteq> h' \<Longrightarrow> find_session (delete_session h db) h' = find_session db h'"
    by (auto simp: find_session_def delete_session_def intro!: arg_cong [where f = "map_option _"] find_delete_rows)
qed

lemma sqlite_seconds_mono: "a \<le> b \<Longrightarrow> sqlite_seconds a \<le> sqlite_seconds b"
  by (simp add: sqlite_seconds_def zdiv_mono1)

lemma find_filter_kept: "List.find P xs = Some r \<Longrightarrow> Q r \<Longrightarrow> List.find P (filter Q xs) = Some r"
  by (induction xs) (auto split: if_splits)

lemma sweep_keeps_unexpired:
  assumes "find_session db h = Some (uid, expires)" and "now \<le> expires"
  shows "find_session (sweep_sessions now db) h = Some (uid, expires)"
proof -
  obtain r where r: "List.find (\<lambda>r. s_token_hash r = h) (sessions db) = Some r"
    "s_user_id r = uid" "s_expires_at r = expires"
    using assms(1) by (auto simp: find_session_def)
  have "\<not> sqlite_seconds (s_expires_at r) < sqlite_seconds now"
    using sqlite_seconds_mono [OF assms(2)] r(3) by simp
  from find_filter_kept [OF r(1), of "\<lambda>r. \<not> sqlite_seconds (s_expires_at r) < sqlite_seconds now"] this r
  show ?thesis by (simp add: find_session_def sweep_sessions_def delete_rows_def)
qed

lemma sweep_None: "find_session db h = None \<Longrightarrow> find_session (sweep_sessions now db) h = None"
  by (auto simp: find_session_def sweep_sessions_def delete_rows_def find_None_iff)

section \<open>Runs of session operations\<close>

text \<open>What happens to the session table between two requests: logins and logouts, in any order.\<close>

datatype session_op = CreateSession string int int | RevokeSession string

fun session_step :: "(string \<Rightarrow> string) \<Rightarrow> db \<Rightarrow> session_op \<Rightarrow> db" where
  "session_step hsh db (CreateSession token now user_id) =
     (case create_session hsh token now user_id db of None \<Rightarrow> db | Some db' \<Rightarrow> db')"
| "session_step hsh db (RevokeSession token) = revoke_session hsh token db"

definition session_run :: "(string \<Rightarrow> string) \<Rightarrow> session_op list \<Rightarrow> db \<Rightarrow> db" where
  "session_run hsh ops db = foldl (session_step hsh) db ops"

fun op_token :: "session_op \<Rightarrow> string" where
  "op_token (CreateSession token now user_id) = token"
| "op_token (RevokeSession token) = token"

fun op_before :: "int \<Rightarrow> session_op \<Rightarrow> bool" where
  "op_before t (CreateSession token now user_id) \<longleftrightarrow> now \<le> t"
| "op_before t (RevokeSession token) \<longleftrightarrow> True"

lemma users_session_simps [simp]:
  "users (sweep_sessions now db) = users db"
  "users (insert_session h r db) = users db"
  "users (delete_session h db) = users db"
  by (simp_all add: sweep_sessions_def insert_session_def delete_session_def)

lemma session_step_users: "users (session_step hsh db e) = users db"
  by (cases e) (auto simp: create_session_def revoke_session_def Let_def)

lemma session_run_users: "users (session_run hsh ops db) = users db"
  unfolding session_run_def by (induction ops arbitrary: db) (simp_all add: session_step_users)

lemma session_step_keeps:
  assumes "find_session db h = Some (uid, expires)" and "hsh (op_token e) \<noteq> h" and "op_before t e" and "t \<le> expires"
  shows "find_session (session_step hsh db e) h = Some (uid, expires)"
proof (cases e)
  case (CreateSession token now user_id)
  then have "find_session (sweep_sessions now db) h = Some (uid, expires)"
    using assms by (intro sweep_keeps_unexpired) auto
  then show ?thesis using CreateSession assms(1,2)
    by (auto simp: create_session_def Let_def session_table.find_add_other)
next
  case (RevokeSession token)
  then show ?thesis using assms by (simp add: revoke_session_def session_table.find_del_other)
qed

lemma session_run_keeps:
  assumes "find_session db h = Some (uid, expires)" and "t \<le> expires"
    and "list_all (\<lambda>e. hsh (op_token e) \<noteq> h \<and> op_before t e) ops"
  shows "find_session (session_run hsh ops db) h = Some (uid, expires)"
  using assms unfolding session_run_def
  by (induction ops arbitrary: db) (simp_all add: session_step_keeps [where t = t])

lemma session_step_stays_out:
  assumes "find_session db h = None" and "hsh (op_token e) \<noteq> h"
  shows "find_session (session_step hsh db e) h = None"
  using assms
  by (cases e) (auto simp: create_session_def revoke_session_def Let_def sweep_None
      session_table.find_add_other session_table.find_del_other split: option.splits)

lemma session_run_stays_out:
  assumes "find_session db h = None" and "list_all (\<lambda>e. hsh (op_token e) \<noteq> h) ops"
  shows "find_session (session_run hsh ops db) h = None"
  using assms unfolding session_run_def
  by (induction ops arbitrary: db) (simp_all add: session_step_stays_out)

text \<open>Every row with the hash \<open>h\<close> is the session of \<open>uid\<close> that ends at \<open>expires\<close>.\<close>

definition only_session :: "string \<Rightarrow> int \<Rightarrow> int \<Rightarrow> db \<Rightarrow> bool" where
  "only_session h uid expires db \<longleftrightarrow>
     (\<forall>r\<in>set (sessions db). s_token_hash r = h \<longrightarrow> s_user_id r = uid \<and> s_expires_at r = expires)"

lemma only_session_step:
  assumes "only_session h uid expires db" and "hsh (op_token e) \<noteq> h"
  shows "only_session h uid expires (session_step hsh db e)"
  using assms
  by (cases e) (auto simp: only_session_def create_session_def revoke_session_def Let_def sweep_sessions_def
      insert_session_def delete_session_def delete_rows_def)

lemma only_session_run:
  assumes "only_session h uid expires db" and "list_all (\<lambda>e. hsh (op_token e) \<noteq> h) ops"
  shows "only_session h uid expires (session_run hsh ops db)"
  using assms unfolding session_run_def
  by (induction ops arbitrary: db) (simp_all add: only_session_step)

lemma only_session_find:
  "only_session h uid expires db \<Longrightarrow> find_session db h = Some (u, x) \<Longrightarrow> u = uid \<and> x = expires"
  by (auto simp: only_session_def find_session_def dest: find_SomeD)

lemma create_session_find:
  assumes "create_session hsh token now uid db = Some db1"
  shows "find_session db1 (hsh token) = Some (uid, now + microseconds SESSION_TTL_SECONDS)"
    and "only_session (hsh token) uid (now + microseconds SESSION_TTL_SECONDS) db1"
    and "users db1 = users db"
proof -
  let ?db = "sweep_sessions now db"
  have none: "find_session ?db (hsh token) = None"
    and db1: "db1 = insert_session (hsh token) (uid, now + microseconds SESSION_TTL_SECONDS) ?db"
    using assms by (auto simp: create_session_def Let_def split: if_splits)
  show "find_session db1 (hsh token) = Some (uid, now + microseconds SESSION_TTL_SECONDS)"
    using none unfolding db1 by (rule session_table.find_add_same)
  have "r \<in> set (sessions ?db) \<Longrightarrow> s_token_hash r \<noteq> hsh token" for r
    using none by (auto simp: find_session_def find_None_iff)
  then show "only_session (hsh token) uid (now + microseconds SESSION_TTL_SECONDS) db1"
    unfolding db1 only_session_def insert_session_def by auto
  show "users db1 = users db" by (simp add: db1)
qed

lemma validate_session_None: "find_session db (hsh token) = None \<Longrightarrow> validate_session_token hsh t token db = None"
  by (simp add: validate_session_token_def)

section \<open>App tokens\<close>

lemma validate_app_token_SomeD:
  assumes "validate_app_token hsh token db = Some a"
  shows "\<exists>row i. find_app i db = Some row \<and> a = AuthenticatedApp i \<and>
           \<lparr>t_app_id = i, t_token_hash = hsh token\<rparr> \<in> set (app_tokens db)"
proof -
  obtain r row where r: "List.find (\<lambda>r. t_token_hash r = hsh token) (app_tokens db) = Some r"
    "find_app (t_app_id r) db = Some row" "a = AuthenticatedApp (a_app_id row)"
    using assms by (auto simp: validate_app_token_def split: option.splits)
  have "r = \<lparr>t_app_id = t_app_id r, t_token_hash = hsh token\<rparr>" and "r \<in> set (app_tokens db)"
    using find_SomeD [OF r(1)] by auto
  moreover have "a_app_id row = t_app_id r" using find_app_SomeD [OF r(2)] by simp
  ultimately show ?thesis using r by metis
qed

lemma validate_app_token_after_removal:
  "validate_app_token hsh token (delete_app_cascade i db) \<noteq> Some (AuthenticatedApp i)"
  using validate_app_token_SomeD [of hsh token "delete_app_cascade i db"]
  by (auto simp: find_app_delete_cascade)

lemma validate_app_token_after_replace:
  assumes "find_app i db = Some row"
  shows "validate_app_token hsh token (replace_app_token i (hsh token) db) = Some (AuthenticatedApp i)"
proof -
  have none: "List.find (\<lambda>r. t_token_hash r = hsh token)
      (delete_rows (\<lambda>r. t_app_id r = i \<or> t_token_hash r = hsh token) (app_tokens db)) = None"
    by (auto simp: find_None_iff delete_rows_def)
  have "find_app i (replace_app_token i (hsh token) db) = Some row" "a_app_id row = i"
    using assms find_app_SomeD [OF assms] by (simp_all add: find_app_def replace_app_token_def)
  then show ?thesis using none
    by (simp add: validate_app_token_def replace_app_token_def find_append_same)
qed

lemma validate_app_token_old_gone:
  assumes "db_ok db" and "validate_app_token hsh old db = Some (AuthenticatedApp i)" and "hsh old \<noteq> h"
  shows "validate_app_token hsh old (replace_app_token i h db) = None"
proof -
  have "\<lparr>t_app_id = i, t_token_hash = hsh old\<rparr> \<in> set (app_tokens db)"
    using validate_app_token_SomeD [OF assms(2)] by auto
  moreover have "distinct (map t_token_hash (app_tokens db))"
    using assms(1) by (simp add: db_ok_def tokens_ok_def)
  ultimately have "t_app_id r = i" if "r \<in> set (app_tokens db)" "t_token_hash r = hsh old" for r
    using that by (auto simp: distinct_map inj_on_def)
  then have "List.find (\<lambda>r. t_token_hash r = hsh old) (app_tokens (replace_app_token i h db)) = None"
    using assms(3) by (auto simp: find_None_iff replace_app_token_def delete_rows_def)
  then show ?thesis by (simp add: validate_app_token_def)
qed

section \<open>Properties\<close>

text \<open>A session made by \<open>create_session\<close> authenticates its user exactly until its four weeks are
  over, whatever logins and logouts of other sessions happen in between (their sweeps of expired rows
  included, to the microsecond although the sweep compares whole seconds).\<close>

lemma session_lifecycle:
  assumes "create_session hsh token t0 uid db = Some db1"
    and "List.find (\<lambda>u. u_user_id u = uid) (users db) = Some u"
    and "list_all (\<lambda>e. hsh (op_token e) \<noteq> hsh token \<and> op_before t e) ops"
  shows "validate_session_token hsh t token (session_run hsh ops db1) =
    (if t \<le> t0 + microseconds SESSION_TTL_SECONDS then Some (AuthenticatedUser uid (u_username u)) else None)"
proof -
  note created = create_session_find [OF assms(1)]
  have uid: "u_user_id u = uid" using find_SomeD [OF assms(2)] by simp
  have user: "List.find (\<lambda>u. u_user_id u = uid) (users (session_run hsh ops db1)) = Some u"
    using assms(2) by (simp add: session_run_users created(3))
  have ops: "list_all (\<lambda>e. hsh (op_token e) \<noteq> hsh token) ops" using assms(3) by (simp add: list_all_iff)
  show ?thesis
  proof (cases "t \<le> t0 + microseconds SESSION_TTL_SECONDS")
    case True
    then show ?thesis
      using session_run_keeps [where hsh = hsh, OF created(1) True assms(3)] user uid
      by (simp add: validate_session_token_def)
  next
    case False
    then show ?thesis
      using only_session_find [OF only_session_run [where hsh = hsh, OF created(2) ops]] uid user
      by (auto simp: validate_session_token_def split: option.splits)
  qed
qed

text \<open>A revoked session never authenticates again, at any time and whatever sessions are created
  and revoked afterwards, unless the same token is issued again.\<close>

lemma revoked_session_stays_out:
  assumes "list_all (\<lambda>e. hsh (op_token e) \<noteq> hsh token) ops"
  shows "validate_session_token hsh t token (session_run hsh ops (revoke_session hsh token db)) = None"
  by (rule validate_session_None, rule session_run_stays_out)
    (use assms in \<open>simp_all add: revoke_session_def session_table.find_del_same\<close>)

text \<open>The token minted at a deploy authenticates as its app, it replaces every earlier token of that
  app, an app token authenticates only as an installed app, and none as an app that has been removed.\<close>

lemma app_token_follows_app:
  assumes "db_ok db" and "find_app i db = Some row"
  shows "validate_app_token hsh token (replace_app_token i (hsh token) db) = Some (AuthenticatedApp i) \<and>
    (validate_app_token hsh old db = Some (AuthenticatedApp i) \<and> hsh old \<noteq> hsh token \<longrightarrow>
       validate_app_token hsh old (replace_app_token i (hsh token) db) = None) \<and>
    validate_app_token hsh any (delete_app_cascade i db) \<noteq> Some (AuthenticatedApp i) \<and>
    (\<forall>j. validate_app_token hsh any db = Some (AuthenticatedApp j) \<longrightarrow> find_app j db \<noteq> None)"
  using validate_app_token_after_replace [OF assms(2)] validate_app_token_old_gone [OF assms(1)]
    validate_app_token_after_removal validate_app_token_SomeD
  by fastforce

section \<open>Concrete instances\<close>

definition demo_auth_db :: db where
  "demo_auth_db = demo_db\<lparr>
     users := [\<lparr>u_user_id = 1, u_username = ''owner'', u_password_hash = ''pw''\<rparr>],
     app_tokens := [\<lparr>t_app_id = ''A1'', t_token_hash = ''old''\<rparr>]\<rparr>"

lemma demo_auth_db_ok: "db_ok demo_auth_db"
  using demo_db_ok by (simp add: demo_auth_db_def demo_db_def db_ok_def apps_ok_def ports_ok_def tokens_ok_def
      foreign_keys_ok_def empty_db_def demo_app_def app_ids_def)

lemma session_lifecycle_witness:
  "\<exists>db1. create_session id ''t'' 0 1 demo_auth_db = Some db1 \<and>
     validate_session_token id 7 ''t'' (session_run id [CreateSession ''x'' 5 1, RevokeSession ''y''] db1) =
       Some (AuthenticatedUser 1 ''owner'') \<and>
     validate_session_token id 2419200000001 ''t'' (session_run id [RevokeSession ''y''] db1) = None"
proof -
  obtain db1 where c: "create_session id ''t'' 0 1 demo_auth_db = Some db1"
    by (simp add: create_session_def Let_def demo_auth_db_def demo_db_def empty_db_def find_session_def
        sweep_sessions_def delete_rows_def exists_row_def)
  have u: "List.find (\<lambda>u. u_user_id u = 1) (users demo_auth_db) =
      Some \<lparr>u_user_id = 1, u_username = ''owner'', u_password_hash = ''pw''\<rparr>"
    by (simp add: demo_auth_db_def)
  have "list_all (\<lambda>e. id (op_token e) \<noteq> id ''t'' \<and> op_before 7 e) [CreateSession ''x'' 5 1, RevokeSession ''y'']"
    by simp
  from session_lifecycle [OF c u this]
  have "validate_session_token id 7 ''t'' (session_run id [CreateSession ''x'' 5 1, RevokeSession ''y''] db1) =
       Some (AuthenticatedUser 1 ''owner'')"
    by (simp add: microseconds_def SESSION_TTL_SECONDS_def id_def)
  moreover have "list_all (\<lambda>e. id (op_token e) \<noteq> id ''t'' \<and> op_before 2419200000001 e) [RevokeSession ''y'']"
    by simp
  from session_lifecycle [OF c u this]
  have "validate_session_token id 2419200000001 ''t'' (session_run id [RevokeSession ''y''] db1) = None"
    by (simp add: microseconds_def SESSION_TTL_SECONDS_def id_def)
  ultimately show ?thesis using c by blast
qed

lemma revoked_session_stays_out_witness:
  "validate_session_token id 7 ''t'' (session_run id [CreateSession ''x'' 5 1]
     (revoke_session id ''t'' demo_auth_db)) = None"
  by (rule revoked_session_stays_out) simp

lemma app_token_follows_app_witness:
  "validate_app_token id ''old'' (replace_app_token ''A1'' (id ''new'') demo_auth_db) = None \<and>
   validate_app_token id ''new'' (delete_app_cascade ''A1'' demo_auth_db) \<noteq> Some (AuthenticatedApp ''A1'')"
proof -
  have f: "find_app ''A1'' demo_auth_db = Some (demo_app ''A1'' ''notes'' 9000 Running)"
    by (simp add: find_app_def demo_auth_db_def demo_db_def empty_db_def demo_app_def)
  have v: "validate_app_token id ''old'' demo_auth_db = Some (AuthenticatedApp ''A1'')"
    using f by (simp add: validate_app_token_def) (simp add: demo_auth_db_def demo_app_def)
  show ?thesis using app_token_follows_app [OF demo_auth_db_ok f, of id "''new''" "''old''" "''new''"] v by simp
qed

end
