(* ===== verification/PublicPaths.thy ===== *)
theory PublicPaths
  imports Db
begin

text \<open>
  Public paths of an app (\<open>is_public_path\<close>, \<open>_is_unambiguous_path\<close> and
  \<open>is_public_request_path\<close> of \<open>core/apps.py\<close>): which request paths are let through without a
  login. \<open>urllib.parse.unquote\<close> with strict UTF-8 is written out: each maximal run of ASCII
  characters is percent-decoded and must then be valid UTF-8, other characters are kept.
\<close>

section \<open>Percent decoding\<close>

definition is_ascii :: "char \<Rightarrow> bool" where
  "is_ascii c \<longleftrightarrow> (of_char c :: nat) < 128"

definition hex_value :: "char \<Rightarrow> nat option" where
  "hex_value c =
     (let n = (of_char c :: nat) in
      if 48 \<le> n \<and> n \<le> 57 then Some (n - 48)
      else if 65 \<le> n \<and> n \<le> 70 then Some (n - 55)
      else if 97 \<le> n \<and> n \<le> 102 then Some (n - 87)
      else None)"

fun percent_decode :: "string \<Rightarrow> string" where
  "percent_decode [] = []"
| "percent_decode (c # cs) =
     (if c = CHR ''%'' then
        (case cs of
           a # b # rest \<Rightarrow>
             (case (hex_value a, hex_value b) of
                (Some x, Some y) \<Rightarrow> char_of (16 * x + y) # percent_decode rest
              | _ \<Rightarrow> c # percent_decode cs)
         | _ \<Rightarrow> c # percent_decode cs)
      else c # percent_decode cs)"

function unquote_runs :: "string \<Rightarrow> string option" where
  "unquote_runs [] = Some []"
| "unquote_runs (c # cs) =
     (if is_ascii c
      then (let run = c # takeWhile is_ascii cs; decoded = percent_decode run in
            if utf8_valid decoded
            then map_option (\<lambda>rest. decoded @ rest) (unquote_runs (dropWhile is_ascii cs))
            else None)
      else map_option (\<lambda>rest. c # rest) (unquote_runs cs))"
  by pat_completeness auto
termination
  by (relation "measure length") (auto simp: le_imp_less_Suc length_dropWhile_le)

text \<open>\<open>unquote(s, errors="strict")\<close>; None is a \<open>UnicodeDecodeError\<close>.\<close>

definition unquote_strict :: "string \<Rightarrow> string option" where
  "unquote_strict s = (if CHR ''%'' \<notin> set s then Some s else unquote_runs s)"

section \<open>The check\<close>

definition MAX_PUBLIC_PATH_CHECKS :: nat where
  "MAX_PUBLIC_PATH_CHECKS = 8"

text \<open>Printable ASCII except the backslash.\<close>

definition PUBLIC_PATH_ASCII_CHARACTERS :: "string" where
  "PUBLIC_PATH_ASCII_CHARACTERS =
     ''abcdefghijklmnopqrstuvwxyzABCDEFGHIJKLMNOPQRSTUVWXYZ0123456789'' @
     [CHR '' '', CHR ''!'', CHR 0x22, CHR ''#'', CHR ''$'', CHR ''%'', CHR ''&'', CHR 0x27] @
     ''()*+,-./:;<=>?@[]^_'' @ [CHR 0x60] @ ''{|}~''"

definition is_public_path :: "string list \<Rightarrow> string \<Rightarrow> bool" where
  "is_public_path public_paths request_path =
     list_ex (\<lambda>pp. request_path = pp \<or> startswith request_path (rstrip_char CHR ''/'' pp @ ''/''))
       public_paths"

definition is_unambiguous_path :: "string \<Rightarrow> bool" where
  "is_unambiguous_path request_path =
     (let rooted_path = startswith request_path ''/'' \<and> \<not> startswith request_path ''//'';
          allowed_characters =
            list_all (\<lambda>c. c \<in> set PUBLIC_PATH_ASCII_CHARACTERS \<or> \<not> is_ascii c) request_path;
          ordinary_segments =
            list_all (\<lambda>segment. before_char CHR '';'' segment \<notin> {''.'', ''..''})
              (split_on CHR ''/'' request_path)
      in rooted_path \<and> allowed_characters \<and> ordinary_segments)"

fun public_path_loop :: "nat \<Rightarrow> string list \<Rightarrow> string \<Rightarrow> bool" where
  "public_path_loop 0 public_paths request_path = False"
| "public_path_loop (Suc n) public_paths request_path =
     (if \<not> (is_unambiguous_path request_path \<and> is_public_path public_paths request_path) then False
      else (case unquote_strict request_path of
          None \<Rightarrow> False
        | Some decoded \<Rightarrow>
            if decoded = request_path then True else public_path_loop n public_paths decoded))"

definition is_public_request_path :: "string list \<Rightarrow> string \<Rightarrow> bool" where
  "is_public_request_path public_paths raw_path =
     (if ''/'' \<in> set public_paths then True
      else if CHR ''#'' \<in> set raw_path \<or> CHR ''?'' \<in> set raw_path then False
      else if \<not> list_all is_ascii raw_path then False
      else (case unquote_strict raw_path of
          None \<Rightarrow> False
        | Some request_path \<Rightarrow> public_path_loop MAX_PUBLIC_PATH_CHECKS public_paths request_path))"

section \<open>Facts\<close>

text \<open>What a chain of \<open>n\<close> decoders behind the router makes of a path.\<close>

fun decode_times :: "nat \<Rightarrow> string \<Rightarrow> string option" where
  "decode_times 0 s = Some s"
| "decode_times (Suc n) s = (case unquote_strict s of None \<Rightarrow> None | Some d \<Rightarrow> decode_times n d)"

lemma decode_times_fixpoint: "unquote_strict s = Some s \<Longrightarrow> decode_times n s = Some s"
  by (induction n) auto

text \<open>The loop accepts exactly when a fixed point is reached within the bound and every form up to
  it is public and unambiguous.\<close>

lemma public_path_loop_sound:
  assumes "public_path_loop n pps s"
  shows "\<exists>d. decode_times k s = Some d \<and> is_unambiguous_path d \<and> is_public_path pps d"
  using assms
proof (induction n arbitrary: s k)
  case (Suc n)
  then have here: "is_unambiguous_path s" "is_public_path pps s"
    by (auto split: if_splits)
  obtain d where d: "unquote_strict s = Some d" "d = s \<or> public_path_loop n pps d"
    using Suc.prems by (auto split: if_splits option.splits)
  show ?case
  proof (cases k)
    case 0
    with here show ?thesis by simp
  next
    case (Suc m)
    show ?thesis
    proof (cases "d = s")
      case True
      with d here decode_times_fixpoint show ?thesis by simp
    next
      case False
      with d Suc.IH [of d m] Suc show ?thesis by simp
    qed
  qed
qed simp

lemma public_path_loop_fixpoint:
  "public_path_loop n pps s \<Longrightarrow> \<exists>k<n. \<exists>d. decode_times k s = Some d \<and> unquote_strict d = Some d"
proof (induction n arbitrary: s)
  case (Suc n)
  then obtain d where d: "unquote_strict s = Some d" "d = s \<or> public_path_loop n pps d"
    by (auto split: if_splits option.splits)
  then show ?case
  proof (elim disjE)
    assume "public_path_loop n pps d"
    then obtain k e where "k < n" "decode_times k d = Some e" "unquote_strict e = Some e"
      using Suc.IH by blast
    with d show ?case by (intro exI [of _ "Suc k"] exI [of _ e]) simp
  qed auto
qed simp

lemma unambiguous_segments:
  assumes "is_unambiguous_path s" and "seg \<in> set (split_on CHR ''/'' s)"
  shows "before_char CHR '';'' seg \<noteq> ''.'' \<and> before_char CHR '';'' seg \<noteq> ''..''"
  using assms by (auto simp: is_unambiguous_path_def Let_def list_all_iff)

lemma before_char_prefix: "prefix (before_char c s) s"
  unfolding before_char_def by (metis prefixI takeWhile_dropWhile_id)

lemma unambiguous_no_dots:
  assumes "is_unambiguous_path s"
  shows "''.'' \<notin> set (split_on CHR ''/'' s) \<and> ''..'' \<notin> set (split_on CHR ''/'' s)"
proof -
  have "before_char CHR '';'' ''.'' = ''.''" "before_char CHR '';'' ''..'' = ''..''"
    by (simp_all add: before_char_def)
  with unambiguous_segments [OF assms] show ?thesis by fastforce
qed

lemma backslash_not_allowed:
  "CHR 0x5C \<notin> set PUBLIC_PATH_ASCII_CHARACTERS" "is_ascii CHR 0x5C"
  by code_simp+

lemma public_path_prefix:
  "is_public_path pps s \<longleftrightarrow> (\<exists>pp\<in>set pps. s = pp \<or> prefix (rstrip_char CHR ''/'' pp @ ''/'') s)"
  by (auto simp: is_public_path_def list_ex_iff startswith_prefix)

section \<open>Properties\<close>

text \<open>C5. A request let through without a login, to an app that is not wholly public, stays
  public however often the path is decoded behind the router: every further percent-decoding
  succeeds and gives a path that is under a public prefix on a segment boundary, has no dot
  segment and no doubled leading slash; and the decoding has settled after at most eight rounds.\<close>

theorem public_request_path_sound:
  assumes "is_public_request_path pps raw" and "''/'' \<notin> set pps"
  shows "(\<forall>n. \<exists>s. decode_times (Suc n) raw = Some s \<and>
      (\<exists>pp\<in>set pps. s = pp \<or> prefix (rstrip_char CHR ''/'' pp @ ''/'') s) \<and>
      ''.'' \<notin> set (split_on CHR ''/'' s) \<and> ''..'' \<notin> set (split_on CHR ''/'' s) \<and>
      prefix ''/'' s \<and> \<not> prefix ''//'' s \<and> CHR 0x5C \<notin> set s) \<and>
    (\<exists>k\<le>8. \<exists>s. decode_times k raw = Some s \<and> unquote_strict s = Some s)"
proof -
  obtain s0 where s0: "unquote_strict raw = Some s0" and loop: "public_path_loop 8 pps s0"
    using assms
    by (auto simp: is_public_request_path_def MAX_PUBLIC_PATH_CHECKS_def split: if_splits option.splits)
  have forms: "\<exists>s. decode_times (Suc n) raw = Some s \<and>
      (\<exists>pp\<in>set pps. s = pp \<or> prefix (rstrip_char CHR ''/'' pp @ ''/'') s) \<and>
      ''.'' \<notin> set (split_on CHR ''/'' s) \<and> ''..'' \<notin> set (split_on CHR ''/'' s) \<and>
      prefix ''/'' s \<and> \<not> prefix ''//'' s \<and> CHR 0x5C \<notin> set s" for n
  proof -
    obtain s where s: "decode_times n s0 = Some s" "is_unambiguous_path s" "is_public_path pps s"
      using public_path_loop_sound [OF loop] by blast
    have "CHR 0x5C \<notin> set s"
      using s(2) backslash_not_allowed by (auto simp: is_unambiguous_path_def Let_def list_all_iff)
    moreover have "prefix ''/'' s \<and> \<not> prefix ''//'' s"
      using s(2) by (simp add: is_unambiguous_path_def Let_def startswith_prefix)
    moreover have "decode_times (Suc n) raw = Some s" using s s0 by simp
    ultimately show ?thesis
      using unambiguous_no_dots [OF s(2)] s(3) [unfolded public_path_prefix] by blast
  qed
  obtain k s where "k < 8" "decode_times k s0 = Some s" "unquote_strict s = Some s"
    using public_path_loop_fixpoint [OF loop] by blast
  with s0 have "\<exists>k\<le>8. \<exists>s. decode_times k raw = Some s \<and> unquote_strict s = Some s"
    by (intro exI [of _ "Suc k"] conjI exI [of _ s]) simp_all
  with forms show ?thesis by blast
qed

theorem public_request_path_sound_witness:
  "is_public_request_path [''/pub/''] ''/pub/caf%25C3%25A9'' \<and>
   (\<exists>s. decode_times 3 ''/pub/caf%25C3%25A9'' = Some s \<and> ''..'' \<notin> set (split_on CHR ''/'' s)) \<and>
   \<not> is_public_request_path [''/pub/''] ''/pub/%252e%252e/admin''"
proof -
  have ok: "is_public_request_path [''/pub/''] ''/pub/caf%25C3%25A9''" by code_simp
  moreover have "\<not> is_public_request_path [''/pub/''] ''/pub/%252e%252e/admin''" by code_simp
  moreover have "\<exists>s. decode_times (Suc 2) ''/pub/caf%25C3%25A9'' = Some s \<and>
      ''..'' \<notin> set (split_on CHR ''/'' s)"
  proof -
    have "''/'' \<notin> set [''/pub/'']" by simp
    from conjunct1 [OF public_request_path_sound [OF ok this]] show ?thesis by blast
  qed
  ultimately show ?thesis by (simp add: numeral_3_eq_3 numeral_2_eq_2)
qed

end
