(* ===== verification/WebAuth.thy ===== *)
theory WebAuth
  imports Auth Domains PublicPaths Urls
begin

text \<open>
  \<open>web/auth/auth.py\<close> and \<open>web/auth/cookies.py\<close>: who is making a request, and when the session
  cookie may be used. A connection carries what the guards read of the ASGI scope. Headers are
  (name, value) pairs; cookies are what Litestar parsed from them. The hash, the clock and the
  host checks of \<open>urlparse\<close> are in \<open>auth_env\<close>.
\<close>

record auth_env =
  ae_hash :: "string \<Rightarrow> string"
  ae_now :: int
  ae_netloc_ok :: "string \<Rightarrow> bool"
  ae_status_token :: "string option"

datatype conn_kind = HttpConn | WebSocketConn | OtherConn

record conn =
  cn_kind :: conn_kind
  cn_method :: string
  cn_headers :: "(string \<times> string) list"
  cn_cookies :: "(string \<times> string) list"
  cn_netloc :: "string option"
  cn_base_netloc :: string
  cn_client :: "string option"
  cn_raw_path :: "string option"
  cn_path :: string
  cn_query :: string
  cn_zone :: "domain option"

text \<open>\<open>NavigationConfirmation\<close> is the subclass of \<open>NotAuthorizedException\<close> with the Continue page.\<close>

datatype auth_error = NotAuthorized string | NavigationConfirmation | NotFoundError

definition SESSION_COOKIE_NAME :: string where
  "SESSION_COOKIE_NAME = ''session_token''"

section \<open>Headers\<close>

text \<open>\<open>headers.get(name)\<close>: names are compared without case, the first value wins.\<close>

definition header_get :: "(string \<times> string) list \<Rightarrow> string \<Rightarrow> string option" where
  "header_get hs name = map_option snd (List.find (\<lambda>(k, v). lower k = lower name) hs)"

definition OPENHOST_AUTHORIZATION_HEADER :: string where
  "OPENHOST_AUTHORIZATION_HEADER = ''X-OpenHost-Authorization''"

definition get_bearer_tokens :: "(string \<times> string) list \<Rightarrow> string \<Rightarrow> string list" where
  "get_bearer_tokens hs name =
     filter (\<lambda>t. t \<noteq> [])
       (map (\<lambda>(k, v). py_strip (drop 7 v))
         (filter (\<lambda>(k, v). lower k = lower name \<and> startswith (lower v) ''bearer '') hs))"

definition get_bearer_token_if_set :: "conn \<Rightarrow> string option" where
  "get_bearer_token_if_set c =
     (let tokens = (if non_empty (header_get (cn_headers c) OPENHOST_AUTHORIZATION_HEADER) \<noteq> None
                    then get_bearer_tokens (cn_headers c) OPENHOST_AUTHORIZATION_HEADER
                    else get_bearer_tokens (cn_headers c) ''Authorization'')
      in case tokens of [] \<Rightarrow> None | t # ts \<Rightarrow> Some t)"

definition carries_openhost_credential :: "auth_env \<Rightarrow> db \<Rightarrow> (string \<times> string) list \<Rightarrow> bool" where
  "carries_openhost_credential e db hs \<longleftrightarrow>
     list_ex (\<lambda>t. is_openhost_credential (ae_hash e) (ae_now e) t db) (get_bearer_tokens hs ''Authorization'')"

section \<open>Origins\<close>

definition OPAQUE_ORIGIN_TOKEN :: string where
  "OPAQUE_ORIGIN_TOKEN = ''null''"

definition url_host :: "(string \<Rightarrow> bool) \<Rightarrow> string \<Rightarrow> string" where
  "url_host ok raw =
     (case urlparse ok raw of
        None \<Rightarrow> OPAQUE_ORIGIN_TOKEN
      | Some parsed \<Rightarrow>
          (case url_port parsed of
             None \<Rightarrow> OPAQUE_ORIGIN_TOKEN
           | Some port \<Rightarrow>
               (case non_empty (url_hostname parsed) of
                  None \<Rightarrow> (let s = lower (py_strip raw) in if s = [] then OPAQUE_ORIGIN_TOKEN else s)
                | Some host \<Rightarrow>
                    (case port of
                       None \<Rightarrow> host
                     | Some p \<Rightarrow> if p = 0 then host else host @ '':'' @ show_int p))))"

definition get_connection_origin :: "auth_env \<Rightarrow> conn \<Rightarrow> string option" where
  "get_connection_origin e c = map_option (url_host (ae_netloc_ok e)) (header_get (cn_headers c) ''Origin'')"

definition bad_origin_char :: "char \<Rightarrow> bool" where
  "bad_origin_char c \<longleftrightarrow> is_space_char c \<or> (of_char c :: nat) < 32 \<or> c = CHR 0x5C"

definition http_origin :: "(string \<Rightarrow> bool) \<Rightarrow> string \<Rightarrow> bool \<Rightarrow> (string \<times> string \<times> int) option" where
  "http_origin ok raw referer =
     (if list_ex bad_origin_char raw then None
      else (case urlparse ok raw of
          None \<Rightarrow> None
        | Some parsed \<Rightarrow>
            (case url_port parsed of
               None \<Rightarrow> None
             | Some port \<Rightarrow>
                 (case non_empty (url_hostname parsed) of
                    None \<Rightarrow> None
                  | Some host \<Rightarrow>
                      if up_scheme parsed \<notin> {''http'', ''https''} \<or> url_has_username parsed then None
                      else if \<not> referer \<and> list_ex (\<lambda>c. c \<in> set ''/?#'') (case after_str ''://'' raw of None \<Rightarrow> [] | Some r \<Rightarrow> r) then None
                      else Some (up_scheme parsed, host,
                             case port of Some p \<Rightarrow> p | None \<Rightarrow> if up_scheme parsed = ''http'' then 80 else 443)))))"

definition plain_http_zone :: "conn \<Rightarrow> domain option" where
  "plain_http_zone c = (case cn_zone c of Some z \<Rightarrow> if \<not> dn_tls z then Some z else None | None \<Rightarrow> None)"

section \<open>When the session cookie may be used\<close>

definition is_safe_for_cookie_auth_plain_http :: "auth_env \<Rightarrow> conn \<Rightarrow> auth_error + bool" where
  "is_safe_for_cookie_auth_plain_http e c =
     (case plain_http_zone c of
        None \<Rightarrow> Inr False
      | Some zone \<Rightarrow>
          (case http_origin (ae_netloc_ok e) (''http://'' @ cn_base_netloc c) False of
             None \<Rightarrow> Inr False
           | Some target \<Rightarrow>
               (case header_get (cn_headers c) ''Origin'' of
                  Some origin \<Rightarrow> Inr (http_origin (ae_netloc_ok e) origin False = Some target)
                | None \<Rightarrow>
                    (let referer = header_get (cn_headers c) ''Referer'';
                         referer_origin = (case referer of
                             None \<Rightarrow> None | Some r \<Rightarrow> http_origin (ae_netloc_ok e) r True);
                         accept = (case header_get (cn_headers c) ''Accept'' of None \<Rightarrow> [] | Some a \<Rightarrow> a)
                     in if referer_origin = Some target then Inr True
                        else if cn_method c = ''GET'' \<and> contains_str accept ''text/html''
                             \<and> \<not> contains_str accept ''application/json''
                             \<and> (referer = None \<or>
                                (case referer_origin of None \<Rightarrow> False | Some (s, host, p) \<Rightarrow> owns zone host))
                        then Inl NavigationConfirmation
                        else Inr False))))"

definition is_safe_for_cookie_auth_http :: "auth_env \<Rightarrow> conn \<Rightarrow> bool \<Rightarrow> auth_error + bool" where
  "is_safe_for_cookie_auth_http e c allow_cross_site_navigation =
     (case header_get (cn_headers c) ''Sec-Fetch-Site'' of
        None \<Rightarrow> is_safe_for_cookie_auth_plain_http e c
      | Some site \<Rightarrow>
          if site \<in> {''same-origin'', ''none''} then Inr True
          else Inr ((site = ''same-site'' \<or> (site = ''cross-site'' \<and> allow_cross_site_navigation)) \<and>
                    cn_method c \<in> {''GET'', ''HEAD''} \<and>
                    header_get (cn_headers c) ''Sec-Fetch-Dest'' = Some ''document''))"

definition is_safe_for_cookie_auth_websocket :: "auth_env \<Rightarrow> conn \<Rightarrow> bool" where
  "is_safe_for_cookie_auth_websocket e c \<longleftrightarrow> get_connection_origin e c = Some (cn_base_netloc c)"

definition is_safe_for_cookie_auth :: "auth_env \<Rightarrow> conn \<Rightarrow> bool \<Rightarrow> auth_error + bool" where
  "is_safe_for_cookie_auth e c allow_cross_site_navigation =
     (case cn_kind c of
        WebSocketConn \<Rightarrow> Inr (is_safe_for_cookie_auth_websocket e c)
      | HttpConn \<Rightarrow> is_safe_for_cookie_auth_http e c allow_cross_site_navigation
      | OtherConn \<Rightarrow> Inr False)"

section \<open>Authentication\<close>

definition session_cookie :: "conn \<Rightarrow> string option" where
  "session_cookie c = non_empty (map_of (cn_cookies c) SESSION_COOKIE_NAME)"

definition authenticate :: "auth_env \<Rightarrow> conn \<Rightarrow> db \<Rightarrow> accessor option" where
  "authenticate e c db =
     (let by_cookie = (case session_cookie c of
            None \<Rightarrow> None
          | Some t \<Rightarrow> validate_session_token (ae_hash e) (ae_now e) t db)
      in case by_cookie of
           Some user \<Rightarrow> Some user
         | None \<Rightarrow>
             (case get_bearer_token_if_set c of
                None \<Rightarrow> None
              | Some token \<Rightarrow>
                  (case validate_api_token (ae_hash e) (ae_now e) token db of
                     Some key \<Rightarrow> Some key
                   | None \<Rightarrow> validate_app_token (ae_hash e) token db)))"

definition bearer_api_token :: "auth_env \<Rightarrow> conn \<Rightarrow> db \<Rightarrow> bool" where
  "bearer_api_token e c db =
     (case get_bearer_token_if_set c of
        None \<Rightarrow> False
      | Some token \<Rightarrow> validate_api_token (ae_hash e) (ae_now e) token db \<noteq> None)"

definition verify_owner_auth :: "auth_env \<Rightarrow> conn \<Rightarrow> db \<Rightarrow> bool \<Rightarrow> auth_error + unit" where
  "verify_owner_auth e c db allow_cross_site_navigation =
     (case authenticate e c db of
        Some (AuthenticatedUser uid name) \<Rightarrow>
          (let safe = is_safe_for_cookie_auth e c allow_cross_site_navigation in
           if safe = Inr True then Inr ()
           else if bearer_api_token e c db then Inr ()
           else (case safe of
               Inl confirmation \<Rightarrow> Inl confirmation
             | Inr _ \<Rightarrow> Inl (NotAuthorized ''cookie authentication is only valid for safe-origin requests'')))
      | Some AuthenticatedAPIKey \<Rightarrow> Inr ()
      | _ \<Rightarrow> Inl (NotAuthorized ''User or API key authentication required''))"

definition verify_app_auth :: "auth_env \<Rightarrow> conn \<Rightarrow> db \<Rightarrow> auth_error + string" where
  "verify_app_auth e c db =
     (let refused = Inl (NotAuthorized ''app authentication required'') in
      case authenticate e c db of
        Some (AuthenticatedUser uid name) \<Rightarrow>
          (case get_connection_origin e c of
             None \<Rightarrow> refused
           | Some origin \<Rightarrow>
               (case get_app_from_hostname origin db of None \<Rightarrow> refused | Some app \<Rightarrow> Inr (a_app_id app)))
      | Some (AuthenticatedApp app_id) \<Rightarrow> Inr app_id
      | _ \<Rightarrow> refused)"

definition require_owner_auth :: "auth_env \<Rightarrow> conn \<Rightarrow> db \<Rightarrow> auth_error + unit" where
  "require_owner_auth e c db = verify_owner_auth e c db False"

definition require_owner_auth_allowing_cross_site_navigation :: "auth_env \<Rightarrow> conn \<Rightarrow> db \<Rightarrow> auth_error + unit" where
  "require_owner_auth_allowing_cross_site_navigation e c db = verify_owner_auth e c db True"

definition require_app_auth :: "auth_env \<Rightarrow> conn \<Rightarrow> db \<Rightarrow> auth_error + unit" where
  "require_app_auth e c db = bind_res (verify_app_auth e c db) (\<lambda>_. Inr ())"

definition require_auto_suspend_auth :: "auth_env \<Rightarrow> conn \<Rightarrow> auth_error + unit" where
  "require_auto_suspend_auth e c =
     (case ae_status_token e of
        None \<Rightarrow> Inl NotFoundError
      | Some expected \<Rightarrow>
          if get_bearer_token_if_set c = Some expected then Inr ()
          else Inl (NotAuthorized ''auto-suspend status token required''))"

text \<open>\<open>NavigationConfirmationRequired\<close> is a \<open>NotAuthorizedException\<close>, so it is caught here too.\<close>

definition require_owner_or_app_auth :: "auth_env \<Rightarrow> conn \<Rightarrow> db \<Rightarrow> auth_error + unit" where
  "require_owner_or_app_auth e c db =
     (case verify_owner_auth e c db False of
        Inr u \<Rightarrow> Inr u
      | Inl NotFoundError \<Rightarrow> Inl NotFoundError
      | Inl _ \<Rightarrow> bind_res (verify_app_auth e c db) (\<lambda>_. Inr ()))"

text \<open>\<open>verify_owner_ws\<close>: the close code sent after accepting, or None when the caller goes on.\<close>

definition verify_owner_ws :: "auth_env \<Rightarrow> conn \<Rightarrow> db \<Rightarrow> int option" where
  "verify_owner_ws e c db = (case verify_owner_auth e c db False of Inr _ \<Rightarrow> None | Inl _ \<Rightarrow> Some 4401)"

section \<open>The login redirect\<close>

definition is_unreserved :: "char \<Rightarrow> bool" where
  "is_unreserved c \<longleftrightarrow> is_lower_char c \<or> is_upper_char c \<or> is_digit_char c \<or> c \<in> set ''_.-~''"

definition upper_hex :: "nat \<Rightarrow> char" where
  "upper_hex d = (if d < 10 then char_of (48 + d) else char_of (55 + d))"

text \<open>\<open>quote(s, safe='')\<close> on the UTF-8 bytes.\<close>

definition quote_char :: "char \<Rightarrow> string" where
  "quote_char c =
     (if is_unreserved c then [c]
      else [CHR ''%'', upper_hex (of_char c div 16), upper_hex (of_char c mod 16)])"

definition quote_all :: "string \<Rightarrow> string" where
  "quote_all s = concat (map quote_char s)"

definition next_url_of :: "domain \<Rightarrow> string \<Rightarrow> string \<Rightarrow> string \<Rightarrow> string" where
  "next_url_of zone netloc path query =
     (let next_url = scheme zone @ ''://'' @ netloc @ path in if query = [] then next_url else next_url @ ''?'' @ query)"

definition build_login_url :: "domain \<Rightarrow> string \<Rightarrow> string \<Rightarrow> string \<Rightarrow> string" where
  "build_login_url zone netloc path query =
     scheme zone @ ''://'' @ host_with_request_port (name_no_port zone) netloc @ ''/login?next=''
       @ quote_all (next_url_of zone netloc path query)"

datatype auth_response = ContinuePage | AuthText401 | LoginRedirect string

definition auth_required_response ::
    "string \<Rightarrow> domain \<Rightarrow> string \<Rightarrow> string \<Rightarrow> string \<Rightarrow> auth_error \<Rightarrow> auth_response" where
  "auth_required_response http_method zone netloc path query exc =
     (if exc = NavigationConfirmation then ContinuePage
      else if http_method \<notin> {''GET'', ''HEAD''} then AuthText401
      else LoginRedirect (build_login_url zone netloc path query))"

section \<open>Session cookies\<close>

record cookie =
  ck_key :: string
  ck_value :: string
  ck_domain :: string
  ck_max_age :: int
  ck_secure :: bool
  ck_httponly :: bool
  ck_samesite :: string

definition clear_session_cookie :: "domain \<Rightarrow> cookie" where
  "clear_session_cookie zone = \<lparr>ck_key = SESSION_COOKIE_NAME, ck_value = [], ck_domain = name_no_port zone,
     ck_max_age = 0, ck_secure = dn_tls zone, ck_httponly = True, ck_samesite = ''lax''\<rparr>"

definition build_session_cookie :: "string \<Rightarrow> domain \<Rightarrow> cookie" where
  "build_session_cookie session_token zone = \<lparr>ck_key = SESSION_COOKIE_NAME, ck_value = session_token,
     ck_domain = name_no_port zone, ck_max_age = SESSION_TTL_SECONDS, ck_secure = dn_tls zone,
     ck_httponly = True, ck_samesite = ''lax''\<rparr>"

section \<open>Facts\<close>

definition cookie_user :: "auth_env \<Rightarrow> conn \<Rightarrow> db \<Rightarrow> accessor option" where
  "cookie_user e c db =
     (case session_cookie c of
        None \<Rightarrow> None
      | Some t \<Rightarrow> validate_session_token (ae_hash e) (ae_now e) t db)"

lemma validate_session_user:
  "validate_session_token hsh now t db = Some a \<Longrightarrow> \<exists>uid name. a = AuthenticatedUser uid name"
  by (auto simp: validate_session_token_def split: option.splits if_splits)

lemma validate_api_key: "validate_api_token hsh now t db = Some a \<Longrightarrow> a = AuthenticatedAPIKey"
  by (auto simp: validate_api_token_def split: option.splits if_splits)

lemma validate_app_app: "validate_app_token hsh t db = Some a \<Longrightarrow> \<exists>i. a = AuthenticatedApp i"
  by (auto simp: validate_app_token_def split: option.splits)

text \<open>What \<open>authenticate\<close> returns, by the scheme that produced it.\<close>

lemma authenticate_cases:
  obtains uid name where "cookie_user e c db = Some (AuthenticatedUser uid name)"
      "authenticate e c db = Some (AuthenticatedUser uid name)"
  | "cookie_user e c db = None" "bearer_api_token e c db" "authenticate e c db = Some AuthenticatedAPIKey"
  | t i where "cookie_user e c db = None" "\<not> bearer_api_token e c db" "get_bearer_token_if_set c = Some t"
      "validate_app_token (ae_hash e) t db = Some (AuthenticatedApp i)"
      "authenticate e c db = Some (AuthenticatedApp i)"
  | "cookie_user e c db = None" "\<not> bearer_api_token e c db" "authenticate e c db = None"
proof (cases "cookie_user e c db")
  case (Some a)
  then show ?thesis
    using that(1) validate_session_user
    by (fastforce simp: cookie_user_def authenticate_def split: option.splits)
next
  case none: None
  have a: "authenticate e c db =
      (case get_bearer_token_if_set c of
         None \<Rightarrow> None
       | Some token \<Rightarrow>
           (case validate_api_token (ae_hash e) (ae_now e) token db of
              Some key \<Rightarrow> Some key
            | None \<Rightarrow> validate_app_token (ae_hash e) token db))"
    using none unfolding cookie_user_def authenticate_def Let_def by (simp split: option.splits)
  show ?thesis
  proof (cases "get_bearer_token_if_set c")
    case None
    with none a show ?thesis by (intro that(4)) (simp_all add: bearer_api_token_def)
  next
    case t: (Some t)
    show ?thesis
    proof (cases "validate_api_token (ae_hash e) (ae_now e) t db")
      case (Some k)
      with none a t validate_api_key show ?thesis by (intro that(2)) (auto simp: bearer_api_token_def)
    next
      case no_api: None
      show ?thesis
      proof (cases "validate_app_token (ae_hash e) t db")
        case None
        with none a t no_api show ?thesis by (intro that(4)) (simp_all add: bearer_api_token_def)
      next
        case (Some k)
        then obtain i where "k = AuthenticatedApp i" using validate_app_app by blast
        with Some none a t no_api show ?thesis by (intro that(3)) (simp_all add: bearer_api_token_def)
      qed
    qed
  qed
qed

lemma verify_owner_auth_iff:
  "verify_owner_auth e c db nav = Inr u \<longleftrightarrow>
     (cookie_user e c db \<noteq> None \<and> is_safe_for_cookie_auth e c nav = Inr True) \<or> bearer_api_token e c db"
  by (rule authenticate_cases [of e c db])
    (auto simp: verify_owner_auth_def Let_def split: sum.splits)

text \<open>Only the plain-HTTP fallback asks for a confirmation, and only of a request with a valid session.\<close>

lemma safe_needs_zone:
  "is_safe_for_cookie_auth e c nav = Inl err \<Longrightarrow> err = NavigationConfirmation \<and> plain_http_zone c \<noteq> None"
  by (auto simp: is_safe_for_cookie_auth_def is_safe_for_cookie_auth_http_def
      is_safe_for_cookie_auth_plain_http_def Let_def split: conn_kind.splits option.splits if_splits)

lemma confirmation_needs_session:
  "verify_owner_auth e c db nav = Inl NavigationConfirmation \<Longrightarrow> cookie_user e c db \<noteq> None"
  by (rule authenticate_cases [of e c db])
    (auto simp: verify_owner_auth_def Let_def split: sum.splits if_splits)

section \<open>Percent encoding\<close>

lemma of_char_div_16: "(of_char c :: nat) div 16 < 16"
  using nat_of_char_less_256 [of c] by (simp add: div_less_iff_less_mult)

lemma hex_value_upper_hex: "d < 16 \<Longrightarrow> hex_value (upper_hex d) = Some d"
  by (auto simp: hex_value_def upper_hex_def)

lemma unreserved_not_percent: "is_unreserved c \<Longrightarrow> c \<noteq> CHR ''%''"
  by (auto simp: is_unreserved_def is_lower_char_def is_upper_char_def is_digit_char_def)

lemma percent_decode_quote_char: "percent_decode (quote_char c @ s) = c # percent_decode s"
proof (cases "is_unreserved c")
  case True
  then show ?thesis by (simp add: quote_char_def unreserved_not_percent)
next
  case False
  have "(of_char c :: nat) div 16 < 16" by (rule of_char_div_16)
  then have "hex_value (upper_hex (of_char c div 16)) = Some (of_char c div 16)"
    "hex_value (upper_hex (of_char c mod 16)) = Some (of_char c mod 16)"
    by (simp_all add: hex_value_upper_hex)
  moreover have "char_of (16 * (of_char c div 16) + of_char c mod 16 :: nat) = c" by simp
  ultimately show ?thesis using False by (simp add: quote_char_def)
qed

lemma percent_decode_quote_all: "percent_decode (quote_all s) = s"
  by (induction s) (simp_all add: quote_all_def percent_decode_quote_char)

lemma upper_hex_unreserved: "d < 16 \<Longrightarrow> is_unreserved (upper_hex d)"
  by (auto simp: upper_hex_def is_unreserved_def is_upper_char_def is_digit_char_def)

lemma quote_all_chars: "list_all (\<lambda>c. is_unreserved c \<or> c = CHR ''%'') (quote_all s)"
proof -
  have "list_all (\<lambda>c. is_unreserved c \<or> c = CHR ''%'') (quote_char c)" for c
    using of_char_div_16 [of c] by (simp add: quote_char_def upper_hex_unreserved)
  then show ?thesis by (induction s) (simp_all add: quote_all_def)
qed

section \<open>Properties\<close>

text \<open>The owner guard lets a request pass exactly when it carries a valid session cookie and is
  safe for cookie authentication, or carries a valid API key: an app's own token never counts, and an
  API key counts even beside a cookie that may not be used.\<close>

lemma owner_auth_exact:
  "verify_owner_auth e c db nav = Inr () \<longleftrightarrow>
     ((\<exists>t a. session_cookie c = Some t \<and> validate_session_token (ae_hash e) (ae_now e) t db = Some a) \<and>
        is_safe_for_cookie_auth e c nav = Inr True) \<or>
     (\<exists>t. get_bearer_token_if_set c = Some t \<and>
        validate_api_token (ae_hash e) (ae_now e) t db = Some AuthenticatedAPIKey)"
proof -
  have "bearer_api_token e c db \<longleftrightarrow> (\<exists>t. get_bearer_token_if_set c = Some t \<and>
      validate_api_token (ae_hash e) (ae_now e) t db = Some AuthenticatedAPIKey)"
    using validate_api_key by (fastforce simp: bearer_api_token_def split: option.splits)
  moreover have "cookie_user e c db \<noteq> None \<longleftrightarrow>
      (\<exists>t a. session_cookie c = Some t \<and> validate_session_token (ae_hash e) (ae_now e) t db = Some a)"
    by (auto simp: cookie_user_def split: option.splits)
  ultimately show ?thesis by (simp only: verify_owner_auth_iff)
qed

text \<open>C11. The cookie alone never authorises a request made by another site's or another app's page:
  without an API key, a request passes only if the browser says it is same-origin or typed by the user,
  or it is a full-page GET or HEAD (from another site only where the route allows it), or, on a domain
  without TLS, its Origin, or with no Origin its Referer, is exactly the router's own origin. A
  WebSocket passes only from the very host it connects to.\<close>

theorem cookie_needs_origin_evidence:
  assumes "verify_owner_auth e c db nav = Inr ()" and "\<not> bearer_api_token e c db"
  shows "(cn_kind c = WebSocketConn \<and> get_connection_origin e c = Some (cn_base_netloc c)) \<or>
    (cn_kind c = HttpConn \<and>
      (case header_get (cn_headers c) ''Sec-Fetch-Site'' of
         Some site \<Rightarrow>
           site = ''same-origin'' \<or> site = ''none'' \<or>
           ((site = ''same-site'' \<or> (site = ''cross-site'' \<and> nav)) \<and> cn_method c \<in> {''GET'', ''HEAD''} \<and>
            header_get (cn_headers c) ''Sec-Fetch-Dest'' = Some ''document'')
       | None \<Rightarrow>
           (\<exists>zone target. cn_zone c = Some zone \<and> \<not> dn_tls zone \<and>
              http_origin (ae_netloc_ok e) (''http://'' @ cn_base_netloc c) False = Some target \<and>
              (case header_get (cn_headers c) ''Origin'' of
                 Some origin \<Rightarrow> http_origin (ae_netloc_ok e) origin False = Some target
               | None \<Rightarrow> (\<exists>r. header_get (cn_headers c) ''Referer'' = Some r \<and>
                            http_origin (ae_netloc_ok e) r True = Some target)))))"
proof -
  have safe: "is_safe_for_cookie_auth e c nav = Inr True" using assms by (simp add: verify_owner_auth_iff)
  have plain: "\<exists>zone target. cn_zone c = Some zone \<and> \<not> dn_tls zone \<and>
              http_origin (ae_netloc_ok e) (''http://'' @ cn_base_netloc c) False = Some target \<and>
              (case header_get (cn_headers c) ''Origin'' of
                 Some origin \<Rightarrow> http_origin (ae_netloc_ok e) origin False = Some target
               | None \<Rightarrow> (\<exists>r. header_get (cn_headers c) ''Referer'' = Some r \<and>
                            http_origin (ae_netloc_ok e) r True = Some target))"
    if "is_safe_for_cookie_auth_plain_http e c = Inr True"
    using that
    by (auto simp: is_safe_for_cookie_auth_plain_http_def plain_http_zone_def Let_def
        split: option.splits if_splits)
  show ?thesis
    using safe plain
    by (auto simp: is_safe_for_cookie_auth_def is_safe_for_cookie_auth_http_def
        is_safe_for_cookie_auth_websocket_def split: conn_kind.splits option.splits if_splits)
qed

text \<open>A request acts as an app only if that app is installed, and either it presents the app's
  token, or it comes from the owner's browser with a valid session and an Origin that is that app's host
  under a configured domain.\<close>

lemma app_auth_sound:
  assumes "verify_app_auth e c db = Inr i"
  shows "\<exists>row. row \<in> set (apps db) \<and> a_app_id row = i \<and>
    ((\<exists>t. get_bearer_token_if_set c = Some t \<and>
        validate_app_token (ae_hash e) t db = Some (AuthenticatedApp i)) \<or>
     (\<exists>t a origin. session_cookie c = Some t \<and> validate_session_token (ae_hash e) (ae_now e) t db = Some a \<and>
        get_connection_origin e c = Some origin \<and> get_app_from_hostname origin db = Some row))"
proof (cases rule: authenticate_cases [of e c db])
  case (1 uid name)
  then obtain origin row where o: "get_connection_origin e c = Some origin"
    "get_app_from_hostname origin db = Some row" "a_app_id row = i"
    using assms by (auto simp: verify_app_auth_def Let_def split: option.splits)
  then have "row \<in> set (apps db)"
    by (auto simp: get_app_from_hostname_def find_app_by_name_def split: option.splits dest: find_SomeD)
  moreover have "\<exists>t a. session_cookie c = Some t \<and> validate_session_token (ae_hash e) (ae_now e) t db = Some a"
    using 1(1) by (auto simp: cookie_user_def split: option.splits)
  ultimately show ?thesis using o by blast
next
  case (3 t j)
  then have j: "j = i" using assms by (simp add: verify_app_auth_def Let_def)
  obtain row where "find_app i db = Some row" using validate_app_token_SomeD [OF 3(4)] j by auto
  then show ?thesis using 3 j find_app_SomeD by blast
qed (use assms in \<open>simp_all add: verify_app_auth_def Let_def\<close>)

text \<open>The login redirect loses nothing of where the visitor was going: the \<open>next\<close> parameter uses
  only characters that need no further escaping, so it ends where the URL ends, and decoding it gives
  back the scheme, host, path and query that were asked for.\<close>

lemma login_url_keeps_destination:
  "\<exists>base quoted. build_login_url zone netloc path query = base @ ''/login?next='' @ quoted \<and>
     base = scheme zone @ ''://'' @ host_with_request_port (name_no_port zone) netloc \<and>
     list_all (\<lambda>c. is_unreserved c \<or> c = CHR ''%'') quoted \<and>
     percent_decode quoted = scheme zone @ ''://'' @ netloc @ path @ (if query = [] then [] else ''?'' @ query)"
proof -
  have "next_url_of zone netloc path query =
      scheme zone @ ''://'' @ netloc @ path @ (if query = [] then [] else ''?'' @ query)"
    by (simp add: next_url_of_def)
  then show ?thesis
    unfolding build_login_url_def
    using percent_decode_quote_all [of "next_url_of zone netloc path query"] quote_all_chars
    by (intro exI conjI) (auto simp only: append_assoc)
qed

section \<open>Concrete instances\<close>

definition demo_auth_env :: auth_env where
  "demo_auth_env = \<lparr>ae_hash = id, ae_now = 0, ae_netloc_ok = (\<lambda>_. True), ae_status_token = None\<rparr>"

definition demo_web_db :: db where
  "demo_web_db = demo_auth_db\<lparr>sessions := [\<lparr>s_token_hash = ''tok'', s_user_id = 1, s_expires_at = 100\<rparr>]\<rparr>"

definition demo_conn :: "(string \<times> string) list \<Rightarrow> conn" where
  "demo_conn hs = \<lparr>cn_kind = HttpConn, cn_method = ''GET'', cn_headers = hs,
     cn_cookies = [(''session_token'', ''tok'')], cn_netloc = Some ''notes.example.com'',
     cn_base_netloc = ''notes.example.com'', cn_client = Some ''127.0.0.1'', cn_raw_path = Some ''/'',
     cn_path = ''/'', cn_query = [], cn_zone = None\<rparr>"

definition navigation_headers :: "(string \<times> string) list" where
  "navigation_headers = [(''sec-fetch-site'', ''cross-site''), (''sec-fetch-dest'', ''document'')]"

lemma navigation_header_values:
  "header_get navigation_headers ''Sec-Fetch-Site'' = Some ''cross-site''"
  "header_get navigation_headers ''Sec-Fetch-Dest'' = Some ''document''"
  "header_get navigation_headers OPENHOST_AUTHORIZATION_HEADER = None"
  "get_bearer_tokens navigation_headers ''Authorization'' = []"
  by code_simp+

lemma navigation_no_bearer: "get_bearer_token_if_set (demo_conn navigation_headers) = None"
  by (simp add: get_bearer_token_if_set_def demo_conn_def navigation_header_values non_empty_def)

lemma demo_cookie_user: "cookie_user demo_auth_env (demo_conn hs) demo_web_db = Some (AuthenticatedUser 1 ''owner'')"
  by (simp add: cookie_user_def session_cookie_def demo_conn_def SESSION_COOKIE_NAME_def non_empty_def
      validate_session_token_def find_session_def demo_auth_env_def demo_web_db_def demo_auth_db_def)

lemma cookie_needs_origin_evidence_witness:
  "verify_owner_auth demo_auth_env (demo_conn navigation_headers) demo_web_db True = Inr () \<and>
   header_get (cn_headers (demo_conn navigation_headers)) ''Sec-Fetch-Dest'' = Some ''document''"
proof -
  have "is_safe_for_cookie_auth demo_auth_env (demo_conn navigation_headers) True = Inr True"
    by (simp add: is_safe_for_cookie_auth_def is_safe_for_cookie_auth_http_def demo_conn_def navigation_header_values)
  then have v: "verify_owner_auth demo_auth_env (demo_conn navigation_headers) demo_web_db True = Inr ()"
    by (simp add: verify_owner_auth_iff demo_cookie_user)
  have "\<not> bearer_api_token demo_auth_env (demo_conn navigation_headers) demo_web_db"
    by (simp add: bearer_api_token_def navigation_no_bearer)
  from cookie_needs_origin_evidence [OF v this] v show ?thesis
    by (simp add: demo_conn_def navigation_header_values)
qed

definition app_headers :: "(string \<times> string) list" where
  "app_headers = [(''x-openhost-authorization'', ''Bearer old'')]"

lemma app_header_values:
  "header_get app_headers OPENHOST_AUTHORIZATION_HEADER = Some ''Bearer old''"
  "get_bearer_tokens app_headers OPENHOST_AUTHORIZATION_HEADER = [''old'']"
  by code_simp+

lemma app_auth_sound_witness:
  "verify_app_auth demo_auth_env (demo_conn app_headers\<lparr>cn_cookies := []\<rparr>) demo_auth_db = Inr ''A1'' \<and>
   (\<exists>row. row \<in> set (apps demo_auth_db) \<and> a_app_id row = ''A1'')"
proof -
  have t: "get_bearer_token_if_set (demo_conn app_headers\<lparr>cn_cookies := []\<rparr>) = Some ''old''"
    by (simp add: get_bearer_token_if_set_def demo_conn_def app_header_values non_empty_def)
  have a: "validate_app_token id ''old'' demo_auth_db = Some (AuthenticatedApp ''A1'')"
    by (simp add: validate_app_token_def find_app_def demo_auth_db_def demo_db_def empty_db_def demo_app_def)
  have k: "validate_api_token id 0 ''old'' demo_auth_db = None"
    by (simp add: validate_api_token_def demo_auth_db_def demo_db_def empty_db_def)
  have "authenticate demo_auth_env (demo_conn app_headers\<lparr>cn_cookies := []\<rparr>) demo_auth_db = Some (AuthenticatedApp ''A1'')"
    by (simp add: authenticate_def session_cookie_def t a k demo_auth_env_def non_empty_def)
  then have v: "verify_app_auth demo_auth_env (demo_conn app_headers\<lparr>cn_cookies := []\<rparr>) demo_auth_db = Inr ''A1''"
    by (simp add: verify_app_auth_def)
  from app_auth_sound [OF v] v show ?thesis by blast
qed

end
