(* ===== verification/AppDefinitions.thy ===== *)
theory AppDefinitions
  imports AppLifecycle Urls WebAuth PublicPaths
begin

text \<open>
  App definitions: the apps of an instance as a document that another instance can load
  (\<open>core/app_definitions.py\<close>, \<open>core/app_definition_loader.py\<close> and the routes of both under
  \<open>web/routes/api\<close>). The document is the value that the JSON or YAML text stands for; the nodes of a YAML text
  are an argument, with what the loader's own hooks refuse of them.
\<close>

section \<open>The document\<close>

datatype export_mode = Sharing | Private

fun mode_text :: "export_mode \<Rightarrow> string" where
  "mode_text Sharing = ''sharing''"
| "mode_text Private = ''private''"

definition parse_export_mode :: "pyval \<Rightarrow> export_mode option" where
  "parse_export_mode body =
     (case body of
        PDict d \<Rightarrow>
          (let mode = dict_lookup d ''mode'' (PStr ''sharing'')
           in if mode = PStr ''sharing'' then Some Sharing
              else if mode = PStr ''private'' then Some Private else None)
      | _ \<Rightarrow> None)"

datatype app_source =
    RemoteSource string "string option"
  | BuiltinSource string
  | UnavailableSource string

record published_port =
  pp_label :: string
  pp_container_port :: int
  pp_host_port :: int

record app_definition =
  ad_name :: string
  ad_source :: app_source
  ad_port_mappings :: "published_port list"

record platform_api_token =
  pt_name :: string
  pt_token_hash :: string
  pt_expires_at :: "string option"

text \<open>\<open>DefinitionExport\<close>, and \<open>PrivateDefinitionExport\<close> where there are tokens.\<close>

record definition_export =
  dx_mode :: export_mode
  dx_apps :: "app_definition list"
  dx_platform_api_tokens :: "platform_api_token list option"

text \<open>
  The nodes PyYAML's parser finds. \<open>Y_Broken\<close> is where the text stops being YAML, \<open>Y_Reused_Anchor\<close> a node whose
  anchor was used before. Scalars have the tag that is written or that YAML resolves for them.
\<close>

datatype yaml =
    Y_Scalar string string
  | Y_Sequence string "yaml list"
  | Y_Mapping string "(yaml \<times> yaml) list"
  | Y_Alias
  | Y_Broken
  | Y_Reused_Anchor

text \<open>
  What the code asks of its surroundings: \<open>urlparse\<close>'s check of the host, whether a text (its percent-escapes
  undone) has whitespace outside ASCII, the node of a text with whether the stream ends after it, Python's
  reading of an integer scalar, ISO timestamps with a time zone, \<open>Path.resolve\<close> and \<open>is_file\<close>.
\<close>

record def_env =
  fe_auth :: auth_env
  fe_netloc_ok :: "string \<Rightarrow> bool"
  fe_wide_space :: "string \<Rightarrow> bool"
  fe_yaml :: "string \<Rightarrow> (yaml \<times> bool) option"
  fe_yaml_int :: "string \<Rightarrow> int option"
  fe_aware :: "string \<Rightarrow> int option"
  fe_isoformat :: "int \<Rightarrow> string"
  fe_resolve :: "string \<Rightarrow> string"
  fe_is_file :: "string \<Rightarrow> bool"
  fe_apps_dir :: string
  fe_next_id :: int
  fe_now :: int

section \<open>Where an app comes from (\<open>portable_source\<close>)\<close>

text \<open>\<open>PurePosixPath\<close>: its root and its parts.\<close>

definition posix_path :: "string \<Rightarrow> string \<times> string list" where
  "posix_path s =
     (if startswith s ''//'' \<and> \<not> startswith s ''///'' then ''//'' else if startswith s ''/'' then ''/'' else [],
      filter (\<lambda>p. p \<noteq> [] \<and> p \<noteq> ''.'') (split_on CHR ''/'' s))"

definition posix_parent :: "string \<times> string list \<Rightarrow> string \<times> string list" where
  "posix_parent p = (fst p, butlast (snd p))"

definition posix_name :: "string \<times> string list \<Rightarrow> string" where
  "posix_name p = (if snd p = [] then [] else last (snd p))"

text \<open>\<open>[A-Za-z0-9_-]+\<close>, the whole string.\<close>

definition is_identifier :: "string \<Rightarrow> bool" where
  "is_identifier s \<longleftrightarrow>
     s \<noteq> [] \<and> list_all (\<lambda>c. is_lower_char c \<or> is_upper_char c \<or> is_digit_char c \<or> c = CHR ''_'' \<or> c = CHR ''-'') s"

definition has_space :: "def_env \<Rightarrow> string \<Rightarrow> bool" where
  "has_space E s \<longleftrightarrow> list_ex is_space_char s \<or> fe_wide_space E s"

definition PORTABLE_SCHEMES :: "string list" where
  "PORTABLE_SCHEMES = [''https'', ''http'', ''git'']"

definition clean_path :: "string \<Rightarrow> string" where
  "clean_path path = join_with ''/'' (map (before_char CHR '';'') (split_on CHR ''/'' path))"

definition portable_remote :: "def_env \<Rightarrow> string \<Rightarrow> url_parts \<Rightarrow> app_source" where
  "portable_remote E repo_url parsed =
     (case url_hostname parsed of
        None \<Rightarrow> UnavailableSource ''unknown''
      | Some host \<Rightarrow>
          if host = [] \<or> list_ex (\<lambda>c. c \<in> set [CHR 0x5C, CHR ''/'', CHR ''%'']) host \<or> has_space E repo_url
          then UnavailableSource ''unknown''
          else if \<not> contains_str repo_url ''://'' \<and> CHR ''.'' \<notin> set host then UnavailableSource ''local''
          else (case url_port parsed of
              None \<Rightarrow> UnavailableSource ''unknown''
            | Some port \<Rightarrow>
                (let netloc = (if CHR '':'' \<in> set host then ''['' @ host @ '']'' else host) @
                              (case port of None \<Rightarrow> [] | Some p \<Rightarrow> '':'' @ show_int p);
                     sanitized = geturl (parsed\<lparr>up_netloc := netloc, up_path := clean_path (up_path parsed),
                                               up_params := [], up_query := [], up_fragment := []\<rparr>)
                 in case parse_repo_url (fe_netloc_ok E) sanitized of
                      None \<Rightarrow> UnavailableSource ''unknown''
                    | Some (base, ref) \<Rightarrow> RemoteSource base ref)))"

definition portable_source :: "def_env \<Rightarrow> string option \<Rightarrow> string \<Rightarrow> app_source" where
  "portable_source E stored bundled =
     (case non_empty stored of
        None \<Rightarrow> UnavailableSource ''unknown''
      | Some repo_url \<Rightarrow>
          if hd repo_url \<in> set ''/.~'' then UnavailableSource ''local''
          else (case urlparse (fe_netloc_ok E) repo_url of
              None \<Rightarrow> UnavailableSource ''unknown''
            | Some original \<Rightarrow>
                if up_scheme original = ''file''
                then (let path = posix_path (percent_decode (up_path original))
                      in if up_netloc original = [] \<and> posix_parent path = posix_path bundled \<and> is_identifier (posix_name path)
                         then BuiltinSource (posix_name path) else UnavailableSource ''local'')
                else if is_ssh_url (fe_netloc_ok E) repo_url \<noteq> Some False \<or>
                    (contains_str repo_url ''://'' \<and> up_scheme original \<notin> set PORTABLE_SCHEMES)
                then UnavailableSource ''unknown''
                else (case (if up_scheme original \<in> set PORTABLE_SCHEMES then Some original
                            else urlparse (fe_netloc_ok E) (''https://'' @ repo_url)) of
                    None \<Rightarrow> UnavailableSource ''unknown''
                  | Some parsed \<Rightarrow> portable_remote E repo_url parsed)))"

section \<open>Exporting\<close>

definition published_ports :: "db \<Rightarrow> string \<Rightarrow> published_port list" where
  "published_ports db app_id =
     map (\<lambda>r. \<lparr>pp_label = p_label r, pp_container_port = p_container_port r, pp_host_port = p_host_port r\<rparr>)
       (filter (\<lambda>r. p_app_id r = app_id) (sort_key p_label (app_port_mappings db)))"

definition snapshot :: "def_env \<Rightarrow> db \<Rightarrow> export_mode \<Rightarrow> definition_export" where
  "snapshot E db mode =
     \<lparr>dx_mode = mode,
      dx_apps = map (\<lambda>r. \<lparr>ad_name = a_name r, ad_source = portable_source E (a_repo_url r) (fe_apps_dir E),
                          ad_port_mappings = published_ports db (a_app_id r)\<rparr>) (sort_key a_name (apps db)),
      dx_platform_api_tokens =
        (if mode = Private
         then Some (map (\<lambda>r. \<lparr>pt_name = k_name r, pt_token_hash = k_token_hash r,
                              pt_expires_at = map_option (fe_isoformat E) (k_expires_at r)\<rparr>)
                        (sort_key k_name (sort_key k_token_hash (api_tokens db))))
         else None)\<rparr>"

definition opt_text :: "string option \<Rightarrow> pyval" where
  "opt_text x = (case x of None \<Rightarrow> PNone | Some s \<Rightarrow> PStr s)"

text \<open>\<open>attr.asdict\<close> of the document.\<close>

fun source_value :: "app_source \<Rightarrow> pyval" where
  "source_value (RemoteSource url ref) =
     PDict [(''repo_url'', PStr url), (''ref'', opt_text ref), (''kind'', PStr ''remote'')]"
| "source_value (BuiltinSource identifier) = PDict [(''identifier'', PStr identifier), (''kind'', PStr ''builtin'')]"
| "source_value (UnavailableSource kind) = PDict [(''kind'', PStr kind)]"

definition port_value :: "published_port \<Rightarrow> pyval" where
  "port_value p =
     PDict [(''label'', PStr (pp_label p)), (''container_port'', PInt (pp_container_port p)),
            (''host_port'', PInt (pp_host_port p))]"

definition app_value :: "app_definition \<Rightarrow> pyval" where
  "app_value a =
     PDict [(''name'', PStr (ad_name a)), (''source'', source_value (ad_source a)),
            (''port_mappings'', PList (map port_value (ad_port_mappings a)))]"

definition token_value :: "platform_api_token \<Rightarrow> pyval" where
  "token_value t =
     PDict [(''name'', PStr (pt_name t)), (''token_hash'', PStr (pt_token_hash t)),
            (''expires_at'', opt_text (pt_expires_at t))]"

definition definition_value :: "definition_export \<Rightarrow> pyval" where
  "definition_value d =
     PDict ([(''mode'', PStr (mode_text (dx_mode d))), (''apps'', PList (map app_value (dx_apps d))),
             (''schema_version'', PInt 2)] @
            (case dx_platform_api_tokens d of
               None \<Rightarrow> []
             | Some ts \<Rightarrow> [(''platform_api_tokens'', PList (map token_value ts))]))"

definition export_app_definitions :: "def_env \<Rightarrow> db \<Rightarrow> export_mode \<Rightarrow> pyval" where
  "export_app_definitions E db mode = definition_value (snapshot E db mode)"

section \<open>Reading YAML (\<open>_DefinitionLoader\<close>)\<close>

definition MAX_DEFINITION_BYTES :: nat where
  "MAX_DEFINITION_BYTES = 1024 * 1024"

text \<open>What is raised while the text is read; any other exception than a \<open>DefinitionError\<close> is replaced later.\<close>

datatype load_exn = DefinitionError string | Other_Exception

definition yaml_tag :: "string \<Rightarrow> string" where
  "yaml_tag t = ''tag:yaml.org,2002:'' @ t"

fun children :: "yaml \<Rightarrow> yaml list" where
  "children (Y_Sequence t xs) = xs"
| "children (Y_Mapping t ps) = concat (map (\<lambda>(k, v). [k, v]) ps)"
| "children _ = []"

lemma children_size: "size_list size (children x) \<le> size x"
proof (cases x)
  case (Y_Mapping t ps)
  have "size_list size (concat (map (\<lambda>(k, v). [k, v]) ps)) \<le> size_list (size_prod size size) ps"
    by (induction ps) auto
  with Y_Mapping show ?thesis by simp
qed simp_all

text \<open>\<open>compose_node\<close> before it lets PyYAML compose the node: \<open>nodes\<close> counts this one.\<close>

definition enter_node :: "yaml \<Rightarrow> nat \<Rightarrow> nat \<Rightarrow> load_exn + unit" where
  "enter_node x depth nodes =
     (if x = Y_Broken then Inl Other_Exception
      else if x = Y_Alias then Inl (DefinitionError ''YAML aliases are not supported.'')
      else if 32 < depth \<or> 20000 < nodes then Inl (DefinitionError ''YAML structure exceeds the depth or node limit.'')
      else if x = Y_Reused_Anchor then Inl Other_Exception
      else Inr ())"

definition char_count :: "string \<Rightarrow> nat" where
  "char_count s = length (filter (\<lambda>c. \<not> is_cont c) s)"

definition NODE_TAGS :: "string list" where
  "NODE_TAGS = map yaml_tag [''map'', ''seq'', ''str'', ''int'', ''bool'', ''null'']"

fun node_tag :: "yaml \<Rightarrow> string" where
  "node_tag (Y_Scalar t v) = t"
| "node_tag (Y_Sequence t xs) = t"
| "node_tag (Y_Mapping t ps) = t"
| "node_tag _ = []"

text \<open>And after it: a lone surrogate, which UTF-8 does not encode, is in the model its three bytes.\<close>

definition leave_node :: "yaml \<Rightarrow> load_exn + unit" where
  "leave_node x =
     bind_res (case x of
         Y_Scalar t v \<Rightarrow>
           if t = yaml_tag ''null'' \<and> v \<notin> {'''', ''~'', ''null'', ''Null'', ''NULL''}
           then Inl (DefinitionError ''Invalid YAML null value.'')
           else if t = yaml_tag ''int'' \<and> 64 < char_count v
           then Inl (DefinitionError ''YAML integer scalars must be at most 64 characters.'')
           else if \<not> utf8_valid v then Inl Other_Exception
           else Inr ()
       | _ \<Rightarrow> Inr ()) (\<lambda>_.
     if node_tag x \<in> set NODE_TAGS then Inr ()
     else Inl (DefinitionError ''Unsupported YAML tag or value type.''))"

text \<open>The nodes of one level in order, each with what is below it; the result is the number of nodes so far.\<close>

function compose_nodes :: "nat \<Rightarrow> yaml list \<Rightarrow> nat \<Rightarrow> load_exn + nat" where
  "compose_nodes depth [] nodes = Inr nodes"
| "compose_nodes depth (x # xs) nodes =
     bind_res (enter_node x depth (nodes + 1)) (\<lambda>_.
     bind_res (compose_nodes (depth + 1) (children x) (nodes + 1)) (\<lambda>n.
     bind_res (leave_node x) (\<lambda>_. compose_nodes depth xs n)))"
  by pat_completeness auto
termination
  by (relation "measure (\<lambda>(depth, xs, nodes). size_list size xs)") (use children_size in \<open>auto simp: le_imp_less_Suc trans_le_add1\<close>)

section \<open>Constructing values\<close>

definition BOOL_WORDS :: "(string \<times> bool) list" where
  "BOOL_WORDS =
     [(''yes'', True), (''no'', False), (''true'', True), (''false'', False), (''on'', True), (''off'', False)]"

definition is_container :: "yaml \<Rightarrow> bool" where
  "is_container x \<longleftrightarrow> node_tag x = yaml_tag ''map'' \<or> node_tag x = yaml_tag ''seq''"

text \<open>
  \<open>construct_object\<close> as far as it goes at once: scalars are converted; a mapping or sequence leaves a generator,
  which runs when all of the level before it are done.
\<close>

definition construct_now :: "def_env \<Rightarrow> yaml \<Rightarrow> load_exn + unit" where
  "construct_now E x =
     (if is_container x then Inr ()
      else (case x of
          Y_Scalar t v \<Rightarrow>
            if (t = yaml_tag ''int'' \<and> fe_yaml_int E v = None) \<or> (t = yaml_tag ''bool'' \<and> map_of BOOL_WORDS (lower v) = None)
            then Inl Other_Exception else Inr ()
        | _ \<Rightarrow> Inl Other_Exception))"

fun construct_all :: "def_env \<Rightarrow> yaml list \<Rightarrow> load_exn + unit" where
  "construct_all E [] = Inr ()"
| "construct_all E (x # xs) = bind_res (construct_now E x) (\<lambda>_. construct_all E xs)"

text \<open>The loop of \<open>construct_mapping\<close>, with the keys it has seen.\<close>

fun construct_pairs :: "def_env \<Rightarrow> string list \<Rightarrow> (yaml \<times> yaml) list \<Rightarrow> load_exn + unit" where
  "construct_pairs E seen [] = Inr ()"
| "construct_pairs E seen ((k, v) # ps) =
     (case k of
        Y_Scalar t key \<Rightarrow>
          if t \<noteq> yaml_tag ''str''
          then Inl (DefinitionError ''YAML mapping keys must be strings; merge keys are not supported.'')
          else if key \<in> set seen then Inl (DefinitionError ''Duplicate YAML mapping keys are not supported.'')
          else bind_res (construct_now E v) (\<lambda>_. construct_pairs E (key # seen) ps)
      | _ \<Rightarrow> Inl (DefinitionError ''YAML mapping keys must be strings; merge keys are not supported.''))"

definition construct_generator :: "def_env \<Rightarrow> yaml \<Rightarrow> load_exn + unit" where
  "construct_generator E x =
     (if node_tag x = yaml_tag ''seq''
      then (case x of Y_Sequence t xs \<Rightarrow> construct_all E xs | _ \<Rightarrow> Inl Other_Exception)
      else (case x of
          Y_Mapping t ps \<Rightarrow> construct_pairs E [] ps
        | Y_Sequence t xs \<Rightarrow> if xs = [] then Inr () else Inl Other_Exception
        | Y_Scalar t v \<Rightarrow> if v = [] then Inr () else Inl Other_Exception
        | _ \<Rightarrow> Inl Other_Exception))"

fun run_generators :: "def_env \<Rightarrow> yaml list \<Rightarrow> load_exn + unit" where
  "run_generators E [] = Inr ()"
| "run_generators E (x # xs) = bind_res (construct_generator E x) (\<lambda>_. run_generators E xs)"

text \<open>The nodes whose generators the generator of a node leaves.\<close>

fun generators_below :: "yaml \<Rightarrow> yaml list" where
  "generators_below (Y_Sequence t xs) = filter is_container xs"
| "generators_below (Y_Mapping t ps) = filter is_container (map snd ps)"
| "generators_below _ = []"

lemma generators_size: "size_list size (generators_below x) \<le> size x"
proof (cases x)
  case (Y_Mapping t ps)
  have "size_list size (filter is_container (map snd ps)) \<le> size_list (size_prod size size) ps"
    by (induction ps) auto
  with Y_Mapping show ?thesis by simp
next
  case (Y_Sequence t xs)
  have "size_list size (filter is_container xs) \<le> size_list size xs" by (induction xs) auto
  with Y_Sequence show ?thesis by simp
qed simp_all

lemma generators_level:
  "xs \<noteq> [] \<Longrightarrow> size_list size (concat (map generators_below xs)) < size_list size xs"
proof (induction xs)
  case (Cons x xs)
  have "size_list size (generators_below x @ concat (map generators_below xs)) =
      size_list size (generators_below x) + size_list size (concat (map generators_below xs))"
    by (simp add: size_list_append)
  with Cons generators_size [of x] show ?case by (cases xs) auto
qed simp

function construct_levels :: "def_env \<Rightarrow> yaml list \<Rightarrow> load_exn + unit" where
  "construct_levels E xs =
     (if xs = [] then Inr ()
      else bind_res (run_generators E xs) (\<lambda>_. construct_levels E (concat (map generators_below xs))))"
  by pat_completeness auto
termination
  by (relation "measure (\<lambda>(E, xs). size_list size xs)") (use generators_level in auto)

declare construct_levels.simps [simp del]

text \<open>The value, where nothing was raised.\<close>

fun scalar_value :: "def_env \<Rightarrow> string \<Rightarrow> string \<Rightarrow> pyval" where
  "scalar_value E t v =
     (if t = yaml_tag ''str'' then PStr v
      else if t = yaml_tag ''int'' then PInt (the (fe_yaml_int E v))
      else if t = yaml_tag ''bool'' then PBool (the (map_of BOOL_WORDS (lower v)))
      else if t = yaml_tag ''map'' then PDict []
      else PNone)"

fun key_text :: "yaml \<Rightarrow> string" where
  "key_text (Y_Scalar t v) = v"
| "key_text _ = []"

fun yaml_value :: "def_env \<Rightarrow> yaml \<Rightarrow> pyval" where
  "yaml_value E (Y_Scalar t v) = scalar_value E t v"
| "yaml_value E (Y_Sequence t xs) = (if t = yaml_tag ''map'' then PDict [] else PList (map (yaml_value E) xs))"
| "yaml_value E (Y_Mapping t ps) = PDict (map (\<lambda>(k, v). (key_text k, yaml_value E v)) ps)"
| "yaml_value E _ = PNone"

text \<open>\<open>yaml.load\<close>: an empty stream is None, a second document an error after the first is composed.\<close>

definition yaml_load :: "def_env \<Rightarrow> string \<Rightarrow> load_exn + pyval" where
  "yaml_load E content =
     (case fe_yaml E content of
        None \<Rightarrow> Inr PNone
      | Some (node, ends) \<Rightarrow>
          bind_res (compose_nodes 1 [node] 0) (\<lambda>_.
            if \<not> ends then Inl Other_Exception
            else bind_res (construct_now E node) (\<lambda>_.
                 bind_res (construct_levels E (filter is_container [node])) (\<lambda>_. Inr (yaml_value E node)))))"

section \<open>Checking the document (\<open>parse_definition\<close>)\<close>

definition as_object :: "pyval \<Rightarrow> string + (string \<times> pyval) list" where
  "as_object v = (case v of PDict d \<Rightarrow> Inr d | _ \<Rightarrow> Inl ''Expected an object with string keys.'')"

text \<open>\<open>_object\<close> with its set of fields.\<close>

definition has_fields :: "(string \<times> pyval) list \<Rightarrow> string list \<Rightarrow> bool" where
  "has_fields d names \<longleftrightarrow> set (map fst d) = set names"

definition with_fields :: "pyval \<Rightarrow> string list \<Rightarrow> string + (string \<times> pyval) list" where
  "with_fields v names =
     bind_res (as_object v) (\<lambda>d.
       if has_fields d names then Inr d else Inl ''Missing or unknown definition fields.'')"

definition field :: "(string \<times> pyval) list \<Rightarrow> string \<Rightarrow> pyval" where
  "field d k = dict_lookup d k PNone"

definition string_value :: "bool \<Rightarrow> pyval \<Rightarrow> string + string" where
  "string_value blank_ok v =
     (case v of
        PStr s \<Rightarrow> if \<not> blank_ok \<and> s = [] then Inl ''Expected a string value.'' else Inr s
      | _ \<Rightarrow> Inl ''Expected a string value.'')"

definition as_list :: "pyval \<Rightarrow> string + pyval list" where
  "as_list v = (case v of PList xs \<Rightarrow> Inr xs | _ \<Rightarrow> Inl ''Expected a list.'')"

definition optional_string :: "pyval \<Rightarrow> string + string option" where
  "optional_string v = (if v = PNone then Inr None else bind_res (string_value False v) (\<lambda>s. Inr (Some s)))"

fun each :: "('a \<Rightarrow> 'e + 'b) \<Rightarrow> 'a list \<Rightarrow> 'e + 'b list" where
  "each f [] = Inr []"
| "each f (x # xs) = bind_res (f x) (\<lambda>y. bind_res (each f xs) (\<lambda>ys. Inr (y # ys)))"

definition is_sha256_hex :: "string \<Rightarrow> bool" where
  "is_sha256_hex s \<longleftrightarrow> length s = 64 \<and> list_all (\<lambda>c. is_digit_char c \<or> c \<in> set ''abcdef'') s"

definition parse_platform_api_token :: "def_env \<Rightarrow> pyval \<Rightarrow> string + platform_api_token" where
  "parse_platform_api_token E v =
     bind_res (with_fields v [''name'', ''token_hash'', ''expires_at'']) (\<lambda>token.
     bind_res (string_value True (field token ''name'')) (\<lambda>name.
     bind_res (string_value False (field token ''token_hash'')) (\<lambda>token_hash.
       if \<not> is_sha256_hex token_hash
       then Inl ''API token hashes must be lowercase SHA256 verifiers (64 hex characters).''
       else bind_res (optional_string (field token ''expires_at'')) (\<lambda>expires_at.
         if (case expires_at of None \<Rightarrow> False | Some s \<Rightarrow> fe_aware E s = None)
         then Inl ''API token expiry must be null or a timezone-aware ISO timestamp.''
         else Inr \<lparr>pt_name = name, pt_token_hash = token_hash, pt_expires_at = expires_at\<rparr>))))"

definition is_control :: "char \<Rightarrow> bool" where
  "is_control c \<longleftrightarrow> (of_char c :: nat) < 32 \<or> (of_char c :: nat) = 127"

definition BAD_REMOTE :: string where
  "BAD_REMOTE = ''Remote source must be a credential-free HTTP, HTTPS or git URL with a safe ref.''"

text \<open>The conditions of \<open>_remote_url\<close> on the URL, its path unquoted, and on the ref.\<close>

definition remote_url_ok :: "def_env \<Rightarrow> string \<Rightarrow> url_parts \<Rightarrow> bool" where
  "remote_url_ok E url parsed \<longleftrightarrow>
     (let path = percent_decode (up_path parsed) in
      up_scheme parsed \<in> {''http'', ''https'', ''git''} \<and>
      portable_source E (Some url) [] = RemoteSource url None \<and>
      \<not> list_ex (\<lambda>c. c \<in> set (CHR 0x5C # ''?#;'')) url \<and>
      \<not> (has_space E url \<or> list_ex is_control url) \<and>
      \<not> (list_ex (\<lambda>c. is_space_char c \<and> c \<noteq> CHR '' '' \<or> is_control c) path \<or> fe_wide_space E (up_path parsed)) \<and>
      \<not> list_ex (\<lambda>c. c \<in> set (CHR 0x5C # ''@?#;%'')) path \<and>
      length (filter (\<lambda>c. c = CHR ''/'') path) = length (filter (\<lambda>c. c = CHR ''/'') (up_path parsed)) \<and>
      list_ex (\<lambda>c. c \<noteq> CHR ''/'') path \<and>
      \<not> contains_str path ''//'' \<and>
      \<not> list_ex (\<lambda>segment. segment = ''.'' \<or> segment = ''..'') (split_on CHR ''/'' path))"

definition ref_ok :: "def_env \<Rightarrow> string \<Rightarrow> bool" where
  "ref_ok E ref \<longleftrightarrow>
     ref \<noteq> [] \<and> hd ref \<notin> set ''-/'' \<and> \<not> endswith ref ''/'' \<and> \<not> contains_str ref ''..'' \<and> \<not> contains_str ref ''//'' \<and>
     \<not> list_ex (\<lambda>c. c \<in> set (CHR 0x5C # ''@?#;:^~[*'')) ref \<and>
     \<not> (has_space E ref \<or> list_ex is_control ref)"

definition remote_url :: "def_env \<Rightarrow> string \<Rightarrow> string option \<Rightarrow> string + string" where
  "remote_url E url ref =
     (case urlparse (fe_netloc_ok E) url of
        None \<Rightarrow> Inl BAD_REMOTE
      | Some parsed \<Rightarrow>
          (let install_url = (case ref of None \<Rightarrow> url | Some r \<Rightarrow> url @ ''@'' @ r)
           in if remote_url_ok E url parsed \<and> (case ref of None \<Rightarrow> True | Some r \<Rightarrow> ref_ok E r) \<and>
                 parse_repo_url (fe_netloc_ok E) install_url = Some (url, ref)
              then Inr install_url else Inl BAD_REMOTE))"

definition parse_source :: "def_env \<Rightarrow> pyval \<Rightarrow> string + app_source" where
  "parse_source E v =
     bind_res (as_object v) (\<lambda>source.
       (let kind = field source ''kind'' in
        if kind = PStr ''remote'' then
          bind_res (with_fields v [''kind'', ''repo_url'', ''ref'']) (\<lambda>_.
          bind_res (string_value False (field source ''repo_url'')) (\<lambda>url.
          bind_res (optional_string (field source ''ref'')) (\<lambda>ref.
          bind_res (remote_url E url ref) (\<lambda>_. Inr (RemoteSource url ref)))))
        else if kind = PStr ''builtin'' then
          bind_res (with_fields v [''kind'', ''identifier'']) (\<lambda>_.
          bind_res (string_value False (field source ''identifier'')) (\<lambda>identifier.
            if \<not> is_identifier identifier
            then Inl ''Builtin identifiers must be a single bundled app directory name.''
            else Inr (BuiltinSource identifier)))
        else if kind = PStr ''local'' \<or> kind = PStr ''unknown'' then
          bind_res (with_fields v [''kind'']) (\<lambda>_. Inr (UnavailableSource (the (as_str kind))))
        else Inl ''Unknown source kind.''))"

definition parse_port :: "pyval \<Rightarrow> string + published_port" where
  "parse_port v =
     bind_res (with_fields v [''label'', ''container_port'', ''host_port'']) (\<lambda>port.
       (case field port ''container_port'' of
          PInt container \<Rightarrow>
            if \<not> (1 \<le> container \<and> container \<le> 65535) then Inl ''Container ports must be integers from 1 to 65535.''
            else (case field port ''host_port'' of
                PInt host \<Rightarrow>
                  if \<not> (host = 0 \<or> UNPRIVILEGED_PORT_FLOOR \<le> host \<and> host \<le> 65535)
                  then Inl ''Host ports must be 0 or integers from 25 to 65535.''
                  else bind_res (string_value False (field port ''label'')) (\<lambda>label.
                    Inr \<lparr>pp_label = label, pp_container_port = container, pp_host_port = host\<rparr>)
              | _ \<Rightarrow> Inl ''Host ports must be 0 or integers from 25 to 65535.'')
        | _ \<Rightarrow> Inl ''Container ports must be integers from 1 to 65535.''))"

definition parse_app :: "def_env \<Rightarrow> pyval \<Rightarrow> string + app_definition" where
  "parse_app E v =
     bind_res (with_fields v [''name'', ''source'', ''port_mappings'']) (\<lambda>app.
     bind_res (string_value False (field app ''name'')) (\<lambda>name.
       if \<not> is_valid_app_name name \<or> endswith name [CHR 0x0A] \<or> ''/'' @ name \<in> set RESERVED_PATHS
       then Inl ''Invalid or reserved app name.''
       else bind_res (as_list (field app ''port_mappings'')) (\<lambda>entries.
         bind_res (each parse_port entries) (\<lambda>ports.
         if \<not> distinct (map pp_label ports) then Inl ''Duplicate port labels are not supported.''
         else bind_res (parse_source E (field app ''source'')) (\<lambda>source.
           Inr \<lparr>ad_name = name, ad_source = source, ad_port_mappings = ports\<rparr>)))))"

definition parse_mode :: "pyval \<Rightarrow> export_mode option" where
  "parse_mode v = (if v = PStr ''sharing'' then Some Sharing else if v = PStr ''private'' then Some Private else None)"

definition parse_document :: "def_env \<Rightarrow> pyval \<Rightarrow> string + definition_export" where
  "parse_document E v =
     bind_res (as_object v) (\<lambda>document.
       if field document ''schema_version'' \<noteq> PInt 2
       then Inl ''schema_version must be 2. Re-export older app definition files.''
       else (case parse_mode (field document ''mode'') of
           None \<Rightarrow> Inl ''mode must be sharing or private.''
         | Some mode \<Rightarrow>
             bind_res (with_fields v ([''schema_version'', ''mode'', ''apps''] @
                 (if mode = Private then [''platform_api_tokens''] else []))) (\<lambda>_.
             bind_res (as_list (field document ''apps'')) (\<lambda>entries.
             bind_res (each (parse_app E) entries) (\<lambda>apps.
               if \<not> distinct (map ad_name apps) then Inl ''Duplicate app names are not supported.''
               else if mode = Sharing
               then Inr \<lparr>dx_mode = mode, dx_apps = apps, dx_platform_api_tokens = None\<rparr>
               else bind_res (as_list (field document ''platform_api_tokens'')) (\<lambda>rows.
                 bind_res (each (parse_platform_api_token E) rows) (\<lambda>tokens.
                   if \<not> distinct (map pt_token_hash tokens) then Inl ''Duplicate API token hashes are not supported.''
                   else Inr \<lparr>dx_mode = mode, dx_apps = apps, dx_platform_api_tokens = Some tokens\<rparr>)))))))"

definition INVALID_YAML :: string where
  "INVALID_YAML = ''Invalid app definition YAML.''"

definition parse_definition :: "def_env \<Rightarrow> string \<Rightarrow> string + definition_export" where
  "parse_definition E content =
     (if \<not> utf8_valid content then Inl INVALID_YAML
      else if MAX_DEFINITION_BYTES < length content then Inl ''App definition YAML must be at most 1 MiB.''
      else (case yaml_load E content of
          Inl (DefinitionError m) \<Rightarrow> Inl m
        | Inl Other_Exception \<Rightarrow> Inl INVALID_YAML
        | Inr v \<Rightarrow> parse_document E v))"

section \<open>Planning and importing\<close>

record definition_install =
  di_repo_url :: string
  di_app_name :: string
  di_port_overrides :: "(string \<times> int) list"

datatype plan_status = Ready definition_install | Existing string | Unavailable

record planned_app =
  pl_name :: string
  pl_source_label :: string
  pl_status :: plan_status

record definition_plan =
  dp_mode :: export_mode
  dp_apps :: "planned_app list"
  dp_platform_api_token_names :: "string list"

text \<open>
  The label and the URL to install from. A builtin directory is installed from only if it is a child of the
  bundled apps after links are followed, and has a manifest; \<open>ValueError\<close> of \<open>parse_repo_url\<close> is the other exception.
\<close>

definition plan_source :: "def_env \<Rightarrow> app_source \<Rightarrow> load_exn + string \<times> string option" where
  "plan_source E source =
     (case source of
        RemoteSource url ref \<Rightarrow>
          (case remote_url E url ref of Inl m \<Rightarrow> Inl (DefinitionError m) | Inr install_url \<Rightarrow> Inr (install_url, Some install_url))
      | BuiltinSource identifier \<Rightarrow>
          (let base = fe_resolve E (fe_apps_dir E); directory = fe_resolve E (path_join base identifier)
           in if posix_parent (posix_path directory) \<noteq> posix_path base
              then Inl (DefinitionError ''Builtin source must stay inside the bundled apps directory.'')
              else if list_ex (\<lambda>filename. fe_is_file E (path_join directory filename)) MANIFEST_FILENAMES
              then (case parse_repo_url (fe_netloc_ok E) (''file://'' @ directory) of
                  None \<Rightarrow> Inl Other_Exception
                | Some parsed \<Rightarrow>
                    Inr (''builtin: '' @ identifier,
                         if parsed = (''file://'' @ directory, None) then Some (''file://'' @ directory) else None))
              else Inr (''builtin: '' @ identifier, None))
      | UnavailableSource kind \<Rightarrow> Inr (kind, None))"

definition plan_app :: "def_env \<Rightarrow> db \<Rightarrow> app_definition \<Rightarrow> load_exn + planned_app" where
  "plan_app E db app =
     bind_res (plan_source E (ad_source app)) (\<lambda>(label, repo_url).
       Inr \<lparr>pl_name = ad_name app, pl_source_label = label,
            pl_status = (case (find_app_by_name db (ad_name app), repo_url) of
               (Some r, _) \<Rightarrow> Existing (a_app_id r)
             | (None, None) \<Rightarrow> Unavailable
             | (None, Some url) \<Rightarrow>
                 Ready \<lparr>di_repo_url = url, di_app_name = ad_name app,
                        di_port_overrides = map (\<lambda>p. (pp_label p, pp_host_port p)) (ad_port_mappings app)\<rparr>)\<rparr>)"

definition plan_definition :: "def_env \<Rightarrow> db \<Rightarrow> definition_export \<Rightarrow> load_exn + definition_plan" where
  "plan_definition E db document =
     bind_res (each (plan_app E db) (dx_apps document)) (\<lambda>apps.
       Inr \<lparr>dp_mode = dx_mode document, dp_apps = apps,
            dp_platform_api_token_names =
              (case dx_platform_api_tokens document of None \<Rightarrow> [] | Some ts \<Rightarrow> map pt_name ts)\<rparr>)"

text \<open>
  \<open>import_platform_api_tokens\<close>: the statement runs for each token, skipping a hash the table has, and the count
  is that of the new rows. The row keeps the instant of an expiry, not its text.
\<close>

fun import_loop :: "def_env \<Rightarrow> platform_api_token list \<Rightarrow> int \<Rightarrow> db \<Rightarrow> nat \<times> db" where
  "import_loop E [] next_id db = (0, db)"
| "import_loop E (t # ts) next_id db =
     (if exists_row (\<lambda>r. k_token_hash r = pt_token_hash t) (api_tokens db) then import_loop E ts next_id db
      else map_prod Suc id (import_loop E ts (next_id + 1) (db\<lparr>api_tokens := api_tokens db @
        [\<lparr>k_id = next_id, k_name = pt_name t, k_token_hash = pt_token_hash t,
          k_expires_at = Option.bind (pt_expires_at t) (fe_aware E), k_created_at = fe_now E\<rparr>]\<rparr>)))"

definition import_platform_api_tokens :: "def_env \<Rightarrow> platform_api_token list \<Rightarrow> db \<Rightarrow> nat \<times> db" where
  "import_platform_api_tokens E tokens db = import_loop E tokens (fe_next_id E) db"

section \<open>The routes\<close>

text \<open>
  \<open>No_Access n\<close> and \<open>Load_Failed m\<close> are the error answers of loading; \<open>Export_Failed\<close> and \<open>Grant_Required\<close> those of
  exporting. Their texts hold nothing of what was sent.
\<close>

datatype def_error =
    No_Access nat
  | Load_Failed string
  | Server_Failed
  | Bad_Mode
  | Grant_Required export_mode

definition owner_access :: "def_env \<Rightarrow> conn \<Rightarrow> db \<Rightarrow> def_error + unit" where
  "owner_access E c db =
     (case require_owner_auth (fe_auth E) c db of
        Inr _ \<Rightarrow> Inr ()
      | Inl NotFoundError \<Rightarrow> Inl (No_Access 404)
      | Inl _ \<Rightarrow> Inl (No_Access 401))"

definition load_error :: "load_exn \<Rightarrow> def_error" where
  "load_error x = (case x of DefinitionError m \<Rightarrow> Load_Failed m | Other_Exception \<Rightarrow> Server_Failed)"

text \<open>\<open>_document\<close>; the body is None where it is not JSON.\<close>

definition document_of :: "def_env \<Rightarrow> pyval option \<Rightarrow> load_exn + definition_export" where
  "document_of E body =
     (case body of
        None \<Rightarrow> Inl (DefinitionError ''Expected a JSON object containing YAML content.'')
      | Some (PDict [(k, PStr content)]) \<Rightarrow>
          if k = ''content'' then map_sum DefinitionError id (parse_definition E content)
          else Inl (DefinitionError ''Expected a JSON object containing only YAML content.'')
      | Some _ \<Rightarrow> Inl (DefinitionError ''Expected a JSON object containing only YAML content.''))"

definition owner_parse :: "def_env \<Rightarrow> conn \<Rightarrow> pyval option \<Rightarrow> db \<Rightarrow> def_error + definition_plan" where
  "owner_parse E c body db =
     bind_res (owner_access E c db) (\<lambda>_.
       map_sum load_error id (bind_res (document_of E body) (plan_definition E db)))"

text \<open>The answer counts the tokens that were added and those that were there.\<close>

definition document_tokens :: "definition_export \<Rightarrow> platform_api_token list" where
  "document_tokens d = (case dx_platform_api_tokens d of None \<Rightarrow> [] | Some ts \<Rightarrow> ts)"

definition owner_import_private ::
    "def_env \<Rightarrow> conn \<Rightarrow> pyval option \<Rightarrow> db \<Rightarrow> (def_error + nat \<times> nat) \<times> db" where
  "owner_import_private E c body db =
     (case owner_access E c db of
        Inl x \<Rightarrow> (Inl x, db)
      | Inr _ \<Rightarrow>
          (case bind_res (document_of E body) (\<lambda>d. bind_res (plan_definition E db d) (\<lambda>_. Inr d)) of
             Inl x \<Rightarrow> (Inl (load_error x), db)
           | Inr d \<Rightarrow>
               (let tokens = document_tokens d;
                    (added, db1) = import_platform_api_tokens E tokens db
                in (Inr (added, length tokens - added), db1))))"

definition owner_export :: "def_env \<Rightarrow> conn \<Rightarrow> pyval option \<Rightarrow> db \<Rightarrow> def_error + pyval" where
  "owner_export E c body db =
     bind_res (owner_access E c db) (\<lambda>_.
       (case Option.bind body parse_export_mode of
          None \<Rightarrow> Inl Bad_Mode
        | Some mode \<Rightarrow> Inr (export_app_definitions E db mode)))"

text \<open>\<open>_has_export_grant\<close> of the permissions header, read as JSON.\<close>

definition has_export_grant :: "pyval option \<Rightarrow> export_mode \<Rightarrow> bool" where
  "has_export_grant granted mode \<longleftrightarrow>
     (let accepted = map (\<lambda>m. PDict [(''mode'', PStr (mode_text m))])
            (if mode = Private then [mode] else [Sharing, Private])
      in case granted of
           Some (PList entries) \<Rightarrow>
             list_ex (\<lambda>entry. case entry of
                 PDict d \<Rightarrow> dict_lookup d ''scope'' PNone = PStr ''global'' \<and>
                   list_ex (py_eq (dict_lookup d ''grant'' PNone)) accepted
               | _ \<Rightarrow> False) entries
         | _ \<Rightarrow> False)"

text \<open>A call that the router's service proxy forwards, with the permissions header the proxy wrote.\<close>

definition service_export :: "def_env \<Rightarrow> pyval option \<Rightarrow> pyval option \<Rightarrow> db \<Rightarrow> def_error + pyval" where
  "service_export E body granted db =
     (case Option.bind body parse_export_mode of
        None \<Rightarrow> Inl Bad_Mode
      | Some mode \<Rightarrow>
          if \<not> has_export_grant granted mode then Inl (Grant_Required mode)
          else Inr (export_app_definitions E db mode))"

section \<open>Well-formed documents\<close>

definition source_ok :: "def_env \<Rightarrow> app_source \<Rightarrow> bool" where
  "source_ok E source \<longleftrightarrow>
     (case source of
        RemoteSource url ref \<Rightarrow> url \<noteq> [] \<and> ref \<noteq> Some [] \<and> remote_url E url ref \<noteq> Inl BAD_REMOTE
      | BuiltinSource identifier \<Rightarrow> is_identifier identifier
      | UnavailableSource kind \<Rightarrow> kind = ''local'' \<or> kind = ''unknown'')"

definition port_ok :: "published_port \<Rightarrow> bool" where
  "port_ok p \<longleftrightarrow>
     pp_label p \<noteq> [] \<and> 1 \<le> pp_container_port p \<and> pp_container_port p \<le> 65535 \<and>
     (pp_host_port p = 0 \<or> UNPRIVILEGED_PORT_FLOOR \<le> pp_host_port p \<and> pp_host_port p \<le> 65535)"

definition app_ok :: "def_env \<Rightarrow> app_definition \<Rightarrow> bool" where
  "app_ok E a \<longleftrightarrow>
     ad_name a \<noteq> [] \<and> is_valid_app_name (ad_name a) \<and> \<not> endswith (ad_name a) [CHR 0x0A] \<and> ''/'' @ ad_name a \<notin> set RESERVED_PATHS \<and>
     (\<forall>p \<in> set (ad_port_mappings a). port_ok p) \<and> distinct (map pp_label (ad_port_mappings a)) \<and> source_ok E (ad_source a)"

definition token_ok :: "def_env \<Rightarrow> platform_api_token \<Rightarrow> bool" where
  "token_ok E t \<longleftrightarrow>
     is_sha256_hex (pt_token_hash t) \<and>
     (\<forall>s. pt_expires_at t = Some s \<longrightarrow> s \<noteq> [] \<and> fe_aware E s \<noteq> None)"

definition definition_ok :: "def_env \<Rightarrow> definition_export \<Rightarrow> bool" where
  "definition_ok E d \<longleftrightarrow>
     (\<forall>a \<in> set (dx_apps d). app_ok E a) \<and> distinct (map ad_name (dx_apps d)) \<and>
     (case dx_platform_api_tokens d of
        None \<Rightarrow> dx_mode d = Sharing
      | Some ts \<Rightarrow> dx_mode d = Private \<and> (\<forall>t \<in> set ts. token_ok E t) \<and> distinct (map pt_token_hash ts))"

lemma each_iff: "each f xs = Inr ys \<longleftrightarrow> list_all2 (\<lambda>x y. f x = Inr y) xs ys"
proof (induction xs arbitrary: ys)
  case (Cons x xs)
  then show ?case by (cases ys) (auto simp: bind_res_eq_Inr list_all2_Cons1)
qed auto

lemma each_result:
  assumes "each f xs = Inr ys" and "\<And>x y. f x = Inr y \<Longrightarrow> P y"
  shows "\<forall>y \<in> set ys. P y"
  using assms(1) by (induction xs arbitrary: ys) (auto simp: bind_res_eq_Inr dest: assms(2))

lemma each_values: "\<forall>y \<in> set ys. f (g y) = Inr y \<Longrightarrow> each f (map g ys) = Inr ys"
  by (simp add: each_iff list_all2_conv_all_nth)

text \<open>
  What a part of the document promises: what is read is well formed, and the value a well-formed part is
  written as is read back as that part. Lists of such parts then do the same.
\<close>

locale codec =
  fixes read_part :: "pyval \<Rightarrow> string + 'a"
    and write_part :: "'a \<Rightarrow> pyval"
    and part_ok :: "'a \<Rightarrow> bool"
  assumes read_ok: "read_part v = Inr x \<Longrightarrow> part_ok x"
    and read_written: "part_ok x \<Longrightarrow> read_part (write_part x) = Inr x"
begin

lemma accepts_iff: "(\<exists>v. read_part v = Inr x) \<longleftrightarrow> part_ok x"
  using read_ok read_written by blast

lemma read_back_iff: "read_part (write_part x) = Inr x \<longleftrightarrow> part_ok x"
  using read_ok read_written by blast

lemma list_ok: "each read_part vs = Inr xs \<Longrightarrow> \<forall>x \<in> set xs. part_ok x"
  by (rule each_result) (auto intro: read_ok)

lemma list_written: "\<forall>x \<in> set xs. part_ok x \<Longrightarrow> each read_part (map write_part xs) = Inr xs"
  by (simp add: each_values read_written)

end

lemma as_object_Inr [simp]: "as_object v = Inr d \<longleftrightarrow> v = PDict d"
  by (auto simp: as_object_def split: pyval.splits)

lemma as_list_Inr [simp]: "as_list v = Inr xs \<longleftrightarrow> v = PList xs"
  by (auto simp: as_list_def split: pyval.splits)

lemma string_value_Inr [simp]: "string_value b v = Inr s \<longleftrightarrow> v = PStr s \<and> (b \<or> s \<noteq> [])"
  by (auto simp: string_value_def split: pyval.splits if_splits)

lemma optional_string_Inr [simp]: "optional_string v = Inr x \<longleftrightarrow> v = opt_text x \<and> x \<noteq> Some []"
  by (cases v; cases x) (auto simp: optional_string_def opt_text_def bind_res_eq_Inr string_value_def)

lemma with_fields_Inr [simp]: "with_fields v names = Inr d \<longleftrightarrow> v = PDict d \<and> has_fields d names"
  by (auto simp: with_fields_def bind_res_eq_Inr)

lemma remote_url_cases: "remote_url E url ref = Inl BAD_REMOTE \<or> (\<exists>i. remote_url E url ref = Inr i)"
  by (auto simp: remote_url_def Let_def split: option.splits)

lemma parse_port_ok:
  assumes "parse_port v = Inr p"
  shows "port_ok p"
proof -
  obtain d where d: "with_fields v [''label'', ''container_port'', ''host_port''] = Inr d"
    using assms unfolding parse_port_def bind_res_eq_Inr by blast
  show ?thesis
  proof (cases "field d ''container_port''")
    case (PInt container)
    show ?thesis
      using assms PInt unfolding parse_port_def d bind_res_simps
      by (cases "field d ''host_port''") (auto simp: bind_res_eq_Inr port_ok_def split: if_splits)
  qed (use assms in \<open>simp_all add: parse_port_def d\<close>)
qed

lemma parse_source_ok:
  assumes "parse_source E v = Inr s"
  shows "source_ok E s"
proof -
  obtain d where d: "v = PDict d" using assms by (auto simp: parse_source_def bind_res_eq_Inr)
  consider "field d ''kind'' = PStr ''remote''" | "field d ''kind'' = PStr ''builtin''"
    | "field d ''kind'' = PStr ''local'' \<or> field d ''kind'' = PStr ''unknown''"
    using assms d by (simp add: parse_source_def Let_def as_object_def split: if_splits)
  then show ?thesis
  proof cases
    case 1
    with assms d show ?thesis by (auto simp: parse_source_def as_object_def bind_res_eq_Inr source_ok_def)
  next
    case 2
    with assms d show ?thesis
      by (auto simp: parse_source_def as_object_def bind_res_eq_Inr source_ok_def split: if_splits)
  next
    case 3
    with assms d show ?thesis by (auto simp: parse_source_def as_object_def bind_res_eq_Inr source_ok_def)
  qed
qed

lemma literal_fields:
  "has_fields [(''label'', a), (''container_port'', b), (''host_port'', c)] [''label'', ''container_port'', ''host_port'']"
  "has_fields [(''repo_url'', a), (''ref'', b), (''kind'', c)] [''kind'', ''repo_url'', ''ref'']"
  "has_fields [(''identifier'', a), (''kind'', c)] [''kind'', ''identifier'']"
  "has_fields [(''kind'', c)] [''kind'']"
  "has_fields [(''name'', a), (''source'', b), (''port_mappings'', c)] [''name'', ''source'', ''port_mappings'']"
  "has_fields [(''name'', a), (''token_hash'', b), (''expires_at'', c)] [''name'', ''token_hash'', ''expires_at'']"
  "has_fields [(''mode'', a), (''apps'', b), (''schema_version'', c)] [''schema_version'', ''mode'', ''apps'']"
  "has_fields [(''mode'', a), (''apps'', b), (''schema_version'', c), (''platform_api_tokens'', e)]
     [''schema_version'', ''mode'', ''apps'', ''platform_api_tokens'']"
  by (simp_all add: has_fields_def insert_commute)

lemma value_fields:
  "has_fields d names \<Longrightarrow> with_fields (PDict d) names = Inr d"
  by (simp add: with_fields_def as_object_def)

lemma string_value_PStr: "b \<or> s \<noteq> [] \<Longrightarrow> string_value b (PStr s) = Inr s"
  by (simp add: string_value_def)

lemma optional_string_value: "x \<noteq> Some [] \<Longrightarrow> optional_string (opt_text x) = Inr x"
  by simp

lemmas forward = value_fields literal_fields string_value_PStr optional_string_value field_def dict_lookup_def as_object_def
  as_list_def bind_res_simps

lemma parse_port_value: "port_ok p \<Longrightarrow> parse_port (port_value p) = Inr p"
  by (simp add: parse_port_def port_ok_def port_value_def forward)

lemma parse_source_value: "source_ok E s \<Longrightarrow> parse_source E (source_value s) = Inr s"
proof (cases s)
  case (RemoteSource url ref)
  assume "source_ok E s"
  with RemoteSource remote_url_cases [of E url ref] show ?thesis
    by (auto simp: parse_source_def source_ok_def forward simp del: optional_string_Inr)
qed (auto simp: parse_source_def source_ok_def forward is_identifier_def)

interpretation ports: codec parse_port port_value port_ok
  by unfold_locales (rule parse_port_ok parse_port_value; assumption)+

interpretation sources: codec "parse_source E" source_value "source_ok E" for E
  by unfold_locales (rule parse_source_ok parse_source_value; assumption)+

lemma parse_app_ok:
  assumes "parse_app E v = Inr a"
  shows "app_ok E a"
proof -
  obtain app name entries ports source where *: "parse_source E (field app ''source'') = Inr source"
      "each parse_port entries = Inr ports" "name \<noteq> []"
      "is_valid_app_name name" "\<not> endswith name [CHR 0x0A]" "''/'' @ name \<notin> set RESERVED_PATHS"
      "distinct (map pp_label ports)" "a = \<lparr>ad_name = name, ad_source = source, ad_port_mappings = ports\<rparr>"
    using assms by (auto simp: parse_app_def bind_res_eq_Inr split: if_splits)
  then show ?thesis
    using ports.list_ok [OF *(2)] sources.read_ok [OF *(1)] by (simp add: app_ok_def)
qed

lemma parse_app_value: "app_ok E a \<Longrightarrow> parse_app E (app_value a) = Inr a"
  by (simp add: parse_app_def app_ok_def app_value_def forward ports.list_written sources.read_written)

interpretation apps: codec "parse_app E" app_value "app_ok E" for E
  by unfold_locales (rule parse_app_ok parse_app_value; assumption)+

lemma parse_token_ok: "parse_platform_api_token E v = Inr t \<Longrightarrow> token_ok E t"
  by (auto simp: parse_platform_api_token_def token_ok_def bind_res_eq_Inr split: if_splits)

lemma parse_token_value: "token_ok E t \<Longrightarrow> parse_platform_api_token E (token_value t) = Inr t"
proof -
  assume ok: "token_ok E t"
  then have "pt_expires_at t \<noteq> Some []" "pt_token_hash t \<noteq> []" by (auto simp: token_ok_def is_sha256_hex_def)
  with ok show ?thesis
    by (cases "pt_expires_at t") (simp_all add: parse_platform_api_token_def token_ok_def token_value_def forward)
qed

interpretation tokens: codec "parse_platform_api_token E" token_value "token_ok E" for E
  by unfold_locales (rule parse_token_ok parse_token_value; assumption)+

lemma parse_document_ok:
  assumes "parse_document E v = Inr d"
  shows "definition_ok E d"
proof -
  obtain v' mode entries apps where v: "v = PDict v'" and mode: "parse_mode (field v' ''mode'') = Some mode"
      and apps: "each (parse_app E) entries = Inr apps" "distinct (map ad_name apps)"
      and rest: "(if mode = Sharing
               then Inr \<lparr>dx_mode = mode, dx_apps = apps, dx_platform_api_tokens = None\<rparr>
               else bind_res (as_list (field v' ''platform_api_tokens'')) (\<lambda>rows.
                 bind_res (each (parse_platform_api_token E) rows) (\<lambda>tokens.
                   if \<not> distinct (map pt_token_hash tokens) then Inl ''Duplicate API token hashes are not supported.''
                   else Inr \<lparr>dx_mode = mode, dx_apps = apps, dx_platform_api_tokens = Some tokens\<rparr>))) = Inr d"
    using assms by (auto simp: parse_document_def bind_res_eq_Inr simp del: as_list_Inr split: if_split_asm option.split_asm)
  show ?thesis
  proof (cases mode)
    case Sharing
    with rest apps apps.list_ok [OF apps(1)] show ?thesis by (auto simp: definition_ok_def)
  next
    case Private
    with rest obtain rows tokens where tokens: "each (parse_platform_api_token E) rows = Inr tokens"
        "distinct (map pt_token_hash tokens)" "d = \<lparr>dx_mode = mode, dx_apps = apps, dx_platform_api_tokens = Some tokens\<rparr>"
      by (auto simp: bind_res_eq_Inr split: if_split_asm)
    with Private apps(2) apps.list_ok [OF apps(1)] tokens.list_ok [OF tokens(1)]
    show ?thesis by (auto simp: definition_ok_def)
  qed
qed

lemma parse_document_value:
  assumes ok: "definition_ok E d"
  shows "parse_document E (definition_value d) = Inr d"
proof (cases "dx_platform_api_tokens d")
  case None
  with ok show ?thesis
    by (simp add: parse_document_def definition_ok_def definition_value_def forward parse_mode_def apps.list_written)
next
  case (Some ts)
  with ok show ?thesis
    by (simp add: parse_document_def definition_ok_def definition_value_def forward parse_mode_def apps.list_written
        tokens.list_written)
qed

interpretation documents: codec "parse_document E" definition_value "definition_ok E" for E
  by unfold_locales (rule parse_document_ok parse_document_value; assumption)+


section \<open>What an export shows\<close>

text \<open>Without a grant for private exports the answer does not depend on the table of API tokens.\<close>

lemma sharing_keeps_tokens_out:
  assumes "\<not> has_export_grant granted Private"
  shows "service_export E body granted (db\<lparr>api_tokens := ts\<rparr>) = service_export E body granted db"
proof (cases "Option.bind body parse_export_mode")
  case (Some mode)
  with assms show ?thesis
    by (cases mode) (simp_all add: service_export_def export_app_definitions_def snapshot_def published_ports_def)
qed (simp add: service_export_def)

text \<open>A private export that is well formed carries every verifier to the instance that loads it.\<close>

lemma private_export_carries_tokens:
  assumes "definition_ok E (snapshot E db Private)"
  shows "\<exists>d. parse_document E (export_app_definitions E db Private) = Inr d \<and>
     set (map pt_token_hash (document_tokens d)) = k_token_hash ` set (api_tokens db) \<and>
     map ad_name (dx_apps d) = map a_name (sort_key a_name (apps db))"
  using documents.read_written [OF assms]
  by (auto simp: export_app_definitions_def document_tokens_def snapshot_def comp_def image_image)

definition stored_url :: "string \<Rightarrow> string option \<Rightarrow> string \<Rightarrow> string \<Rightarrow> string \<Rightarrow> string" where
  "stored_url proto userinfo host path tail =
     proto @ ''://'' @ (case userinfo of None \<Rightarrow> [] | Some u \<Rightarrow> u @ ''@'') @ host @ path @ tail"

text \<open>The parts are what \<open>urlparse\<close> takes them for; the tail is the query and the fragment.\<close>

definition url_shape :: "string option \<Rightarrow> string \<Rightarrow> string \<Rightarrow> string \<Rightarrow> bool" where
  "url_shape userinfo host path tail \<longleftrightarrow>
     (case userinfo of None \<Rightarrow> True | Some u \<Rightarrow> list_all (\<lambda>c. c \<notin> set ''/?#'') u) \<and>
     list_all (\<lambda>c. c \<notin> set ''/?#@'') host \<and> list_all (\<lambda>c. c \<notin> set ''?#'') path \<and>
     (path = [] \<or> hd path = CHR ''/'') \<and> (tail = [] \<or> hd tail \<in> {CHR ''?'', CHR ''#''})"

lemma cut_at_stop:
  "list_all P a \<Longrightarrow> b = [] \<or> \<not> P (hd b) \<Longrightarrow> takeWhile P (a @ b) = a \<and> dropWhile P (a @ b) = b"
  by (induction a) (cases b; auto)+

lemma before_char_append: "c \<notin> set s \<Longrightarrow> before_char c (s @ t) = s @ before_char c t"
  by (induction s) (auto simp: before_char_def)

lemma before_char_Cons: "before_char c (x # s) = (if x = c then [] else x # before_char c s)" "before_char c [] = []"
  by (simp_all add: before_char_def)

lemma portable_scheme_split:
  assumes "proto \<in> set PORTABLE_SCHEMES"
  shows "split_scheme (clean_url (proto @ ''://'' @ rest)) =
     (proto, ''//'' @ filter (\<lambda>c. c \<noteq> CHR 0x09 \<and> c \<noteq> CHR 0x0A \<and> c \<noteq> CHR 0x0D) rest)"
  using assms
  by (auto simp: PORTABLE_SCHEMES_def split_scheme_def clean_url_def partition_char_def before_char_def after_char_def
      is_scheme_char_def is_lower_char_def is_upper_char_def is_digit_char_def lower_def lower_char_def)

lemma portable_scheme_kept:
  "proto \<in> set PORTABLE_SCHEMES \<Longrightarrow> urlparse ok (proto @ ''://'' @ rest) = Some p \<Longrightarrow> up_scheme p = proto"
  using portable_scheme_split [of proto rest, simplified]
  by (auto simp: urlparse_def Let_def split: prod.splits if_splits)

lemma portable_not_scp: "proto \<in> set PORTABLE_SCHEMES \<Longrightarrow> \<not> scp_style_ssh (proto @ ''://'' @ rest)"
  by (auto simp: PORTABLE_SCHEMES_def scp_style_ssh_def startswith_def)

lemma contains_str_infix: "contains_str (a @ sub @ b) sub"
proof (induction a)
  case Nil
  then show ?case by (cases "sub @ b") (auto simp: startswith_def dest: arg_cong [where f = "take (length sub)"])
qed simp

lemma portable_hierarchical:
  assumes "proto \<in> set PORTABLE_SCHEMES"
  shows "portable_source E (Some (proto @ ''://'' @ rest)) bundled =
     (case urlparse (fe_netloc_ok E) (proto @ ''://'' @ rest) of
        None \<Rightarrow> UnavailableSource ''unknown''
      | Some p \<Rightarrow> portable_remote E (proto @ ''://'' @ rest) p)"
proof -
  have "proto \<noteq> []" "hd proto \<notin> set ''/.~''" "proto \<noteq> ''file''" "proto \<noteq> ''ssh''"
    using assms by (auto simp: PORTABLE_SCHEMES_def)
  then show ?thesis
    using assms portable_scheme_kept [OF assms] portable_not_scp [OF assms]
    by (auto simp: portable_source_def non_empty_def is_ssh_url_def split: option.splits)
qed

lemma remote_of_parts:
  assumes "up_scheme p = up_scheme p'" and "hostinfo (up_netloc p) = hostinfo (up_netloc p')"
    and "clean_path (up_path p) = clean_path (up_path p')" and "\<not> has_space E url" and "\<not> has_space E url'"
    and "contains_str url ''://''" and "contains_str url' ''://''"
  shows "portable_remote E url p = portable_remote E url' p'"
proof -
  have g: "geturl (p\<lparr>up_netloc := n, up_path := c, up_params := [], up_query := [], up_fragment := []\<rparr>) =
      geturl (p'\<lparr>up_netloc := n, up_path := c, up_params := [], up_query := [], up_fragment := []\<rparr>)" for n c
    by (simp add: geturl_def assms(1))
  have "url_hostname p = url_hostname p'" "url_port p = url_port p'" by (simp_all add: url_hostname_def url_port_def assms(2))
  then show ?thesis
    using assms(4-7) by (cases "url_hostname p'"; cases "url_port p'") (simp_all add: portable_remote_def g assms(3) Let_def)
qed

lemma hostinfo_userinfo: "CHR ''@'' \<notin> set host \<Longrightarrow> hostinfo (u @ CHR ''@'' # host) = hostinfo host"
  using rpartition_char_join [of "CHR ''@''" "u @ CHR ''@'' # host" u True host]
  by (simp add: hostinfo_def rpartition_char_def [of "CHR ''@''" host])

lemma clean_path_append:
  "clean_path (a @ CHR ''/'' # b) = clean_path a @ CHR ''/'' # clean_path b"
  by (simp add: clean_path_def split_on_append_sep join_with_append)

lemma clean_path_segment: "CHR ''/'' \<notin> set s \<Longrightarrow> clean_path s = before_char CHR '';'' s"
  by (simp add: clean_path_def split_on_free)

lemma clean_path_split_params: "clean_path (fst (split_params proto path)) = clean_path path"
proof (cases "proto \<in> set USES_PARAMS \<and> CHR '';'' \<in> set path")
  case True
  obtain dir found seg where r: "rpartition_char CHR ''/'' path = (dir, found, seg)" by (cases "rpartition_char CHR ''/'' path")
  have seg: "CHR ''/'' \<notin> set seg" by (rule rpartition_char_notin [OF r])
  have kept: "CHR ''/'' \<notin> set (before_char CHR '';'' seg)"
    using seg by (auto simp: before_char_def dest: set_takeWhileD)
  show ?thesis
  proof (cases found)
    case True
    with r have "path = dir @ CHR ''/'' # seg"
      using rpartition_char_join [of "CHR ''/''" path dir found seg] by (auto simp: rpartition_char_def split: if_splits)
    then show ?thesis
      using r seg kept True
      by (simp add: split_params_def partition_char_def clean_path_append clean_path_segment before_char_idem)
  next
    case False
    with r have "CHR ''/'' \<notin> set path" by (auto simp: rpartition_char_def split: if_splits)
    moreover from this have "CHR ''/'' \<notin> set (before_char CHR '';'' path)" by (auto simp: before_char_def dest: set_takeWhileD)
    ultimately show ?thesis
      using r False by (simp add: split_params_def clean_path_segment before_char_idem)
  qed
qed (auto simp: split_params_def)

lemma stored_url_parts:
  assumes "proto \<in> set PORTABLE_SCHEMES" and shape: "url_shape userinfo host path tail"
    and space: "\<not> has_space E (stored_url proto userinfo host path tail)"
    and parsed: "urlparse ok (stored_url proto userinfo host path tail) = Some p"
  shows "up_scheme p = proto \<and> hostinfo (up_netloc p) = hostinfo host \<and> clean_path (up_path p) = clean_path path"
proof -
  define auth where "auth = (case userinfo of None \<Rightarrow> [] | Some u \<Rightarrow> u @ ''@'') @ host"
  have url: "stored_url proto userinfo host path tail = proto @ ''://'' @ auth @ path @ tail"
    by (simp add: stored_url_def auth_def)
  have "\<not> is_space_char c" if "c \<in> set (auth @ path @ tail)" for c
    using space that by (auto simp: url has_space_def list_ex_iff)
  then have "c \<noteq> CHR 0x09 \<and> c \<noteq> CHR 0x0A \<and> c \<noteq> CHR 0x0D" if "c \<in> set (auth @ path @ tail)" for c
    using that by (fastforce simp: is_space_char_def)
  then have plain: "filter (\<lambda>c. c \<noteq> CHR 0x09 \<and> c \<noteq> CHR 0x0A \<and> c \<noteq> CHR 0x0D) (auth @ path @ tail) = auth @ path @ tail"
    by (intro filter_True ballI)
  have "list_all (\<lambda>c. \<not> (c = CHR ''/'' \<or> c = CHR ''?'' \<or> c = CHR ''#'')) auth"
    using shape unfolding url_shape_def auth_def by (cases userinfo) (simp_all add: list_all_iff ball_Un)
  moreover have "path @ tail = [] \<or> \<not> \<not> (hd (path @ tail) = CHR ''/'' \<or> hd (path @ tail) = CHR ''?'' \<or> hd (path @ tail) = CHR ''#'')"
    using shape by (cases path) (auto simp: url_shape_def)
  ultimately have netloc: "split_netloc (''//'' @ auth @ path @ tail) = (auth, path @ tail)"
    using cut_at_stop [of "\<lambda>c. \<not> (c = CHR ''/'' \<or> c = CHR ''?'' \<or> c = CHR ''#'')" auth "path @ tail"]
    by (simp add: split_netloc_def startswith_def)
  have path: "before_char CHR ''?'' (before_char CHR ''#'' (path @ tail)) = path"
  proof -
    have free: "CHR ''?'' \<notin> set path" "CHR ''#'' \<notin> set path" using shape by (auto simp: url_shape_def list_all_iff)
    have "tail = [] \<or> hd tail = CHR ''?'' \<or> hd tail = CHR ''#''" using shape by (simp add: url_shape_def)
    with free show ?thesis by (cases tail) (auto simp: before_char_append before_char_Cons before_char_id)
  qed
  have cut: "split_scheme (clean_url (proto @ ''://'' @ auth @ path @ tail)) = (proto, ''//'' @ auth @ path @ tail)"
    using portable_scheme_split [OF assms(1), of "auth @ path @ tail"] unfolding plain .
  obtain path0 params where sp: "split_params proto path = (path0, params)" by force
  have whole: "urlparse ok (proto @ ''://'' @ auth @ path @ tail) =
      (if \<not> ok auth then None
       else Some \<lparr>up_scheme = proto, up_netloc = auth, up_path = path0, up_params = params,
              up_query = after_char CHR ''?'' (before_char CHR ''#'' (path @ tail)), up_fragment = after_char CHR ''#'' (path @ tail)\<rparr>)"
    unfolding urlparse_def cut partition_char_def Let_def prod.case netloc path sp by (rule refl)
  have "up_scheme p = proto" "up_netloc p = auth" "up_path p = fst (split_params proto path)"
    using parsed unfolding url whole sp by (auto split: if_split_asm)
  moreover have "hostinfo auth = hostinfo host"
  proof -
    have "CHR ''@'' \<notin> set host" using shape by (auto simp: url_shape_def list_all_iff)
    then show ?thesis by (cases userinfo) (simp_all add: auth_def hostinfo_userinfo)
  qed
  ultimately show ?thesis by (simp add: clean_path_split_params)
qed


section \<open>Importing tokens\<close>

fun imported_rows :: "def_env \<Rightarrow> int \<Rightarrow> platform_api_token list \<Rightarrow> api_token_row list" where
  "imported_rows E n [] = []"
| "imported_rows E n (t # ts) =
     \<lparr>k_id = n, k_name = pt_name t, k_token_hash = pt_token_hash t, k_expires_at = Option.bind (pt_expires_at t) (fe_aware E),
      k_created_at = fe_now E\<rparr> # imported_rows E (n + 1) ts"

definition token_hashes :: "db \<Rightarrow> string set" where
  "token_hashes db = k_token_hash ` set (api_tokens db)"

definition new_tokens :: "db \<Rightarrow> platform_api_token list \<Rightarrow> platform_api_token list" where
  "new_tokens db ts = filter (\<lambda>t. pt_token_hash t \<notin> token_hashes db) ts"

lemma token_hashes_iff: "h \<in> token_hashes db \<longleftrightarrow> (\<exists>r \<in> set (api_tokens db). k_token_hash r = h)"
  by (auto simp: token_hashes_def)

lemma imported_rows_facts [simp]:
  "length (imported_rows E n ts) = length ts" "map k_token_hash (imported_rows E n ts) = map pt_token_hash ts"
  by (induction ts arbitrary: n) auto

lemma import_loop_rows:
  assumes "distinct (map pt_token_hash ts)"
  shows "import_loop E ts n db =
     (length (new_tokens db ts), db\<lparr>api_tokens := api_tokens db @ imported_rows E n (new_tokens db ts)\<rparr>)"
  using assms
proof (induction ts arbitrary: n db)
  case (Cons t ts)
  let ?row = "\<lparr>k_id = n, k_name = pt_name t, k_token_hash = pt_token_hash t,
      k_expires_at = Option.bind (pt_expires_at t) (fe_aware E), k_created_at = fe_now E\<rparr>"
  have "new_tokens (db\<lparr>api_tokens := api_tokens db @ [?row]\<rparr>) ts = new_tokens db ts"
    using Cons.prems by (auto simp: new_tokens_def token_hashes_iff intro!: filter_cong)
  moreover have "exists_row (\<lambda>r. k_token_hash r = pt_token_hash t) (api_tokens db) \<longleftrightarrow> pt_token_hash t \<in> token_hashes db"
    by (simp add: exists_row_iff token_hashes_iff)
  ultimately show ?case using Cons by (auto simp: new_tokens_def)
qed (simp add: new_tokens_def)

lemma imported_row_of:
  "t \<in> set ts \<Longrightarrow> distinct (map pt_token_hash ts) \<Longrightarrow>
   \<exists>r. List.find (\<lambda>r. k_token_hash r = pt_token_hash t) (imported_rows E n ts) = Some r \<and>
       k_expires_at r = Option.bind (pt_expires_at t) (fe_aware E)"
  by (induction ts arbitrary: n) auto

lemma find_append_none:
  "List.find P xs = None \<Longrightarrow> List.find P (xs @ ys) = List.find P ys"
  by (induction xs) (auto split: if_splits)

lemma document_is_ok:
  assumes "document_of E body = Inr d"
  shows "definition_ok E d"
proof -
  obtain content where "parse_definition E content = Inr d"
    using assms by (auto simp: document_of_def map_sum_def split: option.splits pyval.splits list.splits prod.splits if_splits sum.splits)
  then show ?thesis
    using parse_document_ok by (auto simp: parse_definition_def split: if_splits sum.splits load_exn.splits)
qed


section \<open>Witnesses\<close>

text \<open>A private file with one token, as YAML nodes.\<close>

definition demo_text :: "string \<Rightarrow> yaml" where
  "demo_text s = Y_Scalar (yaml_tag ''str'') s"

definition demo_verifier :: string where
  "demo_verifier = replicate 64 CHR ''a''"

definition demo_entry :: yaml where
  "demo_entry = Y_Mapping (yaml_tag ''map'') [(demo_text ''name'', demo_text ''ci''),
     (demo_text ''token_hash'', demo_text demo_verifier), (demo_text ''expires_at'', Y_Scalar (yaml_tag ''null'') ''~'')]"

definition demo_tokens :: yaml where
  "demo_tokens = Y_Sequence (yaml_tag ''seq'') [demo_entry]"

definition demo_no_apps :: yaml where
  "demo_no_apps = Y_Sequence (yaml_tag ''seq'') []"

definition demo_two :: yaml where
  "demo_two = Y_Scalar (yaml_tag ''int'') ''2''"

definition demo_private_file :: yaml where
  "demo_private_file = Y_Mapping (yaml_tag ''map'')
     [(demo_text ''schema_version'', demo_two), (demo_text ''mode'', demo_text ''private''),
      (demo_text ''apps'', demo_no_apps), (demo_text ''platform_api_tokens'', demo_tokens)]"

definition demo_def_env :: def_env where
  "demo_def_env = \<lparr>fe_auth = demo_auth_env, fe_netloc_ok = (\<lambda>_. True), fe_wide_space = (\<lambda>_. False),
     fe_yaml = (\<lambda>_. Some (demo_private_file, True)), fe_yaml_int = (\<lambda>_. Some 2), fe_aware = (\<lambda>_. Some 0),
     fe_isoformat = (\<lambda>_. ''t''), fe_resolve = id, fe_is_file = (\<lambda>_. False), fe_apps_dir = ''/apps'', fe_next_id = 7, fe_now = 1\<rparr>"

definition demo_import_conn :: conn where
  "demo_import_conn = demo_conn [(''sec-fetch-site'', ''same-origin'')]"


definition demo_import_body :: "pyval option" where
  "demo_import_body = Some (PDict [(''content'', PStr ''mode: private'')])"

lemma enter_small: "node_tag x \<noteq> [] \<Longrightarrow> depth \<le> 32 \<Longrightarrow> nodes \<le> 20000 \<Longrightarrow> enter_node x depth nodes = Inr ()"
  by (cases x) (auto simp: enter_node_def)

lemma demo_children:
  "children demo_private_file = [demo_text ''schema_version'', demo_two, demo_text ''mode'', demo_text ''private'',
     demo_text ''apps'', demo_no_apps, demo_text ''platform_api_tokens'', demo_tokens]"
  "children demo_tokens = [demo_entry]" "children demo_no_apps = []" "children demo_two = []" "children (demo_text s) = []"
  "children demo_entry = [demo_text ''name'', demo_text ''ci'', demo_text ''token_hash'', demo_text demo_verifier,
     demo_text ''expires_at'', Y_Scalar (yaml_tag ''null'') ''~'']"
  by (simp_all add: demo_private_file_def demo_tokens_def demo_no_apps_def demo_two_def demo_text_def demo_entry_def)

lemma demo_leave:
  "list_all (\<lambda>x. leave_node x = Inr ())
     [demo_private_file, demo_tokens, demo_no_apps, demo_two, demo_entry, Y_Scalar (yaml_tag ''null'') ''~'',
      demo_text ''schema_version'', demo_text ''mode'', demo_text ''private'', demo_text ''apps'', demo_text ''platform_api_tokens'',
      demo_text ''name'', demo_text ''ci'', demo_text ''token_hash'', demo_text demo_verifier, demo_text ''expires_at'']"
  by code_simp

lemma demo_tags:
  "node_tag demo_private_file \<noteq> []" "node_tag demo_tokens \<noteq> []" "node_tag demo_no_apps \<noteq> []" "node_tag demo_two \<noteq> []"
  "node_tag (demo_text s) \<noteq> []" "node_tag demo_entry \<noteq> []"
  by (simp_all add: demo_private_file_def demo_tokens_def demo_no_apps_def demo_two_def demo_text_def demo_entry_def yaml_tag_def)

lemma demo_yaml:
  "yaml_load demo_def_env s = Inr (PDict [(''schema_version'', PInt 2), (''mode'', PStr ''private''), (''apps'', PList []),
     (''platform_api_tokens'', PList [PDict [(''name'', PStr ''ci''), (''token_hash'', PStr demo_verifier), (''expires_at'', PNone)]])])"
proof -
  have composed: "\<exists>n. compose_nodes 1 [demo_private_file] 0 = Inr n"
    using demo_leave by (simp add: demo_children enter_small demo_tags) (simp add: enter_small yaml_tag_def)
  have "construct_now demo_def_env demo_private_file = Inr ()"
    "construct_levels demo_def_env (filter is_container [demo_private_file]) = Inr ()"
    by code_simp+
  moreover have "yaml_value demo_def_env demo_private_file = PDict [(''schema_version'', PInt 2), (''mode'', PStr ''private''), (''apps'', PList []),
     (''platform_api_tokens'', PList [PDict [(''name'', PStr ''ci''), (''token_hash'', PStr demo_verifier), (''expires_at'', PNone)]])]"
    by code_simp
  ultimately show ?thesis using composed by (auto simp: yaml_load_def demo_def_env_def)
qed

lemma demo_document:
  "document_of demo_def_env demo_import_body = Inr \<lparr>dx_mode = Private, dx_apps = [],
     dx_platform_api_tokens = Some [\<lparr>pt_name = ''ci'', pt_token_hash = demo_verifier, pt_expires_at = None\<rparr>]\<rparr>"
proof -
  have "parse_document demo_def_env (PDict [(''schema_version'', PInt 2), (''mode'', PStr ''private''), (''apps'', PList []),
     (''platform_api_tokens'', PList [PDict [(''name'', PStr ''ci''), (''token_hash'', PStr demo_verifier), (''expires_at'', PNone)]])]) =
     Inr \<lparr>dx_mode = Private, dx_apps = [],
       dx_platform_api_tokens = Some [\<lparr>pt_name = ''ci'', pt_token_hash = demo_verifier, pt_expires_at = None\<rparr>]\<rparr>" by code_simp
  moreover have "utf8_valid ''mode: private''" by code_simp
  ultimately show ?thesis
    by (simp add: document_of_def demo_import_body_def parse_definition_def demo_yaml MAX_DEFINITION_BYTES_def)
qed


end
