(* ===== verification/AppRoutes.thy ===== *)
theory AppRoutes
  imports Auth Urls
begin

text \<open>
  \<open>web/routes/api/apps.py\<close>: the owner's requests about apps. All are behind \<open>require_owner_auth\<close>.
  The state is the database and containers, the checkout of the app at hand (its head commit), the
  per-app directories, and the background threads started. What git, podman, the OAuth service and
  the file system answer, and what other requests and threads do while a handler awaits, are
  arguments.
\<close>

datatype thread =
    DeployThread string
  | ReloadThread string string
  | RemoveThread string bool

record rstate =
  rs_sys :: sys
  rs_head :: string
  rs_dirs :: "string list"
  rs_threads :: "thread list"

datatype http_error =
    ValidationError string
  | NotAuthorizedError string
  | NotFoundErr
  | ConflictError string
  | Unavailable string
  | InternalError string

record review =
  rv_settings :: "setting_change list"
  rv_permissions :: "(permission_grant \<times> string) list"

datatype route_response =
    OkResponse
  | ReviewRequired review
  | RedirectTo string
  | AlreadyRemoving
  | AddedApp string string
  | RenamedApp string
  | RemoteSet string

datatype oauth_answer = TokenOk string | OAuthNeeded string | SecretsDown string

record route_env =
  re_host :: host
  re_config :: config
  re_netloc_ok :: "string \<Rightarrow> bool"
  re_loads :: "string \<Rightarrow> pyval"
  re_is_git :: "string \<Rightarrow> bool"
  re_is_dir :: "string \<Rightarrow> bool"
  re_tree :: "string \<Rightarrow> string \<Rightarrow> string option"
  re_head_readable :: bool
  re_pull :: "string option \<Rightarrow> string \<Rightarrow> (bool \<times> string option) \<times> string"
  re_oauth :: oauth_answer
  re_reset_works :: bool
  re_landed :: "string option"
  re_thread_starts :: bool
  re_rename_fails :: "string \<Rightarrow> string \<Rightarrow> bool"
  re_during_pull :: "sys \<Rightarrow> sys"
  re_during_gate :: "sys \<Rightarrow> sys"
  re_during_rename :: "sys \<Rightarrow> sys"

section \<open>Helpers\<close>

definition is_removing :: "app_row \<Rightarrow> bool" where
  "is_removing row \<longleftrightarrow> a_status row = Removing"

definition resolve_app :: "string \<Rightarrow> db \<Rightarrow> http_error + app_row" where
  "resolve_app app_id db =
     (if \<not> is_valid_app_id app_id then Inl (ValidationError ''Invalid app_id'')
      else (case find_app app_id db of None \<Rightarrow> Inl NotFoundErr | Some row \<Rightarrow> Inr row))"

definition REMOVING :: http_error where
  "REMOVING = ConflictError ''App is being removed''"

text \<open>\<open>_resolve_app\<close> followed by the check every mutating route but \<open>/remove_app\<close> makes.\<close>

definition resolve_mutable :: "string \<Rightarrow> db \<Rightarrow> http_error + app_row" where
  "resolve_mutable app_id db =
     bind_res (resolve_app app_id db) (\<lambda>row. if is_removing row then Inl REMOVING else Inr row)"

definition oauth_return_origin :: "domain option \<Rightarrow> string \<Rightarrow> db \<Rightarrow> domain_error + string" where
  "oauth_return_origin zone netloc db =
     (case zone of
        Some z \<Rightarrow> Inr (scheme z @ ''://'' @ host_with_request_port (name_no_port z) netloc)
      | None \<Rightarrow> bind_res (primary_domain db) (\<lambda>p. Inr (scheme p @ ''://'' @ dn_name p)))"

definition pin_refless_to_landed_branch ::
    "(string \<Rightarrow> bool) \<Rightarrow> string option \<Rightarrow> bool \<Rightarrow> string option \<Rightarrow> string option" where
  "pin_refless_to_landed_branch ok repo_url is_git landed =
     (case non_empty repo_url of
        None \<Rightarrow> None
      | Some url \<Rightarrow>
          (case parse_repo_url ok url of
             None \<Rightarrow> None
           | Some (base_url, ref) \<Rightarrow>
               if non_empty ref \<noteq> None \<or> \<not> is_git then None
               else (case non_empty landed of None \<Rightarrow> None | Some b \<Rightarrow> Some (base_url @ ''@'' @ b))))"

definition classify_error :: "string option \<Rightarrow> string option \<times> string option" where
  "classify_error error_msg =
     (case non_empty error_msg of
        Some m \<Rightarrow>
          if contains_str m BUILD_CACHE_CORRUPT_MARKER \<or> contains_str m ''[CACHE_CORRUPT]''
          then (Some ''Container build cache is corrupted.'', Some ''build_cache_corrupt'') else (error_msg, None)
      | None \<Rightarrow> (error_msg, None))"

definition api_apps :: "db \<Rightarrow> (string \<times> string \<times> app_status \<times> string option) list" where
  "api_apps db = map (\<lambda>r. (a_app_id r, a_name r, a_status r, a_error_message r)) (sort_key a_name (apps db))"

section \<open>Installing\<close>

record add_request =
  aq_repo_url :: string
  aq_app_name :: "string option"
  aq_clone_dir :: "string option"
  aq_grants :: "permission_grant list"
  aq_grant_all :: bool
  aq_port_overrides :: "(string \<times> int) list"

datatype clone_answer = CloneOk app_manifest string | CloneError string | CloneNeedsOAuth string

definition stripped :: "string option \<Rightarrow> string option" where
  "stripped x = (case non_empty x of None \<Rightarrow> None | Some s \<Rightarrow> non_empty (Some (py_strip s)))"

text \<open>The manifest and directory to install from: the earlier clone if it is still there, else a new one.\<close>

definition source_to_install ::
    "route_env \<Rightarrow> add_request \<Rightarrow> (string \<Rightarrow> clone_answer) \<Rightarrow> (string \<Rightarrow> string \<Rightarrow> string option)
       \<Rightarrow> http_error + app_manifest \<times> string" where
  "source_to_install e q clone files =
     (case (case stripped (aq_clone_dir q) of Some d \<Rightarrow> if re_is_dir e d then Some d else None | None \<Rightarrow> None) of
        Some d \<Rightarrow>
          (case parse_manifest (h_env (re_host e)) (files d) d of
             Inr m \<Rightarrow> Inr (m, d)
           | Inl (ValueError x) \<Rightarrow> Inl (ValidationError ''manifest'')
           | Inl _ \<Rightarrow> Inl (InternalError ''manifest''))
      | None \<Rightarrow>
          (case clone (py_strip (aq_repo_url q)) of
             CloneOk m d \<Rightarrow> Inr (m, d)
           | CloneError msg \<Rightarrow> Inl (ValidationError msg)
           | CloneNeedsOAuth url \<Rightarrow> Inl (NotAuthorizedError url)))"

definition repo_dir :: "config \<Rightarrow> string \<Rightarrow> string" where
  "repo_dir cfg app_name =
     path_join (path_join (path_join (temporary_data_dir cfg) ''app_temp_data'') app_name) ''repo''"

definition http_of_exn :: "host \<Rightarrow> app_exn \<Rightarrow> http_error" where
  "http_of_exn h e =
     (if is_runtime_error e \<or> is_value_error e then ValidationError (h_text h e) else InternalError (h_text h e))"

definition api_add_app ::
    "route_env \<Rightarrow> add_request \<Rightarrow> (string \<Rightarrow> clone_answer) \<Rightarrow> (string \<Rightarrow> string \<Rightarrow> string option) \<Rightarrow> rstate
       \<Rightarrow> (http_error + route_response) \<times> rstate" where
  "api_add_app e q clone files s =
     (let h = re_host e; db = sdb (rs_sys s); repo_url = py_strip (aq_repo_url q) in
      if repo_url = [] then (Inl (ValidationError ''No repository URL provided''), s)
      else (case source_to_install e q clone files of
          Inl err \<Rightarrow> (Inl err, s)
        | Inr (m, clone_dir) \<Rightarrow>
     (case chosen_name m (stripped (aq_app_name q)) of
          Inl err \<Rightarrow> (Inl (InternalError ''name''), s)
        | Inr app_name \<Rightarrow>
     (case validate_manifest m db (Some app_name) of
          Inl err \<Rightarrow> (Inl (InternalError ''name''), s)
        | Inr (Some problem) \<Rightarrow> (Inl (ValidationError ''name''), s)
        | Inr None \<Rightarrow>
     (if truthy (m_app_archive m) \<and> \<not> is_archive_dir_healthy h
      then (Inl (Unavailable ''archive''), s)
      else
     (let final_dir = repo_dir (re_config e) app_name;
          pinned = pin_refless_to_landed_branch (re_netloc_ok e) (Some repo_url) (re_is_git e final_dir) (re_landed e);
          url = (case pinned of Some p \<Rightarrow> p | None \<Rightarrow> repo_url);
          grants = (if aq_grants q = [] \<and> aq_grant_all q then all_manifest_permissions_v2 m else aq_grants q)
      in case insert_and_deploy (re_config e) h m final_dir db grants (Some app_name) (Some url) (aq_port_overrides q) of
           (Inl err, db') \<Rightarrow> (Inl (http_of_exn h err), s\<lparr>rs_sys := (rs_sys s)\<lparr>sdb := db'\<rparr>\<rparr>)
         | (Inr (app_id, env_vars), db') \<Rightarrow>
             (Inr (AddedApp app_id app_name),
              s\<lparr>rs_sys := (rs_sys s)\<lparr>sdb := db'\<rparr>, rs_threads := DeployThread app_id # rs_threads s\<rparr>)))))))"

section \<open>Stopping\<close>

definition mark_stopped :: "string \<Rightarrow> db \<Rightarrow> db" where
  "mark_stopped app_id db = update_app app_id (\<lambda>r. r\<lparr>a_status := Stopped, a_container_id := None\<rparr>) db"

definition stop_app :: "route_env \<Rightarrow> string \<Rightarrow> rstate \<Rightarrow> (http_error + route_response) \<times> rstate" where
  "stop_app e app_id s =
     (case resolve_mutable app_id (sdb (rs_sys s)) of
        Inl err \<Rightarrow> (Inl err, s)
      | Inr row \<Rightarrow>
          (let h = re_host e; name = app_container_name (a_name row); s1 = stop_app_process h row (rs_sys s) in
           if h_stop_raises h name then (Inl (InternalError ''podman timed out''), s\<lparr>rs_sys := s1\<rparr>)
           else (let s2 = stop_container h name s1 in
                 (Inr OkResponse, s\<lparr>rs_sys := s2\<lparr>sdb := mark_stopped app_id (sdb s2)\<rparr>\<rparr>))))"

section \<open>The review gate\<close>

text \<open>The parser's \<open>ValueError\<close> lets the update through (the reload will report it), another exception leaves.\<close>

definition gate_update_review ::
    "route_env \<Rightarrow> string \<Rightarrow> string \<Rightarrow> string \<Rightarrow> bool \<Rightarrow> string option \<Rightarrow> db
       \<Rightarrow> (http_error + review option) \<times> db" where
  "gate_update_review e head app_id repo_path approve previous_raw db =
     (if repo_path = [] \<or> \<not> re_is_dir e repo_path then (Inr None, db)
      else (case parse_manifest (h_env (re_host e)) (re_tree e head) repo_path of
          Inl (ValueError x) \<Rightarrow> (Inr None, db)
        | Inl x \<Rightarrow> (Inl (InternalError ''manifest''), db)
        | Inr m \<Rightarrow>
     (case (manifest_newly_declared_permissions_v2 (h_env (re_host e)) m
              (get_all_permissions_v2 (re_loads e) db (Some app_id)) previous_raw,
            manifest_settings_changes (h_env (re_host e)) m previous_raw) of
          (Inr new_perms, Inr changed) \<Rightarrow>
            (if new_perms = [] \<and> \<not> settings_changes_require_review changed then (Inr None, db)
             else if approve
             then (case grant_all (re_host e) app_id new_perms db of
                 (Inl x, db') \<Rightarrow> (Inl (InternalError ''grant''), db')
               | (Inr u, db') \<Rightarrow> (Inr None, db'))
             else (Inr (Some \<lparr>rv_settings = changed,
                      rv_permissions = map (\<lambda>pg. (pg,
                        (case map_of (rev (map (\<lambda>c. (sc_service c, sc_shortname c)) (m_consumes m))) (pg_service_url pg) of
                           None \<Rightarrow> [] | Some n \<Rightarrow> n))) new_perms\<rparr>), db))
        | _ \<Rightarrow> (Inl (InternalError ''manifest''), db))))"

section \<open>Reloading\<close>

text \<open>After a failure of the update the browser is sent back if it came from the OAuth page.\<close>

definition end_update :: "bool \<Rightarrow> string \<Rightarrow> route_response" where
  "end_update continue_oauth app_name =
     (if continue_oauth then RedirectTo (''/app_detail/'' @ app_name) else OkResponse)"

lemma sys_db_same: "(x::sys)\<lparr>sdb := sdb x\<rparr> = x"
  by simp

definition with_db :: "(db \<Rightarrow> db) \<Rightarrow> rstate \<Rightarrow> rstate" where
  "with_db f s = s\<lparr>rs_sys := (rs_sys s)\<lparr>sdb := f (sdb (rs_sys s))\<rparr>\<rparr>"

definition run_pull :: "route_env \<Rightarrow> string option \<Rightarrow> rstate \<Rightarrow> (bool \<times> string option) \<times> rstate" where
  "run_pull e token s =
     (let (result, head) = re_pull e token (rs_head s)
      in (result, s\<lparr>rs_head := head, rs_sys := re_during_pull e (rs_sys s)\<rparr>))"

definition pull_failed :: "string \<Rightarrow> string \<Rightarrow> bool \<Rightarrow> string option \<Rightarrow> rstate \<Rightarrow> route_response \<times> rstate" where
  "pull_failed app_id app_name continue_oauth err s =
     (end_update continue_oauth app_name,
      with_db (mark_error app_id (''Git pull failed: '' @ (case err of None \<Rightarrow> ''None'' | Some m \<Rightarrow> m))) s)"

text \<open>The pull of an update, first without and then with a GitHub token; \<open>Inr\<close> when it succeeded.\<close>

definition update_checkout ::
    "route_env \<Rightarrow> app_row \<Rightarrow> bool \<Rightarrow> rstate \<Rightarrow> ((http_error + route_response) + unit) \<times> rstate" where
  "update_checkout e row continue_oauth s =
     (let app_id = a_app_id row; name = a_name row;
          repo_url = (case a_repo_url row of Some u \<Rightarrow> u | None \<Rightarrow> []);
          ((pull_ok, pull_err), s1) = (if continue_oauth then ((False, None), s) else run_pull e None s)
      in if pull_ok then (Inr (), s1)
         else (case is_github_repo_url (re_netloc_ok e) repo_url of
             None \<Rightarrow> (Inl (Inl (InternalError ''repo_url'')), s1)
           | Some False \<Rightarrow> (let (r, s2) = pull_failed app_id name continue_oauth pull_err s1 in (Inl (Inr r), s2))
           | Some True \<Rightarrow>
               (case re_oauth e of
                  OAuthNeeded authorize_url \<Rightarrow> (Inl (Inr (RedirectTo authorize_url)), s1)
                | SecretsDown msg \<Rightarrow>
                    (Inl (Inr (end_update continue_oauth name)), with_db (mark_error app_id msg) s1)
                | TokenOk token \<Rightarrow>
                    (let ((pull_ok2, pull_err2), s2) = run_pull e (Some token) s1 in
                     if pull_ok2 then (Inr (), s2)
                     else (let (r, s3) = pull_failed app_id name continue_oauth pull_err2 s2 in (Inl (Inr r), s3))))))"

definition pin_upstream :: "route_env \<Rightarrow> app_row \<Rightarrow> rstate \<Rightarrow> rstate" where
  "pin_upstream e row s =
     (case pin_refless_to_landed_branch (re_netloc_ok e) (a_repo_url row) (re_is_git e (a_repo_path row)) (re_landed e) of
        None \<Rightarrow> s
      | Some pinned \<Rightarrow> with_db (update_app (a_app_id row) (\<lambda>r. r\<lparr>a_repo_url := Some pinned\<rparr>)) s)"

definition NO_GIT :: string where
  "NO_GIT = ''No git repository found to update. If this is a builtin app, git-based updates are not possible.''"

text \<open>The atomic claim: the number of rows updated, and the database after the commit.\<close>

definition claim_reload :: "string \<Rightarrow> db \<Rightarrow> nat \<times> db" where
  "claim_reload app_id db =
     (let free = (\<lambda>r. a_app_id r = app_id \<and> a_status r \<notin> {Building, Starting, Removing}) in
      (length (filter free (apps db)),
       db\<lparr>apps := update_rows free (\<lambda>r. r\<lparr>a_status := Building, a_container_id := None, a_error_message := None\<rparr>)
          (apps db)\<rparr>))"

definition start_reload ::
    "route_env \<Rightarrow> app_row \<Rightarrow> bool \<Rightarrow> rstate \<Rightarrow> (http_error + route_response) \<times> rstate" where
  "start_reload e row continue_oauth s =
     (let (rowcount, db') = claim_reload (a_app_id row) (sdb (rs_sys s)); s1 = with_db (\<lambda>_. db') s in
      if rowcount = 0 \<and> \<not> continue_oauth then (Inl (ConflictError ''App is already reloading''), s1)
      else (Inr OkResponse,
            s1\<lparr>rs_sys := stop_app_process (re_host e) row (rs_sys s1),
               rs_threads := ReloadThread (a_app_id row) (a_repo_path row) # rs_threads s1\<rparr>))"

definition roll_back :: "route_env \<Rightarrow> string option \<Rightarrow> rstate \<Rightarrow> rstate" where
  "roll_back e pre_pull_sha s =
     (case pre_pull_sha of
        None \<Rightarrow> s
      | Some sha \<Rightarrow> if sha \<noteq> [] \<and> re_reset_works e then s\<lparr>rs_head := sha\<rparr> else s)"

definition review_then_reload ::
    "route_env \<Rightarrow> app_row \<Rightarrow> bool \<Rightarrow> bool \<Rightarrow> string option \<Rightarrow> rstate
       \<Rightarrow> (http_error + route_response) \<times> rstate" where
  "review_then_reload e row continue_oauth approve pre_pull_sha s =
     (let (gate, db') = gate_update_review e (rs_head s) (a_app_id row) (a_repo_path row) approve
            (a_manifest_raw row) (sdb (rs_sys s));
          s1 = s\<lparr>rs_sys := re_during_gate e ((rs_sys s)\<lparr>sdb := db'\<rparr>)\<rparr>
      in case gate of
           Inl err \<Rightarrow> (Inl err, s1)
         | Inr None \<Rightarrow> start_reload e row continue_oauth s1
         | Inr (Some rv) \<Rightarrow>
             (Inr (if continue_oauth then RedirectTo (''/app_detail/'' @ a_name row) else ReviewRequired rv),
              roll_back e pre_pull_sha s1))"

definition reload_app_impl ::
    "route_env \<Rightarrow> string \<Rightarrow> bool \<Rightarrow> bool \<Rightarrow> bool \<Rightarrow> rstate \<Rightarrow> (http_error + route_response) \<times> rstate" where
  "reload_app_impl e app_id update continue_oauth approve s =
     (let h = re_host e in
      case resolve_mutable app_id (sdb (rs_sys s)) of
        Inl err \<Rightarrow> (Inl err, s)
      | Inr row \<Rightarrow>
     (case (if is_archive_dir_healthy h then Inr False
            else manifest_requires_archive (h_env h) (case a_manifest_raw row of Some t \<Rightarrow> t | None \<Rightarrow> [])) of
        Inl x \<Rightarrow> (Inl (InternalError ''manifest''), s)
      | Inr True \<Rightarrow> (Inl (Unavailable ''archive''), s)
      | Inr False \<Rightarrow>
          if \<not> (update \<or> continue_oauth) then start_reload e row continue_oauth s
          else if a_repo_path row = [] \<or> \<not> re_is_git e (a_repo_path row)
          then (Inr OkResponse, with_db (mark_error app_id NO_GIT) s)
          else
            (let pre_pull_sha = (if re_head_readable e then Some (rs_head s) else None) in
             case update_checkout e row continue_oauth s of
               (Inl r, s1) \<Rightarrow> (r, s1)
             | (Inr u, s1) \<Rightarrow> review_then_reload e row continue_oauth approve pre_pull_sha (pin_upstream e row s1))))"

definition reload_app :: "route_env \<Rightarrow> string \<Rightarrow> bool \<Rightarrow> bool \<Rightarrow> rstate \<Rightarrow> (http_error + route_response) \<times> rstate" where
  "reload_app e app_id update approve s = reload_app_impl e app_id update False approve s"

definition reload_app_after_oauth :: "route_env \<Rightarrow> string \<Rightarrow> bool \<Rightarrow> rstate \<Rightarrow> (http_error + route_response) \<times> rstate" where
  "reload_app_after_oauth e app_id continue_oauth_update s =
     (if \<not> continue_oauth_update
      then (Inr (case find_app app_id (sdb (rs_sys s)) of
              None \<Rightarrow> RedirectTo ''/dashboard'' | Some row \<Rightarrow> RedirectTo (''/app_detail/'' @ a_name row)), s)
      else reload_app_impl e app_id True True False s)"

section \<open>Removing\<close>

definition claim_removal :: "string \<Rightarrow> db \<Rightarrow> nat \<times> db" where
  "claim_removal app_id db =
     (let free = (\<lambda>r. a_app_id r = app_id \<and> a_status r \<noteq> Removing) in
      (length (filter free (apps db)),
       db\<lparr>apps := update_rows free (\<lambda>r. r\<lparr>a_status := Removing, a_error_message := None\<rparr>) (apps db)\<rparr>))"

definition remove_app :: "route_env \<Rightarrow> string \<Rightarrow> bool \<Rightarrow> rstate \<Rightarrow> (http_error + route_response) \<times> rstate" where
  "remove_app e app_id keep_data s =
     (let h = re_host e in
      case resolve_app app_id (sdb (rs_sys s)) of
        Inl err \<Rightarrow> (Inl err, s)
      | Inr row \<Rightarrow>
     (case (if keep_data \<or> is_archive_dir_healthy h then Inr False
            else manifest_uses_archive (h_env h) (case a_manifest_raw row of Some t \<Rightarrow> t | None \<Rightarrow> [])) of
        Inl x \<Rightarrow> (Inl (InternalError ''manifest''), s)
      | Inr True \<Rightarrow> (Inl (Unavailable ''archive''), s)
      | Inr False \<Rightarrow>
          (let (rowcount, db') = claim_removal app_id (sdb (rs_sys s)); s1 = with_db (\<lambda>_. db') s in
           if rowcount = 0 then (Inr AlreadyRemoving, s1)
           else if re_thread_starts e
           then (Inr OkResponse, s1\<lparr>rs_threads := RemoveThread app_id keep_data # rs_threads s1\<rparr>)
           else (Inl (Unavailable ''Could not start removal worker; try again.''),
                 with_db (mark_error app_id ''Could not start removal worker'') s1))))"

section \<open>Renaming\<close>

text \<open>\<open>REPLACE(s, pat, rep)\<close> of SQLite: left to right, without overlaps; \<open>k\<close> characters are still to skip.\<close>

fun replace_from :: "string \<Rightarrow> string \<Rightarrow> nat \<Rightarrow> string \<Rightarrow> string" where
  "replace_from pat rep k [] = []"
| "replace_from pat rep k (c # cs) =
     (if 0 < k then replace_from pat rep (k - 1) cs
      else if startswith (c # cs) pat then rep @ replace_from pat rep (length pat - 1) cs
      else c # replace_from pat rep 0 cs)"

definition sql_replace :: "string \<Rightarrow> string \<Rightarrow> string \<Rightarrow> string" where
  "sql_replace s pat rep = (if pat = [] then s else replace_from pat rep 0 s)"

definition rename_dir :: "string \<Rightarrow> string \<Rightarrow> string list \<Rightarrow> string list" where
  "rename_dir a b dirs = map (\<lambda>d. if d = a then b else d) dirs"

text \<open>The loop over the parents: whether it finished, the directories, and the renames done, last first.\<close>

fun rename_loop ::
    "(string \<Rightarrow> string \<Rightarrow> bool) \<Rightarrow> string \<Rightarrow> string \<Rightarrow> string list \<Rightarrow> string list \<Rightarrow> (string \<times> string) list
       \<Rightarrow> bool \<times> string list \<times> (string \<times> string) list" where
  "rename_loop fails old_name new_name [] dirs renamed = (True, dirs, renamed)"
| "rename_loop fails old_name new_name (parent # ps) dirs renamed =
     (let old_dir = path_join parent old_name; new_dir = path_join parent new_name in
      if old_dir \<in> set dirs \<and> new_dir \<notin> set dirs
      then (if fails old_dir new_dir then (False, dirs, renamed)
            else rename_loop fails old_name new_name ps (rename_dir old_dir new_dir dirs) ((old_dir, new_dir) # renamed))
      else rename_loop fails old_name new_name ps dirs renamed)"

definition rename_roll_back ::
    "(string \<Rightarrow> string \<Rightarrow> bool) \<Rightarrow> (string \<times> string) list \<Rightarrow> string list \<Rightarrow> string list" where
  "rename_roll_back fails renamed dirs =
     foldl (\<lambda>ds (old_dir, new_dir). if fails new_dir old_dir then ds else rename_dir new_dir old_dir ds) dirs renamed"

definition rename_parents :: "config \<Rightarrow> (string \<Rightarrow> bool) \<Rightarrow> string list" where
  "rename_parents cfg is_dir =
     [path_join (persistent_data_dir cfg) ''app_data'', path_join (temporary_data_dir cfg) ''app_temp_data'']
     @ (if is_dir (app_archive_dir cfg) then [app_archive_dir cfg] else [])"

text \<open>\<open>_rename_app_storage_dirs\<close>: the error, if any, and the directories afterwards.\<close>

definition rename_app_storage_dirs ::
    "config \<Rightarrow> (string \<Rightarrow> bool) \<Rightarrow> (string \<Rightarrow> string \<Rightarrow> bool) \<Rightarrow> string \<Rightarrow> string \<Rightarrow> string list
       \<Rightarrow> string option \<times> string list" where
  "rename_app_storage_dirs cfg is_dir fails old_name new_name dirs =
     (if list_ex (\<lambda>p. \<not> is_dir p) (take 2 (rename_parents cfg is_dir)) then (Some ''parent'', dirs)
      else (case rename_loop fails old_name new_name (rename_parents cfg is_dir) dirs [] of
          (True, dirs', renamed) \<Rightarrow> (None, dirs')
        | (False, dirs', renamed) \<Rightarrow> (Some ''rename'', rename_roll_back fails renamed dirs')))"

definition rename_rows :: "string \<Rightarrow> string \<Rightarrow> string \<Rightarrow> db \<Rightarrow> db" where
  "rename_rows app_id old_name new_name db =
     (let old_part = ''/'' @ old_name @ ''/''; new_part = ''/'' @ new_name @ ''/'' in
      (update_app app_id (\<lambda>r. r\<lparr>a_name := new_name, a_repo_path := sql_replace (a_repo_path r) old_part new_part\<rparr>) db)
        \<lparr>app_databases := update_rows (\<lambda>r. d_app_id r = app_id)
           (\<lambda>r. r\<lparr>d_db_path := sql_replace (d_db_path r) old_part new_part\<rparr>) (app_databases db)\<rparr>)"

definition restart_after_rename ::
    "route_env \<Rightarrow> string \<Rightarrow> string \<Rightarrow> rstate \<Rightarrow> (http_error + route_response) \<times> rstate" where
  "restart_after_rename e app_id new_name s =
     (let (res, sys') = start_app_process (re_config e) (re_host e) True app_id (rs_sys s); s1 = s\<lparr>rs_sys := sys'\<rparr> in
      case res of
        Inr u \<Rightarrow> (Inr (RenamedApp new_name), s1)
      | Inl x \<Rightarrow>
          if is_runtime_error x \<or> is_value_error x
          then (Inr (RenamedApp new_name), with_db (mark_error app_id (h_text (re_host e) x)) s1)
          else (Inl (InternalError (h_text (re_host e) x)), s1))"

definition do_rename :: "route_env \<Rightarrow> app_row \<Rightarrow> string \<Rightarrow> rstate \<Rightarrow> (http_error + route_response) \<times> rstate" where
  "do_rename e row new_name s =
     (let app_id = a_app_id row;
          s1 = with_db (mark_stopped app_id) (s\<lparr>rs_sys := stop_app_process (re_host e) row (rs_sys s)\<rparr>);
          s2 = s1\<lparr>rs_sys := re_during_rename e (rs_sys s1)\<rparr>;
          (err, dirs') = rename_app_storage_dirs (re_config e) (re_is_dir e) (re_rename_fails e) (a_name row) new_name (rs_dirs s2);
          s3 = s2\<lparr>rs_dirs := dirs'\<rparr>
      in if err \<noteq> None
         then (Inl (InternalError ''Failed to rename app data directories''),
               with_db (update_app app_id (\<lambda>r. r\<lparr>a_status := a_status row, a_container_id := a_container_id row\<rparr>)) s3)
         else if exists_row (\<lambda>r. a_app_id r \<noteq> app_id \<and> a_name r = new_name) (apps (sdb (rs_sys s3)))
                 \<and> exists_row (\<lambda>r. a_app_id r = app_id) (apps (sdb (rs_sys s3)))
         then (Inl (InternalError ''UNIQUE constraint failed: apps.name''), s3)
         else (let s4 = with_db (rename_rows app_id (a_name row) new_name) s3 in
               if a_status row \<in> {Running, Starting, Building}
               then restart_after_rename e app_id new_name s4
               else (Inr (RenamedApp new_name), s4)))"

definition rename_app :: "route_env \<Rightarrow> string \<Rightarrow> string \<Rightarrow> rstate \<Rightarrow> (http_error + route_response) \<times> rstate" where
  "rename_app e app_id name s =
     (let new_name = py_strip name; h = re_host e; db = sdb (rs_sys s) in
      if new_name = [] then (Inl (ValidationError ''Name is required''), s)
      else if \<not> is_valid_app_name new_name
      then (Inl (ValidationError ''Name must be lowercase alphanumeric (hyphens allowed, not at start/end)''), s)
      else if ''/'' @ new_name \<in> set RESERVED_PATHS then (Inl (ValidationError ''reserved path''), s)
      else (case resolve_mutable app_id db of
          Inl err \<Rightarrow> (Inl err, s)
        | Inr row \<Rightarrow>
     (case manifest_uses_archive (h_env h) (case a_manifest_raw row of Some t \<Rightarrow> t | None \<Rightarrow> []) of
          Inl x \<Rightarrow> (Inl (InternalError ''manifest''), s)
        | Inr uses \<Rightarrow>
            if uses \<and> \<not> is_archive_dir_healthy h then (Inl (Unavailable ''archive''), s)
            else if new_name = a_name row then (Inr (RenamedApp new_name), s)
            else if exists_row (\<lambda>r. a_name r = new_name) (apps db)
            then (Inl (ConflictError ''Name already in use''), s)
            else do_rename e row new_name s)))"

section \<open>The upstream\<close>

definition set_app_remote :: "route_env \<Rightarrow> string \<Rightarrow> string \<Rightarrow> rstate \<Rightarrow> (http_error + route_response) \<times> rstate" where
  "set_app_remote e app_id url s =
     (let repo_url = py_strip url in
      if repo_url = [] then (Inl (ValidationError ''Repo URL is required''), s)
      else (case resolve_mutable app_id (sdb (rs_sys s)) of
          Inl err \<Rightarrow> (Inl err, s)
        | Inr row \<Rightarrow>
            if a_repo_path row = [] \<or> \<not> re_is_git e (a_repo_path row)
            then (Inl (ValidationError ''This app has no git repository, so its upstream cannot be edited.''), s)
            else (case parse_repo_url (re_netloc_ok e) repo_url of
                None \<Rightarrow> (Inl (ValidationError ''repo_url''), s)
              | Some (base_url, ref) \<Rightarrow>
                  (let normalized = (case non_empty ref of Some r \<Rightarrow> base_url @ ''@'' @ r | None \<Rightarrow> base_url) in
                   (Inr (RemoteSet normalized),
                    with_db (update_app app_id (\<lambda>r. r\<lparr>a_repo_url := Some normalized\<rparr>)) s)))))"

section \<open>Facts\<close>

lemma sql_replace_none: "\<not> contains_str s pat \<Longrightarrow> sql_replace s pat rep = s"
proof -
  have "\<not> contains_str t pat \<Longrightarrow> replace_from pat rep 0 t = t" for t by (induction t) auto
  then show "\<not> contains_str s pat \<Longrightarrow> sql_replace s pat rep = s" by (simp add: sql_replace_def)
qed

text \<open>
  The paths are rewritten by text: renaming an app whose name is also a directory above the data
  directory rewrites that directory too, and the stored path no longer exists.
\<close>

lemma rename_rewrites_data_root:
  "sql_replace ''/srv/bottle/tmp/bottle/repo'' ''/bottle/'' ''/notes/'' = ''/srv/notes/tmp/notes/repo''"
  by code_simp

lemma key_preserving_route [simp]:
  "key_preserving (\<lambda>r. r\<lparr>a_status := st, a_container_id := c\<rparr>)"
  "key_preserving (\<lambda>r. r\<lparr>a_repo_url := u\<rparr>)"
  "key_preserving (\<lambda>r. r\<lparr>a_status := st, a_container_id := c, a_error_message := m\<rparr>)"
  "key_preserving (\<lambda>r. r\<lparr>a_status := st, a_error_message := m\<rparr>)"
  by (simp_all add: key_preserving_def)

lemma resolve_mutable_Inr: "resolve_mutable i db = Inr row \<longleftrightarrow>
    is_valid_app_id i \<and> find_app i db = Some row \<and> a_status row \<noteq> Removing"
  by (auto simp: resolve_mutable_def resolve_app_def is_removing_def REMOVING_def split: option.splits if_splits)

lemma resolve_mutable_removing:
  "find_app i db = Some row \<Longrightarrow> a_status row = Removing \<Longrightarrow> \<exists>err. resolve_mutable i db = Inl err"
  by (cases "resolve_mutable i db") (auto simp: resolve_mutable_Inr)

lemma filter_id_find:
  assumes "distinct (map a_app_id rows)"
  shows "length (filter (\<lambda>r. a_app_id r = i \<and> P r) rows) =
    (case List.find (\<lambda>r. a_app_id r = i) rows of None \<Rightarrow> 0 | Some r \<Rightarrow> if P r then 1 else 0)"
  using assms
proof (induction rows)
  case (Cons x xs)
  have "length (filter (\<lambda>r. a_app_id r = i \<and> P r) xs) = 0" if "a_app_id x = i"
    using that Cons.prems by (auto simp: filter_empty_conv) (metis image_eqI)
  with Cons show ?case by auto
qed simp

text \<open>On an existing row a claim succeeds exactly when the row is in one of the free states.\<close>

lemma claim_reload_count:
  assumes "db_ok db"
  shows "fst (claim_reload i db) = (case find_app i db of
    None \<Rightarrow> 0 | Some r \<Rightarrow> if a_status r \<notin> {Building, Starting, Removing} then 1 else 0)"
  using filter_id_find [of "apps db" i "\<lambda>r. a_status r \<notin> {Building, Starting, Removing}"] assms
  by (simp add: claim_reload_def Let_def find_app_def db_ok_def apps_ok_def)

lemma claim_removal_count:
  assumes "db_ok db"
  shows "fst (claim_removal i db) = (case find_app i db of
    None \<Rightarrow> 0 | Some r \<Rightarrow> if a_status r \<noteq> Removing then 1 else 0)"
  using filter_id_find [of "apps db" i "\<lambda>r. a_status r \<noteq> Removing"] assms
  by (simp add: claim_removal_def Let_def find_app_def db_ok_def apps_ok_def)

lemma update_rows_none: "length (filter P rows) = 0 \<Longrightarrow> update_rows P f rows = rows"
  by (auto simp: update_rows_def filter_empty_conv intro: map_idI)

lemma with_db_same: "with_db (\<lambda>_. sdb (rs_sys s)) s = s"
  by (simp add: with_db_def)

lemma claim_removal_refused: "fst (claim_removal i db) = 0 \<Longrightarrow> snd (claim_removal i db) = db"
  by (simp add: claim_removal_def Let_def update_rows_none)

lemma claim_reload_refused: "fst (claim_reload i db) = 0 \<Longrightarrow> snd (claim_reload i db) = db"
  by (simp add: claim_reload_def Let_def update_rows_none)

lemma gate_passes:
  assumes "fst (gate_update_review e head i path False prev db) = Inr None"
  shows "path = [] \<or> \<not> re_is_dir e path \<or>
    (\<exists>x. parse_manifest (h_env (re_host e)) (re_tree e head) path = Inl (ValueError x)) \<or>
    (\<exists>m changed. parse_manifest (h_env (re_host e)) (re_tree e head) path = Inr m \<and>
       manifest_newly_declared_permissions_v2 (h_env (re_host e)) m
         (get_all_permissions_v2 (re_loads e) db (Some i)) prev = Inr [] \<and>
       manifest_settings_changes (h_env (re_host e)) m prev = Inr changed \<and>
       \<not> settings_changes_require_review changed)"
  using assms by (auto simp: gate_update_review_def split: if_splits sum.splits py_exn.splits prod.splits)

lemma gate_refused_db:
  "gate_update_review e head i path False prev db = (r, db') \<Longrightarrow> db' = db"
  by (auto simp: gate_update_review_def split: if_splits sum.splits py_exn.splits prod.splits)

lemma with_db_simps [simp]:
  "rs_threads (with_db f s) = rs_threads s" "rs_head (with_db f s) = rs_head s" "rs_dirs (with_db f s) = rs_dirs s"
  "sdb (rs_sys (with_db f s)) = f (sdb (rs_sys s))" "containers (rs_sys (with_db f s)) = containers (rs_sys s)"
  by (simp_all add: with_db_def)

lemma run_pull_simps:
  assumes "run_pull e t s = (r, s1)"
  shows "rs_threads s1 = rs_threads s" "rs_sys s1 = re_during_pull e (rs_sys s)" "rs_dirs s1 = rs_dirs s"
  using assms by (auto simp: run_pull_def split: prod.splits)

lemma update_checkout_facts:
  assumes "update_checkout e row oauth s = (r, s1)"
  shows "rs_threads s1 = rs_threads s \<and> (\<forall>rv. r \<noteq> Inl (Inr (ReviewRequired rv))) \<and>
    (r = Inr () \<longrightarrow> re_during_pull e = (\<lambda>x. x) \<longrightarrow> rs_sys s1 = rs_sys s)"
proof -
  obtain ok err s0 where first: "(if oauth then ((False, None), s) else run_pull e None s) = ((ok, err), s0)"
    by (metis prod.collapse)
  then have s0: "rs_threads s0 = rs_threads s" "re_during_pull e = (\<lambda>x. x) \<Longrightarrow> rs_sys s0 = rs_sys s"
    using run_pull_simps [of e None s "(ok, err)" s0] by (auto split: if_splits)
  show ?thesis
  proof (cases "\<exists>t. re_oauth e = TokenOk t")
    case False
    then show ?thesis using assms s0 unfolding update_checkout_def Let_def first
      by (auto simp: pull_failed_def end_update_def split: if_splits option.splits bool.splits oauth_answer.splits)
  next
    case True
    then obtain t where t: "re_oauth e = TokenOk t" by blast
    obtain ok2 err2 s2 where second: "run_pull e (Some t) s0 = ((ok2, err2), s2)" by (metis prod.collapse)
    show ?thesis using assms s0 run_pull_simps [OF second] unfolding update_checkout_def Let_def first
      by (auto simp: pull_failed_def end_update_def t second split: if_splits option.splits bool.splits)
  qed
qed

lemma start_reload_facts:
  assumes "start_reload e row oauth s = (res, s')"
  shows "rs_head s' = rs_head s \<and> (\<forall>rv. res \<noteq> Inr (ReviewRequired rv))"
  using assms by (auto simp: start_reload_def Let_def split: prod.splits if_splits)

definition forget_upstream :: "app_row \<Rightarrow> app_row" where
  "forget_upstream r = r\<lparr>a_repo_url := None\<rparr>"

lemma pin_upstream_facts:
  "rs_threads (pin_upstream e row s) = rs_threads s" "containers (rs_sys (pin_upstream e row s)) = containers (rs_sys s)"
  "sdb (rs_sys (pin_upstream e row s))\<lparr>apps := x\<rparr> = sdb (rs_sys s)\<lparr>apps := x\<rparr>"
  "map forget_upstream (apps (sdb (rs_sys (pin_upstream e row s)))) = map forget_upstream (apps (sdb (rs_sys s)))"
  by (auto simp: pin_upstream_def update_app_def update_rows_def forget_upstream_def split: option.splits)

text \<open>What an update request without approval does once its guards are passed.\<close>

lemma unapproved_update_cases:
  assumes "reload_app_impl e i True oauth False s = (res, s')" and "find_app i (sdb (rs_sys s)) = Some row"
  obtains "rs_threads s' = rs_threads s" "\<forall>rv. res \<noteq> Inr (ReviewRequired rv)"
  | s1 sha where "update_checkout e row oauth s = (Inr (), s1)"
      "sha = (if re_head_readable e then Some (rs_head s) else None)"
      "review_then_reload e row oauth False sha (pin_upstream e row s1) = (res, s')"
proof (cases "resolve_mutable i (sdb (rs_sys s))")
  case (Inl err)
  with assms(1) show ?thesis by (intro that(1)) (auto simp: reload_app_impl_def)
next
  case (Inr r)
  then have r: "r = row" using assms(2) by (simp add: resolve_mutable_Inr)
  let ?guard = "if is_archive_dir_healthy (re_host e) then Inr False
      else manifest_requires_archive (h_env (re_host e)) (case a_manifest_raw row of Some t \<Rightarrow> t | None \<Rightarrow> [])"
  show ?thesis
  proof (cases "?guard = Inr False \<and> a_repo_path row \<noteq> [] \<and> re_is_git e (a_repo_path row)")
    case False
    with assms(1) Inr r show ?thesis
      by (intro that(1)) (auto simp: reload_app_impl_def split: sum.splits if_splits bool.splits)
  next
    case True
    obtain u s1 where u: "update_checkout e row oauth s = (u, s1)" by fastforce
    note step = assms(1) [unfolded reload_app_impl_def Let_def Inr r sum.case conjunct1 [OF True]]
    show ?thesis
    proof (cases u)
      case (Inl x)
      with step u True update_checkout_facts [OF u] show ?thesis by (intro that(1)) auto
    next
      case (Inr y)
      with step u True show ?thesis by (intro that(2) [of s1]) auto
    qed
  qed
qed

section \<open>A small instance\<close>

definition demo_route_env :: route_env where
  "demo_route_env = \<lparr>re_host = demo_host_env, re_config = demo_config, re_netloc_ok = (\<lambda>_. True),
     re_loads = PStr, re_is_git = (\<lambda>_. True), re_is_dir = (\<lambda>_. True),
     re_tree = (\<lambda>head p. if p = ''/r/cloudinabottle.toml'' then Some head else None),
     re_head_readable = True, re_pull = (\<lambda>_ _. ((True, None), ''new'')), re_oauth = SecretsDown ''down'',
     re_reset_works = True, re_landed = Some ''main'', re_thread_starts = True,
     re_rename_fails = (\<lambda>a b. a = ''/opt/temporary_data/app_temp_data/notes''), re_during_pull = (\<lambda>x. x),
     re_during_gate = (\<lambda>x. x), re_during_rename = (\<lambda>x. x)\<rparr>"

definition demo_rstate :: rstate where
  "demo_rstate = \<lparr>rs_sys = \<lparr>sdb = empty_db\<lparr>apps := [demo_app ''abcdefghijkm'' ''notes'' 9000 Running]\<rparr>,
     containers = [(''c1'', ''notes'')]\<rparr>, rs_head = ''old'', rs_dirs = [], rs_threads = []\<rparr>"

lemma demo_rstate_facts:
  "db_ok (sdb (rs_sys demo_rstate))" "rs_head demo_rstate = ''old''" "rs_threads demo_rstate = []"
  "find_app ''abcdefghijkm'' (sdb (rs_sys demo_rstate)) = Some (demo_app ''abcdefghijkm'' ''notes'' 9000 Running)"
  "is_valid_app_id ''abcdefghijkm''"
  by (simp_all add: demo_rstate_def find_app_def db_ok_def apps_ok_def ports_ok_def tokens_ok_def
      foreign_keys_ok_def empty_db_def demo_app_def is_valid_app_id_def APP_ID_LENGTH_def BASE58_ALPHABET_def)

section \<open>Properties\<close>



text \<open>The routes that act on an installed app, as requests to one handler.\<close>

datatype app_op =
    StopOp
  | ReloadOp bool bool
  | OAuthReloadOp
  | RemoveOp bool
  | RenameOp string
  | RemoteOp string

fun app_route :: "route_env \<Rightarrow> string \<Rightarrow> app_op \<Rightarrow> rstate \<Rightarrow> (http_error + route_response) \<times> rstate" where
  "app_route e i StopOp s = stop_app e i s"
| "app_route e i (ReloadOp update approve) s = reload_app e i update approve s"
| "app_route e i OAuthReloadOp s = reload_app_after_oauth e i True s"
| "app_route e i (RemoveOp keep_data) s = remove_app e i keep_data s"
| "app_route e i (RenameOp name) s = rename_app e i name s"
| "app_route e i (RemoteOp url) s = set_app_remote e i url s"

lemma removing_frozen:
  assumes "db_ok (sdb (rs_sys s))" and "find_app i (sdb (rs_sys s)) = Some row" and "a_status row = Removing"
  shows "snd (app_route e i x s) = s"
proof -
  obtain err where err: "resolve_mutable i (sdb (rs_sys s)) = Inl err"
    using resolve_mutable_removing [OF assms(2,3)] by blast
  have zero: "fst (claim_removal i (sdb (rs_sys s))) = 0"
    using claim_removal_count [OF assms(1), of i] assms(2,3) by simp
  have remove: "snd (remove_app e i keep s) = s" for keep
  proof (cases "resolve_app i (sdb (rs_sys s))")
    case (Inr r)
    obtain n d where c: "claim_removal i (sdb (rs_sys s)) = (n, d)" by fastforce
    with zero claim_removal_refused [OF zero] have "n = 0" "d = sdb (rs_sys s)" by simp_all
    with Inr c show ?thesis
      by (simp add: remove_app_def Let_def with_db_same split: sum.splits bool.splits)
  qed (simp add: remove_app_def)
  show ?thesis
    by (cases x) (simp_all add: stop_app_def err reload_app_def reload_app_after_oauth_def reload_app_impl_def
        rename_app_def set_app_remote_def Let_def remove)
qed

lemma find_claim_removal:
  "find_app i (snd (claim_removal i db)) =
     map_option (\<lambda>r. if a_status r \<noteq> Removing then r\<lparr>a_status := Removing, a_error_message := None\<rparr> else r)
       (find_app i db)"
proof -
  have "List.find (\<lambda>r. a_app_id r = i) (update_rows (\<lambda>r. a_app_id r = i \<and> a_status r \<noteq> Removing)
          (\<lambda>r. r\<lparr>a_status := Removing, a_error_message := None\<rparr>) (apps db)) =
      map_option (\<lambda>r. if a_app_id r = i \<and> a_status r \<noteq> Removing
        then r\<lparr>a_status := Removing, a_error_message := None\<rparr> else r) (List.find (\<lambda>r. a_app_id r = i) (apps db))"
    by (rule find_update_rows_same) auto
  then show ?thesis
    by (cases "List.find (\<lambda>r. a_app_id r = i) (apps db)")
      (auto simp: find_app_def claim_removal_def Let_def dest: find_SomeD)
qed

lemma db_ok_claim_removal: "db_ok db \<Longrightarrow> db_ok (snd (claim_removal i db))"
  unfolding claim_removal_def Let_def snd_conv by (rule db_ok_update_rows) simp_all



section \<open>Renaming the directories\<close>

lemma rename_dir_back: "b \<notin> set dirs \<Longrightarrow> rename_dir b a (rename_dir a b dirs) = dirs"
  by (auto simp: rename_dir_def comp_def intro!: map_idI)

lemma distinct_rename_dir: "distinct dirs \<Longrightarrow> b \<notin> set dirs \<Longrightarrow> distinct (rename_dir a b dirs)"
  by (auto simp: rename_dir_def distinct_map inj_on_def)

lemma rename_loop_facts:
  assumes "rename_loop fails old_name new_name ps dirs renamed = (fin, dirs', renamed')"
  shows "rename_roll_back (\<lambda>a b. False) renamed' dirs' = rename_roll_back (\<lambda>a b. False) renamed dirs"
    and "distinct dirs \<Longrightarrow> distinct dirs'" and "length dirs' = length dirs"
    and "(\<And>a b. fails a b = False) \<Longrightarrow> fin"
proof -
  show "rename_roll_back (\<lambda>a b. False) renamed' dirs' = rename_roll_back (\<lambda>a b. False) renamed dirs"
    using assms by (induction ps arbitrary: dirs renamed)
      (auto simp: Let_def rename_roll_back_def rename_dir_back split: if_splits)
  show "distinct dirs'" if "distinct dirs"
    using assms that by (induction ps arbitrary: dirs renamed)
      (auto simp: Let_def distinct_rename_dir split: if_splits)
  show "length dirs' = length dirs"
    using assms by (induction ps arbitrary: dirs renamed) (auto simp: Let_def rename_dir_def split: if_splits)
  show fin if "\<And>a b. fails a b = False"
    using assms that by (induction ps arbitrary: dirs renamed) (auto simp: Let_def split: if_splits)
qed

lemma rename_loop_log:
  assumes "rename_loop fails old_name new_name ps dirs renamed = (fin, dirs', renamed')"
    and "\<And>p. P (path_join p old_name, path_join p new_name)" and "list_all P renamed"
  shows "list_all P renamed'"
  using assms(1,3) by (induction ps arbitrary: dirs renamed) (auto simp: Let_def assms(2) split: if_splits)

text \<open>
  A directory of the new name that is already there is not overwritten; but the rename then leaves the
  app's own directory under the old name and still reports success.
\<close>

lemma rename_skips_existing_target:
  assumes "list_all is_dir (rename_parents cfg is_dir)"
    and "list_all (\<lambda>p. path_join p new_name \<in> set dirs) (rename_parents cfg is_dir)"
  shows "rename_app_storage_dirs cfg is_dir fails old_name new_name dirs = (None, dirs)"
proof -
  have "rename_loop fails old_name new_name ps dirs r = (True, dirs, r)"
    if "list_all (\<lambda>p. path_join p new_name \<in> set dirs) ps" for ps r
    using that by (induction ps) (simp_all add: Let_def)
  then show ?thesis using assms
    by (simp add: rename_app_storage_dirs_def list_ex_iff list_all_iff) (meson in_set_takeD)
qed

lemma path_join_prefix:
  "CHR ''/'' \<notin> set a \<Longrightarrow> path_join p a = (if p = [] \<or> last p = CHR ''/'' then p else p @ ''/'') @ a"
  by (cases a) (auto simp: path_join_def)

lemma take_last_segment:
  assumes "CHR ''/'' \<notin> set a" and "p = [] \<or> last p = CHR ''/''"
  shows "rev (takeWhile (\<lambda>c. c \<noteq> CHR ''/'') (rev (p @ a))) = a"
proof -
  have seg: "takeWhile (\<lambda>c. c \<noteq> CHR ''/'') (rev a @ r) = rev a @ takeWhile (\<lambda>c. c \<noteq> CHR ''/'') r" for r
    using assms(1) by (intro takeWhile_append2) auto
  show ?thesis
  proof (cases p rule: rev_cases)
    case Nil
    then show ?thesis using seg [of "[]"]
      by (simp only: append_Nil append_Nil2 takeWhile.simps rev_rev_ident)
  next
    case (snoc ys y)
    then show ?thesis using seg [of "y # rev ys"] assms(2) by simp
  qed
qed

lemma path_join_eq:
  assumes "CHR ''/'' \<notin> set a" and "CHR ''/'' \<notin> set b" and "path_join p a = path_join q b"
  shows "a = b" and "CHR ''/'' \<notin> set c \<Longrightarrow> path_join p c = path_join q c"
proof -
  let ?pre = "\<lambda>p. if p = [] \<or> last p = CHR ''/'' then p else p @ ''/''"
  have eq: "?pre p @ a = ?pre q @ b" using assms(3) unfolding path_join_prefix [OF assms(1)] path_join_prefix [OF assms(2)] .
  have seg: "rev (takeWhile (\<lambda>c. c \<noteq> CHR ''/'') (rev (?pre p @ a))) = a" if "CHR ''/'' \<notin> set a" for p a
    using that by (intro take_last_segment) auto
  from seg [OF assms(1), of p] seg [OF assms(2), of q] eq show "a = b" by simp
  with eq have "?pre p = ?pre q" by simp
  then show "path_join p c = path_join q c" if "CHR ''/'' \<notin> set c"
    unfolding path_join_prefix [OF that] by (rule arg_cong)
qed

lemma in_rename_dir: "x \<in> set (rename_dir a b dirs) \<longleftrightarrow> (x \<noteq> a \<and> x \<in> set dirs) \<or> (x = b \<and> a \<in> set dirs)"
  by (auto simp: rename_dir_def)

text \<open>Along the loop no old directory appears and no new one disappears, and each parent is served.\<close>

lemma rename_loop_serves:
  assumes "rename_loop fails old_name new_name ps dirs renamed = (True, dirs', renamed')"
    and "CHR ''/'' \<notin> set old_name" and "CHR ''/'' \<notin> set new_name" and "old_name \<noteq> new_name"
  shows "(path_join q new_name \<in> set dirs \<longrightarrow> path_join q new_name \<in> set dirs')
    \<and> (path_join q old_name \<notin> set dirs \<longrightarrow> path_join q old_name \<notin> set dirs')
    \<and> (q \<in> set ps \<and> path_join q old_name \<in> set dirs \<and> path_join q new_name \<notin> set dirs
        \<longrightarrow> path_join q new_name \<in> set dirs' \<and> path_join q old_name \<notin> set dirs')"
  using assms(1)
proof (induction ps arbitrary: dirs renamed)
  case (Cons p ps)
  have ne: "path_join p1 old_name \<noteq> path_join q1 new_name" for p1 q1
    using path_join_eq(1) assms(2-4) by metis
  have same: "path_join q old_name = path_join p old_name \<longleftrightarrow> path_join q new_name = path_join p new_name"
    using path_join_eq(2) assms(2,3) by metis
  show ?case
  proof (cases "path_join p old_name \<in> set dirs \<and> path_join p new_name \<notin> set dirs")
    case True
    with Cons.prems have "rename_loop fails old_name new_name ps
        (rename_dir (path_join p old_name) (path_join p new_name) dirs)
        ((path_join p old_name, path_join p new_name) # renamed) = (True, dirs', renamed')"
      by (simp add: Let_def split: if_splits)
    note IH = Cons.IH [OF this, unfolded in_rename_dir]
    have ne': "path_join p1 new_name \<noteq> path_join q1 old_name" for p1 q1 using ne by metis
    show ?thesis
    proof (cases "path_join q old_name = path_join p old_name")
      case at: True
      with same have "path_join q new_name = path_join p new_name" by blast
      with IH True at show ?thesis by (simp add: ne ne')
    next
      case other: False
      with same have "path_join q new_name \<noteq> path_join p new_name" "q \<noteq> p" by blast+
      with IH other show ?thesis by (simp add: ne ne')
    qed
  next
    case False
    with Cons.prems have "rename_loop fails old_name new_name ps dirs renamed = (True, dirs', renamed')"
      by (simp add: Let_def split: if_splits)
    from Cons.IH [OF this] False show ?thesis by (cases "q = p") auto
  qed
qed simp

text \<open>Renaming an app's directories is all or nothing. If it reports an error, every directory is
  where it was, provided the renames done so far can be undone; if it succeeds, in each parent whose
  directory of the new name was free the app's directory has moved to it. No directory is lost.\<close>

lemma rename_dirs_atomic:
  assumes "rename_app_storage_dirs cfg is_dir fails old_name new_name dirs = (err, dirs')"
    and "CHR ''/'' \<notin> set old_name" and "CHR ''/'' \<notin> set new_name" and "old_name \<noteq> new_name"
    and "\<And>p. fails (path_join p new_name) (path_join p old_name) = False"
  shows "(err \<noteq> None \<longrightarrow> dirs' = dirs) \<and> length dirs' = length dirs \<and>
    (err = None \<longrightarrow> (\<forall>p \<in> set (rename_parents cfg is_dir).
       path_join p old_name \<in> set dirs \<and> path_join p new_name \<notin> set dirs \<longrightarrow>
       path_join p new_name \<in> set dirs' \<and> path_join p old_name \<notin> set dirs'))"
proof (cases "list_ex (\<lambda>p. \<not> is_dir p) (take 2 (rename_parents cfg is_dir))")
  case True
  with assms(1) show ?thesis by (auto simp: rename_app_storage_dirs_def)
next
  case False
  obtain fin ds renamed where loop:
      "rename_loop fails old_name new_name (rename_parents cfg is_dir) dirs [] = (fin, ds, renamed)"
    by (metis prod.exhaust)
  note f = rename_loop_facts [OF loop]
  show ?thesis
  proof (cases fin)
    case True
    with assms(1) False loop have "err = None" "dirs' = ds" by (simp_all add: rename_app_storage_dirs_def)
    with rename_loop_serves [OF loop [unfolded eqTrueI [OF True]] assms(2-4)] f(3) show ?thesis by blast
  next
    case fin: False
    with assms(1) False loop have err: "err \<noteq> None" "dirs' = rename_roll_back fails renamed ds"
      by (auto simp: rename_app_storage_dirs_def)
    have "list_all (\<lambda>(a, b). fails b a = False) renamed"
      by (rule rename_loop_log [OF loop]) (simp_all add: assms(5))
    then have "rename_roll_back fails renamed ds = rename_roll_back (\<lambda>a b. False) renamed ds" for ds
      by (induction renamed arbitrary: ds) (auto simp: rename_roll_back_def)
    moreover have "rename_roll_back (\<lambda>a b. False) renamed ds = dirs"
      using f(1) by (simp add: rename_roll_back_def)
    ultimately show ?thesis using err by auto
  qed
qed

lemma rename_dirs_atomic_witness:
  "\<exists>err. rename_app_storage_dirs demo_config (\<lambda>_. True) (re_rename_fails demo_route_env) ''notes'' ''memo''
      [''/opt/persistent_data/app_data/notes'', ''/opt/temporary_data/app_temp_data/notes''] =
    (Some err, [''/opt/persistent_data/app_data/notes'', ''/opt/temporary_data/app_temp_data/notes''])"
proof -
  let ?dirs = "[''/opt/persistent_data/app_data/notes'', ''/opt/temporary_data/app_temp_data/notes'']"
  let ?r = "rename_app_storage_dirs demo_config (\<lambda>_. True) (re_rename_fails demo_route_env) ''notes'' ''memo'' ?dirs"
  have "fst ?r \<noteq> None" by code_simp
  then obtain err dirs' where r: "?r = (Some err, dirs')" by (cases ?r) auto
  have undo: "re_rename_fails demo_route_env (path_join p ''memo'') (path_join p ''notes'') = False" for p
    using path_join_eq(1) [of "''memo''" "''notes''" p "''/opt/temporary_data/app_temp_data''"]
    by (auto simp: demo_route_env_def path_join_def)
  from rename_dirs_atomic [OF r _ _ _ undo] r show ?thesis by simp
qed

end
