(* ===== verification/Programs.thy ===== *)
theory Programs
  imports Main
begin

text \<open>
  Python statement sequences that both raise and change shared state: a program takes the state to what it
  returns or raises and the state it leaves, and \<open>except\<close> and \<open>finally\<close> see the state at the exception. \<open>wp\<close>
  is what has to hold before a program so that its postconditions, one for each way to end, hold after it.
\<close>

named_theorems wp_simps \<open>the weakest precondition of each construct\<close>

type_synonym ('s, 'e, 'a) prog = "'s \<Rightarrow> ('e + 'a) \<times> 's"

definition returning :: "'a \<Rightarrow> ('s, 'e, 'a) prog" where
  "returning a s = (Inr a, s)"

definition raising :: "'e \<Rightarrow> ('s, 'e, 'a) prog" where
  "raising e s = (Inl e, s)"

definition reading :: "('s \<Rightarrow> 'a) \<Rightarrow> ('s, 'e, 'a) prog" where
  "reading f s = (Inr (f s), s)"

definition changing :: "('s \<Rightarrow> 's) \<Rightarrow> ('s, 'e, unit) prog" where
  "changing f s = (Inr (), f s)"

definition and_then :: "('s, 'e, 'a) prog \<Rightarrow> ('a \<Rightarrow> ('s, 'e, 'b) prog) \<Rightarrow> ('s, 'e, 'b) prog" where
  "and_then p f s = (case p s of (Inl e, s1) \<Rightarrow> (Inl e, s1) | (Inr a, s1) \<Rightarrow> f a s1)"

text \<open>\<open>try: p except: h\<close>, and \<open>try: p finally: q\<close>.\<close>

definition handling :: "('s, 'e, 'a) prog \<Rightarrow> ('e \<Rightarrow> ('s, 'e, 'a) prog) \<Rightarrow> ('s, 'e, 'a) prog" where
  "handling p h s = (case p s of (Inl e, s1) \<Rightarrow> h e s1 | (Inr a, s1) \<Rightarrow> (Inr a, s1))"

definition finally_do :: "('s, 'e, 'a) prog \<Rightarrow> ('s, 'e, unit) prog \<Rightarrow> ('s, 'e, 'a) prog" where
  "finally_do p q s = (case p s of (r, s1) \<Rightarrow> (case q s1 of (Inl e, s2) \<Rightarrow> (Inl e, s2) | (Inr _, s2) \<Rightarrow> (r, s2)))"

definition when_do :: "bool \<Rightarrow> ('s, 'e, unit) prog \<Rightarrow> ('s, 'e, unit) prog" where
  "when_do b p = (if b then p else returning ())"

definition unless_raised :: "'e option \<Rightarrow> ('s, 'e, unit) prog" where
  "unless_raised x = (case x of Some e \<Rightarrow> raising e | None \<Rightarrow> returning ())"

fun for_each :: "('x \<Rightarrow> ('s, 'e, unit) prog) \<Rightarrow> 'x list \<Rightarrow> ('s, 'e, unit) prog" where
  "for_each f [] = returning ()"
| "for_each f (x # xs) = and_then (f x) (\<lambda>_. for_each f xs)"

text \<open>What \<open>subprocess.run\<close> gives: exit code, output and error output, or why it raised.\<close>

datatype run_result = Completed int string string | NotRun string

section \<open>Weakest preconditions\<close>

definition wp :: "('s, 'e, 'a) prog \<Rightarrow> ('a \<Rightarrow> 's \<Rightarrow> bool) \<Rightarrow> ('e \<Rightarrow> 's \<Rightarrow> bool) \<Rightarrow> 's \<Rightarrow> bool" where
  "wp p Q E s \<longleftrightarrow> (case p s of (Inl e, s1) \<Rightarrow> E e s1 | (Inr a, s1) \<Rightarrow> Q a s1)"

lemma wp_basic [wp_simps]:
  "wp (returning a) Q E s \<longleftrightarrow> Q a s"
  "wp (raising e) Q E s \<longleftrightarrow> E e s"
  "wp (reading f) Q E s \<longleftrightarrow> Q (f s) s"
  "wp (changing g) R E s \<longleftrightarrow> R () (g s)"
  by (simp_all add: wp_def returning_def raising_def reading_def changing_def)

lemma wp_returning: "wp (returning a) Q E = Q a" "wp (changing f) R E = (\<lambda>s. R () (f s))"
  by (simp_all add: fun_eq_iff wp_basic)

lemma wp_and_then [wp_simps]: "wp (and_then p f) Q E s \<longleftrightarrow> wp p (\<lambda>a. wp (f a) Q E) E s"
  by (simp add: wp_def and_then_def split: prod.splits sum.splits)

lemma wp_handling [wp_simps]: "wp (handling p h) Q E s \<longleftrightarrow> wp p Q (\<lambda>e. wp (h e) Q E) s"
  by (simp add: wp_def handling_def split: prod.splits sum.splits)

lemma wp_finally_do [wp_simps]:
  "wp (finally_do p q) Q E s \<longleftrightarrow> wp p (\<lambda>a. wp q (\<lambda>_. Q a) E) (\<lambda>e. wp q (\<lambda>_. E e) E) s"
  by (simp add: wp_def finally_do_def split: prod.splits sum.splits)

lemma wp_when_do [wp_simps]: "wp (when_do b p) Q E s \<longleftrightarrow> (if b then wp p Q E s else Q () s)"
  by (simp add: when_do_def wp_basic)

lemma wp_unless_raised [wp_simps]:
  "wp (unless_raised x) Q E s \<longleftrightarrow> (case x of Some e \<Rightarrow> E e s | None \<Rightarrow> Q () s)"
  by (simp add: unless_raised_def wp_basic split: option.splits)

lemma wp_if [wp_simps]: "wp (if b then p else q) Q E s \<longleftrightarrow> (if b then wp p Q E s else wp q Q E s)"
  by simp

lemma wp_total [wp_simps]: "wp p (\<lambda>_ _. True) (\<lambda>_ _. True) s"
  by (simp add: wp_def split: prod.splits sum.splits)

lemma wp_mono:
  assumes "wp p Q E s" and "\<And>a t. Q a t \<Longrightarrow> Q' a t" and "\<And>e t. E e t \<Longrightarrow> E' e t"
  shows "wp p Q' E' s"
  using assms by (auto simp: wp_def split: prod.splits sum.splits)

lemma wp_conj:
  "wp p Q X s \<Longrightarrow> wp p Q' X' s \<Longrightarrow> wp p (\<lambda>a t. Q a t \<and> Q' a t) (\<lambda>e t. X e t \<and> X' e t) s"
  by (auto simp: wp_def split: prod.splits sum.splits)

lemma wp_seq:
  assumes "wp p (\<lambda>_. I) E s" and "\<And>a t. I t \<Longrightarrow> wp (f a) Q E t"
  shows "wp (and_then p f) Q E s"
  unfolding wp_and_then by (rule wp_mono [OF assms(1)]) (use assms(2) in auto)

lemma wp_outcome:
  assumes "wp p Q E s" and "p s = (r, s')"
  shows "case r of Inl e \<Rightarrow> E e s' | Inr a \<Rightarrow> Q a s'"
  using assms by (simp add: wp_def split: sum.splits)

lemma wp_for_each:
  assumes step: "\<And>x t. x \<in> set xs \<Longrightarrow> I t \<Longrightarrow> wp (f x) (\<lambda>_. I) (\<lambda>_. I) t" and "I s"
  shows "wp (for_each f xs) (\<lambda>_. I) (\<lambda>_. I) s"
  using assms
proof (induction xs arbitrary: s)
  case (Cons x xs)
  have "wp (f x) (\<lambda>_. wp (for_each f xs) (\<lambda>_. I) (\<lambda>_. I)) (\<lambda>_. I) s"
    using Cons.prems by (intro wp_mono [OF Cons.prems(1)] Cons.IH) auto
  then show ?case by (simp add: wp_and_then)
qed (simp add: wp_basic)

section \<open>Frames\<close>

text \<open>
  What a program leaves alone, whatever its outcome: it relates the state before and after by a preorder. A
  sequence of programs that each keep the frame keeps it.
\<close>

named_theorems frame_intros \<open>one lemma per construct: it keeps the frame\<close>

locale state_frame =
  fixes R :: "'s \<Rightarrow> 's \<Rightarrow> bool"
  assumes frame_refl: "R s s"
    and frame_trans: "R s t \<Longrightarrow> R t u \<Longrightarrow> R s u"
begin

definition frames :: "('s, 'e, 'a) prog \<Rightarrow> bool" where
  "frames p \<longleftrightarrow> (\<forall>s. R s (snd (p s)))"

lemma framesD: "frames p \<Longrightarrow> p s = (r, t) \<Longrightarrow> R s t"
  unfolding frames_def by (metis snd_conv)

lemma frames_wp: "frames p \<Longrightarrow> wp p (\<lambda>_. R s) (\<lambda>_. R s) s"
  using framesD by (auto simp: wp_def split: prod.splits sum.splits)

lemma frames_basic [frame_intros]:
  "frames (returning a)" "frames (raising e)" "frames (reading f)" "frames (unless_raised x)"
  by (simp_all add: frames_def returning_def raising_def reading_def unless_raised_def frame_refl
      split: option.splits)

lemma frames_and_then [frame_intros]:
  assumes "frames p" and "\<And>a. frames (f a)"
  shows "frames (and_then p f)"
  unfolding frames_def
proof
  fix s
  obtain r t where p: "p s = (r, t)" by force
  show "R s (snd (and_then p f s))"
    using framesD [OF assms(1) p] frame_trans [OF framesD [OF assms(1) p]] assms(2)
    by (cases r) (simp_all add: and_then_def p frames_def)
qed

lemma frames_handling [frame_intros]:
  assumes "frames p" and "\<And>e. frames (h e)"
  shows "frames (handling p h)"
  unfolding frames_def
proof
  fix s
  obtain r t where p: "p s = (r, t)" by force
  show "R s (snd (handling p h s))"
    using framesD [OF assms(1) p] frame_trans [OF framesD [OF assms(1) p]] assms(2)
    by (cases r) (simp_all add: handling_def p frames_def)
qed

lemma frames_finally_do [frame_intros]:
  assumes "frames p" and "frames q"
  shows "frames (finally_do p q)"
  unfolding frames_def
proof
  fix s
  obtain r t where p: "p s = (r, t)" by force
  obtain r' u where q: "q t = (r', u)" by force
  show "R s (snd (finally_do p q s))"
    using frame_trans [OF framesD [OF assms(1) p] framesD [OF assms(2) q]]
    by (cases r') (simp_all add: finally_do_def p q)
qed

lemma frames_choices [frame_intros]:
  "frames p \<Longrightarrow> frames (when_do b p)"
  "(b \<Longrightarrow> frames p') \<Longrightarrow> (\<not> b \<Longrightarrow> frames q') \<Longrightarrow> frames (if b then p' else q')"
  by (simp_all add: when_do_def frames_basic)

lemma frames_for_each [frame_intros]: "(\<And>x. frames (f x)) \<Longrightarrow> frames (for_each f xs)"
  by (induction xs) (auto intro: frames_basic frames_and_then)

end

end
