(* ===== verification/ArchiveBackend.thy ===== *)
theory ArchiveBackend
  imports AppRoutes WebAuth Programs
begin

text \<open>
  \<open>core/archive_backend.py\<close>: the archive tier, one JuiceFS volume whose objects are in a local directory or
  in an S3 bucket; bringing it up at boot, restoring it, and migrating it to another object store. The
  commands are built as the code builds them; what JuiceFS, systemd, the file system, S3 and the clock do
  with them is a record of functions on the state of the outside world.
\<close>

section \<open>The outside world\<close>

record s3_client =
  sc_region :: "string option"
  sc_endpoint :: "string option"
  sc_access_key_id :: string
  sc_secret_access_key :: string

text \<open>
  \<open>ao_run\<close> is \<open>subprocess.run\<close> with the variables added to the environment and the timeout;
  \<open>ao_format_row\<close> reads the \<open>format\<close> setting of a metadata database, with None for no row and \<open>Inl\<close> for an
  SQLite error; \<open>ao_list\<close> gives the pages of keys under a prefix, of which any may fail; \<open>ao_delete\<close> the
  number of keys S3 reports as not deleted.
\<close>

record 'w archive_ops =
  ao_sysname :: string
  ao_sha256 :: "string \<Rightarrow> string"
  ao_json_name :: "string \<Rightarrow> string + string option"
  ao_token_hex :: "'w \<Rightarrow> string"
  ao_utc :: "'w \<Rightarrow> string"
  ao_now :: "'w \<Rightarrow> rat"
  ao_sleep :: "rat \<Rightarrow> 'w \<Rightarrow> 'w"
  ao_run :: "string list \<Rightarrow> (string \<times> string) list \<Rightarrow> nat \<Rightarrow> 'w \<Rightarrow> run_result \<times> 'w"
  ao_mountinfo :: "'w \<Rightarrow> string list option"
  ao_install :: "string \<Rightarrow> 'w \<Rightarrow> string option \<times> 'w"
  ao_executable :: "string \<Rightarrow> 'w \<Rightarrow> bool"
  ao_is_file :: "string \<Rightarrow> 'w \<Rightarrow> bool"
  ao_is_dir :: "string \<Rightarrow> 'w \<Rightarrow> bool"
  ao_listdir :: "string \<Rightarrow> 'w \<Rightarrow> string list option"
  ao_makedirs :: "string \<Rightarrow> 'w \<Rightarrow> 'w"
  ao_write :: "string \<Rightarrow> string \<Rightarrow> 'w \<Rightarrow> 'w"
  ao_remove :: "string \<Rightarrow> 'w \<Rightarrow> 'w"
  ao_replace :: "string \<Rightarrow> string \<Rightarrow> 'w \<Rightarrow> 'w"
  ao_rmtree :: "string \<Rightarrow> 'w \<Rightarrow> 'w"
  ao_format_row :: "string \<Rightarrow> 'w \<Rightarrow> string + string option"
  ao_checkpoint :: "string \<Rightarrow> 'w \<Rightarrow> 'w"
  ao_list :: "s3_client \<Rightarrow> string \<Rightarrow> string \<Rightarrow> 'w \<Rightarrow> (string + string list) list"
  ao_delete :: "s3_client \<Rightarrow> string \<Rightarrow> string list \<Rightarrow> 'w \<Rightarrow> (string + nat) \<times> 'w"
  ao_head :: "s3_client \<Rightarrow> string \<Rightarrow> 'w \<Rightarrow> string option"
  ao_download :: "s3_client \<Rightarrow> string \<Rightarrow> string \<Rightarrow> string \<Rightarrow> 'w \<Rightarrow> string option \<times> 'w"

section \<open>The state\<close>

text \<open>The row of the table \<open>archive_backend\<close>, NULL being None.\<close>

record archive_row =
  b_backend :: string
  b_s3_bucket :: "string option"
  b_s3_region :: "string option"
  b_s3_endpoint :: "string option"
  b_s3_prefix :: "string option"
  b_s3_access_key_id :: "string option"
  b_s3_secret_access_key :: "string option"
  b_juicefs_volume_name :: string
  b_configured_at :: "string option"
  b_state_message :: "string option"

text \<open>With the ids that the callback which stops the apps has recorded.\<close>

record 'w archive_state =
  ar_row :: "archive_row option"
  ar_sys :: sys
  ar_quiesced :: "string list"
  ar_world :: 'w

text \<open>A RuntimeError and any other exception, each with its text.\<close>

datatype archive_exn = RuntimeRaised string | OtherRaised string

fun archive_exn_text :: "archive_exn \<Rightarrow> string" where
  "archive_exn_text (RuntimeRaised m) = m"
| "archive_exn_text (OtherRaised m) = m"

type_synonym ('w, 'a) archive_prog = "('w archive_state, archive_exn, 'a) prog"

definition world :: "('w \<Rightarrow> 'a) \<Rightarrow> ('w, 'a) archive_prog" where
  "world f = reading (\<lambda>s. f (ar_world s))"

definition on_world :: "('w \<Rightarrow> 'w) \<Rightarrow> ('w, unit) archive_prog" where
  "on_world f = changing (\<lambda>s. s\<lparr>ar_world := f (ar_world s)\<rparr>)"

definition calling :: "('w \<Rightarrow> 'a \<times> 'w) \<Rightarrow> ('w, 'a) archive_prog" where
  "calling f s = (case f (ar_world s) of (a, w) \<Rightarrow> (Inr a, s\<lparr>ar_world := w\<rparr>))"

abbreviation ar_db :: "'w archive_state \<Rightarrow> db" where
  "ar_db s \<equiv> sdb (ar_sys s)"

definition set_row :: "(archive_row \<Rightarrow> archive_row) \<Rightarrow> ('w, unit) archive_prog" where
  "set_row f = changing (\<lambda>s. s\<lparr>ar_row := map_option f (ar_row s)\<rparr>)"

definition DEFAULT_VOLUME_NAME :: string where "DEFAULT_VOLUME_NAME = ''openhost''"

definition read_state :: "archive_row option \<Rightarrow> archive_row" where
  "read_state row =
     (case row of
        None \<Rightarrow> \<lparr>b_backend = ''local'', b_s3_bucket = None, b_s3_region = None, b_s3_endpoint = None,
          b_s3_prefix = None, b_s3_access_key_id = None, b_s3_secret_access_key = None,
          b_juicefs_volume_name = DEFAULT_VOLUME_NAME, b_configured_at = None, b_state_message = None\<rparr>
      | Some r \<Rightarrow> r\<lparr>b_juicefs_volume_name :=
            (if b_juicefs_volume_name r = [] then DEFAULT_VOLUME_NAME else b_juicefs_volume_name r)\<rparr>)"

definition set_state_message :: "string option \<Rightarrow> ('w, unit) archive_prog" where
  "set_state_message message = set_row (\<lambda>r. r\<lparr>b_state_message := message\<rparr>)"

definition set_juicefs_volume_name :: "string \<Rightarrow> ('w, unit) archive_prog" where
  "set_juicefs_volume_name volume = set_row (\<lambda>r. r\<lparr>b_juicefs_volume_name := volume\<rparr>)"

section \<open>Volume names\<close>

definition VOLUME_NAME_MAX :: nat where "VOLUME_NAME_MAX = 63"

definition is_volume_char :: "char \<Rightarrow> bool" where
  "is_volume_char c \<longleftrightarrow> is_lower_char c \<or> is_digit_char c \<or> c = CHR ''-''"

definition is_volume_edge :: "char \<Rightarrow> bool" where
  "is_volume_edge c \<longleftrightarrow> is_lower_char c \<or> is_digit_char c"

text \<open>\<open>VOLUME_NAME_RE.fullmatch\<close>.\<close>

definition is_volume_name :: "string \<Rightarrow> bool" where
  "is_volume_name s \<longleftrightarrow>
     3 \<le> length s \<and> length s \<le> VOLUME_NAME_MAX \<and> list_all is_volume_char s \<and>
     is_volume_edge (hd s) \<and> is_volume_edge (last s)"

text \<open>\<open>re.sub(r"[^a-z0-9-]+", "-", s)\<close>: one dash for a run of other characters.\<close>

fun dash_runs :: "bool \<Rightarrow> string \<Rightarrow> string" where
  "dash_runs in_run [] = []"
| "dash_runs in_run (c # cs) =
     (if is_volume_char c then c # dash_runs False cs
      else if in_run then dash_runs True cs
      else CHR ''-'' # dash_runs True cs)"

definition strip_char :: "char \<Rightarrow> string \<Rightarrow> string" where
  "strip_char c s = rstrip_char c (dropWhile (\<lambda>x. x = c) s)"

text \<open>\<open>re.sub(r"-{2,}", "-", s)\<close>.\<close>

fun squeeze_dashes :: "string \<Rightarrow> string" where
  "squeeze_dashes (c # d # cs) =
     (if c = CHR ''-'' \<and> d = CHR ''-'' then squeeze_dashes (d # cs) else c # squeeze_dashes (d # cs))"
| "squeeze_dashes s = s"

definition volume_name_for_zone :: "(string \<Rightarrow> string) \<Rightarrow> string \<Rightarrow> string" where
  "volume_name_for_zone sha256_hex zone =
     (let slug = squeeze_dashes (strip_char CHR ''-'' (dash_runs False zone));
          digest = (if zone = [] then ''00000000'' else take 8 (sha256_hex zone));
          head = strip_char CHR ''-'' (take (VOLUME_NAME_MAX - length digest - 4) slug);
          name = (if head = [] then ''oh-'' @ digest else ''oh-'' @ head @ ''-'' @ digest);
          name = strip_char CHR ''-'' (take VOLUME_NAME_MAX name)
      in if name = [] then DEFAULT_VOLUME_NAME else name)"

definition default_volume_name_for_zone :: "(string \<Rightarrow> string) \<Rightarrow> db \<Rightarrow> string" where
  "default_volume_name_for_zone sha256_hex db =
     volume_name_for_zone sha256_hex (case primary_domain_or_none db of Some p \<Rightarrow> name_no_port p | None \<Rightarrow> [])"

definition fresh_volume_name :: "string \<Rightarrow> string \<Rightarrow> string" where
  "fresh_volume_name token volume =
     rstrip_char CHR ''-'' (take (VOLUME_NAME_MAX - length token - 1) volume) @ ''-'' @ token"

section \<open>Paths and addresses\<close>

definition JUICEFS_VERSION :: string where "JUICEFS_VERSION = ''1.3.1''"

definition JUICEFS_SERVICE :: string where "JUICEFS_SERVICE = ''openhost-juicefs''"

definition ADOPT_VOLUME_KEY :: string where "ADOPT_VOLUME_KEY = ''archive_backend_adopt_volume''"

definition openhost_data_path :: "config \<Rightarrow> string" where
  "openhost_data_path cfg = path_join (persistent_data_dir cfg) ''openhost''"

definition juicefs_dir :: "config \<Rightarrow> string" where
  "juicefs_dir cfg = path_join (openhost_data_path cfg) ''juicefs''"

definition juicefs_state_dir :: "config \<Rightarrow> string" where
  "juicefs_state_dir cfg = path_join (juicefs_dir cfg) ''state''"

definition juicefs_binary :: "config \<Rightarrow> string" where
  "juicefs_binary cfg =
     path_join (path_join (path_join (juicefs_dir cfg) ''runtime'') ''bin'') (''juicefs-'' @ JUICEFS_VERSION)"

definition juicefs_meta_db :: "config \<Rightarrow> string" where
  "juicefs_meta_db cfg = path_join (juicefs_state_dir cfg) ''meta.db''"

definition local_object_store_dir :: "config \<Rightarrow> string" where
  "local_object_store_dir cfg = path_join (persistent_data_dir cfg) ''app_archive_local_objects''"

definition juicefs_env_file :: "config \<Rightarrow> string" where
  "juicefs_env_file cfg = path_join (juicefs_dir cfg) ''juicefs.env''"

definition sqlite_dsn :: "string \<Rightarrow> string" where
  "sqlite_dsn path = ''sqlite3://'' @ path"

definition or_us_east_1 :: "string option \<Rightarrow> string" where
  "or_us_east_1 region = (case non_empty region of Some r \<Rightarrow> r | None \<Rightarrow> ''us-east-1'')"

definition bucket_url :: "string \<Rightarrow> string option \<Rightarrow> string option \<Rightarrow> string" where
  "bucket_url bucket region endpoint =
     (case non_empty endpoint of
        Some e \<Rightarrow> rstrip_char CHR ''/'' e @ ''/'' @ bucket
      | None \<Rightarrow> ''https://'' @ bucket @ ''.s3.'' @ or_us_east_1 region @ ''.amazonaws.com'')"

definition file_bucket :: "string \<Rightarrow> string" where
  "file_bucket store_dir = rstrip_char CHR ''/'' store_dir @ ''/''"

text \<open>\<open>s.split(sep, 1)[-1]\<close>.\<close>

fun after_first :: "string \<Rightarrow> string \<Rightarrow> string option" where
  "after_first sep [] = (if sep = [] then Some [] else None)"
| "after_first sep (c # cs) =
     (if startswith (c # cs) sep then Some (drop (length sep) (c # cs)) else after_first sep cs)"

definition local_sync_source :: "config \<Rightarrow> string \<Rightarrow> string" where
  "local_sync_source cfg volume = path_join (file_bucket (local_object_store_dir cfg)) volume @ ''/''"

definition s3_sync_dest :: "string \<Rightarrow> string option \<Rightarrow> string option \<Rightarrow> string \<Rightarrow> string" where
  "s3_sync_dest bucket region endpoint volume =
     (case non_empty endpoint of
        Some e \<Rightarrow>
          (let host = rstrip_char CHR ''/'' (case after_first ''://'' e of Some h \<Rightarrow> h | None \<Rightarrow> e)
           in ''s3://'' @ bucket @ ''.'' @ host @ ''/'' @ volume @ ''/'')
      | None \<Rightarrow> ''s3://'' @ bucket @ ''.s3.'' @ or_us_east_1 region @ ''.amazonaws.com/'' @ volume @ ''/'')"

text \<open>The URLs given to it all begin \<open>s3://\<close>.\<close>

definition s3_url_with_creds :: "string \<Rightarrow> string \<Rightarrow> string \<Rightarrow> string" where
  "s3_url_with_creds url access_key_id secret_access_key =
     (case after_first ''://'' url of
        Some rest \<Rightarrow> take (length url - length rest - 3) url @ ''://''
          @ quote_all access_key_id @ '':'' @ quote_all secret_access_key @ ''@'' @ rest
      | None \<Rightarrow> url)"

definition endpoint_is_insecure_http :: "string option \<Rightarrow> bool" where
  "endpoint_is_insecure_http endpoint =
     (case non_empty endpoint of Some e \<Rightarrow> startswith (lower (py_strip e)) ''http://'' | None \<Rightarrow> False)"

section \<open>Running commands\<close>

definition juicefs_cmd :: "config \<Rightarrow> string list \<Rightarrow> string list" where
  "juicefs_cmd cfg args = juicefs_binary cfg # ''--no-agent'' # args"

definition format_cmd :: "config \<Rightarrow> string \<Rightarrow> string \<Rightarrow> string \<Rightarrow> string list" where
  "format_cmd cfg storage bucket volume =
     juicefs_cmd cfg [''format'', ''--storage'', storage, ''--bucket'', bucket, sqlite_dsn (juicefs_meta_db cfg), volume]"

definition sync_cmd :: "config \<Rightarrow> bool \<Rightarrow> string \<Rightarrow> string \<Rightarrow> string list" where
  "sync_cmd cfg insecure src dst =
     juicefs_cmd cfg ([''sync'', ''--check-all''] @ (if insecure then [''--no-https''] else []) @ [src, dst])"

definition config_cmd :: "config \<Rightarrow> string \<Rightarrow> string \<Rightarrow> string option \<Rightarrow> string option \<Rightarrow> string list" where
  "config_cmd cfg storage bucket access_key_id secret_access_key =
     juicefs_cmd cfg ([''config'', sqlite_dsn (juicefs_meta_db cfg), ''--storage'', storage, ''--bucket'', bucket, ''--yes'', ''--force'']
       @ (case access_key_id of Some k \<Rightarrow> [''--access-key'', k] | None \<Rightarrow> [])
       @ (case secret_access_key of Some k \<Rightarrow> [''--secret-key'', k] | None \<Rightarrow> []))"

definition systemctl_cmd :: "string list \<Rightarrow> string list" where
  "systemctl_cmd args = [''sudo'', ''systemctl''] @ args"

text \<open>A command that must exit with 0; \<open>describe\<close> is the text of the RuntimeError from the exit code and the output.\<close>

definition run_checked :: "'w archive_ops \<Rightarrow> (int \<Rightarrow> string \<Rightarrow> string \<Rightarrow> string) \<Rightarrow> string list \<Rightarrow> (string \<times> string) list
    \<Rightarrow> nat \<Rightarrow> ('w, unit) archive_prog" where
  "run_checked os describe cmd env timeout =
     and_then (calling (ao_run os cmd env timeout)) (\<lambda>result.
       case result of
         NotRun m \<Rightarrow> raising (OtherRaised m)
       | Completed rc out err \<Rightarrow> if rc = 0 then returning () else raising (RuntimeRaised (describe rc out err)))"

text \<open>\<open>err.strip() or out.strip()\<close>, the latter only where the former is empty.\<close>

definition output_text :: "string \<Rightarrow> string \<Rightarrow> string" where
  "output_text out err = (if py_strip err \<noteq> [] then py_strip err else py_strip out)"

definition output_or_exit :: "int \<Rightarrow> string \<Rightarrow> string \<Rightarrow> string" where
  "output_or_exit rc out err = (if output_text out err = [] then ''exit '' @ show_int rc else output_text out err)"

definition is_juicefs_installed :: "'w archive_ops \<Rightarrow> config \<Rightarrow> 'w \<Rightarrow> bool" where
  "is_juicefs_installed os cfg w \<longleftrightarrow> ao_is_file os (juicefs_binary cfg) w \<and> ao_executable os (juicefs_binary cfg) w"

definition install_juicefs :: "'w archive_ops \<Rightarrow> config \<Rightarrow> ('w, unit) archive_prog" where
  "install_juicefs os cfg =
     and_then (calling (ao_install os (juicefs_binary cfg))) (\<lambda>x. unless_raised (map_option RuntimeRaised x))"

definition ensure_installed :: "'w archive_ops \<Rightarrow> config \<Rightarrow> ('w, unit) archive_prog" where
  "ensure_installed os cfg =
     and_then (world (is_juicefs_installed os cfg)) (\<lambda>installed. when_do (\<not> installed) (install_juicefs os cfg))"

definition format_failed :: "string \<Rightarrow> int \<Rightarrow> string \<Rightarrow> string \<Rightarrow> string" where
  "format_failed what rc out err = what @ '' failed (exit '' @ show_int rc @ ''): '' @ output_text out err"

definition format_local_volume :: "'w archive_ops \<Rightarrow> config \<Rightarrow> string \<Rightarrow> ('w, unit) archive_prog" where
  "format_local_volume os cfg volume =
     and_then (ensure_installed os cfg) (\<lambda>_.
     and_then (on_world (ao_makedirs os (juicefs_state_dir cfg))) (\<lambda>_.
     and_then (on_world (ao_makedirs os (local_object_store_dir cfg))) (\<lambda>_.
     run_checked os (format_failed ''juicefs format (file)'')
       (format_cmd cfg ''file'' (file_bucket (local_object_store_dir cfg)) volume) [] 60)))"

definition format_s3_volume :: "'w archive_ops \<Rightarrow> config \<Rightarrow> string \<Rightarrow> string option \<Rightarrow> string option \<Rightarrow> string \<Rightarrow> string
    \<Rightarrow> string \<Rightarrow> ('w, unit) archive_prog" where
  "format_s3_volume os cfg bucket region endpoint access_key_id secret_access_key volume =
     and_then (on_world (ao_makedirs os (juicefs_state_dir cfg))) (\<lambda>_.
     run_checked os (format_failed ''juicefs format'')
       (format_cmd cfg ''s3'' (bucket_url bucket (Some (or_us_east_1 region)) endpoint) volume)
       [(''ACCESS_KEY'', access_key_id), (''SECRET_KEY'', secret_access_key)] 60)"

section \<open>The mount\<close>

definition env_file_content :: "config \<Rightarrow> string option \<Rightarrow> string option \<Rightarrow> string" where
  "env_file_content cfg access_key_id secret_access_key =
     text_lines [''JUICEFS_BINARY='' @ juicefs_binary cfg, ''JUICEFS_META_DSN='' @ sqlite_dsn (juicefs_meta_db cfg),
                 ''JUICEFS_MOUNT_DIR='' @ app_archive_dir cfg]
     @ (case (access_key_id, secret_access_key) of
          (Some a, Some k) \<Rightarrow> text_lines [''ACCESS_KEY='' @ a, ''SECRET_KEY='' @ k]
        | _ \<Rightarrow> [])"

definition write_env_file :: "'w archive_ops \<Rightarrow> config \<Rightarrow> string option \<Rightarrow> string option \<Rightarrow> ('w, unit) archive_prog" where
  "write_env_file os cfg access_key_id secret_access_key =
     (let tmp_path = juicefs_env_file cfg @ ''.tmp'' in
      and_then (on_world (ao_makedirs os (juicefs_dir cfg))) (\<lambda>_.
      and_then (on_world (ao_write os tmp_path (env_file_content cfg access_key_id secret_access_key))) (\<lambda>_.
      on_world (ao_replace os tmp_path (juicefs_env_file cfg)))))"

definition systemctl :: "'w archive_ops \<Rightarrow> string list \<Rightarrow> nat \<Rightarrow> ('w, unit) archive_prog" where
  "systemctl os args timeout =
     run_checked os (\<lambda>rc out err. ''systemctl '' @ join_with '' '' args @ '' failed (rc='' @ show_int rc @ ''): '' @ output_text out err)
       (systemctl_cmd args) [] timeout"

text \<open>\<open>s.split()\<close>.\<close>

fun split_space :: "string \<Rightarrow> string \<Rightarrow> string list" where
  "split_space word [] = (if word = [] then [] else [rev word])"
| "split_space word (c # cs) =
     (if is_space_char c then (if word = [] then split_space [] cs else rev word # split_space [] cs)
      else split_space (c # word) cs)"

definition is_mounted :: "'w archive_ops \<Rightarrow> string \<Rightarrow> 'w \<Rightarrow> bool" where
  "is_mounted os mount_point w =
     (case ao_mountinfo os w of
        None \<Rightarrow> False
      | Some ls \<Rightarrow> list_ex (\<lambda>l. let parts = split_space [] l in 5 \<le> length parts \<and> parts ! 4 = mount_point) ls)"

text \<open>The wait for the mount, as a count of looks; \<open>MOUNT_LOOKS\<close> of them are enough for its 30 seconds when
  each sleep takes its half second.\<close>

definition MOUNT_LOOKS :: nat where "MOUNT_LOOKS = 61"

fun wait_mounted :: "'w archive_ops \<Rightarrow> string \<Rightarrow> rat \<Rightarrow> nat \<Rightarrow> 'w \<Rightarrow> bool \<times> 'w" where
  "wait_mounted os mount_point deadline 0 w = (False, w)"
| "wait_mounted os mount_point deadline (Suc n) w =
     (if deadline \<le> ao_now os w then (False, w)
      else if is_mounted os mount_point w then (True, w)
      else wait_mounted os mount_point deadline n (ao_sleep os (1 / 2) w))"

definition service_state :: "run_result \<Rightarrow> string" where
  "service_state r = (case r of Completed rc out err \<Rightarrow> py_strip out | NotRun m \<Rightarrow> ''unknown'')"

definition mount :: "'w archive_ops \<Rightarrow> config \<Rightarrow> string option \<Rightarrow> string option \<Rightarrow> ('w, unit) archive_prog" where
  "mount os cfg access_key_id secret_access_key =
     (let mount_point = app_archive_dir cfg in
      and_then (on_world (ao_makedirs os mount_point)) (\<lambda>_.
      and_then (world (is_mounted os mount_point)) (\<lambda>mounted.
      if mounted then returning () else
      and_then (write_env_file os cfg access_key_id secret_access_key) (\<lambda>_.
      and_then (systemctl os [''daemon-reload''] 30) (\<lambda>_.
      and_then (systemctl os [''enable'', ''--now'', JUICEFS_SERVICE] 30) (\<lambda>_.
      and_then (world (ao_now os)) (\<lambda>start.
      and_then (calling (wait_mounted os mount_point (start + 30) MOUNT_LOOKS)) (\<lambda>ready.
      if ready then returning () else
      and_then (calling (ao_run os [''systemctl'', ''is-active'', JUICEFS_SERVICE] [] 5)) (\<lambda>status.
      raising (RuntimeRaised (''juicefs mount did not become ready within 30s at '' @ mount_point
        @ '' (service state: '' @ service_state status @ ''); check journalctl -u '' @ JUICEFS_SERVICE)))))))))))"

definition umount :: "'w archive_ops \<Rightarrow> config \<Rightarrow> ('w, unit) archive_prog" where
  "umount os cfg =
     and_then (world (is_mounted os (app_archive_dir cfg))) (\<lambda>mounted.
     if \<not> mounted
     then handling (systemctl os [''disable'', ''--now'', JUICEFS_SERVICE] 30)
            (\<lambda>x. case x of RuntimeRaised m \<Rightarrow> returning () | OtherRaised m \<Rightarrow> raising x)
     else and_then (handling (systemctl os [''stop'', JUICEFS_SERVICE] 120)
            (\<lambda>x. case x of
                 RuntimeRaised m \<Rightarrow> raising (RuntimeRaised (''Failed to stop '' @ JUICEFS_SERVICE
                   @ ''; ensure all containers using the archive tier are stopped before switching backends.  Original: '' @ m))
               | OtherRaised m \<Rightarrow> raising x)) (\<lambda>_.
          systemctl os [''disable'', JUICEFS_SERVICE] 30))"

definition remount :: "'w archive_ops \<Rightarrow> config \<Rightarrow> string option \<Rightarrow> string option \<Rightarrow> ('w, unit) archive_prog" where
  "remount os cfg access_key_id secret_access_key =
     and_then (umount os cfg) (\<lambda>_. mount os cfg access_key_id secret_access_key)"

section \<open>Formatted volumes\<close>

definition local_volume_formatted :: "'w archive_ops \<Rightarrow> config \<Rightarrow> 'w \<Rightarrow> bool" where
  "local_volume_formatted os cfg w \<longleftrightarrow>
     ao_is_file os (juicefs_meta_db cfg) w \<and>
     (case ao_format_row os (juicefs_meta_db cfg) w of
        Inl x \<Rightarrow> False | Inr None \<Rightarrow> False | Inr (Some v) \<Rightarrow> v \<noteq> [])"

definition ensure_local_volume_formatted :: "'w archive_ops \<Rightarrow> config \<Rightarrow> string \<Rightarrow> ('w, unit) archive_prog" where
  "ensure_local_volume_formatted os cfg volume =
     and_then (world (local_volume_formatted os cfg)) (\<lambda>formatted.
     when_do (\<not> formatted) (format_local_volume os cfg (if volume = [] then DEFAULT_VOLUME_NAME else volume)))"

section \<open>The volume of a preconfigured bucket\<close>

definition seed_preconfigured_s3 :: "'w archive_ops \<Rightarrow> config \<Rightarrow> string \<Rightarrow> string option \<Rightarrow> string \<Rightarrow> string \<Rightarrow> string
    \<Rightarrow> string option \<Rightarrow> ('w, unit) archive_prog" where
  "seed_preconfigured_s3 os cfg bucket region endpoint access_key_id secret_access_key volume_name =
     and_then (world (ao_is_file os (juicefs_meta_db cfg))) (\<lambda>exists.
     if exists then returning ()
     else if volume_name \<noteq> None \<and> \<not> is_volume_name (the volume_name)
     then raising (OtherRaised ''invalid preconfigured archive volume name'')
     else and_then (reading (\<lambda>s. case non_empty volume_name of
              Some v \<Rightarrow> v | None \<Rightarrow> default_volume_name_for_zone (ao_sha256 os) (ar_db s))) (\<lambda>volume.
          and_then (changing (\<lambda>s. s\<lparr>ar_sys := (ar_sys s)\<lparr>sdb :=
              (if volume_name \<noteq> None then set_setting (ar_db s) ADOPT_VOLUME_KEY ''1''
               else delete_setting (ar_db s) ADOPT_VOLUME_KEY)\<rparr>\<rparr>)) (\<lambda>_.
          set_row (\<lambda>r. r\<lparr>b_backend := ''s3'', b_s3_bucket := Some bucket, b_s3_region := region,
            b_s3_endpoint := Some endpoint, b_s3_prefix := Some volume, b_s3_access_key_id := Some access_key_id,
            b_s3_secret_access_key := Some secret_access_key, b_juicefs_volume_name := volume\<rparr>))))"

definition s3_client_for :: "string option \<Rightarrow> string option \<Rightarrow> string \<Rightarrow> string \<Rightarrow> s3_client" where
  "s3_client_for region endpoint access_key_id secret_access_key =
     \<lparr>sc_region = non_empty region, sc_endpoint = non_empty endpoint,
      sc_access_key_id = access_key_id, sc_secret_access_key = secret_access_key\<rparr>"

definition is_dump_key :: "string \<Rightarrow> bool" where
  "is_dump_key key \<longleftrightarrow>
     (let name = last (split_on CHR ''/'' key) in startswith name ''dump-'' \<and> endswith name ''.json.gz'')"

definition newer_key :: "string option \<Rightarrow> string \<Rightarrow> string option" where
  "newer_key newest key =
     (if is_dump_key key \<and> (newest = None \<or> the newest < key) then Some key else newest)"

fun newest_dump :: "(string + string list) list \<Rightarrow> string option \<Rightarrow> archive_exn + string option" where
  "newest_dump [] newest = Inr newest"
| "newest_dump (Inl m # pages) newest = Inl (OtherRaised m)"
| "newest_dump (Inr keys # pages) newest = newest_dump pages (foldl newer_key newest keys)"

definition prefix_has_objects :: "(string + string list) list \<Rightarrow> archive_exn + bool" where
  "prefix_has_objects pages =
     (case pages of [] \<Rightarrow> Inr False | Inl m # ps \<Rightarrow> Inl (OtherRaised m) | Inr keys # ps \<Rightarrow> Inr (keys \<noteq> []))"

definition from_result :: "archive_exn + 'a \<Rightarrow> ('w, 'a) archive_prog" where
  "from_result r = (case r of Inl x \<Rightarrow> raising x | Inr a \<Rightarrow> returning a)"

fun delete_pages :: "'w archive_ops \<Rightarrow> s3_client \<Rightarrow> string \<Rightarrow> string \<Rightarrow> (string + string list) list \<Rightarrow> ('w, unit) archive_prog" where
  "delete_pages os client bucket pre [] = returning ()"
| "delete_pages os client bucket pre (Inl m # pages) = raising (OtherRaised m)"
| "delete_pages os client bucket pre (Inr keys # pages) =
     and_then (if keys = [] then returning ()
       else and_then (calling (ao_delete os client bucket keys)) (\<lambda>r. case r of
              Inl m \<Rightarrow> raising (OtherRaised m)
            | Inr failed \<Rightarrow> when_do (0 < failed) (raising (RuntimeRaised
                (''could not clear '' @ show_nat failed @ '' object(s) under '' @ pre))))) (\<lambda>_.
     delete_pages os client bucket pre pages)"

definition delete_prefix :: "'w archive_ops \<Rightarrow> s3_client \<Rightarrow> string \<Rightarrow> string \<Rightarrow> ('w, unit) archive_prog" where
  "delete_prefix os client bucket pre =
     and_then (world (ao_list os client bucket pre)) (\<lambda>pages. delete_pages os client bucket pre pages)"

definition run_juicefs :: "'w archive_ops \<Rightarrow> config \<Rightarrow> string list \<Rightarrow> string \<Rightarrow> nat \<Rightarrow> string option \<Rightarrow> ('w, unit) archive_prog" where
  "run_juicefs os cfg args what timeout redact =
     run_checked os (\<lambda>rc out err.
        let message = ''juicefs '' @ what @ '' failed: '' @ output_or_exit rc out err
        in case non_empty redact of Some k \<Rightarrow> sql_replace message k ''***'' | None \<Rightarrow> message)
       (juicefs_cmd cfg args) [] timeout"

definition remove_files :: "'w archive_ops \<Rightarrow> string list \<Rightarrow> ('w, unit) archive_prog" where
  "remove_files os paths = for_each (\<lambda>path.
     and_then (world (ao_is_file os path)) (\<lambda>exists. when_do exists (on_world (ao_remove os path)))) paths"

text \<open>The name in the format row of the restored database, which an operator sees quoted.\<close>

definition restored_name :: "'w archive_ops \<Rightarrow> string \<Rightarrow> ('w, string option) archive_prog" where
  "restored_name os scratch =
     and_then (world (ao_format_row os scratch)) (\<lambda>r. case r of
       Inl m \<Rightarrow> raising (OtherRaised m)
     | Inr row \<Rightarrow>
         and_then (on_world (ao_checkpoint os scratch)) (\<lambda>_.
         case row of
           None \<Rightarrow> returning None
         | Some v \<Rightarrow> (case ao_json_name os v of Inl m \<Rightarrow> raising (OtherRaised m) | Inr n \<Rightarrow> returning n)))"

definition quoted :: "string option \<Rightarrow> string" where
  "quoted n = (case n of None \<Rightarrow> ''None'' | Some v \<Rightarrow> [CHR 39] @ v @ [CHR 39])"

definition restore_volume_from_dump :: "'w archive_ops \<Rightarrow> config \<Rightarrow> s3_client \<Rightarrow> string \<Rightarrow> string \<Rightarrow> string \<Rightarrow> string \<Rightarrow> string
    \<Rightarrow> ('w, unit) archive_prog" where
  "restore_volume_from_dump os cfg client bucket volume access_key_id secret_access_key dump_key =
     (let dump_path = path_join (juicefs_state_dir cfg) ''restore-dump.json.gz'';
          scratch = path_join (juicefs_state_dir cfg) ''restore-meta.db'';
          meta_db = juicefs_meta_db cfg;
          leftovers = [dump_path, scratch, scratch @ ''-wal'', scratch @ ''-shm'']
      in and_then (on_world (ao_makedirs os (juicefs_state_dir cfg))) (\<lambda>_.
         and_then (remove_files os leftovers) (\<lambda>_.
         finally_do
           (and_then (calling (ao_download os client bucket dump_key dump_path)) (\<lambda>x.
            and_then (unless_raised (map_option OtherRaised x)) (\<lambda>_.
            and_then (run_juicefs os cfg [''load'', sqlite_dsn scratch, dump_path] ''load'' 3600 None) (\<lambda>_.
            and_then (run_juicefs os cfg [''config'', sqlite_dsn scratch, ''--access-key'', access_key_id,
                ''--secret-key'', secret_access_key, ''--yes'', ''--force''] ''config'' 120 (Some secret_access_key)) (\<lambda>_.
            and_then (restored_name os scratch) (\<lambda>name.
            if name \<noteq> Some volume
            then raising (RuntimeRaised (''metadata backup '' @ dump_key @ '' is for volume '' @ quoted name
                   @ '', not '' @ quoted (Some volume)))
            else and_then (remove_files os [meta_db @ ''-wal'', meta_db @ ''-shm'']) (\<lambda>_.
                 on_world (ao_replace os scratch meta_db))))))))
           (remove_files os leftovers))))"

definition bring_up_seeded_s3_volume :: "'w archive_ops \<Rightarrow> config \<Rightarrow> archive_row \<Rightarrow> string \<Rightarrow> string \<Rightarrow> ('w, unit) archive_prog" where
  "bring_up_seeded_s3_volume os cfg row access_key_id secret_access_key =
     (case b_s3_bucket row of
        None \<Rightarrow> raising (OtherRaised [])
      | Some bucket \<Rightarrow>
     (let client = s3_client_for (b_s3_region row) (b_s3_endpoint row) access_key_id secret_access_key;
          volume = b_juicefs_volume_name row;
          format = format_s3_volume os cfg bucket (b_s3_region row) (b_s3_endpoint row) access_key_id secret_access_key
      in and_then (world (ao_list os client bucket (volume @ ''/meta/''))) (\<lambda>dumps.
         and_then (from_result (newest_dump dumps None)) (\<lambda>newest.
         case newest of
           Some dump_key \<Rightarrow> restore_volume_from_dump os cfg client bucket volume access_key_id secret_access_key dump_key
         | None \<Rightarrow>
             and_then (world (ao_list os client bucket (volume @ ''/''))) (\<lambda>pages.
             and_then (from_result (prefix_has_objects pages)) (\<lambda>occupied.
             and_then (reading (\<lambda>s. get_setting (ar_db s) ADOPT_VOLUME_KEY = Some ''1'')) (\<lambda>adopt.
             if \<not> occupied then format volume
             else if adopt then and_then (delete_prefix os client bucket (volume @ ''/'')) (\<lambda>_. format volume)
             else and_then (world (\<lambda>w. fresh_volume_name (ao_token_hex os w) volume)) (\<lambda>fresh.
                  and_then (set_row (\<lambda>r. r\<lparr>b_juicefs_volume_name := fresh, b_s3_prefix := Some fresh\<rparr>)) (\<lambda>_.
                  format fresh)))))))))"

section \<open>Startup\<close>

definition attach_local :: "'w archive_ops \<Rightarrow> config \<Rightarrow> archive_row \<Rightarrow> ('w, unit) archive_prog" where
  "attach_local os cfg row =
     and_then (ensure_installed os cfg) (\<lambda>_.
     and_then (world (local_volume_formatted os cfg)) (\<lambda>formatted.
     and_then (if \<not> formatted \<and> b_juicefs_volume_name row = DEFAULT_VOLUME_NAME
         then and_then (reading (\<lambda>s. default_volume_name_for_zone (ao_sha256 os) (ar_db s))) (\<lambda>volume.
              and_then (set_juicefs_volume_name volume) (\<lambda>_. returning volume))
         else returning (b_juicefs_volume_name row)) (\<lambda>volume.
     and_then (ensure_local_volume_formatted os cfg volume) (\<lambda>_.
     and_then (mount os cfg None None) (\<lambda>_.
     set_state_message None)))))"

definition attach_s3 :: "'w archive_ops \<Rightarrow> config \<Rightarrow> archive_row \<Rightarrow> ('w, unit) archive_prog" where
  "attach_s3 os cfg row =
     and_then (ensure_installed os cfg) (\<lambda>_.
     case (b_s3_access_key_id row, b_s3_secret_access_key row) of
       (Some access_key_id, Some secret_access_key) \<Rightarrow>
         and_then (world (local_volume_formatted os cfg)) (\<lambda>formatted.
         and_then (when_do (\<not> formatted) (bring_up_seeded_s3_volume os cfg row access_key_id secret_access_key)) (\<lambda>_.
         and_then (mount os cfg (Some access_key_id) (Some secret_access_key)) (\<lambda>_.
         set_state_message None)))
     | _ \<Rightarrow> raising (RuntimeRaised (''S3 credentials are missing from the archive_backend row.  Re-configure ''
              @ ''the archive backend from the dashboard.'')))"

definition attach_on_startup :: "'w archive_ops \<Rightarrow> config \<Rightarrow> ('w, unit) archive_prog" where
  "attach_on_startup os cfg =
     and_then (reading (\<lambda>s. read_state (ar_row s))) (\<lambda>row.
     if b_backend row \<in> {''local'', ''s3''} \<and> ao_sysname os \<noteq> ''Linux''
     then set_state_message (Some (''Archive tier unavailable: no JuiceFS build for '' @ ao_sysname os @ ''.''))
     else if b_backend row = ''local''
     then handling (attach_local os cfg row)
            (\<lambda>x. set_state_message (Some (''Failed to bring up local archive backend: '' @ archive_exn_text x)))
     else if b_backend row = ''s3''
     then handling (attach_s3 os cfg row)
            (\<lambda>x. set_state_message (Some (''Failed to attach archive backend: '' @ archive_exn_text x)))
     else returning ())"

section \<open>Migrating the objects\<close>

definition sync_failed :: "string \<Rightarrow> int \<Rightarrow> string \<Rightarrow> string \<Rightarrow> string" where
  "sync_failed what rc out err = what @ '' failed: '' @ output_or_exit rc out err"

definition sync_objects :: "'w archive_ops \<Rightarrow> config \<Rightarrow> string \<Rightarrow> string \<Rightarrow> string \<Rightarrow> string \<Rightarrow> bool \<Rightarrow> ('w, unit) archive_prog" where
  "sync_objects os cfg src dst access_key_id secret_access_key insecure =
     run_checked os (sync_failed ''juicefs sync'') (sync_cmd cfg insecure src dst)
       [(''AWS_ACCESS_KEY_ID'', access_key_id), (''AWS_SECRET_ACCESS_KEY'', secret_access_key)] (6 * 60 * 60)"

definition sync_objects_s3_to_s3 :: "'w archive_ops \<Rightarrow> config \<Rightarrow> string \<Rightarrow> string \<times> string \<Rightarrow> string \<Rightarrow> string \<times> string \<Rightarrow> bool
    \<Rightarrow> ('w, unit) archive_prog" where
  "sync_objects_s3_to_s3 os cfg src src_keys dst dst_keys insecure =
     run_checked os (sync_failed ''juicefs sync (s3->s3)'')
       (sync_cmd cfg insecure (s3_url_with_creds src (fst src_keys) (snd src_keys))
          (s3_url_with_creds dst (fst dst_keys) (snd dst_keys))) [] (6 * 60 * 60)"

definition reconfigure_volume_storage :: "'w archive_ops \<Rightarrow> config \<Rightarrow> string \<Rightarrow> string \<Rightarrow> string option \<Rightarrow> string option
    \<Rightarrow> ('w, unit) archive_prog" where
  "reconfigure_volume_storage os cfg storage bucket access_key_id secret_access_key =
     run_checked os (sync_failed ''juicefs config (re-point storage)'')
       (config_cmd cfg storage bucket access_key_id secret_access_key) [] 120"

text \<open>Where an S3 store is, and with which keys.\<close>

record s3_place =
  sp_bucket :: string
  sp_region :: "string option"
  sp_endpoint :: "string option"
  sp_access_key_id :: string
  sp_secret_access_key :: string

definition place_url :: "s3_place \<Rightarrow> string" where
  "place_url p = bucket_url (sp_bucket p) (Some (or_us_east_1 (sp_region p))) (sp_endpoint p)"

definition place_sync_url :: "s3_place \<Rightarrow> string \<Rightarrow> string" where
  "place_sync_url p volume = s3_sync_dest (sp_bucket p) (sp_region p) (sp_endpoint p) volume"

definition migrate_s3_to_s3 :: "'w archive_ops \<Rightarrow> config \<Rightarrow> string \<Rightarrow> s3_place \<Rightarrow> s3_place \<Rightarrow> ('w, unit) archive_prog" where
  "migrate_s3_to_s3 os cfg volume src dst =
     and_then (sync_objects_s3_to_s3 os cfg
       (place_sync_url src volume) (sp_access_key_id src, sp_secret_access_key src)
       (place_sync_url dst volume) (sp_access_key_id dst, sp_secret_access_key dst)
       (endpoint_is_insecure_http (sp_endpoint src) \<or> endpoint_is_insecure_http (sp_endpoint dst))) (\<lambda>_.
     reconfigure_volume_storage os cfg ''s3'' (place_url dst) (Some (sp_access_key_id dst)) (Some (sp_secret_access_key dst)))"

definition migrate_local_to_s3 :: "'w archive_ops \<Rightarrow> config \<Rightarrow> string \<Rightarrow> s3_place \<Rightarrow> ('w, unit) archive_prog" where
  "migrate_local_to_s3 os cfg volume dst =
     and_then (sync_objects os cfg (local_sync_source cfg volume) (place_sync_url dst volume)
       (sp_access_key_id dst) (sp_secret_access_key dst) (endpoint_is_insecure_http (sp_endpoint dst))) (\<lambda>_.
     reconfigure_volume_storage os cfg ''s3'' (place_url dst) (Some (sp_access_key_id dst)) (Some (sp_secret_access_key dst)))"

section \<open>Reclaiming the source\<close>

text \<open>Whatever the removal raises is only logged.\<close>

definition remove_local_object_store :: "'w archive_ops \<Rightarrow> config \<Rightarrow> ('w, unit) archive_prog" where
  "remove_local_object_store os cfg =
     (let path = local_object_store_dir cfg in
      and_then (world (ao_is_dir os path)) (\<lambda>there.
      when_do there (and_then (on_world (ao_rmtree os path)) (\<lambda>_. on_world (ao_makedirs os path)))))"

definition delete_batch :: "'w archive_ops \<Rightarrow> s3_client \<Rightarrow> string \<Rightarrow> string list \<Rightarrow> ('w, unit) archive_prog" where
  "delete_batch os client bucket keys =
     and_then (calling (ao_delete os client bucket keys)) (\<lambda>r. case r of Inl m \<Rightarrow> raising (OtherRaised m) | Inr n \<Rightarrow> returning ())"

fun reclaim_keys :: "'w archive_ops \<Rightarrow> s3_client \<Rightarrow> string \<Rightarrow> string \<Rightarrow> string list \<Rightarrow> string list \<Rightarrow> ('w, string list) archive_prog" where
  "reclaim_keys os client bucket pre to_delete [] = returning to_delete"
| "reclaim_keys os client bucket pre to_delete (key # keys) =
     (if key \<noteq> [] \<and> startswith key pre
      then (if length (to_delete @ [key]) = 1000
            then and_then (delete_batch os client bucket (to_delete @ [key])) (\<lambda>_. reclaim_keys os client bucket pre [] keys)
            else reclaim_keys os client bucket pre (to_delete @ [key]) keys)
      else reclaim_keys os client bucket pre to_delete keys)"

fun reclaim_pages :: "'w archive_ops \<Rightarrow> s3_client \<Rightarrow> string \<Rightarrow> string \<Rightarrow> string list \<Rightarrow> (string + string list) list \<Rightarrow> ('w, unit) archive_prog" where
  "reclaim_pages os client bucket pre to_delete [] =
     (if to_delete = [] then returning () else delete_batch os client bucket to_delete)"
| "reclaim_pages os client bucket pre to_delete (Inl m # pages) = raising (OtherRaised m)"
| "reclaim_pages os client bucket pre to_delete (Inr keys # pages) =
     and_then (reclaim_keys os client bucket pre to_delete keys) (\<lambda>rest. reclaim_pages os client bucket pre rest pages)"

definition remove_s3_object_prefix :: "'w archive_ops \<Rightarrow> s3_place \<Rightarrow> string \<Rightarrow> ('w, unit) archive_prog" where
  "remove_s3_object_prefix os p volume =
     (let pre = py_strip (strip_char CHR ''/'' (py_strip volume));
          list_prefix = pre @ ''/'';
          client = s3_client_for (sp_region p) (sp_endpoint p) (sp_access_key_id p) (sp_secret_access_key p)
      in if pre = [] then returning ()
         else handling
           (and_then (world (ao_list os client (sp_bucket p) list_prefix)) (\<lambda>pages.
            reclaim_pages os client (sp_bucket p) list_prefix [] pages))
           (\<lambda>x. returning ()))"

section \<open>Configuring\<close>

text \<open>The starting state of \<open>configure_backend\<close>; an S3 source carries the place the row describes.\<close>

datatype archive_source = FromLocal | FromS3 s3_place | FromNothing

definition archive_source_of :: "archive_row \<Rightarrow> archive_exn + archive_source" where
  "archive_source_of row =
     (if b_backend row = ''local'' then Inr FromLocal
      else if b_backend row = ''disabled'' then Inr FromNothing
      else if b_backend row = ''s3''
      then (case (non_empty (b_s3_bucket row), b_s3_access_key_id row, b_s3_secret_access_key row) of
          (Some bucket, Some access_key_id, Some secret_access_key) \<Rightarrow>
            Inr (FromS3 \<lparr>sp_bucket = bucket, sp_region = b_s3_region row, sp_endpoint = b_s3_endpoint row,
              sp_access_key_id = access_key_id, sp_secret_access_key = secret_access_key\<rparr>)
        | _ \<Rightarrow> Inl (RuntimeRaised (''current S3 archive backend is missing its bucket/credentials in the ''
                 @ ''database; cannot migrate to a new bucket.  Re-provision or contact support.'')))
      else Inl (RuntimeRaised (''cannot configure S3 from backend='' @ quoted (Some (b_backend row)))))"

definition chosen_volume :: "(string \<Rightarrow> string) \<Rightarrow> archive_source \<Rightarrow> archive_row \<Rightarrow> string option \<Rightarrow> string option \<Rightarrow> db \<Rightarrow> string" where
  "chosen_volume sha256_hex source row volume_name prefix_arg db =
     (let fresh = (case non_empty volume_name of Some v \<Rightarrow> v | None \<Rightarrow>
            (case non_empty prefix_arg of Some p \<Rightarrow> p | None \<Rightarrow> default_volume_name_for_zone sha256_hex db));
          existing = b_juicefs_volume_name row
      in case source of
           FromS3 p \<Rightarrow> existing
         | FromLocal \<Rightarrow> if existing = DEFAULT_VOLUME_NAME then fresh else existing
         | FromNothing \<Rightarrow> fresh)"

definition move_archive :: "'w archive_ops \<Rightarrow> config \<Rightarrow> archive_source \<Rightarrow> string \<Rightarrow> s3_place \<Rightarrow> ('w, unit) archive_prog
    \<Rightarrow> ('w, unit) archive_prog" where
  "move_archive os cfg source volume dst quiesce =
     and_then (ensure_installed os cfg) (\<lambda>_.
     case source of
       FromLocal \<Rightarrow>
         and_then (ensure_local_volume_formatted os cfg volume) (\<lambda>_.
         and_then (mount os cfg None None) (\<lambda>_.
         and_then quiesce (\<lambda>_.
         and_then (migrate_local_to_s3 os cfg volume dst) (\<lambda>_.
         remount os cfg (Some (sp_access_key_id dst)) (Some (sp_secret_access_key dst))))))
     | FromS3 src \<Rightarrow>
         and_then (mount os cfg (Some (sp_access_key_id src)) (Some (sp_secret_access_key src))) (\<lambda>_.
         and_then quiesce (\<lambda>_.
         and_then (migrate_s3_to_s3 os cfg volume src dst) (\<lambda>_.
         remount os cfg (Some (sp_access_key_id dst)) (Some (sp_secret_access_key dst)))))
     | FromNothing \<Rightarrow>
         and_then (format_s3_volume os cfg (sp_bucket dst) (sp_region dst) (sp_endpoint dst)
             (sp_access_key_id dst) (sp_secret_access_key dst) volume) (\<lambda>_.
         mount os cfg (Some (sp_access_key_id dst)) (Some (sp_secret_access_key dst))))"

definition s3_row :: "s3_place \<Rightarrow> string \<Rightarrow> string \<Rightarrow> archive_row \<Rightarrow> archive_row" where
  "s3_row dst volume configured_at r = r\<lparr>b_backend := ''s3'', b_s3_bucket := Some (sp_bucket dst), b_s3_region := sp_region dst,
     b_s3_endpoint := sp_endpoint dst, b_s3_prefix := Some volume, b_s3_access_key_id := Some (sp_access_key_id dst),
     b_s3_secret_access_key := Some (sp_secret_access_key dst), b_juicefs_volume_name := volume,
     b_configured_at := Some configured_at, b_state_message := None\<rparr>"

definition LOCAL_MOUNT_LOST :: string where
  "LOCAL_MOUNT_LOST = ''Migration to S3 failed and the local archive mount could not be ''
     @ ''restarted automatically; your archive data is intact on local disk. ''
     @ ''Restart the instance (or the Cloud in a Bottle service) to bring the archive back online, then retry.''"

definition S3_MOUNT_LOST :: string where
  "S3_MOUNT_LOST = ''Migration to a new S3 bucket failed and the original archive mount ''
     @ ''could not be restarted automatically; your archive data is intact in the original bucket. ''
     @ ''Restart the instance (or the Cloud in a Bottle service) to bring the archive back online, then retry.''"

text \<open>What the \<open>except\<close> of \<open>configure_backend\<close> does before it raises again.\<close>

definition restore_source :: "'w archive_ops \<Rightarrow> config \<Rightarrow> archive_source \<Rightarrow> ('w, unit) archive_prog" where
  "restore_source os cfg source =
     (case source of
        FromLocal \<Rightarrow> handling
          (and_then (reconfigure_volume_storage os cfg ''file'' (file_bucket (local_object_store_dir cfg)) None None) (\<lambda>_.
           remount os cfg None None))
          (\<lambda>x. set_state_message (Some LOCAL_MOUNT_LOST))
      | FromS3 src \<Rightarrow> handling
          (and_then (reconfigure_volume_storage os cfg ''s3'' (place_url src)
               (Some (sp_access_key_id src)) (Some (sp_secret_access_key src))) (\<lambda>_.
           remount os cfg (Some (sp_access_key_id src)) (Some (sp_secret_access_key src))))
          (\<lambda>x. set_state_message (Some S3_MOUNT_LOST))
      | FromNothing \<Rightarrow> handling (umount os cfg) (\<lambda>x. returning ()))"

definition reclaim_source :: "'w archive_ops \<Rightarrow> config \<Rightarrow> archive_source \<Rightarrow> archive_row \<Rightarrow> string \<Rightarrow> s3_place \<Rightarrow> ('w, unit) archive_prog" where
  "reclaim_source os cfg source row volume dst =
     (case source of
        FromLocal \<Rightarrow> remove_local_object_store os cfg
      | FromS3 src \<Rightarrow>
          when_do (\<not> (sp_bucket src = sp_bucket dst \<and> b_juicefs_volume_name row = volume)) (remove_s3_object_prefix os src volume)
      | FromNothing \<Rightarrow> returning ())"

definition configure_backend :: "'w archive_ops \<Rightarrow> config \<Rightarrow> s3_place \<Rightarrow> string option \<Rightarrow> string option
    \<Rightarrow> ('w, unit) archive_prog \<Rightarrow> ('w, unit) archive_prog" where
  "configure_backend os cfg dst prefix_arg volume_name quiesce =
     and_then (reading (\<lambda>s. read_state (ar_row s))) (\<lambda>row.
     and_then (from_result (archive_source_of row)) (\<lambda>source.
     and_then (reading (\<lambda>s. chosen_volume (ao_sha256 os) source row volume_name prefix_arg (ar_db s))) (\<lambda>volume.
     and_then (handling
       (and_then (move_archive os cfg source volume dst quiesce) (\<lambda>_.
        and_then (world (ao_utc os)) (\<lambda>configured_at.
        set_row (s3_row dst volume configured_at))))
       (\<lambda>x. and_then (restore_source os cfg source) (\<lambda>_.
            raising (RuntimeRaised (''Failed to configure S3 archive backend: '' @ archive_exn_text x))))) (\<lambda>_.
     reclaim_source os cfg source row volume dst))))"

section \<open>What the operator sees\<close>

record storage_summary =
  su_app_data :: bool
  su_app_temp_data :: bool
  su_uses_archive :: bool
  su_requires_archive :: bool
  su_archive_backend :: string
  su_archive_is_durable :: bool

text \<open>The flags of the manifest's data section, in the order the code asks them.\<close>

definition storage_summary_of :: "manifest_env \<Rightarrow> string \<Rightarrow> archive_row option \<Rightarrow> app_exn + storage_summary" where
  "storage_summary_of env manifest_raw row =
     (let data = data_section env manifest_raw; backend = b_backend (read_state row); flag = data_flag data in
      bind_res (flag ''app_archive'') (\<lambda>requires.
      bind_res (flag ''access_all_app_data'') (\<lambda>all1.
      bind_res (if all1 then Inr True else flag ''access_all_data'') (\<lambda>all2.
      bind_res (if all2 then Inr True else flag ''access_all_archive'') (\<lambda>all_data.
      bind_res (bind_res (lift_dynamic (py_get data ''app_data'' (PBool True))) (\<lambda>v. Inr (truthy v))) (\<lambda>app_data.
      bind_res (if app_data then Inr True else flag ''sqlite'') (\<lambda>app_data.
      bind_res (flag ''app_temp_data'') (\<lambda>temp.
      Inr \<lparr>su_app_data = app_data \<or> all_data, su_app_temp_data = temp \<or> all_data,
           su_uses_archive = requires \<or> all_data, su_requires_archive = requires,
           su_archive_backend = backend, su_archive_is_durable = (backend = ''s3'')\<rparr>))))))))"

text \<open>The backups of a volume in its bucket; \<open>contents\<close> are the keys with their times as far as S3 tells them, None where
  listing raised. The latest is the first of those with the latest time.\<close>

record dump_summary =
  du_count :: nat
  du_latest_at :: "string option"
  du_latest_key :: "string option"

definition dump_prefix :: "string \<Rightarrow> string" where
  "dump_prefix volume = (let v = strip_char CHR ''/'' volume in if v = [] then ''meta/'' else v @ ''/meta/'')"

fun latest_dump :: "string \<times> int option \<Rightarrow> (string \<times> int option) list \<Rightarrow> string \<times> int option" where
  "latest_dump best [] = best"
| "latest_dump best (x # xs) =
     latest_dump (if (case snd best of Some a \<Rightarrow> a | None \<Rightarrow> 0) < (case snd x of Some b \<Rightarrow> b | None \<Rightarrow> 0) then x else best) xs"

definition list_meta_dumps :: "(int \<Rightarrow> string) \<Rightarrow> (string \<times> int option) list option \<Rightarrow> dump_summary option" where
  "list_meta_dumps show_time contents =
     map_option (\<lambda>objs.
       case filter (\<lambda>(key, modified). is_dump_key key) objs of
         [] \<Rightarrow> \<lparr>du_count = 0, du_latest_at = None, du_latest_key = None\<rparr>
       | d # ds \<Rightarrow> (case latest_dump d ds of (key, modified) \<Rightarrow>
           \<lparr>du_count = length (d # ds), du_latest_at = map_option show_time modified, du_latest_key = Some key\<rparr>)) contents"

definition test_s3_credentials :: "'w archive_ops \<Rightarrow> string \<Rightarrow> string option \<Rightarrow> string option \<Rightarrow> string \<Rightarrow> string \<Rightarrow> 'w \<Rightarrow> string option" where
  "test_s3_credentials os bucket region endpoint access_key_id secret_access_key w =
     map_option (\<lambda>m. ''S3 reachability test failed: '' @ m)
       (ao_head os (s3_client_for region endpoint access_key_id secret_access_key) bucket w)"

definition has_archive_data :: "'w archive_ops \<Rightarrow> config \<Rightarrow> 'w \<Rightarrow> string \<Rightarrow> bool" where
  "has_archive_data os cfg w app_name \<longleftrightarrow>
     \<not> startswith app_name ''.'' \<and> ao_is_dir os (path_join (app_archive_dir cfg) app_name) w \<and>
     (case ao_listdir os (path_join (app_archive_dir cfg) app_name) w of Some (e # es) \<Rightarrow> True | _ \<Rightarrow> False)"

definition local_archive_apps_with_data :: "'w archive_ops \<Rightarrow> config \<Rightarrow> archive_row option \<Rightarrow> 'w \<Rightarrow> string list" where
  "local_archive_apps_with_data os cfg row w =
     (let root = app_archive_dir cfg in
      if b_backend (read_state row) \<noteq> ''local'' \<or> \<not> is_mounted os root w \<or> \<not> ao_is_dir os root w then []
      else (case ao_listdir os root w of None \<Rightarrow> [] | Some entries \<Rightarrow> filter (has_archive_data os cfg w) (sort entries)))"

end
