(* ===== verification/DefaultApps.thy ===== *)
theory DefaultApps
  imports AppRoutes "HOL-Library.AList"
begin

text \<open>
  \<open>core/default_apps.py\<close>: the apps of \<open>config.default_apps\<close> are installed at the end of the setup and,
  if that failed, again at each boot. A JSON file, the sentinel, remembers what became of each. The
  file system's and git's answers are arguments, the file's content is its parsed JSON.
\<close>

datatype install_status = InstOk | InstSkipped | InstFailed

fun status_text :: "install_status \<Rightarrow> string" where
  "status_text InstOk = ''ok''"
| "status_text InstSkipped = ''skipped''"
| "status_text InstFailed = ''failed''"

record default_app_outcome =
  oc_name :: string
  oc_status :: install_status
  oc_attempts :: int
  oc_error :: pyval

definition MAX_RETRY_ATTEMPTS :: int where
  "MAX_RETRY_ATTEMPTS = 3"

definition is_remote_url :: "string \<Rightarrow> bool" where
  "is_remote_url spec = contains_str spec ''://''"

section \<open>The sentinel\<close>

type_synonym sentinel = "(string \<times> (string \<times> pyval) list) list"

text \<open>None is a missing, unreadable or malformed file.\<close>

definition load_sentinel :: "pyval option \<Rightarrow> sentinel" where
  "load_sentinel raw =
     (case raw of
        Some (PDict d) \<Rightarrow> List.map_filter (\<lambda>(k, v). case v of PDict e \<Rightarrow> Some (k, e) | _ \<Rightarrow> None) d
      | _ \<Rightarrow> [])"

text \<open>The file after \<open>_write_sentinel\<close>; the write can fail, and then the old file stays.\<close>

definition write_sentinel :: "bool \<Rightarrow> sentinel \<Rightarrow> pyval option \<Rightarrow> pyval option" where
  "write_sentinel works state raw =
     (if works then Some (PDict (map (\<lambda>(k, e). (k, PDict e)) state)) else raw)"

section \<open>Installing one app\<close>

datatype clone_result =
    CloneRaised app_exn
  | CloneReturned "app_manifest option" "string option" "string option"

record install_env =
  ie_host :: host
  ie_clone :: "string \<Rightarrow> clone_result"
  ie_copy :: "string \<Rightarrow> app_exn option"
  ie_move :: "string \<Rightarrow> app_exn option"

text \<open>
  All entries use one connection, and an exception does not roll it back: the rows a failed
  installation has inserted stay in the open transaction until the next commit. The committed
  database, what the connection sees, and the apps whose deploy thread was started.
\<close>

record install_state =
  is_committed :: db
  is_view :: db
  is_started :: "string list"

type_synonym install_result = "(app_exn + install_status \<times> string option) \<times> install_state"

fun insert_while :: "('a \<Rightarrow> db \<Rightarrow> app_exn + db) \<Rightarrow> 'a list \<Rightarrow> db \<Rightarrow> app_exn option \<times> db" where
  "insert_while ins [] view = (None, view)"
| "insert_while ins (row # rows) view =
     (case ins row view of Inl e \<Rightarrow> (Some e, view) | Inr view' \<Rightarrow> insert_while ins rows view')"

text \<open>What \<open>insert_and_deploy\<close> computes before its first INSERT; \<open>allocate_port\<close> opens a connection
  of its own.\<close>

definition before_insert ::
    "config \<Rightarrow> host \<Rightarrow> app_manifest \<Rightarrow> string \<Rightarrow> db \<Rightarrow> db \<Rightarrow> string option
       \<Rightarrow> app_exn + string \<times> (string \<times> string) list \<times> app_row \<times> port_mapping list" where
  "before_insert cfg h m repo_path committed view repo_url =
     bind_res (chosen_name m None) (\<lambda>n.
     bind_res (check_before_deploy cfg h) (\<lambda>_.
     bind_res (lift_port (allocate_port (h_ports h) committed (cf_port_range_start cfg) (cf_port_range_end cfg))) (\<lambda>local_port.
     bind_res (some_or (OtherError ''no fresh id drawn'') (mint_unique_app_id (h_fresh_ids h) view)) (\<lambda>app_id.
     bind_res (lift_port (resolve_port_mappings (h_ports h) (h_shuffle h) (apply_port_overrides [] (m_port_mappings m)) view
         (cf_port_range_start cfg) (cf_port_range_end cfg) None)) (\<lambda>resolved.
     bind_res (app_env_vars cfg h app_id n m view) (\<lambda>env_vars.
     bind_res (manifest_column_values m) (\<lambda>columns.
     Inr (app_id, env_vars, columns (new_app_row h app_id n repo_path repo_url local_port), resolved))))))))"

text \<open>The INSERTs: the result and what the connection sees afterwards.\<close>

definition insert_rows_on_view ::
    "host \<Rightarrow> app_manifest \<Rightarrow> string \<Rightarrow> (string \<times> string) list \<Rightarrow> app_row \<Rightarrow> port_mapping list \<Rightarrow> db
       \<Rightarrow> app_exn option \<times> db" where
  "insert_rows_on_view h m app_id env_vars row resolved view =
     (case insert_app row view of
        Inl e \<Rightarrow> (Some e, view)
      | Inr v1 \<Rightarrow>
     (case insert_while insert_port (map (port_row_of app_id) resolved) v1 of
        (Some e, v2) \<Rightarrow> (Some e, v2)
      | (None, v2) \<Rightarrow>
     (case bind_res (lift_dynamic (py_iter (m_sqlite_dbs m))) string_list of
        Inl e \<Rightarrow> (Some e, v2)
      | Inr names \<Rightarrow>
     (case insert_while insert_database (map (database_row_of app_id env_vars) names) v2 of
        (Some e, v3) \<Rightarrow> (Some e, v3)
      | (None, v3) \<Rightarrow>
     (let v4 = store_app_token h app_id env_vars v3 in
      case lift_service (register_services_provided_by_app True app_id m v4) of
        Inl e \<Rightarrow> (Some e, v4)
      | Inr v5 \<Rightarrow> (None, v5))))))"

definition insert_and_deploy_on_view ::
    "config \<Rightarrow> install_env \<Rightarrow> app_manifest \<Rightarrow> string \<Rightarrow> string \<Rightarrow> install_state \<Rightarrow> (app_exn + string) \<times> install_state" where
  "insert_and_deploy_on_view cfg e m repo_path repo_url st =
     (let h = ie_host e in
      case before_insert cfg h m repo_path (is_committed st) (is_view st) (Some repo_url) of
        Inl x \<Rightarrow> (Inl x, st)
      | Inr (app_id, env_vars, row, resolved) \<Rightarrow>
     (case insert_rows_on_view h m app_id env_vars row resolved (is_view st) of
        (Some x, view) \<Rightarrow> (Inl x, st\<lparr>is_view := view\<rparr>)
      | (None, view) \<Rightarrow>
          (let (res, db') = grant_all h app_id (all_manifest_permissions_v2 m) view;
               st' = st\<lparr>is_committed := db', is_view := db'\<rparr>
           in case res of
                Inl x \<Rightarrow> (Inl x, st')
              | Inr u \<Rightarrow> (Inr app_id, st'\<lparr>is_started := is_started st @ [app_id]\<rparr>))))"

text \<open>The text SQLite compares with when a value is bound; a list or a table cannot be bound.\<close>

fun sql_text :: "(rat \<Rightarrow> string) \<Rightarrow> pyval \<Rightarrow> string option" where
  "sql_text fr (PStr s) = Some s"
| "sql_text fr (PInt i) = (if sql_bindable (PInt i) then Some (show_int i) else None)"
| "sql_text fr (PBool b) = Some (if b then ''1'' else ''0'')"
| "sql_text fr (PFloat r) = Some (fr r)"
| "sql_text fr (PDate d) = Some d"
| "sql_text fr _ = None"

fun name_problem_text :: "name_problem \<Rightarrow> string" where
  "name_problem_text BadAppName = ''App name must be lowercase alphanumeric (hyphens allowed, not at start/end)''"
| "name_problem_text (ReservedAppName n) = ''App name '' @ [CHR 0x27] @ n @ [CHR 0x27] @ '' conflicts with a reserved path''"
| "name_problem_text (AppNameInUse n) = ''App name already in use by '' @ [CHR 0x27] @ n @ [CHR 0x27]"

definition finalize_install ::
    "config \<Rightarrow> install_env \<Rightarrow> app_manifest \<Rightarrow> string \<Rightarrow> install_state \<Rightarrow> install_result" where
  "finalize_install cfg e m repo_url st =
     (let h = ie_host e in
      case sql_text (float_repr (h_env h)) (m_name m) of
        None \<Rightarrow> (Inl (OtherError ''binding''), st)
      | Some bound \<Rightarrow>
          if exists_row (\<lambda>r. a_name r = bound) (apps (is_view st)) then (Inr (InstSkipped, None), st)
          else (case validate_manifest m (is_view st) None of
              Inl x \<Rightarrow> (Inl x, st)
            | Inr (Some problem) \<Rightarrow> (Inr (InstFailed, Some (name_problem_text problem)), st)
            | Inr None \<Rightarrow>
                (case ie_move e bound of
                   Some x \<Rightarrow> (Inl x, st)
                 | None \<Rightarrow>
                     (case insert_and_deploy_on_view cfg e m (repo_dir cfg bound) repo_url st of
                        (Inl x, st') \<Rightarrow> (Inr (InstFailed, Some (''insert_and_deploy: '' @ h_text h x)), st')
                      | (Inr app_id, st') \<Rightarrow> (Inr (InstOk, None), st')))))"

definition install_vendored :: "config \<Rightarrow> install_env \<Rightarrow> string \<Rightarrow> install_state \<Rightarrow> install_result" where
  "install_vendored cfg e dir_name st =
     (let h = ie_host e; app_dir = path_join (apps_dir cfg) dir_name in
      if \<not> h_is_dir h app_dir \<or> find_manifest_path (h_files h) app_dir = None
      then (Inr (InstFailed, Some (''builtin app dir or '' @ hd MANIFEST_FILENAMES @ '' missing: '' @ app_dir)), st)
      else (case ie_copy e app_dir of
          Some x \<Rightarrow> (Inr (InstFailed, Some (''clone/parse: '' @ h_text h x)), st)
        | None \<Rightarrow>
            (case parse_manifest (h_env h) (h_files h) app_dir of
               Inl x \<Rightarrow> (Inr (InstFailed, Some (''clone/parse: '' @ h_text h (ManifestError x))), st)
             | Inr m \<Rightarrow> finalize_install cfg e m (''file://'' @ app_dir) st)))"

definition install_remote :: "config \<Rightarrow> install_env \<Rightarrow> string \<Rightarrow> install_state \<Rightarrow> install_result" where
  "install_remote cfg e repo_url st =
     (case ie_clone e repo_url of
        CloneRaised x \<Rightarrow> (Inr (InstFailed, Some (''clone: '' @ h_text (ie_host e) x)), st)
      | CloneReturned manifest clone_dir err \<Rightarrow>
          (case (non_empty err, manifest, clone_dir) of
             (None, Some m, Some d) \<Rightarrow> finalize_install cfg e m repo_url st
           | (Some msg, _) \<Rightarrow> (Inr (InstFailed, Some (''clone: '' @ msg)), st)
           | _ \<Rightarrow> (Inr (InstFailed, Some ''clone: unknown error''), st)))"

definition install_one :: "config \<Rightarrow> install_env \<Rightarrow> string \<Rightarrow> install_state \<Rightarrow> install_result" where
  "install_one cfg e spec st =
     (if is_remote_url spec then install_remote cfg e spec st else install_vendored cfg e spec st)"

section \<open>The loop\<close>

text \<open>\<open>int(prior.get("attempts", 0))\<close>, with 0 for what \<open>int\<close> refuses.\<close>

definition prior_attempts :: "(string \<times> pyval) list \<Rightarrow> int" where
  "prior_attempts prior = (case py_int (dict_lookup prior ''attempts'' (PInt 0)) of Inr n \<Rightarrow> n | Inl e \<Rightarrow> 0)"

definition prior_entry :: "sentinel \<Rightarrow> string \<Rightarrow> (string \<times> pyval) list" where
  "prior_entry state spec = (case map_of state spec of None \<Rightarrow> [] | Some d \<Rightarrow> d)"

text \<open>An outcome that stands, so that nothing is installed.\<close>

definition standing_outcome :: "string \<Rightarrow> (string \<times> pyval) list \<Rightarrow> default_app_outcome option" where
  "standing_outcome spec prior =
     (let status = dict_lookup prior ''status'' PNone; n = prior_attempts prior in
      if status = PStr ''ok'' then Some \<lparr>oc_name = spec, oc_status = InstOk, oc_attempts = n, oc_error = PNone\<rparr>
      else if status = PStr ''skipped''
      then Some \<lparr>oc_name = spec, oc_status = InstSkipped, oc_attempts = n, oc_error = PNone\<rparr>
      else if status = PStr ''failed'' \<and> MAX_RETRY_ATTEMPTS \<le> n
      then Some \<lparr>oc_name = spec, oc_status = InstFailed, oc_attempts = n, oc_error = dict_lookup prior ''error'' PNone\<rparr>
      else None)"

definition opt_text :: "string option \<Rightarrow> pyval" where
  "opt_text x = (case x of None \<Rightarrow> PNone | Some s \<Rightarrow> PStr s)"

text \<open>One entry of the list; the flag says whether an installation was attempted.\<close>

definition deploy_one ::
    "config \<Rightarrow> install_env \<Rightarrow> string \<Rightarrow> sentinel \<Rightarrow> install_state \<Rightarrow> bool \<times> default_app_outcome \<times> sentinel \<times> install_state" where
  "deploy_one cfg e spec state st =
     (let prior = prior_entry state spec in
      case standing_outcome spec prior of
        Some outcome \<Rightarrow> (False, outcome, state, st)
      | None \<Rightarrow>
          (let (res, st') = install_one cfg e spec st;
               (status, err) = (case res of Inr r \<Rightarrow> r
                  | Inl x \<Rightarrow> (InstFailed, Some (''unexpected: '' @ h_text (ie_host e) x)));
               attempts = (if status = InstFailed then prior_attempts prior + 1 else 1)
           in (True, \<lparr>oc_name = spec, oc_status = status, oc_attempts = attempts, oc_error = opt_text err\<rparr>,
               AList.update spec [(''status'', PStr (status_text status)), (''attempts'', PInt attempts),
                                  (''error'', opt_text err)] state, st')))"

text \<open>What is random or asked of the host may differ from one entry to the next.\<close>

fun deploy_loop ::
    "config \<Rightarrow> (string \<Rightarrow> install_env) \<Rightarrow> string list \<Rightarrow> sentinel \<Rightarrow> install_state
       \<Rightarrow> (string \<times> install_status) list \<times> default_app_outcome list \<times> sentinel \<times> install_state" where
  "deploy_loop cfg envs [] state st = ([], [], state, st)"
| "deploy_loop cfg envs (spec # specs) state st =
     (let (attempted, outcome, state1, st1) = deploy_one cfg (envs spec) spec state st;
          (tried, outcomes, state2, st2) = deploy_loop cfg envs specs state1 st1
      in ((if attempted then [(spec, oc_status outcome)] else []) @ tried, outcome # outcomes, state2, st2))"

text \<open>
  \<open>deploy_default_apps\<close>: the installations that were attempted, the outcomes, the file,
  the committed database and the apps whose deploy thread was started. What is not committed at the
  end is lost with the connection.
\<close>

definition deploy_default_apps ::
    "config \<Rightarrow> (string \<Rightarrow> install_env) \<Rightarrow> bool \<Rightarrow> pyval option \<Rightarrow> db
       \<Rightarrow> (string \<times> install_status) list \<times> default_app_outcome list \<times> pyval option \<times> db \<times> string list" where
  "deploy_default_apps cfg envs write_works file db =
     (if cf_default_apps cfg = [] then ([], [], file, db, [])
      else (let (tried, outcomes, state, st) = deploy_loop cfg envs (cf_default_apps cfg) (load_sentinel file)
                  \<lparr>is_committed = db, is_view = db, is_started = []\<rparr>
            in (tried, outcomes, write_sentinel write_works state file, is_committed st, is_started st)))"

section \<open>One connection or a request's own\<close>

lemma insert_while_all:
  "insert_all ins rows db = (case insert_while ins rows db of (None, v) \<Rightarrow> Inr v | (Some e, v) \<Rightarrow> Inl e)"
  by (induction rows arbitrary: db) (auto simp: bind_res_def split: sum.splits)

lemma insert_steps_on_view:
  "bind_res (insert_app row db) (\<lambda>db1.
     bind_res (insert_all insert_port (map (port_row_of i) resolved) db1) (\<lambda>db2.
     bind_res (lift_dynamic (py_iter (m_sqlite_dbs m))) (\<lambda>db_names.
     bind_res (string_list db_names) (\<lambda>names.
     bind_res (insert_all insert_database (map (database_row_of i vars) names) db2) (\<lambda>db3.
     bind_res (lift_service (register_services_provided_by_app True i m (store_app_token h i vars db3))) (\<lambda>db4.
     Inr (i, vars, db4))))))) =
   (case insert_rows_on_view h m i vars row resolved db of (Some e, v) \<Rightarrow> Inl e | (None, v) \<Rightarrow> Inr (i, vars, v))"
proof (cases "insert_app row db")
  case [simp]: (Inr db1)
  show ?thesis
  proof (cases "insert_while insert_port (map (port_row_of i) resolved) db1")
    case [simp]: (Pair e db2)
    show ?thesis
    proof (cases e)
      case [simp]: None
      show ?thesis
      proof (cases "bind_res (lift_dynamic (py_iter (m_sqlite_dbs m))) string_list")
        case (Inl x)
        then show ?thesis
          by (auto simp: insert_rows_on_view_def insert_while_all bind_res_def split: sum.splits)
      next
        case names: (Inr names)
        then obtain db_names where [simp]: "lift_dynamic (py_iter (m_sqlite_dbs m)) = Inr db_names" "string_list db_names = Inr names"
          by (auto simp: res_simps)
        show ?thesis
          by (cases "insert_while insert_database (map (database_row_of i vars) names) db2")
            (auto simp: insert_rows_on_view_def insert_while_all bind_res_def Let_def split: sum.splits option.splits)
      qed
    qed (simp add: insert_rows_on_view_def insert_while_all bind_res_def)
  qed
qed (simp add: insert_rows_on_view_def bind_res_def)

lemma insert_app_rows_on_view:
  "insert_app_rows cfg h m repo db None (Some url) [] =
     bind_res (before_insert cfg h m repo db db (Some url)) (\<lambda>(i, vars, row, resolved).
       case insert_rows_on_view h m i vars row resolved db of (Some e, v) \<Rightarrow> Inl e | (None, v) \<Rightarrow> Inr (i, vars, v))"
proof -
  have assoc: "bind_res (bind_res x f) g = bind_res x (\<lambda>a. bind_res (f a) g)" for x :: "'e + 'a" and f :: "'a \<Rightarrow> 'e + 'b" and g :: "'b \<Rightarrow> 'e + 'c"
    by (cases x) (simp_all add: bind_res_def)
  have ret: "bind_res (Inr a) f = f a" for a :: 'a and f :: "'a \<Rightarrow> 'e + 'b"
    by (simp add: bind_res_def)
  show ?thesis
    unfolding insert_app_rows_def before_insert_def assoc ret prod.case insert_steps_on_view ..
qed

text \<open>
  When everything is committed, the installer on the shared connection does what the one of a request
  does; they differ in what a failure leaves behind.
\<close>

lemma on_view_agrees:
  assumes "is_view st = is_committed st"
    and "insert_and_deploy cfg (ie_host e) m repo (is_committed st) (all_manifest_permissions_v2 m) None (Some url) [] = (res, db)"
  shows "\<exists>st'. insert_and_deploy_on_view cfg e m repo url st = ((case res of Inl x \<Rightarrow> Inl x | Inr (i, vars) \<Rightarrow> Inr i), st') \<and>
    is_committed st' = db \<and> (\<forall>i vars. res = Inr (i, vars) \<longrightarrow> is_started st' = is_started st @ [i])"
  using assms(2) unfolding insert_and_deploy_def insert_app_rows_on_view insert_and_deploy_on_view_def Let_def assms(1)
  by (auto simp: bind_res_def split: sum.splits option.splits prod.splits)

text \<open>Whatever an earlier failure left in the transaction is committed with the next installation.\<close>

lemma insert_while_apps:
  assumes "insert_while ins rows db = (x, v)" and "\<And>row d d'. ins row d = Inr d' \<Longrightarrow> apps d' = apps d"
  shows "apps v = apps db"
  using assms by (induction rows arbitrary: db) (auto split: sum.splits)

lemma grant_all_apps: "grant_all h i gs db = (res, db') \<Longrightarrow> apps db' = apps db"
  by (induction gs arbitrary: db) (auto dest: grant_keeps_apps split: if_splits sum.splits)

lemma leftovers_are_committed:
  assumes "insert_and_deploy_on_view cfg e m repo url st = (Inr i, st')" and "r \<in> set (apps (is_view st))"
  shows "r \<in> set (apps (is_committed st'))"
proof -
  have port: "apps d' = apps d" if "insert_port row d = Inr d'" for row d d'
    using that by (auto simp: insert_port_def split: if_splits)
  have database: "apps d' = apps d" if "insert_database row d = Inr d'" for row d d'
    using that by (auto simp: insert_database_def split: if_splits)
  have rows: "set (apps view) \<subseteq> set (apps v)" if "insert_rows_on_view h m j vars row resolved view = (None, v)"
    for h j vars row resolved view v
    using that insert_while_apps [of insert_port, OF _ port] insert_while_apps [of insert_database, OF _ database]
    by (fastforce simp: insert_rows_on_view_def insert_app_def Let_def lift_service_def
        register_services_provided_by_app_def split: sum.splits option.splits prod.splits if_splits)
  then show ?thesis
    using assms grant_all_apps
    by (fastforce simp: insert_and_deploy_on_view_def Let_def split: sum.splits option.splits prod.splits)
qed

section \<open>Retries\<close>

text \<open>How often an entry may still be tried, after what the program itself has written.\<close>

definition entry_ok :: "(string \<times> pyval) list \<Rightarrow> bool" where
  "entry_ok d \<longleftrightarrow> (\<exists>st n err. d = [(''status'', PStr (status_text st)), (''attempts'', PInt n), (''error'', err)] \<and> 1 \<le> n)"

definition sentinel_ok :: "sentinel \<Rightarrow> bool" where
  "sentinel_ok state \<longleftrightarrow> list_all (\<lambda>(k, d). entry_ok d) state"

definition tries_left :: "sentinel \<Rightarrow> string \<Rightarrow> nat" where
  "tries_left state spec =
     (case map_of state spec of
        None \<Rightarrow> 3
      | Some d \<Rightarrow> if dict_lookup d ''status'' PNone = PStr ''failed'' then nat (MAX_RETRY_ATTEMPTS - prior_attempts d) else 0)"

lemma sentinel_ok_update:
  "sentinel_ok state \<Longrightarrow> entry_ok d \<Longrightarrow> sentinel_ok (AList.update k d state)"
  by (induction state) (auto simp: sentinel_ok_def)

lemma load_write_sentinel [simp]: "load_sentinel (write_sentinel True state raw) = state"
proof -
  have "List.map_filter (\<lambda>(k, v). case v of PDict e \<Rightarrow> Some (k, e) | _ \<Rightarrow> None) (map (\<lambda>(k, e). (k, PDict e)) state) = state"
    by (induction state) (auto simp: List.map_filter_simps)
  then show ?thesis by (simp add: load_sentinel_def write_sentinel_def)
qed

lemma status_text_cases: "status_text st = ''ok'' \<or> status_text st = ''skipped'' \<or> status_text st = ''failed''"
  by (cases st) simp_all

lemma deploy_one_tries:
  assumes "deploy_one cfg e spec state st = (attempted, outcome, state', st')" and "sentinel_ok state"
  shows "sentinel_ok state' \<and> (if attempted then 1 else 0) + tries_left state' spec \<le> tries_left state spec \<and>
    (attempted \<and> oc_status outcome \<noteq> InstFailed \<longrightarrow> tries_left state' spec = 0) \<and>
    (\<forall>k. k \<noteq> spec \<longrightarrow> tries_left state' k = tries_left state k)"
proof -
  let ?prior = "prior_entry state spec"
  have ok: "?prior = [] \<and> map_of state spec = None \<or> entry_ok ?prior \<and> map_of state spec = Some ?prior"
    using assms(2) by (auto simp: prior_entry_def sentinel_ok_def list_all_iff dest!: map_of_SomeD split: option.splits)
  show ?thesis
  proof (cases "standing_outcome spec ?prior")
    case (Some oc)
    with assms have "state' = state" "\<not> attempted" by (auto simp: deploy_one_def Let_def)
    with assms(2) show ?thesis by simp
  next
    case None
    obtain res st1 where inst: "install_one cfg e spec st = (res, st1)" by fastforce
    obtain status err where se: "(case res of Inr r \<Rightarrow> r
        | Inl x \<Rightarrow> (InstFailed, Some (''unexpected: '' @ h_text (ie_host e) x))) = (status, err)" by fastforce
    define attempts where n: "attempts = (if status = InstFailed then prior_attempts ?prior + 1 else 1)"
    have state': "state' = AList.update spec [(''status'', PStr (status_text status)),
        (''attempts'', PInt attempts), (''error'', opt_text err)] state" and "attempted" "oc_status outcome = status"
      using assms(1) unfolding deploy_one_def Let_def None option.case inst prod.case se n by auto
    have none: "\<not> (dict_lookup ?prior ''status'' PNone = PStr ''failed'' \<and> MAX_RETRY_ATTEMPTS \<le> prior_attempts ?prior)"
      "dict_lookup ?prior ''status'' PNone \<noteq> PStr ''ok''" "dict_lookup ?prior ''status'' PNone \<noteq> PStr ''skipped''"
      using None by (auto simp: standing_outcome_def Let_def split: if_splits)
    have prior: "0 \<le> prior_attempts ?prior"
      using ok by (auto simp: entry_ok_def prior_attempts_def dict_lookup_def)
    have "sentinel_ok state'" unfolding state'
    proof (rule sentinel_ok_update [OF assms(2)])
      have "1 \<le> attempts" using n prior by simp
      then show "entry_ok [(''status'', PStr (status_text status)), (''attempts'', PInt attempts), (''error'', opt_text err)]"
        unfolding entry_ok_def by blast
    qed
    moreover have "Suc (tries_left state' spec) \<le> tries_left state spec \<and> (status \<noteq> InstFailed \<longrightarrow> tries_left state' spec = 0)"
    proof -
      have after: "tries_left state' spec = (if status = InstFailed then nat (2 - prior_attempts ?prior) else 0)"
        unfolding state' tries_left_def update_conv' using n
        by (cases status) (simp_all add: dict_lookup_def prior_attempts_def MAX_RETRY_ATTEMPTS_def)
      have "tries_left state spec = nat (3 - prior_attempts ?prior) \<and> prior_attempts ?prior < 3"
      proof (cases "map_of state spec")
        case before: None
        then have "?prior = []" by (simp add: prior_entry_def)
        with before show ?thesis by (simp add: tries_left_def prior_attempts_def dict_lookup_def)
      next
        case (Some d)
        then have d: "?prior = d" by (simp add: prior_entry_def)
        have "dict_lookup d ''status'' PNone = PStr ''failed''"
          using ok Some none status_text_cases unfolding d entry_ok_def by (fastforce simp: dict_lookup_def)
        with Some none(1) show ?thesis unfolding d by (simp add: tries_left_def MAX_RETRY_ATTEMPTS_def)
      qed
      with after prior show ?thesis by auto
    qed
    moreover have "k \<noteq> spec \<Longrightarrow> tries_left state' k = tries_left state k" for k
      by (simp add: state' tries_left_def update_conv')
    ultimately show ?thesis using \<open>attempted\<close> \<open>oc_status outcome = status\<close> by simp
  qed
qed

text \<open>A history of installations, against the tries left for one entry before and after.\<close>

definition bounded_log :: "string \<Rightarrow> (string \<times> install_status) list \<Rightarrow> nat \<Rightarrow> nat \<Rightarrow> bool" where
  "bounded_log spec hist t t' \<longleftrightarrow>
     length (filter (\<lambda>x. fst x = spec) hist) + t' \<le> t \<and>
     (\<forall>xs st ys. hist = xs @ (spec, st) # ys \<and> st \<noteq> InstFailed \<longrightarrow> spec \<notin> fst ` set ys \<and> t' = 0)"

lemma bounded_log_Nil [simp]: "bounded_log spec [] t t"
  by (simp add: bounded_log_def)

lemma bounded_log_append:
  assumes "bounded_log spec l1 t t1" and "bounded_log spec l2 t1 t2"
  shows "bounded_log spec (l1 @ l2) t t2"
proof -
  have "spec \<notin> fst ` set ys \<and> t2 = 0" if split: "l1 @ l2 = xs @ (spec, st) # ys" and ok: "st \<noteq> InstFailed" for xs st ys
  proof -
    from split obtain zs where "l1 = xs @ zs \<and> zs @ l2 = (spec, st) # ys \<or> l2 = zs @ (spec, st) # ys"
      by (auto simp: append_eq_append_conv2)
    then consider us where "l1 = xs @ (spec, st) # us" "ys = us @ l2" | us where "l2 = us @ (spec, st) # ys"
      by (metis append_Cons append_Nil list.exhaust list.inject)
    then show ?thesis
    proof cases
      case 1
      then have "spec \<notin> fst ` set us" "t1 = 0" using assms(1) ok by (auto simp: bounded_log_def)
      moreover from this have "filter (\<lambda>x. fst x = spec) l2 = []" "t2 = 0"
        using assms(2) by (auto simp: bounded_log_def)
      ultimately show ?thesis using 1(2) by (auto simp: filter_empty_conv)
    next
      case 2
      with assms(2) ok show ?thesis by (auto simp: bounded_log_def)
    qed
  qed
  moreover have "length (filter (\<lambda>x. fst x = spec) (l1 @ l2)) + t2 \<le> t"
    using assms by (simp add: bounded_log_def)
  ultimately show ?thesis by (auto simp: bounded_log_def)
qed

lemma deploy_loop_tries:
  assumes "deploy_loop cfg envs specs state st = (hist, outcomes, state', st')" and "sentinel_ok state"
  shows "sentinel_ok state' \<and> bounded_log spec hist (tries_left state spec) (tries_left state' spec)"
  using assms
proof (induction specs arbitrary: hist outcomes state st)
  case (Cons k specs)
  obtain attempted oc state1 st1 where one: "deploy_one cfg (envs k) k state st = (attempted, oc, state1, st1)"
    by (metis prod.exhaust)
  obtain rest ocs where rest: "deploy_loop cfg envs specs state1 st1 = (rest, ocs, state', st')"
    and hist: "hist = (if attempted then [(k, oc_status oc)] else []) @ rest"
    using Cons.prems(1) one by (auto simp: Let_def split: prod.splits)
  note tries = deploy_one_tries [OF one Cons.prems(2)]
  have "bounded_log spec (if attempted then [(k, oc_status oc)] else []) (tries_left state spec) (tries_left state1 spec)"
    using tries by (cases "k = spec") (auto simp: bounded_log_def Cons_eq_append_conv)
  with Cons.IH [OF rest] tries show ?case unfolding hist by (blast intro: bounded_log_append)
qed simp

text \<open>The installations over several boots. Between two of them anything may happen to the database,
  and the configuration may change.\<close>

fun run_boots ::
    "(config \<times> (string \<Rightarrow> install_env) \<times> (db \<Rightarrow> db)) list \<Rightarrow> pyval option \<Rightarrow> db
       \<Rightarrow> (string \<times> install_status) list" where
  "run_boots [] raw db = []"
| "run_boots ((cfg, envs, between) # boots) raw db =
     (let (hist, outcomes, raw', db', started) = deploy_default_apps cfg envs True raw db
      in hist @ run_boots boots raw' (between db'))"

lemma run_boots_tries:
  assumes "sentinel_ok (load_sentinel raw)"
  shows "\<exists>t'. bounded_log spec (run_boots boots raw db) (tries_left (load_sentinel raw) spec) t'"
  using assms
proof (induction boots arbitrary: raw db)
  case (Cons b boots)
  obtain cfg envs between where b: "b = (cfg, envs, between)" by (cases b)
  obtain hist outcomes raw' db' started where d: "deploy_default_apps cfg envs True raw db = (hist, outcomes, raw', db', started)"
    by (metis prod.exhaust)
  have "sentinel_ok (load_sentinel raw') \<and>
    bounded_log spec hist (tries_left (load_sentinel raw) spec) (tries_left (load_sentinel raw') spec)"
    using d deploy_loop_tries [OF _ Cons.prems] Cons.prems
    by (fastforce simp: deploy_default_apps_def Let_def split: if_splits prod.splits)
  with Cons.IH [of raw' "between db'"] d show ?case by (auto simp: b Let_def intro: bounded_log_append)
qed (auto intro: bounded_log_Nil)

section \<open>Properties\<close>


definition demo_install_env :: install_env where
  "demo_install_env = \<lparr>ie_host = demo_host_env, ie_clone = (\<lambda>_. CloneRaised (OtherError ''offline'')),
     ie_copy = (\<lambda>_. None), ie_move = (\<lambda>_. None)\<rparr>"

definition demo_boot :: "config \<times> (string \<Rightarrow> install_env) \<times> (db \<Rightarrow> db)" where
  "demo_boot = (demo_config\<lparr>cf_apps_dir_override := Some ''/'', cf_default_apps := [''r'', ''https://git.example/x'']\<rparr>,
     (\<lambda>_. demo_install_env), id)"


end
