(* ===== verification/PyFloat.thy ===== *)
theory PyFloat
  imports Complex_Main Prelude
begin

text \<open>
  What the handlers use of Python's floats: \<open>float(text)\<close> and \<open>timedelta(hours=x)\<close>. A finite
  double is the rational it stands for, so every operation rounds to 53 bits, ties to even. Digits
  outside ASCII, which \<open>float\<close> also reads, are not modelled.
\<close>

datatype pyfloat = Finite rat | Infinite bool | NaN

section \<open>Rounding\<close>

definition round_half_even :: "rat \<Rightarrow> int" where
  "round_half_even q =
     (let f = \<lfloor>q\<rfloor>; d = q - of_int f in
      if d < 1 / 2 then f else if 1 / 2 < d then f + 1 else if even f then f else f + 1)"

function bit_length :: "int \<Rightarrow> nat" where
  "bit_length n = (if n \<le> 0 then 0 else Suc (bit_length (n div 2)))"
  by auto
termination by (relation "measure nat") auto

declare bit_length.simps [simp del]

text \<open>The exponent \<open>e\<close> with \<open>2 powi e \<le> q < 2 powi (e + 1)\<close>, for a positive \<open>q\<close>.\<close>

definition binary_exponent :: "rat \<Rightarrow> int" where
  "binary_exponent q =
     (let (n, d) = quotient_of q; e = int (bit_length n) - int (bit_length d)
      in if 2 powi e \<le> q then e else e - 1)"

text \<open>The nearest double; from \<open>2 ^ 1024\<close> on there is only the infinity.\<close>

definition round_double :: "rat \<Rightarrow> pyfloat" where
  "round_double q =
     (if q = 0 then Finite 0
      else (let e = max (binary_exponent \<bar>q\<bar>) (- 1022);
                unit = 2 powi (e - 52);
                r = of_int (round_half_even (\<bar>q\<bar> / unit)) * unit
            in if 2 ^ 1024 \<le> r then Infinite (q < 0) else Finite (if q < 0 then - r else r)))"

section \<open>float(text)\<close>

text \<open>An underscore is dropped between two digits and refused anywhere else.\<close>

fun drop_underscores :: "bool \<Rightarrow> string \<Rightarrow> string option" where
  "drop_underscores after_digit [] = Some []"
| "drop_underscores after_digit (c # cs) =
     (if c = CHR ''_''
      then (if after_digit \<and> cs \<noteq> [] \<and> is_digit_char (hd cs) then drop_underscores False cs else None)
      else map_option ((#) c) (drop_underscores (is_digit_char c) cs))"

definition digits_value :: "string \<Rightarrow> int" where
  "digits_value ds = foldl (\<lambda>n c. 10 * n + (int (of_char c) - 48)) 0 ds"

definition signed :: "string \<Rightarrow> bool \<times> string" where
  "signed s = (if startswith s ''-'' then (True, drop 1 s) else if startswith s ''+'' then (False, drop 1 s) else (False, s))"

definition parse_exponent :: "string \<Rightarrow> int option" where
  "parse_exponent s =
     (if s = [] then Some 0
      else if hd s \<notin> set ''eE'' then None
      else (let (negative, ds) = signed (tl s)
            in if py_isdigit ds then Some (if negative then - digits_value ds else digits_value ds) else None))"

text \<open>Digits with at most one point among or around them, and an exponent.\<close>

definition parse_decimal :: "string \<Rightarrow> rat option" where
  "parse_decimal s =
     (let whole = takeWhile is_digit_char s;
          rest = dropWhile is_digit_char s;
          point = startswith rest ''.'';
          fraction = (if point then takeWhile is_digit_char (tl rest) else []);
          tail = (if point then dropWhile is_digit_char (tl rest) else rest)
      in if whole @ fraction = [] then None
         else map_option (\<lambda>x. of_int (digits_value (whole @ fraction)) * 10 powi (x - int (length fraction)))
                (parse_exponent tail))"

text \<open>None is the \<open>ValueError\<close>.\<close>

definition parse_float :: "string \<Rightarrow> pyfloat option" where
  "parse_float text =
     (case drop_underscores False (py_strip text) of
        None \<Rightarrow> None
      | Some s \<Rightarrow>
          (let (negative, body) = signed s in
           if lower body \<in> {''inf'', ''infinity''} then Some (Infinite negative)
           else if lower body = ''nan'' then Some NaN
           else map_option (\<lambda>q. round_double (if negative then - q else q)) (parse_decimal body)))"

section \<open>timedelta(hours=x)\<close>

text \<open>
  The microseconds: the whole hours exactly, the rest as one float product, the sum rounded half to
  even. None is the \<open>OverflowError\<close> or \<open>ValueError\<close>.
\<close>

definition US_PER_HOUR :: int where
  "US_PER_HOUR = 3600000000"

definition trunc :: "rat \<Rightarrow> int" where
  "trunc q = (if 0 \<le> q then \<lfloor>q\<rfloor> else \<lceil>q\<rceil>)"

definition timedelta_hours :: "pyfloat \<Rightarrow> int option" where
  "timedelta_hours x =
     (case x of
        Finite h \<Rightarrow>
          (case round_double ((h - of_int (trunc h)) * of_int US_PER_HOUR) of
             Finite part \<Rightarrow>
               (let us = round_half_even (of_int (trunc h * US_PER_HOUR) + part)
                in if \<bar>us div (24 * US_PER_HOUR)\<bar> \<le> 999999999 then Some us else None)
           | _ \<Rightarrow> None)
      | _ \<Rightarrow> None)"

section \<open>Facts\<close>

lemma round_half_even_of_int [simp]: "round_half_even (of_int n) = n"
  by (simp add: round_half_even_def)

lemma round_half_even_close: "\<bar>of_int (round_half_even q) - q\<bar> \<le> 1 / 2"
proof -
  have "of_int \<lfloor>q\<rfloor> \<le> q" "q < of_int \<lfloor>q\<rfloor> + 1" by linarith+
  then show ?thesis by (auto simp: round_half_even_def Let_def abs_le_iff)
qed

lemma powi_two_ge: "0 \<le> k \<Longrightarrow> (2 :: rat) powi k = of_int (2 ^ nat k)"
  by (simp add: power_int_def)

lemma bit_length_bound: "0 < n \<Longrightarrow> 0 < bit_length n \<and> 2 ^ (bit_length n - 1) \<le> n"
proof (induction n rule: bit_length.induct)
  case (1 n)
  show ?case
  proof (cases "n = 1")
    case True
    then show ?thesis by (simp add: bit_length.simps)
  next
    case False
    with 1 have "0 < bit_length (n div 2)" "2 ^ (bit_length (n div 2) - 1) \<le> n div 2" by auto
    then have "2 * 2 ^ (bit_length (n div 2) - 1) \<le> n" by linarith
    with \<open>0 < bit_length (n div 2)\<close> have "2 ^ bit_length (n div 2) \<le> n"
      by (cases "bit_length (n div 2)") simp_all
    then show ?thesis using 1(2) by (subst (1 2) bit_length.simps) simp
  qed
qed

lemma binary_exponent_of_nat: "0 < n \<Longrightarrow> binary_exponent (of_nat n) = int (bit_length (int n) - 1)"
proof -
  assume "0 < n"
  have "quotient_of (of_nat n) = (int n, 1)"
    by (metis of_int_of_nat_eq of_rat_of_int_eq quotient_of_int Rat.of_int_def)
  moreover have "(2 :: rat) ^ (bit_length (int n) - 1) \<le> of_nat n" "0 < bit_length (int n)"
    using bit_length_bound [of "int n"] \<open>0 < n\<close>
    by (metis of_nat_0_less_iff of_int_le_iff of_int_of_nat_eq of_int_numeral of_int_power)+
  moreover have "bit_length 1 = 1" by (simp add: bit_length.simps)
  moreover have "nat (int b - 1) = b - 1" for b by simp
  ultimately show ?thesis
    by (simp add: binary_exponent_def Let_def power_int_def)
qed

text \<open>Whole numbers up to \<open>2 ^ 53\<close> are doubles.\<close>

lemma round_double_of_nat:
  assumes "n < 2 ^ 53"
  shows "round_double (of_nat n) = Finite (of_nat n)"
proof (cases "n = 0")
  case False
  then have n: "0 < n" by simp
  define k where "k = bit_length (int n) - 1"
  have "2 ^ k \<le> n" using bit_length_bound [of "int n"] n unfolding k_def
    by (metis of_nat_0_less_iff of_nat_le_iff of_nat_numeral of_nat_power)
  then have "(2 :: nat) ^ k < 2 ^ 53" using assms by (rule le_less_trans)
  then have "k < 53" by (rule power_less_imp_less_exp [rotated]) simp
  then obtain j where j: "52 = k + j" using le_Suc_ex [of k 52] by auto
  have exponent: "binary_exponent (of_nat n) = int k" using n by (simp add: binary_exponent_of_nat k_def)
  have unit: "(2 :: rat) powi (int k - 52) = 1 / 2 ^ j"
  proof -
    have "int k - 52 = - int j" using j by simp
    then show ?thesis by (simp only: power_int_minus power_int_of_nat inverse_eq_divide)
  qed
  have round: "round_half_even (of_nat n * 2 ^ j) = int n * 2 ^ j"
    using round_half_even_of_int [of "int n * 2 ^ j"] by simp
  have "(of_nat n :: rat) < of_nat (2 ^ 53)" using assms by (simp only: of_nat_less_iff)
  then have lt: "(of_nat n :: rat) < 2 ^ 1024" by simp
  show ?thesis
    using n lt by (simp add: round_double_def exponent Let_def unit round max_def)
qed (simp add: round_double_def)

lemma round_double_zero [simp]: "round_double 0 = Finite 0"
  by (simp add: round_double_def)

text \<open>A whole number of hours is that many hours.\<close>

lemma timedelta_whole_hours:
  assumes "n < 2 ^ 32"
  shows "timedelta_hours (Finite (of_nat n)) = Some (int n * US_PER_HOUR)"
proof -
  have t: "trunc (of_nat n) = int n" by (simp add: trunc_def)
  have "\<bar>int n * US_PER_HOUR div (24 * US_PER_HOUR)\<bar> \<le> 999999999"
    using assms by (simp add: US_PER_HOUR_def)
  then show ?thesis
    using round_half_even_of_int [of "int n * US_PER_HOUR"]
    by (simp add: timedelta_hours_def t Let_def del: round_half_even_of_int)
qed

end
