(* ===== verification/Accounts.thy ===== *)
theory Accounts
  imports WebAuth DefaultApps PyFloat
begin

text \<open>
  The handlers around the owner's account: \<open>web/routes/pages/login.py\<close>, \<open>web/setup_app.py\<close>, the
  password and name routes of \<open>web/routes/api/settings.py\<close> and the API token routes of
  \<open>web/routes/api/system.py\<close>. bcrypt, the random tokens and the ids SQLite assigns are arguments.
  A pair's second part is what is committed when the handler ends.
\<close>

record account_env =
  ac_auth :: auth_env
  ac_checkpw :: "string \<Rightarrow> string \<Rightarrow> bool option"
  ac_hashpw :: "string \<Rightarrow> string option"
  ac_token :: string
  ac_next_id :: int

text \<open>\<open>ServerError\<close> is any exception that leaves the handler.\<close>

datatype account_error =
    Unauthorized auth_error
  | Invalid string
  | Denied string
  | NoOwnerFound
  | ServerError

text \<open>The guard \<open>require_owner_auth\<close> before a handler.\<close>

definition guarded ::
    "account_env \<Rightarrow> conn \<Rightarrow> db \<Rightarrow> (account_error + 'a) \<times> db \<Rightarrow> (account_error + 'a) \<times> db" where
  "guarded e c db handled =
     (case require_owner_auth (ac_auth e) c db of Inl x \<Rightarrow> (Inl (Unauthorized x), db) | Inr u \<Rightarrow> handled)"

section \<open>Login and logout\<close>

text \<open>\<open>_validated_next\<close>; the outer None is \<open>urlparse\<close>'s \<open>ValueError\<close>.\<close>

definition validated_next :: "(string \<Rightarrow> bool) \<Rightarrow> string \<Rightarrow> db \<Rightarrow> string option option" where
  "validated_next ok next_url db =
     (if next_url = [] then Some None
      else (case urlparse ok next_url of
          None \<Rightarrow> None
        | Some parsed \<Rightarrow>
            if up_scheme parsed = [] \<and> up_netloc parsed = [] then Some (Some next_url)
            else (case url_hostname parsed of
                None \<Rightarrow> Some None
              | Some host \<Rightarrow> Some (if domain_match db host \<noteq> None then Some next_url else None))))"

definition destination :: "string option \<Rightarrow> string" where
  "destination x = (case non_empty x of Some d \<Rightarrow> d | None \<Rightarrow> ''/'')"

datatype page = LoginPage "string option" string | SetupPage string | RedirectPage string

definition login_get :: "account_env \<Rightarrow> conn \<Rightarrow> string \<Rightarrow> db \<Rightarrow> account_error + page" where
  "login_get e c next_param db =
     (case verify_owner_auth (ac_auth e) c db False of
        Inl x \<Rightarrow> Inr (LoginPage None next_param)
      | Inr u \<Rightarrow>
          (case validated_next (ae_netloc_ok (ac_auth e)) next_param db of
             None \<Rightarrow> Inl ServerError
           | Some d \<Rightarrow> Inr (RedirectPage (destination d))))"

definition login_post ::
    "account_env \<Rightarrow> conn \<Rightarrow> string option \<Rightarrow> string \<Rightarrow> db \<Rightarrow> (account_error + page \<times> cookie option) \<times> db" where
  "login_post e c password next_url db =
     (let failed = (Inr (LoginPage (Some ''Invalid password'') next_url, None), db);
          a = ac_auth e
      in case password of
           None \<Rightarrow> failed
         | Some pw \<Rightarrow>
             (case validate_password (ac_checkpw e) pw db of
                Inl x \<Rightarrow> (Inl ServerError, db)
              | Inr None \<Rightarrow> failed
              | Inr (Some user_id) \<Rightarrow>
                  if user_id = 0 then failed
                  else (case create_session (ae_hash a) (ac_token e) (ae_now a) user_id db of
                      None \<Rightarrow> (Inl ServerError, db)
                    | Some db1 \<Rightarrow>
                        (case (validated_next (ae_netloc_ok a) next_url db1, cn_zone c) of
                           (Some d, Some zone) \<Rightarrow>
                             (Inr (RedirectPage (destination d), Some (build_session_cookie (ac_token e) zone)), db1)
                         | _ \<Rightarrow> (Inl ServerError, db1)))))"

definition logout :: "account_env \<Rightarrow> conn \<Rightarrow> db \<Rightarrow> (account_error + page \<times> cookie) \<times> db" where
  "logout e c db = guarded e c db
     (let db1 = (case session_cookie c of None \<Rightarrow> db | Some t \<Rightarrow> revoke_session (ae_hash (ac_auth e)) t db)
      in case cn_zone c of
           None \<Rightarrow> (Inl ServerError, db1)
         | Some zone \<Rightarrow> (Inr (RedirectPage ''/login'', clear_session_cookie zone), db1))"

section \<open>Setup\<close>

record setup_state =
  ss_db :: db
  ss_sentinel :: "pyval option"
  ss_started :: "string list"
  ss_completed :: bool

text \<open>\<open>secrets.compare_digest\<close> raises \<open>TypeError\<close>, the outer None, for a string that is not ASCII.\<close>

definition compare_digest :: "string \<Rightarrow> string \<Rightarrow> bool option" where
  "compare_digest a b =
     (if list_all (\<lambda>c. (of_char c :: nat) < 128) a \<and> list_all (\<lambda>c. (of_char c :: nat) < 128) b then Some (a = b) else None)"

definition verify_claim_token :: "string \<Rightarrow> db \<Rightarrow> bool option" where
  "verify_claim_token claim_token db =
     (if claim_token = [] then Some False
      else (case non_empty (get_setting db CLAIM_TOKEN_KEY) of
          None \<Rightarrow> Some False
        | Some stored \<Rightarrow> compare_digest claim_token stored))"

definition check_claim :: "bool \<Rightarrow> string \<Rightarrow> db \<Rightarrow> account_error option" where
  "check_claim claim_token_required claim db =
     (if \<not> claim_token_required then None
      else (case verify_claim_token claim db of
          None \<Rightarrow> Some ServerError
        | Some ok \<Rightarrow> if ok then None else Some (Denied ''Invalid or missing claim token.'')))"

definition setup_get :: "bool \<Rightarrow> string \<Rightarrow> db \<Rightarrow> account_error + string" where
  "setup_get claim_token_required claim db =
     (case check_claim claim_token_required claim db of Some x \<Rightarrow> Inl x | None \<Rightarrow> Inr claim)"

record setup_form =
  sf_claim :: string
  sf_password :: string
  sf_confirm :: string
  sf_username :: string

definition insert_user :: "int \<Rightarrow> string \<Rightarrow> string \<Rightarrow> db \<Rightarrow> db option" where
  "insert_user user_id username password_hash db =
     (if exists_row (\<lambda>u. u_username u = username) (users db) then None
      else Some (db\<lparr>users := users db @
             [\<lparr>u_user_id = user_id, u_username = username, u_password_hash = password_hash\<rparr>]\<rparr>))"

text \<open>What the form asks for: an error for the page, or the username.\<close>

definition checked_form :: "setup_form \<Rightarrow> string + string" where
  "checked_form f =
     (let username_raw = py_strip (sf_username f) in
      if sf_password f = [] then Inl ''Password is required''
      else if sf_password f \<noteq> sf_confirm f then Inl ''Passwords do not match''
      else if username_raw = [] then Inr DEFAULT_OWNER_USERNAME
      else (case validate_owner_username username_raw of Some x \<Rightarrow> Inl ''username'' | None \<Rightarrow> Inr username_raw))"

definition setup_post ::
    "account_env \<Rightarrow> config \<Rightarrow> bool \<Rightarrow> (string \<Rightarrow> install_env) \<Rightarrow> bool \<Rightarrow> setup_form \<Rightarrow> setup_state
       \<Rightarrow> (account_error + page + cookie) \<times> setup_state" where
  "setup_post e cfg claim_token_required envs sentinel_writable f s =
     (let db = ss_db s; a = ac_auth e in
      case check_claim claim_token_required (sf_claim f) db of
        Some x \<Rightarrow> (Inl x, s)
      | None \<Rightarrow>
     (case checked_form f of
          Inl msg \<Rightarrow> (Inr (Inl (SetupPage msg)), s)
        | Inr username \<Rightarrow>
     (case Option.bind (ac_hashpw e (sf_password f)) (\<lambda>password_hash.
             Option.bind (insert_user (ac_next_id e) username password_hash db) (\<lambda>db1.
             create_session (ae_hash a) (ac_token e) (ae_now a) (ac_next_id e) db1)) of
        None \<Rightarrow> (Inl ServerError, s)
      | Some db2 \<Rightarrow>
     (let db3 = delete_setting db2 CLAIM_TOKEN_KEY;
          (tried, outcomes, sentinel, db4, started) =
            deploy_default_apps cfg envs sentinel_writable (ss_sentinel s) db3;
          s1 = s\<lparr>ss_db := db4, ss_sentinel := sentinel, ss_started := ss_started s @ started\<rparr>
      in case primary_domain db4 of
           Inl x \<Rightarrow> (Inl ServerError, s1)
         | Inr zone \<Rightarrow> (Inr (Inr (build_session_cookie (ac_token e) zone)), s1\<lparr>ss_completed := True\<rparr>)))))"

text \<open>\<open>start.py\<close> serves the setup routes while \<open>owner_exists\<close> is false, afterwards the two that are
  left of them.\<close>

definition owner_exists :: "db \<Rightarrow> bool" where
  "owner_exists db \<longleftrightarrow> users db \<noteq> []"

section \<open>Password and name\<close>

definition change_password ::
    "account_env \<Rightarrow> conn \<Rightarrow> string \<Rightarrow> string \<Rightarrow> string \<Rightarrow> db \<Rightarrow> (account_error + unit) \<times> db" where
  "change_password e c current_password new_password confirm_password db = guarded e c db
     (let current = py_strip current_password; new_pw = py_strip new_password; confirm = py_strip confirm_password in
      if current = [] \<or> new_pw = [] then (Inl (Invalid ''missing_fields''), db)
      else if new_pw \<noteq> confirm then (Inl (Invalid ''password_mismatch''), db)
      else if py_len new_pw < 8 then (Inl (Invalid ''password_too_short''), db)
      else (case users db of
          [] \<Rightarrow> (Inl NoOwnerFound, db)
        | u # us \<Rightarrow>
            (case ac_checkpw e current (u_password_hash u) of
               None \<Rightarrow> (Inl ServerError, db)
             | Some False \<Rightarrow> (Inl (Denied ''wrong_password''), db)
             | Some True \<Rightarrow>
                 (case ac_hashpw e new_pw of
                    None \<Rightarrow> (Inl ServerError, db)
                  | Some new_hash \<Rightarrow>
                      (Inr (), db\<lparr>users := update_rows (\<lambda>r. u_user_id r = u_user_id u)
                          (\<lambda>r. r\<lparr>u_password_hash := new_hash\<rparr>) (users db)\<rparr>)))))"

definition get_owner_username :: "account_env \<Rightarrow> conn \<Rightarrow> db \<Rightarrow> (account_error + string option) \<times> db" where
  "get_owner_username e c db = guarded e c db (Inr (read_owner_username db), db)"

text \<open>The request's own \<open>not_blank\<close> check comes first; another user with that name is an integrity error.\<close>

definition set_owner_username :: "account_env \<Rightarrow> conn \<Rightarrow> string \<Rightarrow> db \<Rightarrow> (account_error + string) \<times> db" where
  "set_owner_username e c username db = guarded e c db
     (if validate_owner_username username \<noteq> None then (Inl (Invalid ''invalid_username''), db)
      else (case update_owner_username db username of
          None \<Rightarrow> (Inl (Invalid ''invalid_username''), db)
        | Some db1 \<Rightarrow>
            if distinct (map u_username (users db1)) then (Inr username, db1) else (Inl ServerError, db)))"

section \<open>API tokens\<close>

record api_token_view =
  tv_id :: int
  tv_name :: string
  tv_expires_at :: "int option"
  tv_created_at :: int
  tv_expired :: bool

definition api_tokens_list :: "account_env \<Rightarrow> conn \<Rightarrow> db \<Rightarrow> (account_error + api_token_view list) \<times> db" where
  "api_tokens_list e c db = guarded e c db
     (Inr (map (\<lambda>r. \<lparr>tv_id = k_id r, tv_name = k_name r, tv_expires_at = k_expires_at r, tv_created_at = k_created_at r,
              tv_expired = (case k_expires_at r of None \<Rightarrow> False | Some x \<Rightarrow> x < ae_now (ac_auth e))\<rparr>)
            (sort_key (\<lambda>r. - k_created_at r) (api_tokens db))), db)"

definition DEFAULT_TOKEN_EXPIRY_HOURS :: pyfloat where
  "DEFAULT_TOKEN_EXPIRY_HOURS = Finite 8"

text \<open>\<open>datetime\<close> ends with the year 9999.\<close>

definition END_OF_TIME :: int where
  "END_OF_TIME = microseconds 253402300800"

definition not_positive :: "pyfloat \<Rightarrow> bool" where
  "not_positive x = (case x of Finite q \<Rightarrow> q \<le> 0 | Infinite negative \<Rightarrow> negative | NaN \<Rightarrow> False)"

definition requested_expiry :: "int \<Rightarrow> string option \<Rightarrow> account_error + int option" where
  "requested_expiry now expiry_hours =
     (let raw = (case non_empty expiry_hours of None \<Rightarrow> [] | Some s \<Rightarrow> py_strip s) in
      if raw = [] \<or> lower raw = ''never'' then Inr None
      else (let hours = (case parse_float raw of None \<Rightarrow> DEFAULT_TOKEN_EXPIRY_HOURS | Some x \<Rightarrow> x) in
        if not_positive hours then Inl (Invalid ''Expiry must be positive'')
        else (case timedelta_hours hours of
            None \<Rightarrow> Inl ServerError
          | Some us \<Rightarrow> if now + us < END_OF_TIME then Inr (Some (now + us)) else Inl ServerError)))"

record created_token =
  ct_token :: string
  ct_name :: string
  ct_expires_at :: "int option"

definition insert_api_token :: "int \<Rightarrow> string \<Rightarrow> string \<Rightarrow> int option \<Rightarrow> int \<Rightarrow> db \<Rightarrow> db option" where
  "insert_api_token i name token_hash expires_at now db =
     (if exists_row (\<lambda>r. k_token_hash r = token_hash) (api_tokens db) then None
      else Some (db\<lparr>api_tokens := api_tokens db @
             [\<lparr>k_id = i, k_name = name, k_token_hash = token_hash, k_expires_at = expires_at,
               k_created_at = now div 1000000\<rparr>]\<rparr>))"

definition api_tokens_create ::
    "account_env \<Rightarrow> conn \<Rightarrow> string \<Rightarrow> string option \<Rightarrow> db \<Rightarrow> (account_error + created_token) \<times> db" where
  "api_tokens_create e c name expiry_hours db = guarded e c db
     (let a = ac_auth e; bound = (if py_strip name = [] then ''Untitled'' else py_strip name) in
      case requested_expiry (ae_now a) expiry_hours of
        Inl x \<Rightarrow> (Inl x, db)
      | Inr expires_at \<Rightarrow>
          (case insert_api_token (ac_next_id e) bound (ae_hash a (ac_token e)) expires_at (ae_now a) db of
             None \<Rightarrow> (Inl ServerError, db)
           | Some db1 \<Rightarrow> (Inr \<lparr>ct_token = ac_token e, ct_name = bound, ct_expires_at = expires_at\<rparr>, db1)))"

definition api_tokens_delete :: "account_env \<Rightarrow> conn \<Rightarrow> int \<Rightarrow> db \<Rightarrow> (account_error + unit) \<times> db" where
  "api_tokens_delete e c token_id db = guarded e c db
     (Inr (), db\<lparr>api_tokens := delete_rows (\<lambda>r. k_id r = token_id) (api_tokens db)\<rparr>)"

section \<open>What installing apps leaves alone\<close>

definition account_tables :: "db \<Rightarrow> user_row list \<times> session_row list \<times> api_token_row list \<times> (string \<times> string) list" where
  "account_tables db = (users db, sessions db, api_tokens db, settings db)"

lemma grant_all_accounts: "grant_all h i gs db = (res, db') \<Longrightarrow> account_tables db' = account_tables db"
proof (induction gs arbitrary: db)
  case (Cons g gs)
  have "account_tables d' = account_tables d" if "grant_permission_v2 fr d c u y s p = Inr d'" for fr d d' c u y s p
    using that by (auto simp: grant_permission_v2_def account_tables_def Let_def split: if_splits)
  with Cons show ?case by (fastforce split: if_splits sum.splits)
qed (simp add: account_tables_def)

lemma insert_while_accounts:
  assumes "insert_while ins rows db = (x, v)" and "\<And>row d d'. ins row d = Inr d' \<Longrightarrow> account_tables d' = account_tables d"
  shows "account_tables v = account_tables db"
  using assms by (induction rows arbitrary: db) (auto split: sum.splits)

lemma insert_rows_accounts:
  assumes "insert_rows_on_view h m i vars row resolved view = (x, v)"
  shows "account_tables v = account_tables view"
proof -
  have app: "account_tables d' = account_tables d" if "insert_app r d = Inr d'" for r d d'
    using that by (auto simp: insert_app_def account_tables_def Let_def split: if_splits)
  have port: "account_tables d' = account_tables d" if "insert_port r d = Inr d'" for r d d'
    using that by (auto simp: insert_port_def account_tables_def split: if_splits)
  have database: "account_tables d' = account_tables d" if "insert_database r d = Inr d'" for r d d'
    using that by (auto simp: insert_database_def account_tables_def split: if_splits)
  have token: "account_tables (store_app_token h i vars d) = account_tables d" for d
    by (auto simp: store_app_token_def replace_app_token_def account_tables_def split: option.splits)
  have services: "account_tables d' = account_tables d"
    if "lift_service (register_services_provided_by_app fk i m d) = Inr d'" for fk d d'
    using that by (auto simp: lift_service_def register_services_provided_by_app_def account_tables_def Let_def
        split: sum.splits if_splits)
  show ?thesis
    using assms app token services insert_while_accounts [of insert_port, OF _ port]
      insert_while_accounts [of insert_database, OF _ database]
    by (fastforce simp: insert_rows_on_view_def Let_def split: sum.splits option.splits prod.splits)
qed

text \<open>The connection's view and what is committed both keep the account tables they had.\<close>

definition accounts_kept :: "install_state \<Rightarrow> install_state \<Rightarrow> bool" where
  "accounts_kept st st' \<longleftrightarrow>
     (account_tables (is_view st) = account_tables (is_committed st) \<longrightarrow>
        account_tables (is_view st') = account_tables (is_committed st) \<and>
        account_tables (is_committed st') = account_tables (is_committed st))"

lemma accounts_kept_refl [simp]: "accounts_kept st st"
  by (simp add: accounts_kept_def)

lemma insert_on_view_accounts:
  "insert_and_deploy_on_view cfg e m repo url st = (res, st') \<Longrightarrow> accounts_kept st st'"
  using insert_rows_accounts grant_all_accounts
  by (fastforce simp: insert_and_deploy_on_view_def accounts_kept_def Let_def split: sum.splits option.splits prod.splits)

lemma finalize_accounts: "finalize_install cfg e m url st = (res, st') \<Longrightarrow> accounts_kept st st'"
  unfolding finalize_install_def Let_def
  by (auto split: sum.splits option.splits prod.splits if_splits dest: insert_on_view_accounts)

lemma install_one_accounts: "install_one cfg e spec st = (res, st') \<Longrightarrow> accounts_kept st st'"
  unfolding install_one_def install_remote_def install_vendored_def Let_def
  by (auto split: sum.splits option.splits prod.splits if_splits clone_result.splits dest: finalize_accounts)

lemma deploy_one_accounts: "deploy_one cfg e spec state st = (b, oc, state', st') \<Longrightarrow> accounts_kept st st'"
  unfolding deploy_one_def Let_def
  by (auto split: option.splits prod.splits dest: install_one_accounts)

lemma deploy_loop_accounts: "deploy_loop cfg envs specs state st = (hist, ocs, state', st') \<Longrightarrow> accounts_kept st st'"
proof (induction specs arbitrary: hist ocs state st)
  case (Cons spec specs)
  then obtain b oc state1 st1 hist2 ocs2 where one: "deploy_one cfg (envs spec) spec state st = (b, oc, state1, st1)"
    and rest: "deploy_loop cfg envs specs state1 st1 = (hist2, ocs2, state', st')"
    by (auto simp: Let_def split: prod.splits)
  from deploy_one_accounts [OF one] Cons.IH [OF rest] show ?case by (simp add: accounts_kept_def)
qed simp

lemma deploy_default_apps_accounts:
  assumes "deploy_default_apps cfg envs w raw db = (tried, outcomes, raw', db', started)"
  shows "account_tables db' = account_tables db"
  using assms deploy_loop_accounts
  by (fastforce simp: deploy_default_apps_def accounts_kept_def Let_def split: if_splits prod.splits)

section \<open>Facts\<close>

lemma fresh_session_valid:
  assumes "create_session hsh token now uid db = Some db1" and "List.find (\<lambda>u. u_user_id u = uid) (users db) = Some u"
    and "sessions db' = sessions db1" and "users db' = users db"
  shows "validate_session_token hsh t token db' =
    (if t \<le> now + microseconds SESSION_TTL_SECONDS then Some (AuthenticatedUser uid (u_username u)) else None)"
proof -
  have "find_session db' (hsh token) = Some (uid, now + microseconds SESSION_TTL_SECONDS)"
    using create_session_find(1) [OF assms(1)] assms(3) by (simp add: find_session_def)
  moreover have "u_user_id u = uid" using find_SomeD [OF assms(2)] by simp
  ultimately show ?thesis using assms(2,4) by (simp add: validate_session_token_def)
qed

lemma guarded_Inr:
  "guarded e c db handled = (Inr x, db') \<Longrightarrow> require_owner_auth (ac_auth e) c db = Inr () \<and> handled = (Inr x, db')"
  by (auto simp: guarded_def split: sum.splits)

text \<open>A URL the browser may be sent to after a login: a path, or one under a configured domain.\<close>

definition safe_destination :: "(string \<Rightarrow> bool) \<Rightarrow> db \<Rightarrow> string \<Rightarrow> bool" where
  "safe_destination ok db d \<longleftrightarrow> d = ''/'' \<or>
     (case urlparse ok d of
        None \<Rightarrow> False
      | Some p \<Rightarrow> up_scheme p = [] \<and> up_netloc p = [] \<or>
          (case url_hostname p of None \<Rightarrow> False | Some host \<Rightarrow> domain_match db host \<noteq> None))"

lemma validated_next_safe: "validated_next ok next_url db = Some d \<Longrightarrow> safe_destination ok db (destination d)"
  by (auto simp: validated_next_def destination_def safe_destination_def non_empty_def
      split: if_splits option.splits)

text \<open>The password form: \<open>new_password\<close> replaces the first user's, and sessions stay.\<close>

lemma change_password_takes_effect:
  assumes "change_password e c current new_password confirm db = (Inr (), db')"
    and "\<And>h. ac_hashpw e (py_strip new_password) = Some h \<Longrightarrow> checkpw (py_strip new_password) h = Some True"
  shows "\<exists>u us. users db = u # us \<and> ac_checkpw e (py_strip current) (u_password_hash u) = Some True \<and>
    validate_password checkpw (py_strip new_password) db' = Inr (Some (u_user_id u)) \<and> sessions db' = sessions db"
  using guarded_Inr [OF assms(1) [unfolded change_password_def]] assms(2)
  by (auto simp: Let_def validate_password_def update_rows_def split: if_splits list.splits option.splits bool.splits)

lemma show_nat_digits: "list_all is_digit_char (show_nat n) \<and> show_nat n \<noteq> []"
proof (induction n rule: show_nat.induct)
  case (1 n)
  have digit: "is_digit_char (digit_char d)" if "d < 10" for d
    using that by (simp add: digit_char_def is_digit_char_def Let_def)
  show ?case
  proof (cases "n < 10")
    case True
    then show ?thesis by (subst (1 2) show_nat.simps) (simp add: digit)
  next
    case False
    with 1 show ?thesis by (subst (1 2) show_nat.simps) (simp add: digit)
  qed
qed

lemma digit_not_special:
  assumes "is_digit_char c"
  shows "c \<noteq> CHR ''_''" "c \<noteq> CHR ''-''" "c \<noteq> CHR ''+''" "\<not> is_space_char c" "lower_char c = c" "c \<noteq> CHR ''n''" "c \<noteq> CHR ''i''"
  using assms by (auto simp: is_digit_char_def is_space_char_def lower_char_def Let_def)

lemma digits_value_append: "digits_value (ds @ [c]) = 10 * digits_value ds + (int (of_char c) - 48)"
  by (simp add: digits_value_def)

lemma digits_value_show_nat: "digits_value (show_nat n) = int n"
proof (induction n rule: show_nat.induct)
  case (1 n)
  then show ?case
    by (subst show_nat.simps) (auto simp: digits_value_append digit_char_def of_nat_mod of_nat_div, auto simp: digits_value_def)
qed

lemma drop_underscores_digits:
  "list_all is_digit_char ds \<Longrightarrow> drop_underscores b ds = Some ds"
  by (induction ds arbitrary: b) (auto simp: digit_not_special)

lemma requested_whole_hours:
  assumes "0 < n" and "n < 2 ^ 32"
  shows "requested_expiry now (Some (show_nat n)) =
    (if now + int n * 3600000000 < END_OF_TIME then Inr (Some (now + int n * 3600000000)) else Inl ServerError)"
proof -
  let ?s = "show_nat n"
  obtain c cs where s: "?s = c # cs" and digits: "is_digit_char c" "list_all is_digit_char (c # cs)"
    using show_nat_digits [of n] by (cases "show_nat n") auto
  have no_space: "dropWhile is_space_char xs = xs" if "list_all is_digit_char xs" for xs
    using that by (cases xs) (auto simp: digit_not_special)
  have strip: "py_strip ?s = ?s"
    using no_space [of ?s] no_space [of "rev ?s"] show_nat_digits [of n] by (simp add: py_strip_def)
  have lower: "lower ?s = ?s" using digits unfolding s lower_def by (intro map_idI) (auto simp: list_all_iff digit_not_special)
  have sign: "signed ?s = (False, ?s)" using digits by (auto simp: s signed_def startswith_def digit_not_special)
  have all: "takeWhile is_digit_char ?s = ?s" "dropWhile is_digit_char ?s = []"
    using show_nat_digits [of n] by (simp_all add: list_all_iff takeWhile_eq_all_conv dropWhile_eq_Nil_conv)
  have "parse_decimal ?s = Some (of_nat n)"
    by (simp add: parse_decimal_def all Let_def s [symmetric] show_nat_digits startswith_def parse_exponent_def digits_value_show_nat)
  then have float: "parse_float ?s = Some (Finite (of_nat n))"
  proof -
    have "lower ?s \<notin> {''inf'', ''infinity''}" "lower ?s \<noteq> ''nan''"
      unfolding s lower [unfolded s] using digits by (auto simp: digit_not_special)
    moreover have "round_double (of_nat n) = Finite (of_nat n)" using assms by (intro round_double_of_nat) simp
    ultimately show ?thesis
      using \<open>parse_decimal ?s = _\<close>
      by (simp only: parse_float_def strip drop_underscores_digits [OF conjunct1 [OF show_nat_digits]]
          option.case sign Let_def prod.case if_False option.map)
  qed
  have hd: "c \<noteq> CHR ''n''" using digits by (simp add: digit_not_special)
  have "lower ?s \<noteq> ''never''" unfolding s lower [unfolded s] using hd by simp
  then show ?thesis
    using assms timedelta_whole_hours [OF assms(2)] show_nat_digits [of n]
    by (simp add: requested_expiry_def non_empty_def Let_def strip float not_positive_def US_PER_HOUR_def)
qed

section \<open>Properties\<close>

text \<open>A login that redirects was given the first user's password; its cookie holds a token that
  authenticates that user for exactly four weeks, and the redirect stays on the router's domains.\<close>

lemma login_opens_session:
  assumes "login_post e c password next_url db = (Inr (RedirectPage d, Some cookie), db')"
  shows "\<exists>pw u us zone. password = Some pw \<and> users db = u # us \<and> ac_checkpw e pw (u_password_hash u) = Some True \<and>
    cn_zone c = Some zone \<and> ck_domain cookie = name_no_port zone \<and> ck_httponly cookie \<and>
    validate_session_token (ae_hash (ac_auth e)) t (ck_value cookie) db' =
      (if t \<le> ae_now (ac_auth e) + microseconds (ck_max_age cookie)
       then Some (AuthenticatedUser (u_user_id u) (u_username u)) else None) \<and>
    safe_destination (ae_netloc_ok (ac_auth e)) db' d"
proof -
  let ?a = "ac_auth e"
  obtain pw uid where pw: "password = Some pw" and valid: "validate_password (ac_checkpw e) pw db = Inr (Some uid)"
    and created: "create_session (ae_hash ?a) (ac_token e) (ae_now ?a) uid db = Some db'"
    and after: "(case (validated_next (ae_netloc_ok ?a) next_url db', cn_zone c) of
        (Some d, Some zone) \<Rightarrow> (Inr (RedirectPage (destination d), Some (build_session_cookie (ac_token e) zone)), db')
      | _ \<Rightarrow> (Inl ServerError, db')) = (Inr (RedirectPage d, Some cookie), db')"
    using assms unfolding login_post_def Let_def
    by (auto split: option.splits sum.splits if_splits)
  obtain u us where u: "users db = u # us" "ac_checkpw e pw (u_password_hash u) = Some True" "uid = u_user_id u"
    using valid by (auto simp: validate_password_def split: list.splits option.splits if_splits)
  have find: "List.find (\<lambda>r. u_user_id r = uid) (users db) = Some u" using u by simp
  obtain x zone where x: "validated_next (ae_netloc_ok ?a) next_url db' = Some x" "cn_zone c = Some zone"
    "d = destination x" "cookie = build_session_cookie (ac_token e) zone"
    using after by (auto split: option.splits)
  show ?thesis
    using pw u x validated_next_safe [OF x(1)]
      fresh_session_valid [OF created find refl create_session_find(3) [OF created]]
    by (simp add: build_session_cookie_def)
qed

text \<open>C19. The setup form works once: it needs the claim token, makes exactly one owner whose cookie is a
  session, and consumes the token, so that no later form is accepted whatever it claims. The default apps it
  installs touch no account.\<close>

theorem setup_claimed_once:
  assumes "setup_post e cfg True envs w f s = (Inr (Inr cookie), s')"
    and "list_all (\<lambda>u. u_user_id u \<noteq> ac_next_id e) (users (ss_db s))"
  shows "verify_claim_token (sf_claim f) (ss_db s) = Some True \<and>
    (\<exists>name hash. users (ss_db s') =
        users (ss_db s) @ [\<lparr>u_user_id = ac_next_id e, u_username = name, u_password_hash = hash\<rparr>] \<and>
      validate_owner_username name = None \<and> ac_hashpw e (sf_password f) = Some hash \<and>
      validate_session_token (ae_hash (ac_auth e)) t (ck_value cookie) (ss_db s') =
        (if t \<le> ae_now (ac_auth e) + microseconds SESSION_TTL_SECONDS
         then Some (AuthenticatedUser (ac_next_id e) name) else None)) \<and>
    setup_post e' cfg' True envs' w' f' s' = (Inl (Denied ''Invalid or missing claim token.''), s')"
proof -
  let ?db = "ss_db s" and ?a = "ac_auth e"
  have claim: "verify_claim_token (sf_claim f) ?db = Some True"
    using assms(1) unfolding setup_post_def Let_def check_claim_def
    by (auto split: option.splits if_splits)
  obtain name where name: "checked_form f = Inr name"
    using assms(1) unfolding setup_post_def Let_def by (auto split: option.splits sum.splits)
  obtain hash db1 db2 where steps: "ac_hashpw e (sf_password f) = Some hash"
    "insert_user (ac_next_id e) name hash ?db = Some db1"
    "create_session (ae_hash ?a) (ac_token e) (ae_now ?a) (ac_next_id e) db1 = Some db2"
    using assms(1) name claim unfolding setup_post_def Let_def check_claim_def
    by (auto split: option.splits bind_splits)
  obtain tried outcomes raw db4 started where
    deploy: "deploy_default_apps cfg envs w (ss_sentinel s) (delete_setting db2 CLAIM_TOKEN_KEY) = (tried, outcomes, raw, db4, started)"
    by (metis prod.exhaust)
  have s': "ss_db s' = db4" "ck_value cookie = ac_token e"
    using assms(1) name claim steps deploy unfolding setup_post_def Let_def check_claim_def
    by (auto simp: build_session_cookie_def split: sum.splits)
  note kept = deploy_default_apps_accounts [OF deploy, unfolded account_tables_def]
  note created = create_session_find [OF steps(3)]
  have users: "users db1 = users ?db @ [\<lparr>u_user_id = ac_next_id e, u_username = name, u_password_hash = hash\<rparr>]"
    using steps(2) by (auto simp: insert_user_def split: if_splits)
  have find: "List.find (\<lambda>u. u_user_id u = ac_next_id e) (users db1) =
      Some \<lparr>u_user_id = ac_next_id e, u_username = name, u_password_hash = hash\<rparr>"
    unfolding users using assms(2) by (intro find_append_same) (auto simp: find_None_iff list_all_iff)
  have "sessions db4 = sessions db2" "users db4 = users db1" "settings db4 = settings (delete_setting db2 CLAIM_TOKEN_KEY)"
    using kept created(3) by (simp_all add: delete_setting_def)
  note db4 = this
  have "get_setting db4 CLAIM_TOKEN_KEY = None"
    using get_delete_setting [of db2 CLAIM_TOKEN_KEY CLAIM_TOKEN_KEY] db4(3) by (simp add: get_setting_def)
  then have "verify_claim_token x db4 = Some False" for x by (simp add: verify_claim_token_def non_empty_def)
  then have again: "setup_post e' cfg' True envs' w' f' s' = (Inl (Denied ''Invalid or missing claim token.''), s')"
    by (simp add: setup_post_def check_claim_def s')
  have default: "validate_owner_username DEFAULT_OWNER_USERNAME = None" by code_simp
  have "validate_owner_username name = None"
    using name default by (auto simp: checked_form_def Let_def split: if_splits option.splits)
  then show ?thesis
    using claim users steps(1) again fresh_session_valid [OF steps(3) find db4(1,2)] db4(2) s' by auto
qed

text \<open>C20. The token a request creates authenticates until the expiry the answer states and not after it,
  other tokens are untouched, the list marks it expired exactly when it no longer authenticates, and deleting
  its id revokes it and nothing else. A whole number of hours is kept to the microsecond.\<close>

theorem api_token_round_trip:
  assumes "api_tokens_create e c name hours db = (Inr created, db1)"
    and "list_all (\<lambda>r. k_id r \<noteq> ac_next_id e) (api_tokens db)"
    and "ae_hash (ac_auth e) other \<noteq> ae_hash (ac_auth e) (ct_token created)"
    and "api_tokens_list e2 c2 db1 = (Inr views, db2)" and "ae_now (ac_auth e2) = t"
    and "api_tokens_delete e3 c3 (ac_next_id e) db1 = (Inr (), db3)"
  shows "validate_api_token (ae_hash (ac_auth e)) t (ct_token created) db1 =
      (if (case ct_expires_at created of None \<Rightarrow> True | Some x \<Rightarrow> t \<le> x) then Some AuthenticatedAPIKey else None) \<and>
    validate_api_token (ae_hash (ac_auth e)) t other db1 = validate_api_token (ae_hash (ac_auth e)) t other db \<and>
    (\<exists>v. filter (\<lambda>v. tv_id v = ac_next_id e) views = [v] \<and> tv_expires_at v = ct_expires_at created \<and>
      (tv_expired v \<longleftrightarrow> validate_api_token (ae_hash (ac_auth e)) t (ct_token created) db1 = None)) \<and>
    api_tokens db3 = api_tokens db \<and>
    (hours = Some (show_nat n) \<and> 0 < n \<and> n < 2 ^ 32 \<longrightarrow>
      ct_expires_at created = Some (ae_now (ac_auth e) + int n * 3600000000))"
proof -
  let ?a = "ac_auth e"
  obtain bound expires where req: "requested_expiry (ae_now ?a) hours = Inr expires"
    and ins: "insert_api_token (ac_next_id e) bound (ae_hash ?a (ac_token e)) expires (ae_now ?a) db = Some db1"
    and created: "ct_token created = ac_token e" "ct_expires_at created = expires"
    using guarded_Inr [OF assms(1) [unfolded api_tokens_create_def]]
    by (auto simp: Let_def split: sum.splits option.splits)
  define row where "row = \<lparr>k_id = ac_next_id e, k_name = bound, k_token_hash = ae_hash ?a (ac_token e),
      k_expires_at = expires, k_created_at = ae_now ?a div 1000000\<rparr>"
  have tokens: "api_tokens db1 = api_tokens db @ [row]"
    and fresh: "List.find (\<lambda>r. k_token_hash r = ae_hash ?a (ac_token e)) (api_tokens db) = None"
    using ins by (auto simp: insert_api_token_def row_def exists_row_iff find_None_iff split: if_splits)
  have valid: "validate_api_token (ae_hash ?a) t (ct_token created) db1 =
      (if (case expires of None \<Rightarrow> True | Some x \<Rightarrow> t \<le> x) then Some AuthenticatedAPIKey else None)"
    using find_append_same [OF fresh, of row] by (simp add: validate_api_token_def tokens created row_def split: option.splits)
  have other: "validate_api_token (ae_hash ?a) t other db1 = validate_api_token (ae_hash ?a) t other db"
    using find_append_other [of "\<lambda>r. k_token_hash r = ae_hash ?a other" row] assms(3)
    by (auto simp: validate_api_token_def tokens created row_def)
  have deleted: "api_tokens db3 = api_tokens db"
    using guarded_Inr [OF assms(6) [unfolded api_tokens_delete_def]] assms(2)
    by (auto simp: tokens delete_rows_def row_def list_all_iff filter_id_conv)
  have "filter (\<lambda>r. k_id r = ac_next_id e) (sort_key (\<lambda>r. - k_created_at r) (api_tokens db1)) = [row]"
    using assms(2) by (simp add: filter_sort tokens row_def list_all_iff filter_empty_conv)
  then have "filter (\<lambda>v. tv_id v = ac_next_id e) views =
      [\<lparr>tv_id = k_id row, tv_name = k_name row, tv_expires_at = k_expires_at row, tv_created_at = k_created_at row,
        tv_expired = (case k_expires_at row of None \<Rightarrow> False | Some x \<Rightarrow> x < t)\<rparr>]"
    using guarded_Inr [OF assms(4) [unfolded api_tokens_list_def]] assms(5) by (auto simp: filter_map comp_def)
  then have listed: "\<exists>v. filter (\<lambda>v. tv_id v = ac_next_id e) views = [v] \<and> tv_expires_at v = ct_expires_at created \<and>
      (tv_expired v \<longleftrightarrow> validate_api_token (ae_hash ?a) t (ct_token created) db1 = None)"
    unfolding valid by (auto simp: row_def created split: option.splits)
  have "ct_expires_at created = Some (ae_now ?a + int n * 3600000000)"
    if "hours = Some (show_nat n)" "0 < n" "n < 2 ^ 32"
    using req requested_whole_hours [OF that(2,3), of "ae_now ?a"] that(1) created(2) by (auto split: if_splits)
  then show ?thesis using valid other deleted listed created by simp
qed

section \<open>Concrete instances\<close>

definition demo_account_env :: account_env where
  "demo_account_env = \<lparr>ac_auth = demo_auth_env, ac_checkpw = (\<lambda>pw h. Some (pw = h)), ac_hashpw = Some,
     ac_token = ''new'', ac_next_id = 7\<rparr>"

definition demo_account_conn :: conn where
  "demo_account_conn = demo_conn [(''sec-fetch-site'', ''same-origin'')]\<lparr>cn_zone := Some (mk_domain ''example.com'' True)\<rparr>"

lemma login_opens_session_witness:
  "\<exists>d cookie db'. login_post demo_account_env demo_account_conn (Some ''pw'') ''/settings'' demo_auth_db =
       (Inr (RedirectPage d, Some cookie), db') \<and>
     validate_session_token id 2419200000000 (ck_value cookie) db' = Some (AuthenticatedUser 1 ''owner'') \<and>
     validate_session_token id 2419200000001 (ck_value cookie) db' = None \<and> safe_destination (\<lambda>_. True) db' d"
proof -
  let ?cookie = "build_session_cookie ''new'' (mk_domain ''example.com'' True)"
  let ?db = "demo_auth_db\<lparr>sessions := [\<lparr>s_token_hash = ''new'', s_user_id = 1, s_expires_at = 2419200000000\<rparr>]\<rparr>"
  have login: "login_post demo_account_env demo_account_conn (Some ''pw'') ''/settings'' demo_auth_db =
      (Inr (RedirectPage ''/settings'', Some ?cookie), ?db)"
  proof -
    have next_ok: "validated_next (\<lambda>_. True) ''/settings'' db = Some (Some ''/settings'')" for db
    proof -
      have "map_option (\<lambda>p. (up_scheme p, up_netloc p)) (urlparse (\<lambda>_. True) ''/settings'') = Some ([], [])" by code_simp
      then show ?thesis by (auto simp: validated_next_def)
    qed
    show ?thesis
      by (simp add: login_post_def demo_account_env_def demo_account_conn_def demo_conn_def demo_auth_env_def
          validate_password_def demo_auth_db_def demo_db_def empty_db_def create_session_def find_session_def
          sweep_sessions_def delete_rows_def insert_session_def exists_row_def microseconds_def
          SESSION_TTL_SECONDS_def next_ok destination_def non_empty_def id_def)
  qed
  have cookie: "ck_max_age ?cookie = 2419200" "ck_value ?cookie = ''new''"
    by (simp_all add: build_session_cookie_def SESSION_TTL_SECONDS_def)
  show ?thesis
    using login login_opens_session [OF login, of 2419200000000] login_opens_session [OF login, of 2419200000001]
    by (auto simp: cookie microseconds_def demo_account_env_def demo_auth_env_def demo_auth_db_def)
qed

definition demo_setup :: setup_state where
  "demo_setup = \<lparr>ss_db = demo_db\<lparr>settings := [(CLAIM_TOKEN_KEY, ''claim'')]\<rparr>, ss_sentinel = None, ss_started = [],
     ss_completed = False\<rparr>"

definition demo_setup_form :: setup_form where
  "demo_setup_form = \<lparr>sf_claim = ''claim'', sf_password = ''pw'', sf_confirm = ''pw'', sf_username = ''ada''\<rparr>"

theorem setup_claimed_once_witness:
  "\<exists>cookie s'. setup_post demo_account_env demo_config True (\<lambda>_. demo_install_env) True demo_setup_form demo_setup =
       (Inr (Inr cookie), s') \<and>
     setup_post demo_account_env demo_config True (\<lambda>_. demo_install_env) True demo_setup_form s' =
       (Inl (Denied ''Invalid or missing claim token.''), s') \<and>
     validate_session_token id 5 (ck_value cookie) (ss_db s') = Some (AuthenticatedUser 7 ''ada'')"
proof -
  let ?post = "setup_post demo_account_env demo_config True (\<lambda>_. demo_install_env) True demo_setup_form demo_setup"
  have "case ?post of (Inr (Inr cookie), s') \<Rightarrow> True | _ \<Rightarrow> False" by code_simp
  then obtain cookie s' where post: "?post = (Inr (Inr cookie), s')"
    by (auto split: prod.splits sum.splits)
  have users: "list_all (\<lambda>u. u_user_id u \<noteq> ac_next_id demo_account_env) (users (ss_db demo_setup))" by code_simp
  from setup_claimed_once [OF post users, of 5 demo_account_env demo_config "\<lambda>_. demo_install_env" True demo_setup_form]
  obtain name hash where again: "setup_post demo_account_env demo_config True (\<lambda>_. demo_install_env) True demo_setup_form s' =
       (Inl (Denied ''Invalid or missing claim token.''), s')"
    and new: "users (ss_db s') = users (ss_db demo_setup) @ [\<lparr>u_user_id = 7, u_username = name, u_password_hash = hash\<rparr>]"
    and valid: "validate_session_token id 5 (ck_value cookie) (ss_db s') = Some (AuthenticatedUser 7 name)"
    by (auto simp: demo_account_env_def demo_auth_env_def microseconds_def SESSION_TTL_SECONDS_def)
  have "users (ss_db (snd ?post)) = [\<lparr>u_user_id = 7, u_username = ''ada'', u_password_hash = ''pw''\<rparr>]" by code_simp
  with post new valid have "name = ''ada''" by (simp add: demo_setup_def demo_db_def empty_db_def)
  with post again valid show ?thesis by blast
qed

theorem api_token_round_trip_witness:
  "\<exists>created db1. api_tokens_create demo_account_env demo_account_conn ''ci'' (Some ''8'') demo_web_db = (Inr created, db1) \<and>
     validate_api_token id 28800000000 ''new'' db1 = Some AuthenticatedAPIKey \<and>
     ct_expires_at created = Some 28800000000"
proof -
  let ?create = "api_tokens_create demo_account_env demo_account_conn ''ci'' (Some ''8'') demo_web_db"
  let ?late = "demo_account_env\<lparr>ac_auth := demo_auth_env\<lparr>ae_now := 28800000000\<rparr>\<rparr>"
  let ?c = "demo_account_conn\<lparr>cn_headers := [(''authorization'', ''Bearer new'')]\<rparr>"
  have "case ?create of (Inr x, db) \<Rightarrow> ct_token x = ''new'' \<and>
      (case api_tokens_list ?late ?c db of (Inr v, d) \<Rightarrow> True | _ \<Rightarrow> False) \<and>
      (case api_tokens_delete ?late ?c 7 db of (Inr v, d) \<Rightarrow> True | _ \<Rightarrow> False) | _ \<Rightarrow> False" by code_simp
  then obtain created db1 views db2 db3 where steps: "?create = (Inr created, db1)" "ct_token created = ''new''"
    "api_tokens_list ?late ?c db1 = (Inr views, db2)" "api_tokens_delete ?late ?c 7 db1 = (Inr (), db3)"
    by (auto split: prod.splits sum.splits)
  have ids: "list_all (\<lambda>r. k_id r \<noteq> ac_next_id demo_account_env) (api_tokens demo_web_db)" by code_simp
  have late: "ae_now (ac_auth ?late) = 28800000000" "ac_next_id demo_account_env = 7" "ae_hash (ac_auth demo_account_env) = id"
    "ae_now (ac_auth demo_account_env) = 0"
    by (simp_all add: demo_account_env_def demo_auth_env_def)
  have "show_nat 8 = ''8''" by code_simp
  then show ?thesis
    using api_token_round_trip [OF steps(1) ids, of "''x''" ?late ?c views db2 28800000000 ?late ?c db3 8] steps
    by (auto simp: late)
qed

end
