(* ===== verification/FirstBoot.thy ===== *)
theory FirstBoot
  imports ArchiveBackend Accounts
begin

text \<open>
  What a fresh instance takes from \<open>first_boot.toml\<close> (\<open>core/first_boot.py\<close>), and the Imbue credential it may bring
  (\<open>core/identity_store.py\<close>). The file is the value \<open>tomllib\<close> reads. \<open>owner_exists\<close> is defined in \<open>Accounts\<close>.
\<close>

section \<open>The Imbue credential (\<open>identity_store.py\<close>)\<close>

record keycloak_credentials =
  kc_issuer_url :: string
  kc_client_id :: string
  kc_client_secret :: string

definition IMBUE_IDENTITY_ISSUER_URL_KEY :: string where
  "IMBUE_IDENTITY_ISSUER_URL_KEY = ''imbue_identity_issuer_url''"
definition IMBUE_IDENTITY_CLIENT_ID_KEY :: string where
  "IMBUE_IDENTITY_CLIENT_ID_KEY = ''imbue_identity_client_id''"
definition IMBUE_IDENTITY_CLIENT_SECRET_KEY :: string where
  "IMBUE_IDENTITY_CLIENT_SECRET_KEY = ''imbue_identity_client_secret''"
definition IMBUE_CONNECT_BASE_URL_KEY :: string where
  "IMBUE_CONNECT_BASE_URL_KEY = ''imbue_connect_base_url''"

definition all_parts :: "string option \<Rightarrow> string option \<Rightarrow> string option \<Rightarrow> keycloak_credentials option" where
  "all_parts issuer client_id client_secret =
     (case (non_empty issuer, non_empty client_id, non_empty client_secret) of
        (Some i, Some c, Some s) \<Rightarrow> Some \<lparr>kc_issuer_url = i, kc_client_id = c, kc_client_secret = s\<rparr>
      | _ \<Rightarrow> None)"

definition get_stored_instance_identity :: "db \<Rightarrow> keycloak_credentials option" where
  "get_stored_instance_identity db =
     all_parts (get_setting db IMBUE_IDENTITY_ISSUER_URL_KEY) (get_setting db IMBUE_IDENTITY_CLIENT_ID_KEY)
       (get_setting db IMBUE_IDENTITY_CLIENT_SECRET_KEY)"

text \<open>With the three deprecated fields of the configuration, each for a part the table lacks.\<close>

definition get_instance_identity ::
    "db \<Rightarrow> string option \<times> string option \<times> string option \<Rightarrow> keycloak_credentials option" where
  "get_instance_identity db config_fields =
     (let or_config = (\<lambda>key fallback. case non_empty (get_setting db key) of Some v \<Rightarrow> Some v | None \<Rightarrow> fallback);
          (issuer, client_id, client_secret) = config_fields
      in all_parts (or_config IMBUE_IDENTITY_ISSUER_URL_KEY issuer) (or_config IMBUE_IDENTITY_CLIENT_ID_KEY client_id)
           (or_config IMBUE_IDENTITY_CLIENT_SECRET_KEY client_secret))"

definition set_instance_identity :: "db \<Rightarrow> keycloak_credentials \<Rightarrow> db" where
  "set_instance_identity db c =
     set_setting (set_setting (set_setting db IMBUE_IDENTITY_ISSUER_URL_KEY (kc_issuer_url c))
       IMBUE_IDENTITY_CLIENT_ID_KEY (kc_client_id c)) IMBUE_IDENTITY_CLIENT_SECRET_KEY (kc_client_secret c)"

definition get_connect_base_url :: "db \<Rightarrow> string option" where
  "get_connect_base_url db = get_setting db IMBUE_CONNECT_BASE_URL_KEY"

section \<open>Reading the file\<close>

text \<open>
  The environment, \<open>Path.parent\<close>, the file of a directory (None where it is absent, \<open>Inl\<close> for what \<open>tomllib\<close>
  raises), \<open>str\<close> of values that are not text, and the text of the old claim-token file.
\<close>

record boot_env =
  be_environ :: "string \<Rightarrow> string option"
  be_parent :: "string \<Rightarrow> string"
  be_toml :: "string \<Rightarrow> (string + (string \<times> pyval) list) option"
  be_str :: "pyval \<Rightarrow> string"
  be_legacy_token :: "string option"

record first_boot_archive =
  fa_s3_bucket :: string
  fa_s3_endpoint :: string
  fa_s3_region :: "string option"
  fa_s3_access_key_id :: string
  fa_s3_secret_access_key :: string
  fa_volume_name :: "string option"

record first_boot =
  fb_domain :: string
  fb_claim_token :: "string option"
  fb_tls :: bool
  fb_issuer_url :: "string option"
  fb_client_id :: "string option"
  fb_client_secret :: "string option"
  fb_connect_base_url :: "string option"
  fb_archive :: "first_boot_archive option"

definition str_of :: "boot_env \<Rightarrow> pyval \<Rightarrow> string" where
  "str_of E v = (case v of PStr s \<Rightarrow> s | _ \<Rightarrow> be_str E v)"

text \<open>\<open>str(d[key]) if d.get(key) else None\<close>, and \<open>str(d[key])\<close>, which raises where the key is missing.\<close>

definition str_if_true :: "boot_env \<Rightarrow> (string \<times> pyval) list \<Rightarrow> string \<Rightarrow> string option" where
  "str_if_true E d key = (let v = dict_lookup d key PNone in if truthy v then Some (str_of E v) else None)"

definition required_str :: "boot_env \<Rightarrow> (string \<times> pyval) list \<Rightarrow> string \<Rightarrow> string + string" where
  "required_str E d key =
     (case map_of d key of
        None \<Rightarrow> Inl (''first_boot.toml: [archive_backend] is missing '' @ key)
      | Some v \<Rightarrow> Inr (str_of E v))"

definition parse_archive_backend :: "boot_env \<Rightarrow> pyval \<Rightarrow> string + first_boot_archive option" where
  "parse_archive_backend E raw =
     (case raw of
        PNone \<Rightarrow> Inr None
      | PDict d \<Rightarrow>
          (let volume_name = str_if_true E d ''volume_name'' in
           if volume_name \<noteq> None \<and> \<not> is_volume_name (the volume_name)
           then Inl ''first_boot.toml: [archive_backend] volume_name is not a valid JuiceFS volume name''
           else bind_res (required_str E d ''s3_bucket'') (\<lambda>bucket.
                bind_res (required_str E d ''s3_endpoint'') (\<lambda>endpoint.
                bind_res (required_str E d ''s3_access_key_id'') (\<lambda>access_key_id.
                bind_res (required_str E d ''s3_secret_access_key'') (\<lambda>secret_access_key.
                  Inr (Some \<lparr>fa_s3_bucket = bucket, fa_s3_endpoint = endpoint, fa_s3_region = str_if_true E d ''s3_region'',
                    fa_s3_access_key_id = access_key_id, fa_s3_secret_access_key = secret_access_key,
                    fa_volume_name = volume_name\<rparr>))))))
      | _ \<Rightarrow> Inl ''first_boot.toml: [archive_backend] must be a table'')"

definition config_dir :: "boot_env \<Rightarrow> string option" where
  "config_dir E =
     map_option (be_parent E)
       (case non_empty (be_environ E ''OPENHOST_ROUTER_CONFIG'') of
          Some path \<Rightarrow> Some path | None \<Rightarrow> non_empty (be_environ E ''OPENHOST_CONFIG''))"

definition first_boot_of :: "boot_env \<Rightarrow> (string \<times> pyval) list \<Rightarrow> string + first_boot option" where
  "first_boot_of E data =
     (let domain = py_strip (str_of E (dict_lookup data ''domain'' (PStr []))) in
      if domain = [] then Inr None
      else (let identity = (case dict_lookup data ''imbue_identity'' (PDict []) of PDict d \<Rightarrow> d | _ \<Rightarrow> []) in
        bind_res (parse_archive_backend E (dict_lookup data ''archive_backend'' PNone)) (\<lambda>archive.
          Inr (Some \<lparr>fb_domain = domain, fb_claim_token = str_if_true E data ''claim_token'',
            fb_tls = truthy (dict_lookup data ''tls'' (PBool (\<not> is_mdns (mk_domain domain True)))),
            fb_issuer_url = str_if_true E identity ''issuer_url'', fb_client_id = str_if_true E identity ''client_id'',
            fb_client_secret = str_if_true E identity ''client_secret'',
            fb_connect_base_url = str_if_true E data ''imbue_connect_base_url'', fb_archive = archive\<rparr>))))"

definition read_first_boot :: "boot_env \<Rightarrow> string + first_boot option" where
  "read_first_boot E =
     (case config_dir E of
        None \<Rightarrow> Inr None
      | Some dir \<Rightarrow>
          (case be_toml E (path_join dir ''first_boot.toml'') of
             None \<Rightarrow> Inr None
           | Some (Inl m) \<Rightarrow> Inl m
           | Some (Inr data) \<Rightarrow> first_boot_of E data))"

section \<open>Seeding\<close>

definition read_legacy_claim_token :: "boot_env \<Rightarrow> string option" where
  "read_legacy_claim_token E =
     (case be_legacy_token E of None \<Rightarrow> None | Some text \<Rightarrow> non_empty (Some (before_char CHR '':'' (py_strip text))))"

definition on_db :: "(db \<Rightarrow> db) \<Rightarrow> ('w, unit) archive_prog" where
  "on_db f = changing (\<lambda>s. s\<lparr>ar_sys := (ar_sys s)\<lparr>sdb := f (ar_db s)\<rparr>\<rparr>)"

definition seed_imbue_identity :: "first_boot \<Rightarrow> db \<Rightarrow> db" where
  "seed_imbue_identity fb db =
     (let db1 = (case all_parts (fb_issuer_url fb) (fb_client_id fb) (fb_client_secret fb) of
            Some credential \<Rightarrow>
              if get_stored_instance_identity db = None then set_instance_identity db credential else db
          | None \<Rightarrow> db)
      in case non_empty (fb_connect_base_url fb) of
           Some url \<Rightarrow>
             if get_setting db1 IMBUE_CONNECT_BASE_URL_KEY = None then set_setting db1 IMBUE_CONNECT_BASE_URL_KEY url else db1
         | None \<Rightarrow> db1)"

definition seed_archive :: "'w archive_ops \<Rightarrow> config \<Rightarrow> first_boot \<Rightarrow> ('w, unit) archive_prog" where
  "seed_archive os cfg fb =
     (case fb_archive fb of
        None \<Rightarrow> returning ()
      | Some ab \<Rightarrow>
          and_then (reading (\<lambda>s. owner_exists (ar_db s))) (\<lambda>owned.
            if owned then returning ()
            else seed_preconfigured_s3 os cfg (fa_s3_bucket ab) (fa_s3_region ab) (fa_s3_endpoint ab)
                   (fa_s3_access_key_id ab) (fa_s3_secret_access_key ab) (fa_volume_name ab)))"

definition seed_claim_token :: "boot_env \<Rightarrow> first_boot option \<Rightarrow> db \<Rightarrow> db" where
  "seed_claim_token E fb db =
     (if owner_exists db \<or> get_setting db CLAIM_TOKEN_KEY \<noteq> None then db
      else (let token = (case non_empty (Option.bind fb fb_claim_token) of
              Some t \<Rightarrow> Some t | None \<Rightarrow> read_legacy_claim_token E)
        in case non_empty token of None \<Rightarrow> db | Some t \<Rightarrow> set_setting db CLAIM_TOKEN_KEY t))"

definition seed_first_boot :: "boot_env \<Rightarrow> 'w archive_ops \<Rightarrow> config \<Rightarrow> ('w, unit) archive_prog" where
  "seed_first_boot E os cfg =
     (case read_first_boot E of
        Inl m \<Rightarrow> raising (OtherRaised m)
      | Inr fb \<Rightarrow>
          and_then (case fb of
              None \<Rightarrow> returning ()
            | Some b \<Rightarrow>
                and_then (on_db (\<lambda>db. fst (seed_domains db (mk_domain (fb_domain b) (fb_tls b)) []))) (\<lambda>_.
                and_then (on_db (seed_imbue_identity b)) (\<lambda>_. seed_archive os cfg b))) (\<lambda>_.
          on_db (seed_claim_token E fb)))"

section \<open>Facts\<close>

lemma get_set_setting: "get_setting (set_setting db k v) j = (if j = k then Some v else get_setting db j)"
proof -
  have "map_of (update_rows (\<lambda>r. fst r = k) (\<lambda>r. (k, v)) xs) j =
      (if j = k then (if exists_row (\<lambda>r. fst r = k) xs then Some v else None) else map_of xs j)" for xs :: "(string \<times> string) list"
    by (induction xs) (auto simp: update_rows_def exists_row_def)
  moreover have "map_of xs k = None" if "\<not> exists_row (\<lambda>r. fst r = k) xs" for xs :: "(string \<times> string) list"
    using that by (auto simp: exists_row_iff map_of_eq_None_iff)
  ultimately show ?thesis
    by (cases "map_of (settings db) j") (auto simp: get_setting_def set_setting_def map_add_Some_iff map_add_None split: option.splits)
qed

lemma set_setting_same: "distinct (map fst (settings db)) \<Longrightarrow> get_setting db k = Some v \<Longrightarrow> set_setting db k v = db"
proof -
  assume d: "distinct (map fst (settings db))" and g: "get_setting db k = Some v"
  have "update_rows (\<lambda>r. fst r = k) (\<lambda>r. (k, v)) (settings db) = settings db"
    unfolding update_rows_def using d g
    by (intro map_idI) (auto simp: get_setting_def dest: eq_key_imp_eq_value map_of_SomeD)
  moreover have "exists_row (\<lambda>r. fst r = k) (settings db)"
    using g by (force simp: get_setting_def exists_row_iff dest: map_of_SomeD)
  ultimately show ?thesis by (simp add: set_setting_def)
qed

lemma delete_setting_none: "get_setting db k = None \<Longrightarrow> delete_setting db k = db"
proof -
  assume "get_setting db k = None"
  then have "filter (\<lambda>r. fst r \<noteq> k) (settings db) = settings db"
    by (intro filter_True) (auto simp: get_setting_def map_of_eq_None_iff)
  then show ?thesis by (simp add: delete_setting_def delete_rows_def)
qed

definition keys_distinct :: "db \<Rightarrow> bool" where
  "keys_distinct db \<longleftrightarrow> distinct (map fst (settings db))"

lemma settings_frame [simp]:
  "domains (set_setting db k v) = domains db" "users (set_setting db k v) = users db"
  "domains (delete_setting db k) = domains db" "users (delete_setting db k) = users db"
  by (simp_all add: set_setting_def delete_setting_def)

lemma keys_distinct_settings [simp]:
  "keys_distinct db \<Longrightarrow> keys_distinct (set_setting db k v)" "keys_distinct db \<Longrightarrow> keys_distinct (delete_setting db k)"
proof -
  assume d: "keys_distinct db"
  have "map fst (update_rows (\<lambda>r. fst r = k) (\<lambda>r. (k, v)) (settings db)) = map fst (settings db)"
    by (auto simp: update_rows_def)
  with d show "keys_distinct (set_setting db k v)"
    by (auto simp: keys_distinct_def set_setting_def exists_row_iff)
  show "keys_distinct (delete_setting db k)" using d by (simp add: keys_distinct_def delete_setting_def delete_rows_def distinct_map_filter)
qed

lemmas key_defs = IMBUE_IDENTITY_ISSUER_URL_KEY_def IMBUE_IDENTITY_CLIENT_ID_KEY_def IMBUE_IDENTITY_CLIENT_SECRET_KEY_def
  IMBUE_CONNECT_BASE_URL_KEY_def CLAIM_TOKEN_KEY_def ADOPT_VOLUME_KEY_def

lemma stored_after_set:
  "all_parts i c s = Some credential \<Longrightarrow> get_stored_instance_identity (set_instance_identity db credential) = Some credential"
  by (auto simp: all_parts_def get_stored_instance_identity_def set_instance_identity_def get_set_setting key_defs non_empty_def
      split: option.splits if_splits)

text \<open>Whether the table has the credential and the address depends on these four keys only.\<close>

lemma seed_imbue_again:
  assumes "\<And>k. k \<in> {IMBUE_IDENTITY_ISSUER_URL_KEY, IMBUE_IDENTITY_CLIENT_ID_KEY, IMBUE_IDENTITY_CLIENT_SECRET_KEY,
      IMBUE_CONNECT_BASE_URL_KEY} \<Longrightarrow> get_setting db' k = get_setting (seed_imbue_identity fb db) k"
  shows "seed_imbue_identity fb db' = db'"
proof -
  let ?parts = "all_parts (fb_issuer_url fb) (fb_client_id fb) (fb_client_secret fb)"
  have stored: "get_stored_instance_identity (set_setting d IMBUE_CONNECT_BASE_URL_KEY u) = get_stored_instance_identity d" for d u
    by (simp add: get_stored_instance_identity_def get_set_setting key_defs)
  have "get_stored_instance_identity db' = get_stored_instance_identity (seed_imbue_identity fb db)"
    using assms by (simp add: get_stored_instance_identity_def)
  moreover have "get_stored_instance_identity (seed_imbue_identity fb db) \<noteq> None" if "?parts = Some c" for c
    using that stored_after_set [OF that] by (auto simp: seed_imbue_identity_def Let_def stored split: option.splits)
  moreover have "get_setting db' IMBUE_CONNECT_BASE_URL_KEY \<noteq> None" if "non_empty (fb_connect_base_url fb) = Some u" for u
    using that assms [of IMBUE_CONNECT_BASE_URL_KEY] by (auto simp: seed_imbue_identity_def Let_def get_set_setting)
  ultimately show ?thesis
    by (auto simp: seed_imbue_identity_def Let_def split: option.splits)
qed

lemma seed_claim_facts [simp]:
  "domains (seed_claim_token E fb db) = domains db" "users (seed_claim_token E fb db) = users db"
  "keys_distinct db \<Longrightarrow> keys_distinct (seed_claim_token E fb db)"
  "k \<noteq> CLAIM_TOKEN_KEY \<Longrightarrow> get_setting (seed_claim_token E fb db) k = get_setting db k"
  "seed_claim_token E fb (seed_claim_token E fb db) = seed_claim_token E fb db"
  by (auto simp: seed_claim_token_def Let_def get_set_setting owner_exists_def split: option.splits)

lemma seed_imbue_facts [simp]:
  "domains (seed_imbue_identity fb db) = domains db" "users (seed_imbue_identity fb db) = users db"
  "keys_distinct db \<Longrightarrow> keys_distinct (seed_imbue_identity fb db)"
  by (auto simp: seed_imbue_identity_def set_instance_identity_def Let_def split: option.splits)

lemma volume_of_domains: "domains d = domains d' \<Longrightarrow> default_volume_name_for_zone h d = default_volume_name_for_zone h d'"
  by (simp add: default_volume_name_for_zone_def primary_domain_or_none_def)

text \<open>The two changes of \<open>seed_preconfigured_s3\<close>.\<close>

definition adopting :: "first_boot_archive \<Rightarrow> db \<Rightarrow> db" where
  "adopting ab db =
     (if fa_volume_name ab \<noteq> None then set_setting db ADOPT_VOLUME_KEY ''1'' else delete_setting db ADOPT_VOLUME_KEY)"

definition preset_row :: "(string \<Rightarrow> string) \<Rightarrow> first_boot_archive \<Rightarrow> db \<Rightarrow> archive_row \<Rightarrow> archive_row" where
  "preset_row h ab db r =
     (let volume = (case non_empty (fa_volume_name ab) of Some v \<Rightarrow> v | None \<Rightarrow> default_volume_name_for_zone h db)
      in r\<lparr>b_backend := ''s3'', b_s3_bucket := Some (fa_s3_bucket ab), b_s3_region := fa_s3_region ab,
           b_s3_endpoint := Some (fa_s3_endpoint ab), b_s3_prefix := Some volume, b_s3_access_key_id := Some (fa_s3_access_key_id ab),
           b_s3_secret_access_key := Some (fa_s3_secret_access_key ab), b_juicefs_volume_name := volume\<rparr>)"

lemma seed_archive_acts:
  assumes "fb_archive fb = Some ab" and "\<not> owner_exists (ar_db s)" and "\<not> ao_is_file os (juicefs_meta_db cfg) (ar_world s)"
  shows "seed_archive os cfg fb s =
     (if fa_volume_name ab \<noteq> None \<and> \<not> is_volume_name (the (fa_volume_name ab))
      then (Inl (OtherRaised ''invalid preconfigured archive volume name''), s)
      else (Inr (), s\<lparr>ar_sys := (ar_sys s)\<lparr>sdb := adopting ab (ar_db s)\<rparr>,
                      ar_row := map_option (preset_row (ao_sha256 os) ab (ar_db s)) (ar_row s)\<rparr>))"
  using assms
  by (cases "ar_row s") (simp_all add: seed_archive_def seed_preconfigured_s3_def and_then_def reading_def returning_def raising_def
      world_def changing_def set_row_def adopting_def preset_row_def Let_def)

lemma adopting_facts [simp]:
  "domains (adopting ab db) = domains db" "users (adopting ab db) = users db"
  "keys_distinct db \<Longrightarrow> keys_distinct (adopting ab db)"
  "k \<noteq> ADOPT_VOLUME_KEY \<Longrightarrow> get_setting (adopting ab db) k = get_setting db k"
  by (simp_all add: adopting_def get_set_setting get_delete_setting)

lemma adopting_again:
  assumes "keys_distinct db"
  shows "adopting ab (seed_claim_token E b (adopting ab db)) = seed_claim_token E b (adopting ab db)"
proof -
  have adopt: "ADOPT_VOLUME_KEY \<noteq> CLAIM_TOKEN_KEY" by (simp add: key_defs)
  have d: "distinct (map fst (settings (seed_claim_token E b (adopting ab db))))"
    using assms unfolding keys_distinct_def [symmetric] by simp
  show ?thesis
  proof (cases "fa_volume_name ab")
    case None
    then have "get_setting (seed_claim_token E b (adopting ab db)) ADOPT_VOLUME_KEY = None"
      using adopt by (simp add: adopting_def get_delete_setting)
    with None show ?thesis by (simp add: adopting_def delete_setting_none)
  next
    case (Some v)
    then have "get_setting (seed_claim_token E b (adopting ab db)) ADOPT_VOLUME_KEY = Some ''1''"
      using adopt by (simp add: adopting_def get_set_setting)
    from set_setting_same [OF d this] Some show ?thesis by (simp add: adopting_def)
  qed
qed

lemma preset_row_again: "domains db' = domains db \<Longrightarrow> preset_row h ab db' (preset_row h ab db r) = preset_row h ab db r"
  by (simp add: preset_row_def Let_def volume_of_domains [of db' db] split: option.split)

text \<open>After the archive step, the same step changes nothing, also when the claim token came between them.\<close>

lemma seed_archive_again:
  assumes run: "seed_archive os cfg fb s = (Inr (), t)" and "keys_distinct (ar_db s)"
    and t': "t' = t\<lparr>ar_sys := (ar_sys t)\<lparr>sdb := db'\<rparr>\<rparr>" and db': "db' = seed_claim_token E b (ar_db t)"
  shows "seed_archive os cfg fb t' = (Inr (), t') \<and> domains (ar_db t) = domains (ar_db s) \<and> users (ar_db t) = users (ar_db s) \<and>
     keys_distinct (ar_db t) \<and> (\<forall>k. k \<noteq> ADOPT_VOLUME_KEY \<longrightarrow> get_setting (ar_db t) k = get_setting (ar_db s) k)"
proof (cases "fb_archive fb = None \<or> owner_exists (ar_db s) \<or> ao_is_file os (juicefs_meta_db cfg) (ar_world s)")
  case True
  then have "t = s"
    using run by (cases "fb_archive fb")
      (auto simp: seed_archive_def seed_preconfigured_s3_def and_then_def reading_def returning_def world_def split: if_splits)
  with True t' db' assms(2) show ?thesis
    by (cases "fb_archive fb")
      (auto simp: seed_archive_def seed_preconfigured_s3_def and_then_def reading_def returning_def world_def owner_exists_def)
next
  case False
  then obtain ab where ab: "fb_archive fb = Some ab" and "\<not> owner_exists (ar_db s)" "\<not> ao_is_file os (juicefs_meta_db cfg) (ar_world s)"
    by auto
  note acts = seed_archive_acts [OF this]
  have valid: "\<not> (fa_volume_name ab \<noteq> None \<and> \<not> is_volume_name (the (fa_volume_name ab)))" using run unfolding acts by (auto split: if_splits)
  have t: "t = s\<lparr>ar_sys := (ar_sys s)\<lparr>sdb := adopting ab (ar_db s)\<rparr>, ar_row := map_option (preset_row (ao_sha256 os) ab (ar_db s)) (ar_row s)\<rparr>"
    using run valid unfolding acts by (auto split: if_splits)
  have "\<not> owner_exists (ar_db t')" "\<not> ao_is_file os (juicefs_meta_db cfg) (ar_world t')" using False ab by (simp_all add: t t' db' owner_exists_def)
  from seed_archive_acts [OF ab this] valid have "seed_archive os cfg fb t' =
      (Inr (), t'\<lparr>ar_sys := (ar_sys t')\<lparr>sdb := adopting ab (ar_db t')\<rparr>, ar_row := map_option (preset_row (ao_sha256 os) ab (ar_db t')) (ar_row t')\<rparr>)"
    by simp
  moreover have "adopting ab (ar_db t') = ar_db t'" using adopting_again [OF assms(2)] by (simp add: t t' db')
  moreover have "map_option (preset_row (ao_sha256 os) ab (ar_db t')) (ar_row t') = ar_row t'"
    by (simp add: t t' db' option.map_comp comp_def preset_row_again)
  ultimately show ?thesis using assms(2) by (simp add: t)
qed

text \<open>
  Seeding is done once: what a second boot finds in the same file changes nothing, and once the owner has set
  the instance up, has its domains and is connected, no file does.
\<close>

lemma first_boot_once:
  assumes run: "seed_first_boot E os cfg s = (Inr (), s1)" and keys: "keys_distinct (ar_db s)"
  shows "seed_first_boot E os cfg s1 = (Inr (), s1)"
proof (cases "read_first_boot E")
  case (Inr fb)
  show ?thesis
  proof (cases fb)
    case None
    with run Inr show ?thesis
      by (auto simp: seed_first_boot_def and_then_def returning_def on_db_def changing_def)
  next
    case (Some b)
    define d where "d = fst (seed_domains (ar_db s) (mk_domain (fb_domain b) (fb_tls b)) [])"
    define u where "u = s\<lparr>ar_sys := (ar_sys s)\<lparr>sdb := seed_imbue_identity b d\<rparr>\<rparr>"
    have d: "domains d \<noteq> []" "keys_distinct d"
      using keys by (auto simp: d_def seed_domains_def keys_distinct_def)
    obtain t where t: "seed_archive os cfg b u = (Inr (), t)" and s1: "s1 = t\<lparr>ar_sys := (ar_sys t)\<lparr>sdb := seed_claim_token E fb (ar_db t)\<rparr>\<rparr>"
      using run Inr Some
      by (auto simp: seed_first_boot_def and_then_def on_db_def changing_def d_def u_def split: prod.splits sum.splits)
    note again = seed_archive_again [OF t _ s1 refl]
    have facts: "seed_archive os cfg b s1 = (Inr (), s1)" "domains (ar_db t) = domains d"
      "\<forall>k. k \<noteq> ADOPT_VOLUME_KEY \<longrightarrow> get_setting (ar_db t) k = get_setting (seed_imbue_identity b d) k"
      using again d(2) by (auto simp: u_def)
    have "seed_imbue_identity b (ar_db s1) = ar_db s1"
      by (rule seed_imbue_again [of _ _ d]) (use facts(3) in \<open>auto simp: s1 key_defs\<close>)
    moreover have "fst (seed_domains (ar_db s1) p []) = ar_db s1" for p
      using facts(2) d(1) by (simp add: s1 seed_domains_def)
    moreover have "seed_claim_token E fb (ar_db s1) = ar_db s1" by (simp add: s1)
    ultimately show ?thesis
      using Inr Some facts(1) by (simp add: seed_first_boot_def and_then_def on_db_def changing_def)
  qed
qed (use run in \<open>simp add: seed_first_boot_def raising_def\<close>)

lemma later_file_is_inert:
  assumes "owner_exists (ar_db s)" and "domains (ar_db s) \<noteq> []" and "get_stored_instance_identity (ar_db s) \<noteq> None"
    and "get_connect_base_url (ar_db s) \<noteq> None"
  shows "snd (seed_first_boot E os cfg s) = s"
proof -
  have "seed_imbue_identity b (ar_db s) = ar_db s" for b
    using assms(3,4) by (auto simp: seed_imbue_identity_def get_connect_base_url_def Let_def split: option.splits)
  then show ?thesis
    using assms(1,2)
    by (auto simp: seed_first_boot_def and_then_def on_db_def changing_def returning_def raising_def reading_def seed_archive_def
        seed_claim_token_def seed_domains_def split: sum.splits option.splits)
qed

end
