(* ===== verification/ReleaseWalk.thy ===== *)
theory ReleaseWalk
  imports Urls "HOL-Library.Product_Lexorder"
begin

text \<open>
  Which code a host runs next (\<open>update.py\<close> and \<open>apply_after_checkout.py\<close> of the system agent): release tags
  and their order, the destination of an update, and the walk over the releases to it. The two files have
  their own copy of the decision, both are here and are proved to agree. Git is a repository record.
\<close>

section \<open>Release tags\<close>

text \<open>\<open>s.partition(sep)\<close> for a separator that is not empty.\<close>

fun partition_str :: "string \<Rightarrow> string \<Rightarrow> string \<times> bool \<times> string" where
  "partition_str sep [] = ([], False, [])"
| "partition_str sep (c # cs) =
     (if startswith (c # cs) sep then ([], True, drop (length sep) (c # cs))
      else (let (before, found, rest) = partition_str sep cs in (c # before, found, rest)))"

text \<open>\<open>\d+(?:\.\d+)*\<close>, and the two kinds of tags with a \<open>fullmatch\<close>.\<close>

definition dotted_ints :: "string \<Rightarrow> bool" where
  "dotted_ints s \<longleftrightarrow> list_all py_isdigit (split_on CHR ''.'' s)"

definition RELEASE_TAG :: "string \<Rightarrow> bool" where
  "RELEASE_TAG t \<longleftrightarrow> startswith t ''v'' \<and> dotted_ints (drop 1 t)"

definition RC_TAG :: "string \<Rightarrow> bool" where
  "RC_TAG t \<longleftrightarrow> startswith t ''v'' \<and>
     (let (version, found, rc) = partition_str ''-rc.'' (drop 1 t) in found \<and> dotted_ints version \<and> py_isdigit rc)"

type_synonym version = "nat list \<times> nat \<times> nat"

definition version_key :: "string \<Rightarrow> version" where
  "version_key tag_name =
     (let (version, _, rc) = partition_str ''-rc.'' (dropWhile (\<lambda>c. c = CHR ''v'') tag_name)
      in (map (\<lambda>x. nat (digits_value x)) (split_on CHR ''.'' version),
          if rc \<noteq> [] then 0 else 1, if rc \<noteq> [] then nat (digits_value rc) else 0))"

definition is_version_tag :: "string \<Rightarrow> bool" where
  "is_version_tag name \<longleftrightarrow> RELEASE_TAG name \<or> RC_TAG name"

text \<open>\<open>max(xs, key=k, default=None)\<close>: the first of the greatest.\<close>

fun max_by :: "('a \<Rightarrow> 'k::linorder) \<Rightarrow> 'a list \<Rightarrow> 'a option" where
  "max_by k [] = None"
| "max_by k (x # xs) = Some (foldl (\<lambda>best y. if k best < k y then y else best) x xs)"

section \<open>The repository\<close>

text \<open>
  \<open>gr_tags\<close> has the tags with the commit each one is on, in the order git lists them; \<open>gr_revision h x\<close> is the
  commit \<open>git rev-parse --verify --quiet x^{commit}\<close> names when HEAD is \<open>h\<close>; \<open>gr_ancestor\<close> is
  \<open>git merge-base --is-ancestor\<close> on commits, and \<open>gr_log\<close> the commits of a range. The two settings of the
  repository's configuration are read as git gives them: a text, and a truth value that may not be one.
\<close>

datatype git_bool = Unset | Git_Bool bool | Not_Bool

record git_repo =
  gr_tags :: "(string \<times> string) list"
  gr_revision :: "string \<Rightarrow> string \<Rightarrow> string option"
  gr_ancestor :: "string \<Rightarrow> string \<Rightarrow> bool"
  gr_log :: "string \<Rightarrow> string \<Rightarrow> (string \<times> string) list"
  gr_head :: string
  gr_target_ref :: "string option"
  gr_prereleases :: git_bool
  gr_origin :: "string option"
  gr_dirty :: bool

definition rev_parse :: "git_repo \<Rightarrow> string \<Rightarrow> string option" where
  "rev_parse repo x = gr_revision repo (gr_head repo) x"

definition points_at_head :: "git_repo \<Rightarrow> string list" where
  "points_at_head repo = map fst (filter (\<lambda>(t, c). c = gr_head repo) (gr_tags repo))"

definition merged_into_head :: "git_repo \<Rightarrow> string list" where
  "merged_into_head repo = map fst (filter (\<lambda>(t, c). gr_ancestor repo c (gr_head repo)) (gr_tags repo))"

section \<open>The decision in \<open>update.py\<close>\<close>

definition get_sorted_tags :: "git_repo \<Rightarrow> string list" where
  "get_sorted_tags repo = sort_key version_key (filter RELEASE_TAG (map fst (gr_tags repo)))"

definition newest_candidate :: "git_repo \<Rightarrow> string option" where
  "newest_candidate repo = max_by version_key (filter RC_TAG (map fst (gr_tags repo)))"

definition current_tag :: "git_repo \<Rightarrow> string option" where
  "current_tag repo = max_by version_key (filter is_version_tag (points_at_head repo))"

definition latest_ancestor_tag :: "git_repo \<Rightarrow> string option" where
  "latest_ancestor_tag repo = max_by version_key (filter is_version_tag (merged_into_head repo))"

text \<open>\<open>_current_tag(repo) or _latest_ancestor_tag(repo)\<close>; a tag name is not empty.\<close>

definition base_tag :: "git_repo \<Rightarrow> string option" where
  "base_tag repo = (case current_tag repo of Some t \<Rightarrow> Some t | None \<Rightarrow> latest_ancestor_tag repo)"

definition newer_than :: "string option \<Rightarrow> string \<Rightarrow> bool" where
  "newer_than base t \<longleftrightarrow> (case base of None \<Rightarrow> True | Some b \<Rightarrow> version_key b < version_key t)"

definition get_target_ref :: "git_repo \<Rightarrow> string option" where
  "get_target_ref repo = (case gr_target_ref repo of None \<Rightarrow> None | Some v \<Rightarrow> non_empty (Some (py_strip v)))"

definition set_target_ref :: "git_repo \<Rightarrow> string option \<Rightarrow> git_repo" where
  "set_target_ref repo ref = repo\<lparr>gr_target_ref := non_empty ref\<rparr>"

definition get_prereleases_setting :: "git_repo \<Rightarrow> string + bool" where
  "get_prereleases_setting repo =
     (case gr_prereleases repo of
        Unset \<Rightarrow> Inr False
      | Not_Bool \<Rightarrow> Inl ''Failed to read openhost.prereleases; set it to true or false.''
      | Git_Bool b \<Rightarrow> Inr b)"

definition tags_destination :: "git_repo \<Rightarrow> string + string option" where
  "tags_destination repo =
     bind_res (get_prereleases_setting repo) (\<lambda>prereleases.
       (let tags = get_sorted_tags repo;
            latest = (if tags = [] then None else Some (last tags));
            candidate = (if prereleases then newest_candidate repo else None)
        in Inr (case candidate of
             Some c \<Rightarrow> if newer_than latest c then Some c else latest
           | None \<Rightarrow> latest)))"

definition resolve_ref_sha :: "git_repo \<Rightarrow> string \<Rightarrow> string option" where
  "resolve_ref_sha repo ref =
     (case rev_parse repo (''origin/'' @ ref) of Some sha \<Rightarrow> Some sha | None \<Rightarrow> rev_parse repo ref)"

definition is_ancestor :: "git_repo \<Rightarrow> string \<Rightarrow> string \<Rightarrow> bool" where
  "is_ancestor repo ancestor descendant \<longleftrightarrow>
     (case (rev_parse repo ancestor, rev_parse repo descendant) of
        (Some a, Some d) \<Rightarrow> gr_ancestor repo a d
      | _ \<Rightarrow> False)"

definition unresolved_pin :: "string \<Rightarrow> string" where
  "unresolved_pin target =
     ''Pinned target ref '' @ CHR 0x27 # target @ CHR 0x27 # '' could not be resolved on the remote. '' @
     ''Fix or clear the pin with '' @ CHR 0x27 # ''set_remote'' @ CHR 0x27 #
     '' (a URL with no #branch or @ref clears it).''"

definition target_sha :: "git_repo \<Rightarrow> string option" where
  "target_sha repo = (case get_target_ref repo of None \<Rightarrow> None | Some target \<Rightarrow> resolve_ref_sha repo target)"

definition next_step :: "git_repo \<Rightarrow> string + string option" where
  "next_step repo =
     (let target = get_target_ref repo; sha = target_sha repo in
      if target \<noteq> None \<and> sha = None then Inl (unresolved_pin (the target))
      else if sha = Some (gr_head repo) then Inr None
      else bind_res (if target = None then get_prereleases_setting repo else Inr False) (\<lambda>prereleases.
        (let base = base_tag repo;
             newer = filter (newer_than base) (get_sorted_tags repo);
             later = (case sha of Some s \<Rightarrow> filter (\<lambda>t. is_ancestor repo t s) newer | None \<Rightarrow> newer);
             candidate = (if prereleases then newest_candidate repo else None)
         in case later of
              t # _ \<Rightarrow> Inr (Some t)
            | [] \<Rightarrow>
                if sha \<noteq> None then Inr target
                else (case candidate of
                    Some c \<Rightarrow> Inr (if newer_than base c then Some c else None)
                  | None \<Rightarrow> Inr None))))"

text \<open>What \<open>fetch_updates\<close> reports once the fetch is over.\<close>

definition fetch_state :: "git_repo \<Rightarrow> string + string" where
  "fetch_state repo =
     (if gr_dirty repo then Inr ''DIRTY''
      else (case get_target_ref repo of
          Some target \<Rightarrow>
            (case resolve_ref_sha repo target of
               None \<Rightarrow> Inl (unresolved_pin target)
             | Some sha \<Rightarrow> Inr (if gr_head repo \<noteq> sha then ''BEHIND_REMOTE'' else ''UP_TO_DATE''))
        | None \<Rightarrow>
            bind_res (tags_destination repo) (\<lambda>latest.
              (case latest of
                 None \<Rightarrow> Inr ''UP_TO_DATE''
               | Some l \<Rightarrow>
                   (case base_tag repo of
                      None \<Rightarrow> Inr ''BEHIND_REMOTE''
                    | Some current \<Rightarrow>
                        Inr (if version_key current < version_key l then ''BEHIND_REMOTE'' else ''UP_TO_DATE''))))))"

record diff_result =
  df_commits :: "(string \<times> string) list"
  df_current_ref :: string
  df_remote_ref :: "string option"

definition current_ref :: "git_repo \<Rightarrow> string" where
  "current_ref repo = (case base_tag repo of Some t \<Rightarrow> t | None \<Rightarrow> take 8 (gr_head repo))"

definition show_diff :: "git_repo \<Rightarrow> string + diff_result" where
  "show_diff repo =
     (let current = current_ref repo in
      bind_res (case get_target_ref repo of
            Some target \<Rightarrow> Inr (resolve_ref_sha repo target, Some target)
          | None \<Rightarrow> bind_res (tags_destination repo) (\<lambda>dest. Inr (dest, dest)))
        (\<lambda>(dest, dest_label).
          (case dest of
             None \<Rightarrow> Inr \<lparr>df_commits = [], df_current_ref = current, df_remote_ref = None\<rparr>
           | Some d \<Rightarrow>
               Inr \<lparr>df_commits = map (\<lambda>(sha, message). (take 8 sha, before_char CHR 0x0A (py_strip message)))
                                   (gr_log repo current d),
                    df_current_ref = current, df_remote_ref = dest_label\<rparr>)))"


section \<open>The decision in \<open>apply_after_checkout.py\<close>\<close>

text \<open>
  Each release carries its own copy, which runs git as a subprocess. \<open>git tag -l 'v*'\<close> lists what starts
  with a v.
\<close>

definition apply_version_key :: "string \<Rightarrow> version" where
  "apply_version_key tag_name =
     (let (version, _, rc) = partition_str ''-rc.'' (dropWhile (\<lambda>c. c = CHR ''v'') tag_name)
      in (map (\<lambda>x. nat (digits_value x)) (split_on CHR ''.'' version),
          if rc \<noteq> [] then 0 else 1, if rc \<noteq> [] then nat (digits_value rc) else 0))"

definition apply_tag_list :: "git_repo \<Rightarrow> string list" where
  "apply_tag_list repo = filter (\<lambda>t. startswith t ''v'') (map fst (gr_tags repo))"

definition apply_sorted_tags :: "git_repo \<Rightarrow> string list" where
  "apply_sorted_tags repo = sort_key apply_version_key (filter RELEASE_TAG (apply_tag_list repo))"

definition apply_newest_candidate :: "git_repo \<Rightarrow> string option" where
  "apply_newest_candidate repo = max_by apply_version_key (filter RC_TAG (apply_tag_list repo))"

definition apply_current_tag :: "git_repo \<Rightarrow> string option" where
  "apply_current_tag repo = max_by apply_version_key (filter is_version_tag (points_at_head repo))"

definition apply_latest_ancestor_tag :: "git_repo \<Rightarrow> string option" where
  "apply_latest_ancestor_tag repo = max_by apply_version_key (filter is_version_tag (merged_into_head repo))"

definition apply_target_ref :: "git_repo \<Rightarrow> string option" where
  "apply_target_ref repo =
     (case gr_target_ref repo of
        None \<Rightarrow> None
      | Some out \<Rightarrow> (let value = py_strip out in if value \<noteq> [] then Some value else None))"

definition apply_prereleases :: "git_repo \<Rightarrow> string + bool" where
  "apply_prereleases repo =
     (case gr_prereleases repo of
        Unset \<Rightarrow> Inr False
      | Not_Bool \<Rightarrow> Inl ''Failed to read openhost.prereleases; set it to true or false.''
      | Git_Bool b \<Rightarrow> Inr b)"

definition apply_resolve_ref_sha :: "git_repo \<Rightarrow> string \<Rightarrow> string option" where
  "apply_resolve_ref_sha repo ref =
     (case rev_parse repo (''origin/'' @ ref) of Some sha \<Rightarrow> Some sha | None \<Rightarrow> rev_parse repo ref)"

definition apply_unresolved_pin :: "string \<Rightarrow> string" where
  "apply_unresolved_pin target =
     ''Pinned target ref '' @ CHR 0x27 # target @ CHR 0x27 # '' could not be resolved on the remote. '' @
     ''Fix or clear the pin with '' @ CHR 0x27 # ''set_remote'' @ CHR 0x27 #
     '' (a URL without an @ref clears it).''"

definition apply_next_step :: "git_repo \<Rightarrow> string + string option" where
  "apply_next_step repo =
     (let target = apply_target_ref repo;
          sha = (case target of None \<Rightarrow> None | Some t \<Rightarrow> apply_resolve_ref_sha repo t) in
      if target \<noteq> None \<and> sha = None then Inl (apply_unresolved_pin (the target))
      else if sha = Some (gr_head repo) then Inr None
      else bind_res (if target = None then apply_prereleases repo else Inr False) (\<lambda>prereleases.
        (let base = (case apply_current_tag repo of Some t \<Rightarrow> Some t | None \<Rightarrow> apply_latest_ancestor_tag repo);
             newer = filter (\<lambda>t. case base of None \<Rightarrow> True | Some b \<Rightarrow> apply_version_key b < apply_version_key t)
                       (apply_sorted_tags repo);
             later = (case sha of Some s \<Rightarrow> filter (\<lambda>t. is_ancestor repo t s) newer | None \<Rightarrow> newer);
             candidate = (if prereleases then apply_newest_candidate repo else None)
         in case later of
              t # _ \<Rightarrow> Inr (Some t)
            | [] \<Rightarrow>
                if sha \<noteq> None then Inr target
                else (case candidate of
                    Some c \<Rightarrow> Inr (if (case base of None \<Rightarrow> True
                                       | Some b \<Rightarrow> apply_version_key b < apply_version_key c) then Some c else None)
                  | None \<Rightarrow> Inr None))))"

section \<open>The walk\<close>

text \<open>
  One hop: \<open>git checkout\<close> of the commit the ref stands for, which leaves HEAD there. The walk is one process
  that replaces itself after each hop, so it is a recursion with fuel: None is a walk that is still going.
\<close>

definition hop :: "git_repo \<Rightarrow> string \<Rightarrow> git_repo option" where
  "hop repo step = map_option (\<lambda>sha. repo\<lparr>gr_head := sha\<rparr>) (apply_resolve_ref_sha repo step)"

fun walk :: "nat \<Rightarrow> git_repo \<Rightarrow> (string + string list \<times> git_repo) option" where
  "walk 0 repo = None"
| "walk (Suc n) repo =
     (case apply_next_step repo of
        Inl e \<Rightarrow> Some (Inl e)
      | Inr None \<Rightarrow> Some (Inr ([], repo))
      | Inr (Some step) \<Rightarrow>
          (case hop repo step of
             None \<Rightarrow> Some (Inl (''pathspec did not match: '' @ step))
           | Some repo' \<Rightarrow> map_option (map_sum id (\<lambda>(steps, r). (step # steps, r))) (walk n repo')))"

section \<open>Facts\<close>

lemma max_by_None: "max_by k xs = None \<longleftrightarrow> xs = []"
  by (cases xs) simp_all

lemma foldl_best:
  "foldl (\<lambda>best y. if k best < k y then y else best) x xs \<in> insert x (set xs) \<and>
     (\<forall>y \<in> insert x (set xs). k y \<le> k (foldl (\<lambda>best y. if k best < k y then y else best) x xs))"
  for k :: "'a \<Rightarrow> 'k::linorder"
proof (induction xs arbitrary: x)
  case (Cons y ys)
  from Cons.IH [of "if k x < k y then y else x"] show ?case by (auto intro: order_trans less_imp_le)
qed simp

lemma max_by_Some: "max_by k xs = Some m \<Longrightarrow> m \<in> set xs \<and> (\<forall>y \<in> set xs. k y \<le> k m)"
  using foldl_best [of k] by (cases xs) auto

lemma tags_start_with_v: "RELEASE_TAG t \<Longrightarrow> startswith t ''v''" "RC_TAG t \<Longrightarrow> startswith t ''v''"
  by (simp_all add: RELEASE_TAG_def RC_TAG_def)

lemma apply_copies:
  "apply_version_key = version_key" "apply_sorted_tags = get_sorted_tags"
  "apply_newest_candidate = newest_candidate" "apply_current_tag = current_tag"
  "apply_latest_ancestor_tag = latest_ancestor_tag" "apply_target_ref = get_target_ref"
  "apply_prereleases = get_prereleases_setting" "apply_resolve_ref_sha = resolve_ref_sha"
proof -
  show key: "apply_version_key = version_key" by (simp add: fun_eq_iff apply_version_key_def version_key_def)
  have listed: "filter P (apply_tag_list repo) = filter P (map fst (gr_tags repo))"
    if "\<And>t. P t \<Longrightarrow> startswith t ''v''" for P repo
    using that by (auto simp: apply_tag_list_def intro: filter_cong)
  show "apply_sorted_tags = get_sorted_tags" "apply_newest_candidate = newest_candidate"
    by (simp_all add: fun_eq_iff apply_sorted_tags_def get_sorted_tags_def apply_newest_candidate_def
        newest_candidate_def key listed tags_start_with_v)
  show "apply_current_tag = current_tag" "apply_latest_ancestor_tag = latest_ancestor_tag"
    by (simp_all add: fun_eq_iff apply_current_tag_def current_tag_def apply_latest_ancestor_tag_def
        latest_ancestor_tag_def key)
  show "apply_target_ref = get_target_ref"
    by (simp add: fun_eq_iff apply_target_ref_def get_target_ref_def non_empty_def split: option.splits)
  show "apply_prereleases = get_prereleases_setting"
    by (simp add: fun_eq_iff apply_prereleases_def get_prereleases_setting_def)
  show "apply_resolve_ref_sha = resolve_ref_sha"
    by (simp add: fun_eq_iff apply_resolve_ref_sha_def resolve_ref_sha_def)
qed

lemma apply_next_step_same:
  "apply_next_step repo =
     (case next_step repo of
        Inl e \<Rightarrow> (case get_target_ref repo of Some t \<Rightarrow> Inl (apply_unresolved_pin t) | None \<Rightarrow> Inl e)
      | Inr step \<Rightarrow> Inr step)"
proof -
  have newer: "(case base of None \<Rightarrow> True | Some b \<Rightarrow> version_key b < version_key t) = newer_than base t" for base t
    by (simp add: newer_than_def)
  have base: "(case current_tag repo of Some t \<Rightarrow> Some t | None \<Rightarrow> latest_ancestor_tag repo) = base_tag repo"
    by (simp add: base_tag_def)
  let ?decide = "\<lambda>message. let target = get_target_ref repo; sha = target_sha repo in
      if target \<noteq> None \<and> sha = None then Inl (message (the target))
      else if sha = Some (gr_head repo) then Inr None
      else bind_res (if target = None then get_prereleases_setting repo else Inr False) (\<lambda>prereleases.
        (let base = base_tag repo;
             newer = filter (newer_than base) (get_sorted_tags repo);
             later = (case sha of Some s \<Rightarrow> filter (\<lambda>t. is_ancestor repo t s) newer | None \<Rightarrow> newer);
             candidate = (if prereleases then newest_candidate repo else None)
         in case later of
              t # _ \<Rightarrow> Inr (Some t)
            | [] \<Rightarrow>
                if sha \<noteq> None then Inr target
                else (case candidate of
                    Some c \<Rightarrow> Inr (if newer_than base c then Some c else None)
                  | None \<Rightarrow> Inr None)))"
  have here: "next_step repo = ?decide unresolved_pin" by (simp only: next_step_def)
  have there: "apply_next_step repo = ?decide apply_unresolved_pin"
    by (simp only: apply_next_step_def apply_copies Let_def newer base target_sha_def)
  show ?thesis
  proof (cases "get_target_ref repo")
    case None
    then show ?thesis unfolding here there by (simp add: target_sha_def split: sum.splits)
  next
    case (Some target)
    then show ?thesis unfolding here there
      by (cases "resolve_ref_sha repo target") (simp_all add: target_sha_def Let_def split: list.splits)
  qed
qed

lemma version_tags_split:
  "filter P (filter is_version_tag ts) = [] \<longleftrightarrow> filter P (filter RELEASE_TAG ts) = [] \<and> filter P (filter RC_TAG ts) = []"
  by (auto simp: filter_empty_conv is_version_tag_def)

lemma sorted_tags_set: "set (get_sorted_tags repo) = {t \<in> fst ` set (gr_tags repo). RELEASE_TAG t}"
  by (auto simp: get_sorted_tags_def)

lemma last_sorted_tag:
  assumes "get_sorted_tags repo \<noteq> []"
  shows "last (get_sorted_tags repo) \<in> set (get_sorted_tags repo) \<and>
     (\<forall>t \<in> set (get_sorted_tags repo). version_key t \<le> version_key (last (get_sorted_tags repo)))"
proof -
  let ?ts = "get_sorted_tags repo"
  have sorted: "sorted (map version_key ?ts)" by (simp add: get_sorted_tags_def)
  obtain xs x where ts: "?ts = xs @ [x]" using assms by (metis rev_exhaust)
  with sorted show ?thesis by (auto simp: sorted_append)
qed

lemma newer_than_mono: "newer_than b t \<Longrightarrow> version_key t \<le> version_key u \<Longrightarrow> newer_than b u"
  by (auto simp: newer_than_def split: option.splits)

lemma current_tag_base: "current_tag repo = Some b \<Longrightarrow> base_tag repo = Some b"
  by (simp add: base_tag_def)

lemma newest_candidate_Some:
  "newest_candidate repo = Some c \<Longrightarrow>
     c \<in> fst ` set (gr_tags repo) \<and> RC_TAG c \<and> (\<forall>t \<in> fst ` set (gr_tags repo). RC_TAG t \<longrightarrow> version_key t \<le> version_key c)"
  using max_by_Some [of version_key "filter RC_TAG (map fst (gr_tags repo))" c] by (auto simp: newest_candidate_def)

lemma head_of_filter: "filter P xs = t # ts \<Longrightarrow> t \<in> set xs \<and> P t"
  by (metis filter_eq_Cons_iff in_set_conv_decomp)

lemma next_step_Some:
  assumes "next_step repo = Inr (Some t)"
  shows "target_sha repo \<noteq> Some (gr_head repo) \<and>
     (is_version_tag t \<and> t \<in> fst ` set (gr_tags repo) \<and> newer_than (base_tag repo) t
      \<or> get_target_ref repo = Some t \<and> target_sha repo \<noteq> None)"
  using assms
  by (auto simp: next_step_def Let_def res_simps is_version_tag_def sorted_tags_set dest!: head_of_filter
      dest: newest_candidate_Some split: if_splits list.splits option.splits)

text \<open>
  What the walk relies on: a version tag resolves to its own commit wherever HEAD is, so no branch of the
  remote has its name, and so does the pin to one commit.
\<close>

definition steady_refs :: "git_repo \<Rightarrow> bool" where
  "steady_refs repo \<longleftrightarrow>
     (\<forall>(t, c) \<in> set (gr_tags repo). is_version_tag t \<longrightarrow> (\<forall>h. resolve_ref_sha (repo\<lparr>gr_head := h\<rparr>) t = Some c)) \<and>
     (\<forall>target h. get_target_ref repo = Some target \<longrightarrow>
        resolve_ref_sha (repo\<lparr>gr_head := h\<rparr>) target = resolve_ref_sha repo target)"

definition destination_readable :: "git_repo \<Rightarrow> bool" where
  "destination_readable repo \<longleftrightarrow>
     (case get_target_ref repo of
        Some target \<Rightarrow> resolve_ref_sha repo target \<noteq> None
      | None \<Rightarrow> gr_prereleases repo \<noteq> Not_Bool)"

text \<open>How many hops are left at most.\<close>

definition hops_left :: "git_repo \<Rightarrow> nat" where
  "hops_left repo =
     (if target_sha repo = Some (gr_head repo) then 0
      else Suc (length (filter (newer_than (base_tag repo)) (filter is_version_tag (map fst (gr_tags repo))))))"

lemma head_moved [simp]:
  "get_target_ref (repo\<lparr>gr_head := h\<rparr>) = get_target_ref repo"
  "get_sorted_tags (repo\<lparr>gr_head := h\<rparr>) = get_sorted_tags repo"
  "newest_candidate (repo\<lparr>gr_head := h\<rparr>) = newest_candidate repo"
  "get_prereleases_setting (repo\<lparr>gr_head := h\<rparr>) = get_prereleases_setting repo"
  "tags_destination (repo\<lparr>gr_head := h\<rparr>) = tags_destination repo"
proof -
  show "get_target_ref (repo\<lparr>gr_head := h\<rparr>) = get_target_ref repo"
    "get_sorted_tags (repo\<lparr>gr_head := h\<rparr>) = get_sorted_tags repo"
    and newest: "newest_candidate (repo\<lparr>gr_head := h\<rparr>) = newest_candidate repo"
    and "get_prereleases_setting (repo\<lparr>gr_head := h\<rparr>) = get_prereleases_setting repo"
    by (simp_all add: get_target_ref_def get_sorted_tags_def newest_candidate_def get_prereleases_setting_def)
  then show "tags_destination (repo\<lparr>gr_head := h\<rparr>) = tags_destination repo"
    by (simp only: tags_destination_def)
qed

lemma steady_target:
  "steady_refs repo \<Longrightarrow> target_sha (repo\<lparr>gr_head := h\<rparr>) = target_sha repo"
  by (auto simp: steady_refs_def target_sha_def split: option.splits)

lemma steady_hop: "steady_refs repo \<Longrightarrow> steady_refs (repo\<lparr>gr_head := h\<rparr>)"
  by (simp add: steady_refs_def)

lemma readable_hop:
  "steady_refs repo \<Longrightarrow> destination_readable repo \<Longrightarrow> destination_readable (repo\<lparr>gr_head := h\<rparr>)"
  by (auto simp: steady_refs_def destination_readable_def split: option.splits)

lemma readable_next: "destination_readable repo \<Longrightarrow> \<exists>step. next_step repo = Inr step"
  by (auto simp: destination_readable_def next_step_def Let_def target_sha_def get_prereleases_setting_def
      split: option.splits list.splits git_bool.splits)

lemma tag_hop:
  assumes "steady_refs repo" and "is_version_tag t" and "t \<in> fst ` set (gr_tags repo)"
  obtains c b where "hop repo t = Some (repo\<lparr>gr_head := c\<rparr>)"
    and "base_tag (repo\<lparr>gr_head := c\<rparr>) = Some b" and "version_key t \<le> version_key b"
proof -
  obtain c where c: "(t, c) \<in> set (gr_tags repo)" using assms(3) by auto
  then have "\<forall>h. resolve_ref_sha (repo\<lparr>gr_head := h\<rparr>) t = Some c" using assms(1,2) unfolding steady_refs_def by blast
  from spec [OF this, of "gr_head repo"] have r: "resolve_ref_sha repo t = Some c" by simp
  have "t \<in> set (filter is_version_tag (points_at_head (repo\<lparr>gr_head := c\<rparr>)))"
    using c assms(2) by (force simp: points_at_head_def)
  moreover from this obtain b where b: "current_tag (repo\<lparr>gr_head := c\<rparr>) = Some b"
    unfolding current_tag_def by (metis empty_iff list.set(1) max_by_None not_None_eq)
  ultimately have "version_key t \<le> version_key b"
    using max_by_Some [OF b [unfolded current_tag_def]] by blast
  with r b that show ?thesis by (simp add: hop_def apply_copies current_tag_base)
qed

lemma fewer_newer:
  assumes "t \<in> set ts" and "newer_than base t" and "version_key t \<le> version_key b"
  shows "length (filter (newer_than (Some b)) ts) < length (filter (newer_than base) ts)"
proof -
  have imp: "newer_than base u" if "newer_than (Some b) u" for u
    by (rule newer_than_mono [OF assms(2)]) (use that assms(3) in \<open>simp add: newer_than_def\<close>)
  have "filter (newer_than (Some b)) ts = filter (newer_than (Some b)) (filter (newer_than base) ts)"
    using imp by (auto intro: filter_cong)
  moreover have "\<not> newer_than (Some b) t" using assms(3) by (simp add: newer_than_def)
  ultimately show ?thesis
    using length_filter_less [of t "filter (newer_than base) ts" "newer_than (Some b)"] assms(1,2) by simp
qed

text \<open>One hop of the walk: where it leads, and what stays.\<close>

lemma hop_progress:
  assumes "steady_refs repo" and "next_step repo = Inr (Some t)"
  obtains c where "hop repo t = Some (repo\<lparr>gr_head := c\<rparr>)"
    and "hops_left (repo\<lparr>gr_head := c\<rparr>) < hops_left repo"
    and "target_sha repo = Some c \<or>
      (newer_than (base_tag repo) t \<and>
       (\<forall>u. newer_than (base_tag (repo\<lparr>gr_head := c\<rparr>)) u \<longrightarrow> newer_than (base_tag repo) u \<and> version_key t < version_key u))"
proof -
  let ?ts = "filter is_version_tag (map fst (gr_tags repo))"
  note t = next_step_Some [OF assms(2)]
  from t consider (tag) "is_version_tag t" "t \<in> fst ` set (gr_tags repo)" "newer_than (base_tag repo) t"
    | (pin) "get_target_ref repo = Some t" "target_sha repo \<noteq> None" by blast
  then show thesis
  proof cases
    case tag
    obtain c b where hop: "hop repo t = Some (repo\<lparr>gr_head := c\<rparr>)"
      and b: "base_tag (repo\<lparr>gr_head := c\<rparr>) = Some b" "version_key t \<le> version_key b"
      using tag_hop [OF assms(1) tag(1,2)] by blast
    have "t \<in> set ?ts" using tag by auto
    from fewer_newer [OF this tag(3) b(2)] t
    have "hops_left (repo\<lparr>gr_head := c\<rparr>) < hops_left repo" by (simp add: hops_left_def b)
    moreover have "newer_than (base_tag repo) u \<and> version_key t < version_key u" if "newer_than (Some b) u" for u
      using that b(2) newer_than_mono [OF tag(3), of u] by (simp add: newer_than_def)
    ultimately show ?thesis using that [OF hop] tag(3) b(1) by auto
  next
    case pin
    then obtain sha where sha: "target_sha repo = Some sha" by blast
    with pin have "hop repo t = Some (repo\<lparr>gr_head := sha\<rparr>)" by (simp add: hop_def apply_copies target_sha_def)
    moreover have "target_sha (repo\<lparr>gr_head := sha\<rparr>) = Some sha" using steady_target [OF assms(1)] sha by simp
    ultimately show ?thesis using that [of sha] sha t by (simp add: hops_left_def)
  qed
qed

text \<open>The version tags among the hops: all of them, or all but the last when the walk ends on a pin.\<close>

definition tag_hops :: "git_repo \<Rightarrow> string list \<Rightarrow> string list" where
  "tag_hops repo steps = (case get_target_ref repo of None \<Rightarrow> steps | Some _ \<Rightarrow> butlast steps)"

lemma next_step_at_target: "target_sha repo = Some (gr_head repo) \<Longrightarrow> next_step repo = Inr None"
  by (auto simp: next_step_def Let_def target_sha_def split: option.splits)

lemma walk_ends:
  assumes "steady_refs repo" and "destination_readable repo" and "hops_left repo < n"
  shows "\<exists>steps h. walk n repo = Some (Inr (steps, repo\<lparr>gr_head := h\<rparr>)) \<and> next_step (repo\<lparr>gr_head := h\<rparr>) = Inr None \<and>
     (\<forall>t \<in> set (tag_hops repo steps). newer_than (base_tag repo) t) \<and>
     sorted_wrt (\<lambda>a b. version_key a < version_key b) (tag_hops repo steps)"
  using assms
proof (induction n arbitrary: repo)
  case (Suc n)
  obtain step where step: "next_step repo = Inr step" using readable_next [OF Suc.prems(2)] by blast
  then have copied: "apply_next_step repo = Inr step" by (simp add: apply_next_step_same)
  show ?case
  proof (cases step)
    case None
    with step copied show ?thesis
      by (intro exI [of _ "[]"] exI [of _ "gr_head repo"]) (simp add: tag_hops_def split: option.splits)
  next
    case (Some t)
    note t = step [unfolded Some]
    obtain c where c: "hop repo t = Some (repo\<lparr>gr_head := c\<rparr>)" "hops_left (repo\<lparr>gr_head := c\<rparr>) < hops_left repo"
      and after: "target_sha repo = Some c \<or> (newer_than (base_tag repo) t \<and>
        (\<forall>u. newer_than (base_tag (repo\<lparr>gr_head := c\<rparr>)) u \<longrightarrow> newer_than (base_tag repo) u \<and> version_key t < version_key u))"
      using hop_progress [OF Suc.prems(1) t] by metis
    have "hops_left (repo\<lparr>gr_head := c\<rparr>) < n" using c(2) Suc.prems(3) by simp
    from Suc.IH [OF steady_hop [OF Suc.prems(1)] readable_hop [OF Suc.prems(1,2)] this]
    obtain steps h where walk: "walk n (repo\<lparr>gr_head := c\<rparr>) = Some (Inr (steps, repo\<lparr>gr_head := h\<rparr>))"
      and "end": "next_step (repo\<lparr>gr_head := h\<rparr>) = Inr None"
      and newer: "\<forall>t \<in> set (tag_hops repo steps). newer_than (base_tag (repo\<lparr>gr_head := c\<rparr>)) t"
      and sorted: "sorted_wrt (\<lambda>a b. version_key a < version_key b) (tag_hops repo steps)"
      by (auto simp: tag_hops_def)
    have all: "walk (Suc n) repo = Some (Inr (t # steps, repo\<lparr>gr_head := h\<rparr>))" using copied Some c walk by simp
    show ?thesis
    proof (cases "target_sha repo = Some c")
      case True
      then have "next_step (repo\<lparr>gr_head := c\<rparr>) = Inr None"
        using steady_target [OF Suc.prems(1)] by (intro next_step_at_target) simp
      then have "apply_next_step (repo\<lparr>gr_head := c\<rparr>) = Inr None" by (simp add: apply_next_step_same)
      with walk have "steps = []" by (cases n) auto
      moreover have "get_target_ref repo \<noteq> None" using True by (auto simp: target_sha_def split: option.splits)
      ultimately show ?thesis using all "end" by (auto simp: tag_hops_def)
    next
      case False
      with after newer have "\<forall>u \<in> set (tag_hops repo steps). newer_than (base_tag repo) u \<and> version_key t < version_key u"
        by blast
      moreover have "tag_hops repo (t # steps) = t # tag_hops repo steps \<or> tag_hops repo (t # steps) = []"
        by (simp add: tag_hops_def split: option.splits)
      ultimately show ?thesis using all "end" sorted False after
        by (intro exI [of _ "t # steps"] exI [of _ h]) auto
    qed
  qed
qed simp

lemma next_step_tags:
  assumes "get_target_ref repo = None"
  shows "next_step repo = bind_res (get_prereleases_setting repo) (\<lambda>pre.
     Inr (case filter (newer_than (base_tag repo)) (get_sorted_tags repo) of
            t # _ \<Rightarrow> Some t
          | [] \<Rightarrow> (case (if pre then newest_candidate repo else None) of
                Some c \<Rightarrow> if newer_than (base_tag repo) c then Some c else None
              | None \<Rightarrow> None)))"
  using assms
  by (cases "get_prereleases_setting repo") (simp_all add: next_step_def target_sha_def Let_def split: list.split option.split)

lemma next_step_pinned:
  assumes "get_target_ref repo = Some target"
  shows "next_step repo =
     (case resolve_ref_sha repo target of
        None \<Rightarrow> Inl (unresolved_pin target)
      | Some sha \<Rightarrow> Inr (if gr_head repo = sha then None
          else Some (case filter (\<lambda>t. is_ancestor repo t sha) (filter (newer_than (base_tag repo)) (get_sorted_tags repo)) of
              t # _ \<Rightarrow> t | [] \<Rightarrow> target)))"
  using assms by (cases "resolve_ref_sha repo target") (auto simp: next_step_def target_sha_def Let_def split: list.split)

text \<open>The destination of the tags channel is newer than the host just when some release, or the candidate, is.\<close>

lemma destination_newer:
  assumes "get_prereleases_setting repo = Inr pre" and "tags_destination repo = Inr dest"
  shows "(\<exists>l. dest = Some l \<and> newer_than base l) \<longleftrightarrow>
     filter (newer_than base) (get_sorted_tags repo) \<noteq> [] \<or>
     (\<exists>c. pre \<and> newest_candidate repo = Some c \<and> newer_than base c)"
proof -
  let ?ts = "get_sorted_tags repo"
  define latest where "latest = (if ?ts = [] then None else Some (last ?ts))"
  define candidate where "candidate = (if pre then newest_candidate repo else None)"
  have dest: "dest = (case candidate of Some c \<Rightarrow> if newer_than latest c then Some c else latest | None \<Rightarrow> latest)"
    using assms(2) by (simp only: tags_destination_def assms(1) bind_res_simps Let_def latest_def candidate_def sum.inject)
  have release: "filter (newer_than base) ?ts \<noteq> [] \<longleftrightarrow> (\<exists>l. latest = Some l \<and> newer_than base l)"
    using last_sorted_tag [of repo] newer_than_mono [of base]
    by (cases "?ts = []") (auto simp: latest_def filter_empty_conv)
  have "(\<exists>l. dest = Some l \<and> newer_than base l) \<longleftrightarrow>
     (\<exists>l. latest = Some l \<and> newer_than base l) \<or> (\<exists>c. candidate = Some c \<and> newer_than base c)"
  proof (cases candidate)
    case (Some c)
    have "newer_than base c" if "newer_than latest c" "latest = Some l" "newer_than base l" for l
      using that newer_than_mono [of base l c] by (simp add: newer_than_def)
    moreover have "newer_than base l" if "\<not> newer_than latest c" "latest = Some l" "newer_than base c" for l
      using that newer_than_mono [of base c l] by (simp add: newer_than_def)
    moreover have "latest \<noteq> None" if "\<not> newer_than latest c" using that by (cases latest) (simp_all add: newer_than_def)
    ultimately show ?thesis using Some dest by auto
  qed (simp add: dest)
  then show ?thesis using release by (simp add: candidate_def split: if_splits)
qed

lemma next_step_None:
  assumes "next_step repo = Inr None"
  shows "case get_target_ref repo of
      Some target \<Rightarrow> resolve_ref_sha repo target = Some (gr_head repo)
    | None \<Rightarrow> \<forall>t \<in> fst ` set (gr_tags repo).
        RELEASE_TAG t \<or> RC_TAG t \<and> gr_prereleases repo = Git_Bool True \<longrightarrow> \<not> newer_than (base_tag repo) t"
proof (cases "get_target_ref repo")
  case None
  obtain pre where pre: "get_prereleases_setting repo = Inr pre"
    using assms unfolding next_step_tags [OF None] by (auto simp: res_simps)
  from assms have no_release: "filter (newer_than (base_tag repo)) (get_sorted_tags repo) = []"
    unfolding next_step_tags [OF None] pre by (simp split: list.splits)
  with assms have no_candidate: "\<not> newer_than (base_tag repo) c" if "pre" "newest_candidate repo = Some c" for c
    unfolding next_step_tags [OF None] pre using that by (simp split: if_splits)
  have "\<not> newer_than (base_tag repo) t" if "(t, c) \<in> set (gr_tags repo)" "RELEASE_TAG t" for t c
    using no_release that by (force simp: filter_empty_conv sorted_tags_set)
  moreover have "\<not> newer_than (base_tag repo) t"
    if t: "(t, c) \<in> set (gr_tags repo)" "RC_TAG t" and "gr_prereleases repo = Git_Bool True" for t c
  proof -
    have pre: pre using pre that(3) by (simp add: get_prereleases_setting_def)
    obtain m where m: "newest_candidate repo = Some m"
      using t by (cases "newest_candidate repo") (force simp: newest_candidate_def max_by_None filter_empty_conv)+
    have "version_key t \<le> version_key m" using newest_candidate_Some [OF m] t by force
    with no_candidate [OF pre m] show ?thesis using newer_than_mono by blast
  qed
  ultimately show ?thesis using None by auto
next
  case (Some target)
  with assms show ?thesis by (simp add: next_step_pinned split: option.splits if_splits)
qed

lemma fetch_and_step_agree:
  "fetch_state repo =
     (if gr_dirty repo then Inr ''DIRTY''
      else map_sum id (\<lambda>step. case step of None \<Rightarrow> ''UP_TO_DATE'' | Some _ \<Rightarrow> ''BEHIND_REMOTE'') (next_step repo)) \<and>
   map_sum (\<lambda>_. ()) id (apply_next_step repo) = map_sum (\<lambda>_. ()) id (next_step repo)"
proof
  show "map_sum (\<lambda>_. ()) id (apply_next_step repo) = map_sum (\<lambda>_. ()) id (next_step repo)"
    by (simp add: apply_next_step_same split: sum.split option.split)
  show "fetch_state repo =
     (if gr_dirty repo then Inr ''DIRTY''
      else map_sum id (\<lambda>step. case step of None \<Rightarrow> ''UP_TO_DATE'' | Some _ \<Rightarrow> ''BEHIND_REMOTE'') (next_step repo))"
  proof (cases "get_target_ref repo")
    case (Some target)
    then show ?thesis by (simp add: fetch_state_def next_step_pinned split: option.split)
  next
    case None
    show ?thesis
    proof (cases "get_prereleases_setting repo")
      case (Inl e)
      with None show ?thesis by (simp add: fetch_state_def next_step_tags tags_destination_def)
    next
      case (Inr pre)
      then obtain dest where dest: "tags_destination repo = Inr dest" by (simp add: tags_destination_def Let_def)
      have "fetch_state repo = (if gr_dirty repo then Inr ''DIRTY''
          else Inr (if \<exists>l. dest = Some l \<and> newer_than (base_tag repo) l then ''BEHIND_REMOTE'' else ''UP_TO_DATE''))"
        using None dest by (simp add: fetch_state_def newer_than_def split: option.split)
      then show ?thesis
        unfolding destination_newer [OF Inr dest] next_step_tags [OF None] Inr
        by (simp split: list.split option.split)
    qed
  qed
qed

section \<open>Properties\<close>

text \<open>C31. The dashboard and the walk agree: a clean host is told that it is behind exactly when the walk has a
  step to take, with the same error when there is no destination. And the copy of the decision in
  \<open>apply_after_checkout.py\<close> takes the same steps and raises in the same cases.
\<close>

theorem offered_iff_step:
  "fetch_state repo =
     (if gr_dirty repo then Inr ''DIRTY''
      else map_sum id (\<lambda>step. case step of None \<Rightarrow> ''UP_TO_DATE'' | Some _ \<Rightarrow> ''BEHIND_REMOTE'') (next_step repo)) \<and>
   map_sum (\<lambda>_. ()) id (apply_next_step repo) = map_sum (\<lambda>_. ()) id (next_step repo)"
  by (rule fetch_and_step_agree)

text \<open>C32. An update ends, at its destination. When version tags resolve to their own commits, the pin resolves
  and the prerelease setting is readable, the walk is over after at most as many hops as there are tags and
  two more. It moves HEAD and nothing else; the tags it stops at are all newer than where the host was, each
  newer than the one before; and at the end HEAD is at the pinned commit, or no release is newer than the
  host, and no candidate for a host that opted in.
\<close>

theorem walk_reaches_destination:
  assumes "steady_refs repo" and "destination_readable repo"
  shows "\<exists>steps h. walk (length (gr_tags repo) + 2) repo = Some (Inr (steps, repo\<lparr>gr_head := h\<rparr>)) \<and>
     (\<forall>t \<in> set (tag_hops repo steps). newer_than (base_tag repo) t) \<and>
     sorted_wrt (\<lambda>a b. version_key a < version_key b) (tag_hops repo steps) \<and>
     (case get_target_ref repo of
        Some target \<Rightarrow> resolve_ref_sha repo target = Some h
      | None \<Rightarrow> \<forall>t \<in> fst ` set (gr_tags repo).
          RELEASE_TAG t \<or> RC_TAG t \<and> gr_prereleases repo = Git_Bool True \<longrightarrow>
            \<not> newer_than (base_tag (repo\<lparr>gr_head := h\<rparr>)) t)"
proof -
  have "hops_left repo \<le> Suc (length (gr_tags repo))"
    by (auto simp: hops_left_def intro: order_trans [OF length_filter_le])
  then have "hops_left repo < length (gr_tags repo) + 2" by simp
  from walk_ends [OF assms this] obtain steps h where
    walk: "walk (length (gr_tags repo) + 2) repo = Some (Inr (steps, repo\<lparr>gr_head := h\<rparr>))"
    and over: "next_step (repo\<lparr>gr_head := h\<rparr>) = Inr None"
    and tags: "\<forall>t \<in> set (tag_hops repo steps). newer_than (base_tag repo) t"
      "sorted_wrt (\<lambda>a b. version_key a < version_key b) (tag_hops repo steps)" by blast
  have "resolve_ref_sha (repo\<lparr>gr_head := h\<rparr>) target = resolve_ref_sha repo target"
    if "get_target_ref repo = Some target" for target
    using assms(1) that by (simp add: steady_refs_def)
  then show ?thesis using walk tags next_step_None [OF over] by (auto split: option.splits)
qed

text \<open>
  A branch of the remote that has the name of a release keeps the walk from ending: resolving prefers the
  branch, so the host checks out its tip instead of the release, is no newer than before, and takes the same
  step again, for as long as it is let run.
\<close>

definition shadowed_release :: git_repo where
  "shadowed_release =
     \<lparr>gr_tags = [(''v1'', ''c1''), (''v2'', ''c3'')],
      gr_revision = (\<lambda>_. map_of [(''v1'', ''c1''), (''v2'', ''c3''), (''origin/v2'', ''c2'')]),
      gr_ancestor = (\<lambda>a d. a \<le> d), gr_log = (\<lambda>_ _. []), gr_head = ''c1'', gr_target_ref = None,
      gr_prereleases = Unset, gr_origin = Some ''https://example.org/repo'', gr_dirty = False\<rparr>"

lemma shadowed_step:
  "apply_next_step shadowed_release = Inr (Some ''v2'')"
  "apply_next_step (shadowed_release\<lparr>gr_head := ''c2''\<rparr>) = Inr (Some ''v2'')"
  by code_simp+

lemma shadowed_release_never_ends: "walk n shadowed_release = None"
proof -
  have loop: "walk n (shadowed_release\<lparr>gr_head := ''c2''\<rparr>) = None" for n
  proof (induction n)
    case (Suc n)
    then show ?case
      by (simp add: shadowed_step hop_def apply_resolve_ref_sha_def rev_parse_def)
        (simp add: shadowed_release_def)
  qed simp
  show ?thesis
  proof (cases n)
    case (Suc m)
    have "hop shadowed_release ''v2'' = Some (shadowed_release\<lparr>gr_head := ''c2''\<rparr>)"
      by (simp add: hop_def apply_resolve_ref_sha_def rev_parse_def) (simp add: shadowed_release_def)
    with Suc loop show ?thesis by (simp add: shadowed_step)
  qed simp
qed

section \<open>A concrete repository\<close>

definition demo_repo :: git_repo where
  "demo_repo =
     \<lparr>gr_tags = [(''nightly'', ''c4''), (''v1.0.0'', ''c1''), (''v1.2.0'', ''c3''), (''v1.2.0-rc.1'', ''c3''), (''v1.10'', ''c4'')],
      gr_revision = (\<lambda>_. map_of [(''nightly'', ''c4''), (''v1.0.0'', ''c1''), (''v1.2.0'', ''c3''), (''v1.2.0-rc.1'', ''c3''),
        (''v1.10'', ''c4''), (''origin/main'', ''c5'')]),
      gr_ancestor = (\<lambda>a d. a \<le> d), gr_log = (\<lambda>_ _. []), gr_head = ''c1'', gr_target_ref = None,
      gr_prereleases = Unset, gr_origin = Some ''https://example.org/repo'', gr_dirty = False\<rparr>"

lemma demo_walk:
  "map_option (map_sum id (\<lambda>(steps, repo). (steps, gr_head repo))) (walk 7 demo_repo) =
     Some (Inr ([''v1.2.0'', ''v1.10''], ''c4''))"
  by code_simp

lemma walk_reaches_destination_witness:
  "\<exists>steps h. walk 7 demo_repo = Some (Inr (steps, demo_repo\<lparr>gr_head := h\<rparr>))"
proof -
  have "steady_refs demo_repo"
    by (simp add: steady_refs_def demo_repo_def resolve_ref_sha_def rev_parse_def get_target_ref_def)
  moreover have "destination_readable demo_repo"
    by (simp add: destination_readable_def demo_repo_def get_target_ref_def)
  moreover have "length (gr_tags demo_repo) + 2 = 7" by (simp add: demo_repo_def)
  ultimately show ?thesis using walk_reaches_destination [of demo_repo] by auto
qed

end
