(* ===== verification/UpdateAgent.thy ===== *)
theory UpdateAgent
  imports ReleaseWalk Programs
begin

text \<open>
  The system agent, which runs as root beside the router: the progress log of an update
  (\<open>updater/progress.py\<close>), its transient systemd units (\<open>detach.py\<close>, \<open>updater/launcher.py\<close>), the migrations of
  the host (\<open>migrations/\<close>, \<open>status.py\<close>), the update itself (\<open>update.py\<close>, \<open>apply_after_checkout.py\<close>) and the
  remote it follows.
\<close>

section \<open>The state\<close>

record progress_entry =
  pe_ts :: string
  pe_phase :: string
  pe_message :: string
  pe_ref :: "string option"

text \<open>A line of the log: an entry, or a blank or half-written line.\<close>

datatype log_line = Logged progress_entry | Not_Json string

record migration_entry =
  me_version :: nat
  me_timestamp :: string
  me_success :: bool
  me_error :: "string option"

datatype migration_line = Migrated migration_entry | Malformed string

text \<open>
  The repository, the two logs, the token of the owner's tab, and the rest of the host, which commands and
  migrations change.
\<close>

record 'h agent =
  ag_repo :: git_repo
  ag_log :: "log_line list"
  ag_migrations :: "migration_line list"
  ag_token :: "string option"
  ag_host :: 'h

text \<open>
  Git, the operating system and systemd. A git command gives its error, if it fails, and the repository it
  leaves; \<open>ge_open\<close> is the error of opening the repository. \<open>ge_run\<close> is \<open>subprocess.run\<close> with its timeout; \<open>ge_writable root\<close> is whether root, or the host user,
  may write the progress log; \<open>ge_up v\<close> is the migration \<open>v\<close>, with the exception it raises.
\<close>

record 'h agent_env =
  ge_open :: "git_repo \<Rightarrow> string option"
  ge_fetch :: "git_repo \<Rightarrow> string option \<times> git_repo"
  ge_checkout :: "string \<Rightarrow> git_repo \<Rightarrow> string option \<times> git_repo"
  ge_clean :: "git_repo \<Rightarrow> string option \<times> git_repo"
  ge_run :: "string list \<Rightarrow> nat \<Rightarrow> 'h \<Rightarrow> run_result \<times> 'h"
  ge_which :: "string \<Rightarrow> 'h \<Rightarrow> string option"
  ge_path_exists :: "string \<Rightarrow> 'h \<Rightarrow> bool"
  ge_unlink :: "string \<Rightarrow> 'h \<Rightarrow> 'h"
  ge_writable :: "bool \<Rightarrow> 'h \<Rightarrow> bool"
  ge_chown_log :: "'h \<Rightarrow> 'h"
  ge_up :: "nat \<Rightarrow> 'h \<Rightarrow> string option \<times> 'h"
  ge_utc :: "'h \<Rightarrow> string"
  ge_now :: "'h \<Rightarrow> rat"
  ge_sleep :: "rat \<Rightarrow> 'h \<Rightarrow> 'h"
  ge_data_dir :: "string option"
  ge_home :: "string option"
  ge_python :: string
  ge_root :: bool
  ge_detached :: bool

text \<open>\<open>Still_Walking\<close> is the model's own: the fuel of a walk ran out.\<close>

datatype agent_exn = Failed_With string | Already_Running string | System_Exit nat | Still_Walking

fun exn_text :: "agent_exn \<Rightarrow> string" where
  "exn_text (Failed_With m) = m"
| "exn_text (Already_Running m) = m"
| "exn_text (System_Exit n) = show_nat n"
| "exn_text Still_Walking = []"

type_synonym ('h, 'a) action = "('h agent, agent_exn, 'a) prog"

definition on_host :: "('h \<Rightarrow> 'a \<times> 'h) \<Rightarrow> ('h, 'a) action" where
  "on_host f s = (let (a, h) = f (ag_host s) in (Inr a, s\<lparr>ag_host := h\<rparr>))"

definition running :: "'h agent_env \<Rightarrow> string list \<Rightarrow> nat \<Rightarrow> ('h, run_result) action" where
  "running E cmd timeout = on_host (ge_run E cmd timeout)"

text \<open>A git command that raises \<open>GitCommandError\<close> when it fails.\<close>

definition git_command :: "(git_repo \<Rightarrow> string option \<times> git_repo) \<Rightarrow> ('h, unit) action" where
  "git_command f s =
     (let (e, r) = f (ag_repo s)
      in (case e of None \<Rightarrow> Inr () | Some m \<Rightarrow> Inl (Failed_With m), s\<lparr>ag_repo := r\<rparr>))"

definition from_repo :: "(git_repo \<Rightarrow> string + 'a) \<Rightarrow> ('h, 'a) action" where
  "from_repo f s = (map_sum Failed_With id (f (ag_repo s)), s)"

section \<open>The progress log (\<open>updater/progress.py\<close>)\<close>

definition DONE :: string where "DONE = ''done''"
definition FAILED :: string where "FAILED = ''failed''"
definition RESTARTING :: string where "RESTARTING = ''restarting''"

definition ELLIPSIS :: string where "ELLIPSIS = [CHR 0xE2, CHR 0x80, CHR 0xA6]"

definition append_progress :: "'h agent_env \<Rightarrow> string \<Rightarrow> string \<Rightarrow> string option \<Rightarrow> 'h agent \<Rightarrow> 'h agent" where
  "append_progress E phase message ref s =
     s\<lparr>ag_log := ag_log s @ [Logged \<lparr>pe_ts = ge_utc E (ag_host s), pe_phase = phase, pe_message = message, pe_ref = ref\<rparr>],
       ag_host := (if ge_root E then ge_chown_log E (ag_host s) else ag_host s)\<rparr>"

text \<open>\<open>record\<close>, which tells whether the log could be written.\<close>

definition record_progress :: "'h agent_env \<Rightarrow> string \<Rightarrow> string \<Rightarrow> string option \<Rightarrow> ('h, bool) action" where
  "record_progress E phase message ref s =
     (if ge_writable E (ge_root E) (ag_host s) then (Inr True, append_progress E phase message ref s) else (Inr False, s))"

definition noting :: "'h agent_env \<Rightarrow> string \<Rightarrow> string \<Rightarrow> string option \<Rightarrow> ('h, unit) action" where
  "noting E phase message ref = and_then (record_progress E phase message ref) (\<lambda>_. returning ())"

definition reset_progress :: "'h agent_env \<Rightarrow> ('h, unit) action" where
  "reset_progress E s =
     (if ge_writable E (ge_root E) (ag_host s)
      then (Inr (), s\<lparr>ag_log := [], ag_host := (if ge_root E then ge_chown_log E (ag_host s) else ag_host s)\<rparr>)
      else (Inr (), s))"

fun logged_entry :: "log_line \<Rightarrow> progress_entry option" where
  "logged_entry (Logged e) = Some e"
| "logged_entry (Not_Json _) = None"

definition read_entries :: "log_line list \<Rightarrow> progress_entry list" where
  "read_entries ls = List.map_filter logged_entry ls"

definition last_phase :: "progress_entry list \<Rightarrow> string option" where
  "last_phase entries = (if entries = [] then None else Some (pe_phase (last entries)))"

definition is_terminal :: "progress_entry list \<Rightarrow> bool" where
  "is_terminal entries \<longleftrightarrow> last_phase entries = Some DONE \<or> last_phase entries = Some FAILED"

definition APPLY_UNIT :: string where "APPLY_UNIT = ''openhost-apply.service''"
definition OPENHOST_UNIT :: string where "OPENHOST_UNIT = ''openhost.service''"

definition ACTIVE_STATES :: "string list" where
  "ACTIVE_STATES = [''active'', ''activating'', ''deactivating'', ''reloading'']"

text \<open>\<open>detach.apply_is_running\<close>: a status that cannot be read counts as not running.\<close>

definition apply_is_running :: "'h agent_env \<Rightarrow> ('h, bool) action" where
  "apply_is_running E =
     and_then (running E [''systemctl'', ''show'', ''--property=ActiveState'', ''--value'', APPLY_UNIT] 15) (\<lambda>r.
       returning (case r of Completed _ out _ \<Rightarrow> py_strip out \<in> set ACTIVE_STATES | NotRun _ \<Rightarrow> False))"

definition mark_boot_complete :: "'h agent_env \<Rightarrow> ('h, bool) action" where
  "mark_boot_complete E =
     and_then (reading (\<lambda>s. read_entries (ag_log s))) (\<lambda>entries.
       if entries = [] \<or> is_terminal entries then returning True
       else if last_phase entries = Some RESTARTING then record_progress E DONE ''Instance is back online.'' None
       else and_then (apply_is_running E) (\<lambda>active.
         if active then returning True
         else record_progress E FAILED
           ''Update was interrupted before it finished. The instance restarted; try again.'' None))"

definition record_failure_if_not_terminal :: "'h agent_env \<Rightarrow> string \<Rightarrow> ('h, bool) action" where
  "record_failure_if_not_terminal E message =
     and_then (reading (\<lambda>s. read_entries (ag_log s))) (\<lambda>entries.
       if is_terminal entries \<or> (entries \<noteq> [] \<and> last_phase entries = Some RESTARTING) then returning True
       else record_progress E FAILED message None)"

section \<open>The units (\<open>detach.py\<close>, \<open>updater/launcher.py\<close>, \<open>reclaim.py\<close>)\<close>

definition agent_systemctl :: "'h agent_env \<Rightarrow> string list \<Rightarrow> nat \<Rightarrow> ('h, int \<times> string \<times> string) action" where
  "agent_systemctl E args timeout =
     and_then (running E (''systemctl'' # args) timeout) (\<lambda>r.
       case r of Completed rc out err \<Rightarrow> returning (rc, out, err) | NotRun m \<Rightarrow> raising (Failed_With m))"

definition exited :: "string \<Rightarrow> int \<Rightarrow> string \<Rightarrow> agent_exn" where
  "exited what rc err = Failed_With (what @ '' exited '' @ show_int rc @ '': '' @ py_strip err)"

definition stop_openhost :: "'h agent_env \<Rightarrow> ('h, unit) action" where
  "stop_openhost E =
     and_then (agent_systemctl E [''stop'', OPENHOST_UNIT] 120) (\<lambda>(rc, out, err).
       if rc = 0 \<or> contains_str (py_strip err) ''not loaded'' \<or> contains_str (py_strip err) ''not found''
       then returning ()
       else raising (exited (''systemctl stop '' @ OPENHOST_UNIT) rc err))"

definition reset_openhost_start_limit :: "'h agent_env \<Rightarrow> ('h, unit) action" where
  "reset_openhost_start_limit E =
     and_then (agent_systemctl E [''reset-failed'', OPENHOST_UNIT] 30) (\<lambda>(rc, out, err).
       if rc = 0 then returning () else raising (exited (''systemctl reset-failed '' @ OPENHOST_UNIT) rc err))"

definition start_openhost :: "'h agent_env \<Rightarrow> ('h, unit) action" where
  "start_openhost E =
     and_then (reset_openhost_start_limit E) (\<lambda>_.
     and_then (agent_systemctl E [''restart'', OPENHOST_UNIT] 120) (\<lambda>(rc, out, err).
       if rc = 0 then returning () else raising (exited (''systemctl restart '' @ OPENHOST_UNIT) rc err)))"

text \<open>What systemd does when the apply unit ends, however it ends; nothing looks at the results.\<close>

definition exec_stop_post :: "'h agent_env \<Rightarrow> ('h, unit) action" where
  "exec_stop_post E =
     and_then (running E [''systemctl'', ''reset-failed'', OPENHOST_UNIT] 90) (\<lambda>_.
     and_then (running E [''systemctl'', ''start'', ''--no-block'', OPENHOST_UNIT] 90) (\<lambda>_. returning ()))"

definition ENTRYPOINT :: string where
  "ENTRYPOINT =
     ''import sys; sys.argv=['' @ CHR 0x27 # ''openhost_system_agent'' @ CHR 0x27 # '','' @
     CHR 0x27 # ''update'' @ CHR 0x27 # '','' @ CHR 0x27 # ''apply'' @ CHR 0x27 # '']; '' @
     ''from openhost_system_agent.cli import main; main()''"

definition detach_command :: "'h agent_env \<Rightarrow> 'h \<Rightarrow> string list" where
  "detach_command E h =
     (let systemctl_path = (case non_empty (ge_which E ''systemctl'' h) of Some p \<Rightarrow> p | None \<Rightarrow> ''/usr/bin/systemctl'');
          home = (case non_empty (ge_home E) of Some d \<Rightarrow> d | None \<Rightarrow> ''/root'')
      in [''systemd-run'', ''--unit='' @ APPLY_UNIT, ''--description=Cloud in a Bottle update apply'', ''--collect'',
          ''--property=RuntimeMaxSec=3600'',
          ''--property=ExecStopPost=/bin/sh -c '' @ CHR 0x22 # systemctl_path @ '' reset-failed '' @ OPENHOST_UNIT @
            ''; '' @ systemctl_path @ '' start --no-block '' @ OPENHOST_UNIT @ [CHR 0x22],
          ''--setenv=OPENHOST_APPLY_DETACHED=1'', ''--setenv=HOME='' @ home] @
         (case non_empty (ge_data_dir E) of Some d \<Rightarrow> [''--setenv=OPENHOST_DATA_DIR='' @ d] | None \<Rightarrow> []) @
         [ge_python E, ''-c'', ENTRYPOINT])"

definition detach_apply :: "'h agent_env \<Rightarrow> ('h, unit) action" where
  "detach_apply E =
     and_then (reading ag_host) (\<lambda>h.
       if ge_which E ''systemd-run'' h = None
       then raising (Failed_With (
         ''systemd-run is not available, so the apply cannot be detached from openhost.service. '' @
         ''Re-running the ansible deploy will reinstall the expected host tooling.''))
       else and_then (running E (detach_command E h) 30) (\<lambda>r.
         case r of
           NotRun m \<Rightarrow> raising (Failed_With (''failed to launch '' @ APPLY_UNIT @ '': '' @ m))
         | Completed rc out err \<Rightarrow>
             if rc = 0 then returning ()
             else if contains_str (py_strip err) ''already exists''
             then raising (Already_Running ''An update is already in progress.'')
             else raising (exited (''systemd-run for '' @ APPLY_UNIT) rc err)))"

text \<open>
  Waiting with a deadline: another look every \<open>poll\<close> seconds. The fuel is the number of looks that fit before
  the deadline and one more.
\<close>

fun wait_loop :: "'h agent_env \<Rightarrow> ('h, bool) action \<Rightarrow> rat \<Rightarrow> rat \<Rightarrow> nat \<Rightarrow> ('h, bool) action" where
  "wait_loop E ready poll deadline 0 = returning False"
| "wait_loop E ready poll deadline (Suc n) =
     and_then (reading (\<lambda>s. ge_now E (ag_host s))) (\<lambda>now.
       if \<not> now < deadline then returning False
       else and_then ready (\<lambda>b. if b then returning True
         else and_then (on_host (\<lambda>h. ((), ge_sleep E poll h))) (\<lambda>_. wait_loop E ready poll deadline n)))"

definition wait_for_apply :: "'h agent_env \<Rightarrow> ('h, bool) action" where
  "wait_for_apply E =
     and_then (reading (\<lambda>s. ge_now E (ag_host s))) (\<lambda>now.
       wait_loop E (and_then (apply_is_running E) (\<lambda>b. returning (\<not> b))) 2 (now + 3600) 1801)"

definition ready_marker :: "'h agent_env \<Rightarrow> string" where
  "ready_marker E =
     path_join (path_join (case ge_data_dir E of
         Some d \<Rightarrow> d
       | None \<Rightarrow> ''/home/host/.openhost/local_compute_space/persistent_data/openhost'') ''updater'') ''serve.ready''"

definition stop_updater :: "'h agent_env \<Rightarrow> ('h, unit) action" where
  "stop_updater E =
     and_then (running E [''systemctl'', ''stop'', ''openhost-updater.service''] 10) (\<lambda>_.
       on_host (\<lambda>h. ((), ge_unlink E (ready_marker E) h)))"

definition updater_command :: "'h agent_env \<Rightarrow> string list" where
  "updater_command E =
     [''systemd-run'', ''--unit=openhost-updater.service'', ''--collect'', ''--property=Restart=on-failure'',
      ''--property=RestartSec=1''] @
     (case non_empty (ge_data_dir E) of Some d \<Rightarrow> [''--setenv=OPENHOST_DATA_DIR='' @ d] | None \<Rightarrow> []) @
     [ge_python E, ''-c'',
      ''import sys; sys.argv=['' @ CHR 0x27 # ''openhost_system_agent'' @ CHR 0x27 # '','' @
      CHR 0x27 # ''updater'' @ CHR 0x27 # '','' @ CHR 0x27 # ''serve'' @ CHR 0x27 # '']; '' @
      ''from openhost_system_agent.cli import main; main()'']"

definition launch_updater :: "'h agent_env \<Rightarrow> ('h, bool) action" where
  "launch_updater E =
     and_then (reading (\<lambda>s. ge_which E ''systemd-run'' (ag_host s))) (\<lambda>found.
       if found = None then returning False
       else and_then (stop_updater E) (\<lambda>_.
         and_then (on_host (\<lambda>h. ((), ge_unlink E (ready_marker E) h))) (\<lambda>_.
         and_then (running E (updater_command E) 15) (\<lambda>r.
           case r of
             NotRun _ \<Rightarrow> returning False
           | Completed rc _ _ \<Rightarrow>
               if rc \<noteq> 0 then returning False
               else and_then (reading (\<lambda>s. ge_now E (ag_host s))) (\<lambda>now.
                 and_then (wait_loop E (reading (\<lambda>s. ge_path_exists E (ready_marker E) (ag_host s))) (5 / 100) (now + 5) 101)
                   (\<lambda>_. returning True))))))"

definition HOST_PATHS :: "string list" where
  "HOST_PATHS = [''/home/host/openhost'', ''/home/host/.pixi'']"

definition reclaim_path :: "'h agent_env \<Rightarrow> string \<Rightarrow> ('h, unit) action" where
  "reclaim_path E path =
     and_then (reading (\<lambda>s. ge_path_exists E path (ag_host s))) (\<lambda>there.
       if \<not> there then returning ()
       else and_then (running E [''find'', path, ''('', ''!'', ''-user'', ''host'', ''-o'', ''!'', ''-group'', ''host'', '')'',
           ''-exec'', ''chown'', ''-h'', ''host:host'', ''{}'', ''+''] 120) (\<lambda>r.
         case r of
           Completed rc _ _ \<Rightarrow>
             if rc = 0 then returning () else raising (Failed_With (''find returned '' @ show_int rc))
         | NotRun m \<Rightarrow> raising (Failed_With m)))"

definition reclaim_host_ownership :: "'h agent_env \<Rightarrow> ('h, unit) action" where
  "reclaim_host_ownership E =
     (if \<not> ge_root E then raising (Failed_With ''reclaim_host_ownership must be run as root'')
      else for_each (reclaim_path E) HOST_PATHS)"

section \<open>Host migrations (\<open>migrations/\<close>, \<open>status.py\<close>)\<close>

definition MIGRATIONS_PATH :: string where "MIGRATIONS_PATH = ''/etc/openhost/migrations.jsonl''"

text \<open>The versions of the registry, in order: the class of each one is the \<open>ge_up\<close> of its version.\<close>

definition REGISTRY :: "nat list" where
  "REGISTRY = [2, 3, 4, 5, 6, 7, 8, 9, 10, 11, 12, 13, 14]"

definition validate_registry :: "nat list \<Rightarrow> agent_exn option" where
  "validate_registry registry =
     (if registry = [] \<or> registry = [2..<2 + length registry] then None
      else Some (Failed_With ''Migration registry is not strictly increasing and contiguous starting at 2''))"

definition latest_registry_version :: "nat list \<Rightarrow> nat" where
  "latest_registry_version registry = (if registry = [] then 1 else last registry)"

fun migration_of_line :: "migration_line \<Rightarrow> migration_entry option" where
  "migration_of_line (Migrated e) = Some e"
| "migration_of_line (Malformed _) = None"

definition read_log :: "migration_line list \<Rightarrow> migration_entry list" where
  "read_log ls = List.map_filter migration_of_line ls"

definition current_host_version :: "migration_entry list \<Rightarrow> nat" where
  "current_host_version entries =
     (case List.find me_success (rev entries) of Some e \<Rightarrow> me_version e | None \<Rightarrow> 0)"

definition append_entry :: "'h agent_env \<Rightarrow> nat \<Rightarrow> string option \<Rightarrow> ('h, unit) action" where
  "append_entry E version error =
     changing (\<lambda>s. s\<lparr>ag_migrations := ag_migrations s @
       [Migrated \<lparr>me_version = version, me_timestamp = ge_utc E (ag_host s), me_success = (error = None), me_error = error\<rparr>]\<rparr>)"

definition migrate_up :: "'h agent_env \<Rightarrow> nat \<Rightarrow> ('h, unit) action" where
  "migrate_up E version s =
     (let (e, h) = ge_up E version (ag_host s)
      in (case e of None \<Rightarrow> Inr () | Some m \<Rightarrow> Inl (Failed_With m), s\<lparr>ag_host := h\<rparr>))"

fun run_migrations :: "'h agent_env \<Rightarrow> nat list \<Rightarrow> nat \<Rightarrow> ('h, nat list) action" where
  "run_migrations E [] current = returning []"
| "run_migrations E (v # vs) current =
     (if v \<le> current then run_migrations E vs current
      else and_then (handling (migrate_up E v)
          (\<lambda>e. and_then (append_entry E v (Some (exn_text e))) (\<lambda>_. raising e))) (\<lambda>_.
        and_then (append_entry E v None) (\<lambda>_.
        and_then (run_migrations E vs v) (\<lambda>applied. returning (v # applied)))))"

definition apply_system_migrations :: "'h agent_env \<Rightarrow> nat list \<Rightarrow> ('h, nat list) action" where
  "apply_system_migrations E registry =
     and_then (unless_raised (validate_registry registry)) (\<lambda>_.
       if \<not> ge_root E then raising (Failed_With ''System migrations must be run as root'')
       else and_then (reading (\<lambda>s. current_host_version (read_log (ag_migrations s)))) (\<lambda>current.
         if current = 0 then raising (Failed_With (
           ''No migration history found at '' @ MIGRATIONS_PATH @ ''. '' @
           ''Run ansible setup.yml to bootstrap this host before applying migrations.''))
         else if latest_registry_version registry < current then raising (Failed_With (
           ''Host is at system version '' @ show_nat current @ '' but this code only knows up to '' @
           ''version '' @ show_nat (latest_registry_version registry) @
           ''. Upgrade the code before running migrations.''))
         else run_migrations E registry current))"

record migration_status =
  ms_ok :: bool
  ms_reason :: string
  ms_message :: string
  ms_current_host_version :: nat
  ms_expected_version :: nat

definition get_migration_status :: "migration_line list \<Rightarrow> migration_status" where
  "get_migration_status ls =
     (let expected = latest_registry_version REGISTRY;
          current = current_host_version (read_log ls);
          answer = (\<lambda>ok reason message. \<lparr>ms_ok = ok, ms_reason = reason, ms_message = message,
                      ms_current_host_version = current, ms_expected_version = expected\<rparr>)
      in if current = 0 then answer False ''missing''
           (''No migration history found at '' @ MIGRATIONS_PATH @ ''. This host must be '' @
            ''provisioned by `ansible-playbook ansible/setup.yml`.'')
         else if current < expected then answer False ''behind''
           (''Host is at system version '' @ show_nat current @ '' but this code requires version '' @ show_nat expected @
            ''. '' @ ''Run `sudo openhost_system_agent update apply` to apply pending system migrations.'')
         else if expected < current then answer False ''ahead''
           (''Host is at system version '' @ show_nat current @ '' but this code only knows up to version '' @
            show_nat expected @ ''. '' @ ''Upgrade the code to match the host.'')
         else answer True [] ''system version OK'')"

section \<open>Fetching and applying (\<open>update.py\<close>)\<close>

definition open_repo :: "'h agent_env \<Rightarrow> ('h, unit) action" where
  "open_repo E = git_command (\<lambda>r. (ge_open E r, r))"

definition get_remote :: "('h, string) action" where
  "get_remote =
     from_repo (\<lambda>r. case gr_origin r of Some url \<Rightarrow> Inr url
       | None \<Rightarrow> Inl (''remote '' @ CHR 0x27 # ''origin'' @ CHR 0x27 # '' is not set''))"

definition fetch_chown_host :: "'h agent_env \<Rightarrow> ('h, unit) action" where
  "fetch_chown_host E = finally_do (git_command (ge_fetch E)) (when_do (ge_root E) (reclaim_host_ownership E))"

definition fetch_updates :: "'h agent_env \<Rightarrow> ('h, string) action" where
  "fetch_updates E =
     and_then (open_repo E) (\<lambda>_. and_then get_remote (\<lambda>_. and_then (fetch_chown_host E) (\<lambda>_. from_repo fetch_state)))"

definition nothing_tagged :: "git_repo \<Rightarrow> bool" where
  "nothing_tagged repo \<longleftrightarrow>
     get_sorted_tags repo = [] \<and> newest_candidate repo = None \<and> get_target_ref repo = None"

definition or_ref :: "string option \<Rightarrow> string \<Rightarrow> string" where
  "or_ref sha ref = (case sha of Some s \<Rightarrow> s | None \<Rightarrow> ref)"

text \<open>The steps before the router goes down: they only read the repository and fetch.\<close>

definition preflight :: "'h agent_env \<Rightarrow> ('h, string option) action" where
  "preflight E =
     and_then (open_repo E) (\<lambda>_.
     and_then (reading (\<lambda>s. gr_dirty (ag_repo s))) (\<lambda>dirty.
       if dirty then raising (Failed_With ''Working tree has uncommitted changes. Stash or commit first.'')
       else and_then (noting E ''fetch'' (''Fetching latest code'' @ ELLIPSIS) None) (\<lambda>_.
         and_then (fetch_chown_host E) (\<lambda>_.
         and_then (reading (\<lambda>s. nothing_tagged (ag_repo s))) (\<lambda>none.
           if none then raising (Failed_With ''No tags found on remote. Tag a release first.'')
           else from_repo next_step)))))"

definition take_down :: "'h agent_env \<Rightarrow> ('h, unit) action" where
  "take_down E =
     and_then (launch_updater E) (\<lambda>_.
       handling (stop_openhost E) (\<lambda>e. and_then (stop_updater E) (\<lambda>_. raising e)))"

definition check_out_step :: "'h agent_env \<Rightarrow> string \<Rightarrow> ('h, unit) action" where
  "check_out_step E step =
     and_then (noting E ''checkout'' (''Checking out '' @ step @ ELLIPSIS) (Some step)) (\<lambda>_.
     and_then (reading (\<lambda>s. or_ref (resolve_ref_sha (ag_repo s) step) step)) (\<lambda>commit.
     and_then (git_command (ge_checkout E commit)) (\<lambda>_. git_command (ge_clean E))))"

definition report_and_raise :: "'h agent_env \<Rightarrow> agent_exn \<Rightarrow> ('h, 'a) action" where
  "report_and_raise E e = and_then (noting E FAILED (''Update failed: '' @ exn_text e) None) (\<lambda>_. raising e)"

text \<open>\<open>apply_update\<close>; where it returns, the code executes the apply file of what is checked out.\<close>

definition apply_update :: "'h agent_env \<Rightarrow> ('h, unit) action" where
  "apply_update E =
     handling
       (and_then (preflight E) (\<lambda>step.
        and_then (take_down E) (\<lambda>_.
          case step of None \<Rightarrow> returning () | Some t \<Rightarrow> check_out_step E t)))
       (report_and_raise E)"

definition start_apply :: "'h agent_env \<Rightarrow> bool \<Rightarrow> ('h, unit) action" where
  "start_apply E wait =
     (if ge_detached E then apply_update E
      else and_then (apply_is_running E) (\<lambda>active.
        if active then raising (Already_Running ''An update is already in progress.'')
        else and_then (reset_progress E) (\<lambda>_.
          and_then (handling (detach_apply E) (\<lambda>e.
            case e of
              Already_Running m \<Rightarrow> raising e
            | _ \<Rightarrow> report_and_raise E e)) (\<lambda>_.
          if \<not> wait then returning ()
          else and_then (wait_for_apply E) (\<lambda>over.
            if \<not> over then raising (Failed_With (APPLY_UNIT @ '' did not finish in time; see `journalctl -u '' @ APPLY_UNIT @ ''`''))
            else and_then (reading (\<lambda>s. read_entries (ag_log s))) (\<lambda>entries.
              if last_phase entries = Some FAILED
              then raising (Failed_With (if pe_message (last entries) = [] then ''the update failed'' else pe_message (last entries)))
              else returning ()))))))"

section \<open>One release's turn (\<open>apply_after_checkout.py\<close>)\<close>

definition PIXI_BIN :: string where "PIXI_BIN = ''/home/host/.pixi/bin/pixi''"

definition install_dependencies :: "'h agent_env \<Rightarrow> ('h, unit) action" where
  "install_dependencies E =
     and_then (running E [''sudo'', ''-u'', ''host'', ''-H'', PIXI_BIN, ''install''] 300) (\<lambda>r.
       case r of
         NotRun m \<Rightarrow> raising (Failed_With m)
       | Completed rc _ _ \<Rightarrow>
           if rc = 0 then returning ()
           else and_then (noting E FAILED (''Dependency install failed (exit '' @ show_int rc @ '').'') None) (\<lambda>_.
             raising (System_Exit 1)))"

definition apply_checkout :: "'h agent_env \<Rightarrow> string \<Rightarrow> ('h, unit) action" where
  "apply_checkout E nxt =
     and_then (noting E ''checkout'' (''Checking out '' @ nxt @ ELLIPSIS) (Some nxt)) (\<lambda>_.
     and_then (reading (\<lambda>s. or_ref (apply_resolve_ref_sha (ag_repo s) nxt) nxt)) (\<lambda>commit.
     and_then (git_command (ge_checkout E commit)) (\<lambda>_. git_command (ge_clean E))))"

text \<open>\<open>_apply\<close>, which answers whether it executes the next release instead of ending.\<close>

definition apply_here :: "'h agent_env \<Rightarrow> ('h, bool) action" where
  "apply_here E =
     and_then (reclaim_host_ownership E) (\<lambda>_.
     and_then (noting E ''migrate'' (''Applying system migrations'' @ ELLIPSIS) None) (\<lambda>_.
     and_then (apply_system_migrations E REGISTRY) (\<lambda>_.
     and_then (noting E ''install'' (''Installing dependencies'' @ ELLIPSIS) None) (\<lambda>_.
     and_then (install_dependencies E) (\<lambda>_.
     and_then (from_repo apply_next_step) (\<lambda>nxt.
       case nxt of
         Some t \<Rightarrow> and_then (apply_checkout E t) (\<lambda>_. returning True)
       | None \<Rightarrow>
           and_then (noting E RESTARTING (''Update complete. Starting'' @ ELLIPSIS) None) (\<lambda>_.
           and_then (start_openhost E) (\<lambda>_. returning False))))))))"

definition apply_main :: "'h agent_env \<Rightarrow> ('h, bool) action" where
  "apply_main E =
     handling (apply_here E) (\<lambda>e.
       case e of
         System_Exit n \<Rightarrow> raising e
       | _ \<Rightarrow> report_and_raise E e)"

text \<open>The walk, when each release on it has this release's apply file.\<close>

fun apply_walk :: "'h agent_env \<Rightarrow> nat \<Rightarrow> ('h, unit) action" where
  "apply_walk E 0 = raising Still_Walking"
| "apply_walk E (Suc n) = and_then (apply_main E) (\<lambda>again. if again then apply_walk E n else returning ())"

text \<open>The transient unit: the update, the walk it turns into, and what systemd does after either.\<close>

definition apply_unit :: "'h agent_env \<Rightarrow> nat \<Rightarrow> ('h, unit) action" where
  "apply_unit E fuel = finally_do (and_then (apply_update E) (\<lambda>_. apply_walk E fuel)) (exec_stop_post E)"

section \<open>Facts\<close>

lemma wp_agent [wp_simps]:
  "wp (on_host f) Q X s \<longleftrightarrow> (case f (ag_host s) of (a, h) \<Rightarrow> Q a (s\<lparr>ag_host := h\<rparr>))"
  "wp (running E cmd t) R X s \<longleftrightarrow> (case ge_run E cmd t (ag_host s) of (r, h) \<Rightarrow> R r (s\<lparr>ag_host := h\<rparr>))"
  "wp (git_command g) U X s \<longleftrightarrow>
     (case g (ag_repo s) of (None, r) \<Rightarrow> U () (s\<lparr>ag_repo := r\<rparr>) | (Some m, r) \<Rightarrow> X (Failed_With m) (s\<lparr>ag_repo := r\<rparr>))"
  "wp (from_repo d) W X s \<longleftrightarrow> (case d (ag_repo s) of Inl m \<Rightarrow> X (Failed_With m) s | Inr a \<Rightarrow> W a s)"
  by (simp_all add: wp_def on_host_def running_def git_command_def from_repo_def Let_def
      split: prod.splits option.splits sum.splits)

lemma wp_record_progress [wp_simps]:
  "wp (record_progress E phase m ref) Q X s \<longleftrightarrow>
     (if ge_writable E (ge_root E) (ag_host s) then Q True (append_progress E phase m ref s) else Q False s)"
  "wp (noting E phase m ref) U X s \<longleftrightarrow>
     (if ge_writable E (ge_root E) (ag_host s) then U () (append_progress E phase m ref s) else U () s)"
  by (simp_all add: wp_def record_progress_def noting_def and_then_def returning_def)

text \<open>
  Four frames: the repository is left alone, HEAD is, the progress log is, and whether openhost runs (\<open>up\<close>) is.
\<close>

definition repo_kept :: "'h agent \<Rightarrow> 'h agent \<Rightarrow> bool" where
  "repo_kept s t \<longleftrightarrow> ag_repo t = ag_repo s"

definition head_kept :: "'h agent \<Rightarrow> 'h agent \<Rightarrow> bool" where
  "head_kept s t \<longleftrightarrow> gr_head (ag_repo t) = gr_head (ag_repo s)"

definition log_kept :: "'h agent \<Rightarrow> 'h agent \<Rightarrow> bool" where
  "log_kept s t \<longleftrightarrow> ag_log t = ag_log s"

definition serving_kept :: "('h \<Rightarrow> bool) \<Rightarrow> 'h agent \<Rightarrow> 'h agent \<Rightarrow> bool" where
  "serving_kept up s t \<longleftrightarrow> up (ag_host t) = up (ag_host s)"

interpretation repo: state_frame repo_kept by unfold_locales (simp_all add: repo_kept_def)
interpretation head: state_frame head_kept by unfold_locales (simp_all add: head_kept_def)
interpretation progress: state_frame log_kept by unfold_locales (simp_all add: log_kept_def)
interpretation serving: state_frame "serving_kept up" for up by unfold_locales (simp_all add: serving_kept_def)

lemma repo_frame_basic [frame_intros]:
  "repo.frames (on_host f)" "repo.frames (running E cmd t)" "repo.frames (from_repo d)"
  "repo.frames (record_progress E phase m ref)" "repo.frames (reset_progress E)"
  "repo.frames (append_entry E v x)" "repo.frames (migrate_up E v)"
  by (simp_all add: repo.frames_def repo_kept_def on_host_def running_def from_repo_def record_progress_def
      append_progress_def reset_progress_def append_entry_def migrate_up_def changing_def Let_def split: prod.splits)

lemma log_frame_basic [frame_intros]:
  "progress.frames (on_host f)" "progress.frames (running E cmd t)" "progress.frames (from_repo d)"
  "progress.frames (git_command g)" "progress.frames (append_entry E v x)" "progress.frames (migrate_up E v)"
  by (simp_all add: progress.frames_def log_kept_def on_host_def running_def from_repo_def git_command_def
      append_entry_def migrate_up_def changing_def Let_def split: prod.splits)

lemma head_of_repo: "repo.frames p \<Longrightarrow> head.frames p"
  by (simp add: repo.frames_def head.frames_def repo_kept_def head_kept_def)

lemma noting_frames [frame_intros]: "repo.frames (noting E phase m ref)"
  unfolding noting_def by (intro frame_intros)

lemma frames_run_result [frame_intros]:
  "(\<And>rc out err. repo.frames (f rc out err)) \<Longrightarrow> (\<And>m. repo.frames (g m)) \<Longrightarrow> repo.frames (case_run_result f g r)"
  "(\<And>rc out err. progress.frames (f' rc out err)) \<Longrightarrow> (\<And>m. progress.frames (g' m)) \<Longrightarrow> progress.frames (case_run_result f' g' r)"
  "(\<And>rc out err. serving.frames up (f'' rc out err)) \<Longrightarrow> (\<And>m. serving.frames up (g'' m)) \<Longrightarrow>
     serving.frames up (case_run_result f'' g'' r)"
  by (cases r; simp)+

lemma frames_prod [frame_intros]:
  "(\<And>a b. repo.frames (f a b)) \<Longrightarrow> repo.frames (case x of (a, b) \<Rightarrow> f a b)"
  "(\<And>a b. progress.frames (g a b)) \<Longrightarrow> progress.frames (case x of (a, b) \<Rightarrow> g a b)"
  "(\<And>a b. serving.frames up (h a b)) \<Longrightarrow> serving.frames up (case x of (a, b) \<Rightarrow> h a b)"
  by (cases x; simp)+

lemma agent_systemctl_frames [frame_intros]:
  "repo.frames (agent_systemctl E args t)" "progress.frames (agent_systemctl E args t)"
  unfolding agent_systemctl_def by (intro frame_intros)+

lemma service_frames [frame_intros]:
  "repo.frames (stop_openhost E)" "repo.frames (start_openhost E)" "repo.frames (exec_stop_post E)"
  "progress.frames (stop_openhost E)" "progress.frames (start_openhost E)" "progress.frames (exec_stop_post E)"
  unfolding stop_openhost_def start_openhost_def reset_openhost_start_limit_def exec_stop_post_def
  by (intro frame_intros)+

lemma wait_loop_frames [frame_intros]:
  "repo.frames r \<Longrightarrow> repo.frames (wait_loop E r poll deadline n)"
  "progress.frames r \<Longrightarrow> progress.frames (wait_loop E r poll deadline n)"
  "serving.frames up r \<Longrightarrow> (\<And>h. up (ge_sleep E poll h) = up h) \<Longrightarrow> serving.frames up (wait_loop E r poll deadline n)"
proof (induction n)
  case (Suc n)
  have "serving.frames up (on_host (\<lambda>h. ((), ge_sleep E poll h)))" if "\<And>h. up (ge_sleep E poll h) = up h"
    using that by (simp add: serving.frames_def serving_kept_def on_host_def)
  with Suc show
    "repo.frames r \<Longrightarrow> repo.frames (wait_loop E r poll deadline (Suc n))"
    "progress.frames r \<Longrightarrow> progress.frames (wait_loop E r poll deadline (Suc n))"
    "serving.frames up r \<Longrightarrow> (\<And>h. up (ge_sleep E poll h) = up h) \<Longrightarrow>
       serving.frames up (wait_loop E r poll deadline (Suc n))"
    by (simp_all add: frame_intros)
qed (simp_all add: frame_intros)

lemma updater_frames [frame_intros]:
  "repo.frames (stop_updater E)" "repo.frames (launch_updater E)"
  "progress.frames (stop_updater E)" "progress.frames (launch_updater E)"
  unfolding stop_updater_def launch_updater_def by (intro frame_intros)+

lemma reclaim_frames [frame_intros]:
  "repo.frames (reclaim_host_ownership E)" "progress.frames (reclaim_host_ownership E)"
  unfolding reclaim_host_ownership_def reclaim_path_def by (intro frame_intros)+

lemma migrations_frames [frame_intros]:
  "repo.frames (run_migrations E vs c)" "progress.frames (run_migrations E vs c)"
  by (induction E vs c rule: run_migrations.induct) (simp_all add: frame_intros)

lemma apply_migrations_frames [frame_intros]:
  "repo.frames (apply_system_migrations E registry)" "progress.frames (apply_system_migrations E registry)"
  unfolding apply_system_migrations_def by (intro frame_intros)+

lemma take_down_frames [frame_intros]: "repo.frames (take_down E)" "progress.frames (take_down E)"
  unfolding take_down_def by (intro frame_intros)+

lemma install_frames [frame_intros]: "repo.frames (install_dependencies E)"
  unfolding install_dependencies_def by (intro frame_intros)

section \<open>The router goes down before the tree changes\<close>

text \<open>
  What is relied on: fetching leaves HEAD where it is; a stop that succeeded, or that found no such unit, means
  that openhost does not run; and the agent's other commands neither start nor stop it.
\<close>

definition find_misowned :: "string \<Rightarrow> string list" where
  "find_misowned path =
     [''find'', path, ''('', ''!'', ''-user'', ''host'', ''-o'', ''!'', ''-group'', ''host'', '')'', ''-exec'', ''chown'',
      ''-h'', ''host:host'', ''{}'', ''+'']"

definition fetch_law :: "'h agent_env \<Rightarrow> bool" where
  "fetch_law E \<longleftrightarrow> (\<forall>r. gr_head (snd (ge_fetch E r)) = gr_head r)"

definition service_law :: "'h agent_env \<Rightarrow> ('h \<Rightarrow> bool) \<Rightarrow> bool" where
  "service_law E up \<longleftrightarrow>
     (\<forall>t h rc out err h'. ge_run E [''systemctl'', ''stop'', OPENHOST_UNIT] t h = (Completed rc out err, h') \<longrightarrow>
        rc = 0 \<or> contains_str (py_strip err) ''not loaded'' \<or> contains_str (py_strip err) ''not found'' \<longrightarrow> \<not> up h') \<and>
     (\<forall>t h. up (snd (ge_run E [''systemctl'', ''stop'', ''openhost-updater.service''] t h)) = up h) \<and>
     (\<forall>t h. up (snd (ge_run E (updater_command E) t h)) = up h) \<and>
     (\<forall>path t h. up (snd (ge_run E (find_misowned path) t h)) = up h) \<and>
     (\<forall>h. up (ge_chown_log E h) = up h) \<and>
     (\<forall>path h. up (ge_unlink E path h) = up h) \<and>
     (\<forall>d h. up (ge_sleep E d h) = up h)"

lemma serving_frame_basic [frame_intros]:
  "serving.frames up (git_command g)" "serving.frames up (from_repo d)"
  "(\<And>h. up (snd (f h)) = up h) \<Longrightarrow> serving.frames up (on_host f)"
  by (simp_all add: serving.frames_def serving_kept_def git_command_def from_repo_def on_host_def Let_def case_prod_beta)

lemma serving_running:
  "(\<And>h. up (snd (ge_run E cmd t h)) = up h) \<Longrightarrow> serving.frames up (running E cmd t)"
  unfolding running_def by (rule serving_frame_basic)

lemma serving_noting:
  assumes "service_law E up"
  shows "serving.frames up (noting E phase m ref)"
proof -
  have "up (ge_chown_log E h) = up h" for h using assms by (simp add: service_law_def)
  then have "serving.frames up (record_progress E phase m ref)"
    by (simp add: serving.frames_def serving_kept_def record_progress_def append_progress_def)
  then show ?thesis unfolding noting_def by (intro frame_intros)
qed

lemma serving_stop_updater: "service_law E up \<Longrightarrow> serving.frames up (stop_updater E)"
  unfolding stop_updater_def
  by (intro frame_intros serving_running) (simp_all add: service_law_def)

lemma serving_launch_updater: "service_law E up \<Longrightarrow> serving.frames up (launch_updater E)"
  unfolding launch_updater_def
  by (intro frame_intros serving_running serving_stop_updater) (simp_all add: service_law_def)

lemma serving_reclaim: "service_law E up \<Longrightarrow> serving.frames up (reclaim_host_ownership E)"
  unfolding reclaim_host_ownership_def reclaim_path_def
  by (intro frame_intros serving_running) (simp_all add: service_law_def find_misowned_def)

lemma serving_preflight: "service_law E up \<Longrightarrow> serving.frames up (preflight E)"
  unfolding preflight_def open_repo_def fetch_chown_host_def
  by (intro frame_intros serving_noting serving_reclaim)

lemma serving_check_out: "service_law E up \<Longrightarrow> serving.frames up (check_out_step E t)"
  unfolding check_out_step_def by (intro frame_intros serving_noting)

lemma take_down_stops:
  assumes "service_law E up"
  shows "wp (take_down E) (\<lambda>_ t. \<not> up (ag_host t)) (\<lambda>_ _. True) s"
proof -
  have stop: "wp (stop_openhost E) (\<lambda>_ t. \<not> up (ag_host t)) (\<lambda>_ _. True) t" for t
    using assms by (auto simp: stop_openhost_def agent_systemctl_def wp_simps service_law_def split: prod.splits run_result.splits)
  have fall: "wp (and_then (stop_updater E) (\<lambda>_. raising e)) (\<lambda>_ t. \<not> up (ag_host t)) (\<lambda>_ _. True) t" for e t
    unfolding wp_and_then by (rule wp_mono [OF wp_total]) (simp_all add: wp_basic)
  have "wp (handling (stop_openhost E) (\<lambda>e. and_then (stop_updater E) (\<lambda>_. raising e)))
      (\<lambda>_ t. \<not> up (ag_host t)) (\<lambda>_ _. True) t" for t
    unfolding wp_handling by (rule wp_mono [OF stop]) (simp_all add: fall)
  then show ?thesis
    unfolding take_down_def by (intro wp_seq [where I = "\<lambda>_. True"]) (simp_all add: wp_total)
qed

lemma preflight_keeps_head:
  assumes "fetch_law E"
  shows "head.frames (preflight E)"
proof -
  have "head.frames (git_command (\<lambda>r. (ge_open E r, r)))" "head.frames (git_command (ge_fetch E))"
    using assms by (simp_all add: head.frames_def head_kept_def git_command_def fetch_law_def case_prod_beta)
  moreover have "head.frames (noting E phase m ref)" "head.frames (from_repo d)" "head.frames (reclaim_host_ownership E)"
    for phase m ref and d :: "git_repo \<Rightarrow> string + 'x"
    by (intro head_of_repo frame_intros)+
  ultimately show ?thesis
    unfolding preflight_def open_repo_def fetch_chown_host_def by (intro frame_intros)
qed

text \<open>Where \<open>apply_update\<close> ends: at a failed check, at a failed stop, or past the stop.\<close>

lemma noting_returns: "noting E phase m ref s = (Inr (), snd (noting E phase m ref s))"
  by (simp add: noting_def and_then_def record_progress_def returning_def)

definition report_failure :: "'h agent_env \<Rightarrow> agent_exn \<Rightarrow> 'h agent \<Rightarrow> 'h agent" where
  "report_failure E e s = snd (noting E FAILED (''Update failed: '' @ exn_text e) None s)"

lemma reporting: "report_and_raise E e s = (Inl e, report_failure E e s)"
  unfolding report_and_raise_def
  by (subst and_then_def, subst noting_returns) (simp add: raising_def report_failure_def)

lemma report_failure_facts:
  "ag_repo (report_failure E e s) = ag_repo s"
  "service_law E up \<Longrightarrow> up (ag_host (report_failure E e s)) = up (ag_host s)"
  using noting_frames [of E FAILED "''Update failed: '' @ exn_text e" None]
    serving_noting [of E up FAILED "''Update failed: '' @ exn_text e" None]
  by (simp_all add: report_failure_def repo.frames_def repo_kept_def serving.frames_def serving_kept_def)

lemma apply_update_cases:
  assumes "apply_update E s = (r, s')"
  obtains (check) e s1 where "preflight E s = (Inl e, s1)" "r = Inl e" "s' = report_failure E e s1"
  | (stop) step s1 e s2 where "preflight E s = (Inr step, s1)" "take_down E s1 = (Inl e, s2)" "r = Inl e" "s' = report_failure E e s2"
  | (down) step s1 s2 s3 where "preflight E s = (Inr step, s1)" "take_down E s1 = (Inr (), s2)"
      "s3 = snd ((case step of None \<Rightarrow> returning () | Some t \<Rightarrow> check_out_step E t) s2)"
      "s' = s3 \<or> (\<exists>e. s' = report_failure E e s3)"
proof -
  obtain p s1 where p: "preflight E s = (p, s1)" by force
  obtain q s2 where q: "take_down E s1 = (q, s2)" by force
  obtain c s3 where c: "(case the (Some (projr p)) of None \<Rightarrow> returning () | Some t \<Rightarrow> check_out_step E t) s2 = (c, s3)" by force
  show thesis
  proof (cases p)
    case (Inl e)
    with p assms check show ?thesis by (simp add: apply_update_def handling_def and_then_def [of "preflight E"] reporting)
  next
    case p': (Inr step)
    show ?thesis
    proof (cases q)
      case (Inl e)
      have "apply_update E s = (Inl e, report_failure E e s2)"
        using p p' q Inl
        by (simp add: apply_update_def handling_def and_then_def [of "preflight E"] and_then_def [of "take_down E"] reporting)
      with assms have "r = Inl e" "s' = report_failure E e s2" by simp_all
      with stop [of step s1 e s2] p p' q Inl show ?thesis by simp
    next
      case (Inr u)
      then have "s' = s3 \<or> (\<exists>e. s' = report_failure E e s3)"
        using p p' q c assms
        by (cases c) (auto simp: apply_update_def handling_def and_then_def [of "preflight E"] and_then_def [of "take_down E"] reporting)
      with Inr p p' q c down show ?thesis by auto
    qed
  qed
qed

text \<open>C33. An update that cannot go ahead costs no downtime, and the tree only changes under a router that is down.
  If a check before the shutdown fails (a dirty tree, an unreachable remote, nothing tagged, a pin that does
  not resolve) the update raises that failure with HEAD where it was and openhost running if it ran. However
  \<open>apply_update\<close> ends, if HEAD has moved then openhost is stopped.
\<close>

theorem tree_changes_only_while_down:
  assumes "fetch_law E" and "service_law E up" and run: "apply_update E s = (r, s')"
  shows "(case preflight E s of
       (Inl e, _) \<Rightarrow> r = Inl e \<and> gr_head (ag_repo s') = gr_head (ag_repo s) \<and> up (ag_host s') = up (ag_host s)
     | _ \<Rightarrow> True) \<and>
     (gr_head (ag_repo s') \<noteq> gr_head (ag_repo s) \<longrightarrow> \<not> up (ag_host s'))"
proof -
  have before: "gr_head (ag_repo s1) = gr_head (ag_repo s) \<and> up (ag_host s1) = up (ag_host s)"
    if "preflight E s = (p, s1)" for p s1
    using head.framesD [OF preflight_keeps_head [OF assms(1)] that] serving.framesD [OF serving_preflight [OF assms(2)] that]
    by (simp add: head_kept_def serving_kept_def)
  note report = report_failure_facts(1) report_failure_facts(2) [OF assms(2)]
  from run show ?thesis
  proof (cases rule: apply_update_cases)
    case check
    then show ?thesis using before by (simp add: report)
  next
    case stop
    then show ?thesis using before repo.framesD [OF take_down_frames(1) stop(2)] by (simp add: report repo_kept_def)
  next
    case (down step s1 s2 s3)
    have "\<not> up (ag_host s2)"
      using wp_outcome [OF take_down_stops [OF assms(2)] down(2)] by simp
    moreover have "serving.frames up (case step of None \<Rightarrow> returning () | Some t \<Rightarrow> check_out_step E t)"
      using assms(2) by (cases step) (simp_all add: frame_intros serving_check_out)
    ultimately have "\<not> up (ag_host s3)" by (simp add: down(3) serving.frames_def serving_kept_def)
    then show ?thesis using down(1,4) by (auto simp: report)
  qed
qed

section \<open>How an update ends\<close>

text \<open>
  What is relied on of git: a checkout that succeeds leaves HEAD at the commit that was named, and neither it
  nor cleaning the tree changes anything else of the repository but whether it is dirty; a commit id names
  its commit.
\<close>

definition checkout_law :: "'h agent_env \<Rightarrow> bool" where
  "checkout_law E \<longleftrightarrow>
     (\<forall>x r r'. ge_checkout E x r = (None, r') \<longrightarrow>
        (\<exists>c d. rev_parse r x = Some c \<and> r' = r\<lparr>gr_head := c, gr_dirty := d\<rparr>)) \<and>
     (\<forall>r r'. ge_clean E r = (None, r') \<longrightarrow> (\<exists>d. r' = r\<lparr>gr_dirty := d\<rparr>))"

definition commit_ids :: "git_repo \<Rightarrow> bool" where
  "commit_ids repo \<longleftrightarrow> (\<forall>h x c. gr_revision repo h x = Some c \<longrightarrow> gr_revision repo h c = Some c)"

definition can_log :: "'h agent_env \<Rightarrow> bool" where
  "can_log E \<longleftrightarrow> (\<forall>h. ge_writable E (ge_root E) h)"

definition phase_of :: "'h agent \<Rightarrow> string option" where
  "phase_of s = last_phase (read_entries (ag_log s))"

lemma phase_of_append [simp]: "phase_of (append_progress E phase m ref s) = Some phase"
  by (simp add: phase_of_def append_progress_def read_entries_def map_filter_def last_phase_def)

lemma repo_of_append [simp]: "ag_repo (append_progress E phase m ref s) = ag_repo s"
  by (simp add: append_progress_def)

lemma phase_of_frame: "log_kept s t \<Longrightarrow> phase_of t = phase_of s"
  by (simp add: log_kept_def phase_of_def)

lemma dirty_parts:
  "get_target_ref (repo\<lparr>gr_dirty := d\<rparr>) = get_target_ref repo"
  "resolve_ref_sha (repo\<lparr>gr_dirty := d\<rparr>) x = resolve_ref_sha repo x"
  "target_sha (repo\<lparr>gr_dirty := d\<rparr>) = target_sha repo"
  "base_tag (repo\<lparr>gr_dirty := d\<rparr>) = base_tag repo"
  "get_sorted_tags (repo\<lparr>gr_dirty := d\<rparr>) = get_sorted_tags repo"
  "newest_candidate (repo\<lparr>gr_dirty := d\<rparr>) = newest_candidate repo"
  "get_prereleases_setting (repo\<lparr>gr_dirty := d\<rparr>) = get_prereleases_setting repo"
  "is_ancestor (repo\<lparr>gr_dirty := d\<rparr>) = is_ancestor repo"
  by (simp_all add: fun_eq_iff get_target_ref_def resolve_ref_sha_def target_sha_def base_tag_def current_tag_def
      latest_ancestor_tag_def points_at_head_def merged_into_head_def get_sorted_tags_def newest_candidate_def
      get_prereleases_setting_def is_ancestor_def rev_parse_def split: option.split)

lemma dirty_irrelevant [simp]:
  "next_step (repo\<lparr>gr_dirty := d\<rparr>) = next_step repo" "steady_refs (repo\<lparr>gr_dirty := d\<rparr>) = steady_refs repo"
  "commit_ids (repo\<lparr>gr_dirty := d\<rparr>) = commit_ids repo" "commit_ids (repo\<lparr>gr_head := h\<rparr>) = commit_ids repo"
  "hops_left (repo\<lparr>gr_dirty := d\<rparr>) = hops_left repo"
proof -
  have "gr_head (repo\<lparr>gr_dirty := d\<rparr>) = gr_head repo" by simp
  then show "next_step (repo\<lparr>gr_dirty := d\<rparr>) = next_step repo" by (simp only: next_step_def dirty_parts)
  have "resolve_ref_sha (repo\<lparr>gr_dirty := d, gr_head := h\<rparr>) x = resolve_ref_sha (repo\<lparr>gr_head := h\<rparr>) x" for h x
    by (simp add: resolve_ref_sha_def rev_parse_def split: option.split)
  then show "steady_refs (repo\<lparr>gr_dirty := d\<rparr>) = steady_refs repo" by (simp add: steady_refs_def dirty_parts)
  show "hops_left (repo\<lparr>gr_dirty := d\<rparr>) = hops_left repo" by (simp add: hops_left_def dirty_parts)
qed (simp_all add: commit_ids_def)

text \<open>Everything but one step raises plain exceptions.\<close>

definition plain :: "agent_exn \<Rightarrow> bool" where
  "plain e \<longleftrightarrow> (case e of Failed_With _ \<Rightarrow> True | _ \<Rightarrow> False)"

definition raises_plain :: "('h, 'a) action \<Rightarrow> bool" where
  "raises_plain p \<longleftrightarrow> (\<forall>s e t. p s = (Inl e, t) \<longrightarrow> plain e)"

named_theorems plain_intros \<open>one lemma per construct: it raises plain exceptions\<close>

lemma plain_basic [plain_intros]:
  "raises_plain (returning a)" "raises_plain (reading f)" "raises_plain (on_host g)" "raises_plain (running E cmd n)"
  "raises_plain (git_command c)" "raises_plain (from_repo d)" "raises_plain (noting E phase m ref)"
  "raises_plain (append_entry E v x)" "raises_plain (migrate_up E v)" "raises_plain (raising (Failed_With msg))"
  "raises_plain (raising (exited what rc err))"
  by (auto simp: raises_plain_def plain_def returning_def reading_def on_host_def running_def git_command_def
      from_repo_def noting_def record_progress_def and_then_def append_entry_def changing_def migrate_up_def
      raising_def exited_def Let_def map_sum_def split: prod.splits option.splits if_splits sum.splits)

lemma plain_and_then [plain_intros]:
  "raises_plain p \<Longrightarrow> (\<And>a. raises_plain (f a)) \<Longrightarrow> raises_plain (and_then p f)"
  unfolding raises_plain_def and_then_def by (fastforce split: prod.splits sum.splits)

lemma plain_handling [plain_intros]:
  "raises_plain p \<Longrightarrow> (\<And>e. plain e \<Longrightarrow> raises_plain (h e)) \<Longrightarrow> raises_plain (handling p h)"
  unfolding raises_plain_def handling_def by (fastforce split: prod.splits sum.splits)

lemma plain_finally_do [plain_intros]: "raises_plain p \<Longrightarrow> raises_plain q \<Longrightarrow> raises_plain (finally_do p q)"
  unfolding raises_plain_def finally_do_def by (fastforce split: prod.splits sum.splits)

lemma plain_choices [plain_intros]:
  "(b \<Longrightarrow> raises_plain p) \<Longrightarrow> (\<not> b \<Longrightarrow> raises_plain q) \<Longrightarrow> raises_plain (if b then p else q)"
  "raises_plain p' \<Longrightarrow> raises_plain (when_do b p')"
  "plain e \<Longrightarrow> raises_plain (raising e)"
  "(\<And>rc out err. raises_plain (f rc out err)) \<Longrightarrow> (\<And>m. raises_plain (g m)) \<Longrightarrow> raises_plain (case_run_result f g r)"
  "(\<And>a b. raises_plain (k a b)) \<Longrightarrow> raises_plain (case z of (a, b) \<Rightarrow> k a b)"
proof -
  show "raises_plain (case_run_result f g r)" if "\<And>rc out err. raises_plain (f rc out err)" "\<And>m. raises_plain (g m)"
    using that by (cases r) simp_all
  show "raises_plain (case z of (a, b) \<Rightarrow> k a b)" if "\<And>a b. raises_plain (k a b)"
    using that by (cases z) simp
qed (simp_all add: when_do_def plain_basic, simp add: raises_plain_def raising_def)

lemma plain_for_each [plain_intros]: "(\<And>x. raises_plain (f x)) \<Longrightarrow> raises_plain (for_each f xs)"
  by (induction xs) (auto intro: plain_intros)

lemma plain_actions [plain_intros]:
  "raises_plain (stop_openhost E)" "raises_plain (start_openhost E)" "raises_plain (reclaim_host_ownership E)"
  "raises_plain (stop_updater E)"
  unfolding stop_openhost_def start_openhost_def reset_openhost_start_limit_def agent_systemctl_def
    reclaim_host_ownership_def reclaim_path_def stop_updater_def
  by (intro plain_intros)+

lemma plain_wait_loop [plain_intros]: "raises_plain r \<Longrightarrow> raises_plain (wait_loop E r poll deadline n)"
  by (induction n) (simp_all add: plain_intros)

lemma plain_take_down [plain_intros]: "raises_plain (take_down E)"
  unfolding take_down_def launch_updater_def by (intro plain_intros)

lemma plain_migrations [plain_intros]: "raises_plain (run_migrations E vs c)"
  by (induction E vs c rule: run_migrations.induct) (auto intro!: plain_intros)

lemma plain_apply_migrations [plain_intros]: "raises_plain (apply_system_migrations E registry)"
proof -
  have "raises_plain (unless_raised (validate_registry registry))"
    by (simp add: validate_registry_def unless_raised_def plain_intros)
  then show ?thesis unfolding apply_system_migrations_def by (intro plain_intros)
qed

lemma plain_wp: "raises_plain p \<Longrightarrow> wp p (\<lambda>_ _. True) (\<lambda>e _. plain e) s"
  by (auto simp: raises_plain_def wp_def split: prod.splits sum.splits)

text \<open>A part that keeps the repository and raises plain exceptions, and one that also keeps the log.\<close>

lemma agent_quiet_wp:
  "repo.frames p \<Longrightarrow> raises_plain p \<Longrightarrow> wp p (\<lambda>_ t. ag_repo t = ag_repo s) (\<lambda>e _. plain e) s"
  using wp_conj [OF repo.frames_wp plain_wp] by (rule wp_mono) (simp_all add: repo_kept_def)

lemma silent_wp:
  "progress.frames p \<Longrightarrow> repo.frames p \<Longrightarrow> raises_plain p \<Longrightarrow>
     wp p (\<lambda>_ t. ag_repo t = ag_repo s \<and> phase_of t = phase_of s) (\<lambda>e _. plain e) s"
  using wp_conj [OF agent_quiet_wp progress.frames_wp] by (rule wp_mono) (simp_all add: phase_of_frame)

text \<open>A checkout of a step the walk takes.\<close>

definition on_the_way :: "nat \<Rightarrow> git_repo \<Rightarrow> bool" where
  "on_the_way n repo \<longleftrightarrow> steady_refs repo \<and> commit_ids repo \<and> hops_left repo < n"

lemma checked_out_step:
  assumes laws: "checkout_law E" and way: "steady_refs repo" "commit_ids repo" and step: "next_step repo = Inr (Some t)"
    and checkout: "ge_checkout E (or_ref (resolve_ref_sha repo t) t) repo = (None, repo1)" "ge_clean E repo1 = (None, repo2)"
  shows "on_the_way (hops_left repo) repo2"
proof -
  obtain c where c: "hop repo t = Some (repo\<lparr>gr_head := c\<rparr>)" "hops_left (repo\<lparr>gr_head := c\<rparr>) < hops_left repo"
    using hop_progress [OF way(1) step] by metis
  then have sha: "resolve_ref_sha repo t = Some c"
    by (auto simp: hop_def apply_copies dest: arg_cong [of _ _ gr_head])
  then have "rev_parse repo c = Some c"
    using way(2) by (auto simp: resolve_ref_sha_def rev_parse_def commit_ids_def split: option.splits)
  moreover have "ge_checkout E c repo = (None, repo1)" using checkout(1) by (simp add: sha or_ref_def)
  ultimately obtain d where d: "repo1 = repo\<lparr>gr_head := c, gr_dirty := d\<rparr>"
    using laws [unfolded checkout_law_def, THEN conjunct1, rule_format, of c repo repo1] by auto
  obtain d' where "repo2 = repo1\<lparr>gr_dirty := d'\<rparr>" using laws [unfolded checkout_law_def, THEN conjunct2, rule_format, OF checkout(2)] by blast
  with d way c(2) show ?thesis by (simp add: on_the_way_def steady_hop)
qed

lemma check_out_wp:
  assumes "checkout_law E" and "steady_refs (ag_repo s)" "commit_ids (ag_repo s)" and "next_step (ag_repo s) = Inr (Some t)"
  shows "wp (check_out_step E t) (\<lambda>_ u. on_the_way (hops_left (ag_repo s)) (ag_repo u)) (\<lambda>e _. plain e) s"
    and "wp (apply_checkout E t) (\<lambda>_ u. on_the_way (hops_left (ag_repo s)) (ag_repo u)) (\<lambda>e _. plain e) s"
  using checked_out_step [OF assms]
  by (auto simp: check_out_step_def apply_checkout_def wp_simps apply_copies plain_def split: prod.splits option.splits)

text \<open>One release's turn: it goes on nearer to the destination, ends there, or leaves a failure in the log.\<close>

definition turn_failed :: "agent_exn \<Rightarrow> 'h agent \<Rightarrow> bool" where
  "turn_failed e t \<longleftrightarrow> e \<noteq> Still_Walking \<and> phase_of t = Some FAILED"

lemma report_wp:
  assumes "can_log E" and "e \<noteq> Still_Walking"
  shows "wp (report_and_raise E e) Q turn_failed s"
  using assms by (simp add: report_and_raise_def wp_simps can_log_def turn_failed_def)

definition turn_ended :: "nat \<Rightarrow> bool \<Rightarrow> 'h agent \<Rightarrow> bool" where
  "turn_ended n again t \<longleftrightarrow>
     (if again then on_the_way n (ag_repo t) else next_step (ag_repo t) = Inr None \<and> phase_of t = Some RESTARTING)"

definition turn_raised :: "agent_exn \<Rightarrow> 'h agent \<Rightarrow> bool" where
  "turn_raised e t \<longleftrightarrow> plain e \<or> (\<exists>n. e = System_Exit n) \<and> phase_of t = Some FAILED"

lemma install_wp:
  assumes "can_log E"
  shows "wp (install_dependencies E) (\<lambda>_ t. ag_repo t = ag_repo s) turn_raised s"
  using assms
  by (auto simp: install_dependencies_def wp_simps can_log_def turn_raised_def plain_def
      split: prod.splits run_result.splits)

lemma finish_wp:
  assumes "can_log E" and "next_step (ag_repo s) = Inr None"
  shows "wp (and_then (noting E RESTARTING m None) (\<lambda>_. and_then (start_openhost E) (\<lambda>_. returning False)))
     (turn_ended n) turn_raised s"
proof -
  have "wp (start_openhost E) (\<lambda>_ t. ag_repo t = ag_repo u \<and> phase_of t = phase_of u) (\<lambda>e _. plain e) u" for u
    by (intro silent_wp frame_intros plain_intros)
  from wp_mono [OF this] have "wp (start_openhost E) (\<lambda>_ t. turn_ended n False t) turn_raised u"
    if "ag_repo u = ag_repo s" "phase_of u = Some RESTARTING" for u
    using that assms(2) by (auto simp: turn_ended_def turn_raised_def)
  then show ?thesis
    using assms(1) by (simp add: wp_and_then wp_record_progress wp_returning can_log_def)
qed

lemma apply_here_wp:
  assumes "checkout_law E" and "can_log E" and "on_the_way (Suc n) (ag_repo s)"
  shows "wp (apply_here E) (turn_ended n) turn_raised s"
proof -
  have raised: "plain e \<Longrightarrow> turn_raised e t" for e t by (simp add: turn_raised_def)
  have quiet: "wp p (\<lambda>_ t. ag_repo t = ag_repo s) turn_raised u"
    if "repo.frames p" "raises_plain p" "ag_repo u = ag_repo s" for u and p :: "('h, 'x) action"
    using agent_quiet_wp [OF that(1,2), of u] that(3) by (auto intro: wp_mono raised)
  have decide: "wp (and_then (from_repo apply_next_step) (\<lambda>nxt. case nxt of
         Some t \<Rightarrow> and_then (apply_checkout E t) (\<lambda>_. returning True)
       | None \<Rightarrow> and_then (noting E RESTARTING m None) (\<lambda>_. and_then (start_openhost E) (\<lambda>_. returning False))))
     (turn_ended n) turn_raised u" if u: "ag_repo u = ag_repo s" for u m
  proof (cases "apply_next_step (ag_repo u)")
    case (Inl e)
    then show ?thesis by (simp add: wp_simps turn_raised_def plain_def)
  next
    case (Inr step)
    then have step: "next_step (ag_repo u) = Inr step"
      by (auto simp: apply_next_step_same split: sum.splits option.splits)
    show ?thesis
    proof (cases step)
      case None
      with finish_wp [OF assms(2)] step Inr show ?thesis by (simp add: wp_and_then wp_agent)
    next
      case (Some t)
      have "wp (apply_checkout E t) (\<lambda>_ v. turn_ended n True v) turn_raised u"
        using check_out_wp(2) [OF assms(1)] step Some u assms(3)
        by (intro wp_mono [OF check_out_wp(2) [OF assms(1), of u t]]) (auto simp: on_the_way_def turn_ended_def raised)
      with Inr Some show ?thesis by (simp add: wp_and_then wp_agent wp_returning)
    qed
  qed
  show ?thesis
    unfolding apply_here_def
    by (intro wp_seq [OF quiet] wp_seq [OF wp_mono [OF install_wp [OF assms(2)]]] decide frame_intros plain_intros) simp_all
qed

lemma apply_main_wp:
  assumes "checkout_law E" and "can_log E" and "on_the_way (Suc n) (ag_repo s)"
  shows "wp (apply_main E) (turn_ended n) turn_failed s"
proof -
  have "wp (case e of System_Exit k \<Rightarrow> raising e | _ \<Rightarrow> report_and_raise E e) Q turn_failed t" if "turn_raised e t" for e t Q
    using that report_wp [OF assms(2)]
    by (cases e) (auto simp: turn_raised_def plain_def turn_failed_def wp_simps)
  then show ?thesis
    unfolding apply_main_def wp_handling by (intro wp_mono [OF apply_here_wp [OF assms]])
qed

definition walk_ended :: "'h agent \<Rightarrow> bool" where
  "walk_ended t \<longleftrightarrow> next_step (ag_repo t) = Inr None \<and> phase_of t = Some RESTARTING"

lemma apply_walk_wp:
  assumes "checkout_law E" and "can_log E" and "on_the_way n (ag_repo s)"
  shows "wp (apply_walk E n) (\<lambda>_. walk_ended) turn_failed s"
  using assms(3)
proof (induction n arbitrary: s)
  case (Suc n)
  have "wp (if again then apply_walk E n else returning ()) (\<lambda>_. walk_ended) turn_failed t"
    if "turn_ended n again t" for again t
    using that Suc.IH [of t] by (cases again) (simp_all add: turn_ended_def wp_basic walk_ended_def [of t])
  then show ?case
    unfolding apply_walk.simps wp_and_then by (intro wp_mono [OF apply_main_wp [OF assms(1,2) Suc.prems]])
qed (simp add: on_the_way_def)

lemma preflight_wp:
  "wp (preflight E) (\<lambda>step t. ag_repo t = snd (ge_fetch E (ag_repo s)) \<and> next_step (ag_repo t) = Inr step)
     (\<lambda>e _. plain e) s"
proof -
  let ?r = "snd (ge_fetch E (ag_repo s))"
  have reclaim: "wp (when_do b (reclaim_host_ownership E)) (\<lambda>_ t. ag_repo t = ag_repo u) (\<lambda>e _. plain e) u" for b u
    by (intro agent_quiet_wp frame_intros plain_intros)
  have fetch: "wp (fetch_chown_host E) (\<lambda>_ t. ag_repo t = snd (ge_fetch E (ag_repo u))) (\<lambda>e _. plain e) u" for u
    unfolding fetch_chown_host_def
    by (auto simp: wp_finally_do wp_agent plain_def split: prod.splits option.splits
        intro: wp_mono [OF reclaim] wp_mono [OF wp_total])
  have tagged: "wp (and_then (reading (\<lambda>s. nothing_tagged (ag_repo s))) (\<lambda>none.
        if none then raising (Failed_With m) else from_repo next_step))
      (\<lambda>step t. ag_repo t = ?r \<and> next_step (ag_repo t) = Inr step) (\<lambda>e _. plain e) u"
    if "ag_repo u = ?r" for u m
    using that by (auto simp: wp_simps plain_def split: sum.splits)
  have "wp (and_then (fetch_chown_host E) (\<lambda>_. and_then (reading (\<lambda>s. nothing_tagged (ag_repo s))) (\<lambda>none.
        if none then raising (Failed_With m) else from_repo next_step)))
      (\<lambda>step t. ag_repo t = ?r \<and> next_step (ag_repo t) = Inr step) (\<lambda>e _. plain e) u"
    if "ag_repo u = ag_repo s" for u m
    unfolding wp_and_then [of "fetch_chown_host E"]
    by (rule wp_mono [OF fetch]) (use that in \<open>auto intro: tagged\<close>)
  then show ?thesis
    unfolding preflight_def open_repo_def
    by (auto simp: wp_and_then [of "git_command _"] wp_and_then [of "noting _ _ _ _"] wp_and_then [of "reading (\<lambda>s. gr_dirty (ag_repo s))"]
        wp_agent wp_record_progress wp_basic wp_if plain_def split: option.splits)
qed

lemma take_down_wp: "wp (take_down E) (\<lambda>_ t. ag_repo t = ag_repo s) (\<lambda>e _. plain e) s"
  by (intro agent_quiet_wp frame_intros plain_intros)

lemma apply_update_wp:
  assumes laws: "checkout_law E" "can_log E" and way: "on_the_way n (snd (ge_fetch E (ag_repo s)))"
  shows "wp (apply_update E) (\<lambda>_ t. on_the_way n (ag_repo t)) turn_failed s"
proof -
  let ?r = "snd (ge_fetch E (ag_repo s))"
  have step: "wp (case step of None \<Rightarrow> returning () | Some t \<Rightarrow> check_out_step E t)
      (\<lambda>_ t. on_the_way n (ag_repo t)) (\<lambda>e _. plain e) u"
    if u: "ag_repo u = ?r" "next_step ?r = Inr step" for step u
  proof (cases step)
    case (Some t)
    show ?thesis
      unfolding Some option.case
      by (rule wp_mono [OF check_out_wp(1) [OF laws(1)]]) (use u Some way in \<open>auto simp: on_the_way_def\<close>)
  qed (use u way in \<open>simp add: wp_basic\<close>)
  have "wp (and_then (take_down E) (\<lambda>_. case step of None \<Rightarrow> returning () | Some t \<Rightarrow> check_out_step E t))
      (\<lambda>_ t. on_the_way n (ag_repo t)) (\<lambda>e _. plain e) u"
    if "ag_repo u = ?r" "next_step ?r = Inr step" for step u
    unfolding wp_and_then by (rule wp_mono [OF take_down_wp]) (use that in \<open>auto intro: step\<close>)
  then have "wp (and_then (preflight E) (\<lambda>step. and_then (take_down E) (\<lambda>_.
        case step of None \<Rightarrow> returning () | Some t \<Rightarrow> check_out_step E t)))
      (\<lambda>_ t. on_the_way n (ag_repo t)) (\<lambda>e _. plain e) s"
    unfolding wp_and_then [of "preflight E"] by (intro wp_mono [OF preflight_wp]) auto
  then show ?thesis
    unfolding apply_update_def wp_handling
    by (rule wp_mono) (auto intro!: report_wp [OF laws(2)] simp: plain_def)
qed

lemma boot_after_failure: "phase_of s = Some FAILED \<Longrightarrow> mark_boot_complete B s = (Inr True, s)"
  by (simp add: phase_of_def mark_boot_complete_def and_then_def reading_def returning_def is_terminal_def)

lemma boot_after_restart:
  "phase_of s = Some RESTARTING \<Longrightarrow> can_log B \<Longrightarrow>
     mark_boot_complete B s = (Inr True, append_progress B DONE ''Instance is back online.'' None s)"
  by (auto simp: phase_of_def mark_boot_complete_def and_then_def reading_def returning_def is_terminal_def
      record_progress_def can_log_def last_phase_def RESTARTING_def DONE_def FAILED_def split: if_splits)

text \<open>C34. Every update ends in a report the page can act on. Whatever git, systemd, pixi and the migrations
  answer, the unit that applies an update is over after at most as many releases as there are tags and one
  more; and when the router has booted again the log ends with done if every step up to the destination
  worked, and there is no step left, and with failed otherwise, so the page leaves. This needs version tags
  that resolve to their own commits and a log that can be written.
\<close>

theorem update_is_reported:
  assumes "checkout_law E" and "can_log E" and "can_log B"
    and "steady_refs (snd (ge_fetch E (ag_repo s)))" and "commit_ids (snd (ge_fetch E (ag_repo s)))"
    and fuel: "length (gr_tags (snd (ge_fetch E (ag_repo s)))) + 2 \<le> n"
    and unit: "apply_unit E n s = (r, s1)" and boot: "mark_boot_complete B s1 = (b, s2)"
  shows "r \<noteq> Inl Still_Walking \<and> b = Inr True \<and> phase_of s2 = Some (if r = Inr () then DONE else FAILED) \<and>
     (r = Inr () \<longrightarrow> next_step (ag_repo s2) = Inr None)"
proof -
  let ?r = "snd (ge_fetch E (ag_repo s))"
  have "hops_left ?r \<le> Suc (length (gr_tags ?r))"
    by (auto simp: hops_left_def intro: order_trans [OF length_filter_le])
  with assms(4,5) fuel have way: "on_the_way n ?r" by (simp add: on_the_way_def)
  have post: "wp (exec_stop_post E) (\<lambda>_ t. ag_repo t = ag_repo u \<and> phase_of t = phase_of u) (\<lambda>_ _. False) u" for u
  proof -
    have "wp (exec_stop_post E) (\<lambda>_ _. True) (\<lambda>_ _. False) u"
      by (simp add: exec_stop_post_def wp_simps split: prod.splits)
    moreover have "wp (exec_stop_post E) (\<lambda>_ t. ag_repo t = ag_repo u \<and> phase_of t = phase_of u) (\<lambda>e _. plain e) u"
      unfolding exec_stop_post_def by (intro silent_wp frame_intros plain_intros)
    ultimately show ?thesis by (auto simp: wp_def split: prod.splits sum.splits)
  qed
  have "wp (and_then (apply_update E) (\<lambda>_. apply_walk E n)) (\<lambda>_. walk_ended) turn_failed s"
    unfolding wp_and_then by (rule wp_mono [OF apply_update_wp [OF assms(1,2) way]]) (auto intro: apply_walk_wp [OF assms(1,2)])
  then have "wp (apply_unit E n) (\<lambda>_. walk_ended) turn_failed s"
    unfolding apply_unit_def wp_finally_do
    by (rule wp_mono) (auto intro!: wp_mono [OF post] simp: walk_ended_def turn_failed_def)
  from wp_outcome [OF this unit]
  have out: "case r of Inl e \<Rightarrow> turn_failed e s1 | Inr _ \<Rightarrow> walk_ended s1" by (simp split: sum.splits)
  show ?thesis
  proof (cases r)
    case (Inl e)
    with out boot boot_after_failure [of s1 B] show ?thesis by (auto simp: turn_failed_def)
  next
    case (Inr u)
    with out boot boot_after_restart [OF _ assms(3), of s1] show ?thesis by (auto simp: walk_ended_def)
  qed
qed

section \<open>Migrations\<close>

definition host_version :: "'h agent \<Rightarrow> nat" where
  "host_version s = current_host_version (read_log (ag_migrations s))"

text \<open>The host after the migrations \<open>vs\<close> were run on it, each once and in that order.\<close>

definition after_ups :: "'h agent_env \<Rightarrow> nat list \<Rightarrow> 'h \<Rightarrow> 'h" where
  "after_ups E vs h = foldl (\<lambda>h v. snd (ge_up E v h)) h vs"

definition failed_at :: "'h agent_env \<Rightarrow> nat \<Rightarrow> nat \<Rightarrow> 'h \<Rightarrow> agent_exn \<Rightarrow> 'h agent \<Rightarrow> bool" where
  "failed_at E c v h e t \<longleftrightarrow>
     ag_host t = after_ups E [Suc c..<Suc v] h \<and> host_version t = v - 1 \<and>
     (let final = last (read_log (ag_migrations t))
      in me_version final = v \<and> \<not> me_success final \<and> me_error final = Some (exn_text e))"

lemma skip_applied: "\<forall>v \<in> set vs. v \<le> c \<Longrightarrow> run_migrations E (vs @ ws) c = run_migrations E ws c"
  by (induction vs) auto

lemma append_entry_facts:
  assumes "append_entry E v x s = (r, t)"
  shows "r = Inr ()" "ag_host t = ag_host s" "host_version t = (if x = None then v else host_version s)"
    "last (read_log (ag_migrations t)) =
       \<lparr>me_version = v, me_timestamp = ge_utc E (ag_host s), me_success = (x = None), me_error = x\<rparr>"
  using assms
  by (auto simp: append_entry_def changing_def host_version_def current_host_version_def read_log_def map_filter_def)

lemma run_migrations_outcome:
  assumes "run_migrations E [Suc c..<m] c s = (r, t)" and "host_version s = c" and "c < m"
  shows "case r of
      Inr applied \<Rightarrow> applied = [Suc c..<m] \<and> ag_host t = after_ups E [Suc c..<m] (ag_host s) \<and> host_version t = m - 1
    | Inl e \<Rightarrow> \<exists>v. c < v \<and> v < m \<and> failed_at E c v (ag_host s) e t"
  using assms
proof (induction "m - c" arbitrary: c s r t rule: less_induct)
  case less
  show ?case
  proof (cases "Suc c < m")
    case False
    with less.prems show ?thesis by (auto simp: returning_def after_ups_def)
  next
    case True
    then have range: "[Suc c..<m] = Suc c # [Suc (Suc c)..<m]" by (rule upt_conv_Cons)
    obtain x h where up: "ge_up E (Suc c) (ag_host s) = (x, h)" by force
    show ?thesis
    proof (cases x)
      case (Some msg)
      obtain a t1 where a: "append_entry E (Suc c) (Some msg) (s\<lparr>ag_host := h\<rparr>) = (a, t1)" by force
      note facts = append_entry_facts [OF a]
      have "host_version (s\<lparr>ag_host := h\<rparr>) = c" using less.prems(2) by (simp add: host_version_def)
      moreover have "r = Inl (Failed_With msg)" "t = t1"
        using less.prems(1) a facts(1)
        by (simp_all add: range migrate_up_def up Some and_then_def handling_def raising_def)
      ultimately have "failed_at E c (Suc c) (ag_host s) (Failed_With msg) t"
        using facts up by (simp add: failed_at_def after_ups_def Let_def)
      with \<open>r = _\<close> True show ?thesis by auto
    next
      case None
      obtain a t1 where a: "append_entry E (Suc c) None (s\<lparr>ag_host := h\<rparr>) = (a, t1)" by force
      note facts = append_entry_facts [OF a]
      obtain r2 t2 where rest: "run_migrations E [Suc (Suc c)..<m] (Suc c) t1 = (r2, t2)" by force
      have host: "after_ups E (Suc c # vs) (ag_host s) = after_ups E vs h" for vs by (simp add: after_ups_def up)
      have more: "[Suc c..<Suc v] = Suc c # [Suc (Suc c)..<Suc v]" if "Suc c < v" for v
        using that by (simp add: upt_conv_Cons)
      have "m - Suc c < m - c" using less.prems(3) by simp
      from less.hyps [OF this rest] facts(3) True
      have IH: "case r2 of Inr applied \<Rightarrow> applied = [Suc (Suc c)..<m] \<and>
            ag_host t2 = after_ups E [Suc (Suc c)..<m] (ag_host t1) \<and> host_version t2 = m - 1
          | Inl e \<Rightarrow> \<exists>v. Suc c < v \<and> v < m \<and> failed_at E (Suc c) v (ag_host t1) e t2" by simp
      have "(r, t) = (case r2 of Inl e \<Rightarrow> (Inl e, t2) | Inr vs \<Rightarrow> (Inr (Suc c # vs), t2))"
        using less.prems(1) a facts(1) rest
        by (auto simp: range migrate_up_def up None and_then_def handling_def returning_def split: sum.splits)
      moreover have "failed_at E c v (ag_host s) e t2" if "Suc c < v" "failed_at E (Suc c) v (ag_host t1) e t2" for v e
        using that(2) facts(2) unfolding failed_at_def more [OF that(1)] host by simp
      ultimately show ?thesis
        using IH facts(2) by (cases r2) (auto simp: range host intro: Suc_lessD)
    qed
  qed
qed

text \<open>C35. Migrations run once each and in order. A run on a host at version c runs c + 1, c + 2 and so on; if it
  returns, all up to the newest have run and the status is good; if it raises, the one that failed ran last,
  is in the log with its error, and the host is at the version before it, where the next run goes on.
\<close>

theorem migrations_run_in_order:
  assumes "ge_root E" and version: "host_version s = c" "1 \<le> c" "c \<le> 14"
    and run: "apply_system_migrations E REGISTRY s = (r, t)"
  shows "case r of
      Inr applied \<Rightarrow> applied = [Suc c..<15] \<and> ag_host t = after_ups E [Suc c..<15] (ag_host s) \<and>
        ms_ok (get_migration_status (ag_migrations t))
    | Inl e \<Rightarrow> \<exists>v. c < v \<and> v \<le> 14 \<and> failed_at E c v (ag_host s) e t"
proof -
  have registry: "REGISTRY = [2..<Suc c] @ [Suc c..<15]"
  proof -
    have "REGISTRY = [2..<15]" by code_simp
    then show ?thesis using version upt_add_eq_append [of 2 "Suc c" "15 - Suc c"] by simp
  qed
  have latest: "latest_registry_version REGISTRY = 14" by code_simp
  have "validate_registry REGISTRY = None" by code_simp
  then have "apply_system_migrations E REGISTRY s = run_migrations E REGISTRY c s"
    using assms(1) version
    by (simp add: apply_system_migrations_def unless_raised_def and_then_def returning_def reading_def latest
        flip: host_version_def)
  also have "\<dots> = run_migrations E [Suc c..<15] c s"
    unfolding registry by (subst skip_applied) auto
  finally have "run_migrations E [Suc c..<15] c s = (r, t)" using run by simp
  from run_migrations_outcome [OF this version(1)] version(3)
  have out: "case r of
      Inr applied \<Rightarrow> applied = [Suc c..<15] \<and> ag_host t = after_ups E [Suc c..<15] (ag_host s) \<and> host_version t = 14
    | Inl e \<Rightarrow> \<exists>v. c < v \<and> v < 15 \<and> failed_at E c v (ag_host s) e t" by (simp split: sum.splits)
  have "ms_ok (get_migration_status (ag_migrations t))" if "host_version t = 14"
    using that by (simp add: get_migration_status_def latest Let_def host_version_def)
  with out show ?thesis by (cases r) (auto intro: less_Suc_eq_le [THEN iffD1])
qed

section \<open>A concrete host\<close>

text \<open>The rest of the host is whether openhost runs. Every command succeeds.\<close>

definition agent_demo_run :: "string list \<Rightarrow> nat \<Rightarrow> bool \<Rightarrow> run_result \<times> bool" where
  "agent_demo_run cmd timeout up =
     (Completed 0 [] [],
      if cmd = [''systemctl'', ''stop'', OPENHOST_UNIT] then False
      else if cmd = [''systemctl'', ''restart'', OPENHOST_UNIT] then True
      else if cmd = [''systemctl'', ''start'', ''--no-block'', OPENHOST_UNIT] then True
      else up)"

definition agent_demo_checkout :: "string \<Rightarrow> git_repo \<Rightarrow> string option \<times> git_repo" where
  "agent_demo_checkout x r =
     (case rev_parse r x of Some c \<Rightarrow> (None, r\<lparr>gr_head := c\<rparr>) | None \<Rightarrow> (Some ''pathspec did not match'', r))"

definition agent_demo_env :: "bool agent_env" where
  "agent_demo_env =
     \<lparr>ge_open = (\<lambda>_. None), ge_fetch = (\<lambda>r. (None, r)), ge_checkout = agent_demo_checkout, ge_clean = (\<lambda>r. (None, r)),
      ge_run = agent_demo_run, ge_which = (\<lambda>_ _. Some ''/usr/bin/x''), ge_path_exists = (\<lambda>_ _. True), ge_unlink = (\<lambda>_ h. h),
      ge_writable = (\<lambda>_ _. True), ge_chown_log = (\<lambda>h. h), ge_up = (\<lambda>_ h. (None, h)), ge_utc = (\<lambda>_. ''now''),
      ge_now = (\<lambda>_. 0), ge_sleep = (\<lambda>_ h. h), ge_data_dir = None, ge_home = None, ge_python = ''python'',
      ge_root = True, ge_detached = True\<rparr>"

text \<open>The repository of the walk's example, where a commit id also names its commit.\<close>

definition commit_repo :: git_repo where
  "commit_repo = demo_repo\<lparr>gr_revision :=
     (\<lambda>_ x. if x \<in> {''c1'', ''c3'', ''c4'', ''c5''} then Some x else gr_revision demo_repo [] x)\<rparr>"

definition demo_agent :: "bool agent" where
  "demo_agent =
     \<lparr>ag_repo = commit_repo, ag_log = [],
      ag_migrations = [Migrated \<lparr>me_version = 12, me_timestamp = [], me_success = True, me_error = None\<rparr>],
      ag_token = None, ag_host = True\<rparr>"

lemma agent_demo_laws: "fetch_law agent_demo_env" "service_law agent_demo_env id" "checkout_law agent_demo_env" "can_log agent_demo_env"
proof -
  show "fetch_law agent_demo_env" "can_log agent_demo_env" by (simp_all add: fetch_law_def can_log_def agent_demo_env_def)
  have "find_misowned path \<noteq> [''systemctl'', ''stop'', OPENHOST_UNIT]"
    "find_misowned path \<noteq> [''systemctl'', ''restart'', OPENHOST_UNIT]"
    "find_misowned path \<noteq> [''systemctl'', ''start'', ''--no-block'', OPENHOST_UNIT]" for path
    by (simp_all add: find_misowned_def)
  moreover have "updater_command agent_demo_env \<noteq> [''systemctl'', ''stop'', OPENHOST_UNIT]"
    "updater_command agent_demo_env \<noteq> [''systemctl'', ''restart'', OPENHOST_UNIT]"
    "updater_command agent_demo_env \<noteq> [''systemctl'', ''start'', ''--no-block'', OPENHOST_UNIT]"
    by (simp_all add: updater_command_def)
  ultimately show "service_law agent_demo_env id"
    by (simp add: service_law_def agent_demo_env_def agent_demo_run_def OPENHOST_UNIT_def)
  have "\<exists>d. r\<lparr>gr_head := c\<rparr> = r\<lparr>gr_head := c, gr_dirty := d\<rparr>" "\<exists>d. r = r\<lparr>gr_dirty := d\<rparr>" for r :: git_repo and c
    by (rule exI [of _ "gr_dirty r"], simp)+
  then show "checkout_law agent_demo_env"
    by (simp add: checkout_law_def agent_demo_env_def agent_demo_checkout_def split: option.split)
qed

lemma demo_refs: "steady_refs commit_repo" "commit_ids commit_repo"
  by (auto simp: steady_refs_def commit_ids_def commit_repo_def demo_repo_def resolve_ref_sha_def rev_parse_def
      get_target_ref_def split: if_splits)

lemma demo_apply_update: "gr_head (ag_repo (snd (apply_update agent_demo_env demo_agent))) = ''c3''"
  by code_simp

lemma tree_changes_only_while_down_witness:
  "gr_head (ag_repo (snd (apply_update agent_demo_env demo_agent))) = ''c3'' \<and> ag_host demo_agent \<and>
   \<not> ag_host (snd (apply_update agent_demo_env demo_agent))"
  using tree_changes_only_while_down [OF agent_demo_laws(1,2), of demo_agent
      "fst (apply_update agent_demo_env demo_agent)" "snd (apply_update agent_demo_env demo_agent)"]
    demo_apply_update
  by (simp add: demo_agent_def commit_repo_def demo_repo_def)

lemma demo_unit: "fst (apply_unit agent_demo_env 7 demo_agent) = Inr ()"
  by code_simp

lemma update_is_reported_witness:
  "phase_of (snd (mark_boot_complete agent_demo_env (snd (apply_unit agent_demo_env 7 demo_agent)))) = Some DONE"
proof -
  have fetched: "snd (ge_fetch agent_demo_env (ag_repo demo_agent)) = commit_repo" by (simp add: agent_demo_env_def demo_agent_def)
  have fuel: "length (gr_tags commit_repo) + 2 \<le> 7" by (simp add: commit_repo_def demo_repo_def)
  obtain s1 where s1: "apply_unit agent_demo_env 7 demo_agent = (Inr (), s1)" using demo_unit by (metis prod.collapse)
  obtain b s2 where s2: "mark_boot_complete agent_demo_env s1 = (b, s2)" by force
  from update_is_reported [OF agent_demo_laws(3,4,4) _ _ _ s1 s2, unfolded fetched, OF demo_refs fuel] s1 s2
  show ?thesis by simp
qed

lemma demo_migrations: "fst (apply_system_migrations agent_demo_env REGISTRY demo_agent) = Inr [13, 14]"
  by code_simp

lemma migrations_run_in_order_witness:
  "ms_ok (get_migration_status (ag_migrations (snd (apply_system_migrations agent_demo_env REGISTRY demo_agent))))"
proof -
  have version: "host_version demo_agent = 12" by code_simp
  have root: "ge_root agent_demo_env" by (simp add: agent_demo_env_def)
  obtain t where t: "apply_system_migrations agent_demo_env REGISTRY demo_agent = (Inr [13, 14], t)"
    using demo_migrations by (metis prod.collapse)
  from migrations_run_in_order [OF root version _ _ t] t show ?thesis by simp
qed

end
