(* ===== verification/UpdateRemote.thy ===== *)
theory UpdateRemote
  imports UpdateAgent
begin

text \<open>
  The remote the updates of a host come from (\<open>update.py\<close>): parsing what the owner types, storing it, and what
  the dashboard is told about it. The checks of a network location are Urls' parameter \<open>netloc_ok\<close>.
\<close>

section \<open>Parsing\<close>

datatype update_channel = On_Tags | On_Branch | On_Pin

record parsed_remote =
  pr_url :: string
  pr_ref :: "string option"
  pr_channel :: update_channel

definition parse_url :: "(string \<Rightarrow> bool) \<Rightarrow> string \<Rightarrow> string + url_parts" where
  "parse_url netloc_ok s = (case urlparse netloc_ok s of Some u \<Rightarrow> Inr u | None \<Rightarrow> Inl ''invalid URL'')"

definition parse_remote :: "(string \<Rightarrow> bool) \<Rightarrow> string \<Rightarrow> string + parsed_remote" where
  "parse_remote netloc_ok raw =
     (let spec = py_strip raw in
      bind_res (parse_url netloc_ok spec) (\<lambda>parsed0.
      bind_res (if up_scheme parsed0 \<in> set KNOWN_SCHEMES then Inr parsed0 else parse_url netloc_ok (''https://'' @ spec)) (\<lambda>parsed.
        (let branch = non_empty (Some (up_fragment parsed));
             path0 = up_path parsed;
             ats = length (filter (\<lambda>c. c = CHR 0x40) path0);
             path = (if ats = 0 then path0 else before_char CHR 0x40 path0);
             ref = (if ats = 0 then None else Some (after_char CHR 0x40 path0));
             answer = (\<lambda>r channel. Inr \<lparr>pr_url = geturl (parsed\<lparr>up_path := path, up_fragment := []\<rparr>), pr_ref = r, pr_channel = channel\<rparr>)
         in if list_ex is_space_char spec then Inl ''The remote must not contain spaces.''
            else if CHR 0x23 \<in> set spec \<and> branch = None then Inl (''Missing branch name after '' @ CHR 0x27 # CHR 0x23 # CHR 0x27 # ''.'')
            else if 1 < ats then Inl (''Only one '' @ CHR 0x27 # ''@ref'' @ CHR 0x27 # '' is allowed.'')
            else if ref = Some [] then Inl (''Missing tag or commit after '' @ CHR 0x27 # ''@'' @ CHR 0x27 # ''.'')
            else if branch \<noteq> None \<and> ref \<noteq> None then
              Inl (''Use either '' @ CHR 0x27 # ''#branch'' @ CHR 0x27 # '' or '' @ CHR 0x27 # ''@ref'' @ CHR 0x27 # '', not both.'')
            else if branch \<noteq> None \<and> CHR 0x23 \<in> set (the branch) then Inl (''Only one '' @ CHR 0x27 # ''#branch'' @ CHR 0x27 # '' is allowed.'')
            else if branch \<noteq> None then answer branch On_Branch
            else if ref \<noteq> None then answer ref On_Pin
            else answer None On_Tags))))"

section \<open>Storing\<close>

definition is_remote_branch :: "git_repo \<Rightarrow> string \<Rightarrow> bool" where
  "is_remote_branch repo name \<longleftrightarrow> rev_parse repo (''refs/remotes/origin/'' @ name) \<noteq> None"

definition quoted :: "string \<Rightarrow> string" where
  "quoted s = CHR 0x27 # s @ [CHR 0x27]"

text \<open>The checks of a branch or a pin after the fetch; the error, if one fails.\<close>

definition refuse_ref :: "git_repo \<Rightarrow> update_channel \<Rightarrow> string \<Rightarrow> string option" where
  "refuse_ref repo channel ref =
     (let is_branch = is_remote_branch repo ref in
      if channel = On_Branch \<and> \<not> is_branch then Some (''Branch '' @ quoted ref @ '' was not found on the remote.'')
      else if channel = On_Pin \<and> is_branch then
        Some (quoted ref @ '' is a branch. Use #'' @ ref @ '' to follow it, or @<commit> to pin a commit.'')
      else if resolve_ref_sha repo ref = None then
        Some (quoted ref @ '' could not be resolved on the remote. Check the tag or commit.'')
      else None)"

text \<open>\<open>set_remote_url\<close> up to its answer. A remote that is not there yet is created.\<close>

definition change_remote :: "(string \<Rightarrow> bool) \<Rightarrow> 'h agent_env \<Rightarrow> string \<Rightarrow> ('h, unit) action" where
  "change_remote netloc_ok E spec =
     (case parse_remote netloc_ok spec of
        Inl m \<Rightarrow> raising (Failed_With m)
      | Inr remote \<Rightarrow>
          and_then (open_repo E) (\<lambda>_.
          and_then (changing (\<lambda>s. s\<lparr>ag_repo := ag_repo s\<lparr>gr_origin := Some (pr_url remote)\<rparr>\<rparr>)) (\<lambda>_.
          and_then (case pr_ref remote of
              None \<Rightarrow> returning ()
            | Some ref \<Rightarrow>
                and_then (fetch_chown_host E) (\<lambda>_.
                and_then (reading (\<lambda>s. refuse_ref (ag_repo s) (pr_channel remote) ref)) (\<lambda>refused.
                  case refused of Some m \<Rightarrow> raising (Failed_With m) | None \<Rightarrow> returning ()))) (\<lambda>_.
            changing (\<lambda>s. s\<lparr>ag_repo := set_target_ref (ag_repo s) (pr_ref remote)\<rparr>)))))"

section \<open>What the dashboard is told\<close>

record remote_info =
  ri_url :: "string option"
  ri_ref :: string
  ri_channel :: update_channel
  ri_prereleases :: bool
  ri_prereleases_error :: "string option"

text \<open>\<open>_strip_credentials\<close>; \<open>Inl\<close> is the \<open>ValueError\<close> of an invalid URL or port.\<close>

definition strip_credentials :: "(string \<Rightarrow> bool) \<Rightarrow> string \<Rightarrow> string + string" where
  "strip_credentials netloc_ok url =
     bind_res (parse_url netloc_ok url) (\<lambda>parsed.
       (let (userinfo, found, host) = rpartition_char CHR 0x40 (up_netloc parsed);
            (username, has_password, password) = partition_char CHR 0x3A userinfo
        in if username \<noteq> [] \<or> password \<noteq> []
           then (case url_port parsed of
               None \<Rightarrow> Inl ''invalid port''
             | Some port \<Rightarrow>
                 (let name = (case url_hostname parsed of Some h \<Rightarrow> h | None \<Rightarrow> []);
                      host_port = (case port of Some p \<Rightarrow> if p = 0 then name else name @ '':'' @ show_int p | None \<Rightarrow> name)
                  in Inr (geturl (parsed\<lparr>up_netloc := host_port\<rparr>))))
           else Inr url))"

definition channel_for_target :: "git_repo \<Rightarrow> string option \<Rightarrow> update_channel" where
  "channel_for_target repo target =
     (case target of None \<Rightarrow> On_Tags | Some t \<Rightarrow> if is_remote_branch repo t then On_Branch else On_Pin)"

definition remote_info_of :: "(string \<Rightarrow> bool) \<Rightarrow> git_repo \<Rightarrow> string \<Rightarrow> string + remote_info" where
  "remote_info_of netloc_ok repo origin =
     bind_res (if origin = [] then Inr None else map_sum id Some (strip_credentials netloc_ok origin)) (\<lambda>url.
       (let target = get_target_ref repo;
            (prereleases, error) = (case get_prereleases_setting repo of Inr b \<Rightarrow> (b, None) | Inl e \<Rightarrow> (False, Some e))
        in Inr \<lparr>ri_url = url, ri_ref = (case target of Some t \<Rightarrow> t | None \<Rightarrow> current_ref repo),
                ri_channel = channel_for_target repo target, ri_prereleases = prereleases, ri_prereleases_error = error\<rparr>))"

definition get_remote_info :: "(string \<Rightarrow> bool) \<Rightarrow> 'h agent_env \<Rightarrow> ('h, remote_info) action" where
  "get_remote_info netloc_ok E =
     and_then (open_repo E) (\<lambda>_.
     and_then get_remote (\<lambda>origin. from_repo (\<lambda>repo. remote_info_of netloc_ok repo origin)))"

definition set_remote_url :: "(string \<Rightarrow> bool) \<Rightarrow> 'h agent_env \<Rightarrow> string \<Rightarrow> ('h, remote_info) action" where
  "set_remote_url netloc_ok E spec = and_then (change_remote netloc_ok E spec) (\<lambda>_. get_remote_info netloc_ok E)"

definition set_prereleases :: "(string \<Rightarrow> bool) \<Rightarrow> 'h agent_env \<Rightarrow> bool \<Rightarrow> ('h, remote_info) action" where
  "set_prereleases netloc_ok E enabled =
     and_then (open_repo E) (\<lambda>_.
     and_then (finally_do (changing (\<lambda>s. s\<lparr>ag_repo := ag_repo s\<lparr>gr_prereleases := Git_Bool enabled\<rparr>\<rparr>))
         (when_do (ge_root E) (reclaim_host_ownership E))) (\<lambda>_.
       get_remote_info netloc_ok E))"

section \<open>Properties\<close>

definition fetch_keeps_config :: "'h agent_env \<Rightarrow> bool" where
  "fetch_keeps_config E \<longleftrightarrow>
     (\<forall>r. gr_origin (snd (ge_fetch E r)) = gr_origin r \<and> gr_target_ref (snd (ge_fetch E r)) = gr_target_ref r)"

lemma fetch_config_wp:
  assumes "fetch_keeps_config E"
  shows "wp (fetch_chown_host E)
     (\<lambda>_ t. gr_origin (ag_repo t) = gr_origin (ag_repo s) \<and> gr_target_ref (ag_repo t) = gr_target_ref (ag_repo s))
     (\<lambda>_ t. gr_origin (ag_repo t) = gr_origin (ag_repo s) \<and> gr_target_ref (ag_repo t) = gr_target_ref (ag_repo s)) s"
proof -
  have reclaim: "wp (when_do b (reclaim_host_ownership E)) (\<lambda>_ t. ag_repo t = ag_repo u) (\<lambda>_ t. ag_repo t = ag_repo u) u" for b u
    by (rule wp_mono [OF repo.frames_wp [OF repo.frames_choices(1) [OF reclaim_frames(1)]]]) (simp_all add: repo_kept_def)
  have "gr_origin r = gr_origin (ag_repo s) \<and> gr_target_ref r = gr_target_ref (ag_repo s)"
    if "ge_fetch E (ag_repo s) = (x, r)" for x r
    using assms that unfolding fetch_keeps_config_def by (metis snd_conv)
  then show ?thesis
    unfolding fetch_chown_host_def
    by (auto simp: wp_finally_do wp_agent split: prod.splits option.splits intro!: wp_mono [OF reclaim])
qed

text \<open>What a change of the remote leaves. If it is accepted, updates come from the new URL and the pin is the
  one asked for, which the remote has and, for a branch, has as a branch. If it is refused the pin is the one
  from before; but the URL is the new one already, once the repository could be opened, so on the tags channel
  the next update comes from a remote whose branch or commit the owner was told does not exist.
\<close>

lemma refused_remote_is_half_applied:
  fixes s :: "'h agent"
  assumes "fetch_keeps_config E" and "parse_remote netloc_ok spec = Inr p" and "ge_open E (ag_repo s) = None"
    and run: "change_remote netloc_ok E spec s = (r, t)"
  shows "gr_origin (ag_repo t) = Some (pr_url p) \<and>
     (case r of
        Inr _ \<Rightarrow> gr_target_ref (ag_repo t) = non_empty (pr_ref p) \<and>
          (\<forall>ref. pr_ref p = Some ref \<longrightarrow> resolve_ref_sha (ag_repo t) ref \<noteq> None \<and>
             (pr_channel p = On_Branch \<longrightarrow> is_remote_branch (ag_repo t) ref))
      | Inl _ \<Rightarrow> gr_target_ref (ag_repo t) = gr_target_ref (ag_repo s))"
proof -
  let ?s1 = "s\<lparr>ag_repo := ag_repo s\<lparr>gr_origin := Some (pr_url p)\<rparr>\<rparr>"
  define accepted where "accepted = (\<lambda>t :: 'h agent. gr_origin (ag_repo t) = Some (pr_url p) \<and>
     gr_target_ref (ag_repo t) = non_empty (pr_ref p) \<and>
     (\<forall>ref. pr_ref p = Some ref \<longrightarrow> resolve_ref_sha (ag_repo t) ref \<noteq> None \<and>
        (pr_channel p = On_Branch \<longrightarrow> is_remote_branch (ag_repo t) ref)))"
  define refused where "refused = (\<lambda>t :: 'h agent. gr_origin (ag_repo t) = Some (pr_url p) \<and>
     gr_target_ref (ag_repo t) = gr_target_ref (ag_repo s))"
  have resolved: "resolve_ref_sha (repo\<lparr>gr_target_ref := x\<rparr>) ref = resolve_ref_sha repo ref"
    "is_remote_branch (repo\<lparr>gr_target_ref := x\<rparr>) ref = is_remote_branch repo ref" for repo x ref
    by (simp_all add: resolve_ref_sha_def is_remote_branch_def rev_parse_def split: option.split)
  have "wp (change_remote netloc_ok E spec) (\<lambda>_. accepted) (\<lambda>_. refused) s"
  proof (cases "pr_ref p")
    case None
    then show ?thesis
      using assms(2,3)
      by (simp add: change_remote_def open_repo_def wp_simps accepted_def set_target_ref_def non_empty_def)
  next
    case (Some ref)
    have checked: "wp (and_then (reading (\<lambda>s. refuse_ref (ag_repo s) (pr_channel p) ref)) (\<lambda>no.
          case no of Some m \<Rightarrow> raising (Failed_With m) | None \<Rightarrow> returning ()))
        (\<lambda>_ t. accepted (t\<lparr>ag_repo := set_target_ref (ag_repo t) (pr_ref p)\<rparr>)) (\<lambda>_. refused) u"
      if "gr_origin (ag_repo u) = Some (pr_url p)" "gr_target_ref (ag_repo u) = gr_target_ref (ag_repo s)" for u
      using that Some
      by (auto simp: wp_simps refuse_ref_def Let_def accepted_def refused_def resolved set_target_ref_def
          split: option.split)
    have "wp (and_then (fetch_chown_host E) (\<lambda>_. and_then (reading (\<lambda>s. refuse_ref (ag_repo s) (pr_channel p) ref)) (\<lambda>no.
          case no of Some m \<Rightarrow> raising (Failed_With m) | None \<Rightarrow> returning ())))
        (\<lambda>_ t. accepted (t\<lparr>ag_repo := set_target_ref (ag_repo t) (pr_ref p)\<rparr>)) (\<lambda>_. refused) ?s1"
      unfolding wp_and_then [of "fetch_chown_host E"]
      by (rule wp_mono [OF fetch_config_wp [OF assms(1)]]) (auto intro: checked [unfolded refused_def] simp: refused_def)
    then show ?thesis
      using assms(2,3) Some unfolding change_remote_def open_repo_def
      by (simp add: wp_and_then [of "git_command _"] wp_and_then [of "changing _"] wp_agent wp_basic)
        (subst wp_and_then, simp only: wp_returning)
  qed
  from wp_outcome [OF this run] show ?thesis by (auto simp: accepted_def refused_def split: sum.splits)
qed

section \<open>A concrete remote\<close>

definition typo_spec :: string where
  "typo_spec = ''https://git.example.org/fork#stabel''"

lemma demo_refusal:
  "parse_remote (\<lambda>_. True) typo_spec = Inr \<lparr>pr_url = ''https://git.example.org/fork'', pr_ref = Some ''stabel'', pr_channel = On_Branch\<rparr>"
  "fst (change_remote (\<lambda>_. True) agent_demo_env typo_spec demo_agent) =
     Inl (Failed_With (''Branch '' @ quoted ''stabel'' @ '' was not found on the remote.''))"
  by code_simp+

lemma refused_remote_is_half_applied_witness:
  "gr_origin (ag_repo (snd (change_remote (\<lambda>_. True) agent_demo_env typo_spec demo_agent))) = Some ''https://git.example.org/fork'' \<and>
   gr_target_ref (ag_repo (snd (change_remote (\<lambda>_. True) agent_demo_env typo_spec demo_agent))) = None"
proof -
  obtain m t where t: "change_remote (\<lambda>_. True) agent_demo_env typo_spec demo_agent = (Inl m, t)"
    using demo_refusal(2) by (metis prod.collapse)
  have keeps: "fetch_keeps_config agent_demo_env" by (simp add: fetch_keeps_config_def agent_demo_env_def)
  have "ge_open agent_demo_env (ag_repo demo_agent) = None" by (simp add: agent_demo_env_def)
  from refused_remote_is_half_applied [OF keeps demo_refusal(1) this t] t
  show ?thesis by (simp add: demo_agent_def commit_repo_def demo_repo_def)
qed

end
