(* ===== verification/AutoUpdate.thy ===== *)
theory AutoUpdate
  imports UpdateRemote WebAuth Auth
begin

text \<open>
  The router's side of updates: calling the agent (\<open>core/system_agent/\<close>), the scheduled updates
  (\<open>core/auto_update/\<close>), the owner's update routes (\<open>web/routes/api/settings.py\<close>) and the status the host that
  suspends idle instances asks for (\<open>core/auto_suspend/status.py\<close>). Times are microseconds.
\<close>

section \<open>The state\<close>

text \<open>
  \<open>rt_due\<close> is \<open>_update_due\<close>, \<open>rt_in_run\<close> the flag of a scheduled run, \<open>rt_lock\<close> whether \<open>apply_lock\<close> is held.
\<close>

record 'h router =
  rt_agent :: "'h agent"
  rt_db :: db
  rt_due :: "int option"
  rt_in_run :: bool
  rt_lock :: bool
  rt_issuing_cert :: bool

text \<open>What one \<open>sudo openhost_system_agent\<close> does before the agent's own code: a killed agent leaves a state.\<close>

datatype 'h spawn = Spawned | No_Command | Timed_Out "'h agent" | Sudo_Failed string

record 'h client_env =
  ce_agent :: "'h agent_env"
  ce_auth :: auth_env
  ce_spawn :: "nat \<Rightarrow> 'h agent \<Rightarrow> 'h spawn"
  ce_now :: "'h \<Rightarrow> int"
  ce_isoformat :: "int \<Rightarrow> string"
  ce_fromisoformat :: "string \<Rightarrow> int option"
  ce_other_time :: "string \<Rightarrow> int option"
  ce_default_time :: int
  ce_token :: string

datatype router_exn = Agent_Error string | Raised string

fun router_text :: "router_exn \<Rightarrow> string" where
  "router_text (Agent_Error m) = m"
| "router_text (Raised m) = m"

type_synonym ('h, 'a) routine = "('h router, router_exn, 'a) prog"

section \<open>Calling the agent (\<open>client.py\<close>)\<close>

definition NOT_FOUND_RETRIES :: nat where "NOT_FOUND_RETRIES = 5"

definition is_cmd_not_found :: "string \<Rightarrow> bool" where
  "is_cmd_not_found error \<longleftrightarrow>
     contains_str error ''openhost_system_agent: command not found'' \<or>
     contains_str error (''openhost_system_agent'' @ CHR 0x27 # '': No such file or directory'')"

definition on_agent :: "('h, 'a) action \<Rightarrow> ('h, agent_exn + 'a) routine" where
  "on_agent p s = (let (r, a) = p (rt_agent s) in (Inr r, s\<lparr>rt_agent := a\<rparr>))"

text \<open>
  \<open>_run_system_agent\<close> for the command whose code in the agent is \<open>op\<close>; \<open>n\<close> attempts are left. What the agent
  prints is read back as the value it was.
\<close>

fun run_attempts :: "'h client_env \<Rightarrow> ('h, 'a) action \<Rightarrow> nat \<Rightarrow> nat \<Rightarrow> ('h, 'a) routine" where
  "run_attempts E op timeout 0 = raising (Agent_Error ''openhost_system_agent failed'')"
| "run_attempts E op timeout (Suc n) =
     (let failed = (\<lambda>error.
        if is_cmd_not_found error then
          (if n = 0 then raising (Agent_Error (py_strip error @ CHR 0x0A # CHR 0x0A #
             ''The openhost_system_agent binary is not on '' @ ''sudo'' @ CHR 0x27 # ''s PATH. '' @
             ''Re-running the ansible deploy against this host will reinstall it '' @ [CHR 0xE2, CHR 0x80, CHR 0x94] @
             '' see https://github.com/cloud-in-a-bottle/cloud-in-a-bottle/blob/main/ansible/readme.md''))
           else and_then (on_agent (on_host (\<lambda>h. ((), ge_sleep (ce_agent E) (1 / 2) h)))) (\<lambda>_.
             run_attempts E op timeout n))
        else raising (Agent_Error error))
      in and_then (reading (\<lambda>s. ce_spawn E timeout (rt_agent s))) (\<lambda>spawn.
        case spawn of
          No_Command \<Rightarrow> raising (Agent_Error ''openhost_system_agent not found on PATH'')
        | Timed_Out a \<Rightarrow>
            and_then (changing (\<lambda>s. s\<lparr>rt_agent := a\<rparr>)) (\<lambda>_.
              raising (Agent_Error (''openhost_system_agent timed out after '' @ show_nat timeout @ ''s'')))
        | Sudo_Failed error \<Rightarrow> failed error
        | Spawned \<Rightarrow>
            and_then (on_agent op) (\<lambda>r. case r of Inr a \<Rightarrow> returning a | Inl e \<Rightarrow> failed (exn_text e))))"

definition run_system_agent :: "'h client_env \<Rightarrow> ('h, 'a) action \<Rightarrow> nat \<Rightarrow> ('h, 'a) routine" where
  "run_system_agent E op timeout = run_attempts E op timeout NOT_FOUND_RETRIES"

definition agent_fetch :: "'h client_env \<Rightarrow> ('h, string) routine" where
  "agent_fetch E = run_system_agent E (fetch_updates (ce_agent E)) 300"

definition agent_show_diff :: "'h client_env \<Rightarrow> ('h, diff_result) routine" where
  "agent_show_diff E = run_system_agent E (and_then (open_repo (ce_agent E)) (\<lambda>_. from_repo show_diff)) 300"

definition agent_status :: "'h client_env \<Rightarrow> ('h, migration_status) routine" where
  "agent_status E = run_system_agent E (reading (\<lambda>a. get_migration_status (ag_migrations a))) 300"

definition agent_get_remote :: "'h client_env \<Rightarrow> ('h, remote_info) routine" where
  "agent_get_remote E = run_system_agent E (get_remote_info (ae_netloc_ok (ce_auth E)) (ce_agent E)) 300"

definition agent_set_remote :: "'h client_env \<Rightarrow> string \<Rightarrow> ('h, remote_info) routine" where
  "agent_set_remote E url = run_system_agent E (set_remote_url (ae_netloc_ok (ce_auth E)) (ce_agent E) url) 120"

definition agent_set_prereleases :: "'h client_env \<Rightarrow> bool \<Rightarrow> ('h, remote_info) routine" where
  "agent_set_prereleases E enabled =
     run_system_agent E (set_prereleases (ae_netloc_ok (ce_auth E)) (ce_agent E) enabled) 300"

text \<open>\<open>updater set-token\<close>, which empties the progress log first, and \<open>updater clear-token\<close>.\<close>

definition set_token :: "'h agent_env \<Rightarrow> string \<Rightarrow> ('h, unit) action" where
  "set_token E token = and_then (reset_progress E) (\<lambda>_. changing (\<lambda>a. a\<lparr>ag_token := Some token\<rparr>))"

definition clear_token :: "('h, unit) action" where
  "clear_token = changing (\<lambda>a. a\<lparr>ag_token := None\<rparr>)"

definition persist_update_token :: "'h client_env \<Rightarrow> string \<Rightarrow> ('h, unit) routine" where
  "persist_update_token E token =
     handling (run_system_agent E (set_token (ce_agent E) token) 30) (\<lambda>e.
       case e of Agent_Error _ \<Rightarrow> returning () | Raised _ \<Rightarrow> raising e)"

text \<open>The router's own reads and writes of the progress log, as the host user.\<close>

definition as_host :: "'h client_env \<Rightarrow> 'h agent_env" where
  "as_host E = (ce_agent E)\<lparr>ge_root := False\<rparr>"

definition record_apply_failure :: "'h client_env \<Rightarrow> string \<Rightarrow> ('h, unit) routine" where
  "record_apply_failure E message =
     and_then (on_agent (record_failure_if_not_terminal (as_host E) message)) (\<lambda>r.
       if r = Inr True then returning ()
       else handling
         (and_then (run_system_agent E (record_failure_if_not_terminal (ce_agent E) message) 30) (\<lambda>_. returning ()))
         (\<lambda>e. case e of Agent_Error _ \<Rightarrow> returning () | Raised _ \<Rightarrow> raising e))"

definition mark_boot_complete_router :: "'h client_env \<Rightarrow> ('h, unit) routine" where
  "mark_boot_complete_router E =
     and_then (on_agent (mark_boot_complete (as_host E))) (\<lambda>r.
       if r = Inr True then returning ()
       else handling
         (and_then (run_system_agent E (mark_boot_complete (ce_agent E)) 30) (\<lambda>_. returning ()))
         (\<lambda>e. case e of Agent_Error _ \<Rightarrow> returning () | Raised _ \<Rightarrow> raising e))"

datatype apply_launch = Apply_Started | Apply_Already_Running | Apply_Failed

definition launch_apply :: "'h client_env \<Rightarrow> ('h, apply_launch) routine" where
  "launch_apply E =
     handling
       (and_then (run_system_agent E (start_apply (ce_agent E) False) 60) (\<lambda>_. returning Apply_Started))
       (\<lambda>e.
         if contains_str (router_text e) ''already in progress'' then returning Apply_Already_Running
         else and_then (record_apply_failure E (''Update failed: '' @ router_text e)) (\<lambda>_.
           and_then (handling (run_system_agent E clear_token 30)
               (\<lambda>e'. case e' of Agent_Error _ \<Rightarrow> returning () | Raised _ \<Rightarrow> raising e')) (\<lambda>_.
             returning Apply_Failed)))"

text \<open>
  \<open>system_agent_apply\<close>: its task owns the lock and releases it at once unless the walk started. Then it looks
  every two seconds (\<open>monitor_apply\<close>) until the unit is known to be inactive and the log is over.
\<close>

definition system_agent_apply :: "'h client_env \<Rightarrow> ('h, apply_launch) routine" where
  "system_agent_apply E =
     and_then (handling (launch_apply E) (\<lambda>e. and_then (changing (\<lambda>s. s\<lparr>rt_lock := False\<rparr>)) (\<lambda>_. raising e))) (\<lambda>launch.
     and_then (when_do (launch \<noteq> Apply_Started) (changing (\<lambda>s. s\<lparr>rt_lock := False\<rparr>))) (\<lambda>_.
       returning launch))"

text \<open>\<open>client._apply_is_running\<close>, which raises where the agent's own check says that nothing runs.\<close>

definition confirmed_running :: "'h agent_env \<Rightarrow> ('h, bool) action" where
  "confirmed_running E =
     and_then (running E [''systemctl'', ''show'', ''--property=ActiveState'', ''--value'', APPLY_UNIT] 15) (\<lambda>r.
       case r of
         NotRun m \<Rightarrow> raising (Failed_With m)
       | Completed rc out err \<Rightarrow>
           (let state = py_strip out in
            if rc \<noteq> 0 \<or> state \<notin> set (ACTIVE_STATES @ [''inactive'', ''failed''])
            then raising (Failed_With (''Could not determine detached apply state: '' @ (if err = [] then state else err)))
            else returning (state \<noteq> ''inactive'' \<and> state \<noteq> ''failed'')))"

definition apply_finished :: "'h agent_env \<Rightarrow> ('h, bool) action" where
  "apply_finished E =
     and_then (confirmed_running E) (\<lambda>active.
     and_then (reading (\<lambda>a. is_terminal (read_entries (ag_log a)))) (\<lambda>over. returning (\<not> active \<and> over)))"

definition monitor_apply :: "'h client_env \<Rightarrow> ('h, unit) routine" where
  "monitor_apply E =
     and_then (on_agent (apply_finished (as_host E))) (\<lambda>r.
       when_do (r = Inr True) (changing (\<lambda>s. s\<lparr>rt_lock := False\<rparr>)))"

section \<open>The schedule's settings (\<open>auto_update/config.py\<close>)\<close>

definition ENABLED_KEY :: string where "ENABLED_KEY = ''auto_update_enabled''"
definition TIME_UTC_KEY :: string where "TIME_UTC_KEY = ''auto_update_time_utc''"
definition LAST_RUN_AT_KEY :: string where "LAST_RUN_AT_KEY = ''auto_update_last_run_at''"
definition LAST_RUN_OUTCOME_KEY :: string where "LAST_RUN_OUTCOME_KEY = ''auto_update_last_run_outcome''"
definition LAST_RUN_DETAIL_KEY :: string where "LAST_RUN_DETAIL_KEY = ''auto_update_last_run_detail''"

definition MINUTE :: int where "MINUTE = 60000000"
definition DAY :: int where "DAY = 86400000000"

text \<open>
  A time of day is the microseconds since midnight. \<open>fromisoformat\<close> of the form the router writes, HH:MM; the
  other forms it knows are the parameter \<open>other\<close>.
\<close>

definition is_hh_mm :: "string \<Rightarrow> bool" where
  "is_hh_mm s \<longleftrightarrow> length s = 5 \<and> s ! 2 = CHR '':'' \<and> list_all is_digit_char (take 2 s) \<and> list_all is_digit_char (drop 3 s)"

definition time_fromisoformat :: "(string \<Rightarrow> int option) \<Rightarrow> string \<Rightarrow> int option" where
  "time_fromisoformat other s =
     (if is_hh_mm s
      then (let hour = digits_value (take 2 s); minute = digits_value (drop 3 s)
            in if hour < 24 \<and> minute < 60 then Some ((60 * hour + minute) * MINUTE) else None)
      else other s)"

definition two_digits :: "int \<Rightarrow> string" where
  "two_digits n = (if n < 10 then CHR ''0'' # show_int n else show_int n)"

definition strftime_hh_mm :: "int \<Rightarrow> string" where
  "strftime_hh_mm t = two_digits (t div (60 * MINUTE)) @ '':'' @ two_digits (t div MINUTE mod 60)"

record auto_update_config =
  au_enabled :: bool
  au_time_utc :: int

datatype update_outcome = Started | Up_To_Date | Not_On_Tags | Dirty | Already_Running_Outcome | Failed_Outcome

definition outcome_values :: "(update_outcome \<times> string) list" where
  "outcome_values =
     [(Started, ''started''), (Up_To_Date, ''up_to_date''), (Not_On_Tags, ''not_on_tags''), (Dirty, ''dirty''),
      (Already_Running_Outcome, ''already_running''), (Failed_Outcome, ''failed'')]"

definition outcome_value :: "update_outcome \<Rightarrow> string" where
  "outcome_value x = the (map_of outcome_values x)"

definition outcome_of_value :: "string \<Rightarrow> update_outcome option" where
  "outcome_of_value v = map_of (map (\<lambda>(a, b). (b, a)) outcome_values) v"

record last_run =
  lr_at :: int
  lr_outcome :: update_outcome
  lr_detail :: "string option"

fun outcome_message :: "update_outcome \<Rightarrow> string" where
  "outcome_message Started = ''Started an update to the latest release.''"
| "outcome_message Up_To_Date = ''Already up to date.''"
| "outcome_message Not_On_Tags = ''Skipped: automatic updates only run when following tagged releases.''"
| "outcome_message Dirty = ''Skipped: this instance has uncommitted local changes.''"
| "outcome_message Already_Running_Outcome = ''Skipped: an update is already in progress.''"
| "outcome_message Failed_Outcome = ''Failed.''"

definition describe_run :: "last_run \<Rightarrow> string" where
  "describe_run run =
     (case non_empty (lr_detail run) of
        Some d \<Rightarrow> if lr_outcome run = Failed_Outcome then ''Failed: '' @ d else outcome_message (lr_outcome run)
      | None \<Rightarrow> outcome_message (lr_outcome run))"

definition read_auto_update_config :: "'h client_env \<Rightarrow> db \<Rightarrow> router_exn + auto_update_config" where
  "read_auto_update_config E db =
     (let enabled_raw = get_setting db ENABLED_KEY in
      if enabled_raw \<notin> {None, Some ''0'', Some ''1''} then Inl (Raised ''invalid auto_update_enabled setting'')
      else (case non_empty (get_setting db TIME_UTC_KEY) of
          None \<Rightarrow> Inr \<lparr>au_enabled = enabled_raw \<noteq> Some ''0'', au_time_utc = ce_default_time E\<rparr>
        | Some raw \<Rightarrow>
            (case time_fromisoformat (ce_other_time E) raw of
               None \<Rightarrow> Inl (Raised ''Invalid isoformat string'')
             | Some t \<Rightarrow> Inr \<lparr>au_enabled = enabled_raw \<noteq> Some ''0'', au_time_utc = t\<rparr>)))"

definition write_auto_update_config :: "db \<Rightarrow> auto_update_config \<Rightarrow> db" where
  "write_auto_update_config db config =
     set_setting (set_setting db ENABLED_KEY (if au_enabled config then ''1'' else ''0''))
       TIME_UTC_KEY (strftime_hh_mm (au_time_utc config))"

definition read_last_run :: "'h client_env \<Rightarrow> db \<Rightarrow> router_exn + last_run option" where
  "read_last_run E db =
     (case (get_setting db LAST_RUN_AT_KEY, get_setting db LAST_RUN_OUTCOME_KEY) of
        (Some at_raw, Some outcome_raw) \<Rightarrow>
          (case ce_fromisoformat E at_raw of
             None \<Rightarrow> Inl (Raised ''Invalid isoformat string'')
           | Some moment \<Rightarrow>
               (case outcome_of_value outcome_raw of
                  None \<Rightarrow> Inl (Raised ''not a valid AutoUpdateOutcome'')
                | Some x \<Rightarrow> Inr (Some \<lparr>lr_at = moment, lr_outcome = x, lr_detail = get_setting db LAST_RUN_DETAIL_KEY\<rparr>)))
      | _ \<Rightarrow> Inr None)"

definition record_last_run :: "'h client_env \<Rightarrow> db \<Rightarrow> last_run \<Rightarrow> db" where
  "record_last_run E db run =
     (let db1 = set_setting (set_setting db LAST_RUN_AT_KEY (ce_isoformat E (lr_at run)))
                  LAST_RUN_OUTCOME_KEY (outcome_value (lr_outcome run))
      in case lr_detail run of
           None \<Rightarrow> delete_setting db1 LAST_RUN_DETAIL_KEY
         | Some d \<Rightarrow> set_setting db1 LAST_RUN_DETAIL_KEY d)"

section \<open>A scheduled update (\<open>auto_update/runner.py\<close>)\<close>

definition recording :: "'h client_env \<Rightarrow> int \<Rightarrow> update_outcome \<Rightarrow> string option \<Rightarrow> ('h, unit) routine" where
  "recording E moment x detail =
     changing (\<lambda>s. s\<lparr>rt_db := record_last_run E (rt_db s) \<lparr>lr_at = moment, lr_outcome = x, lr_detail = detail\<rparr>\<rparr>)"

text \<open>\<open>_check_if_update_possible\<close>: the outcome that stops the run, or None to go ahead.\<close>

definition check_if_update_possible :: "'h client_env \<Rightarrow> ('h, (update_outcome \<times> string option) option) routine" where
  "check_if_update_possible E =
     and_then (agent_get_remote E) (\<lambda>remote.
       if ri_channel remote \<noteq> On_Tags then returning (Some (Not_On_Tags, None))
       else and_then (agent_fetch E) (\<lambda>fetched.
         if fetched = ''DIRTY'' then returning (Some (Dirty, None))
         else and_then (agent_status E) (\<lambda>status.
           if \<not> ms_ok status \<and> ms_reason status \<noteq> ''behind'' then returning (Some (Failed_Outcome, Some (ms_message status)))
           else if fetched = ''UP_TO_DATE'' \<and> ms_ok status then returning (Some (Up_To_Date, None))
           else returning None)))"

definition start_scheduled :: "'h client_env \<Rightarrow> int \<Rightarrow> ('h, unit) routine" where
  "start_scheduled E now =
     and_then (reading rt_lock) (\<lambda>locked.
       if locked then recording E now Already_Running_Outcome None
       else and_then (recording E now Started None) (\<lambda>_.
         and_then (changing (\<lambda>s. s\<lparr>rt_lock := True\<rparr>)) (\<lambda>_.
         and_then (system_agent_apply E) (\<lambda>launch.
           case launch of
             Apply_Already_Running \<Rightarrow> recording E now Already_Running_Outcome None
           | Apply_Failed \<Rightarrow> recording E now Failed_Outcome (Some ''the update could not be started.'')
           | Apply_Started \<Rightarrow> returning ()))))"

definition run_auto_update :: "'h client_env \<Rightarrow> ('h, unit) routine" where
  "run_auto_update E =
     and_then (reading (\<lambda>s. ce_now E (ag_host (rt_agent s)))) (\<lambda>now.
     and_then (handling (and_then (check_if_update_possible E) (\<lambda>x. returning (Inr x)))
         (\<lambda>e. case e of Agent_Error m \<Rightarrow> returning (Inl m) | Raised _ \<Rightarrow> raising e)) (\<lambda>checked.
       case checked of
         Inl m \<Rightarrow> recording E now Failed_Outcome (Some (''could not check for updates: '' @ m))
       | Inr (Some (x, detail)) \<Rightarrow> recording E now x detail
       | Inr None \<Rightarrow> start_scheduled E now))"

definition next_datetime_at :: "int \<Rightarrow> int \<Rightarrow> int" where
  "next_datetime_at target now =
     (let candidate = now div DAY * DAY + target in if candidate \<le> now then candidate + DAY else candidate)"

definition first_update_due :: "int \<Rightarrow> int option \<Rightarrow> int \<Rightarrow> int" where
  "first_update_due target last_run_at now =
     (let most_recent = next_datetime_at target now - DAY
      in case last_run_at of
           Some moment \<Rightarrow> if moment < most_recent then most_recent else next_datetime_at target now
         | None \<Rightarrow> next_datetime_at target now)"

definition clock :: "'h client_env \<Rightarrow> 'h router \<Rightarrow> int" where
  "clock E s = ce_now E (ag_host (rt_agent s))"

text \<open>\<open>_run_if_due\<close>, one look of the task that runs every minute.\<close>

definition run_if_due :: "'h client_env \<Rightarrow> ('h, unit) routine" where
  "run_if_due E =
     and_then (reading (clock E)) (\<lambda>now.
     and_then (\<lambda>s. (read_auto_update_config E (rt_db s), s)) (\<lambda>config.
     and_then (reading rt_due) (\<lambda>due.
     and_then (if due \<noteq> None then returning ()
        else and_then (\<lambda>s. (read_last_run E (rt_db s), s)) (\<lambda>last_run.
          changing (\<lambda>s. s\<lparr>rt_due := Some (first_update_due (au_time_utc config) (map_option lr_at last_run) now)\<rparr>))) (\<lambda>_.
     and_then (reading (\<lambda>s. the (rt_due s))) (\<lambda>due.
       when_do (au_enabled config \<and> due < now)
         (and_then (changing (\<lambda>s. s\<lparr>rt_in_run := True\<rparr>)) (\<lambda>_.
            finally_do (run_auto_update E)
              (changing (\<lambda>s. s\<lparr>rt_in_run := False, rt_due := Some (next_datetime_at (au_time_utc config) (clock E s))\<rparr>)))))))))"

text \<open>\<open>reschedule_auto_update\<close>.\<close>

definition reschedule_auto_update :: "'h client_env \<Rightarrow> int \<Rightarrow> 'h router \<Rightarrow> 'h router" where
  "reschedule_auto_update E time_utc s = s\<lparr>rt_due := Some (next_datetime_at time_utc (clock E s))\<rparr>"

section \<open>The owner's routes (\<open>web/routes/api/settings.py\<close>)\<close>

datatype update_error =
    Upd_Unauthorized auth_error
  | Upd_Internal string string
  | Upd_Conflict string string
  | Upd_Invalid string string
  | Upd_Crash string

type_synonym ('h, 'a) handler = "('h router, update_error, 'a) prog"

definition update_owner_only :: "'h client_env \<Rightarrow> conn \<Rightarrow> ('h, 'a) handler \<Rightarrow> ('h, 'a) handler" where
  "update_owner_only E c p s =
     (case require_owner_auth (ce_auth E) c (rt_db s) of Inl x \<Rightarrow> (Inl (Upd_Unauthorized x), s) | Inr _ \<Rightarrow> p s)"

text \<open>A routine in a handler: a \<open>SystemAgentError\<close> becomes what \<open>f\<close> says, anything else leaves the handler.\<close>

definition handle_agent :: "('h, 'a) routine \<Rightarrow> (string \<Rightarrow> ('h, 'a) handler) \<Rightarrow> ('h, 'a) handler" where
  "handle_agent p f s =
     (case p s of
        (Inr a, t) \<Rightarrow> (Inr a, t)
      | (Inl (Agent_Error m), t) \<Rightarrow> f m t
      | (Inl (Raised m), t) \<Rightarrow> (Inl (Upd_Crash m), t))"

definition get_remote_route :: "'h client_env \<Rightarrow> conn \<Rightarrow> ('h, remote_info) handler" where
  "get_remote_route E c =
     update_owner_only E c (handle_agent (agent_get_remote E) (\<lambda>m. raising (Upd_Internal ''Failed to read the git remote'' m)))"

definition set_remote_route :: "'h client_env \<Rightarrow> conn \<Rightarrow> string \<Rightarrow> ('h, remote_info) handler" where
  "set_remote_route E c url =
     update_owner_only E c
       (if py_strip url = [] then raising (Upd_Invalid ''url'' ''blank'')
        else handle_agent (agent_set_remote E (py_strip url)) (\<lambda>m. raising (Upd_Internal ''Failed to set the git remote'' m)))"

definition set_prereleases_route :: "'h client_env \<Rightarrow> conn \<Rightarrow> bool \<Rightarrow> ('h, remote_info) handler" where
  "set_prereleases_route E c enabled =
     update_owner_only E c (handle_agent (agent_set_prereleases E enabled)
       (\<lambda>m. raising (Upd_Internal ''Failed to save the release candidate setting'' m)))"

record check_response =
  cr_state :: string
  cr_error :: "string option"

definition update_state_of :: "string \<Rightarrow> string option" where
  "update_state_of git_state =
     map_of [(''UP_TO_DATE'', ''UP_TO_DATE''), (''BEHIND_REMOTE'', ''UPDATE_AVAILABLE''), (''DIRTY'', ''UPDATE_AVAILABLE'')] git_state"

definition git_state_notice :: "string \<Rightarrow> string option" where
  "git_state_notice git_state =
     (if git_state = ''DIRTY''
      then Some (''This instance has uncommitted local changes. Updating will refuse to run until they are '' @
                 ''committed or discarded.'')
      else None)"

definition check_answer :: "string \<Rightarrow> migration_status \<Rightarrow> check_response" where
  "check_answer fetched status =
     (if \<not> ms_ok status \<and> ms_reason status = ''behind'' then \<lparr>cr_state = ''UPDATE_AVAILABLE'', cr_error = None\<rparr>
      else if \<not> ms_ok status then \<lparr>cr_state = ''ERROR'', cr_error = Some (ms_message status)\<rparr>
      else (case update_state_of fetched of
          None \<Rightarrow> \<lparr>cr_state = ''ERROR'', cr_error = Some (''Unknown git state: '' @ fetched)\<rparr>
        | Some state \<Rightarrow> \<lparr>cr_state = state, cr_error = git_state_notice fetched\<rparr>))"

definition check_for_updates :: "'h client_env \<Rightarrow> conn \<Rightarrow> ('h, check_response) handler" where
  "check_for_updates E c =
     update_owner_only E c
       (handle_agent
         (and_then (agent_fetch E) (\<lambda>fetched.
          and_then (agent_status E) (\<lambda>status. returning (check_answer fetched status))))
         (\<lambda>m. returning \<lparr>cr_state = ''ERROR'', cr_error = Some m\<rparr>))"

text \<open>
  \<open>apply_update\<close>, whose answer is the token; the apply itself (\<open>system_agent_apply\<close>) is the response's
  background task, which then holds the lock.
\<close>

definition apply_update_route :: "'h client_env \<Rightarrow> conn \<Rightarrow> ('h, string) handler" where
  "apply_update_route E c =
     update_owner_only E c
       (and_then (reading rt_lock) (\<lambda>locked.
         if locked then raising (Upd_Conflict ''update_in_progress'' ''An update is already in progress.'')
         else and_then (changing (\<lambda>s. s\<lparr>rt_lock := True\<rparr>)) (\<lambda>_.
           handling
             (and_then (handle_agent (agent_status E) (\<lambda>m. raising (Upd_Internal ''Failed to read migration status'' m))) (\<lambda>status.
               if \<not> ms_ok status \<and> ms_reason status \<noteq> ''behind''
               then raising (Upd_Conflict ''migrations_not_ok'' (ms_message status))
               else and_then (handle_agent (persist_update_token E (ce_token E)) (\<lambda>m. raising (Upd_Crash m))) (\<lambda>_.
                 returning (ce_token E))))
             (\<lambda>e. and_then (changing (\<lambda>s. s\<lparr>rt_lock := False\<rparr>)) (\<lambda>_. raising e)))))"

record auto_update_response =
  ar_enabled :: bool
  ar_time_utc :: string
  ar_last_run_at :: "string option"
  ar_last_run_message :: "string option"

definition auto_update_response_of :: "'h client_env \<Rightarrow> db \<Rightarrow> router_exn + auto_update_response" where
  "auto_update_response_of E db =
     bind_res (read_auto_update_config E db) (\<lambda>config.
     bind_res (read_last_run E db) (\<lambda>run.
       Inr \<lparr>ar_enabled = au_enabled config, ar_time_utc = strftime_hh_mm (au_time_utc config),
            ar_last_run_at = map_option (\<lambda>r. ce_isoformat E (lr_at r)) run,
            ar_last_run_message = map_option describe_run run\<rparr>))"

definition answer_auto_update :: "'h client_env \<Rightarrow> ('h, auto_update_response) handler" where
  "answer_auto_update E s =
     (case auto_update_response_of E (rt_db s) of Inl e \<Rightarrow> (Inl (Upd_Crash (router_text e)), s) | Inr a \<Rightarrow> (Inr a, s))"

definition get_auto_update :: "'h client_env \<Rightarrow> conn \<Rightarrow> ('h, auto_update_response) handler" where
  "get_auto_update E c = update_owner_only E c (answer_auto_update E)"

definition set_auto_update :: "'h client_env \<Rightarrow> conn \<Rightarrow> bool \<Rightarrow> string \<Rightarrow> ('h, auto_update_response) handler" where
  "set_auto_update E c enabled time_text =
     update_owner_only E c
       (case (if is_hh_mm time_text then time_fromisoformat (ce_other_time E) time_text else None) of
          None \<Rightarrow> raising (Upd_Invalid ''invalid_time'' ''Time must be HH:MM'')
        | Some t \<Rightarrow>
            and_then (changing (\<lambda>s. reschedule_auto_update E t
                (s\<lparr>rt_db := write_auto_update_config (rt_db s) \<lparr>au_enabled = enabled, au_time_utc = t\<rparr>\<rparr>))) (\<lambda>_.
              answer_auto_update E))"

definition update_progress :: "'h client_env \<Rightarrow> conn \<Rightarrow> ('h, progress_entry list \<times> bool) handler" where
  "update_progress E c =
     update_owner_only E c (reading (\<lambda>s. let entries = read_entries (ag_log (rt_agent s)) in (entries, is_terminal entries)))"

section \<open>Whether the instance can be suspended\<close>

datatype busy_reason = Platform_Update | Tls_Certificate

definition get_auto_suspend_status :: "'h client_env \<Rightarrow> 'h router \<Rightarrow> router_exn + busy_reason list \<times> int option" where
  "get_auto_suspend_status E s =
     bind_res (read_auto_update_config E (rt_db s)) (\<lambda>config.
       Inr ((if rt_lock s \<or> rt_in_run s then [Platform_Update] else []) @ (if rt_issuing_cert s then [Tls_Certificate] else []),
            if au_enabled config then Some (au_time_utc config) else None))"

definition auto_suspend_status :: "'h client_env \<Rightarrow> conn \<Rightarrow> ('h, busy_reason list \<times> int option) handler" where
  "auto_suspend_status E c s =
     (case require_auto_suspend_auth (ce_auth E) c of
        Inl x \<Rightarrow> (Inl (Upd_Unauthorized x), s)
      | Inr _ \<Rightarrow>
          (case get_auto_suspend_status E s of Inl e \<Rightarrow> (Inl (Upd_Crash (router_text e)), s) | Inr a \<Rightarrow> (Inr a, s)))"

section \<open>Facts\<close>

lemma next_datetime:
  assumes "0 \<le> target" and "target < DAY"
  shows "now < next_datetime_at target now" "next_datetime_at target now \<le> now + DAY"
    "next_datetime_at target now mod DAY = target"
proof -
  define midnight where "midnight = now div DAY * DAY"
  have "midnight + now mod DAY = now" by (simp add: midnight_def)
  moreover have "0 \<le> now mod DAY" "now mod DAY < DAY" by (simp_all add: DAY_def)
  ultimately have "midnight \<le> now" "now < midnight + DAY" by linarith+
  then show "now < next_datetime_at target now" "next_datetime_at target now \<le> now + DAY"
    using assms unfolding next_datetime_at_def Let_def midnight_def [symmetric] by auto
  have "(now div DAY * DAY + target) mod DAY = target" using assms by (metis mod_mult_self3 mod_pos_pos_trivial)
  then show "next_datetime_at target now mod DAY = target" by (simp add: next_datetime_at_def Let_def)
qed

text \<open>What the agent answered is what its code returned on the state the call leaves.\<close>

lemma run_attempts_answer:
  "run_attempts E op timeout n s = (Inr a, t) \<Longrightarrow>
     (\<exists>u. op u = (Inr a, rt_agent t)) \<and> rt_db t = rt_db s \<and> rt_due t = rt_due s \<and> rt_lock t = rt_lock s"
proof (induction n arbitrary: s)
  case (Suc n)
  have failed: "(\<exists>u. op u = (Inr a, rt_agent t)) \<and> rt_db t = rt_db s0 \<and> rt_due t = rt_due s0 \<and> rt_lock t = rt_lock s0"
    if "(if is_cmd_not_found error then
          (if n = 0 then raising (Agent_Error m)
           else and_then (on_agent (on_host (\<lambda>h. ((), ge_sleep (ce_agent E) (1 / 2) h)))) (\<lambda>_.
             run_attempts E op timeout n))
        else raising (Agent_Error error)) s0 = (Inr a, t)" for error m s0
  proof -
    let ?s = "s0\<lparr>rt_agent := (rt_agent s0)\<lparr>ag_host := ge_sleep (ce_agent E) (1 / 2) (ag_host (rt_agent s0))\<rparr>\<rparr>"
    have "run_attempts E op timeout n ?s = (Inr a, t)"
      using that by (simp add: raising_def and_then_def on_agent_def on_host_def Let_def split: if_splits)
    from Suc.IH [OF this] show ?thesis by simp
  qed
  show ?case
  proof (cases "ce_spawn E timeout (rt_agent s)")
    case Spawned
    obtain r b where op: "op (rt_agent s) = (r, b)" by force
    show ?thesis
    proof (cases r)
      case (Inr x)
      with Suc.prems Spawned op show ?thesis
        by (auto simp: and_then_def reading_def on_agent_def returning_def Let_def)
    next
      case (Inl e)
      with Suc.prems Spawned op failed [of "exn_text e" _ "s\<lparr>rt_agent := b\<rparr>"] show ?thesis
        by (simp add: and_then_def [of "reading _"] and_then_def [of "on_agent op"] reading_def on_agent_def Let_def)
    qed
  next
    case (Sudo_Failed error)
    with Suc.prems failed [of error _ s] show ?thesis by (simp add: and_then_def [of "reading _"] reading_def Let_def)
  qed (use Suc.prems in \<open>simp_all add: and_then_def reading_def changing_def raising_def Let_def\<close>)
qed (simp add: raising_def)

lemma run_system_agent_answer:
  assumes "run_system_agent E op timeout s = (Inr a, t)"
  obtains u where "op u = (Inr a, rt_agent t)" and "rt_lock t = rt_lock s"
  using run_attempts_answer [of E op timeout _ s a t] assms unfolding run_system_agent_def by blast

lemma and_then_Inr:
  assumes "and_then p f s = (Inr b, u)"
  obtains a t where "p s = (Inr a, t)" and "f a t = (Inr b, u)"
  using assms by (auto simp: and_then_def split: prod.splits sum.splits)

lemma from_repo_Inr: "from_repo f s = (Inr a, t) \<Longrightarrow> f (ag_repo s) = Inr a \<and> t = s"
  by (cases "f (ag_repo s)") (auto simp: from_repo_def)

definition lock_kept :: "'h router \<Rightarrow> 'h router \<Rightarrow> bool" where
  "lock_kept s t \<longleftrightarrow> rt_lock t = rt_lock s"

interpretation lock: state_frame lock_kept by unfold_locales (simp_all add: lock_kept_def)

lemma lock_frame_basic [frame_intros]:
  "lock.frames (on_agent p)" "lock.frames (recording E m x d)" "lock.frames (changing (\<lambda>s. s\<lparr>rt_agent := a\<rparr>))"
  by (simp_all add: lock.frames_def lock_kept_def on_agent_def recording_def changing_def Let_def split: prod.splits)

lemma lock_frame_calls [frame_intros]: "lock.frames (run_attempts E op timeout n)" "lock.frames (run_system_agent E op timeout)"
proof -
  show *: "lock.frames (run_attempts E op timeout n)" for n
    by (induction n) (auto simp: Let_def intro!: frame_intros split: spawn.split sum.split)
  show "lock.frames (run_system_agent E op timeout)" unfolding run_system_agent_def by (rule *)
qed

lemma lock_frame_check [frame_intros]: "lock.frames (check_if_update_possible E)"
  unfolding check_if_update_possible_def agent_get_remote_def agent_fetch_def agent_status_def by (intro frame_intros)

text \<open>What the three answers of a check that goes ahead say about the repository.\<close>

lemma remote_info_channel:
  "remote_info_of ok repo origin = Inr info \<Longrightarrow> ri_channel info = channel_for_target repo (get_target_ref repo)"
  by (cases "get_prereleases_setting repo") (auto simp: remote_info_of_def Let_def bind_res_eq_Inr)

lemma remote_answer:
  assumes "agent_get_remote E s = (Inr info, t)"
  shows "ri_channel info = channel_for_target (ag_repo (rt_agent t)) (get_target_ref (ag_repo (rt_agent t)))"
  using assms unfolding agent_get_remote_def
  by (elim run_system_agent_answer)
    (auto simp: get_remote_info_def elim!: and_then_Inr dest!: from_repo_Inr remote_info_channel)

lemma fetch_answer:
  assumes "agent_fetch E s = (Inr fetched, t)"
  shows "fetch_state (ag_repo (rt_agent t)) = Inr fetched"
  using assms unfolding agent_fetch_def
  by (elim run_system_agent_answer) (auto simp: fetch_updates_def elim!: and_then_Inr dest!: from_repo_Inr)

lemma on_tags_iff: "channel_for_target repo target = On_Tags \<longleftrightarrow> target = None"
  by (simp add: channel_for_target_def split: option.split)

text \<open>C36. A scheduled update is started only where it is called for: the host follows the tags (no pin), its tree
  is clean, and the walk has a step to take or the host has migrations pending. Here the update is started
  when a run takes the lock, which it does nowhere else.
\<close>

theorem scheduled_update_is_warranted:
  assumes "run_auto_update E s = (r, t)" and "\<not> rt_lock s" and "rt_lock t"
  shows "\<exists>info s1 fetched s2 status s3.
     agent_get_remote E s = (Inr info, s1) \<and> agent_fetch E s1 = (Inr fetched, s2) \<and> agent_status E s2 = (Inr status, s3) \<and>
     get_target_ref (ag_repo (rt_agent s1)) = None \<and> \<not> gr_dirty (ag_repo (rt_agent s2)) \<and>
     ((\<exists>step. next_step (ag_repo (rt_agent s2)) = Inr (Some step)) \<or> ms_reason status = ''behind'')"
proof -
  obtain c s3 where c: "check_if_update_possible E s = (c, s3)" by force
  have lock: "rt_lock s3 = rt_lock s" using lock.framesD [OF lock_frame_check c] by (simp add: lock_kept_def)
  have kept: "rt_lock u = rt_lock s3" if "recording E m x d s3 = (q, u)" for m x d q u
    using lock.framesD [OF lock_frame_basic(2) that] by (simp add: lock_kept_def)
  have "c = Inr None"
  proof (rule ccontr)
    assume "c \<noteq> Inr None"
    then have "rt_lock t = rt_lock s3"
      using assms(1) c kept
      by (auto simp: run_auto_update_def and_then_def reading_def handling_def returning_def raising_def
          split: sum.splits router_exn.splits option.splits)
    with assms lock show False by simp
  qed
  with c have check: "check_if_update_possible E s = (Inr None, s3)" by simp
  then obtain info s1 where info: "agent_get_remote E s = (Inr info, s1)" "ri_channel info = On_Tags"
    and rest: "and_then (agent_fetch E) (\<lambda>fetched.
         if fetched = ''DIRTY'' then returning (Some (Dirty, None))
         else and_then (agent_status E) (\<lambda>status.
           if \<not> ms_ok status \<and> ms_reason status \<noteq> ''behind'' then returning (Some (Failed_Outcome, Some (ms_message status)))
           else if fetched = ''UP_TO_DATE'' \<and> ms_ok status then returning (Some (Up_To_Date, None))
           else returning None)) s1 = (Inr None, s3)"
    unfolding check_if_update_possible_def by (elim and_then_Inr) (auto simp: returning_def split: if_splits)
  from rest obtain fetched s2 status where fetched: "agent_fetch E s1 = (Inr fetched, s2)" "fetched \<noteq> ''DIRTY''"
    and status: "agent_status E s2 = (Inr status, s3)" "ms_ok status \<or> ms_reason status = ''behind''"
      "fetched \<noteq> ''UP_TO_DATE'' \<or> \<not> ms_ok status"
    by (elim and_then_Inr) (auto simp: returning_def split: if_splits elim!: and_then_Inr)
  have state: "fetch_state (ag_repo (rt_agent s2)) = Inr fetched" by (rule fetch_answer [OF fetched(1)])
  have clean: "\<not> gr_dirty (ag_repo (rt_agent s2))" using state fetched(2) by (auto simp: fetch_state_def)
  have "\<exists>step. next_step (ag_repo (rt_agent s2)) = Inr (Some step)" if "fetched \<noteq> ''UP_TO_DATE''"
    using that state clean conjunct1 [OF fetch_and_step_agree, of "ag_repo (rt_agent s2)"]
    by (cases "next_step (ag_repo (rt_agent s2))") (auto split: option.splits)
  moreover have "get_target_ref (ag_repo (rt_agent s1)) = None"
    using info remote_answer [OF info(1)] by (simp add: on_tags_iff)
  ultimately show ?thesis using info(1) fetched(1) status clean by blast
qed

lemma same_time_of_day:
  fixes a b :: int
  assumes "a mod DAY = b mod DAY" and "x < a" "a \<le> x + DAY" "x < b" "b \<le> x + DAY"
  shows "a = b"
proof -
  have "DAY dvd a - b" using assms(1) by (simp add: mod_eq_dvd_iff)
  then obtain k where k: "a - b = DAY * k" by (elim dvdE)
  have "\<bar>DAY * k\<bar> < DAY" using assms(2-) k by linarith
  then have "k = 0" by (simp add: DAY_def abs_mult)
  with k show ?thesis by simp
qed

lemma missed_iff:
  assumes "0 \<le> target" and "target < DAY"
  shows "first_update_due target recorded now < now \<longleftrightarrow>
     (\<exists>moment d. recorded = Some moment \<and> moment < d \<and> now - DAY < d \<and> d < now \<and> d mod DAY = target)"
proof -
  define m where "m = next_datetime_at target now - DAY"
  note n = next_datetime [OF assms, of now]
  have m: "m \<le> now" "now - DAY < m" "m mod DAY = target"
    using n by (simp_all add: m_def)
  have unique: "d = m" if "now - DAY < d" "d < now" "d mod DAY = target" for d
    using that m by (intro same_time_of_day [of d m "now - DAY"]) simp_all
  have "first_update_due target recorded now < now \<longleftrightarrow> (\<exists>moment. recorded = Some moment \<and> moment < m \<and> m < now)"
    using n(1) by (auto simp: first_update_due_def Let_def m_def split: option.splits)
  also have "\<dots> \<longleftrightarrow> (\<exists>moment d. recorded = Some moment \<and> moment < d \<and> now - DAY < d \<and> d < now \<and> d mod DAY = target)"
    using m unique by blast
  finally show ?thesis .
qed

definition due_at :: "'h client_env \<Rightarrow> auto_update_config \<Rightarrow> last_run option \<Rightarrow> 'h router \<Rightarrow> int" where
  "due_at E config lr s =
     (case rt_due s of Some d \<Rightarrow> d | None \<Rightarrow> first_update_due (au_time_utc config) (map_option lr_at lr) (clock E s))"


text \<open>
  Minting a token for the page empties the log of an update that is already running, which the agent then
  refuses to start again: what its page follows is gone.
\<close>

lemma token_blanks_running_update:
  assumes "can_log E"
  shows "ag_log (snd (set_token E token a)) = []"
  using assms by (simp add: set_token_def and_then_def reset_progress_def can_log_def changing_def)

section \<open>A concrete router\<close>

definition demo_client :: "bool client_env" where
  "demo_client =
     \<lparr>ce_agent = agent_demo_env\<lparr>ge_detached := False\<rparr>,
      ce_auth = \<lparr>ae_hash = id, ae_now = 0, ae_netloc_ok = (\<lambda>_. True), ae_status_token = None\<rparr>,
      ce_spawn = (\<lambda>_ _. Spawned), ce_now = (\<lambda>_. 10 * DAY + 1), ce_isoformat = (\<lambda>_. ''earlier''),
      ce_fromisoformat = (\<lambda>_. Some (9 * DAY)), ce_other_time = (\<lambda>_. None), ce_default_time = 0, ce_token = ''t''\<rparr>"

definition demo_router :: "bool router" where
  "demo_router =
     \<lparr>rt_agent = demo_agent, rt_db = record_last_run demo_client empty_db \<lparr>lr_at = 9 * DAY, lr_outcome = Started, lr_detail = None\<rparr>,
      rt_due = None, rt_in_run = False, rt_lock = False, rt_issuing_cert = False\<rparr>"

lemma demo_auto_update:
  "fst (run_auto_update demo_client demo_router) = Inr ()" "rt_lock (snd (run_auto_update demo_client demo_router))"
  by code_simp+

lemma scheduled_update_is_warranted_witness:
  "\<exists>info s1 fetched s2. agent_get_remote demo_client demo_router = (Inr info, s1) \<and> agent_fetch demo_client s1 = (Inr fetched, s2) \<and>
     get_target_ref (ag_repo (rt_agent s1)) = None \<and> \<not> gr_dirty (ag_repo (rt_agent s2))"
proof -
  have "\<not> rt_lock demo_router" by (simp add: demo_router_def)
  from scheduled_update_is_warranted [OF prod.collapse [symmetric] this demo_auto_update(2)]
  show ?thesis by blast
qed


end
