(* ===== verification/ArchiveMigration.thy ===== *)
theory ArchiveMigration
  imports ArchiveBackend
begin

text \<open>
  What a migration of the archive keeps, on what is relied on of JuiceFS, systemd and S3: its laws, the steps of
  \<open>configure_backend\<close> as weakest preconditions over three situations (not moved, moving, moved), the names of
  volumes, booting, and a concrete world in which the laws hold.
\<close>

section \<open>What is relied on\<close>

text \<open>
  The objects behind JuiceFS, for specifications: a store is a storage type with its bucket; \<open>av_objects\<close> reads
  an object, \<open>av_volume\<close> the store and the name the metadata database records, \<open>av_place\<close> the store and key prefix a
  URL of \<open>juicefs sync\<close> names. A volume keeps its objects under its name in its store.
\<close>

type_synonym object_store = "string \<times> string"

record 'w archive_view =
  av_objects :: "object_store \<Rightarrow> string \<Rightarrow> 'w \<Rightarrow> string option"
  av_volume :: "'w \<Rightarrow> (object_store \<times> string) option"
  av_place :: "string \<Rightarrow> object_store \<times> string"

text \<open>Every object stays as it is, but for those a command may write or delete.\<close>

definition keeps_but :: "'w archive_view \<Rightarrow> (object_store \<times> string) set \<Rightarrow> 'w \<Rightarrow> 'w \<Rightarrow> bool" where
  "keeps_but V D w w' \<longleftrightarrow>
     (\<forall>store key c. (store, key) \<notin> D \<longrightarrow> av_objects V store key w = Some c \<longrightarrow> av_objects V store key w' = Some c)"

definition harmless :: "'w archive_view \<Rightarrow> 'w \<Rightarrow> 'w \<Rightarrow> bool" where
  "harmless V w w' \<longleftrightarrow> av_volume V w' = av_volume V w \<and> keeps_but V {} w w'"

definition below :: "object_store \<Rightarrow> string \<Rightarrow> (object_store \<times> string) set" where
  "below store pre = {(st, key). st = store \<and> prefix pre key}"

definition local_store :: "config \<Rightarrow> object_store" where
  "local_store cfg = (''file'', file_bucket (local_object_store_dir cfg))"

definition s3_store :: "s3_place \<Rightarrow> object_store" where
  "s3_store p = (''s3'', place_url p)"

definition client_store :: "s3_client \<Rightarrow> string \<Rightarrow> object_store" where
  "client_store client bucket = (''s3'', bucket_url bucket (Some (or_us_east_1 (sc_region client))) (sc_endpoint client))"

text \<open>What files, systemd and the clock do not touch.\<close>

definition host_laws :: "'w archive_ops \<Rightarrow> config \<Rightarrow> 'w archive_view \<Rightarrow> bool" where
  "host_laws os cfg V \<longleftrightarrow>
     (\<forall>t w. harmless V w (ao_sleep os t w)) \<and>
     (\<forall>w. harmless V w (snd (ao_install os (juicefs_binary cfg) w))) \<and>
     (\<forall>path w. harmless V w (ao_makedirs os path w)) \<and>
     (\<forall>content w. harmless V w (ao_write os (juicefs_env_file cfg @ ''.tmp'') content w)) \<and>
     (\<forall>w. harmless V w (ao_replace os (juicefs_env_file cfg @ ''.tmp'') (juicefs_env_file cfg) w)) \<and>
     (\<forall>args env t w. harmless V w (snd (ao_run os (systemctl_cmd args) env t w))) \<and>
     (\<forall>env t w. harmless V w (snd (ao_run os [''systemctl'', ''is-active'', JUICEFS_SERVICE] env t w))) \<and>
     (\<forall>w. av_volume V (ao_rmtree os (local_object_store_dir cfg) w) = av_volume V w \<and>
       keeps_but V {(st, key). st = local_store cfg} w (ao_rmtree os (local_object_store_dir cfg) w))"

text \<open>\<open>juicefs format\<close> on a volume that is there changes nothing of it; \<open>juicefs sync\<close> writes below its destination
  only, and has copied everything when it exits with 0; \<open>juicefs config\<close> moves no object and changes at most the
  store the volume is at.\<close>

definition format_law :: "'w archive_ops \<Rightarrow> config \<Rightarrow> 'w archive_view \<Rightarrow> bool" where
  "format_law os cfg V \<longleftrightarrow> (\<forall>storage bucket volume env t w.
     (case ao_run os (format_cmd cfg storage bucket volume) env t w of (r, w') \<Rightarrow>
        keeps_but V {} w w' \<and>
        (\<forall>n. av_volume V w = Some ((storage, bucket), n) \<longrightarrow> av_volume V w' = av_volume V w)))"

definition sync_law :: "'w archive_ops \<Rightarrow> config \<Rightarrow> 'w archive_view \<Rightarrow> bool" where
  "sync_law os cfg V \<longleftrightarrow> (\<forall>insecure src dst env t w.
     (case ao_run os (sync_cmd cfg insecure src dst) env t w of (r, w') \<Rightarrow>
        av_volume V w' = av_volume V w \<and>
        (case (av_place V src, av_place V dst) of ((src_store, src_prefix), (dst_store, dst_prefix)) \<Rightarrow>
          keeps_but V (below dst_store dst_prefix) w w' \<and>
          (\<forall>out err key c. r = Completed 0 out err \<longrightarrow> av_objects V src_store (src_prefix @ key) w = Some c \<longrightarrow>
             av_objects V dst_store (dst_prefix @ key) w' = Some c))))"

definition config_law :: "'w archive_ops \<Rightarrow> config \<Rightarrow> 'w archive_view \<Rightarrow> bool" where
  "config_law os cfg V \<longleftrightarrow> (\<forall>storage bucket ak sk env t w.
     (case ao_run os (config_cmd cfg storage bucket ak sk) env t w of (r, w') \<Rightarrow>
        keeps_but V {} w w' \<and> map_option snd (av_volume V w') = map_option snd (av_volume V w) \<and>
        (\<forall>out err st n. r = Completed 0 out err \<longrightarrow> av_volume V w = Some (st, n) \<longrightarrow>
           av_volume V w' = Some ((storage, bucket), n))))"

definition delete_law :: "'w archive_ops \<Rightarrow> 'w archive_view \<Rightarrow> bool" where
  "delete_law os V \<longleftrightarrow> (\<forall>client bucket keys w.
     (case ao_delete os client bucket keys w of (r, w') \<Rightarrow>
        av_volume V w' = av_volume V w \<and> keeps_but V {(st, key). st = client_store client bucket \<and> key \<in> set keys} w w'))"

definition archive_laws :: "'w archive_ops \<Rightarrow> config \<Rightarrow> 'w archive_view \<Rightarrow> bool" where
  "archive_laws os cfg V \<longleftrightarrow>
     host_laws os cfg V \<and> format_law os cfg V \<and> sync_law os cfg V \<and> config_law os cfg V \<and> delete_law os V"

lemmas prog_defs = and_then_def handling_def returning_def raising_def reading_def changing_def when_do_def unless_raised_def
  world_def on_world_def calling_def run_checked_def from_result_def

section \<open>Facts\<close>

lemma keeps_but_refl [simp]: "keeps_but V D w w"
  by (simp add: keeps_but_def)

lemma keeps_but_trans: "keeps_but V D w w1 \<Longrightarrow> keeps_but V D w1 w2 \<Longrightarrow> keeps_but V D w w2"
  by (simp add: keeps_but_def)

lemma keeps_but_mono: "keeps_but V D w w' \<Longrightarrow> D \<subseteq> D' \<Longrightarrow> keeps_but V D' w w'"
  by (auto simp: keeps_but_def)

lemma harmless_refl [simp]: "harmless V w w"
  by (simp add: harmless_def)

lemma harmless_trans: "harmless V w w1 \<Longrightarrow> harmless V w1 w2 \<Longrightarrow> harmless V w w2"
  by (auto simp: harmless_def intro: keeps_but_trans)

lemma harmless_keeps: "harmless V w w' \<Longrightarrow> keeps_but V D w w'"
  by (auto simp: harmless_def intro: keeps_but_mono)

text \<open>A program that leaves the row and the objects alone, however it ends.\<close>

definition quiet_prog :: "'w archive_view \<Rightarrow> ('w, 'a) archive_prog \<Rightarrow> bool" where
  "quiet_prog V p \<longleftrightarrow> (\<forall>s. harmless V (ar_world s) (ar_world (snd (p s))) \<and> ar_row (snd (p s)) = ar_row s)"

named_theorems quiet_intros \<open>programs that leave the row and the objects alone\<close>

lemma quiet_basic [quiet_intros]:
  "quiet_prog V (returning a)" "quiet_prog V (raising e)" "quiet_prog V (reading f)" "quiet_prog V (world g)"
  by (simp_all add: quiet_prog_def returning_def raising_def reading_def world_def)

lemma quiet_after:
  "quiet_prog V p \<Longrightarrow> p s = (r, t) \<Longrightarrow> harmless V (ar_world s) (ar_world t) \<and> ar_row t = ar_row s"
  by (metis quiet_prog_def snd_conv)

lemma quiet_then:
  assumes "p s = (r, t)" and "quiet_prog V p" and "quiet_prog V q"
  shows "harmless V (ar_world s) (ar_world (snd (q t))) \<and> ar_row (snd (q t)) = ar_row s"
  using quiet_after [OF assms(2,1)] assms(3) by (metis harmless_trans quiet_prog_def)

lemma quiet_and_then [quiet_intros]:
  assumes p: "quiet_prog V p" and q: "\<And>a. quiet_prog V (f a)"
  shows "quiet_prog V (and_then p f)"
  unfolding quiet_prog_def
proof
  fix s
  obtain r t where r: "p s = (r, t)" by fastforce
  show "harmless V (ar_world s) (ar_world (snd (and_then p f s))) \<and> ar_row (snd (and_then p f s)) = ar_row s"
    using quiet_after [OF p r] quiet_then [OF r p q] r by (cases r) (simp_all add: and_then_def)
qed

lemma quiet_handling [quiet_intros]:
  assumes p: "quiet_prog V p" and q: "\<And>e. quiet_prog V (h e)"
  shows "quiet_prog V (handling p h)"
  unfolding quiet_prog_def
proof
  fix s
  obtain r t where r: "p s = (r, t)" by fastforce
  show "harmless V (ar_world s) (ar_world (snd (handling p h s))) \<and> ar_row (snd (handling p h s)) = ar_row s"
    using quiet_after [OF p r] quiet_then [OF r p q] r by (cases r) (simp_all add: handling_def)
qed

lemma quiet_choices [quiet_intros]:
  "quiet_prog V p \<Longrightarrow> quiet_prog V q \<Longrightarrow> quiet_prog V (if b then p else q)"
  "quiet_prog V p \<Longrightarrow> quiet_prog V (when_do b p)"
  "quiet_prog V (unless_raised x)"
  by (auto simp: quiet_prog_def when_do_def unless_raised_def returning_def raising_def split: option.splits)

lemma quiet_exn_case [quiet_intros]:
  "(\<And>m. quiet_prog V (f m)) \<Longrightarrow> (\<And>m. quiet_prog V (g m)) \<Longrightarrow>
     quiet_prog V (case x of RuntimeRaised m \<Rightarrow> f m | OtherRaised m \<Rightarrow> g m)"
  by (cases x) simp_all

lemma quiet_on_world: "(\<And>w. harmless V w (f w)) \<Longrightarrow> quiet_prog V (on_world f)"
  by (simp add: quiet_prog_def on_world_def changing_def)

lemma quiet_calling:
  assumes "\<And>w. harmless V w (snd (f w))"
  shows "quiet_prog V (calling f)"
  unfolding quiet_prog_def
proof
  fix s :: "_ archive_state"
  obtain a w where "f (ar_world s) = (a, w)" by fastforce
  with assms [of "ar_world s"] show "harmless V (ar_world s) (ar_world (snd (calling f s))) \<and> ar_row (snd (calling f s)) = ar_row s"
    by (simp add: calling_def)
qed

lemma quiet_run_checked:
  "(\<And>w. harmless V w (snd (ao_run os cmd env timeout w))) \<Longrightarrow> quiet_prog V (run_checked os describe cmd env timeout)"
  unfolding run_checked_def
  by (intro quiet_intros quiet_calling) (auto intro: quiet_intros split: run_result.splits)

lemma quiet_wait_mounted:
  assumes "host_laws os cfg V"
  shows "harmless V w (snd (wait_mounted os mount_point deadline n w))"
proof (induction n arbitrary: w)
  case (Suc n)
  have "harmless V w (ao_sleep os (1 / 2) w)" using assms by (simp add: host_laws_def)
  with Suc.IH show ?case by (auto intro: harmless_trans)
qed simp

lemma quiet_parts:
  assumes "host_laws os cfg V"
  shows "quiet_prog V (systemctl os args timeout)" and "quiet_prog V (ensure_installed os cfg)"
    and "quiet_prog V (on_world (ao_makedirs os path))" and "quiet_prog V (write_env_file os cfg ak sk)"
proof -
  show "quiet_prog V (systemctl os args timeout)"
    unfolding systemctl_def using assms by (intro quiet_run_checked) (simp add: host_laws_def)
  show dirs: "quiet_prog V (on_world (ao_makedirs os path))" for path
    using assms by (intro quiet_on_world) (simp add: host_laws_def)
  show "quiet_prog V (ensure_installed os cfg)"
    unfolding ensure_installed_def install_juicefs_def
    using assms by (intro quiet_intros quiet_calling) (simp add: host_laws_def)
  show "quiet_prog V (write_env_file os cfg ak sk)"
    unfolding write_env_file_def Let_def
    using assms by (intro quiet_intros dirs quiet_on_world) (simp_all add: host_laws_def)
qed

lemma quiet_mounting:
  assumes "host_laws os cfg V"
  shows "quiet_prog V (mount os cfg ak sk)" and "quiet_prog V (umount os cfg)" and "quiet_prog V (remount os cfg ak sk)"
proof -
  show m: "quiet_prog V (mount os cfg ak sk)"
    unfolding mount_def Let_def
    by (intro quiet_intros quiet_parts [OF assms] quiet_calling quiet_wait_mounted [OF assms])
      (use assms in \<open>simp add: host_laws_def\<close>)
  show u: "quiet_prog V (umount os cfg)"
    unfolding umount_def by (intro quiet_intros quiet_parts [OF assms])
  show "quiet_prog V (remount os cfg ak sk)" unfolding remount_def by (intro quiet_intros m u)
qed

lemma quiet_wp:
  assumes "quiet_prog V p"
    and "\<And>t. harmless V (ar_world s) (ar_world t) \<Longrightarrow> ar_row t = ar_row s \<Longrightarrow> (\<forall>a. Q a t) \<and> (\<forall>e. E e t)"
  shows "wp p Q E s"
proof -
  obtain r t where r: "p s = (r, t)" by fastforce
  with quiet_after [OF assms(1)] have "(\<forall>a. Q a t) \<and> (\<forall>e. E e t)" by (intro assms(2)) blast+
  then show ?thesis using r by (cases r) (simp_all add: wp_def)
qed

section \<open>How a migration goes\<close>

lemma wp_calling [wp_simps]:
  "wp (calling f) Q E s \<longleftrightarrow> Q (fst (f (ar_world s))) (s\<lparr>ar_world := snd (f (ar_world s))\<rparr>)"
  by (simp add: wp_def calling_def split: prod.splits)

lemma wp_world [wp_simps]:
  "wp (world g) Q E s \<longleftrightarrow> Q (g (ar_world s)) s"
  "wp (on_world h) R E s \<longleftrightarrow> R () (s\<lparr>ar_world := h (ar_world s)\<rparr>)"
  by (simp_all add: world_def on_world_def wp_basic)

lemma wp_row [wp_simps]:
  "wp (set_row f) Q E s \<longleftrightarrow> Q () (s\<lparr>ar_row := map_option f (ar_row s)\<rparr>)"
  "wp (set_state_message m) Q E s \<longleftrightarrow> Q () (s\<lparr>ar_row := map_option (\<lambda>r. r\<lparr>b_state_message := m\<rparr>) (ar_row s)\<rparr>)"
  by (simp_all add: set_row_def set_state_message_def wp_basic)

lemma wp_from_result [wp_simps]:
  "wp (from_result r) Q E s \<longleftrightarrow> (case r of Inl x \<Rightarrow> E x s | Inr a \<Rightarrow> Q a s)"
  by (simp add: from_result_def wp_basic split: sum.splits)

lemma wp_run_checked [wp_simps]:
  "wp (run_checked os describe cmd env timeout) Q E s \<longleftrightarrow>
     (case ao_run os cmd env timeout (ar_world s) of (r, w) \<Rightarrow>
        (case r of
           NotRun m \<Rightarrow> E (OtherRaised m) (s\<lparr>ar_world := w\<rparr>)
         | Completed rc out err \<Rightarrow>
             if rc = 0 then Q () (s\<lparr>ar_world := w\<rparr>) else E (RuntimeRaised (describe rc out err)) (s\<lparr>ar_world := w\<rparr>)))"
  by (simp add: run_checked_def wp_simps split: prod.splits run_result.splits)

text \<open>The three situations a migration of the volume \<open>n\<close> passes, seen from its start: nothing happened yet, it is
  under way, the volume is at the new store with its objects.\<close>

definition not_moved :: "'w archive_view \<Rightarrow> 'w archive_state \<Rightarrow> object_store \<Rightarrow> string \<Rightarrow> 'w archive_state \<Rightarrow> bool" where
  "not_moved V s0 src n s \<longleftrightarrow>
     keeps_but V {} (ar_world s0) (ar_world s) \<and> av_volume V (ar_world s) = Some (src, n) \<and> ar_row s = ar_row s0"

definition moving :: "'w archive_view \<Rightarrow> 'w archive_state \<Rightarrow> object_store \<Rightarrow> string \<Rightarrow> 'w archive_state \<Rightarrow> bool" where
  "moving V s0 dst n s \<longleftrightarrow>
     keeps_but V (below dst (n @ ''/'')) (ar_world s0) (ar_world s) \<and>
     map_option snd (av_volume V (ar_world s)) = Some n \<and> ar_row s = ar_row s0"

definition copied :: "'w archive_view \<Rightarrow> 'w \<Rightarrow> object_store \<Rightarrow> object_store \<Rightarrow> string \<Rightarrow> 'w \<Rightarrow> bool" where
  "copied V w0 src dst n w \<longleftrightarrow>
     (\<forall>key c. av_objects V src (n @ ''/'' @ key) w0 = Some c \<longrightarrow> av_objects V dst (n @ ''/'' @ key) w = Some c)"

definition moved :: "'w archive_view \<Rightarrow> 'w archive_state \<Rightarrow> object_store \<Rightarrow> object_store \<Rightarrow> string \<Rightarrow> 'w archive_state \<Rightarrow> bool" where
  "moved V s0 src dst n s \<longleftrightarrow>
     moving V s0 dst n s \<and> copied V (ar_world s0) src dst n (ar_world s) \<and> av_volume V (ar_world s) = Some (dst, n)"

lemma situations:
  "not_moved V s0 src n s \<Longrightarrow> moving V s0 dst n s" "moved V s0 src dst n s \<Longrightarrow> moving V s0 dst n s"
  by (auto simp: not_moved_def moving_def moved_def intro: keeps_but_mono)

lemma copied_kept: "copied V w0 src dst n w \<Longrightarrow> keeps_but V {} w w1 \<Longrightarrow> copied V w0 src dst n w1"
  unfolding copied_def keeps_but_def by blast

lemma situation_harmless:
  assumes "harmless V (ar_world s) (ar_world t)" and "ar_row t = ar_row s"
  shows "not_moved V s0 src n s \<Longrightarrow> not_moved V s0 src n t" and "moving V s0 dst n s \<Longrightarrow> moving V s0 dst n t"
    and "moved V s0 src dst n s \<Longrightarrow> moved V s0 src dst n t"
  using assms by (auto simp: not_moved_def moving_def moved_def harmless_def
      intro: keeps_but_trans copied_kept keeps_but_trans [OF _ keeps_but_mono])

lemma quiet_keeps:
  assumes "quiet_prog V p" and "I s"
    and "\<And>t. harmless V (ar_world s) (ar_world t) \<Longrightarrow> ar_row t = ar_row s \<Longrightarrow> I s \<Longrightarrow> I t"
  shows "wp p (\<lambda>_. I) (\<lambda>_. I) s"
  using assms by (intro quiet_wp) auto

lemma format_lawD:
  assumes "format_law os cfg V" and "ao_run os (format_cmd cfg storage bucket volume) env t w = (r, w')"
  shows "keeps_but V {} w w'" and "av_volume V w = Some ((storage, bucket), n) \<Longrightarrow> harmless V w w'"
  using assms(1) [unfolded format_law_def, THEN spec [of _ storage], THEN spec [of _ bucket], THEN spec [of _ volume],
      THEN spec [of _ env], THEN spec [of _ t], THEN spec [of _ w]] assms(2)
  by (simp_all add: harmless_def)

lemma format_step:
  fixes os :: "'w archive_ops"
  assumes "archive_laws os cfg V" and "not_moved V s0 (local_store cfg) n s"
  shows "wp (ensure_local_volume_formatted os cfg volume) (\<lambda>_. not_moved V s0 (local_store cfg) n)
     (\<lambda>_. not_moved V s0 (local_store cfg) n) s"
proof -
  let ?I = "not_moved V s0 (local_store cfg) n"
  have host: "host_laws os cfg V" and format: "format_law os cfg V" using assms(1) by (simp_all add: archive_laws_def)
  have run: "wp (run_checked os describe (format_cmd cfg ''file'' (file_bucket (local_object_store_dir cfg)) v) env t) (\<lambda>_. ?I) (\<lambda>_. ?I) s"
    if "?I s" for describe v env t s
  proof -
    obtain r w where r: "ao_run os (format_cmd cfg ''file'' (file_bucket (local_object_store_dir cfg)) v) env t (ar_world s) = (r, w)"
      by fastforce
    have "harmless V (ar_world s) w"
      using format_lawD(2) [OF format r] that by (simp add: not_moved_def local_store_def)
    then have "?I (s\<lparr>ar_world := w\<rparr>)" using situation_harmless(1) [OF _ _ that, of "s\<lparr>ar_world := w\<rparr>"] by simp
    with r show ?thesis by (simp add: wp_run_checked split: run_result.splits)
  qed
  have quiet: "wp q (\<lambda>_. ?I) (\<lambda>_. ?I) s" if "quiet_prog V q" "?I s" for q :: "('w, unit) archive_prog" and s
    using that by (rule quiet_keeps) (rule situation_harmless)
  have "wp (format_local_volume os cfg v) (\<lambda>_. ?I) (\<lambda>_. ?I) s" if "?I s" for v s
    unfolding format_local_volume_def wp_and_then
    by (intro wp_mono [OF quiet [OF quiet_parts(2) [OF host] that]] wp_mono [OF quiet [OF quiet_parts(3) [OF host]]] run)
  then show ?thesis
    using assms(2) unfolding ensure_local_volume_formatted_def by (auto simp: wp_simps)
qed

lemma sync_step:
  assumes laws: "sync_law os cfg V" and s: "not_moved V s0 src n s"
    and src: "av_place V a = (src, n @ ''/'')" and dst: "av_place V b = (dst, n @ ''/'')"
  shows "wp (run_checked os describe (sync_cmd cfg insecure a b) env t)
     (\<lambda>_ u. moving V s0 dst n u \<and> av_volume V (ar_world u) = Some (src, n) \<and> copied V (ar_world s0) src dst n (ar_world u))
     (\<lambda>_ u. moving V s0 dst n u) s"
proof -
  obtain r w where r: "ao_run os (sync_cmd cfg insecure a b) env t (ar_world s) = (r, w)" by fastforce
  have law: "av_volume V w = av_volume V (ar_world s)" "keeps_but V (below dst (n @ ''/'')) (ar_world s) w"
    "r = Completed 0 out err \<Longrightarrow> av_objects V src (n @ ''/'' @ key) (ar_world s) = Some c \<Longrightarrow>
       av_objects V dst (n @ ''/'' @ key) w = Some c" for out err key c
    using laws [unfolded sync_law_def, THEN spec [of _ insecure], THEN spec [of _ a], THEN spec [of _ b],
        THEN spec [of _ env], THEN spec [of _ t], THEN spec [of _ "ar_world s"]] r src dst by simp_all
  have kept: "keeps_but V {} (ar_world s0) (ar_world s)" and vol: "av_volume V (ar_world s) = Some (src, n)"
    using s by (simp_all add: not_moved_def)
  have m: "moving V s0 dst n (s\<lparr>ar_world := w\<rparr>)"
    using s law(1,2) keeps_but_trans [OF keeps_but_mono [OF kept] law(2)] by (simp add: moving_def not_moved_def)
  have c: "copied V (ar_world s0) src dst n w" if "r = Completed 0 out err" for out err
    using law(3) [OF that] kept unfolding copied_def keeps_but_def by blast
  show ?thesis using r m c law(1) vol by (auto simp: wp_run_checked split: run_result.splits)
qed

lemma config_step:
  assumes laws: "config_law os cfg V" and m: "moving V s0 dst n s"
  shows "wp (reconfigure_volume_storage os cfg storage bucket ak sk)
     (\<lambda>_ u. moving V s0 dst n u \<and> keeps_but V {} (ar_world s) (ar_world u) \<and> av_volume V (ar_world u) = Some ((storage, bucket), n))
     (\<lambda>_ u. moving V s0 dst n u) s"
proof -
  obtain r w where r: "ao_run os (config_cmd cfg storage bucket ak sk) [] 120 (ar_world s) = (r, w)" by fastforce
  have law: "keeps_but V {} (ar_world s) w" "map_option snd (av_volume V w) = map_option snd (av_volume V (ar_world s))"
    "r = Completed 0 out err \<Longrightarrow> av_volume V (ar_world s) = Some (st, n) \<Longrightarrow> av_volume V w = Some ((storage, bucket), n)"
    for out err st
    using laws [unfolded config_law_def, THEN spec [of _ storage], THEN spec [of _ bucket], THEN spec [of _ ak], THEN spec [of _ sk],
        THEN spec [of _ "[]"], THEN spec [of _ 120], THEN spec [of _ "ar_world s"]] r by auto
  obtain st where vol: "av_volume V (ar_world s) = Some (st, n)" using m by (auto simp: moving_def)
  have "moving V s0 dst n (s\<lparr>ar_world := w\<rparr>)"
    using m law(2) keeps_but_trans [OF _ keeps_but_mono [OF law(1)]] by (simp add: moving_def)
  then show ?thesis
    using r law(1) law(3) [OF _ vol] by (auto simp: wp_run_checked reconfigure_volume_storage_def split: run_result.splits)
qed

text \<open>Where the volume is before, and that the URLs name its stores.\<close>

fun source_store :: "config \<Rightarrow> archive_source \<Rightarrow> object_store" where
  "source_store cfg FromLocal = local_store cfg"
| "source_store cfg (FromS3 p) = s3_store p"
| "source_store cfg FromNothing = ([], [])"

fun source_sync_url :: "config \<Rightarrow> archive_source \<Rightarrow> string \<Rightarrow> string" where
  "source_sync_url cfg FromLocal volume = local_sync_source cfg volume"
| "source_sync_url cfg (FromS3 p) volume =
     s3_url_with_creds (place_sync_url p volume) (sp_access_key_id p) (sp_secret_access_key p)"
| "source_sync_url cfg FromNothing volume = []"

definition dest_sync_url :: "archive_source \<Rightarrow> s3_place \<Rightarrow> string \<Rightarrow> string" where
  "dest_sync_url source dst volume =
     (case source of
        FromS3 p \<Rightarrow> s3_url_with_creds (place_sync_url dst volume) (sp_access_key_id dst) (sp_secret_access_key dst)
      | _ \<Rightarrow> place_sync_url dst volume)"

definition urls_agree :: "config \<Rightarrow> 'w archive_view \<Rightarrow> archive_source \<Rightarrow> s3_place \<Rightarrow> string \<Rightarrow> bool" where
  "urls_agree cfg V source dst volume \<longleftrightarrow>
     av_place V (source_sync_url cfg source volume) = (source_store cfg source, volume @ ''/'') \<and>
     av_place V (dest_sync_url source dst volume) = (s3_store dst, volume @ ''/'')"

lemma move_step:
  fixes os :: "'w archive_ops"
  assumes laws: "archive_laws os cfg V" and s: "not_moved V s0 (source_store cfg source) n s"
    and source: "source \<noteq> FromNothing" and urls: "urls_agree cfg V source dst n" and quiesce: "quiet_prog V quiesce"
  shows "wp (move_archive os cfg source n dst quiesce)
     (\<lambda>_. moved V s0 (source_store cfg source) (s3_store dst) n) (\<lambda>_. moving V s0 (s3_store dst) n) s"
proof -
  let ?src = "source_store cfg source" let ?dst = "s3_store dst"
  let ?I = "not_moved V s0 ?src n" let ?M = "moving V s0 ?dst n" let ?D = "moved V s0 ?src ?dst n"
  have host: "host_laws os cfg V" and sync: "sync_law os cfg V" and conf: "config_law os cfg V"
    using laws by (simp_all add: archive_laws_def)
  have before: "wp q (\<lambda>_. ?I) (\<lambda>_. ?M) u" if "quiet_prog V q" "?I u" for q :: "('w, unit) archive_prog" and u
    by (rule wp_mono [OF quiet_keeps [where I = ?I, OF that]]) (use situations situation_harmless(1) in blast)+
  have after: "wp q (\<lambda>_. ?D) (\<lambda>_. ?M) u" if "quiet_prog V q" "?D u" for q :: "('w, unit) archive_prog" and u
    by (rule wp_mono [OF quiet_keeps [where I = ?D, OF that]]) (use situations situation_harmless(3) in blast)+
  have conf: "wp (reconfigure_volume_storage os cfg ''s3'' (place_url dst) ak sk) (\<lambda>_. ?D) (\<lambda>_. ?M) u"
    if "?M u \<and> av_volume V (ar_world u) = Some (?src, n) \<and> copied V (ar_world s0) ?src ?dst n (ar_world u)" for u ak sk
    by (rule wp_mono [OF config_step [OF conf]]) (use that in \<open>auto simp: moved_def s3_store_def intro: copied_kept\<close>)
  have sync: "wp (run_checked os describe (sync_cmd cfg insecure (source_sync_url cfg source n) (dest_sync_url source dst n)) env t)
      (\<lambda>_ u. ?M u \<and> av_volume V (ar_world u) = Some (?src, n) \<and> copied V (ar_world s0) ?src ?dst n (ar_world u)) (\<lambda>_. ?M) u"
    if "?I u" for describe insecure env t u
    using urls by (intro sync_step [OF sync that]) (simp_all add: urls_agree_def)
  note quiet = before [OF quiet_parts(2) [OF host]] before [OF quiet_mounting(1) [OF host]] before [OF quiesce]
  show ?thesis
  proof (cases source)
    case FromLocal
    have fmt: "wp (ensure_local_volume_formatted os cfg n) (\<lambda>_. ?I) (\<lambda>_. ?M) u" if "?I u" for u
      by (rule wp_mono [OF format_step [OF laws]])
        (use that in \<open>simp_all add: FromLocal, blast intro: situations(1)\<close>)
    have move: "wp (migrate_local_to_s3 os cfg n dst) (\<lambda>_. ?D) (\<lambda>_. ?M) u" if "?I u" for u
      unfolding migrate_local_to_s3_def sync_objects_def wp_and_then
      by (rule wp_mono [OF sync [OF that, unfolded FromLocal dest_sync_url_def, simplified] conf]) (simp_all add: FromLocal)
    have "wp (move_archive os cfg FromLocal n dst quiesce) (\<lambda>_. ?D) (\<lambda>_. ?M) s"
      unfolding move_archive_def archive_source.case
      by (rule wp_seq [OF quiet(1)], rule s,
          intro wp_seq [OF fmt] wp_seq [OF quiet(2)] wp_seq [OF quiet(3)] wp_seq [OF move] after [OF quiet_mounting(3) [OF host]])
        assumption+
    then show ?thesis by (simp add: FromLocal)
  next
    case (FromS3 p)
    have move: "wp (migrate_s3_to_s3 os cfg n p dst) (\<lambda>_. ?D) (\<lambda>_. ?M) u" if "?I u" for u
      unfolding migrate_s3_to_s3_def sync_objects_s3_to_s3_def wp_and_then fst_conv snd_conv
      by (rule wp_mono [OF sync [OF that, unfolded FromS3 dest_sync_url_def, simplified] conf]) (simp_all add: FromS3)
    have "wp (move_archive os cfg (FromS3 p) n dst quiesce) (\<lambda>_. ?D) (\<lambda>_. ?M) s"
      unfolding move_archive_def archive_source.case
      by (rule wp_seq [OF quiet(1)], rule s,
          intro wp_seq [OF quiet(2)] wp_seq [OF quiet(3)] wp_seq [OF move] after [OF quiet_mounting(3) [OF host]])
        assumption+
    then show ?thesis by (simp add: FromS3)
  qed (use source in simp)
qed

text \<open>After a failure: the volume is back at its source with the row as it was, or the row tells that the mount
  was lost.\<close>

definition put_back :: "config \<Rightarrow> 'w archive_view \<Rightarrow> 'w archive_state \<Rightarrow> archive_source \<Rightarrow> s3_place \<Rightarrow> string \<Rightarrow> 'w archive_state \<Rightarrow> bool" where
  "put_back cfg V s0 source dst n s \<longleftrightarrow>
     keeps_but V (below (s3_store dst) (n @ ''/'')) (ar_world s0) (ar_world s) \<and>
     (av_volume V (ar_world s) = Some (source_store cfg source, n) \<and> ar_row s = ar_row s0 \<or>
      (\<exists>lost \<in> {LOCAL_MOUNT_LOST, S3_MOUNT_LOST}. ar_row s = map_option (\<lambda>r. r\<lparr>b_state_message := Some lost\<rparr>) (ar_row s0)))"

lemma restore_step:
  fixes os :: "'w archive_ops"
  assumes laws: "archive_laws os cfg V" and m: "moving V s0 (s3_store dst) n s" and source: "source \<noteq> FromNothing"
  shows "wp (restore_source os cfg source) (\<lambda>_. put_back cfg V s0 source dst n) (\<lambda>_ _. False) s"
proof -
  let ?src = "source_store cfg source" let ?M = "moving V s0 (s3_store dst) n"
  let ?B = "\<lambda>u. ?M u \<and> av_volume V (ar_world u) = Some (?src, n)"
  have host: "host_laws os cfg V" and conf: "config_law os cfg V" using laws by (simp_all add: archive_laws_def)
  have harmless: "?B t" if "harmless V (ar_world u) (ar_world t)" "ar_row t = ar_row u" "?B u" for t u
    using situation_harmless(2) [OF that(1,2)] that by (simp add: harmless_def)
  have undo: "wp (and_then (reconfigure_volume_storage os cfg storage bucket ak sk) (\<lambda>_. remount os cfg ak sk)) (\<lambda>_. ?B) (\<lambda>_. ?M) s"
    if "?src = (storage, bucket)" for storage bucket ak sk
  proof (rule wp_seq [where I = ?B])
    show "wp (reconfigure_volume_storage os cfg storage bucket ak sk) (\<lambda>_. ?B) (\<lambda>_. ?M) s"
      by (rule wp_mono [OF config_step [OF conf m]]) (use that in auto)
    show "wp (remount os cfg ak sk) (\<lambda>_. ?B) (\<lambda>_. ?M) u" if "?B u" for u
      by (rule wp_mono [OF quiet_keeps [where I = ?B, OF quiet_mounting(3) [OF host] that]])
        (simp_all add: harmless)
  qed
  have lost: "put_back cfg V s0 source dst n (u\<lparr>ar_row := map_option (\<lambda>r. r\<lparr>b_state_message := Some m\<rparr>) (ar_row u)\<rparr>)"
    if "?M u" "m \<in> {LOCAL_MOUNT_LOST, S3_MOUNT_LOST}" for u m
    using that by (auto simp: put_back_def moving_def)
  have fine: "put_back cfg V s0 source dst n u" if "?B u" for u using that by (auto simp: put_back_def moving_def)
  show ?thesis
  proof (cases source)
    case FromLocal
    show ?thesis
      unfolding restore_source_def FromLocal archive_source.case wp_handling
      by (rule wp_mono [OF undo]) (use lost fine FromLocal in \<open>auto simp: wp_row local_store_def\<close>)
  next
    case (FromS3 p)
    show ?thesis
      unfolding restore_source_def FromS3 archive_source.case wp_handling
      by (rule wp_mono [OF undo]) (use lost fine FromS3 in \<open>auto simp: wp_row s3_store_def\<close>)
  qed (use source in simp)
qed

lemma client_store_of_place:
  "client_store (s3_client_for (sp_region p) (sp_endpoint p) ak sk) (sp_bucket p) = s3_store p"
  by (auto simp: client_store_def s3_client_for_def s3_store_def place_url_def bucket_url_def or_us_east_1_def non_empty_def
      split: option.splits)

text \<open>A program that deletes below a prefix of one store only.\<close>

definition deletes_below :: "'w archive_view \<Rightarrow> object_store \<Rightarrow> string \<Rightarrow> 'w archive_state \<Rightarrow> 'w archive_state \<Rightarrow> bool" where
  "deletes_below V store pre s t \<longleftrightarrow>
     keeps_but V (below store pre) (ar_world s) (ar_world t) \<and> av_volume V (ar_world t) = av_volume V (ar_world s) \<and> ar_row t = ar_row s"

lemma deletes_below_trans: "deletes_below V st pre s t \<Longrightarrow> deletes_below V st pre t u \<Longrightarrow> deletes_below V st pre s u"
  by (auto simp: deletes_below_def intro: keeps_but_trans)

lemma delete_batch_step:
  assumes "delete_law os V" and "client_store client bucket = store" and "list_all (\<lambda>k. startswith k pre) keys"
    and "deletes_below V store pre s0 s"
  shows "wp (delete_batch os client bucket keys) (\<lambda>_. deletes_below V store pre s0) (\<lambda>_. deletes_below V store pre s0) s"
proof -
  obtain r w where r: "ao_delete os client bucket keys (ar_world s) = (r, w)" by fastforce
  have "av_volume V w = av_volume V (ar_world s)" and "keeps_but V {(st, key). st = store \<and> key \<in> set keys} (ar_world s) w"
    using assms(1,2) r unfolding delete_law_def by (force split: prod.splits)+
  moreover have "{(st, key). st = store \<and> key \<in> set keys} \<subseteq> below store pre"
    using assms(3) by (auto simp: below_def list_all_iff startswith_prefix)
  ultimately have "deletes_below V store pre s (s\<lparr>ar_world := w\<rparr>)"
    by (auto simp: deletes_below_def intro: keeps_but_mono)
  with assms(4) have "deletes_below V store pre s0 (s\<lparr>ar_world := w\<rparr>)" by (rule deletes_below_trans)
  with r show ?thesis by (auto simp: delete_batch_def wp_simps split: sum.splits)
qed

lemma reclaim_keys_step:
  assumes "delete_law os V" and "client_store client bucket = store"
    and "list_all (\<lambda>k. startswith k pre) to_delete" and "deletes_below V store pre s0 s"
  shows "wp (reclaim_keys os client bucket pre to_delete keys)
     (\<lambda>rest t. list_all (\<lambda>k. startswith k pre) rest \<and> deletes_below V store pre s0 t) (\<lambda>_. deletes_below V store pre s0) s"
  using assms(3,4)
proof (induction keys arbitrary: to_delete s)
  case (Cons key keys)
  show ?case
  proof (cases "key \<noteq> [] \<and> startswith key pre")
    case True
    with Cons.prems have all: "list_all (\<lambda>k. startswith k pre) (to_delete @ [key])" by simp
    from Cons.IH [OF all Cons.prems(2)] Cons.IH [of "[]"] True show ?thesis
      by (auto simp: wp_and_then intro!: wp_mono [OF delete_batch_step [OF assms(1,2) all Cons.prems(2)]])
  qed (use Cons in auto)
qed (simp add: wp_basic)

lemma reclaim_pages_step:
  assumes "delete_law os V" and "client_store client bucket = store"
    and "list_all (\<lambda>k. startswith k pre) to_delete" and "deletes_below V store pre s0 s"
  shows "wp (reclaim_pages os client bucket pre to_delete pages)
     (\<lambda>_. deletes_below V store pre s0) (\<lambda>_. deletes_below V store pre s0) s"
  using assms(3,4)
proof (induction pages arbitrary: to_delete s)
  case Nil
  then show ?case using delete_batch_step [OF assms(1,2)] by (simp add: wp_basic)
next
  case (Cons page pages)
  show ?case
  proof (cases page)
    case (Inr keys)
    show ?thesis
      unfolding Inr reclaim_pages.simps wp_and_then
      by (rule wp_mono [OF reclaim_keys_step [OF assms(1,2) Cons.prems]]) (use Cons.IH in auto)
  qed (use Cons.prems in \<open>simp add: wp_basic\<close>)
qed

lemma volume_name_stripped:
  assumes "is_volume_name v"
  shows "py_strip (strip_char CHR ''/'' (py_strip v)) = v"
proof -
  have none: "\<not> is_space_char c \<and> c \<noteq> CHR ''/''" if "c \<in> set v" for c
    using assms that by (auto simp: is_volume_name_def list_all_iff is_volume_char_def is_lower_char_def is_digit_char_def
        is_space_char_def Let_def)
  have drop: "dropWhile P xs = xs" if "\<And>x. x \<in> set xs \<Longrightarrow> \<not> P x" for P and xs :: string
    using that by (cases xs) auto
  have "dropWhile is_space_char v = v" "dropWhile is_space_char (rev v) = rev v"
    "dropWhile (\<lambda>c. c = CHR ''/'') v = v" "dropWhile (\<lambda>c. c = CHR ''/'') (rev v) = rev v"
    by (rule drop, use none in auto)+
  then show ?thesis by (simp add: py_strip_def strip_char_def rstrip_char_def)
qed

lemma reclaim_prefix_step:
  assumes "delete_law os V" and "is_volume_name volume"
  shows "wp (remove_s3_object_prefix os p volume) (\<lambda>_. deletes_below V (s3_store p) (volume @ ''/'') s) (\<lambda>_ _. False) s"
proof -
  have start: "deletes_below V (s3_store p) (volume @ ''/'') s s" by (simp add: deletes_below_def)
  have pages: "wp (reclaim_pages os (s3_client_for (sp_region p) (sp_endpoint p) (sp_access_key_id p) (sp_secret_access_key p))
      (sp_bucket p) (volume @ ''/'') [] pages) (\<lambda>_. deletes_below V (s3_store p) (volume @ ''/'') s)
      (\<lambda>_. deletes_below V (s3_store p) (volume @ ''/'') s) s" for pages
    by (rule reclaim_pages_step [OF assms(1) client_store_of_place _ start]) simp
  show ?thesis
    using start unfolding remove_s3_object_prefix_def volume_name_stripped [OF assms(2)] Let_def
    by (auto simp: wp_simps intro!: wp_mono [OF pages])
qed

text \<open>What a migration of the volume \<open>n\<close> may touch: the local store, and what is below the volume's prefix.\<close>

definition touched :: "config \<Rightarrow> string \<Rightarrow> (object_store \<times> string) set" where
  "touched cfg n = {(st, key). st = local_store cfg \<or> prefix (n @ ''/'') key}"

definition settled :: "config \<Rightarrow> 'w archive_view \<Rightarrow> 'w archive_state \<Rightarrow> archive_source \<Rightarrow> s3_place \<Rightarrow> string \<Rightarrow> 'w archive_state \<Rightarrow> bool" where
  "settled cfg V s0 source dst n s \<longleftrightarrow>
     av_volume V (ar_world s) = Some (s3_store dst, n) \<and>
     copied V (ar_world s0) (source_store cfg source) (s3_store dst) n (ar_world s) \<and>
     keeps_but V (touched cfg n) (ar_world s0) (ar_world s) \<and>
     (\<exists>configured_at. ar_row s = map_option (s3_row dst n configured_at) (ar_row s0))"

lemma below_touched: "below st (n @ ''/'') \<subseteq> touched cfg n"
  by (auto simp: below_def touched_def)

lemma copied_elsewhere:
  assumes "copied V w0 src dst n w" and "keeps_but V D w w1" and "\<And>key. (dst, key) \<notin> D"
  shows "copied V w0 src dst n w1"
  using assms unfolding copied_def keeps_but_def by blast

lemma settled_after:
  assumes "settled cfg V s0 source dst n s" and "keeps_but V D (ar_world s) (ar_world t)" and "D \<subseteq> touched cfg n"
    and "\<And>key. (s3_store dst, key) \<notin> D" and "av_volume V (ar_world t) = av_volume V (ar_world s)" and "ar_row t = ar_row s"
  shows "settled cfg V s0 source dst n t"
  using assms(1) copied_elsewhere [OF _ assms(2,4)] keeps_but_trans [OF _ keeps_but_mono [OF assms(2,3)]] assms(5,6)
  by (simp add: settled_def)

definition moves_away :: "archive_source \<Rightarrow> s3_place \<Rightarrow> bool" where
  "moves_away source dst \<longleftrightarrow>
     (case source of FromS3 p \<Rightarrow> sp_bucket p = sp_bucket dst \<or> s3_store p \<noteq> s3_store dst | _ \<Rightarrow> True)"

lemma reclaim_step:
  fixes os :: "'w archive_ops"
  assumes laws: "archive_laws os cfg V" and s: "settled cfg V s0 source dst n s"
    and away: "moves_away source dst" and name: "is_volume_name n" and row: "\<And>p. source = FromS3 p \<Longrightarrow> b_juicefs_volume_name row = n"
  shows "wp (reclaim_source os cfg source row n dst) (\<lambda>_. settled cfg V s0 source dst n) (\<lambda>_ _. False) s"
proof (cases source)
  case FromLocal
  have host: "host_laws os cfg V" using laws by (simp add: archive_laws_def)
  let ?t = "s\<lparr>ar_world := ao_rmtree os (local_object_store_dir cfg) (ar_world s)\<rparr>"
  have rm: "settled cfg V s0 source dst n ?t"
    by (rule settled_after [OF s, where D = "{(st, key). st = local_store cfg}"])
      (use host in \<open>auto simp: host_laws_def touched_def local_store_def s3_store_def\<close>)
  have "settled cfg V s0 source dst n (?t\<lparr>ar_world := ao_makedirs os path (ar_world ?t)\<rparr>)" for path
    by (rule settled_after [OF rm, where D = "{}"]) (use host in \<open>auto simp: host_laws_def harmless_def\<close>)
  then show ?thesis
    using s by (simp add: reclaim_source_def FromLocal remove_local_object_store_def Let_def wp_simps)
next
  case (FromS3 p)
  have del: "delete_law os V" using laws by (simp add: archive_laws_def)
  show ?thesis
  proof (cases "sp_bucket p = sp_bucket dst")
    case False
    then have other: "s3_store p \<noteq> s3_store dst" using away by (simp add: moves_away_def FromS3)
    have "settled cfg V s0 source dst n t" if "deletes_below V (s3_store p) (n @ ''/'') s t" for t
      by (rule settled_after [OF s, where D = "below (s3_store p) (n @ ''/'')"])
        (use that other below_touched in \<open>auto simp: deletes_below_def below_def\<close>)
    then show ?thesis
      unfolding reclaim_source_def FromS3 archive_source.case wp_when_do
      using s FromS3 by (auto intro: wp_mono [OF reclaim_prefix_step [OF del name]])
  qed (use s row FromS3 in \<open>simp add: reclaim_source_def wp_simps\<close>)
qed (use s in \<open>simp add: reclaim_source_def wp_simps\<close>)

text \<open>A volume \<open>n\<close> that is where its row says, the URLs of both ends naming its stores, and apps that are stopped
  without touching the objects.\<close>

definition migration_ready :: "'w archive_ops \<Rightarrow> config \<Rightarrow> 'w archive_view \<Rightarrow> ('w, unit) archive_prog \<Rightarrow> s3_place \<Rightarrow> string option
    \<Rightarrow> string option \<Rightarrow> archive_source \<Rightarrow> string \<Rightarrow> 'w archive_state \<Rightarrow> bool" where
  "migration_ready os cfg V quiesce dst prefix_arg volume_name source n s \<longleftrightarrow>
     quiet_prog V quiesce \<and> archive_source_of (read_state (ar_row s)) = Inr source \<and> source \<noteq> FromNothing \<and>
     chosen_volume (ao_sha256 os) source (read_state (ar_row s)) volume_name prefix_arg (ar_db s) = n \<and> is_volume_name n \<and>
     av_volume V (ar_world s) = Some (source_store cfg source, n) \<and> urls_agree cfg V source dst n \<and> moves_away source dst"

lemma configure_step:
  fixes os :: "'w archive_ops"
  assumes laws: "archive_laws os cfg V"
    and ready: "migration_ready os cfg V quiesce dst prefix_arg volume_name source n s"
  shows "wp (configure_backend os cfg dst prefix_arg volume_name quiesce)
     (\<lambda>_. settled cfg V s source dst n) (\<lambda>_. put_back cfg V s source dst n) s"
proof -
  let ?move = "and_then (move_archive os cfg source n dst quiesce) (\<lambda>_.
        and_then (world (ao_utc os)) (\<lambda>configured_at. set_row (s3_row dst n configured_at)))"
  have source: "archive_source_of (read_state (ar_row s)) = Inr source" "source \<noteq> FromNothing"
    and n: "chosen_volume (ao_sha256 os) source (read_state (ar_row s)) volume_name prefix_arg (ar_db s) = n" "is_volume_name n"
    and vol: "av_volume V (ar_world s) = Some (source_store cfg source, n)" and urls: "urls_agree cfg V source dst n"
    and away: "moves_away source dst" and quiesce: "quiet_prog V quiesce"
    using ready by (simp_all add: migration_ready_def)
  have s: "not_moved V s (source_store cfg source) n s" using vol by (simp add: not_moved_def)
  have flip: "settled cfg V s source dst n (t\<lparr>ar_row := map_option (s3_row dst n now) (ar_row t)\<rparr>)"
    if "moved V s (source_store cfg source) (s3_store dst) n t" for t now
    using that keeps_but_mono [OF _ below_touched] by (auto simp: settled_def moved_def moving_def)
  have move: "wp ?move (\<lambda>_. settled cfg V s source dst n) (\<lambda>_. moving V s (s3_store dst) n) s"
    by (rule wp_seq [OF move_step [OF laws s source(2) urls quiesce]]) (simp add: wp_simps flip)
  have undo: "wp (and_then (restore_source os cfg source) (\<lambda>_. raising e)) (\<lambda>_. settled cfg V s source dst n)
      (\<lambda>_. put_back cfg V s source dst n) t" if "moving V s (s3_store dst) n t" for t e
    by (rule wp_seq [OF wp_mono [OF restore_step [OF laws that source(2)]]]) (simp_all add: wp_simps)
  have handled: "wp (handling ?move (\<lambda>x. and_then (restore_source os cfg source) (\<lambda>_.
      raising (RuntimeRaised (''Failed to configure S3 archive backend: '' @ archive_exn_text x)))))
      (\<lambda>_. settled cfg V s source dst n) (\<lambda>_. put_back cfg V s source dst n) s"
    unfolding wp_handling by (rule wp_mono [OF move]) (simp_all add: undo)
  have reclaim: "wp (reclaim_source os cfg source (read_state (ar_row s)) n dst) (\<lambda>_. settled cfg V s source dst n)
      (\<lambda>_. put_back cfg V s source dst n) t" if "settled cfg V s source dst n t" for t
    by (rule wp_mono [OF reclaim_step [OF laws that away n(2)]]) (use n in \<open>auto simp: chosen_volume_def\<close>)
  show ?thesis
    using wp_seq [OF handled reclaim] by (simp add: configure_backend_def wp_and_then wp_basic wp_from_result source n(1))
qed

section \<open>Volume names are accepted by JuiceFS\<close>

lemma dash_runs_chars: "list_all is_volume_char (dash_runs b s)"
  by (induction b s rule: dash_runs.induct) (auto simp: is_volume_char_def)

lemma squeeze_dashes_set: "set (squeeze_dashes s) \<subseteq> set s"
  by (induction s rule: squeeze_dashes.induct) auto

lemma rstrip_char_less: "set (rstrip_char c s) \<subseteq> set s" "length (rstrip_char c s) \<le> length s"
  using length_dropWhile_le [of "\<lambda>x. x = c" "rev s"] by (auto simp: rstrip_char_def dest: set_dropWhileD)

lemma strip_char_less: "set (strip_char c s) \<subseteq> set s" "length (strip_char c s) \<le> length s"
  using rstrip_char_less [of c "dropWhile (\<lambda>x. x = c) s"] length_dropWhile_le [of "\<lambda>x. x = c" s]
  by (auto simp: strip_char_def dest: set_dropWhileD)

lemma strip_char_id:
  assumes "s \<noteq> []" and "hd s \<noteq> c" and "last s \<noteq> c"
  shows "strip_char c s = s"
proof -
  have "dropWhile (\<lambda>x. x = c) s = s" using assms(1,2) by (cases s) auto
  moreover have "dropWhile (\<lambda>x. x = c) (rev s) = rev s" using assms(1,3) by (cases s rule: rev_cases) auto
  ultimately show ?thesis by (simp add: strip_char_def rstrip_char_def)
qed

lemma hd_rstrip_char:
  assumes "s \<noteq> []" and "hd s \<noteq> c"
  shows "rstrip_char c s \<noteq> []" and "hd (rstrip_char c s) = hd s"
proof -
  obtain x xs where s: "s = x # xs" "x \<noteq> c" using assms by (cases s) auto
  have "rev (dropWhile (\<lambda>y. y = c) (rev xs @ [x])) = x # rev (dropWhile (\<lambda>y. y = c) (rev xs))"
    using s(2) by (induction xs rule: rev_induct) auto
  with s show "rstrip_char c s \<noteq> []" "hd (rstrip_char c s) = hd s" by (simp_all add: rstrip_char_def)
qed

lemma volume_edge_facts:
  "is_volume_edge c \<Longrightarrow> is_volume_char c" "is_volume_edge c \<Longrightarrow> c \<noteq> CHR ''-''" "is_volume_edge CHR ''o''"
  by (auto simp: is_volume_edge_def is_volume_char_def is_lower_char_def is_digit_char_def)

lemma volume_name_parts:
  assumes digest: "length digest = 8" "list_all is_volume_edge digest"
    and head: "list_all is_volume_char head" "length head \<le> 51"
    and name: "name = (if head = [] then ''oh-'' @ digest else ''oh-'' @ head @ ''-'' @ digest)"
  shows "strip_char CHR ''-'' (take VOLUME_NAME_MAX name) = name" and "is_volume_name name"
proof -
  have len: "3 \<le> length name" "length name \<le> VOLUME_NAME_MAX" using digest(1) head(2) name by (auto simp: VOLUME_NAME_MAX_def)
  have nonempty: "digest \<noteq> []" using digest(1) by force
  then have edge: "is_volume_edge (last digest)" using digest(2) by (simp add: list_all_iff)
  have ends: "hd name = CHR ''o''" "last name = last digest" using nonempty name by auto
  have "list_all is_volume_char digest" using digest(2) volume_edge_facts(1) unfolding list_all_iff by blast
  moreover have "list_all is_volume_char ''oh-''" by (simp add: is_volume_char_def is_lower_char_def)
  moreover have "list_all is_volume_char ''-''" by (simp add: is_volume_char_def)
  ultimately have chars: "list_all is_volume_char name" using head(1) name by simp
  from len ends edge volume_edge_facts(2) show "strip_char CHR ''-'' (take VOLUME_NAME_MAX name) = name"
    by (subst strip_char_id) auto
  from len chars ends edge volume_edge_facts(3) show "is_volume_name name" by (simp only: is_volume_name_def)
qed

lemma zone_volume_name:
  assumes hex: "list_all is_volume_edge (sha256_hex zone)" "8 \<le> length (sha256_hex zone)"
  shows "is_volume_name (volume_name_for_zone sha256_hex zone)"
proof -
  let ?slug = "squeeze_dashes (strip_char CHR ''-'' (dash_runs False zone))"
  obtain digest where digest_def: "digest = (if zone = [] then ''00000000'' else take 8 (sha256_hex zone))" by blast
  obtain head where head_def: "head = strip_char CHR ''-'' (take (VOLUME_NAME_MAX - length digest - 4) ?slug)" by blast
  have digest: "length digest = 8" "list_all is_volume_edge digest"
    using hex by (auto simp: digest_def list_all_iff is_volume_edge_def is_digit_char_def dest: in_set_takeD)
  have "set head \<subseteq> set (dash_runs False zone)"
    unfolding head_def using strip_char_less(1) squeeze_dashes_set set_take_subset by (meson order_trans)
  then have head: "list_all is_volume_char head" using dash_runs_chars [of False zone] by (auto simp: list_all_iff)
  have "length head \<le> 51"
    using strip_char_less(2) [of "CHR ''-''" "take (VOLUME_NAME_MAX - length digest - 4) ?slug"] digest(1)
    by (simp add: head_def VOLUME_NAME_MAX_def)
  note name = volume_name_parts [OF digest head this refl]
  from name(2) show ?thesis
    unfolding volume_name_for_zone_def Let_def digest_def [symmetric] head_def [symmetric] name(1)
    by (cases "head = []") (auto split: if_splits)
qed

lemma fresh_volume_name_valid:
  assumes "is_volume_name volume" and "length token = 8" and "list_all is_volume_edge token"
  shows "is_volume_name (fresh_volume_name token volume)"
proof -
  let ?t = "take (VOLUME_NAME_MAX - 8 - 1) volume"
  have vol: "volume \<noteq> []" "hd volume \<noteq> CHR ''-''" "is_volume_edge (hd volume)" "list_all is_volume_char volume"
    using assms(1) volume_edge_facts(2) by (auto simp: is_volume_name_def)
  then have t: "?t \<noteq> []" "hd ?t = hd volume" by (simp_all add: VOLUME_NAME_MAX_def)
  let ?h = "rstrip_char CHR ''-'' ?t"
  have h: "?h \<noteq> []" "hd ?h = hd volume" using hd_rstrip_char [of ?t "CHR ''-''"] t vol by simp_all
  have len: "length ?h \<le> 54" using rstrip_char_less(2) [of "CHR ''-''" ?t] by (simp add: VOLUME_NAME_MAX_def)
  have "set ?h \<subseteq> set volume" using rstrip_char_less(1) set_take_subset by (meson order_trans)
  then have chars: "list_all is_volume_char ?h" using vol(4) by (auto simp: list_all_iff)
  have token: "token \<noteq> []" using assms(2) by force
  then have "is_volume_edge (last token)" using assms(3) by (simp add: list_all_iff)
  moreover have "list_all is_volume_char token" using assms(3) volume_edge_facts(1) by (auto simp: list_all_iff)
  moreover have "0 < length ?h" using h(1) by simp
  ultimately show ?thesis
    using h len chars vol(3) token assms(2) unfolding fresh_volume_name_def is_volume_name_def
    by (auto simp: VOLUME_NAME_MAX_def is_volume_char_def assms(2))
qed

section \<open>Startup does not fail, and the wait for the mount ends\<close>

lemma mount_looks_enough:
  assumes "\<And>w. ao_now os w + 1 / 2 \<le> ao_now os (ao_sleep os (1 / 2) w)" and "deadline \<le> ao_now os w + of_nat n / 2"
  shows "wait_mounted os mount_point deadline (Suc n + m) w = wait_mounted os mount_point deadline (Suc n) w"
  using assms(2)
proof (induction n arbitrary: w)
  case (Suc n)
  have "deadline \<le> ao_now os (ao_sleep os (1 / 2) w) + of_nat n / 2"
    using Suc.prems assms(1) [of w] by (simp add: add_divide_distrib)
  from Suc.IH [OF this] show ?case by simp
qed simp

lemma attach_never_raises: "wp (attach_on_startup os cfg) (\<lambda>_ _. True) (\<lambda>_ _. False) s"
  unfolding attach_on_startup_def wp_and_then wp_basic wp_if wp_handling
  by (auto simp: wp_row intro: wp_mono [OF wp_total])

text \<open>Only the message of the row changed, if that.\<close>

definition only_message :: "'w archive_view \<Rightarrow> 'w archive_state \<Rightarrow> 'w archive_state \<Rightarrow> bool" where
  "only_message V s0 s \<longleftrightarrow>
     harmless V (ar_world s0) (ar_world s) \<and>
     (ar_row s = ar_row s0 \<or> (\<exists>m. ar_row s = map_option (\<lambda>r. r\<lparr>b_state_message := m\<rparr>) (ar_row s0)))"

lemma attach_formatted:
  fixes os :: "'w archive_ops"
  assumes host: "host_laws os cfg V" and formatted: "\<And>w. harmless V (ar_world s) w \<Longrightarrow> local_volume_formatted os cfg w"
  shows "wp (attach_on_startup os cfg) (\<lambda>_. only_message V s) (\<lambda>_. only_message V s) s"
proof -
  let ?I = "\<lambda>t. harmless V (ar_world s) (ar_world t) \<and> ar_row t = ar_row s"
  have quiet: "wp q (\<lambda>_. ?I) (\<lambda>_. ?I) t" if "quiet_prog V q" "?I t" for q :: "('w, unit) archive_prog" and t
    by (rule quiet_keeps [where I = ?I, OF that]) (auto intro: harmless_trans)
  note steps = wp_seq [OF quiet [OF quiet_parts(2) [OF host]]] wp_seq [OF quiet [OF quiet_mounting(1) [OF host]]]
  have message: "only_message V s (t\<lparr>ar_row := map_option (\<lambda>r. r\<lparr>b_state_message := m\<rparr>) (ar_row t)\<rparr>)" if "?I t" for t m
    using that by (auto simp: only_message_def)
  have mounted: "wp (and_then (mount os cfg ak sk) (\<lambda>_. set_state_message None)) (\<lambda>_. only_message V s) (\<lambda>_. ?I) t"
    if "?I t" for t ak sk
    by (rule steps(2)) (use that message in \<open>auto simp: wp_row\<close>)
  have local: "wp (attach_local os cfg row) (\<lambda>_. only_message V s) (\<lambda>_. ?I) s" for row
    unfolding attach_local_def ensure_local_volume_formatted_def
    by (rule steps(1)) (use formatted mounted in \<open>auto simp: wp_simps\<close>)
  have s3: "wp (attach_s3 os cfg row) (\<lambda>_. only_message V s) (\<lambda>_. ?I) s" for row
    unfolding attach_s3_def
    by (rule steps(1)) (use formatted mounted in \<open>auto simp: wp_simps split: option.splits\<close>)
  have reported: "wp (handling p (\<lambda>x. set_state_message (f x))) (\<lambda>_. only_message V s) (\<lambda>_. only_message V s) s"
    if "wp p (\<lambda>_. only_message V s) (\<lambda>_. ?I) s" for p :: "('w, unit) archive_prog" and f
    unfolding wp_handling by (rule wp_mono [OF that], assumption, unfold wp_row, rule message)
  have "only_message V s s" by (simp add: only_message_def)
  with reported [OF local] reported [OF s3] message [of s] show ?thesis
    unfolding attach_on_startup_def wp_and_then wp_basic wp_if wp_row by simp
qed

section \<open>Properties\<close>



text \<open>C29. However configuring ends, other volumes are safe: outside the local store, every object that is not below
  the volume's prefix stays, in whatever bucket it is.\<close>

theorem migration_spares_neighbours:
  assumes "archive_laws os cfg V" and "migration_ready os cfg V quiesce dst prefix_arg volume_name source n s"
    and "configure_backend os cfg dst prefix_arg volume_name quiesce s = (r, s')"
    and "store \<noteq> local_store cfg" and "\<not> prefix (n @ ''/'') key"
    and "av_objects V store key (ar_world s) = Some c"
  shows "av_objects V store key (ar_world s') = Some c"
proof -
  have "keeps_but V (touched cfg n) (ar_world s) (ar_world s')"
  proof (cases r)
    case (Inl x)
    then have "put_back cfg V s source dst n s'" using wp_outcome [OF configure_step [OF assms(1,2)] assms(3)] by simp
    then show ?thesis by (intro keeps_but_mono [OF _ below_touched [of "s3_store dst"]]) (simp add: put_back_def)
  next
    case (Inr u)
    then have "settled cfg V s source dst n s'" using wp_outcome [OF configure_step [OF assms(1,2)] assms(3)] by simp
    then show ?thesis by (simp add: settled_def)
  qed
  with assms(4-6) show ?thesis unfolding keeps_but_def touched_def by blast
qed


text \<open>Every volume name the router makes up is one JuiceFS accepts: the one of a zone, whatever its domain is, and
  the fresh one next to a volume that cannot be read.\<close>

lemma made_up_volume_names_valid:
  assumes "list_all is_volume_edge (sha256_hex zone)" and "8 \<le> length (sha256_hex zone)"
    and "length token = 8" and "list_all is_volume_edge token"
  shows "is_volume_name (volume_name_for_zone sha256_hex zone) \<and>
    is_volume_name (fresh_volume_name token (volume_name_for_zone sha256_hex zone))"
  by (intro conjI fresh_volume_name_valid zone_volume_name) (rule assms)+

text \<open>
  An error of SQLite reads as a volume that is not formatted. On S3 that restores the newest backup over the
  metadata, and of an adopted volume without a backup it deletes every object.
\<close>

lemma unreadable_metadata_is_unformatted:
  "ao_format_row os (juicefs_meta_db cfg) w = Inl e \<Longrightarrow> \<not> local_volume_formatted os cfg w"
  by (simp add: local_volume_formatted_def)

lemma adopted_volume_is_cleared:
  assumes "b_s3_bucket row = Some bucket"
    and "client = s3_client_for (b_s3_region row) (b_s3_endpoint row) ak sk" and "volume = b_juicefs_volume_name row"
    and "newest_dump (ao_list os client bucket (volume @ ''/meta/'') (ar_world s)) None = Inr None"
    and "prefix_has_objects (ao_list os client bucket (volume @ ''/'') (ar_world s)) = Inr True"
    and "get_setting (ar_db s) ADOPT_VOLUME_KEY = Some ''1''"
  shows "bring_up_seeded_s3_volume os cfg row ak sk s =
    and_then (delete_prefix os client bucket (volume @ ''/''))
      (\<lambda>_. format_s3_volume os cfg bucket (b_s3_region row) (b_s3_endpoint row) ak sk volume) s"
  using assms by (simp add: bring_up_seeded_s3_volume_def prog_defs Let_def)

section \<open>A concrete world\<close>

record demo_world =
  dw_objects :: "object_store \<Rightarrow> string \<Rightarrow> string option"
  dw_volume :: "(object_store \<times> string) option"
  dw_mounted :: bool

definition demo_place :: "string \<Rightarrow> object_store \<times> string" where
  "demo_place url =
     (if startswith url ''s3://''
      then (let rest = drop 5 url in ((''s3'', ''https://'' @ before_char CHR ''/'' rest), after_char CHR ''/'' rest))
      else (local_store demo_config, drop (length (file_bucket (local_object_store_dir demo_config))) url))"

definition copy_objects :: "object_store \<times> string \<Rightarrow> object_store \<times> string
    \<Rightarrow> (object_store \<Rightarrow> string \<Rightarrow> string option) \<Rightarrow> object_store \<Rightarrow> string \<Rightarrow> string option" where
  "copy_objects src dst objects st key =
     (let original = objects (fst src) (snd src @ drop (length (snd dst)) key) in
      if st = fst dst \<and> prefix (snd dst) key \<and> original \<noteq> None then original else objects st key)"

definition demo_sync :: "string \<Rightarrow> string \<Rightarrow> demo_world \<Rightarrow> demo_world" where
  "demo_sync src dst w = w\<lparr>dw_objects := copy_objects (demo_place src) (demo_place dst) (dw_objects w)\<rparr>"

definition without_local :: "(object_store \<Rightarrow> string \<Rightarrow> string option) \<Rightarrow> object_store \<Rightarrow> string \<Rightarrow> string option" where
  "without_local objects st key = (if st = local_store demo_config then None else objects st key)"

definition demo_run :: "string list \<Rightarrow> (string \<times> string) list \<Rightarrow> nat \<Rightarrow> demo_world \<Rightarrow> run_result \<times> demo_world" where
  "demo_run cmd env timeout w =
     (Completed 0 [] [],
      if length cmd < 3 then w
      else if cmd ! 0 = ''sudo'' then w\<lparr>dw_mounted := (cmd ! 2 = ''enable'')\<rparr>
      else if cmd ! 2 = ''sync'' then demo_sync (cmd ! (length cmd - 2)) (last cmd) w
      else if cmd ! 2 = ''config'' then w\<lparr>dw_volume := map_option (\<lambda>(st, n). ((cmd ! 5, cmd ! 7), n)) (dw_volume w)\<rparr>
      else if cmd ! 2 = ''format'' \<and> dw_volume w = None then w\<lparr>dw_volume := Some ((cmd ! 4, cmd ! 6), last cmd)\<rparr>
      else w)"

definition demo_archive_ops :: "demo_world archive_ops" where
  "demo_archive_ops = \<lparr>ao_sysname = ''Linux'', ao_sha256 = (\<lambda>_. ''0123456789abcdef''), ao_json_name = (\<lambda>v. Inr (Some v)),
     ao_token_hex = (\<lambda>_. ''01234567''), ao_utc = (\<lambda>_. ''2026-01-01T00:00:00Z''), ao_now = (\<lambda>_. 0), ao_sleep = (\<lambda>_ w. w),
     ao_run = demo_run,
     ao_mountinfo = (\<lambda>w. Some (if dw_mounted w then [''1 2 3 / '' @ app_archive_dir demo_config] else [])),
     ao_install = (\<lambda>_ w. (None, w)), ao_executable = (\<lambda>_ _. True), ao_is_file = (\<lambda>_ _. True), ao_is_dir = (\<lambda>_ _. True),
     ao_listdir = (\<lambda>_ _. None), ao_makedirs = (\<lambda>_ w. w), ao_write = (\<lambda>_ _ w. w), ao_remove = (\<lambda>_ w. w),
     ao_replace = (\<lambda>_ _ w. w),
     ao_rmtree = (\<lambda>_ w. w\<lparr>dw_objects := without_local (dw_objects w)\<rparr>),
     ao_format_row = (\<lambda>_ w. Inr (map_option snd (dw_volume w))), ao_checkpoint = (\<lambda>_ w. w),
     ao_list = (\<lambda>_ _ _ _. []), ao_delete = (\<lambda>_ _ _ w. (Inr 0, w)), ao_head = (\<lambda>_ _ _. None),
     ao_download = (\<lambda>_ _ _ _ w. (None, w))\<rparr>"

definition demo_view :: "demo_world archive_view" where
  "demo_view = \<lparr>av_objects = (\<lambda>st key w. dw_objects w st key), av_volume = dw_volume, av_place = demo_place\<rparr>"

definition demo_bucket :: s3_place where
  "demo_bucket = \<lparr>sp_bucket = ''archive'', sp_region = None, sp_endpoint = None, sp_access_key_id = ''AK'', sp_secret_access_key = ''SK''\<rparr>"

text \<open>A local archive whose volume, named as given, has one object; the bucket holds one of another volume.\<close>

definition demo_archive :: "string \<Rightarrow> demo_world archive_state" where
  "demo_archive n = \<lparr>ar_row = Some ((read_state None)\<lparr>b_juicefs_volume_name := n\<rparr>),
     ar_sys = \<lparr>sdb = empty_db, containers = []\<rparr>, ar_quiesced = [],
     ar_world = \<lparr>dw_objects = (\<lambda>st key. if st = local_store demo_config \<and> key = n @ ''/chunk'' then Some ''data''
         else if st = s3_store demo_bucket \<and> key = ''theirs/chunk'' then Some ''other'' else None),
       dw_volume = Some (local_store demo_config, n), dw_mounted = True\<rparr>\<rparr>"

lemma demo_archive_paths:
  "juicefs_binary demo_config \<noteq> ''sudo''"
  "file_bucket (local_object_store_dir demo_config) = ''/opt/persistent_data/app_archive_local_objects/''"
  by code_simp+

lemma demo_archive_laws: "archive_laws demo_archive_ops demo_config demo_view"
proof -
  note defs = demo_archive_ops_def demo_view_def harmless_def keeps_but_def demo_run_def juicefs_cmd_def systemctl_cmd_def
    JUICEFS_SERVICE_def
  have "host_laws demo_archive_ops demo_config demo_view" by (simp add: host_laws_def defs without_local_def)
  moreover have "format_law demo_archive_ops demo_config demo_view"
    by (auto simp: format_law_def format_cmd_def defs demo_archive_paths)
  moreover have "config_law demo_archive_ops demo_config demo_view"
    by (auto simp: config_law_def config_cmd_def defs demo_archive_paths option.map_comp comp_def case_prod_beta split: option.splits)
  moreover have "sync_law demo_archive_ops demo_config demo_view"
    by (auto simp: sync_law_def sync_cmd_def defs demo_sync_def copy_objects_def demo_archive_paths below_def Let_def split: prod.splits)
  moreover have "delete_law demo_archive_ops demo_view" by (simp add: delete_law_def defs)
  ultimately show ?thesis by (simp add: archive_laws_def)
qed

text \<open>What the programs of a migration do in this world.\<close>

lemma demo_ops:
  "ao_makedirs demo_archive_ops p w = w" "ao_write demo_archive_ops p c w = w" "ao_replace demo_archive_ops p q w = w"
  "ao_now demo_archive_ops w = 0" "ao_run demo_archive_ops = demo_run" "ao_is_file demo_archive_ops p w"
  "ao_executable demo_archive_ops p w" "ao_format_row demo_archive_ops p w = Inr (map_option snd (dw_volume w))"
  "ao_utc demo_archive_ops w = ''2026-01-01T00:00:00Z''" "ao_is_dir demo_archive_ops p w"
  "ao_rmtree demo_archive_ops p w = w\<lparr>dw_objects := without_local (dw_objects w)\<rparr>"
  by (simp_all add: demo_archive_ops_def)

lemma demo_is_mounted: "is_mounted demo_archive_ops (app_archive_dir demo_config) w = dw_mounted w"
proof -
  have "split_space [] (''1 2 3 / '' @ app_archive_dir demo_config) = [''1'', ''2'', ''3'', ''/'', app_archive_dir demo_config]" by code_simp
  then show ?thesis by (simp add: is_mounted_def demo_archive_ops_def Let_def)
qed

lemma demo_mount:
  "mount demo_archive_ops demo_config ak sk s = (Inr (), s\<lparr>ar_world := (ar_world s)\<lparr>dw_mounted := True\<rparr>\<rparr>)"
proof -
  obtain n where n: "MOUNT_LOOKS = Suc n" by (simp add: MOUNT_LOOKS_def)
  show ?thesis
    by (cases s; cases "ar_world s") (simp add: mount_def prog_defs n demo_ops demo_is_mounted write_env_file_def systemctl_def
        systemctl_cmd_def demo_run_def JUICEFS_SERVICE_def Let_def)
qed

lemma demo_remount:
  "remount demo_archive_ops demo_config ak sk s = (Inr (), s\<lparr>ar_world := (ar_world s)\<lparr>dw_mounted := True\<rparr>\<rparr>)"
  by (simp add: remount_def umount_def prog_defs demo_is_mounted demo_mount systemctl_def systemctl_cmd_def demo_run_def
      demo_ops JUICEFS_SERVICE_def Let_def)

lemma demo_sync_fields:
  "dw_volume (demo_sync a b w) = dw_volume w"
  "demo_sync a b (w\<lparr>dw_mounted := m\<rparr>) = (demo_sync a b w)\<lparr>dw_mounted := m\<rparr>"
  by (cases w, simp add: demo_sync_def)+

lemma demo_move:
  "move_archive demo_archive_ops demo_config FromLocal volume demo_bucket (returning ()) s =
     (Inr (), s\<lparr>ar_world := (demo_sync (local_sync_source demo_config volume) (place_sync_url demo_bucket volume)
        (ar_world s))\<lparr>dw_volume := map_option (\<lambda>(st, n). (s3_store demo_bucket, n)) (dw_volume (ar_world s)), dw_mounted := True\<rparr>\<rparr>)"
  if "dw_volume (ar_world s) = Some (st, c # cs)"
proof -
  show ?thesis
    using that by (simp add: move_archive_def prog_defs demo_ops ensure_installed_def is_juicefs_installed_def demo_mount demo_remount
        ensure_local_volume_formatted_def local_volume_formatted_def migrate_local_to_s3_def sync_objects_def sync_cmd_def
        reconfigure_volume_storage_def config_cmd_def juicefs_cmd_def demo_run_def demo_archive_paths demo_sync_fields s3_store_def
        endpoint_is_insecure_http_def non_empty_def)
qed

lemma demo_configure:
  assumes "n \<noteq> []" and "chosen_volume (ao_sha256 demo_archive_ops) FromLocal (read_state (ar_row (demo_archive n))) None prefix_arg empty_db = volume"
  shows "configure_backend demo_archive_ops demo_config demo_bucket prefix_arg None (returning ()) (demo_archive n) =
     (Inr (), (demo_archive n)\<lparr>ar_row := map_option (s3_row demo_bucket volume ''2026-01-01T00:00:00Z'') (ar_row (demo_archive n)),
        ar_world := \<lparr>dw_objects = without_local (dw_objects (demo_sync (local_sync_source demo_config volume)
              (place_sync_url demo_bucket volume) (ar_world (demo_archive n)))),
            dw_volume = Some (s3_store demo_bucket, n), dw_mounted = True\<rparr>\<rparr>)"
proof -
  obtain c cs where n: "n = c # cs" using assms(1) by (cases n) auto
  have source: "archive_source_of (read_state (ar_row (demo_archive n))) = Inr FromLocal"
    by (simp add: archive_source_of_def read_state_def demo_archive_def)
  have move: "move_archive demo_archive_ops demo_config FromLocal volume demo_bucket (returning ()) (demo_archive n) =
      (Inr (), (demo_archive n)\<lparr>ar_world := (demo_sync (local_sync_source demo_config volume) (place_sync_url demo_bucket volume)
         (ar_world (demo_archive n)))\<lparr>dw_volume := Some (s3_store demo_bucket, n), dw_mounted := True\<rparr>\<rparr>)"
    by (subst demo_move [of _ "local_store demo_config" c cs]) (simp_all add: demo_archive_def n)
  have db: "ar_db (demo_archive n) = empty_db" by (simp add: demo_archive_def)
  show ?thesis
    unfolding configure_backend_def
    by (simp add: prog_defs source db assms(2) move demo_ops set_row_def reclaim_source_def remove_local_object_store_def Let_def)
qed

lemma demo_volume_kept: "chosen_volume h FromLocal (read_state (ar_row (demo_archive ''oh-demo''))) None None db = ''oh-demo''"
  by (simp add: chosen_volume_def read_state_def demo_archive_def DEFAULT_VOLUME_NAME_def)

lemma demo_ready:
  assumes "quiet_prog demo_view quiesce"
  shows "migration_ready demo_archive_ops demo_config demo_view quiesce demo_bucket None None FromLocal ''oh-demo'' (demo_archive ''oh-demo'')"
proof -
  have "demo_place (local_sync_source demo_config ''oh-demo'') = (local_store demo_config, ''oh-demo/'')"
    and "demo_place (place_sync_url demo_bucket ''oh-demo'') = (s3_store demo_bucket, ''oh-demo/'')" by code_simp+
  then have "urls_agree demo_config demo_view FromLocal demo_bucket ''oh-demo''"
    by (simp add: urls_agree_def dest_sync_url_def demo_view_def)
  moreover have "is_volume_name ''oh-demo''" by code_simp
  moreover have "archive_source_of (read_state (ar_row (demo_archive ''oh-demo''))) = Inr FromLocal"
    by (simp add: archive_source_of_def read_state_def demo_archive_def)
  moreover have "av_volume demo_view (ar_world (demo_archive ''oh-demo'')) = Some (local_store demo_config, ''oh-demo'')"
    by (simp add: demo_view_def demo_archive_def)
  ultimately show ?thesis using assms by (simp add: migration_ready_def demo_volume_kept moves_away_def)
qed


lemma stores_differ: "local_store cfg \<noteq> s3_store p"
  by (simp add: local_store_def s3_store_def)

lemma failed_move_raises:
  assumes "archive_source_of (read_state (ar_row s)) = Inr source"
    and "\<And>volume. fst (move_archive os cfg source volume dst quiesce s) = Inl e"
  shows "\<exists>x s'. configure_backend os cfg dst prefix_arg volume_name quiesce s = (Inl x, s')"
proof -
  have "\<exists>t. move_archive os cfg source volume dst quiesce s = (Inl e, t)" for volume
    using assms(2) [of volume] by (metis prod.collapse)
  then obtain t where "move_archive os cfg source (chosen_volume (ao_sha256 os) source (read_state (ar_row s)) volume_name prefix_arg (ar_db s))
      dst quiesce s = (Inl e, t)" by blast
  then show ?thesis using assms(1) by (simp add: configure_backend_def prog_defs split: prod.splits sum.splits)
qed


theorem migration_spares_neighbours_witness:
  "\<exists>r s'. configure_backend demo_archive_ops demo_config demo_bucket None None (returning ()) (demo_archive ''oh-demo'') = (r, s') \<and>
     av_objects demo_view (s3_store demo_bucket) ''theirs/chunk'' (ar_world s') = Some ''other''"
proof -
  obtain r s' where s': "configure_backend demo_archive_ops demo_config demo_bucket None None (returning ()) (demo_archive ''oh-demo'') = (r, s')"
    by fastforce
  have "av_objects demo_view (s3_store demo_bucket) ''theirs/chunk'' (ar_world s') = Some ''other''"
    by (rule migration_spares_neighbours [OF demo_archive_laws demo_ready [OF quiet_basic(1)] s'])
      (use stores_differ [of demo_config demo_bucket] in \<open>auto simp: demo_view_def demo_archive_def\<close>)
  with s' show ?thesis by blast
qed

lemma demo_formatted:
  assumes "harmless demo_view (ar_world (demo_archive ''oh-demo'')) w"
  shows "local_volume_formatted demo_archive_ops demo_config w"
proof -
  have "dw_volume w = Some (local_store demo_config, ''oh-demo'')"
    using assms by (simp add: harmless_def demo_view_def demo_archive_def)
  then show ?thesis by (simp add: local_volume_formatted_def demo_ops)
qed


lemma made_up_volume_names_valid_witness:
  "is_volume_name (volume_name_for_zone (\<lambda>_. ''0123456789abcdef'') ''My_Zone.example.com'') \<and>
   is_volume_name (fresh_volume_name ''01234567'' (volume_name_for_zone (\<lambda>_. ''0123456789abcdef'') ''My_Zone.example.com''))"
  by (rule made_up_volume_names_valid) (simp_all add: is_volume_edge_def is_digit_char_def is_lower_char_def)

text \<open>A local volume that still has the name all instances once shared is lost by its first migration, which
  returns: the copy looks below the name the bucket gets and finds nothing, the volume keeps its name and finds
  nothing below it in the bucket, and then the local store is deleted.\<close>

lemma legacy_volume_is_lost:
  "av_objects demo_view (local_store demo_config) ''openhost/chunk'' (ar_world (demo_archive ''openhost'')) = Some ''data'' \<and>
   (case configure_backend demo_archive_ops demo_config demo_bucket (Some ''shared'') None (returning ()) (demo_archive ''openhost'') of
      (r, s') \<Rightarrow> r = Inr () \<and> av_volume demo_view (ar_world s') = Some (s3_store demo_bucket, ''openhost'') \<and>
        map_option b_juicefs_volume_name (ar_row s') = Some ''shared'' \<and> (\<forall>st key. av_objects demo_view st key (ar_world s') \<noteq> Some ''data''))"
proof -
  have volume: "chosen_volume (ao_sha256 demo_archive_ops) FromLocal (read_state (ar_row (demo_archive ''openhost''))) None (Some ''shared'') empty_db = ''shared''"
    by (simp add: chosen_volume_def read_state_def demo_archive_def DEFAULT_VOLUME_NAME_def non_empty_def)
  have "demo_place (local_sync_source demo_config ''shared'') = (local_store demo_config, ''shared/'')" by code_simp
  then have "dw_objects (demo_sync (local_sync_source demo_config ''shared'') (place_sync_url demo_bucket ''shared'') (ar_world (demo_archive ''openhost''))) st key =
      dw_objects (ar_world (demo_archive ''openhost'')) st key" for st key
    by (simp add: demo_sync_def copy_objects_def Let_def demo_archive_def)
  then show ?thesis
    unfolding demo_configure [OF _ volume, simplified]
    by (simp add: demo_view_def demo_archive_def s3_row_def without_local_def)
qed

end
