(* ===== verification/Dns.thy ===== *)
theory Dns
  imports Domains Containers "HOL-Library.AList" "HOL-Library.Char_ord" "HOL-Library.List_Lexorder" "HOL-Library.Product_Lexorder"
begin

text \<open>
  \<open>core/dns\<close>: the provider that keeps the zones and records of the instance and runs CoreDNS on
  them. The files it renders are text, written as Jinja renders the templates beside
  \<open>coredns_provider/coredns.py\<close>; the CoreDNS process is the Corefile it loaded when it was started. The
  clock, \<open>/etc/resolv.conf\<close> and whether a process can be spawned are arguments. Writing a file is taken to
  succeed.
\<close>

section \<open>Records\<close>

definition APEX :: string where "APEX = ''@''"

datatype record_type = TypeA | TypeTXT

fun record_type_text :: "record_type \<Rightarrow> string" where
  "record_type_text TypeA = ''A''"
| "record_type_text TypeTXT = ''TXT''"

record dns_record =
  dr_name :: string
  dr_type :: record_type
  dr_ttl :: int
  dr_data :: string

text \<open>The two replacements of \<open>rdata\<close>, one after the other in the source; no quote is made by the first.\<close>

definition escape_txt :: "string \<Rightarrow> string" where
  "escape_txt s = concat (map (\<lambda>c. if c = CHR 0x22 then [CHR 0x5C, CHR 0x22] else [c])
                    (concat (map (\<lambda>c. if c = CHR 0x5C then [CHR 0x5C, CHR 0x5C] else [c]) s)))"

definition rdata :: "dns_record \<Rightarrow> string" where
  "rdata r = (if dr_type r = TypeTXT then [CHR 0x22] @ escape_txt (dr_data r) @ [CHR 0x22] else dr_data r)"

definition normalize_zone :: "string \<Rightarrow> string" where
  "normalize_zone zone = lower (rstrip_char CHR ''.'' (py_strip zone))"

definition LOCAL_ONLY_SUFFIXES :: "string list" where
  "LOCAL_ONLY_SUFFIXES = [''.local'', ''lvh.me'']"

definition is_local_only :: "string \<Rightarrow> bool" where
  "is_local_only d = list_ex (\<lambda>suffix. d = suffix \<or> endswith d (CHR ''.'' # suffix)) LOCAL_ONLY_SUFFIXES"

section \<open>What is rendered\<close>

definition ADDRESS_TTL_SECONDS :: int where "ADDRESS_TTL_SECONDS = 300"

definition FALLBACK_UPSTREAM_DNS :: "string list" where
  "FALLBACK_UPSTREAM_DNS = [''8.8.8.8'', ''1.1.1.1'']"

text \<open>\<open>str.split()\<close> without an argument.\<close>

fun words_acc :: "string \<Rightarrow> string \<Rightarrow> string list" where
  "words_acc w [] = (if w = [] then [] else [rev w])"
| "words_acc w (c # cs) =
     (if is_space_char c then (if w = [] then words_acc [] cs else rev w # words_acc [] cs)
      else words_acc (c # w) cs)"

definition upstream_of_line :: "string option \<Rightarrow> string \<Rightarrow> string list" where
  "upstream_of_line container_gateway_ip line =
     (case words_acc [] line of
        w # addr # rest \<Rightarrow>
          if w \<noteq> ''nameserver'' then []
          else if startswith addr ''127.'' \<or> addr = ''::1'' \<or> Some addr = container_gateway_ip then []
          else [addr]
      | _ \<Rightarrow> [])"

text \<open>\<open>resolv_conf\<close> is None when the file cannot be read.\<close>

definition host_upstream_resolvers :: "string option \<Rightarrow> string option \<Rightarrow> string list" where
  "host_upstream_resolvers container_gateway_ip resolv_conf =
     (case resolv_conf of
        None \<Rightarrow> FALLBACK_UPSTREAM_DNS
      | Some txt \<Rightarrow>
          (let resolvers = concat (map (upstream_of_line container_gateway_ip) (splitlines txt))
           in if resolvers = [] then FALLBACK_UPSTREAM_DNS else resolvers))"

definition zonefile_path :: "string \<Rightarrow> string \<Rightarrow> string" where
  "zonefile_path zones_dir zone = path_join zones_dir (before_char CHR '':'' zone @ ''.zone'')"

definition container_zonefile_path :: "string \<Rightarrow> string \<Rightarrow> string" where
  "container_zonefile_path zones_dir zone = zonefile_path zones_dir zone @ ''.container''"

text \<open>The SOA and NS lines that both zone files begin with.\<close>

definition zone_head :: "string \<Rightarrow> int \<Rightarrow> int \<Rightarrow> string" where
  "zone_head zone default_ttl serial = text_lines
     [''$ORIGIN '' @ zone @ ''.'',
      ''$TTL '' @ show_int default_ttl,
      ''@   IN SOA  ns.'' @ zone @ ''. admin.'' @ zone @ ''. ('',
      ''    '' @ show_int serial @ ''   ; serial'',
      ''    3600  ; refresh'',
      ''    600   ; retry'',
      ''    86400 ; expire'',
      ''    60    ; minimum'',
      '')'',
      ''@   IN NS   ns.'' @ zone @ ''.'']"

definition record_line :: "dns_record \<Rightarrow> string" where
  "record_line r = [CHR 0x0A] @ dr_name r @ ''   '' @ show_int (dr_ttl r) @ ''  IN '' @
     record_type_text (dr_type r) @ ''  '' @ rdata r"

definition render_zonefile :: "string \<Rightarrow> int \<Rightarrow> dns_record list \<Rightarrow> string" where
  "render_zonefile zone serial records =
     zone_head zone ADDRESS_TTL_SECONDS serial @ concat (map record_line records)"

definition render_zonefile_container :: "string \<Rightarrow> string \<Rightarrow> int \<Rightarrow> string" where
  "render_zonefile_container zone gateway_ip serial =
     zone_head zone 60 serial @
     text_lines [''ns  IN A    '' @ gateway_ip, ''@   IN A    '' @ gateway_ip] @ ''*   IN A    '' @ gateway_ip"

text \<open>One server block, with the line break of the template before and after it.\<close>

definition server_block :: "string \<Rightarrow> string \<Rightarrow> string \<Rightarrow> string" where
  "server_block zone bind_ip path = [CHR 0x0A] @ text_lines
     [zone @ '':53 {'', ''    bind '' @ bind_ip, ''    file '' @ path @ '' {'', ''        reload 2s'',
      ''    }'', ''    log'', ''    errors'', ''}'']"

text \<open>An empty address is false in the templates, as None is.\<close>

definition render_corefile ::
    "string \<Rightarrow> string option \<Rightarrow> string option \<Rightarrow> string list \<Rightarrow> string list \<Rightarrow> string" where
  "render_corefile zones_dir bind_ip container_gateway_ip zones upstream_dns =
     (case non_empty bind_ip of
        None \<Rightarrow> []
      | Some ip \<Rightarrow> [CHR 0x0A] @ concat (map (\<lambda>z. server_block z ip (zonefile_path zones_dir z)) zones) @ [CHR 0x0A])
     @ [CHR 0x0A] @
     (case non_empty container_gateway_ip of
        None \<Rightarrow> []
      | Some ip \<Rightarrow> [CHR 0x0A] @ text_lines
            [''# Container-facing view.  Pasta app containers point their resolver here (see'',
             ''# core/containers.py --dns).  It answers each zone's wildcard with the gateway IP'',
             ''# so containers reach sibling apps' public HTTPS URLs through Caddy (hairpin),'',
             ''# and forwards everything else upstream so normal name resolution still works.'']
          @ concat (map (\<lambda>z. server_block z ip (container_zonefile_path zones_dir z)) zones) @ [CHR 0x0A] @ text_lines
            [''.:53 {'', ''    bind '' @ ip, ''    forward . '' @ join_with '' '' upstream_dns, ''    errors'', ''}''])"

section \<open>The provider\<close>

text \<open>
  The CoreDNS child as \<open>_coredns\<close> holds it: whether it runs, and the Corefile it loaded. The handle is
  kept when a restart fails after the old process was stopped.
\<close>

record coredns_process =
  cd_running :: bool
  cd_corefile :: string

record dns_provider =
  dp_zones_dir :: string
  dp_bind_ip :: "string option"
  dp_gateway_ip :: "string option"
  dp_zones :: "string list"
  dp_records :: "((string \<times> record_type) \<times> dns_record list) list"
  dp_coredns :: "coredns_process option"
  dp_serial :: int
  dp_corefile :: string
  dp_files :: "string \<Rightarrow> string option"

datatype dns_error = DnsNotEnabled | SpawnFailed

text \<open>What a call sees of the world: the second of the clock, \<open>resolv.conf\<close>, and whether CoreDNS can be spawned.\<close>

record dns_world =
  dw_now :: int
  dw_resolv_conf :: "string option"
  dw_spawns :: bool

definition serves_public_zones :: "dns_provider \<Rightarrow> bool" where
  "serves_public_zones s \<longleftrightarrow> dp_bind_ip s \<noteq> None"

text \<open>Sorted by name, type and data; strings are compared by code points.\<close>

definition record_key :: "dns_record \<Rightarrow> string \<times> string \<times> string" where
  "record_key r = (dr_name r, record_type_text (dr_type r), dr_data r)"

definition provider_records :: "dns_provider \<Rightarrow> dns_record list" where
  "provider_records s = sort_key record_key (concat (map snd (dp_records s)))"

definition next_serial :: "int \<Rightarrow> int \<Rightarrow> int" where
  "next_serial now serial = max (serial + 1) now mod 2 ^ 32"

definition write_zone_file :: "string \<Rightarrow> int \<Rightarrow> dns_record list \<Rightarrow> string
    \<Rightarrow> (string \<Rightarrow> string option) \<Rightarrow> (string \<Rightarrow> string option)" where
  "write_zone_file zones_dir serial records zone files =
     files(zonefile_path zones_dir zone \<mapsto> render_zonefile zone serial records)"

definition write_container_file :: "string \<Rightarrow> int \<Rightarrow> string \<Rightarrow> string
    \<Rightarrow> (string \<Rightarrow> string option) \<Rightarrow> (string \<Rightarrow> string option)" where
  "write_container_file zones_dir serial gateway_ip zone files =
     files(container_zonefile_path zones_dir zone \<mapsto> render_zonefile_container zone gateway_ip serial)"

definition write_coredns_config :: "dns_world \<Rightarrow> dns_provider \<Rightarrow> dns_provider" where
  "write_coredns_config w s =
     (let files1 = fold (write_zone_file (dp_zones_dir s) (dp_serial s) (provider_records s)) (dp_zones s) (dp_files s);
          files2 = (case non_empty (dp_gateway_ip s) of
                      None \<Rightarrow> files1
                    | Some ip \<Rightarrow> fold (write_container_file (dp_zones_dir s) (dp_serial s) ip) (dp_zones s) files1)
      in s\<lparr>dp_corefile := render_corefile (dp_zones_dir s) (dp_bind_ip s) (dp_gateway_ip s) (dp_zones s)
                             (host_upstream_resolvers (dp_gateway_ip s) (dw_resolv_conf w)),
           dp_files := files2\<rparr>)"

definition write_config :: "dns_world \<Rightarrow> dns_provider \<Rightarrow> dns_provider" where
  "write_config w s =
     (if dp_bind_ip s = None \<and> dp_gateway_ip s = None then s
      else write_coredns_config w (s\<lparr>dp_serial := next_serial (dw_now w) (dp_serial s)\<rparr>))"

definition set_records :: "dns_world \<Rightarrow> string \<Rightarrow> record_type \<Rightarrow> string list \<Rightarrow> int \<Rightarrow> dns_provider \<Rightarrow> dns_provider" where
  "set_records w name record_type vals ttl s =
     (let rrset = map (\<lambda>v. \<lparr>dr_name = name, dr_type = record_type, dr_ttl = ttl, dr_data = v\<rparr>) vals in
      if map_of (dp_records s) (name, record_type) = Some rrset then s
      else write_config w (s\<lparr>dp_records := AList.update (name, record_type) rrset (dp_records s)\<rparr>))"

definition delete_records :: "dns_world \<Rightarrow> string \<Rightarrow> record_type \<Rightarrow> dns_provider \<Rightarrow> dns_provider" where
  "delete_records w name record_type s =
     (if map_of (dp_records s) (name, record_type) = None then s
      else write_config w (s\<lparr>dp_records := AList.delete (name, record_type) (dp_records s)\<rparr>))"

definition discard_zone_files :: "string \<Rightarrow> string \<Rightarrow> (string \<Rightarrow> string option) \<Rightarrow> (string \<Rightarrow> string option)" where
  "discard_zone_files zones_dir zone files =
     (files(zonefile_path zones_dir zone := None))(container_zonefile_path zones_dir zone := None)"

text \<open>
  A record may be written while a zone change awaits the process; nothing else may, under the zone
  lock. \<open>ws\<close> are those writes.
\<close>

datatype dns_write =
    SetRecords dns_world string record_type "string list" int
  | DeleteRecords dns_world string record_type

fun record_write :: "dns_write \<Rightarrow> dns_provider \<Rightarrow> dns_provider" where
  "record_write (SetRecords w name t vals ttl) s = set_records w name t vals ttl s"
| "record_write (DeleteRecords w name t) s = delete_records w name t s"

text \<open>\<open>CoreDnsProcess.start\<close> from the Corefile there is once the other writes are done.\<close>

definition start_process :: "dns_world \<Rightarrow> dns_write list \<Rightarrow> dns_provider \<Rightarrow> (dns_error + unit) \<times> dns_provider" where
  "start_process w ws s =
     (let s1 = fold record_write ws s in
      if dw_spawns w then (Inr (), s1\<lparr>dp_coredns := Some \<lparr>cd_running = True, cd_corefile = dp_corefile s1\<rparr>\<rparr>)
      else (Inl SpawnFailed, s1))"

definition stop_process :: "dns_provider \<Rightarrow> dns_provider" where
  "stop_process s = s\<lparr>dp_coredns := map_option (\<lambda>p. p\<lparr>cd_running := False\<rparr>) (dp_coredns s)\<rparr>"

definition restart_process :: "dns_world \<Rightarrow> dns_write list \<Rightarrow> dns_provider \<Rightarrow> (dns_error + unit) \<times> dns_provider" where
  "restart_process w ws s = start_process w ws (stop_process s)"

definition cleanup :: "dns_provider \<Rightarrow> dns_provider" where
  "cleanup s = s\<lparr>dp_coredns := None\<rparr>"

definition reconcile_process :: "dns_world \<Rightarrow> dns_write list \<Rightarrow> dns_provider \<Rightarrow> (dns_error + unit) \<times> dns_provider" where
  "reconcile_process w ws s =
     (if dp_zones s = [] \<and> dp_gateway_ip s = None
      then (Inr (), if dp_coredns s \<noteq> None then cleanup (fold record_write ws s) else s)
      else if dp_coredns s = None then start_process w ws s
      else restart_process w ws s)"

definition apply_zones :: "dns_world \<Rightarrow> dns_write list \<Rightarrow> string list \<Rightarrow> dns_provider
    \<Rightarrow> (dns_error + unit) \<times> dns_provider" where
  "apply_zones w ws zones s =
     (let gone = filter (\<lambda>z. z \<notin> set zones) (dp_zones s);
          s1 = s\<lparr>dp_zones := zones, dp_files := fold (discard_zone_files (dp_zones_dir s)) gone (dp_files s)\<rparr>
      in reconcile_process w ws (write_config w s1))"

definition provider_start :: "dns_world \<Rightarrow> dns_write list \<Rightarrow> dns_provider \<Rightarrow> (dns_error + unit) \<times> dns_provider" where
  "provider_start w ws s =
     (if dp_coredns s \<noteq> None \<or> (dp_zones s = [] \<and> dp_gateway_ip s = None) then (Inr (), s)
      else start_process w ws (write_config w s))"

definition add_zone :: "dns_world \<Rightarrow> dns_write list \<Rightarrow> string \<Rightarrow> dns_provider \<Rightarrow> (dns_error + unit) \<times> dns_provider" where
  "add_zone w ws zone s =
     (if is_local_only zone then (Inr (), s)
      else if \<not> serves_public_zones s \<and> dp_gateway_ip s = None then (Inl DnsNotEnabled, s)
      else (let normalized_zone = normalize_zone zone in
        if normalized_zone \<in> set (dp_zones s) then (Inr (), s)
        else apply_zones w ws (dp_zones s @ [normalized_zone]) s))"

definition remove_zone :: "dns_world \<Rightarrow> dns_write list \<Rightarrow> string \<Rightarrow> dns_provider \<Rightarrow> (dns_error + unit) \<times> dns_provider" where
  "remove_zone w ws zone s =
     (if is_local_only zone \<or> (\<not> serves_public_zones s \<and> dp_gateway_ip s = None) then (Inr (), s)
      else apply_zones w ws (filter (\<lambda>z. z \<noteq> normalize_zone zone) (dp_zones s)) s)"

section \<open>Publishers of records\<close>

definition ROUTER_ADDRESS_NAMES :: "string list" where
  "ROUTER_ADDRESS_NAMES = [APEX, ''ns'', ''*'']"

definition publish_router_addresses :: "dns_world \<Rightarrow> string \<Rightarrow> dns_provider \<Rightarrow> dns_provider" where
  "publish_router_addresses w public_ip =
     fold (\<lambda>name. set_records w name TypeA [public_ip] ADDRESS_TTL_SECONDS) ROUTER_ADDRESS_NAMES"

definition CHALLENGE_TTL_SECONDS :: int where "CHALLENGE_TTL_SECONDS = 60"

definition CHALLENGE_LABEL :: string where "CHALLENGE_LABEL = ''_acme-challenge''"

definition challenge_fqdn :: "string \<Rightarrow> string" where
  "challenge_fqdn d = CHALLENGE_LABEL @ ''.'' @ removeprefix d ''*.''"

definition publish_challenge :: "dns_world \<Rightarrow> string list \<Rightarrow> dns_provider \<Rightarrow> dns_provider" where
  "publish_challenge w vals = set_records w CHALLENGE_LABEL TypeTXT vals CHALLENGE_TTL_SECONDS"

definition clear_challenge :: "dns_world \<Rightarrow> dns_provider \<Rightarrow> dns_provider" where
  "clear_challenge w = delete_records w CHALLENGE_LABEL TypeTXT"

text \<open>\<open>_start_dns\<close> of \<open>web/start.py\<close>: one \<open>add_zone\<close> per domain, \<open>DnsNotEnabled\<close> only logged.\<close>

fun add_zones :: "dns_world \<Rightarrow> string list \<Rightarrow> dns_provider \<Rightarrow> (dns_error + unit) \<times> dns_provider" where
  "add_zones w [] s = (Inr (), s)"
| "add_zones w (d # ds) s =
     (case add_zone w [] d s of
        (Inl SpawnFailed, s1) \<Rightarrow> (Inl SpawnFailed, s1)
      | (_, s1) \<Rightarrow> add_zones w ds s1)"

definition start_dns :: "dns_world \<Rightarrow> string option \<Rightarrow> domain list \<Rightarrow> dns_provider \<Rightarrow> (dns_error + unit) \<times> dns_provider" where
  "start_dns w public_ip doms s =
     (let s1 = (case public_ip of None \<Rightarrow> s | Some ip \<Rightarrow> publish_router_addresses w ip s) in
      case add_zones w (map name_no_port doms) s1 of
        (Inl x, s2) \<Rightarrow> (Inl x, s2)
      | (Inr (), s2) \<Rightarrow> provider_start w [] s2)"

section \<open>The provider serves what it was told\<close>

text \<open>Events, in any order: writers of records, zone changes, the process exiting on its own.\<close>

datatype dns_event =
    RecordWrite dns_write
  | AddZone dns_world "dns_write list" string
  | RemoveZone dns_world "dns_write list" string
  | ProviderStart dns_world "dns_write list"
  | Cleanup
  | CoreDnsExits

fun dns_step :: "dns_provider \<Rightarrow> dns_event \<Rightarrow> dns_provider" where
  "dns_step s (RecordWrite r) = record_write r s"
| "dns_step s (AddZone w ws zone) = snd (add_zone w ws zone s)"
| "dns_step s (RemoveZone w ws zone) = snd (remove_zone w ws zone s)"
| "dns_step s (ProviderStart w ws) = snd (provider_start w ws s)"
| "dns_step s Cleanup = cleanup s"
| "dns_step s CoreDnsExits = stop_process s"

definition zone_served :: "dns_provider \<Rightarrow> string \<Rightarrow> bool" where
  "zone_served s zone \<longleftrightarrow>
     (\<exists>z \<in> set (dp_zones s). zonefile_path (dp_zones_dir s) z = zonefile_path (dp_zones_dir s) zone \<and>
        dp_files s (zonefile_path (dp_zones_dir s) zone) = Some (render_zonefile z (dp_serial s) (provider_records s)))"

definition zone_served_inside :: "dns_provider \<Rightarrow> string \<Rightarrow> string \<Rightarrow> bool" where
  "zone_served_inside s ip zone \<longleftrightarrow>
     (\<exists>z \<in> set (dp_zones s). zonefile_path (dp_zones_dir s) z = zonefile_path (dp_zones_dir s) zone \<and>
        dp_files s (container_zonefile_path (dp_zones_dir s) zone) = Some (render_zonefile_container z ip (dp_serial s)))"

definition corefile_for :: "dns_provider \<Rightarrow> string \<Rightarrow> bool" where
  "corefile_for s text \<longleftrightarrow>
     (\<exists>upstream. text = render_corefile (dp_zones_dir s) (dp_bind_ip s) (dp_gateway_ip s) (dp_zones s) upstream)"

definition rendered :: "dns_provider \<Rightarrow> bool" where
  "rendered s \<longleftrightarrow> corefile_for s (dp_corefile s) \<and> list_all (zone_served s) (dp_zones s) \<and>
     (\<forall>ip. non_empty (dp_gateway_ip s) = Some ip \<longrightarrow> list_all (zone_served_inside s ip) (dp_zones s))"

definition disabled :: "dns_provider \<Rightarrow> bool" where
  "disabled s \<longleftrightarrow> dp_bind_ip s = None \<and> dp_gateway_ip s = None"

definition dns_ok :: "dns_provider \<Rightarrow> bool" where
  "dns_ok s \<longleftrightarrow> distinct (dp_zones s) \<and> (disabled s \<longrightarrow> dp_zones s = []) \<and>
     (dp_zones s \<noteq> [] \<longrightarrow> rendered s) \<and>
     (\<forall>p. dp_coredns s = Some p \<and> cd_running p \<longrightarrow> corefile_for s (cd_corefile p))"

text \<open>What a record write leaves alone.\<close>

definition same_zones :: "dns_provider \<Rightarrow> dns_provider \<Rightarrow> bool" where
  "same_zones s t \<longleftrightarrow> dp_zones t = dp_zones s \<and> dp_coredns t = dp_coredns s \<and> dp_bind_ip t = dp_bind_ip s \<and>
     dp_gateway_ip t = dp_gateway_ip s \<and> dp_zones_dir t = dp_zones_dir s"

lemma write_config_same: "same_zones s (write_config w s)"
  by (simp add: same_zones_def write_config_def write_coredns_config_def Let_def)

lemma record_write_same: "same_zones s (record_write r s)"
proof (cases r)
  case (SetRecords w name t vals ttl)
  let ?rrset = "map (\<lambda>v. \<lparr>dr_name = name, dr_type = t, dr_ttl = ttl, dr_data = v\<rparr>) vals"
  show ?thesis
    using SetRecords write_config_same [of "s\<lparr>dp_records := AList.update (name, t) ?rrset (dp_records s)\<rparr>" w]
    by (simp add: set_records_def same_zones_def Let_def)
next
  case (DeleteRecords w name t)
  then show ?thesis
    using write_config_same [of "s\<lparr>dp_records := AList.delete (name, t) (dp_records s)\<rparr>" w]
    by (simp add: delete_records_def same_zones_def)
qed

lemma record_writes_same: "same_zones s (fold record_write ws s)"
proof (induction ws arbitrary: s)
  case (Cons r ws)
  then show ?case using record_write_same [of s r] Cons [of "record_write r s"] by (simp add: same_zones_def)
qed (simp add: same_zones_def)

lemma fold_write:
  assumes "z \<in> set zones"
  shows "\<exists>z' \<in> set zones. pf z' = pf z \<and> fold (\<lambda>z files. files(pf z \<mapsto> txt z)) zones files (pf z) = Some (txt z' :: string)"
  using assms
proof (induction zones rule: rev_induct)
  case (snoc x zones)
  show ?case
  proof (cases "pf x = pf z")
    case False
    then have "z \<in> set zones" using snoc.prems by auto
    then obtain z' where "z' \<in> set zones" "pf z' = pf z" "fold (\<lambda>z files. files(pf z \<mapsto> txt z)) zones files (pf z) = Some (txt z')"
      using snoc.IH by blast
    with False show ?thesis by (intro bexI [of _ z']) (simp_all add: fun_upd_other del: fun_upd_apply)
  qed auto
qed simp

lemma fold_write_other:
  assumes "q \<notin> pf ` set zones"
  shows "fold (\<lambda>z files. files(pf z \<mapsto> (txt z :: string))) zones files q = files q"
  using assms by (induction zones arbitrary: files) auto

lemma path_ends: "\<exists>p. zonefile_path d z = p @ ''.zone''"
  unfolding zonefile_path_def path_join_def by (metis append.assoc)

lemma container_path_differs: "zonefile_path d z \<noteq> container_zonefile_path d z'"
proof
  assume eq: "zonefile_path d z = container_zonefile_path d z'"
  obtain p where "zonefile_path d z = p @ ''.zone''" using path_ends by blast
  with eq have "last (p @ ''.zone'') = last (container_zonefile_path d z')" by simp
  then show False by (simp add: container_zonefile_path_def)
qed

lemma write_config_rendered:
  assumes "\<not> disabled s"
  shows "rendered (write_config w s)"
proof -
  define t where "t = s\<lparr>dp_serial := next_serial (dw_now w) (dp_serial s)\<rparr>"
  let ?t = "write_config w s"
  let ?w = "\<lambda>z files. files(zonefile_path (dp_zones_dir s) z \<mapsto> render_zonefile z (dp_serial t) (provider_records t))"
  let ?c = "\<lambda>ip z files. files(container_zonefile_path (dp_zones_dir s) z \<mapsto> render_zonefile_container z ip (dp_serial t))"
  have t: "?t = write_coredns_config w t" using assms unfolding write_config_def disabled_def t_def by argo
  have frame: "dp_zones t = dp_zones s" "dp_zones_dir t = dp_zones_dir s" "dp_gateway_ip t = dp_gateway_ip s"
      "dp_bind_ip t = dp_bind_ip s" "dp_files t = dp_files s"
    by (simp_all add: t_def)
  have same: "dp_zones ?t = dp_zones s" "dp_zones_dir ?t = dp_zones_dir s" "dp_gateway_ip ?t = dp_gateway_ip s"
      "dp_serial ?t = dp_serial t" "provider_records ?t = provider_records t"
    by (simp_all add: t write_coredns_config_def Let_def frame provider_records_def)
  have w: "write_zone_file (dp_zones_dir s) (dp_serial t) (provider_records t) = ?w"
    by (intro ext) (simp add: write_zone_file_def)
  have c: "write_container_file (dp_zones_dir s) (dp_serial t) ip = ?c ip" for ip
    by (intro ext) (simp add: write_container_file_def)
  have files: "dp_files ?t = (case non_empty (dp_gateway_ip s) of
        None \<Rightarrow> fold ?w (dp_zones s) (dp_files s)
      | Some ip \<Rightarrow> fold (?c ip) (dp_zones s) (fold ?w (dp_zones s) (dp_files s)))"
    by (simp add: t write_coredns_config_def Let_def frame w c split: option.splits)
  have other: "fold (?c ip) (dp_zones s) g (zonefile_path (dp_zones_dir s) z) = g (zonefile_path (dp_zones_dir s) z)" for ip g z
    by (rule fold_write_other) (auto dest: container_path_differs [THEN notE])
  have "zone_served ?t z" if "z \<in> set (dp_zones s)" for z
    using fold_write [OF that, of "zonefile_path (dp_zones_dir s)" "\<lambda>z. render_zonefile z (dp_serial t) (provider_records t)" "dp_files s"]
    by (auto simp: zone_served_def same files other split: option.splits)
  moreover have "zone_served_inside ?t ip z" if "z \<in> set (dp_zones s)" "non_empty (dp_gateway_ip s) = Some ip" for ip z
    using fold_write [OF that(1), of "container_zonefile_path (dp_zones_dir s)" "\<lambda>z. render_zonefile_container z ip (dp_serial t)"
        "fold ?w (dp_zones s) (dp_files s)"] that(2)
    by (auto simp: zone_served_inside_def same files container_zonefile_path_def)
  moreover have "corefile_for ?t (dp_corefile ?t)"
    by (auto simp: corefile_for_def t write_coredns_config_def Let_def)
  ultimately show ?thesis by (auto simp: rendered_def list_all_iff same)
qed

text \<open>The part of the invariant about files, and the part about the process.\<close>

definition zones_ok :: "dns_provider \<Rightarrow> bool" where
  "zones_ok s \<longleftrightarrow> distinct (dp_zones s) \<and> (disabled s \<longrightarrow> dp_zones s = []) \<and> (dp_zones s \<noteq> [] \<longrightarrow> rendered s)"

definition process_ok :: "dns_provider \<Rightarrow> bool" where
  "process_ok s \<longleftrightarrow> (\<forall>p. dp_coredns s = Some p \<and> cd_running p \<longrightarrow> corefile_for s (cd_corefile p))"

lemma dns_ok_parts: "dns_ok s \<longleftrightarrow> zones_ok s \<and> process_ok s"
  by (auto simp: dns_ok_def zones_ok_def process_ok_def)

lemma same_zones_facts:
  assumes "same_zones s t"
  shows "corefile_for t = corefile_for s" and "disabled t = disabled s" and "process_ok t = process_ok s"
  using assms by (auto simp: same_zones_def corefile_for_def disabled_def process_ok_def fun_eq_iff)

lemma record_write_cases:
  "record_write r s = s \<or> (\<exists>w rs. record_write r s = write_config w (s\<lparr>dp_records := rs\<rparr>))"
  by (cases r) (auto simp: set_records_def delete_records_def Let_def)

lemma zones_ok_write_config:
  assumes "distinct (dp_zones s)" and "disabled s \<longrightarrow> dp_zones s = []"
  shows "zones_ok (write_config w s)"
  using assms write_config_rendered [of s w] write_config_same [of s w] same_zones_facts(2) [OF write_config_same [of s w]]
  by (auto simp: zones_ok_def same_zones_def)

lemma record_write_ok:
  assumes "zones_ok s"
  shows "zones_ok (record_write r s)" and "rendered s \<Longrightarrow> \<not> disabled s \<Longrightarrow> rendered (record_write r s)"
proof -
  have "zones_ok (write_config w (s\<lparr>dp_records := rs\<rparr>))" for w rs
    using assms by (intro zones_ok_write_config) (auto simp: zones_ok_def disabled_def)
  then show "zones_ok (record_write r s)" using record_write_cases [of r s] assms by metis
  assume "rendered s" "\<not> disabled s"
  moreover have "rendered (write_config w (s\<lparr>dp_records := rs\<rparr>))" if "\<not> disabled s" for w rs
    using that by (intro write_config_rendered) (simp add: disabled_def)
  ultimately show "rendered (record_write r s)" using record_write_cases [of r s] by metis
qed

lemma record_writes_ok:
  assumes "zones_ok s"
  shows "zones_ok (fold record_write ws s)"
    and "rendered s \<Longrightarrow> \<not> disabled s \<Longrightarrow> rendered (fold record_write ws s)"
proof -
  show "zones_ok (fold record_write ws s)" using assms
    by (induction ws arbitrary: s) (simp_all add: record_write_ok(1))
  show "rendered (fold record_write ws s)" if "rendered s" "\<not> disabled s" using assms that
  proof (induction ws arbitrary: s)
    case (Cons r ws)
    then show ?case
      using record_write_ok [of s r] same_zones_facts(2) [OF record_write_same [of s r]] by simp
  qed simp
qed

lemma start_process_ok:
  assumes "zones_ok s" and "rendered s" and "\<not> disabled s" and "process_ok s"
  shows "dns_ok (snd (start_process w ws s))"
proof -
  let ?t = "fold record_write ws s"
  have t: "zones_ok ?t" "rendered ?t" using assms record_writes_ok by auto
  moreover have "process_ok ?t" using assms(4) same_zones_facts(3) [OF record_writes_same] by simp
  moreover have "zones_ok (?t\<lparr>dp_coredns := c\<rparr>)" for c
    using t(1) by (simp add: zones_ok_def disabled_def rendered_def corefile_for_def zone_served_def [abs_def]
      zone_served_inside_def [abs_def] provider_records_def)
  ultimately show ?thesis
    by (auto simp: start_process_def Let_def dns_ok_parts process_ok_def rendered_def corefile_for_def)
qed

lemma zones_ok_process [simp]:
  "zones_ok (s\<lparr>dp_coredns := c\<rparr>) = zones_ok s" "rendered (s\<lparr>dp_coredns := c\<rparr>) = rendered s"
  "disabled (s\<lparr>dp_coredns := c\<rparr>) = disabled s"
  by (simp_all add: zones_ok_def disabled_def rendered_def corefile_for_def zone_served_def [abs_def]
      zone_served_inside_def [abs_def] provider_records_def)

lemma stop_process_ok: "zones_ok s \<Longrightarrow> dns_ok (stop_process s)"
  by (auto simp: stop_process_def dns_ok_parts process_ok_def)

lemma reconcile_ok:
  assumes "zones_ok s" and "rendered s" and "\<not> disabled s"
  shows "dns_ok (snd (reconcile_process w ws s))"
proof -
  have stopped: "dns_ok (snd (start_process w ws (stop_process s)))"
    using assms stop_process_ok [OF assms(1)]
    by (intro start_process_ok) (auto simp: dns_ok_parts stop_process_def)
  have fresh: "dns_ok (snd (start_process w ws s))" if "dp_coredns s = None"
    using assms that by (intro start_process_ok) (auto simp: process_ok_def)
  have "dns_ok (cleanup (fold record_write ws s))"
    using record_writes_ok(1) [OF assms(1)] by (simp add: cleanup_def dns_ok_parts process_ok_def)
  with stopped fresh assms(1) show ?thesis
    by (auto simp: reconcile_process_def restart_process_def dns_ok_parts process_ok_def)
qed

lemma apply_zones_ok:
  assumes "distinct zones" and "\<not> disabled s"
  shows "dns_ok (snd (apply_zones w ws zones s))"
proof -
  define s1 where "s1 = s\<lparr>dp_zones := zones,
      dp_files := fold (discard_zone_files (dp_zones_dir s)) (filter (\<lambda>z. z \<notin> set zones) (dp_zones s)) (dp_files s)\<rparr>"
  have "\<not> disabled s1" using assms(2) by (simp add: s1_def disabled_def)
  moreover have "distinct (dp_zones s1)" using assms(1) by (simp add: s1_def)
  ultimately have "dns_ok (snd (reconcile_process w ws (write_config w s1)))"
    using zones_ok_write_config [of s1 w] write_config_rendered [of s1 w] same_zones_facts(2) [OF write_config_same [of s1 w]]
    by (intro reconcile_ok) auto
  then show ?thesis by (simp add: apply_zones_def s1_def Let_def)
qed

lemma dns_step_ok:
  assumes "dns_ok s"
  shows "dns_ok (dns_step s e)"
proof -
  have parts: "zones_ok s" "process_ok s" "distinct (dp_zones s)" using assms by (auto simp: dns_ok_parts zones_ok_def)
  have on: "\<not> disabled s" if "serves_public_zones s \<or> dp_gateway_ip s \<noteq> None"
    using that by (auto simp: disabled_def serves_public_zones_def)
  show ?thesis
  proof (cases e)
    case (RecordWrite r)
    then show ?thesis
      using parts record_write_ok(1) [of s r] same_zones_facts(3) [OF record_write_same [of s r]] by (simp add: dns_ok_parts)
  next
    case (AddZone w ws zone)
    then show ?thesis
      using assms on parts(3) apply_zones_ok [of "dp_zones s @ [normalize_zone zone]" s w ws]
      by (auto simp: add_zone_def Let_def)
  next
    case (RemoveZone w ws zone)
    then show ?thesis
      using assms on parts(3) apply_zones_ok [of "filter (\<lambda>z. z \<noteq> normalize_zone zone) (dp_zones s)" s w ws]
      by (auto simp: remove_zone_def)
  next
    case (ProviderStart w ws)
    have "dns_ok (snd (start_process w ws (write_config w s)))"
      if "dp_coredns s = None" "dp_zones s \<noteq> [] \<or> dp_gateway_ip s \<noteq> None"
    proof (rule start_process_ok)
      have d: "\<not> disabled s" using that parts(1) by (auto simp: disabled_def zones_ok_def)
      then show "rendered (write_config w s)" "\<not> disabled (write_config w s)" "process_ok (write_config w s)"
        using write_config_rendered write_config_same [THEN same_zones_facts(2)] write_config_same [THEN same_zones_facts(3)]
          parts(2) by auto
      show "zones_ok (write_config w s)" using parts(3) d by (intro zones_ok_write_config) auto
    qed
    with ProviderStart assms show ?thesis by (auto simp: provider_start_def)
  next
    case Cleanup
    then show ?thesis using parts by (simp add: cleanup_def dns_ok_parts process_ok_def)
  next
    case CoreDnsExits
    then show ?thesis using stop_process_ok parts by simp
  qed
qed

interpretation dns: guarded_system dns_step dns_ok
  by unfold_locales (rule dns_step_ok)

text \<open>C24. Whatever records are written and zones added and removed in whatever order, with CoreDNS failing
  to start or exiting in between: the zones are distinct, the file of each zone holds all the records
  there are now and the serial there is now, and a CoreDNS that runs serves exactly these zones.\<close>

theorem dns_serves_current:
  assumes "dp_zones s0 = []" and "dp_coredns s0 = None"
  shows "let s = foldl dns_step s0 events in
     distinct (dp_zones s) \<and> list_all (zone_served s) (dp_zones s) \<and>
     (case dp_coredns s of None \<Rightarrow> True | Some p \<Rightarrow> \<not> cd_running p \<or> corefile_for s (cd_corefile p))"
proof -
  have "dns_ok s0" using assms by (simp add: dns_ok_def)
  then have "dns_ok (foldl dns_step s0 events)" by (rule dns.foldl_inv)
  then show ?thesis
    by (cases "dp_zones (foldl dns_step s0 events) = []") (auto simp: Let_def dns_ok_def rendered_def split: option.splits)
qed

lemma next_serial_bounds:
  assumes "0 \<le> serial" and "serial + 1 < 2 ^ 32" and "now < 2 ^ 32"
  shows "serial < next_serial now serial" and "next_serial now serial < 2 ^ 32" and "now \<le> next_serial now serial"
proof -
  have "max (serial + 1) now mod 2 ^ 32 = max (serial + 1) now"
    using assms by (intro mod_pos_pos_trivial) (auto simp: max_def)
  then show "serial < next_serial now serial" "next_serial now serial < 2 ^ 32" "now \<le> next_serial now serial"
    using assms by (auto simp: next_serial_def max_def)
qed

text \<open>When the clock itself no longer fits 32 bits, two writes in one second get the same serial.\<close>

lemma next_serial_stalls: "next_serial (2 ^ 32 + 5) 0 = 5" "next_serial (2 ^ 32 + 5) 5 = 5"
  by (simp_all add: next_serial_def)

fun write_time :: "dns_write \<Rightarrow> int" where
  "write_time (SetRecords w name t vals ttl) = dw_now w"
| "write_time (DeleteRecords w name t) = dw_now w"

lemma write_config_serial:
  "\<not> disabled s \<Longrightarrow> dp_serial (write_config w s) = next_serial (dw_now w) (dp_serial s)"
  by (auto simp: write_config_def disabled_def write_coredns_config_def Let_def)

lemma record_write_serial:
  assumes "\<not> disabled s" and "record_write r s \<noteq> s"
  shows "dp_serial (record_write r s) = next_serial (write_time r) (dp_serial s)"
  using assms by (cases r) (auto simp: set_records_def delete_records_def Let_def write_config_serial disabled_def)

text \<open>A change of the records reaches resolvers: CoreDNS reloads a zone only when its serial grows, and
  every write that changes anything gives all zones files with a larger serial that still fits 32 bits,
  however little time has passed, until the counter or the clock reaches the limit.\<close>

lemma record_change_moves_serial:
  assumes "dns_ok s" and "\<not> disabled s" and "record_write r s \<noteq> s"
    and "0 \<le> dp_serial s" and "dp_serial s + 1 < 2 ^ 32" and "write_time r < 2 ^ 32"
  shows "let t = record_write r s in
     dp_serial s < dp_serial t \<and> dp_serial t < 2 ^ 32 \<and> dp_zones t = dp_zones s \<and> list_all (zone_served t) (dp_zones s)"
proof -
  have "zones_ok (record_write r s)" using assms(1) record_write_ok(1) dns_ok_parts by blast
  moreover have "dp_zones (record_write r s) = dp_zones s" using record_write_same [of s r] by (simp add: same_zones_def)
  ultimately have "list_all (zone_served (record_write r s)) (dp_zones s)"
    by (cases "dp_zones s = []") (auto simp: zones_ok_def rendered_def)
  then show ?thesis
    using record_write_serial [OF assms(2,3)] next_serial_bounds [OF assms(4,5,6)] record_write_same [of s r]
    by (simp add: same_zones_def Let_def)
qed

text \<open>A zone change that reports success leaves the set of zones as asked and, unless there was nothing to
  do, CoreDNS running.\<close>

lemma start_process_zones: "dp_zones (snd (start_process w ws s)) = dp_zones s"
  using record_writes_same [of s ws] by (simp add: start_process_def Let_def same_zones_def)

lemma apply_zones_zones: "dp_zones (snd (apply_zones w ws zones s)) = zones"
proof -
  have "dp_zones (fold record_write ws (write_config w u)) = dp_zones u" for u
    using record_writes_same [of "write_config w u" ws] write_config_same [of u w] by (simp add: same_zones_def)
  moreover have "dp_zones (snd (start_process w ws (write_config w u))) = dp_zones u" for u
    using start_process_zones write_config_same [of u w] by (simp add: same_zones_def)
  moreover have "dp_zones (stop_process u) = dp_zones u" for u by (simp add: stop_process_def)
  ultimately show ?thesis
    using write_config_same
    by (simp add: apply_zones_def Let_def reconcile_process_def restart_process_def cleanup_def start_process_zones same_zones_def)
qed

lemma zone_set_changes:
  "fst (add_zone w ws zone s) = Inr () \<Longrightarrow> \<not> is_local_only zone \<Longrightarrow>
     set (dp_zones (snd (add_zone w ws zone s))) = insert (normalize_zone zone) (set (dp_zones s))"
  "\<not> is_local_only zone \<Longrightarrow> \<not> disabled s \<Longrightarrow>
     set (dp_zones (snd (remove_zone w ws zone s))) = set (dp_zones s) - {normalize_zone zone}"
  by (auto simp: add_zone_def remove_zone_def Let_def apply_zones_zones disabled_def serves_public_zones_def split: if_splits)

lemma new_zone_is_served:
  assumes "fst (add_zone w ws zone s) = Inr ()" and "\<not> is_local_only zone" and "normalize_zone zone \<notin> set (dp_zones s)"
  shows "\<exists>p. dp_coredns (snd (add_zone w ws zone s)) = Some p \<and> cd_running p"
proof -
  have new: "add_zone w ws zone s = apply_zones w ws (dp_zones s @ [normalize_zone zone]) s"
    using assms by (auto simp: add_zone_def Let_def split: if_splits)
  have "dp_zones (write_config w (s\<lparr>dp_zones := dp_zones s @ [normalize_zone zone], dp_files := g\<rparr>)) \<noteq> []" for g
    using write_config_same by (auto simp: same_zones_def)
  with assms(1) show ?thesis
    unfolding new by (auto simp: apply_zones_def Let_def reconcile_process_def restart_process_def start_process_def split: if_splits)
qed

text \<open>The suffixes of domains that need no zone are compared with a dot in front, so the one that has a dot
  of its own matches no domain: a domain under \<open>.local\<close> gets a zone at the next start.\<close>

lemma local_domain_gets_zone: "\<not> is_local_only ''box.local''" "is_local_only ''box.lvh.me''"
  by (simp_all add: is_local_only_def LOCAL_ONLY_SUFFIXES_def endswith_def)

section \<open>Zone files read as they were written\<close>

text \<open>A quoted character string as a zone file reads it: a backslash takes the next character as it is.
  (The form with three digits is not written here.)\<close>

fun read_txt :: "string \<Rightarrow> string option" where
  "read_txt [] = None"
| "read_txt (c # cs) =
     (if c = CHR 0x22 then (if cs = [] then Some [] else None)
      else if c = CHR 0x5C then (case cs of [] \<Rightarrow> None | d # ds \<Rightarrow> map_option ((#) d) (read_txt ds))
      else map_option ((#) c) (read_txt cs))"

lemma escape_txt_simps [simp]:
  "escape_txt [] = []"
  "escape_txt (c # cs) = (if c = CHR 0x5C then [CHR 0x5C, CHR 0x5C] else if c = CHR 0x22 then [CHR 0x5C, CHR 0x22] else [c]) @ escape_txt cs"
  by (simp_all add: escape_txt_def)

lemma txt_round_trip: "read_txt (escape_txt s @ [CHR 0x22]) = Some s"
  by (induction s) auto

text \<open>The challenge of one certificate is taken down without a trace.\<close>

lemma challenge_leaves_no_record:
  assumes "map_of (dp_records s) (CHALLENGE_LABEL, TypeTXT) = None" and "vals \<noteq> []"
  shows "dp_records (clear_challenge w2 (publish_challenge w1 vals s)) = dp_records s"
proof -
  have keep: "dp_records (write_config w t) = dp_records t" for w t
    by (simp add: write_config_def write_coredns_config_def Let_def)
  have "AList.delete k (AList.update k v al) = al" if "map_of al k = None" for k :: "string \<times> record_type" and v and al :: "((string \<times> record_type) \<times> dns_record list) list"
    using that by (induction al) (auto simp: AList.delete_eq filter_id_conv split: if_splits)
  with assms show ?thesis
    by (simp add: clear_challenge_def publish_challenge_def set_records_def delete_records_def Let_def keep update_conv)
qed

section \<open>Concrete instances\<close>

definition demo_world :: dns_world where
  "demo_world = \<lparr>dw_now = 7, dw_resolv_conf = None, dw_spawns = True\<rparr>"

definition demo_provider :: dns_provider where
  "demo_provider = \<lparr>dp_zones_dir = ''/z'', dp_bind_ip = Some ''10.0.0.1'', dp_gateway_ip = None, dp_zones = [],
     dp_records = [], dp_coredns = None, dp_serial = 0, dp_corefile = [], dp_files = Map.empty\<rparr>"

definition demo_zone_events :: "dns_event list" where
  "demo_zone_events = [RecordWrite (SetRecords demo_world APEX TypeA [''192.0.2.1''] 300), AddZone demo_world [] ''a.org'']"

lemma demo_zones: "dp_zones (foldl dns_step demo_provider demo_zone_events) = [''a.org'']"
proof -
  have "\<not> is_local_only ''a.org''" "normalize_zone ''a.org'' = ''a.org''" by code_simp+
  then show ?thesis
    using record_write_same [of demo_provider "SetRecords demo_world APEX TypeA [''192.0.2.1''] 300"]
    by (simp add: demo_zone_events_def add_zone_def Let_def apply_zones_zones same_zones_def demo_provider_def serves_public_zones_def)
qed

theorem dns_serves_current_witness:
  "dp_zones (foldl dns_step demo_provider demo_zone_events) = [''a.org''] \<and>
     zone_served (foldl dns_step demo_provider demo_zone_events) ''a.org''"
  using dns_serves_current [of demo_provider demo_zone_events] demo_zones by (simp add: demo_provider_def Let_def)

definition demo_challenge :: dns_write where
  "demo_challenge = SetRecords demo_world CHALLENGE_LABEL TypeTXT [''token''] CHALLENGE_TTL_SECONDS"

lemma demo_provider_ok: "dns_ok demo_provider" "\<not> disabled demo_provider"
  by (simp_all add: dns_ok_def disabled_def demo_provider_def)

lemma record_change_moves_serial_witness:
  "dp_serial demo_provider < dp_serial (record_write demo_challenge demo_provider)"
proof -
  have "dp_records (record_write demo_challenge demo_provider) \<noteq> dp_records demo_provider"
    by (simp add: demo_challenge_def set_records_def demo_provider_def Let_def write_config_def write_coredns_config_def)
  then have "record_write demo_challenge demo_provider \<noteq> demo_provider" by auto
  from record_change_moves_serial [OF demo_provider_ok this] show ?thesis
    by (simp add: demo_provider_def demo_challenge_def demo_world_def Let_def)
qed

end
