(* ===== verification/Caddy.thy ===== *)
theory Caddy
  imports Domains
begin

text \<open>
  \<open>core/caddy.py\<close>: the Caddyfile written for the domains of the instance, as text, and the Caddy child
  that serves it. A running Caddy is the Caddyfile it loaded last. What the child does and the monotonic
  clock are arguments; writing a file is taken to succeed.
\<close>

section \<open>The Caddyfile\<close>

definition REDIRECT_BLOCK :: string where
  "REDIRECT_BLOCK = text_lines [''    redir https://{host}{uri} permanent'']"

definition reverse_proxy_block :: "int \<Rightarrow> string" where
  "reverse_proxy_block web_server_port = text_lines
     [''    reverse_proxy localhost:'' @ show_int web_server_port @ '' {'',
      ''        lb_try_duration 10s'',
      ''        lb_try_interval 250ms'',
      ''    }'']"

definition tls_domain_blocks :: "string \<Rightarrow> string \<Rightarrow> int \<Rightarrow> string" where
  "tls_domain_blocks name tls_directive web_server_port =
     text_lines [''https://'' @ name @ '', https://*.'' @ name @ '' {'', ''    '' @ tls_directive, ''    encode gzip zstd'']
     @ reverse_proxy_block web_server_port
     @ text_lines [''}'', ''http://'' @ name @ '', http://*.'' @ name @ '' {'']
     @ REDIRECT_BLOCK
     @ text_lines [''}'']"

definition http_domain_block :: "string \<Rightarrow> int \<Rightarrow> string" where
  "http_domain_block name web_server_port =
     text_lines [''http://'' @ name @ '', http://*.'' @ name @ '' {'', ''    encode gzip zstd'']
     @ reverse_proxy_block web_server_port
     @ text_lines [''}'']"

definition caddy_options :: "domain list \<Rightarrow> string option \<Rightarrow> string" where
  "caddy_options doms admin_addr = text_lines
     [''{'',
      ''    auto_https '' @ (if list_ex dn_tls doms then ''disable_redirects'' else ''off''),
      ''    admin '' @ (case non_empty admin_addr of None \<Rightarrow> ''off'' | Some a \<Rightarrow> a),
      ''    servers {'',
      ''        protocols h1 h2'',
      ''    }'',
      ''}'']"

definition site_blocks :: "int \<Rightarrow> (string \<Rightarrow> (string \<times> string) option) \<Rightarrow> domain \<Rightarrow> string" where
  "site_blocks web_server_port cert_for d =
     (let name = name_no_port d in
      if \<not> dn_tls d then http_domain_block name web_server_port
      else (case cert_for name of
          Some (cert_path, key_path) \<Rightarrow> tls_domain_blocks name (''tls '' @ cert_path @ '' '' @ key_path) web_server_port
        | None \<Rightarrow> tls_domain_blocks name ''tls internal'' web_server_port))"

definition generate_caddyfile ::
    "domain list \<Rightarrow> int \<Rightarrow> (string \<Rightarrow> (string \<times> string) option) \<Rightarrow> string option \<Rightarrow> string" where
  "generate_caddyfile doms web_server_port cert_for admin_addr =
     caddy_options doms admin_addr @ concat (map (site_blocks web_server_port cert_for) doms)"

definition unix_admin_address :: "string \<Rightarrow> string" where
  "unix_admin_address socket_path = ''unix/'' @ socket_path"

section \<open>Starting Caddy\<close>

definition CADDY_BIND_RETRY_SECONDS :: rat where "CADDY_BIND_RETRY_SECONDS = 90"

definition CADDY_BIND_RETRY_INTERVAL :: rat where "CADDY_BIND_RETRY_INTERVAL = 1 / 4"

text \<open>How one spawned Caddy looks after the settling time.\<close>

datatype caddy_attempt = StillRunning | AddressInUse | ExitedOtherwise

text \<open>
  The loop of \<open>_spawn_caddy\<close>: the attempts there are to see, each with the reading of the clock that
  follows it; the result is whether the process that is returned runs, None while it still retries.
\<close>

fun spawn_caddy :: "rat \<Rightarrow> (caddy_attempt \<times> rat) list \<Rightarrow> bool option" where
  "spawn_caddy deadline [] = None"
| "spawn_caddy deadline ((attempt, now) # attempts) =
     (if attempt = StillRunning then Some True
      else if attempt = AddressInUse \<and> now < deadline then spawn_caddy deadline attempts
      else Some False)"

text \<open>Each attempt sleeps before it looks and before the next one.\<close>

fun attempts_spaced :: "rat \<Rightarrow> (caddy_attempt \<times> rat) list \<Rightarrow> bool" where
  "attempts_spaced earliest [] = True"
| "attempts_spaced earliest ((attempt, now) # attempts) \<longleftrightarrow>
     earliest + CADDY_BIND_RETRY_INTERVAL \<le> now \<and> attempts_spaced (now + CADDY_BIND_RETRY_INTERVAL) attempts"

section \<open>The running process\<close>

record caddy_process =
  cp_running :: bool
  cp_config :: string
  cp_admin_addr :: "string option"
  cp_socket_file :: bool

text \<open>The handle registered by \<open>set_active_caddy\<close> and the Caddyfile on disk.\<close>

record caddy_state =
  cs_active :: "caddy_process option"
  cs_caddyfile :: string

datatype reload_answer = ReloadDone | ReloadRefused | ReloadTimedOut

definition stop_caddy :: "caddy_process \<Rightarrow> caddy_process" where
  "stop_caddy p = p\<lparr>cp_running := False\<rparr>"

text \<open>\<open>_cold_restart_locked\<close>; \<open>runs\<close> is what \<open>spawn_caddy\<close> ends with.\<close>

definition cold_restart :: "bool \<Rightarrow> string \<Rightarrow> caddy_process \<Rightarrow> caddy_process" where
  "cold_restart runs caddyfile p =
     (let p1 = stop_caddy p;
          p2 = (case cp_admin_addr p1 of
                  Some a \<Rightarrow> if startswith a ''unix/'' then p1\<lparr>cp_socket_file := False\<rparr> else p1
                | None \<Rightarrow> p1)
      in p2\<lparr>cp_running := runs, cp_config := caddyfile\<rparr>)"

definition reload_caddy :: "reload_answer \<Rightarrow> bool \<Rightarrow> string \<Rightarrow> caddy_process \<Rightarrow> caddy_process" where
  "reload_caddy answer runs caddyfile p =
     (if cp_admin_addr p = None \<or> \<not> cp_running p then cold_restart runs caddyfile p
      else (case answer of
          ReloadTimedOut \<Rightarrow> cold_restart runs caddyfile p
        | ReloadRefused \<Rightarrow> cold_restart runs caddyfile p
        | ReloadDone \<Rightarrow> p\<lparr>cp_config := caddyfile\<rparr>))"

definition start_caddy ::
    "bool \<Rightarrow> domain list \<Rightarrow> int \<Rightarrow> (string \<Rightarrow> (string \<times> string) option) \<Rightarrow> string option \<Rightarrow> caddy_state" where
  "start_caddy runs doms web_server_port cert_for admin_addr =
     (let caddyfile = generate_caddyfile doms web_server_port cert_for admin_addr in
      \<lparr>cs_active = Some \<lparr>cp_running = runs, cp_config = caddyfile, cp_admin_addr = admin_addr, cp_socket_file = runs\<rparr>,
       cs_caddyfile = caddyfile\<rparr>)"

definition reload_caddy_for_domains ::
    "reload_answer \<Rightarrow> bool \<Rightarrow> int \<Rightarrow> (string \<Rightarrow> (string \<times> string) option) \<Rightarrow> db \<Rightarrow> caddy_state \<Rightarrow> caddy_state \<times> bool" where
  "reload_caddy_for_domains answer runs web_server_port cert_for db s =
     (case cs_active s of
        None \<Rightarrow> (s, False)
      | Some p \<Rightarrow>
          (let caddyfile = generate_caddyfile (effective_domains db) web_server_port cert_for (cp_admin_addr p)
           in (s\<lparr>cs_caddyfile := caddyfile, cs_active := Some (reload_caddy answer runs caddyfile p)\<rparr>, True)))"

section \<open>Facts\<close>

lemma text_lines_append: "text_lines (a @ b) = text_lines a @ text_lines b"
  by (simp add: text_lines_def)

lemma text_lines_simps [simp]: "text_lines [] = []" "text_lines (l # ls) = l @ CHR 0x0A # text_lines ls"
  by (simp_all add: text_lines_def)

lemma spawn_caddy_ends:
  assumes "attempts_spaced earliest attempts" and "deadline - earliest \<le> of_nat n / 2" and "n < length attempts"
  shows "spawn_caddy deadline attempts \<noteq> None"
  using assms
proof (induction attempts arbitrary: earliest n)
  case (Cons a attempts)
  obtain attempt now where a: "a = (attempt, now)" by (cases a)
  have spaced: "earliest + 1 / 4 \<le> now" "attempts_spaced (now + 1 / 4) attempts"
    using Cons.prems(1) by (simp_all add: a CADDY_BIND_RETRY_INTERVAL_def)
  show ?case
  proof (cases "now < deadline")
    case True
    then obtain m where m: "n = Suc m" using Cons.prems(2) spaced(1) by (cases n) auto
    have "deadline - (now + 1 / 4) \<le> of_nat m / 2"
      using Cons.prems(2) spaced(1) by (simp add: m field_simps)
    then have "spawn_caddy deadline attempts \<noteq> None"
      using Cons.IH [OF spaced(2)] Cons.prems(3) by (simp add: m)
    then show ?thesis by (auto simp: a)
  qed (auto simp: a)
qed simp

text \<open>Starting Caddy never hangs on ports that stay taken: after at most 181 attempts, each of which
  sleeps a quarter of a second before and after it, the deadline of 90 seconds ends the loop.\<close>

lemma spawn_caddy_bounded:
  assumes "attempts_spaced start attempts" and "181 \<le> length attempts"
  shows "spawn_caddy (start + CADDY_BIND_RETRY_SECONDS) attempts \<noteq> None"
  using spawn_caddy_ends [OF assms(1), of "start + CADDY_BIND_RETRY_SECONDS" 180] assms(2)
  by (simp add: CADDY_BIND_RETRY_SECONDS_def)

text \<open>Whatever way the reload takes, the Caddy that runs after it serves the domains of the database.\<close>

lemma reload_serves_domains:
  assumes "reload_caddy_for_domains answer runs port cert_for db s = (s', changed)" and "cs_active s' = Some p" and "cp_running p"
  shows "cp_config p = generate_caddyfile (effective_domains db) port cert_for (cp_admin_addr p)" and "changed"
  using assms
  by (auto simp: reload_caddy_for_domains_def reload_caddy_def cold_restart_def stop_caddy_def Let_def
      split: option.splits reload_answer.splits if_splits)

section \<open>Concrete instance\<close>

definition busy_attempts :: "(caddy_attempt \<times> rat) list" where
  "busy_attempts = map (\<lambda>k. (AddressInUse, of_nat (Suc k))) [0..<181]"

lemma busy_attempts_spaced:
  "e + 1 / 4 \<le> of_nat (Suc i) \<Longrightarrow> attempts_spaced e (map (\<lambda>k. (AddressInUse, of_nat (Suc k))) [i..<i + n])"
proof (induction n arbitrary: i e)
  case (Suc n)
  have "[i..<i + Suc n] = i # [Suc i..<Suc i + n]" by (simp add: upt_rec)
  with Suc.IH [of "of_nat (Suc i) + 1 / 4" "Suc i"] Suc.prems show ?case
    by (simp add: CADDY_BIND_RETRY_INTERVAL_def)
qed simp

lemma spawn_caddy_bounded_witness: "spawn_caddy CADDY_BIND_RETRY_SECONDS busy_attempts \<noteq> None"
  using spawn_caddy_bounded [of 0 busy_attempts] busy_attempts_spaced [of 0 0 181] by (simp add: busy_attempts_def)

end
