(* ===== verification/Certs.thy ===== *)
theory Certs
  imports Dns Caddy Auth
begin

text \<open>
  \<open>core/tls\<close>: the state of the certificates on disk, acquiring one through ACME or through the broker
  with DNS-01 challenges published by the DNS provider, and the renewal of the certificates of all TLS
  domains. The certificate authority, the broker, key generation, the X.509 parser and the clock are
  arguments; dates are microseconds.
\<close>

section \<open>Where certificates are\<close>

definition CERT_PROVIDER_ACME :: string where "CERT_PROVIDER_ACME = ''acme''"

record tls_config =
  tc_certs_dir :: string
  tc_port :: int
  tc_cert_provider :: string
  tc_acme_account_key_path :: "string option"
  tc_coredns_enabled :: bool
  tc_acquire_if_missing :: bool

definition is_label_char :: "char \<Rightarrow> bool" where
  "is_label_char c \<longleftrightarrow> is_lower_char c \<or> is_digit_char c \<or> c = CHR ''-''"

definition is_dns_label :: "string \<Rightarrow> bool" where
  "is_dns_label l \<longleftrightarrow> l \<noteq> [] \<and> list_all is_label_char l \<and> hd l \<noteq> CHR ''-'' \<and> last l \<noteq> CHR ''-''"

text \<open>\<open>_CERT_DOMAIN_RE\<close>: two labels or more, joined by dots.\<close>

definition is_cert_domain :: "string \<Rightarrow> bool" where
  "is_cert_domain name \<longleftrightarrow> 2 \<le> length (split_on CHR ''.'' name) \<and> list_all is_dns_label (split_on CHR ''.'' name)"

text \<open>None is the ValueError.\<close>

definition normalized_cert_domain :: "string \<Rightarrow> string option" where
  "normalized_cert_domain domain_name =
     (let name = lower (before_char CHR '':'' (py_strip domain_name)) in if is_cert_domain name then Some name else None)"

definition cert_key_paths_for :: "tls_config \<Rightarrow> string \<Rightarrow> (string \<times> string) option" where
  "cert_key_paths_for cfg domain_name =
     (case normalized_cert_domain domain_name of
        None \<Rightarrow> None
      | Some name \<Rightarrow> Some (path_join (tc_certs_dir cfg) (name @ ''.pem''), path_join (tc_certs_dir cfg) (name @ ''.key'')))"

section \<open>The state of a certificate\<close>

type_synonym files = "string \<Rightarrow> string option"

datatype cert_state = CertMissing | CertExpired | CertExpiringSoon | CertOk

definition RENEW_BEFORE :: int where "RENEW_BEFORE = 7 * 86400 * 1000000"

text \<open>\<open>not_after\<close> reads the end of validity from a certificate, None when it cannot be parsed.\<close>

definition get_cert_status :: "(string \<Rightarrow> int option) \<Rightarrow> files \<Rightarrow> string \<Rightarrow> string \<Rightarrow> int \<Rightarrow> cert_state" where
  "get_cert_status not_after fs cert_path key_path now =
     (case (fs cert_path, fs key_path) of
        (Some cert, Some key) \<Rightarrow>
          (case not_after cert of
             None \<Rightarrow> CertExpired
           | Some expires_at \<Rightarrow>
               if expires_at \<le> now then CertExpired
               else if expires_at \<le> now + RENEW_BEFORE then CertExpiringSoon
               else CertOk)
      | _ \<Rightarrow> CertMissing)"

text \<open>\<open>config_cert_resolver\<close>: raises ValueError where the name is no certificate domain.\<close>

definition resolve_cert :: "tls_config \<Rightarrow> files \<Rightarrow> string \<Rightarrow> (string \<times> string) option option" where
  "resolve_cert cfg fs name =
     (case cert_key_paths_for cfg name of
        None \<Rightarrow> None
      | Some (cert_path, key_path) \<Rightarrow> Some (if fs cert_path \<noteq> None \<and> fs key_path \<noteq> None then Some (cert_path, key_path) else None))"

section \<open>Acquiring a certificate\<close>

text \<open>What stops an acquisition; only the errors the ACME loop catches are tried again.\<close>

datatype cert_exn = Retryable string | CertRaised string

definition MAX_ATTEMPTS :: nat where "MAX_ATTEMPTS = 3"

text \<open>
  One round of the ACME loop: what creating the order gives (the values of the challenges that are
  pending, or what is raised), how answering and finalising ends, the clock and resolver file at the two
  writes of records, and what else happens to the DNS provider between the two.
\<close>

record acme_answers =
  aa_order :: "cert_exn + string list"
  aa_result :: "cert_exn + string"
  aa_publish :: dns_world
  aa_clear :: dns_world
  aa_meanwhile :: "dns_event list"

definition acme_attempt :: "acme_answers \<Rightarrow> dns_provider \<Rightarrow> (cert_exn + string) \<times> dns_provider" where
  "acme_attempt a s =
     (case aa_order a of
        Inl x \<Rightarrow> (Inl x, s)
      | Inr validation_values \<Rightarrow>
          if validation_values = [] then (aa_result a, s)
          else (aa_result a, clear_challenge (aa_clear a)
                  (foldl dns_step (publish_challenge (aa_publish a) validation_values s) (aa_meanwhile a))))"

text \<open>The attempts left, the last one raising what it raises; \<open>answers k\<close> is the attempt of number k.\<close>

fun acme_loop :: "(nat \<Rightarrow> acme_answers) \<Rightarrow> nat \<Rightarrow> dns_provider \<Rightarrow> (cert_exn + string) \<times> dns_provider" where
  "acme_loop answers 0 s = (Inl (Retryable ''Failed to get cert''), s)"
| "acme_loop answers (Suc left) s =
     (case acme_attempt (answers (MAX_ATTEMPTS - left)) s of
        (Inr cert, s1) \<Rightarrow> (Inr cert, s1)
      | (Inl (Retryable m), s1) \<Rightarrow> if left = 0 then (Inl (Retryable m), s1) else acme_loop answers left s1
      | (Inl (CertRaised m), s1) \<Rightarrow> (Inl (CertRaised m), s1))"

text \<open>The answers of the broker to one poll, and the readings of the clock before and after it.\<close>

datatype poll_answer = PollRaised string | PollPending | PollValid string

record poll_round =
  pr_now :: rat
  pr_answer :: poll_answer
  pr_later :: rat

definition POLL_TIMEOUT_SECONDS :: rat where "POLL_TIMEOUT_SECONDS = 600"

definition POLL_INTERVAL_SECONDS :: rat where "POLL_INTERVAL_SECONDS = 5"

text \<open>The loop of \<open>_poll_until_issued\<close>; None while it still polls when the rounds to see run out.\<close>

fun poll_rounds :: "rat \<Rightarrow> rat \<Rightarrow> poll_round list \<Rightarrow> (cert_exn + string) option" where
  "poll_rounds deadline interval [] = None"
| "poll_rounds deadline interval (r # rounds) =
     (if deadline \<le> pr_now r then Some (Inl (CertRaised ''Broker did not issue cert''))
      else (case pr_answer r of
          PollRaised m \<Rightarrow> Some (Inl (CertRaised m))
        | PollValid cert \<Rightarrow> Some (if cert = [] then Inl (CertRaised ''Broker returned no certificate'') else Inr cert)
        | PollPending \<Rightarrow>
            (let sleep_for = min interval (deadline - pr_later r) in
             if sleep_for \<le> 0 then Some (Inl (CertRaised ''Broker did not issue cert''))
             else poll_rounds deadline (min (interval * 3 / 2) 30) rounds)))"

record acquire_env =
  ae_account :: "cert_exn + unit"
  ae_acme :: "nat \<Rightarrow> acme_answers"
  ae_identity :: "cert_exn + unit"
  ae_order :: "cert_exn + (string \<times> string) list"
  ae_poll :: "cert_exn + string"
  ae_publish :: dns_world
  ae_clear :: dns_world
  ae_meanwhile :: "dns_event list"
  ae_key :: string

text \<open>\<open>_acquire_cert_dns01\<close> after the account was looked up, which may raise.\<close>

definition acquire_cert_dns01 :: "acquire_env \<Rightarrow> dns_provider \<Rightarrow> (cert_exn + string) \<times> dns_provider" where
  "acquire_cert_dns01 e s =
     (case ae_account e of Inl x \<Rightarrow> (Inl x, s) | Inr _ \<Rightarrow> acme_loop (ae_acme e) MAX_ATTEMPTS s)"

definition check_challenge_names :: "string \<Rightarrow> (string \<times> string) list \<Rightarrow> bool" where
  "check_challenge_names d challenges \<longleftrightarrow>
     list_all (\<lambda>(record_name, v). lower (rstrip_char CHR ''.'' record_name) = lower (challenge_fqdn d)) challenges"

text \<open>\<open>acquire_tls_cert_via_broker\<close> up to the installation; \<open>ae_poll\<close> is how polling ends.\<close>

definition acquire_via_broker :: "acquire_env \<Rightarrow> string \<Rightarrow> dns_provider \<Rightarrow> (cert_exn + string) \<times> dns_provider" where
  "acquire_via_broker e d s =
     (case ae_identity e of Inl x \<Rightarrow> (Inl x, s) | Inr _ \<Rightarrow>
     (case ae_order e of
        Inl x \<Rightarrow> (Inl x, s)
      | Inr challenges \<Rightarrow>
          if \<not> check_challenge_names d challenges then (Inl (CertRaised ''unexpected challenge name''), s)
          else (ae_poll e, clear_challenge (ae_clear e)
                  (foldl dns_step (publish_challenge (ae_publish e) (map snd challenges) s) (ae_meanwhile e)))))"

definition write_cert_and_key :: "string \<Rightarrow> string \<Rightarrow> string \<Rightarrow> string \<Rightarrow> files \<Rightarrow> files" where
  "write_cert_and_key cert_path key_path cert_pem key_pem fs = fs(cert_path \<mapsto> cert_pem, key_path \<mapsto> key_pem)"

text \<open>Everything of \<open>acquire_cert_for_domain\<close> before the pair is installed: the certificate, and the
  provider after it.\<close>

definition issue_cert :: "tls_config \<Rightarrow> acquire_env \<Rightarrow> string \<Rightarrow> dns_provider \<Rightarrow> (cert_exn + string) \<times> dns_provider" where
  "issue_cert cfg e d s =
     (if \<not> serves_public_zones s
      then (Inl (CertRaised ''CoreDNS must be enabled to acquire a TLS cert via DNS-01 challenge''), s)
      else if tc_cert_provider cfg = CERT_PROVIDER_ACME
      then (if non_empty (tc_acme_account_key_path cfg) = None
            then (Inl (CertRaised ''ACME account key path must be set in config to acquire TLS cert''), s)
            else acquire_cert_dns01 e s)
      else acquire_via_broker e d s)"

definition acquire_cert_for_domain ::
    "tls_config \<Rightarrow> acquire_env \<Rightarrow> string \<Rightarrow> string \<Rightarrow> string \<Rightarrow> dns_provider \<Rightarrow> files
       \<Rightarrow> (cert_exn + unit) \<times> dns_provider \<times> files" where
  "acquire_cert_for_domain cfg e d cert_path key_path s fs =
     (case issue_cert cfg e d s of
        (Inl x, s1) \<Rightarrow> (Inl x, s1, fs)
      | (Inr cert, s1) \<Rightarrow> (Inr (), s1, write_cert_and_key cert_path key_path cert (ae_key e) fs))"

section \<open>Ensuring and renewing\<close>

record tls_state =
  ts_db :: db
  ts_dns :: dns_provider
  ts_files :: files
  ts_caddy :: caddy_state

text \<open>What the world answers: the X.509 reader, the clock when a domain's certificate is looked at, the
  acquisition of a domain's certificate, and Caddy.\<close>

record tls_env =
  te_not_after :: "string \<Rightarrow> int option"
  te_now :: "string \<Rightarrow> int"
  te_acquire :: "string \<Rightarrow> acquire_env"
  te_reload :: reload_answer
  te_caddy_runs :: bool

definition acquire_into :: "tls_config \<Rightarrow> tls_env \<Rightarrow> string \<Rightarrow> string \<times> string \<Rightarrow> tls_state \<Rightarrow> (cert_exn + unit) \<times> tls_state" where
  "acquire_into cfg e name paths s =
     (case acquire_cert_for_domain cfg (te_acquire e name) name (fst paths) (snd paths) (ts_dns s) (ts_files s) of
        (r, dns, fs) \<Rightarrow> (r, s\<lparr>ts_dns := dns, ts_files := fs\<rparr>))"

text \<open>\<open>ensure_cert_for\<close>.\<close>

definition ensure_cert_for :: "tls_config \<Rightarrow> tls_env \<Rightarrow> domain \<Rightarrow> tls_state \<Rightarrow> (cert_exn + unit) \<times> tls_state" where
  "ensure_cert_for cfg e d s =
     (if \<not> dn_tls d then (Inr (), s)
      else (let name = name_no_port d in
        case cert_key_paths_for cfg name of
          None \<Rightarrow> (Inl (CertRaised ''invalid certificate domain''), s)
        | Some paths \<Rightarrow>
            if get_cert_status (te_not_after e) (ts_files s) (fst paths) (snd paths) (te_now e name) = CertOk then (Inr (), s)
            else acquire_into cfg e name paths s))"

text \<open>One domain of \<open>_sync_cert_statuses\<close>; None is the exception that ends the loop.\<close>

definition sync_one :: "tls_config \<Rightarrow> tls_env \<Rightarrow> domain \<Rightarrow> tls_state \<Rightarrow> tls_state option" where
  "sync_one cfg e d s =
     (if \<not> dn_tls d then Some s
      else (let name = name_no_port d in
        case get_record (ts_db s) name of
          None \<Rightarrow> Some s
        | Some r \<Rightarrow>
            if n_cert_status r = CertActive then Some s
            else (case cert_key_paths_for cfg name of
                None \<Rightarrow> None
              | Some paths \<Rightarrow> Some
                  (if get_cert_status (te_not_after e) (ts_files s) (fst paths) (snd paths) (te_now e name) = CertOk
                   then s\<lparr>ts_db := set_record_status (ts_db s) name CertActive None\<rparr> else s))))"

fun sync_loop :: "tls_config \<Rightarrow> tls_env \<Rightarrow> domain list \<Rightarrow> tls_state \<Rightarrow> tls_state" where
  "sync_loop cfg e [] s = s"
| "sync_loop cfg e (d # ds) s = (case sync_one cfg e d s of None \<Rightarrow> s | Some s1 \<Rightarrow> sync_loop cfg e ds s1)"

definition sync_cert_statuses :: "tls_config \<Rightarrow> tls_env \<Rightarrow> tls_state \<Rightarrow> tls_state" where
  "sync_cert_statuses cfg e s = sync_loop cfg e (effective_domains (ts_db s)) s"

definition mark_cert_active :: "string \<Rightarrow> tls_state \<Rightarrow> tls_state" where
  "mark_cert_active name s = s\<lparr>ts_db := set_record_status (ts_db s) name CertActive None\<rparr>"

text \<open>The part of \<open>renew_cert_if_needed\<close> for the primary domain: whether its certificate was renewed.\<close>

definition renew_primary :: "tls_config \<Rightarrow> tls_env \<Rightarrow> tls_state \<Rightarrow> (cert_exn + bool) \<times> tls_state" where
  "renew_primary cfg e s =
     (case primary_domain_or_none (ts_db s) of
        None \<Rightarrow> (Inr False, s)
      | Some primary \<Rightarrow>
          if \<not> dn_tls primary then (Inr False, s)
          else (let name = name_no_port primary in
            case cert_key_paths_for cfg name of
              None \<Rightarrow> (Inl (CertRaised ''invalid certificate domain''), s)
            | Some paths \<Rightarrow>
                if get_cert_status (te_not_after e) (ts_files s) (fst paths) (snd paths) (te_now e name) = CertOk
                then (Inr False, s)
                else (case acquire_into cfg e name paths s of
                    (Inl x, s1) \<Rightarrow> (Inl x, s1)
                  | (Inr _, s1) \<Rightarrow> (Inr True, mark_cert_active name s1))))"

fun renew_aliases :: "tls_config \<Rightarrow> tls_env \<Rightarrow> string option \<Rightarrow> domain list \<Rightarrow> bool \<Rightarrow> tls_state
    \<Rightarrow> (cert_exn + bool) \<times> tls_state" where
  "renew_aliases cfg e primary [] renewed s = (Inr renewed, s)"
| "renew_aliases cfg e primary (d # ds) renewed s =
     (let name = name_no_port d in
      if \<not> dn_tls d \<or> Some name = primary then renew_aliases cfg e primary ds renewed s
      else (case cert_key_paths_for cfg name of
          None \<Rightarrow> (Inl (CertRaised ''invalid certificate domain''), s)
        | Some paths \<Rightarrow>
            if get_cert_status (te_not_after e) (ts_files s) (fst paths) (snd paths) (te_now e name) = CertOk
            then renew_aliases cfg e primary ds renewed s
            else (case acquire_into cfg e name paths s of
                (Inl x, s1) \<Rightarrow> renew_aliases cfg e primary ds renewed s1
              | (Inr _, s1) \<Rightarrow> renew_aliases cfg e primary ds True (mark_cert_active name s1))))"

text \<open>The new Caddyfile names a certificate where there is one; a name that is none raises.\<close>

definition reload_for_domains :: "tls_config \<Rightarrow> tls_env \<Rightarrow> tls_state \<Rightarrow> (cert_exn + unit) \<times> tls_state" where
  "reload_for_domains cfg e s =
     (if cs_active (ts_caddy s) \<noteq> None \<and>
         (\<exists>d \<in> set (effective_domains (ts_db s)). dn_tls d \<and> resolve_cert cfg (ts_files s) (name_no_port d) = None)
      then (Inl (CertRaised ''invalid certificate domain''), s)
      else (Inr (), s\<lparr>ts_caddy := fst (reload_caddy_for_domains (te_reload e) (te_caddy_runs e) (tc_port cfg)
              (\<lambda>name. Option.bind (resolve_cert cfg (ts_files s) name) id) (ts_db s) (ts_caddy s))\<rparr>))"

definition renew_cert_if_needed :: "tls_config \<Rightarrow> tls_env \<Rightarrow> tls_state \<Rightarrow> (cert_exn + bool) \<times> tls_state" where
  "renew_cert_if_needed cfg e s =
     (let s1 = sync_cert_statuses cfg e s;
          primary = map_option name_no_port (primary_domain_or_none (ts_db s1))
      in case renew_primary cfg e s1 of
           (Inl x, s2) \<Rightarrow> (Inl x, s2)
         | (Inr renewed, s2) \<Rightarrow>
             (case renew_aliases cfg e primary (effective_domains (ts_db s2)) renewed s2 of
                (Inl x, s3) \<Rightarrow> (Inl x, s3)
              | (Inr renewed2, s3) \<Rightarrow>
                  if renewed2 then (case reload_for_domains cfg e s3 of (Inl x, s4) \<Rightarrow> (Inl x, s4) | (Inr _, s4) \<Rightarrow> (Inr True, s4))
                  else (Inr False, s3)))"

text \<open>\<open>_ensure_tls_cert\<close> of \<open>web/start.py\<close>: whether the process may go on starting.\<close>

definition ensure_tls_cert :: "tls_config \<Rightarrow> tls_env \<Rightarrow> tls_state \<Rightarrow> (cert_exn + unit) \<times> tls_state" where
  "ensure_tls_cert cfg e s =
     (case primary_domain_or_none (ts_db s) of
        None \<Rightarrow> (Inl (CertRaised ''no primary domain''), s)
      | Some primary \<Rightarrow>
          if \<not> dn_tls primary then (Inr (), s)
          else (let name = name_no_port primary in
            case cert_key_paths_for cfg name of
              None \<Rightarrow> (Inl (CertRaised ''invalid certificate domain''), s)
            | Some paths \<Rightarrow>
                (let status = get_cert_status (te_not_after e) (ts_files s) (fst paths) (snd paths) (te_now e name) in
                 if status = CertOk then (Inr (), s)
                 else if \<not> tc_coredns_enabled cfg \<or> \<not> tc_acquire_if_missing cfg
                 then (if status = CertExpiringSoon then (Inr (), s)
                       else (Inl (CertRaised ''no certificate and none may be acquired''), s))
                 else if status = CertExpiringSoon then (Inr (), snd (acquire_into cfg e name paths s))
                 else acquire_into cfg e name paths s)))"

section \<open>Facts\<close>

lemma no_challenge_after_clear: "map_of (dp_records (clear_challenge w s)) (CHALLENGE_LABEL, TypeTXT) = None"
  by (simp add: clear_challenge_def delete_records_def write_config_def write_coredns_config_def Let_def delete_conv)

lemma publish_ok: "dns_ok s \<Longrightarrow> dns_ok (publish_challenge w vals s)"
  using dns_step_ok [of s "RecordWrite (SetRecords w CHALLENGE_LABEL TypeTXT vals CHALLENGE_TTL_SECONDS)"]
  by (simp add: publish_challenge_def)

lemma clear_ok: "dns_ok s \<Longrightarrow> dns_ok (clear_challenge w s)"
  using dns_step_ok [of s "RecordWrite (DeleteRecords w CHALLENGE_LABEL TypeTXT)"] by (simp add: clear_challenge_def)

definition quiet :: "dns_provider \<Rightarrow> bool" where
  "quiet s \<longleftrightarrow> dns_ok s \<and> map_of (dp_records s) (CHALLENGE_LABEL, TypeTXT) = None"

lemma published_then_cleared: "dns_ok s \<Longrightarrow> quiet (clear_challenge w2 (foldl dns_step (publish_challenge w1 vals s) es))"
  by (simp add: quiet_def no_challenge_after_clear clear_ok dns.foldl_inv publish_ok)

lemma acme_attempt_quiet: "quiet s \<Longrightarrow> quiet (snd (acme_attempt a s))"
  by (auto simp: acme_attempt_def quiet_def [of s] published_then_cleared split: sum.splits)

lemma acme_loop_quiet: "quiet s \<Longrightarrow> quiet (snd (acme_loop answers n s))"
proof (induction n arbitrary: s)
  case (Suc n)
  have "quiet (snd (acme_attempt (answers (MAX_ATTEMPTS - n)) s))" using Suc.prems by (rule acme_attempt_quiet)
  with Suc.IH show ?case by (auto split: prod.splits sum.splits cert_exn.splits)
qed simp

lemma issue_cert_quiet: "quiet s \<Longrightarrow> quiet (snd (issue_cert cfg e d s))"
  by (auto simp: issue_cert_def acquire_cert_dns01_def acquire_via_broker_def acme_loop_quiet quiet_def [of s]
      published_then_cleared split: sum.splits)

text \<open>However an acquisition ends, the DNS provider is left as a sound provider without a challenge
  record, whatever zones came and went meanwhile; and a certificate and its key are installed together, on
  success only.\<close>

lemma acquisition_leaves_no_trace:
  assumes "dns_ok s" and "map_of (dp_records s) (CHALLENGE_LABEL, TypeTXT) = None"
  shows "case acquire_cert_for_domain cfg e d cert_path key_path s fs of (r, s', fs') \<Rightarrow>
     dns_ok s' \<and> map_of (dp_records s') (CHALLENGE_LABEL, TypeTXT) = None \<and>
     (case r of Inl x \<Rightarrow> fs' = fs
      | Inr _ \<Rightarrow> \<exists>cert. fst (issue_cert cfg e d s) = Inr cert \<and> fs' = fs(cert_path \<mapsto> cert, key_path \<mapsto> ae_key e))"
proof -
  have "quiet (snd (issue_cert cfg e d s))" using assms by (intro issue_cert_quiet) (simp add: quiet_def)
  then show ?thesis
    by (auto simp: acquire_cert_for_domain_def write_cert_and_key_def quiet_def split: prod.splits sum.splits)
qed

text \<open>What a certificate authority grants does not depend on what else the provider holds.\<close>

lemma acme_loop_outcome: "fst (acme_loop answers n s) = fst (acme_loop answers n t)"
proof (induction n arbitrary: s t)
  case (Suc n)
  have "fst (acme_attempt a s) = fst (acme_attempt a t)" for a s t by (simp add: acme_attempt_def split: sum.splits)
  from this [of "answers (MAX_ATTEMPTS - n)" s t] Suc.IH show ?case
    by (auto split: prod.splits sum.splits cert_exn.splits)
qed simp

lemma issue_cert_outcome:
  "serves_public_zones s = serves_public_zones t \<Longrightarrow> fst (issue_cert cfg e d s) = fst (issue_cert cfg e d t)"
  using acme_loop_outcome [of "ae_acme e" MAX_ATTEMPTS s t]
  by (simp add: issue_cert_def acquire_cert_dns01_def acquire_via_broker_def split: sum.splits)

lemma provider_bind_simps [simp]:
  "dp_bind_ip (record_write r t) = dp_bind_ip t"
  "dp_bind_ip (fold record_write ws t) = dp_bind_ip t"
  "dp_bind_ip (write_config w t) = dp_bind_ip t"
  using record_write_same [of t r] record_writes_same [of t ws] write_config_same [of t w] by (simp_all add: same_zones_def)

lemma dns_step_bind [simp]: "dp_bind_ip (dns_step s e) = dp_bind_ip s"
  by (cases e) (auto simp: add_zone_def remove_zone_def provider_start_def apply_zones_def reconcile_process_def
      restart_process_def start_process_def stop_process_def cleanup_def Let_def)

lemma dns_run_bind [simp]: "dp_bind_ip (foldl dns_step s es) = dp_bind_ip s"
  by (induction es arbitrary: s) auto

lemma challenge_bind [simp]:
  "dp_bind_ip (publish_challenge w vals s) = dp_bind_ip s" "dp_bind_ip (clear_challenge w s) = dp_bind_ip s"
  using provider_bind_simps(1) [of "SetRecords w CHALLENGE_LABEL TypeTXT vals CHALLENGE_TTL_SECONDS" s]
    provider_bind_simps(1) [of "DeleteRecords w CHALLENGE_LABEL TypeTXT" s]
  by (simp_all add: publish_challenge_def clear_challenge_def)

lemma acme_loop_bind [simp]: "dp_bind_ip (snd (acme_loop answers n s)) = dp_bind_ip s"
proof (induction n arbitrary: s)
  case (Suc n)
  have "dp_bind_ip (snd (acme_attempt a s)) = dp_bind_ip s" for a by (simp add: acme_attempt_def split: sum.splits)
  from this [of "answers (MAX_ATTEMPTS - n)"] Suc.IH show ?case by (auto split: prod.splits sum.splits cert_exn.splits)
qed simp

lemma issue_cert_bind [simp]: "dp_bind_ip (snd (issue_cert cfg e d s)) = dp_bind_ip s"
  by (simp add: issue_cert_def acquire_cert_dns01_def acquire_via_broker_def split: sum.splits)

text \<open>What a renewal cycle does to the files of one domain.\<close>

definition renew_files :: "tls_config \<Rightarrow> tls_env \<Rightarrow> dns_provider \<Rightarrow> domain \<Rightarrow> files \<Rightarrow> files" where
  "renew_files cfg e dns d fs =
     (let name = name_no_port d in
      case cert_key_paths_for cfg name of
        None \<Rightarrow> fs
      | Some paths \<Rightarrow>
          if get_cert_status (te_not_after e) fs (fst paths) (snd paths) (te_now e name) = CertOk then fs
          else (case fst (issue_cert cfg (te_acquire e name) name dns) of
              Inl x \<Rightarrow> fs
            | Inr cert \<Rightarrow> write_cert_and_key (fst paths) (snd paths) cert (ae_key (te_acquire e name)) fs))"

definition due_alias :: "string option \<Rightarrow> domain \<Rightarrow> bool" where
  "due_alias primary d \<longleftrightarrow> dn_tls d \<and> Some (name_no_port d) \<noteq> primary"

definition valid_name :: "tls_config \<Rightarrow> domain \<Rightarrow> bool" where
  "valid_name cfg d \<longleftrightarrow> cert_key_paths_for cfg (name_no_port d) \<noteq> None"

lemma acquire_into_files:
  assumes "dp_bind_ip (ts_dns s) = dp_bind_ip dns"
  shows "ts_files (snd (acquire_into cfg e name paths s)) =
      (case fst (issue_cert cfg (te_acquire e name) name dns) of
         Inl x \<Rightarrow> ts_files s
       | Inr cert \<Rightarrow> write_cert_and_key (fst paths) (snd paths) cert (ae_key (te_acquire e name)) (ts_files s))"
    and "isl (fst (acquire_into cfg e name paths s)) = isl (fst (issue_cert cfg (te_acquire e name) name dns))"
    and "dp_bind_ip (ts_dns (snd (acquire_into cfg e name paths s))) = dp_bind_ip dns"
    and "ts_db (snd (acquire_into cfg e name paths s)) = ts_db s"
proof -
  obtain r s1 where i: "issue_cert cfg (te_acquire e name) name (ts_dns s) = (r, s1)" by fastforce
  have "fst (issue_cert cfg (te_acquire e name) name dns) = r"
    using issue_cert_outcome [of "ts_dns s" dns cfg "te_acquire e name" name] assms
    by (simp add: i serves_public_zones_def)
  moreover have "dp_bind_ip s1 = dp_bind_ip dns" using issue_cert_bind [of cfg "te_acquire e name" name "ts_dns s"] i assms by simp
  ultimately show "ts_files (snd (acquire_into cfg e name paths s)) =
      (case fst (issue_cert cfg (te_acquire e name) name dns) of
         Inl x \<Rightarrow> ts_files s
       | Inr cert \<Rightarrow> write_cert_and_key (fst paths) (snd paths) cert (ae_key (te_acquire e name)) (ts_files s))"
    "isl (fst (acquire_into cfg e name paths s)) = isl (fst (issue_cert cfg (te_acquire e name) name dns))"
    "dp_bind_ip (ts_dns (snd (acquire_into cfg e name paths s))) = dp_bind_ip dns"
    "ts_db (snd (acquire_into cfg e name paths s)) = ts_db s"
    by (auto simp: acquire_into_def acquire_cert_for_domain_def i split: sum.splits)
qed

lemma renew_aliases_files:
  assumes "list_all (valid_name cfg) ds" and "dp_bind_ip (ts_dns s) = dp_bind_ip dns"
  shows "\<exists>b. fst (renew_aliases cfg e primary ds renewed s) = Inr b"
    and "ts_files (snd (renew_aliases cfg e primary ds renewed s)) =
      fold (renew_files cfg e dns) (filter (due_alias primary) ds) (ts_files s)"
proof -
  have "(\<exists>b. fst (renew_aliases cfg e primary ds renewed s) = Inr b) \<and>
    ts_files (snd (renew_aliases cfg e primary ds renewed s)) =
      fold (renew_files cfg e dns) (filter (due_alias primary) ds) (ts_files s)"
    using assms
  proof (induction ds arbitrary: renewed s)
    case (Cons d ds)
    let ?name = "name_no_port d"
    obtain paths where paths: "cert_key_paths_for cfg ?name = Some paths" using Cons.prems(1) by (auto simp: valid_name_def)
    obtain r s1 where a: "acquire_into cfg e ?name paths s = (r, s1)" by fastforce
    note acquired = acquire_into_files [OF Cons.prems(2), of cfg e ?name paths, unfolded a fst_conv snd_conv]
    have "dp_bind_ip (ts_dns (mark_cert_active ?name s1)) = dp_bind_ip dns" "ts_files (mark_cert_active ?name s1) = ts_files s1"
      using acquired(3) by (simp_all add: mark_cert_active_def)
    with Cons.IH Cons.prems acquired a paths show ?case
      by (cases r) (auto simp: due_alias_def renew_files_def Let_def split: sum.splits)
  qed simp
  then show "\<exists>b. fst (renew_aliases cfg e primary ds renewed s) = Inr b"
    and "ts_files (snd (renew_aliases cfg e primary ds renewed s)) =
      fold (renew_files cfg e dns) (filter (due_alias primary) ds) (ts_files s)" by simp_all
qed

text \<open>The pairs of two domains are four different files.\<close>

lemma path_join_inj:
  "hd b1 \<noteq> CHR ''/'' \<Longrightarrow> hd b2 \<noteq> CHR ''/'' \<Longrightarrow> b1 \<noteq> [] \<Longrightarrow> b2 \<noteq> [] \<Longrightarrow> path_join a b1 = path_join a b2 \<Longrightarrow> b1 = b2"
  by (cases b1; cases b2) (auto simp: path_join_def split: if_splits)

lemma cert_domain_start:
  assumes "is_cert_domain n"
  shows "n \<noteq> []" and "hd n \<noteq> CHR ''/''"
proof -
  obtain l ls where split: "split_on CHR ''.'' n = l # ls" using assms by (cases "split_on CHR ''.'' n") (auto simp: is_cert_domain_def)
  then have "is_dns_label l" using assms by (simp add: is_cert_domain_def)
  moreover have "hd (split_on CHR ''.'' n) = before_char CHR ''.'' n" by (rule hd_split_on)
  ultimately have l: "before_char CHR ''.'' n \<noteq> []" "list_all is_label_char (before_char CHR ''.'' n)"
    by (simp_all add: split is_dns_label_def)
  then show "n \<noteq> []" by (auto simp: before_char_def)
  then obtain c cs where n: "n = c # cs" by (cases n) auto
  then have "c \<in> set (before_char CHR ''.'' n)" using l(1) by (auto simp: before_char_def split: if_splits)
  with l(2) have "is_label_char c" by (simp add: list_all_iff)
  moreover have "\<not> is_label_char CHR ''/''" by code_simp
  ultimately show "hd n \<noteq> CHR ''/''" by (auto simp: n)
qed

lemma cert_paths_shape:
  assumes "cert_key_paths_for cfg name = Some paths"
  obtains n where "normalized_cert_domain name = Some n" "is_cert_domain n"
    "fst paths = path_join (tc_certs_dir cfg) (n @ ''.pem'')" "snd paths = path_join (tc_certs_dir cfg) (n @ ''.key'')"
  using assms by (auto simp: cert_key_paths_for_def normalized_cert_domain_def Let_def split: if_splits option.splits)

lemma cert_paths_disjoint:
  assumes "cert_key_paths_for cfg name1 = Some p1" and "cert_key_paths_for cfg name2 = Some p2"
  shows "fst p1 \<noteq> snd p1"
    and "normalized_cert_domain name1 \<noteq> normalized_cert_domain name2 \<Longrightarrow> {fst p1, snd p1} \<inter> {fst p2, snd p2} = {}"
proof -
  obtain n1 where n1: "normalized_cert_domain name1 = Some n1" "is_cert_domain n1"
    "fst p1 = path_join (tc_certs_dir cfg) (n1 @ ''.pem'')" "snd p1 = path_join (tc_certs_dir cfg) (n1 @ ''.key'')"
    using assms(1) by (rule cert_paths_shape)
  obtain n2 where n2: "normalized_cert_domain name2 = Some n2" "is_cert_domain n2"
    "fst p2 = path_join (tc_certs_dir cfg) (n2 @ ''.pem'')" "snd p2 = path_join (tc_certs_dir cfg) (n2 @ ''.key'')"
    using assms(2) by (rule cert_paths_shape)
  have start: "hd (n @ x) \<noteq> CHR ''/''" "n @ x \<noteq> []" if "is_cert_domain n" for n x
    using cert_domain_start [OF that] by simp_all
  have ends: "n @ ''.pem'' \<noteq> m @ ''.key''" for n m
  proof
    assume "n @ ''.pem'' = m @ ''.key''"
    then have "last (n @ ''.pem'') = last (m @ ''.key'')" by simp
    then show False by simp
  qed
  have inj: "path_join (tc_certs_dir cfg) (n @ x) = path_join (tc_certs_dir cfg) (m @ y) \<longleftrightarrow> n @ x = m @ y"
    if "is_cert_domain n" "is_cert_domain m" for n m x y
    using path_join_inj [OF start(1) [OF that(1)] start(1) [OF that(2)] start(2) [OF that(1)] start(2) [OF that(2)]] by auto
  show "fst p1 \<noteq> snd p1" using ends by (simp add: n1 inj)
  show "{fst p1, snd p1} \<inter> {fst p2, snd p2} = {}" if "normalized_cert_domain name1 \<noteq> normalized_cert_domain name2"
    using that ends ends [symmetric] by (auto simp: n1 n2 inj)
qed

lemma renew_files_elsewhere:
  assumes "cert_key_paths_for cfg (name_no_port d) = Some paths" and "q \<notin> {fst paths, snd paths}"
  shows "renew_files cfg e dns d fs q = fs q"
  using assms by (auto simp: renew_files_def Let_def write_cert_and_key_def split: sum.splits)

lemma renew_files_local:
  assumes "cert_key_paths_for cfg (name_no_port d) = Some paths" and "q \<in> {fst paths, snd paths}"
    and "fs (fst paths) = fs' (fst paths)" and "fs (snd paths) = fs' (snd paths)"
  shows "renew_files cfg e dns d fs q = renew_files cfg e dns d fs' q"
proof -
  have "get_cert_status na fs (fst paths) (snd paths) now = get_cert_status na fs' (fst paths) (snd paths) now" for na now
    using assms(3,4) by (simp add: get_cert_status_def)
  then show ?thesis
    using assms by (auto simp: renew_files_def Let_def write_cert_and_key_def split: sum.splits)
qed

definition cert_name :: "domain \<Rightarrow> string option" where
  "cert_name d = normalized_cert_domain (name_no_port d)"

lemma fold_renew_files:
  assumes "list_all (valid_name cfg) ds" and "distinct (map cert_name ds)"
    and "cert_key_paths_for cfg (name_no_port d) = Some paths" and "q \<in> {fst paths, snd paths}"
  shows "d \<in> set ds \<Longrightarrow> fold (renew_files cfg e dns) ds fs q = renew_files cfg e dns d fs q"
    and "cert_name d \<notin> cert_name ` set ds \<Longrightarrow> fold (renew_files cfg e dns) ds fs q = fs q"
proof -
  have other: "renew_files cfg e dns x g q' = g q'"
    if x: "valid_name cfg x" "cert_name x \<noteq> cert_name d" and q': "q' \<in> {fst paths, snd paths}" for x g q'
  proof -
    obtain px where px: "cert_key_paths_for cfg (name_no_port x) = Some px" using x(1) by (auto simp: valid_name_def)
    have "q' \<notin> {fst px, snd px}" using cert_paths_disjoint(2) [OF px assms(3)] x(2) q' by (auto simp: cert_name_def)
    with px show ?thesis by (rule renew_files_elsewhere)
  qed
  have untouched: "fold (renew_files cfg e dns) xs g q' = g q'"
    if "list_all (valid_name cfg) xs" "cert_name d \<notin> cert_name ` set xs" "q' \<in> {fst paths, snd paths}" for xs g q'
    using that other by (induction xs arbitrary: g) auto
  show "fold (renew_files cfg e dns) ds fs q = fs q" if "cert_name d \<notin> cert_name ` set ds"
    using untouched assms(1,4) that by blast
  show "fold (renew_files cfg e dns) ds fs q = renew_files cfg e dns d fs q" if "d \<in> set ds"
    using assms(1,2) that
  proof (induction ds arbitrary: fs)
    case (Cons x xs)
    show ?case
    proof (cases "x = d")
      case True
      then have "cert_name d \<notin> cert_name ` set xs" using Cons.prems(2) by auto
      then show ?thesis using untouched [of xs q] Cons.prems(1) assms(4) True by simp
    next
      case False
      then have x: "valid_name cfg x" "cert_name x \<noteq> cert_name d" "d \<in> set xs" using Cons.prems by auto
      then have "renew_files cfg e dns d (renew_files cfg e dns x fs) q = renew_files cfg e dns d fs q"
        using other by (intro renew_files_local [OF assms(3,4)]) auto
      then show ?thesis using Cons x(3) by simp
    qed
  qed simp
qed

text \<open>Recording a status changes no domain.\<close>

lemma sort_key_update:
  "(\<And>x. k (f x) = k x) \<Longrightarrow> sort_key k (map f xs) = map f (sort_key (k :: 'a \<Rightarrow> string) xs)"
proof -
  assume k: "\<And>x. k (f x) = k x"
  have "insort_key k (f x) (map f ys) = map f (insort_key k x ys)" for x ys by (induction ys) (auto simp: k)
  then show ?thesis by (induction xs) auto
qed

lemma set_record_status_domains [simp]:
  "effective_domains (set_record_status db name st err) = effective_domains db"
  "primary_domain_or_none (set_record_status db name st err) = primary_domain_or_none db"
proof -
  define f where "f r = (if n_name r = lower name then r\<lparr>n_cert_status := st, n_error_message := err\<rparr> else r)" for r :: domain_row
  have f: "n_name (f r) = n_name r" "n_is_primary (f r) = n_is_primary r" "to_domain (f r) = to_domain r" for r
    by (simp_all add: f_def to_domain_def)
  have domains: "domains (set_record_status db name st err) = map f (domains db)"
    by (simp add: set_record_status_def update_rows_def f_def fun_eq_iff)
  show "effective_domains (set_record_status db name st err) = effective_domains db"
    by (simp add: effective_domains_def load_records_def domains filter_map comp_def sort_key_update f)
  show "primary_domain_or_none (set_record_status db name st err) = primary_domain_or_none db"
  proof -
    have "map_option to_domain (List.find n_is_primary (map f xs)) = map_option to_domain (List.find n_is_primary xs)" for xs
      by (induction xs) (auto simp: f)
    then show ?thesis by (simp add: primary_domain_or_none_def domains)
  qed
qed

lemma sync_facts:
  "ts_files (sync_cert_statuses cfg e s) = ts_files s" "ts_dns (sync_cert_statuses cfg e s) = ts_dns s"
  "effective_domains (ts_db (sync_cert_statuses cfg e s)) = effective_domains (ts_db s)"
  "primary_domain_or_none (ts_db (sync_cert_statuses cfg e s)) = primary_domain_or_none (ts_db s)"
proof -
  define same where "same s t \<longleftrightarrow> ts_files t = ts_files s \<and> ts_dns t = ts_dns s \<and>
      effective_domains (ts_db t) = effective_domains (ts_db s) \<and>
      primary_domain_or_none (ts_db t) = primary_domain_or_none (ts_db s)" for s t :: tls_state
  have one: "same s t" if "sync_one cfg e d s = Some t" for d s t
    using that by (auto simp: sync_one_def Let_def same_def split: if_splits option.splits)
  have "same s (sync_loop cfg e ds s)" for ds
  proof (induction ds arbitrary: s)
    case (Cons d ds)
    show ?case
    proof (cases "sync_one cfg e d s")
      case None
      then show ?thesis by (simp add: same_def)
    next
      case (Some t)
      then show ?thesis using one [OF Some] Cons [of t] by (simp add: same_def)
    qed
  qed (simp add: same_def)
  from this [of "effective_domains (ts_db s)"]
  show "ts_files (sync_cert_statuses cfg e s) = ts_files s" "ts_dns (sync_cert_statuses cfg e s) = ts_dns s"
    "effective_domains (ts_db (sync_cert_statuses cfg e s)) = effective_domains (ts_db s)"
    "primary_domain_or_none (ts_db (sync_cert_statuses cfg e s)) = primary_domain_or_none (ts_db s)"
    by (simp_all add: same_def sync_cert_statuses_def)
qed

lemma renew_primary_facts:
  assumes "renew_primary cfg e s = (Inr b, s2)" and "dp_bind_ip (ts_dns s) = dp_bind_ip dns"
  shows "ts_files s2 = (case primary_domain_or_none (ts_db s) of
       None \<Rightarrow> ts_files s | Some p \<Rightarrow> if dn_tls p then renew_files cfg e dns p (ts_files s) else ts_files s)"
    and "dp_bind_ip (ts_dns s2) = dp_bind_ip dns" and "effective_domains (ts_db s2) = effective_domains (ts_db s)"
proof -
  have "ts_files s2 = (case primary_domain_or_none (ts_db s) of
       None \<Rightarrow> ts_files s | Some p \<Rightarrow> if dn_tls p then renew_files cfg e dns p (ts_files s) else ts_files s) \<and>
     dp_bind_ip (ts_dns s2) = dp_bind_ip dns \<and> effective_domains (ts_db s2) = effective_domains (ts_db s)"
  proof (cases "\<exists>p paths. primary_domain_or_none (ts_db s) = Some p \<and> dn_tls p \<and> cert_key_paths_for cfg (name_no_port p) = Some paths")
    case True
    then obtain p paths where p: "primary_domain_or_none (ts_db s) = Some p" "dn_tls p"
        "cert_key_paths_for cfg (name_no_port p) = Some paths" by blast
    obtain r s1 where a: "acquire_into cfg e (name_no_port p) paths s = (r, s1)" by fastforce
    note acquired = acquire_into_files [OF assms(2), of cfg e "name_no_port p" paths, unfolded a fst_conv snd_conv]
    show ?thesis
      using assms p a acquired
      by (cases r) (auto simp: renew_primary_def renew_files_def Let_def mark_cert_active_def split: if_splits sum.splits)
  next
    case False
    with assms show ?thesis by (auto simp: renew_primary_def Let_def split: option.splits if_splits)
  qed
  then show "ts_files s2 = (case primary_domain_or_none (ts_db s) of
       None \<Rightarrow> ts_files s | Some p \<Rightarrow> if dn_tls p then renew_files cfg e dns p (ts_files s) else ts_files s)"
    and "dp_bind_ip (ts_dns s2) = dp_bind_ip dns" and "effective_domains (ts_db s2) = effective_domains (ts_db s)" by auto
qed

lemma reload_keeps_files: "ts_files (snd (reload_for_domains cfg e s)) = ts_files s"
  by (simp add: reload_for_domains_def)

lemma primary_is_effective: "primary_domain_or_none db = Some p \<Longrightarrow> p \<in> set (effective_domains db)"
  by (auto simp: primary_domain_or_none_def effective_domains_def dest: find_SomeD)

lemma distinct_names_eq:
  "distinct (map f xs) \<Longrightarrow> x \<in> set xs \<Longrightarrow> y \<in> set xs \<Longrightarrow> f x = f y \<Longrightarrow> x = y"
  by (metis distinct_map inj_onD)

definition primary_files :: "tls_config \<Rightarrow> tls_env \<Rightarrow> tls_state \<Rightarrow> files" where
  "primary_files cfg e s =
     (case primary_domain_or_none (ts_db s) of
        Some p \<Rightarrow> if dn_tls p then renew_files cfg e (ts_dns s) p (ts_files s) else ts_files s
      | None \<Rightarrow> ts_files s)"

definition aliases_of :: "db \<Rightarrow> domain list" where
  "aliases_of db = filter (due_alias (map_option name_no_port (primary_domain_or_none db))) (effective_domains db)"

lemma renewal_files:
  assumes "list_all (valid_name cfg) (effective_domains (ts_db s))"
    and "fst (renew_primary cfg e (sync_cert_statuses cfg e s)) = Inr b"
  shows "ts_files (snd (renew_cert_if_needed cfg e s)) =
     fold (renew_files cfg e (ts_dns s)) (aliases_of (ts_db s)) (primary_files cfg e s)"
proof -
  let ?p = "map_option name_no_port (primary_domain_or_none (ts_db s))"
  obtain s2 where r: "renew_primary cfg e (sync_cert_statuses cfg e s) = (Inr b, s2)" using assms(2) by (metis prod.collapse)
  have s2: "ts_files s2 = primary_files cfg e s" "dp_bind_ip (ts_dns s2) = dp_bind_ip (ts_dns s)"
      "effective_domains (ts_db s2) = effective_domains (ts_db s)"
    using renew_primary_facts [OF r, of "ts_dns s"] by (simp_all add: sync_facts primary_files_def split: option.splits)
  obtain b2 s3 where s3: "renew_aliases cfg e ?p (effective_domains (ts_db s)) b s2 = (Inr b2, s3)"
    using renew_aliases_files(1) [OF assms(1) s2(2)] by (metis prod.collapse)
  have "ts_files s3 = fold (renew_files cfg e (ts_dns s)) (aliases_of (ts_db s)) (primary_files cfg e s)"
    using renew_aliases_files(2) [OF assms(1) s2(2), of e ?p b] s3 by (simp add: s2(1) aliases_of_def)
  then show ?thesis
    using reload_keeps_files [of cfg e s3]
    by (auto simp: renew_cert_if_needed_def Let_def r s2(3) s3 sync_facts split: prod.splits sum.splits)
qed

text \<open>The primary's files are renewed first and left alone then; any other domain's the other way round.\<close>

lemma primary_files_elsewhere:
  assumes "list_all (valid_name cfg) (effective_domains (ts_db s))"
    and "distinct (map cert_name (effective_domains (ts_db s)))"
    and "d \<in> set (effective_domains (ts_db s))" and "primary_domain_or_none (ts_db s) \<noteq> Some d"
    and "cert_key_paths_for cfg (name_no_port d) = Some paths" and "q \<in> {fst paths, snd paths}"
  shows "primary_files cfg e s q = ts_files s q"
proof (cases "primary_domain_or_none (ts_db s)")
  case (Some p)
  have mem: "p \<in> set (effective_domains (ts_db s))" using primary_is_effective Some by simp
  obtain pp where pp: "cert_key_paths_for cfg (name_no_port p) = Some pp"
    using assms(1) mem by (auto simp: list_all_iff valid_name_def)
  have "cert_name p \<noteq> cert_name d" using distinct_names_eq [OF assms(2) mem assms(3)] assms(4) Some by blast
  then have "q \<notin> {fst pp, snd pp}" using cert_paths_disjoint(2) [OF pp assms(5)] assms(6) by (auto simp: cert_name_def)
  then show ?thesis using renew_files_elsewhere [OF pp] by (simp add: primary_files_def Some)
qed (simp add: primary_files_def)

lemma cycle_files:
  assumes valid: "list_all (valid_name cfg) (effective_domains (ts_db s))"
    and distinct: "distinct (map cert_name (effective_domains (ts_db s)))"
    and d: "d \<in> set (effective_domains (ts_db s))" "dn_tls d"
    and paths: "cert_key_paths_for cfg (name_no_port d) = Some paths" and q: "q \<in> {fst paths, snd paths}"
  shows "fold (renew_files cfg e (ts_dns s)) (aliases_of (ts_db s)) (primary_files cfg e s) q =
     renew_files cfg e (ts_dns s) d (ts_files s) q"
proof -
  let ?as = "aliases_of (ts_db s)"
  have aliases: "list_all (valid_name cfg) ?as" "distinct (map cert_name ?as)"
    using valid distinct by (auto simp: aliases_of_def list_all_iff distinct_map_filter)
  note at = fold_renew_files [OF aliases paths q, of e "ts_dns s" "primary_files cfg e s"]
  show ?thesis
  proof (cases "primary_domain_or_none (ts_db s) = Some d")
    case True
    have "cert_name d \<notin> cert_name ` set ?as"
    proof
      assume "cert_name d \<in> cert_name ` set ?as"
      then obtain x where "x \<in> set (effective_domains (ts_db s))" "cert_name x = cert_name d"
          "due_alias (map_option name_no_port (primary_domain_or_none (ts_db s))) x" by (auto simp: aliases_of_def)
      then show False using distinct_names_eq [OF distinct _ d(1)] True by (force simp: due_alias_def)
    qed
    with at(2) show ?thesis by (simp add: primary_files_def True d(2))
  next
    case False
    have "Some (name_no_port d) \<noteq> map_option name_no_port (primary_domain_or_none (ts_db s))"
    proof
      assume "Some (name_no_port d) = map_option name_no_port (primary_domain_or_none (ts_db s))"
      then obtain p where "primary_domain_or_none (ts_db s) = Some p" "cert_name p = cert_name d"
        by (cases "primary_domain_or_none (ts_db s)") (auto simp: cert_name_def)
      with False show False using distinct_names_eq [OF distinct primary_is_effective d(1)] by blast
    qed
    then have "d \<in> set ?as" using d by (simp add: aliases_of_def due_alias_def)
    moreover note elsewhere = primary_files_elsewhere [OF valid distinct d(1) False paths]
    have "renew_files cfg e (ts_dns s) d (primary_files cfg e s) q = renew_files cfg e (ts_dns s) d (ts_files s) q"
      using elsewhere by (intro renew_files_local [OF paths q]) auto
    ultimately show ?thesis using at(1) by simp
  qed
qed


section \<open>Polling ends\<close>

text \<open>The clock never runs backwards, and a sleep lasts as long as it was asked to.\<close>

fun clock_advances :: "rat \<Rightarrow> rat \<Rightarrow> rat \<Rightarrow> poll_round list \<Rightarrow> bool" where
  "clock_advances deadline interval earliest [] = True"
| "clock_advances deadline interval earliest (r # rounds) \<longleftrightarrow>
     earliest \<le> pr_now r \<and> pr_now r \<le> pr_later r \<and>
     clock_advances deadline (min (interval * 3 / 2) 30) (pr_later r + min interval (deadline - pr_later r)) rounds"

lemma poll_rounds_end:
  assumes "clock_advances deadline interval earliest rounds" and "5 \<le> interval"
    and "deadline - earliest \<le> 5 * of_nat n" and "n < length rounds"
  shows "poll_rounds deadline interval rounds \<noteq> None"
  using assms
proof (induction rounds arbitrary: interval earliest n)
  case (Cons r rounds)
  let ?sleep = "min interval (deadline - pr_later r)"
  show ?case
  proof (cases "pr_now r < deadline \<and> pr_answer r = PollPending \<and> 0 < ?sleep")
    case True
    have "5 \<le> min (interval * 3 / 2) 30" using Cons.prems(2) by simp
    obtain m where m: "n = Suc m" using True Cons.prems(1,3) by (cases n) auto
    have "deadline - (pr_later r + ?sleep) \<le> 5 * of_nat m"
      using Cons.prems(1,2,3) by (auto simp: m min_def)
    then have "poll_rounds deadline (min (interval * 3 / 2) 30) rounds \<noteq> None"
      using Cons.prems(1,4) \<open>5 \<le> min (interval * 3 / 2) 30\<close> by (intro Cons.IH [where n = m]) (auto simp: m)
    with True show ?thesis by (auto simp: Let_def)
  next
    case False
    then show ?thesis by (auto simp: Let_def split: poll_answer.splits)
  qed
qed simp

text \<open>Polling the broker ends: with a clock that does not run backwards there are at most 121 polls
  before the ten minutes are over, whatever the broker answers, although the waits grow.\<close>

lemma polling_bounded:
  assumes "clock_advances (start + POLL_TIMEOUT_SECONDS) POLL_INTERVAL_SECONDS start rounds" and "121 \<le> length rounds"
  shows "poll_rounds (start + POLL_TIMEOUT_SECONDS) POLL_INTERVAL_SECONDS rounds \<noteq> None"
  using poll_rounds_end [OF assms(1), of 120] assms(2) by (simp add: POLL_INTERVAL_SECONDS_def POLL_TIMEOUT_SECONDS_def)

text \<open>The process does not go on starting on a TLS primary without a certificate that can be served.\<close>

lemma starts_with_certificate:
  assumes "ensure_tls_cert cfg e s = (Inr (), s')" and "primary_domain_or_none (ts_db s) = Some p" and "dn_tls p"
  obtains paths where "cert_key_paths_for cfg (name_no_port p) = Some paths"
    and "ts_files s' (fst paths) \<noteq> None" and "ts_files s' (snd paths) \<noteq> None"
proof -
  obtain paths where paths: "cert_key_paths_for cfg (name_no_port p) = Some paths"
    using assms by (auto simp: ensure_tls_cert_def Let_def split: option.splits)
  let ?status = "get_cert_status (te_not_after e) (ts_files s) (fst paths) (snd paths) (te_now e (name_no_port p))"
  have kept: "ts_files s (fst paths) \<noteq> None \<and> ts_files s (snd paths) \<noteq> None" if "?status \<in> {CertOk, CertExpiringSoon}"
    using that by (auto simp: get_cert_status_def split: option.splits)
  obtain r s1 where a: "acquire_into cfg e (name_no_port p) paths s = (r, s1)" by fastforce
  note installed = acquire_into_files(1,2) [of s "ts_dns s" cfg e "name_no_port p" paths, unfolded a fst_conv snd_conv, OF refl]
  have "ts_files s' (fst paths) \<noteq> None \<and> ts_files s' (snd paths) \<noteq> None"
    using assms paths kept a installed
    by (cases r) (auto simp: ensure_tls_cert_def Let_def write_cert_and_key_def split: if_splits sum.splits)
  with paths that show ?thesis by blast
qed

section \<open>Concrete instances\<close>

definition demo_tls_config :: tls_config where
  "demo_tls_config = \<lparr>tc_certs_dir = ''/c'', tc_port = 80, tc_cert_provider = ''cert_api'',
     tc_acme_account_key_path = None, tc_coredns_enabled = True, tc_acquire_if_missing = True\<rparr>"

definition demo_acquire :: acquire_env where
  "demo_acquire = \<lparr>ae_account = Inr (), ae_acme = (\<lambda>k. undefined), ae_identity = Inr (), ae_order = Inr [],
     ae_poll = Inr ''new'', ae_publish = demo_world, ae_clear = demo_world, ae_meanwhile = [], ae_key = ''k''\<rparr>"

definition demo_tls_env :: tls_env where
  "demo_tls_env = \<lparr>te_not_after = (\<lambda>c. None), te_now = (\<lambda>n. 0), te_acquire = (\<lambda>n. demo_acquire),
     te_reload = ReloadDone, te_caddy_runs = True\<rparr>"

definition demo_tls_state :: tls_state where
  "demo_tls_state = \<lparr>ts_db = empty_db\<lparr>domains := [\<lparr>n_name = ''a.org'', n_tls = True, n_is_primary = True,
       n_cert_status = CertNone, n_error_message = None\<rparr>]\<rparr>,
     ts_dns = demo_provider, ts_files = Map.empty, ts_caddy = \<lparr>cs_active = None, cs_caddyfile = []\<rparr>\<rparr>"

lemma acquisition_leaves_no_trace_witness:
  "dns_ok (fst (snd (acquire_cert_for_domain demo_tls_config demo_acquire ''a.org'' ''c'' ''k'' demo_provider Map.empty)))"
  using acquisition_leaves_no_trace [OF demo_provider_ok(1), where cfg = demo_tls_config and e = demo_acquire
      and d = "''a.org''" and cert_path = "''c''" and key_path = "''k''" and fs = Map.empty]
  by (auto simp: demo_provider_def split: prod.splits)

lemma demo_domains: "effective_domains (ts_db demo_tls_state) = [\<lparr>dn_name = ''a.org'', dn_tls = True\<rparr>]"
proof -
  have "lower ''a.org'' = ''a.org''" by code_simp
  then show ?thesis by (simp add: demo_tls_state_def effective_domains_def load_records_def to_domain_def mk_domain_def)
qed

lemma demo_paths: "cert_key_paths_for demo_tls_config ''a.org'' = Some (''/c/a.org.pem'', ''/c/a.org.key'')"
  by code_simp

lemma demo_issue: "fst (issue_cert demo_tls_config demo_acquire ''a.org'' demo_provider) = Inr ''new''"
  by (simp add: issue_cert_def demo_tls_config_def demo_acquire_def demo_provider_def serves_public_zones_def
      acquire_via_broker_def check_challenge_names_def CERT_PROVIDER_ACME_def)


definition demo_rounds :: "poll_round list" where
  "demo_rounds = replicate 121 \<lparr>pr_now = 600, pr_answer = PollPending, pr_later = 600\<rparr>"

lemma polling_bounded_witness:
  "poll_rounds POLL_TIMEOUT_SECONDS POLL_INTERVAL_SECONDS demo_rounds \<noteq> None"
proof -
  have "clock_advances 600 i 600 (replicate n \<lparr>pr_now = 600, pr_answer = PollPending, pr_later = 600\<rparr>)" if "0 \<le> i" for i n
    using that by (induction n arbitrary: i) auto
  moreover have "replicate 121 r = r # replicate 120 r" for r :: poll_round using replicate_Suc [of 120 r] by simp
  ultimately have "clock_advances 600 5 0 demo_rounds" by (simp add: demo_rounds_def)
  then show ?thesis
    using polling_bounded [of 0 demo_rounds] by (simp add: POLL_TIMEOUT_SECONDS_def POLL_INTERVAL_SECONDS_def demo_rounds_def)
qed

end
