(* ===== verification/Mdns.thy ===== *)
theory Mdns
  imports Domains
begin

unbundle bit_operations_syntax

text \<open>
  \<open>core/mdns\<close>: the responder for names under the instance's \<open>.local\<close> domains. A packet is a string of
  bytes, a field of 16 or 32 bits a natural number below the bound that \<open>struct\<close> checks, an IPv4
  address its four bytes (\<open>inet_aton\<close> undoes \<open>inet_ntoa\<close>). The sockets are not modelled: what
  arrives and whether listening works are arguments.
\<close>

section \<open>The wire format\<close>

definition TYPE_A :: nat where "TYPE_A = 1"

definition TYPE_AAAA :: nat where "TYPE_AAAA = 28"

definition TYPE_NSEC :: nat where "TYPE_NSEC = 47"

definition TYPE_ANY :: nat where "TYPE_ANY = 255"

definition CLASS_IN :: nat where "CLASS_IN = 1"

definition CACHE_FLUSH :: nat where "CACHE_FLUSH = 0x8000"

definition FLAG_RESPONSE :: nat where "FLAG_RESPONSE = 0x8000"

definition FLAG_AUTHORITATIVE :: nat where "FLAG_AUTHORITATIVE = 0x0400"

definition OPCODE_MASK :: nat where "OPCODE_MASK = 0x7800"

definition HEADER_SIZE :: nat where "HEADER_SIZE = 12"

text \<open>\<open>MalformedPacket\<close>, or any other exception.\<close>

datatype mdns_exn = MalformedPacket | MdnsRaised

record mdns_question =
  mq_name :: string
  mq_qtype :: nat

record mdns_query =
  mq_id :: nat
  mq_questions :: "mdns_question list"

definition unpack_u16 :: "string \<Rightarrow> nat \<Rightarrow> nat" where
  "unpack_u16 buf offset = of_char (buf ! offset) * 256 + of_char (buf ! (offset + 1))"

definition u16_bytes :: "nat \<Rightarrow> string" where
  "u16_bytes n = [char_of (n div 256), char_of n]"

text \<open>\<open>struct.pack\<close> of an \<open>H\<close> or an \<open>I\<close> raises when the number does not fit.\<close>

definition pack_u16 :: "nat \<Rightarrow> mdns_exn + string" where
  "pack_u16 n = (if n < 2 ^ 16 then Inr (u16_bytes n) else Inl MdnsRaised)"

definition pack_u32 :: "nat \<Rightarrow> mdns_exn + string" where
  "pack_u32 n = (if n < 2 ^ 32 then Inr (u16_bytes (n div 65536) @ u16_bytes (n mod 65536)) else Inl MdnsRaised)"

fun pack_u16s :: "nat list \<Rightarrow> mdns_exn + string" where
  "pack_u16s [] = Inr []"
| "pack_u16s (n # ns) = bind_res (pack_u16 n) (\<lambda>b. bind_res (pack_u16s ns) (\<lambda>bs. Inr (b @ bs)))"

text \<open>The loop of \<open>_read_name\<close>, with the rounds left; \<open>name_end\<close> is set at the first pointer.\<close>

fun read_name_loop :: "nat \<Rightarrow> string \<Rightarrow> nat \<Rightarrow> string list \<Rightarrow> nat option \<Rightarrow> mdns_exn + (string \<times> nat)" where
  "read_name_loop 0 buf offset labels name_end = Inl MalformedPacket"
| "read_name_loop (Suc rounds) buf offset labels name_end =
     (if length buf \<le> offset then Inl MalformedPacket
      else (let n = of_char (buf ! offset) :: nat in
        if n AND 0xC0 = 0xC0
        then (if length buf \<le> offset + 1 then Inl MalformedPacket
              else read_name_loop rounds buf (push_bit 8 (n AND 0x3F) OR of_char (buf ! (offset + 1))) labels
                     (case name_end of None \<Rightarrow> Some (offset + 2) | Some x \<Rightarrow> Some x))
        else if n AND 0xC0 \<noteq> 0 then Inl MalformedPacket
        else if n = 0
        then Inr (lower (join_with ''.'' labels), case name_end of Some x \<Rightarrow> x | None \<Rightarrow> offset + 1)
        else (let label = take n (drop (offset + 1) buf) in
          if length label \<noteq> n then Inl MalformedPacket
          else if \<not> utf8_valid label then Inl MalformedPacket
          else read_name_loop rounds buf (offset + 1 + n) (labels @ [label]) name_end)))"

definition read_name :: "string \<Rightarrow> nat \<Rightarrow> mdns_exn + (string \<times> nat)" where
  "read_name buf offset = read_name_loop 128 buf offset [] None"

fun parse_questions :: "nat \<Rightarrow> string \<Rightarrow> nat \<Rightarrow> mdns_exn + mdns_question list" where
  "parse_questions 0 buf offset = Inr []"
| "parse_questions (Suc qdcount) buf offset =
     bind_res (read_name buf offset) (\<lambda>(name, offset).
       if length buf < offset + 4 then Inl MalformedPacket
       else bind_res (parse_questions qdcount buf (offset + 4)) (\<lambda>questions.
         Inr (\<lparr>mq_name = name, mq_qtype = unpack_u16 buf offset\<rparr> # questions)))"

definition parse_query :: "string \<Rightarrow> mdns_exn + mdns_query option" where
  "parse_query buf =
     (if length buf < HEADER_SIZE then Inl MalformedPacket
      else if unpack_u16 buf 2 AND (FLAG_RESPONSE OR OPCODE_MASK) \<noteq> 0 then Inr None
      else bind_res (parse_questions (unpack_u16 buf 4) buf HEADER_SIZE) (\<lambda>questions.
        Inr (Some \<lparr>mq_id = unpack_u16 buf 0, mq_questions = questions\<rparr>)))"

text \<open>\<open>bytes([n])\<close> raises from 256 on.\<close>

fun encode_labels :: "string list \<Rightarrow> mdns_exn + string" where
  "encode_labels [] = Inr [CHR 0x00]"
| "encode_labels (label # labels) =
     (if 255 < length label then Inl MdnsRaised
      else bind_res (encode_labels labels) (\<lambda>bs. Inr (char_of (length label) # label @ bs)))"

definition encode_name :: "string \<Rightarrow> mdns_exn + string" where
  "encode_name name = encode_labels (split_on CHR ''.'' name)"

definition mdns_record :: "string \<Rightarrow> nat \<Rightarrow> nat \<Rightarrow> bool \<Rightarrow> string \<Rightarrow> mdns_exn + string" where
  "mdns_record name rtype ttl cache_flush rdata =
     (let rclass = CLASS_IN OR (if cache_flush then CACHE_FLUSH else 0) in
      bind_res (encode_name name) (\<lambda>n.
      bind_res (pack_u16s [rtype, rclass]) (\<lambda>tc.
      bind_res (pack_u32 ttl) (\<lambda>t.
      bind_res (pack_u16 (length rdata)) (\<lambda>l. Inr (n @ tc @ t @ l @ rdata))))))"

definition a_record :: "string \<Rightarrow> string \<Rightarrow> nat \<Rightarrow> bool \<Rightarrow> mdns_exn + string" where
  "a_record name ip ttl cache_flush = mdns_record name TYPE_A ttl cache_flush ip"

definition nsec_a_only :: "string \<Rightarrow> nat \<Rightarrow> bool \<Rightarrow> mdns_exn + string" where
  "nsec_a_only name ttl cache_flush =
     bind_res (encode_name name) (\<lambda>n.
       mdns_record name TYPE_NSEC ttl cache_flush (n @ [CHR 0x00, CHR 0x01, CHR 0x40]))"

fun encode_questions :: "mdns_question list \<Rightarrow> mdns_exn + string" where
  "encode_questions [] = Inr []"
| "encode_questions (q # qs) =
     bind_res (encode_name (mq_name q)) (\<lambda>n.
     bind_res (pack_u16s [mq_qtype q, CLASS_IN]) (\<lambda>tc.
     bind_res (encode_questions qs) (\<lambda>bs. Inr (n @ tc @ bs))))"

definition build_response ::
    "nat \<Rightarrow> mdns_question list \<Rightarrow> string list \<Rightarrow> string list \<Rightarrow> mdns_exn + string" where
  "build_response query_id questions answers additionals =
     bind_res (pack_u16s [query_id, FLAG_RESPONSE OR FLAG_AUTHORITATIVE, length questions, length answers, 0,
                 length additionals]) (\<lambda>header.
     bind_res (encode_questions questions) (\<lambda>question_bytes.
     Inr (header @ question_bytes @ concat answers @ concat additionals)))"

section \<open>Answers\<close>

definition MDNS_PORT :: nat where "MDNS_PORT = 5353"

definition TTL :: nat where "TTL = 120"

definition LEGACY_TTL :: nat where "LEGACY_TTL = 10"

definition is_ours :: "string \<Rightarrow> string list \<Rightarrow> bool" where
  "is_ours name doms = list_ex (\<lambda>d. endswith name (''.'' @ d)) doms"

text \<open>The loop of \<open>build_answer\<close>: answers, additionals and the questions answered.\<close>

fun answer_questions ::
    "string list \<Rightarrow> string \<Rightarrow> nat \<Rightarrow> bool \<Rightarrow> mdns_question list
       \<Rightarrow> mdns_exn + (string list \<times> string list \<times> mdns_question list)" where
  "answer_questions doms ip ttl cache_flush [] = Inr ([], [], [])"
| "answer_questions doms ip ttl cache_flush (q # qs) =
     (let rest = answer_questions doms ip ttl cache_flush qs in
      if \<not> is_ours (mq_name q) doms then rest
      else if mq_qtype q \<in> {TYPE_A, TYPE_ANY}
      then bind_res (a_record (mq_name q) ip ttl cache_flush) (\<lambda>a.
           bind_res (nsec_a_only (mq_name q) ttl cache_flush) (\<lambda>n.
           bind_res rest (\<lambda>(answers, additionals, answered). Inr (a # answers, n # additionals, q # answered))))
      else if mq_qtype q = TYPE_AAAA
      then bind_res (nsec_a_only (mq_name q) ttl cache_flush) (\<lambda>n.
           bind_res rest (\<lambda>(answers, additionals, answered). Inr (n # answers, additionals, q # answered)))
      else rest)"

definition build_answer :: "mdns_query \<Rightarrow> nat \<Rightarrow> string list \<Rightarrow> string \<Rightarrow> mdns_exn + string option" where
  "build_answer query source_port doms ip =
     (let legacy = source_port \<noteq> MDNS_PORT; ttl = (if legacy then LEGACY_TTL else TTL) in
      bind_res (answer_questions doms ip ttl (\<not> legacy) (mq_questions query)) (\<lambda>(answers, additionals, answered).
        if answers = [] then Inr None
        else map_sum id Some
          (if legacy then build_response (mq_id query) answered answers additionals
           else build_response 0 [] answers additionals)))"

section \<open>The responder\<close>

text \<open>
  \<open>_handle\<close>: what is sent and where (None: to the sender, else to the group). \<open>pktinfo\<close> is the address
  of the interface the packet arrived on, None when the joining gave none.
\<close>

definition handle_packet ::
    "string list \<Rightarrow> string \<Rightarrow> string option \<Rightarrow> nat \<Rightarrow> mdns_exn + (string \<times> bool) option" where
  "handle_packet doms data pktinfo source_port =
     (case pktinfo of
        None \<Rightarrow> Inl MdnsRaised
      | Some local_addr \<Rightarrow>
          if local_addr = replicate 4 CHR 0x00 then Inr None
          else (case parse_query data of
              Inl MalformedPacket \<Rightarrow> Inr None
            | Inl MdnsRaised \<Rightarrow> Inl MdnsRaised
            | Inr None \<Rightarrow> Inr None
            | Inr (Some query) \<Rightarrow>
                bind_res (build_answer query source_port doms local_addr) (\<lambda>reply.
                  Inr (map_option (\<lambda>r. (r, source_port = MDNS_PORT)) reply))))"

record mdns_state =
  ms_domains :: "string list"
  ms_listening :: bool
  ms_joined :: "nat set"

text \<open>What the kernel answers to joining the group on an interface: \<open>EADDRINUSE\<close> is \<open>AlreadyMember\<close>.\<close>

datatype join_answer = Joined | AlreadyMember | JoinRefused

fun join_loop :: "(nat \<Rightarrow> join_answer) \<Rightarrow> nat list \<Rightarrow> nat set \<Rightarrow> nat set" where
  "join_loop joining [] joined = joined"
| "join_loop joining (index # rest) joined =
     join_loop joining rest
       (if index \<in> joined then joined
        else if joining index = JoinRefused then joined
        else insert index joined)"

definition join_new_interfaces :: "nat list \<Rightarrow> (nat \<Rightarrow> join_answer) \<Rightarrow> mdns_state \<Rightarrow> mdns_state" where
  "join_new_interfaces interfaces joining s =
     s\<lparr>ms_joined := join_loop joining interfaces (ms_joined s \<inter> set interfaces)\<rparr>"

text \<open>\<open>_start\<close>; \<open>can_listen\<close> is whether the socket can be made and bound.\<close>

definition mdns_start :: "bool \<Rightarrow> nat list \<Rightarrow> (nat \<Rightarrow> join_answer) \<Rightarrow> mdns_state \<Rightarrow> mdns_state" where
  "mdns_start can_listen interfaces joining s =
     (if can_listen then join_new_interfaces interfaces joining (s\<lparr>ms_listening := True\<rparr>) else s)"

definition mdns_stop :: "mdns_state \<Rightarrow> mdns_state" where
  "mdns_stop s = s\<lparr>ms_listening := False, ms_joined := {}\<rparr>"

definition mdns_update :: "bool \<Rightarrow> nat list \<Rightarrow> (nat \<Rightarrow> join_answer) \<Rightarrow> domain list \<Rightarrow> mdns_state \<Rightarrow> mdns_state" where
  "mdns_update can_listen interfaces joining doms s =
     (let s1 = s\<lparr>ms_domains := map name_no_port (filter is_mdns doms)\<rparr> in
      if ms_domains s1 \<noteq> [] \<and> \<not> ms_listening s1 then mdns_start can_listen interfaces joining s1
      else if ms_domains s1 = [] \<and> ms_listening s1 then mdns_stop s1
      else s1)"

definition ERROR_LOG_INTERVAL_SECONDS :: rat where "ERROR_LOG_INTERVAL_SECONDS = 60"

record datagram =
  dg_data :: string
  dg_pktinfo :: "string option"
  dg_port :: nat
  dg_time :: rat

text \<open>
  \<open>_on_readable\<close> over the datagrams the socket holds: the replies sent, the times at which an error
  was logged and \<open>_last_error_logged\<close> (None: minus infinity).
\<close>

fun on_readable :: "string list \<Rightarrow> rat option \<Rightarrow> datagram list
    \<Rightarrow> (string \<times> bool) list \<times> rat list \<times> rat option" where
  "on_readable doms since [] = ([], [], since)"
| "on_readable doms since (d # rest) =
     (case handle_packet doms (dg_data d) (dg_pktinfo d) (dg_port d) of
        Inr reply \<Rightarrow>
          (let (sent, logged, since') = on_readable doms since rest
           in ((case reply of None \<Rightarrow> sent | Some r \<Rightarrow> r # sent), logged, since'))
      | Inl x \<Rightarrow>
          if (case since of None \<Rightarrow> True | Some t \<Rightarrow> ERROR_LOG_INTERVAL_SECONDS \<le> dg_time d - t)
          then (let (sent, logged, since') = on_readable doms (Some (dg_time d)) rest
                in (sent, dg_time d # logged, since'))
          else on_readable doms since rest)"

text \<open>A join is remembered for as long as the interface is there and is not asked for again.\<close>

lemma join_loop_exact:
  "join_loop joining is joined = joined \<union> {i \<in> set is. joining i \<noteq> JoinRefused}"
  by (induction "is" arbitrary: joined) auto

lemma joined_exact:
  "ms_joined (join_new_interfaces is joining s) =
     {i \<in> set is. i \<in> ms_joined s \<or> joining i \<noteq> JoinRefused}"
  by (auto simp: join_new_interfaces_def join_loop_exact)

text \<open>A packet that makes the responder raise does not keep the others from being answered.\<close>

lemma on_readable_replies:
  "fst (on_readable doms since ds) =
     concat (map (\<lambda>d. case handle_packet doms (dg_data d) (dg_pktinfo d) (dg_port d) of
       Inr (Some r) \<Rightarrow> [r] | _ \<Rightarrow> []) ds)"
  by (induction doms since ds rule: on_readable.induct) (auto split: sum.splits option.splits prod.splits)

text \<open>Errors are logged at most once in the interval, whatever the network sends.\<close>

lemma on_readable_logs_after:
  "list_all (\<lambda>t. case since of None \<Rightarrow> True | Some l \<Rightarrow> ERROR_LOG_INTERVAL_SECONDS \<le> t - l)
     (fst (snd (on_readable doms since ds)))"
  by (induction doms since ds rule: on_readable.induct)
    (fastforce split: sum.splits option.splits prod.splits simp: list_all_iff ERROR_LOG_INTERVAL_SECONDS_def)+

lemma on_readable_logs_spaced:
  "sorted_wrt (\<lambda>t u. ERROR_LOG_INTERVAL_SECONDS \<le> u - t) (fst (snd (on_readable doms since ds)))"
proof (induction doms since ds rule: on_readable.induct)
  case (2 doms since d rest)
  then show ?case
    using on_readable_logs_after [of "Some (dg_time d)" doms rest]
    by (auto split: sum.splits option.splits prod.splits simp: list_all_iff)
qed simp

text \<open>The listener runs exactly while there is a name to answer for, once the socket could be bound.\<close>

lemma update_listens:
  "ms_domains (mdns_update ok is joining doms s) = map name_no_port (filter is_mdns doms)"
  "ms_listening (mdns_update ok is joining doms s) \<longleftrightarrow> (\<exists>d \<in> set doms. is_mdns d) \<and> (ms_listening s \<or> ok)"
  by (auto simp: mdns_update_def Let_def mdns_start_def mdns_stop_def join_new_interfaces_def filter_empty_conv)

section \<open>Encoding and reading names\<close>

text \<open>The two top bits of a byte tell a length from a pointer.\<close>

lemma and_63: "n AND 0x3F = n mod (64 :: nat)"
  using take_bit_eq_mask [of 6 n] by (simp add: take_bit_eq_mod mask_eq_exp_minus_1)

lemma and_255: "n AND 0xFF = n mod (256 :: nat)"
  using take_bit_eq_mask [of 8 n] by (simp add: take_bit_eq_mod mask_eq_exp_minus_1)

lemma label_length_bits:
  assumes "n < 256"
  shows "n AND 0xC0 = (0 :: nat) \<longleftrightarrow> n < 64"
proof
  assume "n < 64"
  then have "n = n AND 0x3F" by (simp add: and_63)
  then have "n AND 0xC0 = n AND (0x3F AND 0xC0)" by (metis and.assoc)
  then show "n AND 0xC0 = 0" by simp
next
  assume "n AND 0xC0 = 0"
  moreover have "n AND (0x3F OR 0xC0) = (n AND 0x3F) OR (n AND 0xC0)"
    by (rule bit_eqI) (auto simp only: bit_and_iff bit_or_iff)
  then have "n AND 0xFF = (n AND 0x3F) OR (n AND 0xC0)" by simp
  ultimately have "n = n AND 0x3F" using assms by (simp add: and_255)
  then show "n < 64" by (metis and_63 mod_less_divisor zero_less_numeral)
qed

lemma byte_bound: "of_char c < (256 :: nat)"
  by (metis char_of_char of_char_of mod_less_divisor zero_less_numeral)

lemma unpack_u16_bytes: "n < 65536 \<Longrightarrow> unpack_u16 (pre @ u16_bytes n @ rest) (length pre) = n"
  by (simp add: unpack_u16_def u16_bytes_def nth_append)

lemma unpack_u16_bound: "unpack_u16 buf i < 65536"
proof -
  from byte_bound [of "buf ! i"] byte_bound [of "buf ! (i + 1)"] show ?thesis unfolding unpack_u16_def by linarith
qed

definition is_label :: "string \<Rightarrow> bool" where
  "is_label l \<longleftrightarrow> l \<noteq> [] \<and> length l \<le> 63 \<and> utf8_valid l"

lemma read_encoded_labels:
  assumes "encode_labels labels = Inr enc" and "list_all is_label labels" and "length labels < rounds"
  shows "read_name_loop rounds (pre @ enc @ rest) (length pre) acc name_end =
    Inr (lower (join_with ''.'' (acc @ labels)), case name_end of Some x \<Rightarrow> x | None \<Rightarrow> length pre + length enc)"
  using assms
proof (induction labels arbitrary: enc pre acc rounds)
  case Nil
  then obtain k where k: "rounds = Suc k" by (cases rounds) auto
  have enc: "enc = [CHR 0x00]" using Nil.prems(1) by simp
  show ?case by (simp add: k enc nth_append split: option.split)
next
  case (Cons l labels)
  then obtain k where k: "rounds = Suc k" by (cases rounds) auto
  obtain enc' where rest: "encode_labels labels = Inr enc'" and enc: "enc = char_of (length l) # l @ enc'"
    using Cons.prems(1) by (auto simp: res_simps split: if_splits)
  have l: "length l < 64" "l \<noteq> []" "utf8_valid l" using Cons.prems(2) by (auto simp: is_label_def)
  have byte: "of_char ((pre @ enc @ rest) ! length pre) = length l"
    using l(1) by (simp add: enc nth_append)
  have label: "take (length l) (drop (length pre + 1) (pre @ enc @ rest)) = l" by (simp add: enc)
  have "pre @ enc @ rest = (pre @ char_of (length l) # l) @ enc' @ rest" by (simp add: enc)
  then have IH: "read_name_loop k (pre @ enc @ rest) (length pre + 1 + length l) (acc @ [l]) name_end =
      Inr (lower (join_with ''.'' (acc @ l # labels)), case name_end of Some x \<Rightarrow> x | None \<Rightarrow> length pre + length enc)"
    using Cons.IH [OF rest, of k "pre @ char_of (length l) # l" "acc @ [l]"] Cons.prems(2,3)
    by (simp add: k enc add.assoc split: option.splits)
  have bits: "length l AND 0xC0 = 0" using l(1) by (simp add: label_length_bits)
  show ?case
    unfolding k read_name_loop.simps byte Let_def bits label
    using l IH by (simp add: enc)
qed

text \<open>A name that survives the wire: labels of 1 to 63 bytes, lower case, few enough for the reader.\<close>

definition plain_name :: "string \<Rightarrow> bool" where
  "plain_name name \<longleftrightarrow> list_all is_label (split_on CHR ''.'' name) \<and> length (split_on CHR ''.'' name) \<le> 127 \<and> lower name = name"

lemma read_encoded_name:
  assumes "plain_name name" and "encode_name name = Inr enc"
  shows "read_name (pre @ enc @ rest) (length pre) = Inr (name, length pre + length enc)"
  using assms read_encoded_labels [OF assms(2) [unfolded encode_name_def], of 128 pre rest "[]" None]
  by (simp add: read_name_def plain_name_def join_split_on)

lemma parse_encoded_questions:
  assumes "encode_questions qs = Inr enc" and "list_all (\<lambda>q. plain_name (mq_name q) \<and> mq_qtype q < 65536) qs"
  shows "parse_questions (length qs) (pre @ enc @ rest) (length pre) = Inr qs"
  using assms
proof (induction qs arbitrary: enc pre)
  case (Cons q qs)
  obtain n enc' where n: "encode_name (mq_name q) = Inr n" and rest: "encode_questions qs = Inr enc'"
    and enc: "enc = n @ u16_bytes (mq_qtype q) @ u16_bytes CLASS_IN @ enc'"
    using Cons.prems(1) by (auto simp: res_simps pack_u16_def split: if_splits)
  have name: "read_name (pre @ enc @ rest) (length pre) = Inr (mq_name q, length pre + length n)"
    using read_encoded_name [OF _ n, of pre "u16_bytes (mq_qtype q) @ u16_bytes CLASS_IN @ enc' @ rest"] Cons.prems(2)
    by (simp add: enc)
  have qtype: "unpack_u16 (pre @ enc @ rest) (length pre + length n) = mq_qtype q"
    using unpack_u16_bytes [of "mq_qtype q" "pre @ n" "u16_bytes CLASS_IN @ enc' @ rest"] Cons.prems(2) by (simp add: enc)
  have skip: "length pre + length n + 4 = length (pre @ n @ u16_bytes (mq_qtype q) @ u16_bytes CLASS_IN)"
    by (simp add: u16_bytes_def)
  have "parse_questions (length qs) (pre @ enc @ rest) (length pre + length n + 4) = Inr qs"
    unfolding skip using Cons.IH [OF rest, of "pre @ n @ u16_bytes (mq_qtype q) @ u16_bytes CLASS_IN"] Cons.prems(2)
    by (simp add: enc)
  moreover have "length (pre @ enc @ rest) \<ge> length pre + length n + 4" by (simp add: enc u16_bytes_def)
  ultimately show ?case by (simp add: name qtype)
qed simp

section \<open>What the reader lets through\<close>

lemma split_on_piece_length: "p \<in> set (split_on c s) \<Longrightarrow> length p \<le> length s"
proof (induction s arbitrary: p)
  case (Cons x xs)
  then show ?case by (cases "split_on c xs") (fastforce split: if_splits)+
qed simp

lemma split_on_join: "ls \<noteq> [] \<Longrightarrow> split_on c (join_with [c] ls) = concat (map (split_on c) ls)"
proof (induction ls)
  case (Cons x ls)
  then show ?case by (cases ls) (simp_all add: split_on_append_sep)
qed simp

text \<open>What the reader returns can be sent back: no label is longer than 63 bytes.\<close>

definition sendable :: "string \<Rightarrow> bool" where
  "sendable name \<longleftrightarrow> list_all (\<lambda>p. length p \<le> 63) (split_on CHR ''.'' name) \<and> length name \<le> 8192"

lemma split_on_lower: "split_on CHR ''.'' (lower s) = map lower (split_on CHR ''.'' s)"
proof (induction s)
  case (Cons x xs)
  have "lower_char x = CHR ''.'' \<longleftrightarrow> x = CHR ''.''" by (rule lower_char_sep) (simp_all add: is_upper_char_def)
  with Cons show ?case by (cases "split_on CHR ''.'' xs") (auto simp: lower_def)
qed (simp add: lower_def)

lemma join_length: "list_all (\<lambda>l. length l \<le> 63) ls \<Longrightarrow> length (join_with [c] ls) \<le> 64 * length ls"
proof (induction ls)
  case (Cons x ls)
  then show ?case by (cases ls) auto
qed simp

lemma join_sendable:
  assumes "list_all (\<lambda>l. length l \<le> 63) ls" and "length ls \<le> 128"
  shows "sendable (lower (join_with ''.'' ls))"
proof (cases "ls = []")
  case True
  then show ?thesis by (simp add: sendable_def lower_def)
next
  case False
  have "length p \<le> 63" if "p \<in> set (split_on CHR ''.'' l)" "l \<in> set ls" for p l
    using split_on_piece_length [OF that(1)] assms(1) that(2) by (auto simp: list_all_iff)
  then have "list_all (\<lambda>p. length p \<le> 63) (split_on CHR ''.'' (join_with ''.'' ls))"
    unfolding split_on_join [OF False] by (auto simp: list_all_iff)
  moreover have "length (join_with ''.'' ls) \<le> 8192" using join_length [OF assms(1), of "CHR ''.''"] assms(2) by simp
  ultimately show ?thesis by (simp add: sendable_def split_on_lower list_all_iff)
qed

lemma read_name_loop_sendable:
  assumes "read_name_loop rounds buf offset labels name_end = Inr (name, i)"
    and "list_all (\<lambda>l. length l \<le> 63) labels" and "length labels + rounds \<le> 128"
  shows "sendable name"
  using assms
proof (induction rounds arbitrary: offset labels name_end)
  case (Suc k)
  let ?n = "of_char (buf ! offset) :: nat"
  have small: "?n \<le> 63" if "?n AND 0xC0 = 0"
    using that label_length_bits [OF byte_bound] by simp
  from Suc.prems(1) consider
      (pointer) o' e' where "read_name_loop k buf o' labels e' = Inr (name, i)"
    | (stop) "name = lower (join_with ''.'' labels)"
    | (label) "?n AND 0xC0 = 0" "read_name_loop k buf (offset + 1 + ?n) (labels @ [take ?n (drop (offset + 1) buf)]) name_end = Inr (name, i)"
    by (simp add: Let_def split: if_splits)
  then show ?case
  proof cases
    case pointer
    from Suc.IH [OF this] Suc.prems(2,3) show ?thesis by simp
  next
    case stop
    then show ?thesis using Suc.prems(2,3) by (simp add: join_sendable)
  next
    case label
    from Suc.IH [OF label(2)] Suc.prems(2,3) small [OF label(1)] show ?thesis by simp
  qed
qed simp

lemma parse_questions_ok:
  assumes "parse_questions n buf offset = Inr qs"
  shows "length qs = n \<and> list_all (\<lambda>q. sendable (mq_name q) \<and> mq_qtype q < 65536) qs"
  using assms
proof (induction n arbitrary: offset qs)
  case (Suc n)
  then obtain name o' rest where name: "read_name buf offset = Inr (name, o')"
    and rest: "parse_questions n buf (o' + 4) = Inr rest"
    and qs: "qs = \<lparr>mq_name = name, mq_qtype = unpack_u16 buf o'\<rparr> # rest"
    by (auto simp: res_simps split: prod.splits if_splits)
  from read_name_loop_sendable [OF name [unfolded read_name_def]] Suc.IH [OF rest] show ?case
    by (simp add: qs unpack_u16_bound)
qed simp

section \<open>Sending\<close>

lemma encode_labels_ok:
  assumes "list_all (\<lambda>l. length l \<le> 63) ls" and "ls \<noteq> []"
  shows "\<exists>b. encode_labels ls = Inr b \<and> length b = length (join_with [c] ls) + 2"
  using assms
proof (induction ls)
  case (Cons l ls)
  show ?case
  proof (cases ls)
    case Nil
    with Cons.prems show ?thesis by simp
  next
    case (Cons a list)
    with Cons.IH Cons.prems show ?thesis by auto
  qed
qed simp

lemma encode_name_ok: "sendable name \<Longrightarrow> \<exists>b. encode_name name = Inr b \<and> length b = length name + 2"
  using encode_labels_ok [of "split_on CHR ''.'' name" "CHR ''.''"] by (simp add: sendable_def encode_name_def join_split_on)

lemma record_ok:
  assumes "sendable name" and "rtype < 65536" and "ttl < 2 ^ 32" and "length rdata < 65536"
  shows "\<exists>b. mdns_record name rtype ttl cache_flush rdata = Inr b"
proof -
  have "CLASS_IN OR CACHE_FLUSH = 0x8001" "CLASS_IN OR 0 = 1" by (simp_all add: CLASS_IN_def CACHE_FLUSH_def)
  with assms encode_name_ok [OF assms(1)] show ?thesis
    by (auto simp: mdns_record_def pack_u16_def pack_u32_def Let_def)
qed

definition wanted :: "string list \<Rightarrow> mdns_question \<Rightarrow> bool" where
  "wanted doms q \<longleftrightarrow> is_ours (mq_name q) doms \<and> mq_qtype q \<in> {TYPE_A, TYPE_ANY, TYPE_AAAA}"

lemma answer_questions_ok:
  assumes "list_all (\<lambda>q. sendable (mq_name q) \<and> mq_qtype q < 65536) qs" and "length ip = 4" and "ttl < 2 ^ 32"
  shows "\<exists>answers additionals. answer_questions doms ip ttl cache_flush qs = Inr (answers, additionals, filter (wanted doms) qs) \<and>
    length answers = length (filter (wanted doms) qs) \<and>
    length additionals = length (filter (\<lambda>q. wanted doms q \<and> mq_qtype q \<noteq> TYPE_AAAA) qs)"
  using assms(1)
proof (induction qs)
  case (Cons q qs)
  then obtain answers additionals where IH: "answer_questions doms ip ttl cache_flush qs = Inr (answers, additionals, filter (wanted doms) qs)"
    "length answers = length (filter (wanted doms) qs)"
    "length additionals = length (filter (\<lambda>q. wanted doms q \<and> mq_qtype q \<noteq> TYPE_AAAA) qs)" by auto
  have name: "sendable (mq_name q)" using Cons.prems by simp
  obtain b where b: "encode_name (mq_name q) = Inr b" "length b = length (mq_name q) + 2" using encode_name_ok [OF name] by blast
  have "length b + 3 < 65536" using b(2) name by (simp add: sendable_def)
  then obtain n where n: "nsec_a_only (mq_name q) ttl cache_flush = Inr n"
    using record_ok [OF name, of TYPE_NSEC ttl "b @ [CHR 0x00, CHR 0x01, CHR 0x40]" cache_flush] assms(3)
    by (auto simp: nsec_a_only_def b TYPE_NSEC_def)
  obtain a where a: "a_record (mq_name q) ip ttl cache_flush = Inr a"
    using record_ok [OF name, of TYPE_A ttl ip cache_flush] assms(2,3) by (auto simp: a_record_def TYPE_A_def)
  have types: "TYPE_A \<noteq> TYPE_AAAA" "TYPE_ANY \<noteq> TYPE_AAAA" by (simp_all add: TYPE_A_def TYPE_AAAA_def TYPE_ANY_def)
  have w: "wanted doms q \<longleftrightarrow> is_ours (mq_name q) doms \<and> mq_qtype q \<in> {TYPE_A, TYPE_ANY, TYPE_AAAA}" by (simp add: wanted_def)
  show ?case using IH types by (auto simp: n a w Let_def)
qed simp

lemma encode_questions_ok:
  "list_all (\<lambda>q. sendable (mq_name q) \<and> mq_qtype q < 65536) qs \<Longrightarrow> \<exists>b. encode_questions qs = Inr b"
proof (induction qs)
  case (Cons q qs)
  then obtain b n where "encode_questions qs = Inr b" "encode_name (mq_name q) = Inr n" using encode_name_ok by fastforce
  with Cons.prems show ?case by (simp add: pack_u16_def CLASS_IN_def)
qed simp

lemma build_response_ok:
  assumes "query_id < 65536" and "length answers < 65536" and "length additionals < 65536" and "length questions < 65536"
    and "list_all (\<lambda>q. sendable (mq_name q) \<and> mq_qtype q < 65536) questions"
  shows "\<exists>b. build_response query_id questions answers additionals = Inr b \<and> unpack_u16 b 0 = query_id \<and>
    unpack_u16 b 2 = FLAG_RESPONSE OR FLAG_AUTHORITATIVE \<and> unpack_u16 b 4 = length questions \<and>
    unpack_u16 b 6 = length answers \<and> unpack_u16 b 10 = length additionals"
proof -
  have flags: "FLAG_RESPONSE OR FLAG_AUTHORITATIVE < 65536" by (simp add: FLAG_RESPONSE_def FLAG_AUTHORITATIVE_def)
  obtain bs where "encode_questions questions = Inr bs" using encode_questions_ok [OF assms(5)] by blast
  then have "build_response query_id questions answers additionals = Inr (u16_bytes query_id @
      u16_bytes (FLAG_RESPONSE OR FLAG_AUTHORITATIVE) @ u16_bytes (length questions) @ u16_bytes (length answers) @
      u16_bytes 0 @ u16_bytes (length additionals) @ bs @ concat answers @ concat additionals)"
    using assms flags by (simp add: build_response_def pack_u16_def)
  then show ?thesis using assms flags by (simp add: unpack_u16_def u16_bytes_def)
qed

lemma read_name_loop_no_raise: "read_name_loop rounds buf offset labels name_end \<noteq> Inl MdnsRaised"
  by (induction rounds arbitrary: offset labels name_end) (simp_all add: Let_def)

lemma parse_questions_no_raise: "parse_questions n buf offset \<noteq> Inl MdnsRaised"
proof (induction n arbitrary: offset)
  case (Suc n)
  then show ?case using read_name_loop_no_raise [of 128 buf offset "[]" None]
    by (auto simp: bind_res_def read_name_def split: sum.splits)
qed simp

lemma parse_query_no_raise: "parse_query buf \<noteq> Inl MdnsRaised"
  using parse_questions_no_raise by (auto simp: parse_query_def bind_res_def split: sum.splits)

section \<open>Properties\<close>

text \<open>A query on the wire, for the statement below: the header and the questions.\<close>

definition query_packet :: "nat \<Rightarrow> mdns_question list \<Rightarrow> mdns_exn + string" where
  "query_packet query_id questions =
     bind_res (pack_u16s [query_id, 0, length questions, 0, 0, 0]) (\<lambda>header.
     bind_res (encode_questions questions) (\<lambda>bytes. Inr (header @ bytes)))"

lemma parse_query_packet:
  assumes "query_packet query_id questions = Inr buf"
    and "list_all (\<lambda>q. plain_name (mq_name q) \<and> mq_qtype q < 65536) questions"
  shows "parse_query (buf @ rest) = Inr (Some \<lparr>mq_id = query_id, mq_questions = questions\<rparr>)"
proof -
  obtain bs where bs: "encode_questions questions = Inr bs"
    and small: "query_id < 65536" "length questions < 65536"
    and buf: "buf = (u16_bytes query_id @ u16_bytes 0 @ u16_bytes (length questions) @ u16_bytes 0 @ u16_bytes 0 @ u16_bytes 0) @ bs"
    using assms(1) by (auto simp: query_packet_def res_simps pack_u16_def split: if_splits)
  let ?header = "u16_bytes query_id @ u16_bytes 0 @ u16_bytes (length questions) @ u16_bytes 0 @ u16_bytes 0 @ u16_bytes 0"
  have size: "length ?header = HEADER_SIZE" by (simp add: u16_bytes_def HEADER_SIZE_def)
  have fields: "unpack_u16 (buf @ rest) 0 = query_id" "unpack_u16 (buf @ rest) 2 = 0" "unpack_u16 (buf @ rest) 4 = length questions"
    using small by (simp_all add: buf unpack_u16_def u16_bytes_def)
  have "parse_questions (length questions) (buf @ rest) HEADER_SIZE = Inr questions"
    using parse_encoded_questions [OF bs assms(2), of ?header rest] unfolding size buf by simp
  moreover have "HEADER_SIZE \<le> length (buf @ rest)" using size by (simp add: buf)
  ultimately show ?thesis by (simp add: parse_query_def fields)
qed

text \<open>What the responder writes it can read: the questions of a query encoded with its own name and
  field encoders come back unchanged, for lower-case names of up to 127 labels of at most 63 bytes.\<close>

lemma query_round_trip:
  assumes "query_packet query_id questions = Inr buf"
    and "list_all (\<lambda>q. plain_name (mq_name q) \<and> mq_qtype q < 65536) questions"
  shows "parse_query (buf @ rest) = Inr (Some \<lparr>mq_id = query_id, mq_questions = questions\<rparr>)"
  using assms by (rule parse_query_packet)


text \<open>A label may hold a dot on the wire, which the reader turns into two labels; an empty one between two
  dots then ends the name of the reply early, in the middle of the record.\<close>

lemma dotted_label_breaks_reply:
  "\<exists>wire reply. encode_labels [''a..b'', ''local''] = Inr wire \<and> read_name wire 0 = Inr (''a..b.local'', length wire) \<and>
     encode_name ''a..b.local'' = Inr reply \<and> read_name reply 0 = Inr (''a'', 3)"
proof -
  have lower: "lower ''a..b.local'' = ''a..b.local''" "lower ''a'' = ''a''" by code_simp+
  have one: "(char_of (Suc 0) :: char) = CHR 0x01" "(char_of (0::nat) :: char) = CHR 0x00" by code_simp+
  have labels: "list_all is_label [''a..b'', ''local'']" "list_all is_label [''a'']" by code_simp+
  obtain wire where wire: "encode_labels [''a..b'', ''local''] = Inr wire" by simp
  have "read_name wire 0 = Inr (''a..b.local'', length wire)"
    using read_encoded_labels [OF wire labels(1), of 128 "[]" "[]" "[]" None] lower by (simp add: read_name_def)
  moreover obtain rest where reply: "encode_name ''a..b.local'' = Inr (CHR 0x01 # CHR ''a'' # CHR 0x00 # rest)"
    using one by (simp add: encode_name_def)
  have "encode_labels [''a''] = Inr [CHR 0x01, CHR ''a'', CHR 0x00]" using one by simp
  from read_encoded_labels [OF this labels(2), of 128 "[]" rest "[]" None] lower
  have "read_name (CHR 0x01 # CHR ''a'' # CHR 0x00 # rest) 0 = Inr (''a'', 3)" by (simp add: read_name_def)
  ultimately show ?thesis using wire reply by blast
qed

section \<open>Concrete instances\<close>

definition demo_questions :: "mdns_question list" where
  "demo_questions = [\<lparr>mq_name = ''notes.box.local'', mq_qtype = TYPE_A\<rparr>, \<lparr>mq_name = ''box.local'', mq_qtype = TYPE_A\<rparr>]"

lemma demo_query_packet: "\<exists>buf. query_packet 7 demo_questions = Inr buf"
  by (simp add: query_packet_def demo_questions_def encode_name_def pack_u16_def TYPE_A_def CLASS_IN_def)

lemma demo_questions_plain: "list_all (\<lambda>q. plain_name (mq_name q) \<and> mq_qtype q < 65536) demo_questions"
proof -
  have "list_all (\<lambda>q. plain_name (mq_name q) \<and> mq_qtype q < 256) demo_questions" by code_simp
  then show ?thesis by (auto simp: list_all_iff)
qed

lemma query_round_trip_witness:
  "\<exists>buf. query_packet 7 demo_questions = Inr buf \<and>
     parse_query (buf @ ''x'') = Inr (Some \<lparr>mq_id = 7, mq_questions = demo_questions\<rparr>)"
  using demo_query_packet query_round_trip [OF _ demo_questions_plain] by blast


end
