(* ===== verification/DomainRoutes.thy ===== *)
theory DomainRoutes
  imports Certs Mdns WebAuth
begin

text \<open>
  \<open>web/routes/api/domains.py\<close>: the owner adds, promotes and removes domains of the running instance, over
  the table of domains, the DNS provider, the mDNS responder, the certificates and Caddy; with
  \<open>core/operation_locks.py\<close> and the restart flag of \<open>core/updates.py\<close>. What other requests do while a promotion
  waits for its thread is an argument.
\<close>

record instance_state =
  st_tls :: tls_state
  st_mdns :: mdns_state
  st_shutdown_pending :: bool
  st_operation_active :: bool

abbreviation st_db :: "instance_state \<Rightarrow> db" where
  "st_db s \<equiv> ts_db (st_tls s)"

definition with_db_of :: "db \<Rightarrow> instance_state \<Rightarrow> instance_state" where
  "with_db_of db s = s\<lparr>st_tls := (st_tls s)\<lparr>ts_db := db\<rparr>\<rparr>"

definition with_dns_of :: "dns_provider \<Rightarrow> instance_state \<Rightarrow> instance_state" where
  "with_dns_of dns s = s\<lparr>st_tls := (st_tls s)\<lparr>ts_dns := dns\<rparr>\<rparr>"

record domain_env =
  de_auth :: auth_env
  de_cfg :: tls_config
  de_tls :: tls_env
  de_dns :: dns_world
  de_writes :: "dns_write list"
  de_can_listen :: bool
  de_interfaces :: "nat list"
  de_joining :: "nat \<Rightarrow> join_answer"
  de_agent_resets :: bool
  de_others :: "instance_state \<Rightarrow> instance_state"

datatype domain_route_error =
    DomUnauthorized auth_error
  | DomInvalid string
  | DomNotFound
  | RestartPending
  | DomainNotReady
  | OperationBusy
  | RestartUnavailable
  | AppsBusy "string list"
  | DomServerError

definition owner_only :: "domain_env \<Rightarrow> conn \<Rightarrow> instance_state
    \<Rightarrow> (domain_route_error + 'a) \<times> instance_state \<Rightarrow> (domain_route_error + 'a) \<times> instance_state" where
  "owner_only e c s handled =
     (case require_owner_auth (de_auth e) c (st_db s) of Inl x \<Rightarrow> (Inl (DomUnauthorized x), s) | Inr u \<Rightarrow> handled)"

section \<open>Listing\<close>

record domain_view =
  di_name :: string
  di_tls :: bool
  di_scheme :: string
  di_cert_status :: cert_status
  di_error_message :: "string option"
  di_is_primary :: bool

definition status_on_disk :: "domain_env \<Rightarrow> instance_state \<Rightarrow> string \<Rightarrow> string \<times> string \<Rightarrow> cert_state" where
  "status_on_disk e s name paths =
     get_cert_status (te_not_after (de_tls e)) (ts_files (st_tls s)) (fst paths) (snd paths) (te_now (de_tls e) name)"

text \<open>None is the ValueError of a name that has no certificate path.\<close>

definition tls_cert_display :: "domain_env \<Rightarrow> instance_state \<Rightarrow> string \<Rightarrow> domain_row option \<Rightarrow> (cert_status \<times> string option) option" where
  "tls_cert_display e s name record =
     (case cert_key_paths_for (de_cfg e) name of
        None \<Rightarrow> None
      | Some paths \<Rightarrow>
          (let status = status_on_disk e s name paths in
           if status \<in> {CertOk, CertExpiringSoon} then Some (CertActive, None)
           else if status = CertExpired
           then Some (CertError, case Option.bind record (\<lambda>r. non_empty (n_error_message r)) of
                        Some m \<Rightarrow> Some m | None \<Rightarrow> Some ''certificate expired or unreadable'')
           else (case record of Some r \<Rightarrow> Some (n_cert_status r, n_error_message r) | None \<Rightarrow> Some (CertNone, None))))"

definition domain_info :: "domain_env \<Rightarrow> instance_state \<Rightarrow> domain_row \<Rightarrow> domain_view option" where
  "domain_info e s record =
     (let d = to_domain record; name = name_no_port d in
      map_option (\<lambda>(cert_status, error).
          \<lparr>di_name = name, di_tls = dn_tls d, di_scheme = scheme d, di_cert_status = cert_status,
           di_error_message = error, di_is_primary = n_is_primary record\<rparr>)
        (if \<not> dn_tls d then Some (CertActive, None) else tls_cert_display e s name (Some record)))"

definition domain_list :: "domain_env \<Rightarrow> instance_state \<Rightarrow> domain_route_error + domain_view list" where
  "domain_list e s =
     (case those (map (domain_info e s) (load_records (st_db s))) of None \<Rightarrow> Inl DomServerError | Some ds \<Rightarrow> Inr ds)"

definition list_domains :: "domain_env \<Rightarrow> conn \<Rightarrow> instance_state \<Rightarrow> (domain_route_error + domain_view list) \<times> instance_state" where
  "list_domains e c s = owner_only e c s (domain_list e s, s)"

section \<open>What runs after a response\<close>

datatype background_task = ReloadCaddyTask | AcquireCertTask domain

definition reload_caddy_after_response :: "domain_env \<Rightarrow> instance_state \<Rightarrow> instance_state" where
  "reload_caddy_after_response e s = s\<lparr>st_tls := snd (reload_for_domains (de_cfg e) (de_tls e) (st_tls s))\<rparr>"

fun exn_text :: "cert_exn \<Rightarrow> string" where
  "exn_text (Retryable m) = m"
| "exn_text (CertRaised m) = m"

definition acquire_cert :: "domain_env \<Rightarrow> domain \<Rightarrow> instance_state \<Rightarrow> instance_state" where
  "acquire_cert e d s =
     (case ensure_cert_for (de_cfg e) (de_tls e) d (st_tls s) of
        (Inl x, t) \<Rightarrow> s\<lparr>st_tls := t\<lparr>ts_db := set_record_status (ts_db t) (name_no_port d) CertError (Some (exn_text x))\<rparr>\<rparr>
      | (Inr _, t) \<Rightarrow> reload_caddy_after_response e
            (s\<lparr>st_tls := t\<lparr>ts_db := set_record_status (ts_db t) (name_no_port d) CertActive None\<rparr>\<rparr>))"

fun run_task :: "domain_env \<Rightarrow> background_task \<Rightarrow> instance_state \<Rightarrow> instance_state" where
  "run_task e ReloadCaddyTask s = reload_caddy_after_response e s"
| "run_task e (AcquireCertTask d) s = acquire_cert e d s"

section \<open>Adding\<close>

text \<open>\<open>_validate_new_domain\<close>; \<open>_DOMAIN_RE\<close> takes the names \<open>_CERT_DOMAIN_RE\<close> does, as the name is stripped.\<close>

definition validate_new_domain :: "domain \<Rightarrow> db \<Rightarrow> string option" where
  "validate_new_domain d db =
     (let name = dn_name d in
      if name = [] then Some ''domain name is required''
      else if \<not> is_cert_domain name then Some ''invalid domain name''
      else if is_mdns d \<and> dn_tls d then Some ''Local domains are served over HTTP; set tls=false''
      else if list_ex (\<lambda>x. name_no_port x = name) (effective_domains db) then Some ''domain is already configured''
      else None)"

definition new_domain_row :: "domain \<Rightarrow> domain_row" where
  "new_domain_row d = \<lparr>n_name = dn_name d, n_tls = dn_tls d, n_is_primary = False,
     n_cert_status = (if dn_tls d then CertAcquiring else CertActive), n_error_message = None\<rparr>"

definition update_responder :: "domain_env \<Rightarrow> instance_state \<Rightarrow> instance_state" where
  "update_responder e s = s\<lparr>st_mdns :=
     mdns_update (de_can_listen e) (de_interfaces e) (de_joining e) (effective_domains (st_db s)) (st_mdns s)\<rparr>"

text \<open>Serving the names of a new domain; a provider that serves nothing is only logged, a CoreDNS that does
  not start is an exception.\<close>

definition serve_new_domain :: "domain_env \<Rightarrow> domain \<Rightarrow> instance_state \<Rightarrow> (domain_route_error + unit) \<times> instance_state" where
  "serve_new_domain e d s =
     (if is_mdns d then (Inr (), update_responder e s)
      else (case add_zone (de_dns e) (de_writes e) (dn_name d) (ts_dns (st_tls s)) of
          (Inl SpawnFailed, dns) \<Rightarrow> (Inl DomServerError, with_dns_of dns s)
        | (_, dns) \<Rightarrow> (Inr (), with_dns_of dns s)))"

definition add_domain :: "domain_env \<Rightarrow> conn \<Rightarrow> string \<Rightarrow> bool \<Rightarrow> instance_state
    \<Rightarrow> (domain_route_error + domain_view list \<times> background_task list) \<times> instance_state" where
  "add_domain e c data_name data_tls s = owner_only e c s
     (let name = lower (py_strip data_name);
          d = mk_domain name data_tls
      in case validate_new_domain d (st_db s) of
           Some problem \<Rightarrow> (Inl (DomInvalid problem), s)
         | None \<Rightarrow>
        (case upsert_record (st_db s) (new_domain_row d) of
           Inl x \<Rightarrow> (Inl DomServerError, s)
         | Inr db' \<Rightarrow>
        (case serve_new_domain e d (with_db_of db' s) of
           (Inl x, s1) \<Rightarrow> (Inl x, s1)
         | (Inr _, s1) \<Rightarrow>
        (case domain_list e s1 of
           Inl x \<Rightarrow> (Inl x, s1)
         | Inr ds \<Rightarrow> (Inr (ds, ReloadCaddyTask # (if dn_tls d then [AcquireCertTask d] else [])), s1)))))"

section \<open>Promoting\<close>

definition certificate_usable :: "domain_env \<Rightarrow> instance_state \<Rightarrow> string \<Rightarrow> bool option" where
  "certificate_usable e s name =
     map_option (\<lambda>paths. status_on_disk e s name paths \<in> {CertOk, CertExpiringSoon}) (cert_key_paths_for (de_cfg e) name)"

text \<open>\<open>_promote_and_restart\<close>, the owner of the lock.\<close>

definition promote_and_restart :: "domain_env \<Rightarrow> string \<Rightarrow> instance_state \<Rightarrow> (domain_route_error + bool) \<times> instance_state" where
  "promote_and_restart e name s =
     (if st_shutdown_pending s then (Inl RestartPending, s)
      else if \<not> de_agent_resets e then (Inl RestartUnavailable, s)
      else (case set_primary_domain (st_db s) name of
          (Inl (DomainNotFoundError n), db) \<Rightarrow> (Inl DomNotFound, with_db_of db s)
        | (Inl (AppsBusyForPrimaryChange names), db) \<Rightarrow> (Inl (AppsBusy names), with_db_of db s)
        | (Inl x, db) \<Rightarrow> (Inl DomServerError, with_db_of db s)
        | (Inr changed, db) \<Rightarrow> (Inr changed, (with_db_of db s)\<lparr>st_shutdown_pending := st_shutdown_pending s \<or> changed\<rparr>)))"

text \<open>\<open>start_exclusive_operation\<close>: None where an operation runs; else the operation, which releases the
  lock however it ends.\<close>

definition start_exclusive_operation ::
    "(instance_state \<Rightarrow> instance_state) \<Rightarrow> (instance_state \<Rightarrow> (domain_route_error + 'a) \<times> instance_state) \<Rightarrow> instance_state
       \<Rightarrow> ((domain_route_error + 'a) \<times> instance_state) option" where
  "start_exclusive_operation others operation s =
     (if st_operation_active s then None
      else (case operation (others (s\<lparr>st_operation_active := True\<rparr>)) of
          (r, s1) \<Rightarrow> Some (r, s1\<lparr>st_operation_active := False\<rparr>)))"

definition make_primary_domain :: "domain_env \<Rightarrow> conn \<Rightarrow> string \<Rightarrow> instance_state
    \<Rightarrow> (domain_route_error + domain_view list) \<times> instance_state" where
  "make_primary_domain e c path_name s = owner_only e c s
     (let name = lower (py_strip path_name) in
      case get_record (st_db s) name of
        None \<Rightarrow> (Inl DomNotFound, s)
      | Some record \<Rightarrow>
          if n_is_primary record then (domain_list e s, s)
          else if st_shutdown_pending s then (Inl RestartPending, s)
          else if n_tls record \<and> certificate_usable e s name = None then (Inl DomServerError, s)
          else if n_tls record \<and> certificate_usable e s name = Some False then (Inl DomainNotReady, s)
          else (case start_exclusive_operation (de_others e) (promote_and_restart e name) s of
              None \<Rightarrow> (Inl OperationBusy, s)
            | Some (Inl x, s1) \<Rightarrow> (Inl x, s1)
            | Some (Inr changed, s1) \<Rightarrow> (domain_list e s1, s1)))"

section \<open>Removing\<close>

definition stop_serving :: "domain_env \<Rightarrow> string \<Rightarrow> domain \<Rightarrow> instance_state \<Rightarrow> (domain_route_error + unit) \<times> instance_state" where
  "stop_serving e name removed s =
     (if is_mdns removed then (Inr (), update_responder e s)
      else (case remove_zone (de_dns e) (de_writes e) name (ts_dns (st_tls s)) of
          (Inl x, dns) \<Rightarrow> (Inl DomServerError, with_dns_of dns s)
        | (Inr _, dns) \<Rightarrow> (Inr (), with_dns_of dns s)))"

definition remove_domain :: "domain_env \<Rightarrow> conn \<Rightarrow> string \<Rightarrow> instance_state
    \<Rightarrow> (domain_route_error + domain_view list \<times> background_task list) \<times> instance_state" where
  "remove_domain e c path_name s = owner_only e c s
     (let name = lower (py_strip path_name) in
      case get_record (st_db s) name of
        None \<Rightarrow> (Inl DomNotFound, s)
      | Some removed \<Rightarrow>
     (case remove_non_primary_record (st_db s) (n_name removed) of
        (db', False) \<Rightarrow>
          (case get_record (st_db s) name of
             Some current \<Rightarrow> (Inl (if n_is_primary current then DomInvalid ''cannot remove the primary domain'' else DomNotFound), s)
           | None \<Rightarrow> (Inl DomNotFound, s))
      | (db', True) \<Rightarrow>
     (case stop_serving e name (to_domain removed) (with_db_of db' s) of
        (Inl x, s1) \<Rightarrow> (Inl x, s1)
      | (Inr _, s1) \<Rightarrow>
     (case domain_list e s1 of
        Inl x \<Rightarrow> (Inl x, s1)
      | Inr ds \<Rightarrow> (Inr (ds, [ReloadCaddyTask]), s1)))))"

section \<open>Facts\<close>

lemma cert_domain_chars:
  assumes "is_cert_domain n" and "c \<in> set n"
  shows "is_label_char c \<or> c = CHR ''.''"
proof -
  have "n = join_with [CHR ''.''] (split_on CHR ''.'' n)" by (simp add: join_split_on)
  moreover have "set (join_with sep ls) \<subseteq> set sep \<union> \<Union> (set ` set ls)" for sep ls
    by (induction sep ls rule: join_with.induct) auto
  ultimately have "c \<in> set [CHR ''.''] \<union> \<Union> (set ` set (split_on CHR ''.'' n))" using assms(2) by (metis subsetD)
  then show ?thesis using assms(1) by (auto simp: is_cert_domain_def is_dns_label_def list_all_iff)
qed

lemma cert_domain_no_port:
  assumes "is_cert_domain n"
  shows "before_char CHR '':'' n = n"
proof -
  have "\<not> is_label_char CHR '':''" by code_simp
  with cert_domain_chars [OF assms] have "CHR '':'' \<notin> set n" by force
  then show ?thesis by (rule before_char_id)
qed

text \<open>A name that passes the checks is new in the table, so it gets a row of its own.\<close>

lemma validated_is_new:
  assumes "validate_new_domain (mk_domain name tls) db = None"
  shows "upsert_record db (new_domain_row (mk_domain name tls)) = Inr (db\<lparr>domains := domains db @ [new_domain_row (mk_domain name tls)]\<rparr>)"
    and "is_cert_domain (lower name)" and "n_name r \<noteq> lower name \<or> r \<notin> set (domains db)"
proof -
  have name: "is_cert_domain (lower name)" "\<not> list_ex (\<lambda>x. name_no_port x = lower name) (effective_domains db)"
    using assms by (simp_all add: validate_new_domain_def mk_domain_def Let_def split: if_splits)
  then show "is_cert_domain (lower name)" by simp
  have new: "n_name r \<noteq> lower name" if "r \<in> set (domains db)" for r
  proof
    assume r: "n_name r = lower name"
    then have "name_no_port (to_domain r) = lower name"
      using cert_domain_no_port [OF name(1)] by (simp add: to_domain_def mk_domain_def name_no_port_def)
    then show False using name(2) that by (auto simp: list_ex_iff effective_domains_def)
  qed
  then show "n_name r \<noteq> lower name \<or> r \<notin> set (domains db)" by blast
  show "upsert_record db (new_domain_row (mk_domain name tls)) = Inr (db\<lparr>domains := domains db @ [new_domain_row (mk_domain name tls)]\<rparr>)"
    using new by (auto simp: upsert_record_def new_domain_row_def mk_domain_def Let_def table_simps)
qed

definition name_served :: "domain \<Rightarrow> instance_state \<Rightarrow> bool" where
  "name_served d s \<longleftrightarrow>
     (if is_mdns d then name_no_port d \<in> set (ms_domains (st_mdns s))
      else is_local_only (dn_name d) \<or> disabled (ts_dns (st_tls s)) \<or>
           normalize_zone (dn_name d) \<in> set (dp_zones (ts_dns (st_tls s))))"

lemma serve_new_domain_facts:
  assumes "serve_new_domain e d s = (r, s')"
  shows "st_db s' = st_db s" and "r = Inr () \<or> r = Inl DomServerError"
    and "r = Inr () \<Longrightarrow> d \<in> set (effective_domains (st_db s)) \<Longrightarrow> name_served d s'"
proof -
  obtain q dns where a: "add_zone (de_dns e) (de_writes e) (dn_name d) (ts_dns (st_tls s)) = (q, dns)" by fastforce
  show "st_db s' = st_db s" "r = Inr () \<or> r = Inl DomServerError"
    using assms a by (auto simp: serve_new_domain_def update_responder_def with_dns_of_def split: if_splits sum.splits dns_error.splits)
  assume ok: "r = Inr ()" and d: "d \<in> set (effective_domains (st_db s))"
  show "name_served d s'"
  proof (cases "is_mdns d")
    case True
    then show ?thesis using assms d update_listens(1) by (auto simp: name_served_def serve_new_domain_def update_responder_def)
  next
    case False
    have "is_local_only (dn_name d) \<or> disabled dns \<or> normalize_zone (dn_name d) \<in> set (dp_zones dns)" if "q \<noteq> Inl SpawnFailed"
    proof (cases q)
      case (Inl x)
      then have "x = DnsNotEnabled" using that by (cases x) auto
      with Inl a show ?thesis
        using a by (auto simp: add_zone_def Let_def disabled_def serves_public_zones_def apply_zones_def reconcile_process_def
            restart_process_def start_process_def split: if_splits)
    next
      case (Inr u)
      with a show ?thesis
        using zone_set_changes(1) [of "de_dns e" "de_writes e" "dn_name d" "ts_dns (st_tls s)"] by auto
    qed
    then show ?thesis
      using False ok assms a
      by (auto simp: name_served_def serve_new_domain_def with_dns_of_def split: sum.splits dns_error.splits)
  qed
qed

lemma domain_list_errors: "domain_list e s = Inl x \<Longrightarrow> x = DomServerError"
  by (auto simp: domain_list_def split: option.splits)

lemma new_row_is_effective:
  assumes "domains db = ds @ [new_domain_row (mk_domain name tls)]"
  shows "mk_domain name tls \<in> set (effective_domains db)"
  using assms by (simp add: effective_domains_def to_domain_def new_domain_row_def mk_domain_def)

text \<open>Adding a domain is refused without a trace, for a caller that is not the owner or a name that is
  invalid or taken; or else the table gains exactly one row, not primary, and the answer, unless the
  server failed, comes with the name served: a zone of CoreDNS, or published on the local network, and
  with a certificate on order exactly when it is a TLS domain.\<close>

lemma add_domain_outcome:
  assumes "add_domain e c data_name tls s = (r, s')"
  shows "let d = mk_domain (lower (py_strip data_name)) tls in
     if require_owner_auth (de_auth e) c (st_db s) \<noteq> Inr () \<or> validate_new_domain d (st_db s) \<noteq> None
     then s' = s \<and> (\<exists>x. r = Inl x \<and> x \<noteq> DomServerError)
     else st_db s' = (st_db s)\<lparr>domains := domains (st_db s) @ [new_domain_row d]\<rparr> \<and>
       (r = Inl DomServerError \<or>
        (\<exists>ds tasks. r = Inr (ds, tasks) \<and> name_served d s' \<and> (AcquireCertTask d \<in> set tasks \<longleftrightarrow> tls)))"
proof -
  define d where "d = mk_domain (lower (py_strip data_name)) tls"
  define auth where "auth = require_owner_auth (de_auth e) c (st_db s)"
  show ?thesis
  proof (cases "auth \<noteq> Inr () \<or> validate_new_domain d (st_db s) \<noteq> None")
    case True
    then show ?thesis
      using assms by (auto simp: add_domain_def owner_only_def Let_def d_def auth_def split: sum.splits)
  next
    case False
    define db' where "db' = (st_db s)\<lparr>domains := domains (st_db s) @ [new_domain_row d]\<rparr>"
    have upsert: "upsert_record (st_db s) (new_domain_row d) = Inr db'"
      using validated_is_new(1) False unfolding d_def db'_def by blast
    obtain q s1 where q: "serve_new_domain e d (with_db_of db' s) = (q, s1)" by fastforce
    have db: "st_db (with_db_of db' s) = db'" by (simp add: with_db_of_def)
    note served = serve_new_domain_facts [OF q, unfolded db]
    have "d \<in> set (effective_domains db')"
      unfolding d_def by (rule new_row_is_effective) (simp add: db'_def d_def)
    then have "q = Inr () \<Longrightarrow> name_served d s1" using served(3) by blast
    moreover have "add_domain e c data_name tls s =
        (case q of Inl x \<Rightarrow> (Inl x, s1) | Inr _ \<Rightarrow>
          (case domain_list e s1 of Inl x \<Rightarrow> (Inl x, s1)
           | Inr ds \<Rightarrow> (Inr (ds, ReloadCaddyTask # (if tls then [AcquireCertTask d] else [])), s1)))"
      using False upsert q
      by (auto simp: add_domain_def owner_only_def Let_def d_def auth_def mk_domain_def split: sum.splits)
    ultimately show ?thesis
      using assms False served(1,2) domain_list_errors [of e s1]
      by (auto simp: Let_def d_def [symmetric] auth_def [symmetric] db'_def [symmetric] split: sum.splits)
  qed
qed

lemma promote_and_restart_db:
  assumes "promote_and_restart e name s = (r, s')" and "st_db s' \<noteq> st_db s"
  shows "\<not> st_shutdown_pending s" and "set_primary_domain (st_db s) name = (Inr True, st_db s')"
    and "st_shutdown_pending s'" and "busy_apps (st_db s) = []"
proof -
  have atomic: "db = st_db s \<or> (q = Inr True \<and> busy_apps (st_db s) = [])" if "set_primary_domain (st_db s) name = (q, db)" for q db
    using that by (auto simp: set_primary_domain_def Let_def split: option.splits if_splits)
  obtain q db where q: "set_primary_domain (st_db s) name = (q, db)" by fastforce
  then have "db = st_db s' \<and> q = Inr True \<and> \<not> st_shutdown_pending s \<and> st_shutdown_pending s'"
    using assms atomic [OF q]
    by (auto simp: promote_and_restart_def with_db_of_def split: if_splits sum.splits domain_error.splits)
  with q atomic [OF q] assms(2)
  show "\<not> st_shutdown_pending s" "set_primary_domain (st_db s) name = (Inr True, st_db s')"
    "st_shutdown_pending s'" "busy_apps (st_db s) = []" by auto
qed


lemma removed_rows:
  assumes "remove_non_primary_record db n = (db', True)" and "domains_ok db" and "get_record db name = Some t" and "n_name t = n"
    and "lower n = n"
  shows "\<not> n_is_primary t" and "domains db' = filter (\<lambda>r. n_name r \<noteq> n) (domains db)"
proof -
  have inj: "distinct (map n_name (domains db))" using assms(2) by (simp add: domains_ok_def)
  obtain r where r: "r \<in> set (domains db)" "n_name r = n" "\<not> n_is_primary r"
    using assms(1,5) by (auto simp: remove_non_primary_record_def Let_def table_simps)
  moreover have "t \<in> set (domains db)" using assms(3) by (auto simp: get_record_def dest: find_SomeD)
  ultimately have t: "t = r" using inj assms(4) by (metis distinct_map inj_onD)
  then show "\<not> n_is_primary t" using r by simp
  have "n_name x = n \<and> \<not> n_is_primary x \<longleftrightarrow> n_name x = n" if "x \<in> set (domains db)" for x
    using inj r that by (metis distinct_map inj_onD)
  then have "filter (\<lambda>x. \<not> (n_name x = n \<and> \<not> n_is_primary x)) (domains db) = filter (\<lambda>r. n_name r \<noteq> n) (domains db)"
    by (intro filter_cong) auto
  then show "domains db' = filter (\<lambda>r. n_name r \<noteq> n) (domains db)"
    using assms(1,5) by (auto simp: remove_non_primary_record_def Let_def delete_rows_def)
qed

lemma stop_serving_facts:
  assumes "stop_serving e name d s = (Inr (), s')"
  shows "st_db s' = st_db s"
    and "is_mdns d \<Longrightarrow> ms_domains (st_mdns s') = map name_no_port (filter is_mdns (effective_domains (st_db s)))"
    and "\<not> is_mdns d \<Longrightarrow> \<not> is_local_only name \<Longrightarrow> \<not> disabled (ts_dns (st_tls s)) \<Longrightarrow>
           normalize_zone name \<notin> set (dp_zones (ts_dns (st_tls s')))"
  using assms zone_set_changes(2) [of name "ts_dns (st_tls s)" "de_dns e" "de_writes e"] update_listens(1)
  by (auto simp: stop_serving_def update_responder_def with_dns_of_def split: if_splits prod.splits sum.splits)

text \<open>A domain that was removed is gone everywhere: it was not the primary one, no row answers to its
  name, there is still exactly one primary domain, no zone is served for it, and the responder publishes
  the domains that are left.\<close>

lemma removed_domain_is_gone:
  assumes "remove_domain e c path_name s = (Inr (infos, tasks), s')" and "domains_ok (st_db s)"
    and "list_all (\<lambda>r. lower (n_name r) = n_name r) (domains (st_db s))"
  shows "let name = lower (py_strip path_name) in
     \<exists>t. get_record (st_db s) name = Some t \<and> \<not> n_is_primary t \<and>
       domains (st_db s') = filter (\<lambda>r. n_name r \<noteq> n_name t) (domains (st_db s)) \<and> domains_ok (st_db s') \<and>
       (if is_mdns (to_domain t)
        then ms_domains (st_mdns s') = map name_no_port (filter is_mdns (effective_domains (st_db s')))
        else is_local_only name \<or> disabled (ts_dns (st_tls s)) \<or> normalize_zone name \<notin> set (dp_zones (ts_dns (st_tls s'))))"
proof -
  let ?name = "lower (py_strip path_name)"
  obtain t where t: "get_record (st_db s) ?name = Some t"
    using assms(1) by (auto simp: remove_domain_def owner_only_def Let_def split: sum.splits option.splits)
  have "t \<in> set (domains (st_db s))" using t by (auto simp: get_record_def dest: find_SomeD)
  then have lower: "lower (n_name t) = n_name t" using assms(3) by (simp add: list_all_iff)
  obtain db' where db': "remove_non_primary_record (st_db s) (n_name t) = (db', True)"
    using assms(1) t by (auto simp: remove_domain_def owner_only_def Let_def split: sum.splits prod.splits bool.splits)
  obtain s1 where s1: "stop_serving e ?name (to_domain t) (with_db_of db' s) = (Inr (), s1)" and "s' = s1"
    using assms(1) t db' by (auto simp: remove_domain_def owner_only_def Let_def split: sum.splits prod.splits)
  have "domains_ok db'" using domains_ok_remove_non_primary [OF assms(2), of "n_name t"] db' by simp
  moreover have "st_db (with_db_of db' s) = db'" "ts_dns (st_tls (with_db_of db' s)) = ts_dns (st_tls s)"
    by (simp_all add: with_db_of_def)
  ultimately show ?thesis
    using removed_rows [OF db' assms(2) t refl lower] stop_serving_facts [OF s1] t \<open>s' = s1\<close>
    by (auto simp: Let_def)
qed

section \<open>Concrete instances\<close>

definition demo_domain_env :: domain_env where
  "demo_domain_env = \<lparr>de_auth = demo_auth_env, de_cfg = demo_tls_config, de_tls = demo_tls_env, de_dns = demo_world,
     de_writes = [], de_can_listen = True, de_interfaces = [1], de_joining = (\<lambda>i. Joined), de_agent_resets = True,
     de_others = (\<lambda>s. s)\<rparr>"

definition demo_domain_conn :: conn where
  "demo_domain_conn = demo_conn [(''sec-fetch-site'', ''same-origin'')]"

definition demo_instance :: "domain_row list \<Rightarrow> instance_state" where
  "demo_instance rows = \<lparr>st_tls = \<lparr>ts_db = demo_web_db\<lparr>domains := rows, apps := []\<rparr>, ts_dns = demo_provider, ts_files = Map.empty,
       ts_caddy = \<lparr>cs_active = None, cs_caddyfile = []\<rparr>\<rparr>,
     st_mdns = \<lparr>ms_domains = [], ms_listening = False, ms_joined = {}\<rparr>,
     st_shutdown_pending = False, st_operation_active = False\<rparr>"

definition plain_row :: "string \<Rightarrow> bool \<Rightarrow> domain_row" where
  "plain_row name primary = \<lparr>n_name = name, n_tls = False, n_is_primary = primary, n_cert_status = CertActive, n_error_message = None\<rparr>"

lemma demo_domain_owner: "require_owner_auth demo_auth_env demo_domain_conn (demo_web_db\<lparr>domains := rows, apps := []\<rparr>) = Inr ()"
proof -
  have "header_get [(''sec-fetch-site'', ''same-origin'')] ''Sec-Fetch-Site'' = Some ''same-origin''" by code_simp
  then have "is_safe_for_cookie_auth demo_auth_env demo_domain_conn False = Inr True"
    by (simp add: is_safe_for_cookie_auth_def is_safe_for_cookie_auth_http_def demo_domain_conn_def demo_conn_def)
  moreover have "cookie_user demo_auth_env demo_domain_conn (demo_web_db\<lparr>domains := rows, apps := []\<rparr>) = Some (AuthenticatedUser 1 ''owner'')"
    by (simp add: cookie_user_def session_cookie_def demo_domain_conn_def demo_conn_def SESSION_COOKIE_NAME_def non_empty_def
        validate_session_token_def find_session_def demo_auth_env_def demo_web_db_def demo_auth_db_def)
  ultimately show ?thesis by (simp add: require_owner_auth_def verify_owner_auth_iff)
qed

lemma add_domain_outcome_witness:
  "\<exists>r s'. add_domain demo_domain_env demo_domain_conn '' B.local '' False (demo_instance [plain_row ''a.local'' True]) = (r, s') \<and>
     map n_name (domains (st_db s')) = [''a.local'', ''b.local'']"
proof -
  let ?s = "demo_instance [plain_row ''a.local'' True]"
  obtain r s' where r: "add_domain demo_domain_env demo_domain_conn '' B.local '' False ?s = (r, s')" by fastforce
  have name: "lower (py_strip '' B.local '') = ''b.local''" "lower ''b.local'' = ''b.local''" by code_simp+
  have db: "st_db ?s = demo_web_db\<lparr>domains := [plain_row ''a.local'' True], apps := []\<rparr>" by (simp add: demo_instance_def)
  have valid: "validate_new_domain (mk_domain ''b.local'' False) (st_db ?s) = None" unfolding db by code_simp
  have auth: "require_owner_auth (de_auth demo_domain_env) demo_domain_conn (st_db ?s) = Inr ()"
    unfolding db using demo_domain_owner by (simp add: demo_domain_env_def)
  have "st_db s' = (st_db ?s)\<lparr>domains := domains (st_db ?s) @ [new_domain_row (mk_domain ''b.local'' False)]\<rparr>"
    using add_domain_outcome [OF r] unfolding Let_def name auth valid by simp
  then have "map n_name (domains (st_db s')) = [''a.local'', ''b.local'']"
    unfolding db by (simp add: plain_row_def new_domain_row_def mk_domain_def name)
  with r show ?thesis by (intro exI [of _ r] exI [of _ s'] conjI)
qed


lemma removed_domain_is_gone_witness:
  "\<exists>ds tasks s'. remove_domain demo_domain_env demo_domain_conn ''b.org'' (demo_instance [plain_row ''a.org'' True, plain_row ''b.org'' False]) =
     (Inr (ds, tasks), s') \<and> domains_ok (st_db s')"
proof -
  let ?s = "demo_instance [plain_row ''a.org'' True, plain_row ''b.org'' False]"
  have "case remove_domain demo_domain_env demo_domain_conn ''b.org'' ?s of (Inr (ds, tasks), s') \<Rightarrow> True | _ \<Rightarrow> False"
    by code_simp
  then obtain ds tasks s' where r: "remove_domain demo_domain_env demo_domain_conn ''b.org'' ?s = (Inr (ds, tasks), s')"
    by (auto split: prod.splits sum.splits)
  have "domains_ok (st_db ?s)" "list_all (\<lambda>r. lower (n_name r) = n_name r) (domains (st_db ?s))" by code_simp+
  from removed_domain_is_gone [OF r this] r show ?thesis by (auto simp: Let_def)
qed

end
