(* ===== verification/ArchiveRoutes.thy ===== *)
theory ArchiveRoutes
  imports ArchiveMigration DomainRoutes
begin

text \<open>
  \<open>web/routes/api/archive_backend.py\<close>: the owner looks at the archive, tests a bucket, and configures one; the
  apps that use the archive are stopped around the migration. The instance's restart flag and operation lock are
  part of the state; what other requests do while the worker waits is an argument.
\<close>

record 'w archive_site =
  as_arch :: "'w archive_state"
  as_shutdown_pending :: bool
  as_operation_active :: bool

record 'w archive_env =
  av_auth :: auth_env
  av_cfg :: config
  av_ops :: "'w archive_ops"
  av_host :: host
  av_foreign_keys :: bool
  av_contents :: "s3_client \<Rightarrow> string \<Rightarrow> string \<Rightarrow> (string \<times> int option) list option"
  av_show_time :: "int \<Rightarrow> string"
  av_others :: "'w archive_site \<Rightarrow> 'w archive_site"

record configure_request =
  cr_s3_bucket :: string
  cr_s3_access_key_id :: string
  cr_s3_secret_access_key :: string
  cr_s3_region :: string
  cr_s3_endpoint :: string
  cr_s3_prefix :: string
  cr_juicefs_volume_name :: string
  cr_confirm_migrate_local :: bool
  cr_confirm_migrate_s3 :: bool

datatype archive_route_error =
    ArcUnauthorized auth_error
  | ArcRestartPending
  | ConfirmMigrateLocal "string list"
  | ConfirmMigrateS3 "string option"
  | ArcInvalid string
  | ArcUnreachable string
  | ArcBusy
  | ArcAlreadyConfigured string
  | ArcFailed string
  | ArcServerError

text \<open>The response: the row without the secret.\<close>

record archive_view_response =
  rs_backend :: string
  rs_s3_bucket :: "string option"
  rs_s3_region :: "string option"
  rs_s3_endpoint :: "string option"
  rs_s3_prefix :: "string option"
  rs_s3_access_key_id :: "string option"
  rs_juicefs_volume_name :: string
  rs_configured_at :: "string option"
  rs_state_message :: "string option"
  rs_archive_dir :: "string option"
  rs_meta_db_path :: string
  rs_meta_dumps :: "dump_summary option"
  rs_local_archive_apps :: "string list"

definition state_to_response :: "archive_row \<Rightarrow> string option \<Rightarrow> string \<Rightarrow> dump_summary option \<Rightarrow> string list \<Rightarrow> archive_view_response" where
  "state_to_response row archive_dir meta_db_path meta_dumps local_apps =
     \<lparr>rs_backend = b_backend row, rs_s3_bucket = b_s3_bucket row, rs_s3_region = b_s3_region row,
      rs_s3_endpoint = b_s3_endpoint row, rs_s3_prefix = b_s3_prefix row, rs_s3_access_key_id = b_s3_access_key_id row,
      rs_juicefs_volume_name = b_juicefs_volume_name row, rs_configured_at = b_configured_at row,
      rs_state_message = b_state_message row, rs_archive_dir = archive_dir, rs_meta_db_path = meta_db_path,
      rs_meta_dumps = meta_dumps, rs_local_archive_apps = local_apps\<rparr>"

definition owner_of_archive :: "'w archive_env \<Rightarrow> conn \<Rightarrow> 'w archive_site
    \<Rightarrow> (archive_route_error + 'a) \<times> 'w archive_site \<Rightarrow> (archive_route_error + 'a) \<times> 'w archive_site" where
  "owner_of_archive e c s handled =
     (case require_owner_auth (av_auth e) c (ar_db (as_arch s)) of Inl x \<Rightarrow> (Inl (ArcUnauthorized x), s) | Inr u \<Rightarrow> handled)"

definition site_row :: "'w archive_site \<Rightarrow> archive_row" where
  "site_row s = read_state (ar_row (as_arch s))"

definition local_apps_of :: "'w archive_env \<Rightarrow> 'w archive_site \<Rightarrow> string list" where
  "local_apps_of e s = local_archive_apps_with_data (av_ops e) (av_cfg e) (ar_row (as_arch s)) (ar_world (as_arch s))"

section \<open>Looking\<close>

definition meta_dumps_of :: "'w archive_env \<Rightarrow> archive_row \<Rightarrow> dump_summary option" where
  "meta_dumps_of e row =
     (case (b_backend row = ''s3'', non_empty (b_s3_bucket row), non_empty (b_s3_access_key_id row), non_empty (b_s3_secret_access_key row)) of
        (True, Some bucket, Some ak, Some sk) \<Rightarrow>
          list_meta_dumps (av_show_time e)
            (av_contents e (s3_client_for (b_s3_region row) (b_s3_endpoint row) ak sk) bucket (dump_prefix (b_juicefs_volume_name row)))
      | _ \<Rightarrow> None)"

definition get_archive_backend :: "'w archive_env \<Rightarrow> conn \<Rightarrow> 'w archive_site
    \<Rightarrow> (archive_route_error + archive_view_response) \<times> 'w archive_site" where
  "get_archive_backend e c s = owner_of_archive e c s
     (let row = site_row s in
      (Inr (state_to_response row
         (if b_backend row \<in> {''s3'', ''local''} then Some (app_archive_dir (av_cfg e)) else None)
         (juicefs_meta_db (av_cfg e)) (meta_dumps_of e row)
         (if b_backend row = ''local'' then local_apps_of e s else [])), s))"

section \<open>Testing\<close>

text \<open>None is the ValueError.\<close>

definition normalise_s3_prefix :: "string option \<Rightarrow> string option option" where
  "normalise_s3_prefix raw =
     (case map_option py_strip raw of
        None \<Rightarrow> Some None
      | Some cleaned \<Rightarrow>
          if cleaned = [] then Some None else if is_volume_name cleaned then Some (Some cleaned) else None)"

definition stripped :: "string \<Rightarrow> string option" where
  "stripped s = non_empty (Some (py_strip s))"

definition INVALID_PREFIX :: string where
  "INVALID_PREFIX = ''invalid s3_prefix: s3_prefix must be 3-63 characters of [a-z0-9-] (lowercase only, ''
     @ ''no leading/trailing dash); it doubles as the JuiceFS volume name.''"

definition test_connection :: "'w archive_env \<Rightarrow> conn \<Rightarrow> configure_request \<Rightarrow> 'w archive_site \<Rightarrow> (archive_route_error + unit) \<times> 'w archive_site" where
  "test_connection e c data s = owner_of_archive e c s
     (case normalise_s3_prefix (non_empty (Some (cr_s3_prefix data))) of
        None \<Rightarrow> (Inl (ArcInvalid INVALID_PREFIX), s)
      | Some p \<Rightarrow>
          (case test_s3_credentials (av_ops e) (cr_s3_bucket data) (stripped (cr_s3_region data)) (stripped (cr_s3_endpoint data))
              (cr_s3_access_key_id data) (cr_s3_secret_access_key data) (ar_world (as_arch s)) of
             Some error \<Rightarrow> (Inl (ArcUnreachable error), s)
           | None \<Rightarrow> (Inr (), s)))"

section \<open>Configuring\<close>

text \<open>The callback; what it stopped is recorded also where it raises.\<close>

definition quiesce_apps :: "'w archive_env \<Rightarrow> ('w, unit) archive_prog" where
  "quiesce_apps e s =
     (case stop_running_archive_apps (av_host e) (ar_quiesced s) (ar_sys s) of
        (r, recorded, sys') \<Rightarrow>
          (case r of Inl x \<Rightarrow> Inl (OtherRaised (h_text (av_host e) x)) | Inr ids \<Rightarrow> Inr (),
           s\<lparr>ar_sys := sys', ar_quiesced := recorded\<rparr>))"

definition requested_place :: "configure_request \<Rightarrow> s3_place" where
  "requested_place data = \<lparr>sp_bucket = cr_s3_bucket data, sp_region = stripped (cr_s3_region data),
     sp_endpoint = stripped (cr_s3_endpoint data), sp_access_key_id = cr_s3_access_key_id data,
     sp_secret_access_key = cr_s3_secret_access_key data\<rparr>"

text \<open>The host as the launch of an app finds it now.\<close>

definition host_now :: "'w archive_env \<Rightarrow> 'w archive_state \<Rightarrow> host" where
  "host_now e s = (av_host e)\<lparr>h_archive_backend := b_backend (read_state (ar_row s)),
     h_archive_mounted := is_mounted (av_ops e) (app_archive_dir (av_cfg e)) (ar_world s)\<rparr>"

definition restart_quiesced :: "'w archive_env \<Rightarrow> ('w, unit) archive_prog" where
  "restart_quiesced e = changing (\<lambda>s.
     if ar_quiesced s \<noteq> [] \<and> is_mounted (av_ops e) (app_archive_dir (av_cfg e)) (ar_world s)
     then s\<lparr>ar_sys := restart_apps_by_id (av_cfg e) (host_now e s) (av_foreign_keys e) (ar_quiesced s) (ar_sys s)\<rparr>
     else s)"

text \<open>\<open>_run\<close>, the worker thread.\<close>

definition run_configure :: "'w archive_env \<Rightarrow> configure_request \<Rightarrow> string option \<Rightarrow> ('w, unit) archive_prog" where
  "run_configure e data prefix_arg =
     and_then (changing (\<lambda>s. s\<lparr>ar_quiesced := []\<rparr>)) (\<lambda>_.
     and_then (reading (\<lambda>s. b_backend (read_state (ar_row s)) \<in> {''local'', ''s3''})) (\<lambda>migrating.
     finally_do
       (configure_backend (av_ops e) (av_cfg e) (requested_place data) prefix_arg (stripped (cr_juicefs_volume_name data))
          (if migrating then quiesce_apps e else returning ()))
       (restart_quiesced e)))"

text \<open>The operation under the lock, after what others did meanwhile.\<close>

definition configure_operation :: "'w archive_env \<Rightarrow> configure_request \<Rightarrow> string option \<Rightarrow> 'w archive_site
    \<Rightarrow> (archive_route_error + unit) \<times> 'w archive_site" where
  "configure_operation e data prefix_arg s =
     (if as_shutdown_pending s then (Inl ArcRestartPending, s)
      else (case run_configure e data prefix_arg (as_arch s) of
          (r, arch) \<Rightarrow>
            ((case r of
                Inr u \<Rightarrow> Inr ()
              | Inl (RuntimeRaised m) \<Rightarrow> Inl (if contains_str m ''already configured'' then ArcAlreadyConfigured m else ArcFailed m)
              | Inl (OtherRaised m) \<Rightarrow> Inl ArcServerError), s\<lparr>as_arch := arch\<rparr>)))"

definition exclusively :: "('w archive_site \<Rightarrow> 'w archive_site) \<Rightarrow> ('w archive_site \<Rightarrow> (archive_route_error + 'a) \<times> 'w archive_site)
    \<Rightarrow> 'w archive_site \<Rightarrow> (archive_route_error + 'a) \<times> 'w archive_site" where
  "exclusively others operation s =
     (if as_operation_active s then (Inl ArcBusy, s)
      else (case operation (others (s\<lparr>as_operation_active := True\<rparr>)) of
          (r, s1) \<Rightarrow> (r, s1\<lparr>as_operation_active := False\<rparr>)))"

definition configure_archive_backend :: "'w archive_env \<Rightarrow> conn \<Rightarrow> configure_request \<Rightarrow> 'w archive_site
    \<Rightarrow> (archive_route_error + archive_view_response) \<times> 'w archive_site" where
  "configure_archive_backend e c data s = owner_of_archive e c s
     (let row = site_row s; local_apps = (if b_backend row = ''local'' then local_apps_of e s else []) in
      if as_shutdown_pending s then (Inl ArcRestartPending, s)
      else if local_apps \<noteq> [] \<and> \<not> cr_confirm_migrate_local data then (Inl (ConfirmMigrateLocal local_apps), s)
      else if b_backend row = ''s3'' \<and> \<not> cr_confirm_migrate_s3 data then (Inl (ConfirmMigrateS3 (b_s3_bucket row)), s)
      else (case normalise_s3_prefix (non_empty (Some (cr_s3_prefix data))) of
          None \<Rightarrow> (Inl (ArcInvalid INVALID_PREFIX), s)
        | Some prefix_arg \<Rightarrow>
            (case exclusively (av_others e) (configure_operation e data prefix_arg) s of
               (Inl x, s1) \<Rightarrow> (Inl x, s1)
             | (Inr u, s1) \<Rightarrow>
                 (let row1 = site_row s1 in
                  (Inr (state_to_response row1 (if b_backend row1 = ''s3'' then Some (app_archive_dir (av_cfg e)) else None)
                     (juicefs_meta_db (av_cfg e)) None []), s1)))))"

section \<open>Facts\<close>

lemma quiesce_quiet: "quiet_prog V (quiesce_apps e)" "quiet_prog V (if b then quiesce_apps e else returning ())"
  by (auto simp: quiet_prog_def quiesce_apps_def returning_def split: prod.splits)

lemma restart_keeps_archive: "ar_row (snd (restart_quiesced e s)) = ar_row s" "ar_world (snd (restart_quiesced e s)) = ar_world s"
  "fst (restart_quiesced e s) = Inr ()"
  by (simp_all add: restart_quiesced_def changing_def)

text \<open>A migration under the route ends as \<open>configure_backend\<close> does, apps restarted or not.\<close>

lemma run_configure_step:
  fixes e :: "'w archive_env"
  assumes laws: "archive_laws (av_ops e) (av_cfg e) V"
    and ready: "\<And>q. quiet_prog V q \<Longrightarrow> migration_ready (av_ops e) (av_cfg e) V q (requested_place data) prefix_arg
      (stripped (cr_juicefs_volume_name data)) source n (s\<lparr>ar_quiesced := []\<rparr>)"
  shows "wp (run_configure e data prefix_arg) (\<lambda>_. settled (av_cfg e) V s source (requested_place data) n)
     (\<lambda>_. put_back (av_cfg e) V s source (requested_place data) n) s"
proof -
  let ?s = "s\<lparr>ar_quiesced := []\<rparr>" let ?dst = "requested_place data"
  have same: "settled (av_cfg e) V ?s source ?dst n t = settled (av_cfg e) V s source ?dst n t"
    "put_back (av_cfg e) V ?s source ?dst n t = put_back (av_cfg e) V s source ?dst n t" for t
    by (simp_all add: settled_def put_back_def)
  have restart: "settled (av_cfg e) V s source ?dst n (snd (restart_quiesced e t)) = settled (av_cfg e) V s source ?dst n t"
    "put_back (av_cfg e) V s source ?dst n (snd (restart_quiesced e t)) = put_back (av_cfg e) V s source ?dst n t" for t
    by (simp_all add: settled_def put_back_def restart_keeps_archive)
  have after: "wp (restart_quiesced e) (\<lambda>_. I) E t = I (snd (restart_quiesced e t))" for I E t
    using restart_keeps_archive(3) [of e t] by (auto simp: wp_def split: prod.splits)
  show ?thesis
    unfolding run_configure_def wp_and_then wp_basic wp_finally_do after restart
    by (rule wp_mono [OF configure_step [OF laws ready [OF quiesce_quiet(2)]]]) (simp_all add: same)
qed

lemma exclusively_cases:
  assumes "exclusively others operation s = (r, s')"
  obtains (busy) "as_operation_active s" and "r = Inl ArcBusy" and "s' = s"
  | (ran) s1 where "\<not> as_operation_active s" and "operation (others (s\<lparr>as_operation_active := True\<rparr>)) = (r, s1)"
      and "s' = s1\<lparr>as_operation_active := False\<rparr>"
  using assms by (auto simp: exclusively_def split: if_splits prod.splits)

section \<open>Properties\<close>

text \<open>Configuring the archive does nothing unless the owner asks, the instance is not restarting, no other
  exclusive operation runs, and the migration is confirmed where there is data to move: on S3 always, on the local
  disk when an app has data there. However it ends, the operation lock is free again if it was taken.\<close>

lemma archive_configure_is_guarded:
  assumes "configure_archive_backend e c data s = (r, s')" and "as_arch s' \<noteq> as_arch s \<or> r = Inr view"
  shows "require_owner_auth (av_auth e) c (ar_db (as_arch s)) = Inr () \<and>
    \<not> as_shutdown_pending s \<and> \<not> as_operation_active s \<and> \<not> as_operation_active s' \<and>
    (b_backend (site_row s) = ''s3'' \<longrightarrow> cr_confirm_migrate_s3 data) \<and>
    (local_apps_of e s \<noteq> [] \<longrightarrow> cr_confirm_migrate_local data)"
proof -
  have changed: "(r, s') \<noteq> (Inl x, s)" for x using assms(2) by auto
  have auth: "require_owner_auth (av_auth e) c (ar_db (as_arch s)) = Inr ()"
    using assms(1) changed by (auto simp: configure_archive_backend_def owner_of_archive_def split: sum.splits)
  have local: "local_apps_of e s = []" if "b_backend (site_row s) \<noteq> ''local''"
    using that by (simp add: local_apps_of_def local_archive_apps_with_data_def site_row_def Let_def)
  obtain prefix_arg q s1 where op: "exclusively (av_others e) (configure_operation e data prefix_arg) s = (q, s1)" "s' = s1"
    and guards: "\<not> as_shutdown_pending s" "b_backend (site_row s) = ''s3'' \<longrightarrow> cr_confirm_migrate_s3 data"
      "local_apps_of e s \<noteq> [] \<longrightarrow> cr_confirm_migrate_local data"
    and q: "q = Inl ArcBusy \<Longrightarrow> r = Inl ArcBusy"
    using assms(1) changed local
    by (auto simp: configure_archive_backend_def owner_of_archive_def auth Let_def split: if_splits option.splits prod.splits sum.splits)
  from op(1) show ?thesis
  proof (cases rule: exclusively_cases)
    case busy
    then show ?thesis using q op(2) changed by blast
  next
    case (ran s2)
    then show ?thesis using auth guards op(2) by simp
  qed
qed

section \<open>A concrete instance\<close>

definition demo_request :: configure_request where
  "demo_request = \<lparr>cr_s3_bucket = ''archive'', cr_s3_access_key_id = ''AK'', cr_s3_secret_access_key = ''SK'', cr_s3_region = [],
     cr_s3_endpoint = [], cr_s3_prefix = ''shared'', cr_juicefs_volume_name = [], cr_confirm_migrate_local = False,
     cr_confirm_migrate_s3 = False\<rparr>"

definition demo_archive_env :: "demo_world archive_env" where
  "demo_archive_env = \<lparr>av_auth = demo_auth_env, av_cfg = demo_config, av_ops = demo_archive_ops, av_host = demo_host_env,
     av_foreign_keys = True, av_contents = (\<lambda>_ _ _. None), av_show_time = (\<lambda>_. []), av_others = id\<rparr>"

text \<open>An instance from before there was an archive.\<close>

definition demo_site :: "demo_world archive_site" where
  "demo_site = \<lparr>as_arch = (demo_archive ''x'')\<lparr>ar_row := Some ((read_state None)\<lparr>b_backend := ''disabled''\<rparr>),
     ar_sys := \<lparr>sdb = demo_web_db\<lparr>domains := [], apps := []\<rparr>, containers = []\<rparr>,
     ar_world := (ar_world (demo_archive ''x''))\<lparr>dw_volume := None, dw_mounted := False\<rparr>\<rparr>,
     as_shutdown_pending = False, as_operation_active = False\<rparr>"

lemma demo_run_configure:
  "map_option b_backend (ar_row (snd (run_configure demo_archive_env demo_request (Some ''shared'') (as_arch demo_site)))) = Some ''s3''"
  by code_simp

lemma archive_configure_is_guarded_witness:
  "\<exists>r s'. configure_archive_backend demo_archive_env demo_domain_conn demo_request demo_site = (r, s') \<and>
     as_arch s' \<noteq> as_arch demo_site \<and> \<not> as_operation_active s'"
proof -
  obtain r s' where s': "configure_archive_backend demo_archive_env demo_domain_conn demo_request demo_site = (r, s')" by fastforce
  have norm: "normalise_s3_prefix (non_empty (Some (cr_s3_prefix demo_request))) = Some (Some ''shared'')" by code_simp
  have auth: "require_owner_auth (av_auth demo_archive_env) demo_domain_conn (ar_db (as_arch demo_site)) = Inr ()"
    using demo_domain_owner [of "[]"] by (simp add: demo_archive_env_def demo_site_def)
  have site: "site_row demo_site = (read_state None)\<lparr>b_backend := ''disabled''\<rparr>" "\<not> as_shutdown_pending demo_site"
    "\<not> as_operation_active demo_site" "av_others demo_archive_env = id"
    by (simp_all add: demo_site_def site_row_def read_state_def DEFAULT_VOLUME_NAME_def demo_archive_env_def)
  have "as_arch s' = snd (run_configure demo_archive_env demo_request (Some ''shared'') (as_arch demo_site))"
    using s' by (auto simp: configure_archive_backend_def owner_of_archive_def auth norm site Let_def exclusively_def
        configure_operation_def split: prod.splits sum.splits)
  then have "ar_row (as_arch s') \<noteq> ar_row (as_arch demo_site)"
    using demo_run_configure by (auto simp: demo_site_def)
  then have changed: "as_arch s' \<noteq> as_arch demo_site" by auto
  then have "as_arch s' \<noteq> as_arch demo_site \<or> r = Inr undefined" by blast
  from archive_configure_is_guarded [OF s' this] s' changed show ?thesis by blast
qed

end
