(* ===== verification/Proxy.thy ===== *)
theory Proxy
  imports WebAuth
begin

text \<open>
  \<open>web/helpers/proxy.py\<close>, \<open>web/helpers/app_starting.py\<close>, \<open>web/helpers/zone.py\<close> and
  \<open>web/middleware/subdomain_proxy.py\<close>: what the router forwards to an app, and the dispatch of a
  request by its host name. The backend's answer is an argument.
\<close>

section \<open>Headers that are forwarded\<close>

definition STRIPPED_COOKIES :: "string list" where
  "STRIPPED_COOKIES = [SESSION_COOKIE_NAME]"

definition OPENHOST_HEADER_PREFIX :: string where
  "OPENHOST_HEADER_PREFIX = ''x-openhost-''"

definition is_stripped_cookie :: "string \<Rightarrow> bool" where
  "is_stripped_cookie part = list_ex (\<lambda>name. startswith (py_strip part) (name @ ''='')) STRIPPED_COOKIES"

definition sanitize_cookie :: "string \<Rightarrow> string" where
  "sanitize_cookie v =
     join_with ''; '' (map py_strip (filter (\<lambda>part. \<not> is_stripped_cookie part) (split_on CHR '';'' v)))"

fun sanitize_forwarded_headers :: "bool \<Rightarrow> (string \<times> string) list \<Rightarrow> (string \<times> string) list" where
  "sanitize_forwarded_headers strip_authorization [] = []"
| "sanitize_forwarded_headers strip_authorization ((key, v) # hs) =
     (let rest = sanitize_forwarded_headers strip_authorization hs in
      if startswith (lower key) OPENHOST_HEADER_PREFIX then rest
      else if lower key = ''authorization'' \<and> strip_authorization then rest
      else if lower key = ''cookie''
      then (if sanitize_cookie v = [] then rest else (key, sanitize_cookie v) # rest)
      else (key, v) # rest)"

definition build_forwarded_request_headers ::
    "auth_env \<Rightarrow> db \<Rightarrow> (string \<times> string) list \<Rightarrow> string list \<Rightarrow> (string \<times> string) list
       \<Rightarrow> (string \<times> string) list" where
  "build_forwarded_request_headers e db hs proto_excluded_headers extra_headers =
     filter (\<lambda>(k, v). lower k \<notin> set proto_excluded_headers)
       (sanitize_forwarded_headers (carries_openhost_credential e db hs) hs) @ extra_headers"

definition HTTP_REQUEST_EXCLUDED_HEADERS :: "string list" where
  "HTTP_REQUEST_EXCLUDED_HEADERS =
     [''host'', ''connection'', ''transfer-encoding'', ''accept-encoding'', ''x-forwarded-for'',
      ''x-forwarded-proto'', ''x-forwarded-host'']"

definition HTTP_RESPONSE_EXCLUDED_HEADERS :: "string list" where
  "HTTP_RESPONSE_EXCLUDED_HEADERS =
     [''content-encoding'', ''content-length'', ''content-type'', ''transfer-encoding'', ''connection'']"

definition WS_REQUEST_EXCLUDED_HEADERS :: "string list" where
  "WS_REQUEST_EXCLUDED_HEADERS =
     [''host'', ''connection'', ''upgrade'', ''sec-websocket-key'', ''sec-websocket-version'',
      ''sec-websocket-extensions'', ''sec-websocket-protocol'', ''x-forwarded-for'',
      ''x-forwarded-proto'', ''x-forwarded-host'']"

definition BUFFER_THRESHOLD :: int where
  "BUFFER_THRESHOLD = 512000"

text \<open>None is the \<open>UnicodeDecodeError\<close> of a raw path that is not ASCII.\<close>

definition format_proxy_request_url :: "string \<Rightarrow> string \<Rightarrow> string \<Rightarrow> string option \<Rightarrow> string option" where
  "format_proxy_request_url raw_path query base_url override_path =
     (case (case non_empty override_path of
              Some p \<Rightarrow> Some p
            | None \<Rightarrow> if list_all is_ascii raw_path then Some raw_path else None) of
        None \<Rightarrow> None
      | Some path \<Rightarrow>
          (let target_url = base_url @ ''/'' @ dropWhile (\<lambda>c. c = CHR ''/'') path in
           Some (if query = [] then target_url else target_url @ ''?'' @ query)))"

section \<open>HTTP\<close>

text \<open>What \<open>client.send\<close> can do, and what the client of the router receives.\<close>

datatype backend_answer =
    BackendConnectError
  | BackendTimeout
  | BackendTransportError
  | BackendResponse int "(string \<times> string) list" string

datatype proxied =
    PlainText int string
  | Buffered int "string option" "(string \<times> string) list" string
  | Streamed int "string option" "(string \<times> string) list" string
  | ProxyRaised

record backend_request =
  br_method :: string
  br_url :: string
  br_headers :: "(string \<times> string) list"
  br_content :: "string option"

text \<open>
  The request that is built. \<open>messages\<close> are the ASGI messages \<open>receive\<close> yields: a body chunk with
  its \<open>more_body\<close> flag, or a disconnect (None).
\<close>

fun read_body :: "(string \<times> bool) option list \<Rightarrow> string" where
  "read_body [] = []"
| "read_body (None # ms) = []"
| "read_body (Some (chunk, more_body) # ms) = chunk @ (if more_body then read_body ms else [])"

definition build_backend_request ::
    "auth_env \<Rightarrow> db \<Rightarrow> conn \<Rightarrow> string \<Rightarrow> (string \<times> bool) option list \<Rightarrow> string option
       \<Rightarrow> (string \<times> string) list \<Rightarrow> backend_request option" where
  "build_backend_request e db c base_url messages override_path extra_headers =
     (case format_proxy_request_url (case cn_raw_path c of Some p \<Rightarrow> p | None \<Rightarrow> []) (cn_query c) base_url override_path of
        None \<Rightarrow> None
      | Some url \<Rightarrow>
          (let has_declared_body = header_get (cn_headers c) ''content-length'' \<noteq> None
                 \<or> header_get (cn_headers c) ''transfer-encoding'' \<noteq> None
           in Some \<lparr>br_method = cn_method c, br_url = url,
                br_headers = build_forwarded_request_headers e db (cn_headers c) HTTP_REQUEST_EXCLUDED_HEADERS extra_headers,
                br_content = if has_declared_body then Some (read_body messages) else None\<rparr>))"

definition proxy_response :: "backend_answer \<Rightarrow> proxied" where
  "proxy_response answer =
     (case answer of
        BackendConnectError \<Rightarrow> PlainText 502 ''App is not responding''
      | BackendTimeout \<Rightarrow> PlainText 504 ''App timed out''
      | BackendTransportError \<Rightarrow> PlainText 502 ''App disconnected unexpectedly''
      | BackendResponse status hs body \<Rightarrow>
          (let media_type = header_get hs ''Content-Type'';
               new_headers = filter (\<lambda>(k, v). lower k \<notin> set HTTP_RESPONSE_EXCLUDED_HEADERS) hs
           in case header_get hs ''content-length'' of
                None \<Rightarrow> Streamed status media_type new_headers body
              | Some l \<Rightarrow>
                  (case parse_int l of
                     None \<Rightarrow> ProxyRaised
                   | Some n \<Rightarrow>
                       if n \<le> BUFFER_THRESHOLD then Buffered status media_type new_headers body
                       else Streamed status media_type new_headers body)))"

definition proxy_http_request ::
    "auth_env \<Rightarrow> db \<Rightarrow> conn \<Rightarrow> string \<Rightarrow> (string \<times> bool) option list \<Rightarrow> string option
       \<Rightarrow> (string \<times> string) list \<Rightarrow> (backend_request \<Rightarrow> backend_answer) \<Rightarrow> proxied" where
  "proxy_http_request e db c base_url messages override_path extra_headers backend =
     (case build_backend_request e db c base_url messages override_path extra_headers of
        None \<Rightarrow> ProxyRaised
      | Some request \<Rightarrow> proxy_response (backend request))"

section \<open>WebSocket close codes\<close>

definition UNSENDABLE_CLOSE_CODES :: "int list" where
  "UNSENDABLE_CLOSE_CODES = [1005, 1006, 1015]"

text \<open>The code sent to the backend when the client closes (None: nothing is sent by hand), and to the
  client when the backend closed.\<close>

definition close_to_backend :: "int \<Rightarrow> int option" where
  "close_to_backend code = (if code \<in> set UNSENDABLE_CLOSE_CODES then None else Some code)"

definition close_to_client :: "int option \<Rightarrow> int option" where
  "close_to_client backend_close_code =
     (case backend_close_code of
        None \<Rightarrow> None
      | Some code \<Rightarrow> Some (if code \<in> set UNSENDABLE_CLOSE_CODES then 1011 else code))"

definition websocket_subprotocols :: "(string \<times> string) list \<Rightarrow> string list option" where
  "websocket_subprotocols hs =
     map_option (\<lambda>s. map py_strip (split_on CHR '','' s)) (non_empty (header_get hs ''Sec-WebSocket-Protocol''))"

section \<open>The coming-up page\<close>

datatype starting_response = StartingEmpty | StartingText | StartingPage string

definition router_base_url :: "domain \<Rightarrow> string \<Rightarrow> string" where
  "router_base_url zone netloc = scheme zone @ ''://'' @ host_with_request_port (name_no_port zone) netloc"

definition app_starting_response :: "conn \<Rightarrow> domain \<Rightarrow> string \<Rightarrow> starting_response" where
  "app_starting_response c zone netloc =
     (let is_navigation = (case header_get (cn_headers c) ''sec-fetch-mode'' of
            Some mode \<Rightarrow> mode = ''navigate''
          | None \<Rightarrow> lower (py_strip (before_char CHR '',''
                (case header_get (cn_headers c) ''accept'' of None \<Rightarrow> [] | Some a \<Rightarrow> a))) = ''text/html'')
      in if cn_method c \<noteq> ''GET'' \<or> \<not> is_navigation
         then (if cn_method c = ''HEAD'' then StartingEmpty else StartingText)
         else StartingPage (router_base_url zone netloc))"

section \<open>Dispatch\<close>

datatype outcome =
    ToRouter "domain option"
  | HttpStatus int
  | WsClose int
  | AuthPage auth_response
  | Starting503 starting_response
  | ForwardHttp int "(string \<times> string) list"
  | ForwardWs int "(string \<times> string) list"

definition ROUTER_INTERNAL_HOSTS :: "string list" where
  "ROUTER_INTERNAL_HOSTS = [ROUTER_GATEWAY_HOST, DOCKER_COMPAT_HOST, ROUTER_LOOPBACK_HOST]"

definition IS_OWNER_HEADER :: "string \<times> string" where
  "IS_OWNER_HEADER = (''X-OpenHost-Is-Owner'', ''true'')"

definition ROUTER_URL_HEADER :: string where
  "ROUTER_URL_HEADER = ''X-OpenHost-Router-URL''"

definition LOOPBACK_HOSTS :: "string list" where
  "LOOPBACK_HOSTS = [''127.0.0.1'', ''::1'']"

definition resolve_forwarded_for :: "conn \<Rightarrow> string option" where
  "resolve_forwarded_for c =
     (case cn_client c of
        None \<Rightarrow> None
      | Some peer \<Rightarrow>
          (case (if peer \<in> set LOOPBACK_HOSTS then non_empty (header_get (cn_headers c) ''x-forwarded-for'') else None) of
             Some inbound \<Rightarrow> Some inbound
           | None \<Rightarrow> Some peer))"

definition send_not_found :: "conn \<Rightarrow> outcome" where
  "send_not_found c = (if cn_kind c = HttpConn then HttpStatus 404 else WsClose 4404)"

definition send_internal_error :: "conn \<Rightarrow> outcome" where
  "send_internal_error c = (if cn_kind c = HttpConn then HttpStatus 500 else WsClose 1011)"

definition send_bad_request :: "conn \<Rightarrow> outcome" where
  "send_bad_request c = (if cn_kind c = HttpConn then HttpStatus 400 else WsClose 1002)"

text \<open>
  The column holds whatever the manifest had under \<open>routing.public_paths\<close>, which nothing checks.
  A false value is no public path, a string or a table is iterated like a list, and None stands for
  a value on which the membership tests raise.
\<close>

definition app_public_paths :: "pyval \<Rightarrow> string list option" where
  "app_public_paths v =
     (if \<not> truthy v then Some []
      else (case (py_iter v :: unit py_exn + pyval list) of
          Inl _ \<Rightarrow> None
        | Inr vs \<Rightarrow> if list_all (\<lambda>x. as_str x \<noteq> None) vs then Some (map (\<lambda>x. the (as_str x)) vs) else None))"

definition forwarding_headers :: "conn \<Rightarrow> domain \<Rightarrow> string \<Rightarrow> (string \<times> string) list" where
  "forwarding_headers c zone netloc =
     [(''X-Forwarded-Host'', netloc), (''X-Forwarded-Proto'', scheme zone),
      (ROUTER_URL_HEADER, router_base_url zone netloc)]
     @ (case non_empty (resolve_forwarded_for c) of Some f \<Rightarrow> [(''X-Forwarded-For'', f)] | None \<Rightarrow> [])"

definition forward_to_app ::
    "auth_env \<Rightarrow> conn \<Rightarrow> db \<Rightarrow> domain \<Rightarrow> string \<Rightarrow> app_row \<Rightarrow> (string \<times> string) list \<Rightarrow> outcome" where
  "forward_to_app e c db zone netloc app extra_headers =
     (if a_status app \<in> {Building, Starting}
      then (if cn_kind c = HttpConn then Starting503 (app_starting_response c zone netloc) else WsClose 1013)
      else if cn_kind c = HttpConn
      then ForwardHttp (a_local_port app)
             (build_forwarded_request_headers e db (cn_headers c) HTTP_REQUEST_EXCLUDED_HEADERS
                (extra_headers @ [(''Host'', netloc)]))
      else ForwardWs (a_local_port app)
             (build_forwarded_request_headers e db (cn_headers c) WS_REQUEST_EXCLUDED_HEADERS extra_headers))"

definition refuse_access :: "conn \<Rightarrow> domain \<Rightarrow> string \<Rightarrow> auth_error \<Rightarrow> outcome" where
  "refuse_access c zone netloc exc =
     (if cn_kind c = HttpConn
      then AuthPage (auth_required_response (cn_method c) zone netloc (cn_path c) (cn_query c) exc)
      else WsClose 4401)"

definition dispatch_app :: "auth_env \<Rightarrow> conn \<Rightarrow> db \<Rightarrow> domain \<Rightarrow> string \<Rightarrow> app_row \<Rightarrow> outcome" where
  "dispatch_app e c db zone netloc app =
     (let extra_headers = forwarding_headers c zone netloc in
      case verify_owner_auth e c db True of
        Inr _ \<Rightarrow> forward_to_app e c db zone netloc app (extra_headers @ [IS_OWNER_HEADER])
      | Inl exc \<Rightarrow>
          (case app_public_paths (a_public_paths app) of
             None \<Rightarrow> send_internal_error c
           | Some public_paths \<Rightarrow>
               if (case cn_raw_path c of
                     None \<Rightarrow> True
                   | Some raw \<Rightarrow> public_paths = [] \<or> \<not> is_public_request_path public_paths raw)
               then (if public_paths = [] \<and> exc \<noteq> NavigationConfirmation then send_not_found c
                     else refuse_access c zone netloc exc)
               else forward_to_app e c db zone netloc app extra_headers))"

definition dispatch :: "auth_env \<Rightarrow> conn \<Rightarrow> db \<Rightarrow> outcome" where
  "dispatch e c db =
     (if cn_kind c = OtherConn then ToRouter None
      else (case cn_netloc c of
          None \<Rightarrow> send_bad_request c
        | Some netloc \<Rightarrow>
            (case domain_match db netloc of
               None \<Rightarrow> if lower (before_char CHR '':'' netloc) \<in> set ROUTER_INTERNAL_HOSTS then ToRouter None
                       else send_not_found c
             | Some zone \<Rightarrow>
                 (case get_app_from_hostname netloc db of
                    None \<Rightarrow> if looks_like_app_subdomain zone netloc then send_not_found c
                            else ToRouter (Some zone)
                  | Some app \<Rightarrow> dispatch_app e (c\<lparr>cn_zone := Some zone\<rparr>) db zone netloc app))))"

section \<open>Facts\<close>

lemma sanitize_drops_identity:
  "(k, v) \<in> set (sanitize_forwarded_headers b hs) \<Longrightarrow> \<not> startswith (lower k) OPENHOST_HEADER_PREFIX"
  by (induction hs) (auto simp: Let_def split: if_splits)

lemma sanitize_drops_authorization:
  "(k, v) \<in> set (sanitize_forwarded_headers True hs) \<Longrightarrow> lower k \<noteq> ''authorization''"
  by (induction hs) (auto simp: Let_def split: if_splits)

lemma sanitize_cookie_header:
  "(k, v) \<in> set (sanitize_forwarded_headers b hs) \<Longrightarrow> lower k = ''cookie'' \<Longrightarrow>
     \<exists>raw. (k, raw) \<in> set hs \<and> v = sanitize_cookie raw"
  by (induction hs) (auto simp: Let_def split: if_splits, blast+)

lemma sanitize_keeps_rest:
  assumes "\<not> startswith (lower k) OPENHOST_HEADER_PREFIX" and "lower k \<noteq> ''authorization''" and "lower k \<noteq> ''cookie''"
  shows "(k, v) \<in> set (sanitize_forwarded_headers b hs) \<longleftrightarrow> (k, v) \<in> set hs"
  using assms by (induction hs) (auto simp: Let_def split: if_splits)

text \<open>The pieces of a joined cookie string: none of them is a session cookie.\<close>

lemma dropWhile_hd: "dropWhile P s \<noteq> [] \<Longrightarrow> \<not> P (hd (dropWhile P s))"
  by (induction s) auto

lemma py_strip_ends:
  assumes "py_strip s \<noteq> []"
  shows "\<not> is_space_char (hd (py_strip s)) \<and> \<not> is_space_char (last (py_strip s))"
proof -
  let ?l = "dropWhile is_space_char s"
  let ?r = "dropWhile is_space_char (rev ?l)"
  have r: "?r \<noteq> []" using assms by (simp add: py_strip_def)
  have last: "last (py_strip s) = hd ?r" using r by (simp add: py_strip_def last_rev)
  have l: "?l \<noteq> []" using r by (metis dropWhile.simps(1) rev.simps(1))
  obtain pre where "rev ?l = pre @ ?r" by (metis takeWhile_dropWhile_id)
  then have "?l = rev ?r @ rev pre" by (metis rev_append rev_rev_ident)
  then have "hd ?l = hd (rev ?r)" using r by (metis hd_append2 rev_is_Nil_conv)
  then have "hd (py_strip s) = hd ?l" by (simp add: py_strip_def)
  then show ?thesis using last dropWhile_hd [OF r] dropWhile_hd [OF l] by simp
qed

lemma py_strip_id:
  assumes "s = [] \<or> (\<not> is_space_char (hd s) \<and> \<not> is_space_char (last s))"
  shows "py_strip s = s"
proof (cases "s = []")
  case False
  have "dropWhile is_space_char s = s" using assms False by (cases s) auto
  moreover have "dropWhile is_space_char (rev s) = rev s" using assms False by (cases "rev s") (auto simp: hd_rev [symmetric])
  ultimately show ?thesis by (simp add: py_strip_def)
qed (simp add: py_strip_def)

lemma py_strip_idem [simp]: "py_strip (py_strip s) = py_strip s"
  using py_strip_ends by (intro py_strip_id) blast

lemma py_strip_blank: "py_strip (CHR '' '' # s) = py_strip s"
  by (simp add: py_strip_def is_space_char_def)

lemma py_strip_subset: "set (py_strip s) \<subseteq> set s"
  by (auto simp: py_strip_def dest!: set_dropWhileD)

lemma split_join_cookies:
  assumes "\<forall>p\<in>set ps. CHR '';'' \<notin> set p" and "ps \<noteq> []"
  shows "map py_strip (split_on CHR '';'' (join_with ''; '' ps)) = map py_strip ps"
  using assms
proof (induction "''; ''" ps rule: join_with.induct)
  case (3 p q qs)
  have "split_on CHR '';'' (join_with ''; '' (p # q # qs)) =
      p # split_on CHR '';'' (CHR '' '' # join_with ''; '' (q # qs))"
    using 3 by (simp add: split_on_append)
  moreover obtain y ys where y: "split_on CHR '';'' (join_with ''; '' (q # qs)) = y # ys"
    by (cases "split_on CHR '';'' (join_with ''; '' (q # qs))") auto
  ultimately show ?case using 3 by (simp add: py_strip_blank)
qed (simp_all add: split_on_free)

lemma sanitize_cookie_clean:
  assumes "part \<in> set (split_on CHR '';'' (sanitize_cookie v))"
  shows "\<not> is_stripped_cookie part"
proof -
  let ?ps = "map py_strip (filter (\<lambda>part. \<not> is_stripped_cookie part) (split_on CHR '';'' v))"
  show ?thesis
  proof (cases "?ps = []")
    case True
    then have "part = []" using assms by (simp add: sanitize_cookie_def)
    then show ?thesis by (simp add: is_stripped_cookie_def STRIPPED_COOKIES_def SESSION_COOKIE_NAME_def
        py_strip_def startswith_def)
  next
    case False
    have "\<forall>p\<in>set ?ps. CHR '';'' \<notin> set p"
      using split_on_sep_free py_strip_subset by fastforce
    from split_join_cookies [OF this False]
    have "py_strip part \<in> set (map py_strip (split_on CHR '';'' (sanitize_cookie v)))"
      using assms by simp
    then have "py_strip part \<in> set (map py_strip ?ps)"
      using \<open>map py_strip (split_on CHR '';'' (join_with ''; '' ?ps)) = map py_strip ?ps\<close>
      unfolding sanitize_cookie_def by (rule back_subst [where P = "\<lambda>xs. _ \<in> set xs"])
    then obtain q where "q \<in> set (split_on CHR '';'' v)" "\<not> is_stripped_cookie q" "py_strip part = py_strip q"
      by auto
    then show ?thesis by (simp add: is_stripped_cookie_def)
  qed
qed

fun forwarded :: "outcome \<Rightarrow> (int \<times> (string \<times> string) list) option" where
  "forwarded (ForwardHttp port hs) = Some (port, hs)"
| "forwarded (ForwardWs port hs) = Some (port, hs)"
| "forwarded _ = None"

lemma forward_to_app_cases:
  assumes "forwarded (forward_to_app e c db zone netloc app extra) = Some (port, hs)"
  shows "port = a_local_port app \<and> a_status app \<notin> {Building, Starting} \<and>
    (\<exists>ex tail_hs. hs = build_forwarded_request_headers e db (cn_headers c) ex (extra @ tail_hs) \<and>
       ex \<in> {HTTP_REQUEST_EXCLUDED_HEADERS, WS_REQUEST_EXCLUDED_HEADERS} \<and> set tail_hs \<subseteq> {(''Host'', netloc)})"
proof -
  have ready: "a_status app \<notin> {Building, Starting}"
    using assms by (auto simp: forward_to_app_def split: if_splits)
  show ?thesis
  proof (cases "cn_kind c = HttpConn")
    case True
    with assms ready have "port = a_local_port app"
      "hs = build_forwarded_request_headers e db (cn_headers c) HTTP_REQUEST_EXCLUDED_HEADERS (extra @ [(''Host'', netloc)])"
      by (simp_all add: forward_to_app_def)
    with ready show ?thesis by fastforce
  next
    case False
    with assms ready have "port = a_local_port app"
      "hs = build_forwarded_request_headers e db (cn_headers c) WS_REQUEST_EXCLUDED_HEADERS (extra @ [])"
      by (simp_all add: forward_to_app_def)
    with ready show ?thesis by fastforce
  qed
qed

lemma forwarded_send [simp]:
  "forwarded (send_not_found c) = None" "forwarded (send_internal_error c) = None"
  "forwarded (send_bad_request c) = None" "forwarded (refuse_access c zone netloc exc) = None"
  by (simp_all add: send_not_found_def send_internal_error_def send_bad_request_def refuse_access_def)

text \<open>How a request comes to be forwarded: by an owner, or to a public path.\<close>

lemma dispatch_app_forwarded:
  assumes "forwarded (dispatch_app e c db zone netloc app) = Some (port, hs)"
  obtains "verify_owner_auth e c db True = Inr ()"
      "forwarded (forward_to_app e c db zone netloc app (forwarding_headers c zone netloc @ [IS_OWNER_HEADER])) = Some (port, hs)"
  | pps raw where "verify_owner_auth e c db True \<noteq> Inr ()"
      "app_public_paths (a_public_paths app) = Some pps" "cn_raw_path c = Some raw" "is_public_request_path pps raw"
      "forwarded (forward_to_app e c db zone netloc app (forwarding_headers c zone netloc)) = Some (port, hs)"
  using assms
  by (cases "verify_owner_auth e c db True")
    (auto simp: dispatch_app_def Let_def split: option.splits if_splits)

lemma dispatch_forwarded:
  assumes "forwarded (dispatch e c db) = Some (port, hs)"
  obtains netloc zone app where "cn_netloc c = Some netloc" "domain_match db netloc = Some zone"
      "get_app_from_hostname netloc db = Some app"
      "forwarded (dispatch_app e (c\<lparr>cn_zone := Some zone\<rparr>) db zone netloc app) = Some (port, hs)"
  using assms by (auto simp: dispatch_def split: option.splits if_splits)

lemma header_names_lower:
  "lower ''X-OpenHost-Is-Owner'' = ''x-openhost-is-owner''" "lower ''X-OpenHost-Router-URL'' = ''x-openhost-router-url''"
  "lower ''X-Forwarded-Host'' = ''x-forwarded-host''" "lower ''X-Forwarded-Proto'' = ''x-forwarded-proto''"
  "lower ''X-Forwarded-For'' = ''x-forwarded-for''" "lower ''Host'' = ''host''"
  by code_simp+

text \<open>The headers the router adds itself.\<close>

lemma forwarding_header_cases:
  assumes "(k, v) \<in> set (forwarding_headers c zone netloc @ owner @ tail_hs)"
    and "set owner \<subseteq> {IS_OWNER_HEADER}" and "set tail_hs \<subseteq> {(''Host'', netloc)}"
  shows "(k, v) \<in> set owner \<or> (k, v) = (ROUTER_URL_HEADER, router_base_url zone netloc) \<or>
    (lower k \<in> {''x-forwarded-host'', ''x-forwarded-proto'', ''host''}) \<or>
    (lower k = ''x-forwarded-for'' \<and> resolve_forwarded_for c = Some v)"
  using assms
  by (auto simp: forwarding_headers_def header_names_lower non_empty_def split: option.splits if_splits)

definition clean_headers :: "auth_env \<Rightarrow> conn \<Rightarrow> db \<Rightarrow> domain \<Rightarrow> string \<Rightarrow> bool \<Rightarrow> string \<times> string \<Rightarrow> bool" where
  "clean_headers e c db zone netloc owner h \<longleftrightarrow>
     (startswith (lower (fst h)) OPENHOST_HEADER_PREFIX \<longrightarrow>
        (owner \<and> h = IS_OWNER_HEADER) \<or> h = (ROUTER_URL_HEADER, router_base_url zone netloc)) \<and>
     (lower (fst h) = ''cookie'' \<longrightarrow>
        (\<forall>part\<in>set (split_on CHR '';'' (snd h)). \<not> startswith (py_strip part) ''session_token='')) \<and>
     (lower (fst h) = ''authorization'' \<longrightarrow> \<not> carries_openhost_credential e db (cn_headers c)) \<and>
     (lower (fst h) = ''x-forwarded-for'' \<longrightarrow> resolve_forwarded_for c = Some (snd h))"

lemma clean_headers_zone [simp]: "clean_headers e (c\<lparr>cn_zone := z\<rparr>) = clean_headers e c"
proof -
  have "resolve_forwarded_for (c\<lparr>cn_zone := z\<rparr>) = resolve_forwarded_for c"
    by (cases "cn_client c") (simp_all add: resolve_forwarded_for_def)
  then show ?thesis by (intro ext) (simp add: clean_headers_def)
qed

lemma build_headers_clean:
  assumes "h \<in> set (build_forwarded_request_headers e db (cn_headers c) ex (forwarding_headers c zone netloc @ owner_hs @ tail_hs))"
    and "ex \<in> {HTTP_REQUEST_EXCLUDED_HEADERS, WS_REQUEST_EXCLUDED_HEADERS}"
    and "set owner_hs \<subseteq> {IS_OWNER_HEADER}" and "set tail_hs \<subseteq> {(''Host'', netloc)}"
  shows "clean_headers e c db zone netloc (owner_hs \<noteq> []) h"
proof -
  obtain k v where h: "h = (k, v)" by (cases h)
  consider "(k, v) \<in> set (sanitize_forwarded_headers (carries_openhost_credential e db (cn_headers c)) (cn_headers c))"
      "lower k \<notin> set ex"
    | "(k, v) \<in> set (forwarding_headers c zone netloc @ owner_hs @ tail_hs)"
    using assms(1) unfolding h build_forwarded_request_headers_def by auto
  then show ?thesis
  proof cases
    case 1
    have "lower k \<noteq> ''x-forwarded-for''" using 1(2) assms(2)
      by (auto simp: HTTP_REQUEST_EXCLUDED_HEADERS_def WS_REQUEST_EXCLUDED_HEADERS_def)
    moreover have "\<not> startswith (py_strip part) ''session_token=''"
      if "lower k = ''cookie''" "part \<in> set (split_on CHR '';'' v)" for part
      using sanitize_cookie_header [OF 1(1) that(1)] sanitize_cookie_clean that(2)
      by (auto simp: is_stripped_cookie_def STRIPPED_COOKIES_def SESSION_COOKIE_NAME_def)
    moreover have "\<not> carries_openhost_credential e db (cn_headers c)" if "lower k = ''authorization''"
      using sanitize_drops_authorization that 1(1)
      by (cases "carries_openhost_credential e db (cn_headers c)") auto
    ultimately show ?thesis
      using sanitize_drops_identity [OF 1(1)] by (simp add: clean_headers_def h)
  next
    case 2
    have prefix: "startswith (lower ''X-OpenHost-Is-Owner'') OPENHOST_HEADER_PREFIX"
      by (simp add: header_names_lower startswith_def OPENHOST_HEADER_PREFIX_def)
    from forwarding_header_cases [OF 2 assms(3,4)] consider
      "h = IS_OWNER_HEADER" "owner_hs \<noteq> []" | "h = (ROUTER_URL_HEADER, router_base_url zone netloc)"
      | "lower k \<in> {''x-forwarded-host'', ''x-forwarded-proto'', ''host''}"
      | "lower k = ''x-forwarded-for''" "resolve_forwarded_for c = Some v"
      using assms(3) unfolding h by fastforce
    then show ?thesis
      by cases (auto simp: clean_headers_def h header_names_lower IS_OWNER_HEADER_def ROUTER_URL_HEADER_def
          startswith_def OPENHOST_HEADER_PREFIX_def)
  qed
qed

section \<open>Properties\<close>

text \<open>C12. A request is forwarded to a container only through a host name of that app under the
  configured domain it matched, to that app's own port, when the app is neither building nor starting,
  and only if the owner guard accepts it or its raw path is one the app made public.\<close>

theorem dispatch_guards_apps:
  assumes "forwarded (dispatch e c db) = Some (port, hs)"
  shows "\<exists>netloc zone app. cn_netloc c = Some netloc \<and> domain_match db netloc = Some zone \<and>
    get_app_from_hostname netloc db = Some app \<and> port = a_local_port app \<and>
    a_status app \<notin> {Building, Starting} \<and>
    (verify_owner_auth e (c\<lparr>cn_zone := Some zone\<rparr>) db True = Inr () \<or>
     (\<exists>pps raw. app_public_paths (a_public_paths app) = Some pps \<and> cn_raw_path c = Some raw \<and>
        is_public_request_path pps raw))"
proof -
  obtain netloc zone app where d: "cn_netloc c = Some netloc" "domain_match db netloc = Some zone"
      "get_app_from_hostname netloc db = Some app"
      "forwarded (dispatch_app e (c\<lparr>cn_zone := Some zone\<rparr>) db zone netloc app) = Some (port, hs)"
    using assms by (rule dispatch_forwarded)
  from d(4) show ?thesis
    by (cases rule: dispatch_app_forwarded) (use d forward_to_app_cases in \<open>fastforce+\<close>)
qed

text \<open>C13. An app can trust what the router tells it about a request. Among the forwarded headers the
  owner header is present exactly when the owner guard accepted the request; any other \<open>X-OpenHost-*\<close>
  header is the router's own URL; no cookie is a session cookie; \<open>Authorization\<close> is dropped if it
  carries any credential of this router; and \<open>X-Forwarded-For\<close> is what the router determined.\<close>

theorem forwarded_headers_trustworthy:
  assumes "forwarded (dispatch e c db) = Some (port, hs)"
  shows "\<exists>netloc zone. domain_match db netloc = Some zone \<and> cn_netloc c = Some netloc \<and>
    (let owner = (verify_owner_auth e (c\<lparr>cn_zone := Some zone\<rparr>) db True = Inr ()) in
     (IS_OWNER_HEADER \<in> set hs \<longleftrightarrow> owner) \<and> list_all (clean_headers e c db zone netloc owner) hs)"
proof -
  obtain netloc zone app where d: "cn_netloc c = Some netloc" "domain_match db netloc = Some zone"
      "forwarded (dispatch_app e (c\<lparr>cn_zone := Some zone\<rparr>) db zone netloc app) = Some (port, hs)"
    using assms by (rule dispatch_forwarded)
  let ?c = "c\<lparr>cn_zone := Some zone\<rparr>"
  let ?owner = "verify_owner_auth e ?c db True = Inr ()"
  let ?hs = "if ?owner then [IS_OWNER_HEADER] else []"
  have "forwarded (forward_to_app e ?c db zone netloc app (forwarding_headers ?c zone netloc @ ?hs)) = Some (port, hs)"
    using d(3) by (cases rule: dispatch_app_forwarded) auto
  then obtain ex tail_hs where hs: "hs = build_forwarded_request_headers e db (cn_headers ?c) ex
        ((forwarding_headers ?c zone netloc @ ?hs) @ tail_hs)"
      "ex \<in> {HTTP_REQUEST_EXCLUDED_HEADERS, WS_REQUEST_EXCLUDED_HEADERS}" "set tail_hs \<subseteq> {(''Host'', netloc)}"
    using forward_to_app_cases by blast
  have "clean_headers e c db zone netloc ?owner h" if "h \<in> set hs" for h
    using build_headers_clean [of h e db ?c ex zone netloc ?hs tail_hs] that hs by (auto split: if_splits)
  then have clean: "list_all (clean_headers e c db zone netloc ?owner) hs"
    by (simp add: list_all_iff)
  have "IS_OWNER_HEADER \<in> set hs" if "?owner"
    using that unfolding hs(1) build_forwarded_request_headers_def by simp
  moreover have "?owner" if "IS_OWNER_HEADER \<in> set hs"
  proof (rule ccontr)
    assume "\<not> ?owner"
    with clean that have "IS_OWNER_HEADER = (ROUTER_URL_HEADER, router_base_url zone netloc)"
      by (auto simp: list_all_iff clean_headers_def IS_OWNER_HEADER_def header_names_lower startswith_def
          OPENHOST_HEADER_PREFIX_def)
    then show False by (simp add: IS_OWNER_HEADER_def ROUTER_URL_HEADER_def)
  qed
  ultimately show ?thesis using d clean by (auto simp: Let_def)
qed

text \<open>C14. A fully private app is invisible to strangers: what an unauthenticated request to its host
  gets is exactly what it would get if the app were not installed.\<close>

theorem private_app_hidden:
  assumes "db_ok db" and "cn_netloc c = Some netloc" and "domain_match db netloc = Some zone"
    and "get_app_from_hostname netloc db = Some app" and "app_public_paths (a_public_paths app) = Some []"
    and "verify_owner_auth e (c\<lparr>cn_zone := Some zone\<rparr>) db True = Inl exc" and "exc \<noteq> NavigationConfirmation"
  shows "dispatch e c db = dispatch e c (delete_app_cascade (a_app_id app) db)"
proof -
  let ?db = "delete_app_cascade (a_app_id app) db"
  obtain n where n: "app_name_from_hostname zone netloc = Some n" "find_app_by_name db n = Some app"
    using assms(3,4) by (auto simp: get_app_from_hostname_def split: option.splits)
  have zone: "domain_match ?db netloc = Some zone"
    using assms(3) by (simp add: domain_match_def effective_domains_def load_records_def delete_app_cascade_def)
  have app: "app \<in> set (apps db)" "a_name app = n"
    using n(2) by (auto simp: find_app_by_name_def dest: find_SomeD)
  have "inj_on a_name (set (apps db))"
    using assms(1) by (simp add: db_ok_def apps_ok_def distinct_map)
  then have "a_name r \<noteq> n" if "r \<in> set (apps db)" "a_app_id r \<noteq> a_app_id app" for r
    using that app by (auto dest: inj_onD)
  then have "find_app_by_name ?db n = None"
    by (auto simp: find_app_by_name_def find_None_iff delete_app_cascade_def delete_rows_def)
  then have none: "get_app_from_hostname netloc ?db = None"
    using zone n(1) by (simp add: get_app_from_hostname_def)
  have looks: "looks_like_app_subdomain zone netloc"
    using n(1) by (simp add: app_name_from_hostname_def split: if_splits)
  have "dispatch_app e (c\<lparr>cn_zone := Some zone\<rparr>) db zone netloc app = send_not_found (c\<lparr>cn_zone := Some zone\<rparr>)"
    using assms(5-7) by (simp add: dispatch_app_def split: option.splits)
  then show ?thesis
    using assms(2-4) zone none looks by (simp add: dispatch_def send_not_found_def)
qed

text \<open>
  A manifest whose \<open>public_paths\<close> is a string such as \<open>"/api"\<close> instead of a list is accepted, and the
  membership test for \<open>"/"\<close> then finds the character, so the whole app is served without a login.
\<close>

lemma string_public_paths_expose_app:
  "\<exists>pps. app_public_paths (PStr ''/api'') = Some pps \<and> is_public_request_path pps raw"
  by (simp add: app_public_paths_def is_public_request_path_def)

text \<open>
  The identity headers are matched with a hyphen only: a name with underscores, which CGI-style servers
  map to the same variable, is forwarded as the client sent it.
\<close>

lemma underscore_identity_header_forwarded:
  "sanitize_forwarded_headers True [(''X_OpenHost_Is_Owner'', ''true'')] = [(''X_OpenHost_Is_Owner'', ''true'')]"
  by code_simp

section \<open>Concrete instances\<close>

lemma demo_route:
  "domain_match demo_web_db ''notes.example.com'' = Some \<lparr>dn_name = ''example.com'', dn_tls = True\<rparr>"
  "get_app_from_hostname ''notes.example.com'' demo_web_db = Some (demo_app ''A1'' ''notes'' 9000 Running)"
  by code_simp+

lemma demo_navigation_forwarded:
  "\<exists>hs. dispatch demo_auth_env (demo_conn navigation_headers) demo_web_db = ForwardHttp 9000 hs"
proof -
  let ?zone = "\<lparr>dn_name = ''example.com'', dn_tls = True\<rparr>"
  let ?c = "demo_conn navigation_headers\<lparr>cn_zone := Some ?zone\<rparr>"
  have "is_safe_for_cookie_auth demo_auth_env ?c True = Inr True"
    by (simp add: is_safe_for_cookie_auth_def is_safe_for_cookie_auth_http_def demo_conn_def navigation_header_values)
  moreover have "cookie_user demo_auth_env ?c demo_web_db \<noteq> None"
    using demo_cookie_user [of navigation_headers] by (simp add: cookie_user_def session_cookie_def)
  ultimately have "verify_owner_auth demo_auth_env ?c demo_web_db True = Inr ()"
    by (simp add: verify_owner_auth_iff)
  then show ?thesis
    by (simp add: dispatch_def demo_conn_def demo_route dispatch_app_def forward_to_app_def)
      (simp add: demo_app_def)
qed

lemma dispatch_guards_apps_witness:
  "\<exists>zone app. domain_match demo_web_db ''notes.example.com'' = Some zone \<and>
     get_app_from_hostname ''notes.example.com'' demo_web_db = Some app \<and> a_local_port app = 9000"
proof -
  obtain hs where "dispatch demo_auth_env (demo_conn navigation_headers) demo_web_db = ForwardHttp 9000 hs"
    using demo_navigation_forwarded by blast
  then have "forwarded (dispatch demo_auth_env (demo_conn navigation_headers) demo_web_db) = Some (9000, hs)"
    by simp
  from dispatch_guards_apps [OF this] show ?thesis by (auto simp: demo_conn_def)
qed

lemma forwarded_headers_trustworthy_witness:
  "\<exists>hs zone owner. dispatch demo_auth_env (demo_conn navigation_headers) demo_web_db = ForwardHttp 9000 hs \<and>
     (IS_OWNER_HEADER \<in> set hs \<longleftrightarrow> owner) \<and>
     list_all (clean_headers demo_auth_env (demo_conn navigation_headers) demo_web_db zone ''notes.example.com'' owner) hs"
proof -
  obtain hs where d: "dispatch demo_auth_env (demo_conn navigation_headers) demo_web_db = ForwardHttp 9000 hs"
    using demo_navigation_forwarded by blast
  then have "forwarded (dispatch demo_auth_env (demo_conn navigation_headers) demo_web_db) = Some (9000, hs)"
    by simp
  from forwarded_headers_trustworthy [OF this] d show ?thesis
    unfolding Let_def by (auto simp: demo_conn_def)
qed

lemma demo_auth_route:
  "domain_match demo_auth_db ''notes.example.com'' = Some \<lparr>dn_name = ''example.com'', dn_tls = True\<rparr>"
  "get_app_from_hostname ''notes.example.com'' demo_auth_db = Some (demo_app ''A1'' ''notes'' 9000 Running)"
  by code_simp+

lemma private_app_hidden_witness:
  "dispatch demo_auth_env (demo_conn app_headers\<lparr>cn_cookies := []\<rparr>) demo_auth_db =
   dispatch demo_auth_env (demo_conn app_headers\<lparr>cn_cookies := []\<rparr>) (delete_app_cascade ''A1'' demo_auth_db)"
proof -
  let ?zone = "\<lparr>dn_name = ''example.com'', dn_tls = True\<rparr>"
  let ?c = "demo_conn app_headers\<lparr>cn_cookies := []\<rparr>"
  let ?app = "demo_app ''A1'' ''notes'' 9000 Running"
  have b: "\<not> bearer_api_token demo_auth_env (?c\<lparr>cn_zone := Some ?zone\<rparr>) demo_auth_db"
    "cookie_user demo_auth_env (?c\<lparr>cn_zone := Some ?zone\<rparr>) demo_auth_db = None"
    by (simp_all add: bearer_api_token_def validate_api_token_def cookie_user_def session_cookie_def non_empty_def
        demo_auth_db_def demo_db_def empty_db_def split: option.splits)
  then obtain exc where exc: "verify_owner_auth demo_auth_env (?c\<lparr>cn_zone := Some ?zone\<rparr>) demo_auth_db True = Inl exc"
    by (cases "verify_owner_auth demo_auth_env (?c\<lparr>cn_zone := Some ?zone\<rparr>) demo_auth_db True")
      (auto simp: verify_owner_auth_iff)
  have "exc \<noteq> NavigationConfirmation"
    using exc b(2) by (rule_tac authenticate_cases [of demo_auth_env "?c\<lparr>cn_zone := Some ?zone\<rparr>" demo_auth_db])
      (auto simp: verify_owner_auth_def)
  from private_app_hidden [OF demo_auth_db_ok _ demo_auth_route _ exc this]
  have "dispatch demo_auth_env ?c demo_auth_db = dispatch demo_auth_env ?c (delete_app_cascade (a_app_id ?app) demo_auth_db)"
    by (simp add: demo_conn_def app_public_paths_def demo_app_def)
  then show ?thesis by (simp add: demo_app_def)
qed

end
