(* ===== verification/ServiceRoutes.thy ===== *)
theory ServiceRoutes
  imports Proxy DefaultApps PyFloat
begin

text \<open>
  Calls between apps and the routes around them: \<open>web/routes/services_v2.py\<close>,
  \<open>web/routes/api/services_v2.py\<close>, \<open>web/routes/api/permissions_v2.py\<close> and the headers of
  \<open>core/service_interface/headers.py\<close>. What a provider answers is an argument; so are \<open>json.loads\<close>,
  the reading of a version specifier (\<open>packaging\<close>) and the header mapping of Litestar.
\<close>

record service_env =
  sx_auth :: auth_env
  sx_manifest :: manifest_env
  sx_spec :: spec_env
  sx_rank :: "string \<Rightarrow> rat"
  sx_specifier :: "pyval \<Rightarrow> string option"
  sx_float :: "rat \<Rightarrow> string"
  sx_loads :: "string \<Rightarrow> pyval option"
  sx_items :: "(string \<times> string) list \<Rightarrow> (string \<times> string) list"

datatype service_route_error =
    SvcUnauthorized auth_error
  | Forbidden
  | ShortnameNotFound service_error
  | ServiceNotAvailable provider_error
  | SvcInvalid
  | SvcNotFound
  | SvcDenied
  | SvcServerError

section \<open>CORS\<close>

definition is_origin_host_char :: "char \<Rightarrow> bool" where
  "is_origin_host_char c \<longleftrightarrow> is_lower_char (lower_char c) \<or> is_digit_char c \<or> c \<in> set ''.-''"

text \<open>\<open>_CORS_ORIGIN_RE.fullmatch\<close> and the bound of the port.\<close>

definition cors_origin_hostname :: "string \<Rightarrow> string option" where
  "cors_origin_hostname origin =
     (case (if startswith (lower origin) ''https://'' then Some (drop 8 origin)
            else if startswith (lower origin) ''http://'' then Some (drop 7 origin) else None) of
        None \<Rightarrow> None
      | Some authority \<Rightarrow>
          (let hostname = takeWhile is_origin_host_char authority;
               tail = dropWhile is_origin_host_char authority;
               port = tl tail
           in if hostname = [] then None
              else if tail = [] then Some (lower hostname)
              else if hd tail = CHR '':'' \<and> py_isdigit port \<and> length port \<le> 5
              then (if 65535 < digits_value port then None else Some (lower hostname))
              else None))"

definition cors_headers :: "string \<Rightarrow> (string \<times> string) list" where
  "cors_headers origin =
     [(''Access-Control-Allow-Origin'', origin),
      (''Access-Control-Allow-Credentials'', ''true''),
      (''Access-Control-Allow-Methods'', ''GET, POST, PUT, DELETE, PATCH, OPTIONS''),
      (''Access-Control-Allow-Headers'', ''Content-Type, Authorization'')]"

definition service_call_cors :: "conn \<Rightarrow> db \<Rightarrow> service_route_error + (string \<times> string) list" where
  "service_call_cors c db =
     (case header_get (cn_headers c) ''Origin'' of
        None \<Rightarrow> Inl Forbidden
      | Some origin \<Rightarrow>
     (case cors_origin_hostname origin of
        None \<Rightarrow> Inl Forbidden
      | Some host \<Rightarrow>
     (case domain_match db host of
        None \<Rightarrow> Inl Forbidden
      | Some domain \<Rightarrow>
          if app_name_from_hostname domain host = None then Inl Forbidden else Inr (cors_headers origin))))"

section \<open>What a provider is told about its caller\<close>

definition CONSUMER_ID_HEADER :: string where
  "CONSUMER_ID_HEADER = ''X-OpenHost-Consumer-Id''"

definition CONSUMER_NAME_HEADER :: string where
  "CONSUMER_NAME_HEADER = ''X-OpenHost-Consumer-Name''"

definition PERMISSIONS_HEADER :: string where
  "PERMISSIONS_HEADER = ''X-OpenHost-Permissions''"

text \<open>\<open>json.dumps\<close> without \<open>sort_keys\<close>.\<close>

fun json_write :: "(rat \<Rightarrow> string) \<Rightarrow> pyval \<Rightarrow> string" where
  "json_write fr (PList xs) = ''['' @ join_with '', '' (map (json_write fr) xs) @ '']''"
| "json_write fr (PDict d) = ''{'' @ join_with '', '' (map (\<lambda>(k, v). json_string k @ '': '' @ json_write fr v) d) @ ''}''"
| "json_write fr v = json_dumps fr v"

definition permissions_value :: "(pyval \<times> string) list \<Rightarrow> pyval" where
  "permissions_value grants = PList (map (\<lambda>(g, scope). PDict [(''grant'', g), (''scope'', PStr scope)]) grants)"

definition consumer_headers ::
    "(rat \<Rightarrow> string) \<Rightarrow> string \<Rightarrow> string \<Rightarrow> (pyval \<times> string) list \<Rightarrow> (string \<times> string) list" where
  "consumer_headers fr consumer_id consumer_name granted =
     [(CONSUMER_ID_HEADER, consumer_id), (CONSUMER_NAME_HEADER, consumer_name),
      (PERMISSIONS_HEADER, json_write fr (permissions_value granted))]"

definition router_consumer_headers :: "(rat \<Rightarrow> string) \<Rightarrow> (pyval \<times> string) list \<Rightarrow> (string \<times> string) list" where
  "router_consumer_headers fr granted = consumer_headers fr ROUTER_APP_ID ROUTER_APP_NAME granted"

text \<open>\<open>json.loads\<close> of a stored grant, which \<open>grant_permission_v2\<close> wrote.\<close>

definition stored_grant :: "service_env \<Rightarrow> string \<Rightarrow> pyval" where
  "stored_grant e payload = (case sx_loads e payload of None \<Rightarrow> PNone | Some v \<Rightarrow> v)"

text \<open>None is the failed assertion that the consumer is an app.\<close>

definition app_consumer_headers ::
    "service_env \<Rightarrow> string \<Rightarrow> string \<Rightarrow> string \<Rightarrow> db \<Rightarrow> (string \<times> string) list option" where
  "app_consumer_headers e consumer_app_id service_url provider_app_id db =
     (case find_app consumer_app_id db of
        None \<Rightarrow> None
      | Some row \<Rightarrow> Some (consumer_headers (sx_float e) consumer_app_id (a_name row)
          (grants_for_provider (stored_grant e) db consumer_app_id service_url provider_app_id)))"

text \<open>\<open>urlencode\<close>: \<open>quote_plus\<close> of every value; the keys need none.\<close>

definition quote_plus :: "string \<Rightarrow> string" where
  "quote_plus s = concat (map (\<lambda>c. if c = CHR '' '' then ''+'' else quote_char c) s)"

definition approve_grant_url ::
    "service_env \<Rightarrow> string \<Rightarrow> string \<Rightarrow> pyval \<Rightarrow> db \<Rightarrow> string option \<Rightarrow> string" where
  "approve_grant_url e consumer_app_id service_url grant db browsing_netloc =
     (let approve_path = ''/approve-permissions-v2?app='' @ quote_plus consumer_app_id
            @ ''&service='' @ quote_plus service_url @ ''&grant='' @ quote_plus (json_dumps (sx_float e) grant)
      in case Option.bind (non_empty browsing_netloc) (\<lambda>n. map_option (Pair n) (domain_match db n)) of
           Some (netloc, matched) \<Rightarrow>
             scheme matched @ ''://'' @ host_with_request_port (name_no_port matched) netloc @ approve_path
         | None \<Rightarrow>
             (case primary_domain_or_none db of
                None \<Rightarrow> approve_path
              | Some primary \<Rightarrow> scheme primary @ ''://'' @ dn_name primary @ approve_path))"

section \<open>A call\<close>

record service_request =
  sq_service_url :: string
  sq_target :: proxy_target
  sq_target_path :: string
  sq_extra_headers :: "(string \<times> string) list"

definition service_call_common ::
    "service_env \<Rightarrow> string \<Rightarrow> string \<Rightarrow> string \<Rightarrow> db \<Rightarrow> string option \<Rightarrow> service_route_error + service_request" where
  "service_call_common e consumer_app_id shortname rest db provider_app_id =
     (case lookup_service_by_manifest_shortname (sx_manifest e) consumer_app_id shortname db of
        Inl (StoredManifestError x) \<Rightarrow> Inl SvcServerError
      | Inl x \<Rightarrow> Inl (ShortnameNotFound x)
      | Inr (service_url, version) \<Rightarrow>
     (case sx_specifier e version of
        None \<Rightarrow> Inl SvcServerError
      | Some version_spec \<Rightarrow>
     (case resolve_provider (sx_spec e) (sx_rank e) service_url version_spec db provider_app_id of
        Inl x \<Rightarrow> Inl (ServiceNotAvailable x)
      | Inr provider \<Rightarrow>
     (case app_consumer_headers e consumer_app_id service_url (rp_app_id provider) db of
        None \<Rightarrow> Inl SvcServerError
      | Some headers \<Rightarrow> Inr
          \<lparr>sq_service_url = service_url, sq_target = rp_target provider,
           sq_target_path = rstrip_char CHR ''/'' (rp_endpoint provider) @ ''/''
             @ dropWhile (\<lambda>c. c = CHR ''/'') rest,
           sq_extra_headers = headers\<rparr>))))"

definition BUILTIN_HOST :: string where
  "BUILTIN_HOST = ''http://builtin.openhost.internal''"

definition base_url_for :: "proxy_target \<Rightarrow> string" where
  "base_url_for target = (case target of InProcess app \<Rightarrow> BUILTIN_HOST | LocalPort port \<Rightarrow> ''http://127.0.0.1:'' @ show_int port)"

record service_answer =
  sa_status :: int
  sa_media :: "string option"
  sa_headers :: "(string \<times> string) list"
  sa_body :: string

text \<open>A streamed answer has no body to look at; None is an exception of the proxy.\<close>

fun answer_of :: "proxied \<Rightarrow> service_answer option" where
  "answer_of (PlainText status txt) = Some \<lparr>sa_status = status, sa_media = Some ''text/plain'', sa_headers = [], sa_body = txt\<rparr>"
| "answer_of (Buffered status media hs body) = Some \<lparr>sa_status = status, sa_media = media, sa_headers = hs, sa_body = body\<rparr>"
| "answer_of (Streamed status media hs body) = Some \<lparr>sa_status = status, sa_media = media, sa_headers = hs, sa_body = []\<rparr>"
| "answer_of ProxyRaised = None"

definition carry_response_headers :: "service_env \<Rightarrow> (string \<times> string) list \<Rightarrow> (string \<times> string) list" where
  "carry_response_headers e headers =
     filter (\<lambda>(k, v). lower k \<notin> {''content-length'', ''content-type''}) (sx_items e headers)"

text \<open>The grant a 403 body asks for, when it is one for every provider.\<close>

definition global_grant :: "pyval \<Rightarrow> ((string \<times> pyval) list \<times> (string \<times> pyval) list \<times> pyval) option" where
  "global_grant body =
     (case body of
        PDict d \<Rightarrow>
          (case dict_lookup d ''required_grant'' PNone of
             PDict required_grant \<Rightarrow>
               (if \<not> py_eq (dict_lookup required_grant ''scope'' (PStr ''global'')) (PStr ''global'') then None
                else (case dict_lookup required_grant ''grant'' PNone of
                    PStr s \<Rightarrow> Some (d, required_grant, PStr s)
                  | PDict g \<Rightarrow> Some (d, required_grant, PDict g)
                  | _ \<Rightarrow> None))
           | _ \<Rightarrow> None)
      | _ \<Rightarrow> None)"

definition inject_grant_url_if_global ::
    "service_env \<Rightarrow> conn \<Rightarrow> service_answer \<Rightarrow> string \<Rightarrow> string \<Rightarrow> db \<Rightarrow> service_answer" where
  "inject_grant_url_if_global e c response service_url consumer_app_id db =
     (case Option.bind (sx_loads e (sa_body response)) global_grant of
        None \<Rightarrow> response
      | Some (d, required_grant, grant) \<Rightarrow>
          (let grant_url = approve_grant_url e consumer_app_id service_url grant db (get_connection_origin (sx_auth e) c);
               body = PDict (AList.update ''required_grant''
                        (PDict (AList.update ''grant_url'' (PStr grant_url) required_grant)) d)
           in \<lparr>sa_status = 403, sa_media = Some ''application/json'',
               sa_headers = carry_response_headers e (sa_headers response), sa_body = json_write (sx_float e) body\<rparr>))"

definition add_cors_response_headers :: "conn \<Rightarrow> service_answer \<Rightarrow> service_answer" where
  "add_cors_response_headers c response =
     (case non_empty (header_get (cn_headers c) ''Origin'') of
        None \<Rightarrow> response
      | Some origin \<Rightarrow> response\<lparr>sa_headers := sa_headers response @ cors_headers origin\<rparr>)"

text \<open>\<open>service_call\<close> up to the point where the request goes out: the caller, what was resolved and the
  request the provider receives.\<close>

definition outgoing_call ::
    "service_env \<Rightarrow> conn \<Rightarrow> string \<Rightarrow> string \<Rightarrow> (string \<times> bool) option list \<Rightarrow> db
       \<Rightarrow> service_route_error + (string \<times> service_request \<times> backend_request)" where
  "outgoing_call e c shortname rest messages db =
     (case verify_app_auth (sx_auth e) c db of
        Inl x \<Rightarrow> Inl (SvcUnauthorized x)
      | Inr consumer_app_id \<Rightarrow>
     (case service_call_common e consumer_app_id shortname rest db
             (non_empty (header_get (cn_headers c) ''X-OpenHost-Provider'')) of
        Inl x \<Rightarrow> Inl x
      | Inr resolved \<Rightarrow>
     (case build_backend_request (sx_auth e) db c (base_url_for (sq_target resolved)) messages
             (Some (sq_target_path resolved)) (sq_extra_headers resolved) of
        None \<Rightarrow> Inl SvcServerError
      | Some request \<Rightarrow> Inr (consumer_app_id, resolved, request))))"

definition service_call ::
    "service_env \<Rightarrow> conn \<Rightarrow> (proxy_target \<Rightarrow> backend_request \<Rightarrow> backend_answer) \<Rightarrow> string \<Rightarrow> string
       \<Rightarrow> (string \<times> bool) option list \<Rightarrow> db \<Rightarrow> service_route_error + service_answer" where
  "service_call e c backend shortname rest messages db =
     (case outgoing_call e c shortname rest messages db of
        Inl x \<Rightarrow> Inl x
      | Inr (consumer_app_id, resolved, request) \<Rightarrow>
     (case answer_of (proxy_response (backend (sq_target resolved) request)) of
        None \<Rightarrow> Inl SvcServerError
      | Some response \<Rightarrow> Inr (add_cors_response_headers c
          (if sa_status response = 403
           then inject_grant_url_if_global e c response (sq_service_url resolved) consumer_app_id db
           else response))))"

datatype ws_call = WsCallClosed int | WsCallProxied int string "(string \<times> string) list" | WsCallRaised

definition service_call_ws :: "service_env \<Rightarrow> conn \<Rightarrow> string \<Rightarrow> string \<Rightarrow> db \<Rightarrow> ws_call" where
  "service_call_ws e c shortname rest db =
     (case verify_app_auth (sx_auth e) c db of
        Inl x \<Rightarrow> WsCallClosed 4401
      | Inr consumer_app_id \<Rightarrow>
     (case service_call_common e consumer_app_id shortname rest db
             (non_empty (header_get (cn_headers c) ''X-OpenHost-Provider'')) of
        Inl (ShortnameNotFound x) \<Rightarrow> WsCallClosed 4404
      | Inl (ServiceNotAvailable x) \<Rightarrow> WsCallClosed 4503
      | Inl x \<Rightarrow> WsCallRaised
      | Inr resolved \<Rightarrow>
     (case sq_target resolved of
        InProcess app \<Rightarrow> WsCallClosed 4503
      | LocalPort port \<Rightarrow> WsCallProxied port (sq_target_path resolved)
          (build_forwarded_request_headers (sx_auth e) db (cn_headers c) WS_REQUEST_EXCLUDED_HEADERS
             (sq_extra_headers resolved)))))"

section \<open>The owner's service and permission routes\<close>

definition owner_route :: "service_env \<Rightarrow> conn \<Rightarrow> db \<Rightarrow> (service_route_error + 'a) \<times> db \<Rightarrow> (service_route_error + 'a) \<times> db" where
  "owner_route e c db handled =
     (case require_owner_auth (sx_auth e) c db of Inl x \<Rightarrow> (Inl (SvcUnauthorized x), db) | Inr u \<Rightarrow> handled)"

definition list_services_v2 :: "service_env \<Rightarrow> conn \<Rightarrow> db \<Rightarrow> (service_route_error + service_provider list) \<times> db" where
  "list_services_v2 e c db = owner_route e c db (Inr (list_all_service_providers (sx_rank e) db None), db)"

definition discover_providers :: "service_env \<Rightarrow> conn \<Rightarrow> string \<Rightarrow> db \<Rightarrow> service_route_error + service_provider list" where
  "discover_providers e c service db =
     (case require_owner_or_app_auth (sx_auth e) c db of
        Inl x \<Rightarrow> Inl (SvcUnauthorized x)
      | Inr u \<Rightarrow> Inr (list_all_service_providers (sx_rank e) db (Some service)))"

definition set_default_route :: "service_env \<Rightarrow> conn \<Rightarrow> string \<Rightarrow> string \<Rightarrow> db \<Rightarrow> (service_route_error + unit) \<times> db" where
  "set_default_route e c service_url app_id db = owner_route e c db
     (case set_default service_url app_id db of
        Inl ServiceIntegrityError \<Rightarrow> (Inl SvcServerError, db)
      | Inl x \<Rightarrow> (Inl SvcNotFound, db)
      | Inr db' \<Rightarrow> (Inr (), db'))"

definition remove_default :: "service_env \<Rightarrow> conn \<Rightarrow> string \<Rightarrow> db \<Rightarrow> (service_route_error + unit) \<times> db" where
  "remove_default e c service_url db = owner_route e c db (Inr (), clear_default service_url db)"

text \<open>What a JSON value is for SQLite: text compared with a text column, NULL, or no parameter at all.\<close>

datatype sql_param = SqlText string | SqlNull | SqlUnbindable

definition sql_param_of :: "(rat \<Rightarrow> string) \<Rightarrow> pyval \<Rightarrow> sql_param" where
  "sql_param_of fr v =
     (if v = PNone then SqlNull else (case sql_text fr v of None \<Rightarrow> SqlUnbindable | Some s \<Rightarrow> SqlText s))"

definition list_permissions_v2 ::
    "service_env \<Rightarrow> conn \<Rightarrow> string option \<Rightarrow> db \<Rightarrow> (service_route_error + permission_record list) \<times> db" where
  "list_permissions_v2 e c app_id db = owner_route e c db (Inr (get_all_permissions_v2 (stored_grant e) db app_id), db)"

definition grant_row ::
    "service_env \<Rightarrow> pyval \<Rightarrow> pyval \<Rightarrow> pyval \<Rightarrow> string \<Rightarrow> string option \<Rightarrow> db \<Rightarrow> (service_route_error + unit) \<times> db" where
  "grant_row e app_id service_url grant scope provider_app_id db =
     (case (sql_param_of (sx_float e) app_id, sql_param_of (sx_float e) service_url) of
        (SqlText a, SqlText u) \<Rightarrow>
          (case grant_permission_v2 (sx_float e) db a u grant scope provider_app_id of
             Inl x \<Rightarrow> (Inl SvcServerError, db)
           | Inr db' \<Rightarrow> (Inr (), db'))
      | _ \<Rightarrow> (Inl SvcServerError, db))"

definition grant_global_scoped ::
    "service_env \<Rightarrow> conn \<Rightarrow> (string \<times> pyval) list \<Rightarrow> db \<Rightarrow> (service_route_error + unit) \<times> db" where
  "grant_global_scoped e c data db = owner_route e c db
     (let app_id = dict_lookup data ''app_id'' PNone;
          service_url = dict_lookup data ''service_url'' PNone;
          grant_payload = dict_lookup data ''grant'' PNone
      in if \<not> truthy app_id \<or> \<not> truthy service_url \<or> grant_payload = PNone then (Inl SvcInvalid, db)
         else grant_row e app_id service_url grant_payload ''global'' None db)"

definition revoke_v2 ::
    "service_env \<Rightarrow> conn \<Rightarrow> (string \<times> pyval) list \<Rightarrow> db \<Rightarrow> (service_route_error + unit) \<times> db" where
  "revoke_v2 e c data db = owner_route e c db
     (let app_id = dict_lookup data ''app_id'' PNone;
          service_url = dict_lookup data ''service_url'' PNone;
          grant_payload = dict_lookup data ''grant'' PNone;
          scope = dict_lookup data ''scope'' (PStr ''global'');
          provider = py_or (dict_lookup data ''provider_app_id'' PNone) (PStr []);
          param = sql_param_of (sx_float e)
      in if \<not> truthy app_id \<or> \<not> truthy service_url \<or> grant_payload = PNone then (Inl SvcInvalid, db)
         else (case (param app_id, param service_url, param scope, param provider) of
             (SqlText a, SqlText u, SqlText sc, SqlText p) \<Rightarrow>
               (case revoke_permission_v2 (sx_float e) db a u grant_payload sc (Some p) of
                  (db', revoked) \<Rightarrow> if revoked then (Inr (), db') else (Inl SvcNotFound, db))
           | (SqlText a, SqlText u, SqlNull, SqlText p) \<Rightarrow> (Inl SvcNotFound, db)
           | _ \<Rightarrow> (Inl SvcServerError, db)))"

text \<open>The consumer of an app-scoped grant: by name where one is given, which the provider showed to the
  owner, else by id.\<close>

definition grant_consumer :: "service_env \<Rightarrow> (string \<times> pyval) list \<Rightarrow> db \<Rightarrow> service_route_error + pyval" where
  "grant_consumer e data db =
     (let consumer_app_name = dict_lookup data ''consumer_app_name'' PNone in
      if truthy consumer_app_name
      then (case sql_param_of (sx_float e) consumer_app_name of
          SqlText n \<Rightarrow> (case find_app_by_name db n of None \<Rightarrow> Inl SvcNotFound | Some r \<Rightarrow> Inr (PStr (a_app_id r)))
        | _ \<Rightarrow> Inl SvcServerError)
      else Inr (dict_lookup data ''consumer_app_id'' PNone))"

definition grant_app_scoped ::
    "service_env \<Rightarrow> conn \<Rightarrow> (string \<times> pyval) list \<Rightarrow> db \<Rightarrow> (service_route_error + unit) \<times> db" where
  "grant_app_scoped e c data db =
     (case verify_app_auth (sx_auth e) c db of
        Inl x \<Rightarrow> (Inl (SvcUnauthorized x), db)
      | Inr provider_app_id \<Rightarrow>
     (case grant_consumer e data db of
        Inl x \<Rightarrow> (Inl x, db)
      | Inr consumer_app_id \<Rightarrow>
     (let service_url = dict_lookup data ''service_url'' PNone;
          grant_payload = dict_lookup data ''grant'' PNone
      in if \<not> truthy consumer_app_id \<or> \<not> truthy service_url \<or> grant_payload = PNone then (Inl SvcInvalid, db)
         else (case sql_param_of (sx_float e) service_url of
             SqlText u \<Rightarrow>
               if exists_row (\<lambda>r. v_service_url r = u \<and> v_app_id r = provider_app_id) (service_providers db)
               then grant_row e consumer_app_id service_url grant_payload ''app'' (Some provider_app_id) db
               else (Inl SvcDenied, db)
           | _ \<Rightarrow> (Inl SvcServerError, db)))))"

section \<open>Facts\<close>

definition is_identity_header :: "string \<times> string \<Rightarrow> bool" where
  "is_identity_header h \<longleftrightarrow> startswith (lower (fst h)) OPENHOST_HEADER_PREFIX"

lemma consumer_headers_identity: "filter is_identity_header (consumer_headers fr i n gs) = consumer_headers fr i n gs"
proof -
  have "startswith (lower CONSUMER_ID_HEADER) OPENHOST_HEADER_PREFIX"
    "startswith (lower CONSUMER_NAME_HEADER) OPENHOST_HEADER_PREFIX"
    "startswith (lower PERMISSIONS_HEADER) OPENHOST_HEADER_PREFIX" by code_simp+
  then show ?thesis by (simp add: consumer_headers_def is_identity_header_def)
qed

lemma forwarded_identity_headers:
  "filter is_identity_header (build_forwarded_request_headers a db hs excluded extra) = filter is_identity_header extra"
proof -
  have "filter is_identity_header (filter P (sanitize_forwarded_headers b hs)) = []" for P b
    by (auto simp: filter_empty_conv is_identity_header_def dest: sanitize_drops_identity)
  then show ?thesis by (simp add: build_forwarded_request_headers_def)
qed

lemma build_backend_headers:
  "build_backend_request a db c base ms path extra = Some request \<Longrightarrow>
     br_headers request = build_forwarded_request_headers a db (cn_headers c) HTTP_REQUEST_EXCLUDED_HEADERS extra"
  by (auto simp: build_backend_request_def Let_def split: option.splits)

lemma lookup_declared:
  assumes "lookup_service_by_manifest_shortname env i shortname db = Inr (u, v)"
  shows "\<exists>row raw m perm. find_app i db = Some row \<and> a_manifest_raw row = Some raw \<and>
    parse_manifest_from_string env raw = Inr m \<and> perm \<in> set (m_consumes m) \<and>
    sc_shortname perm = shortname \<and> sc_service perm = u \<and> sc_version perm = v"
proof -
  obtain row raw m perm where "find_app i db = Some row" "non_empty (a_manifest_raw row) = Some raw"
    "parse_manifest_from_string env raw = Inr m" and perm: "List.find (\<lambda>p. sc_shortname p = shortname) (m_consumes m) = Some perm"
    and "sc_service perm = u" "sc_version perm = v"
    using assms unfolding lookup_service_by_manifest_shortname_def by (auto split: option.splits sum.splits)
  moreover from this have "a_manifest_raw row = Some raw" by (auto simp: non_empty_def split: option.splits if_splits)
  ultimately show ?thesis using find_SomeD [OF perm] by blast
qed

text \<open>Who serves a call: the router itself, or an app that is running and registered for the service.\<close>

definition serves :: "db \<Rightarrow> string \<Rightarrow> string \<Rightarrow> proxy_target \<Rightarrow> bool" where
  "serves db p u target \<longleftrightarrow>
     (if p = ROUTER_APP_ID then builtin_by_url u \<noteq> None \<and> target = InProcess u
      else \<exists>a. find_app p db = Some a \<and> a_status a = Running \<and> target = LocalPort (a_local_port a) \<and>
        exists_row (\<lambda>r. v_service_url r = u \<and> v_app_id r = p) (service_providers db))"

lemma resolve_provider_serves:
  assumes "resolve_provider se vr u spec db pin = Inr rp"
  shows "serves db (rp_app_id rp) u (rp_target rp)"
  using resolve_provider_cases [OF assms] by (fastforce simp: serves_def joined_iff exists_row_iff split: if_splits)

lemma common_cases:
  assumes "service_call_common e i shortname rest db pin = Inr resolved"
  shows "\<exists>row raw m perm p. find_app i db = Some row \<and> a_manifest_raw row = Some raw \<and>
    parse_manifest_from_string (sx_manifest e) raw = Inr m \<and> perm \<in> set (m_consumes m) \<and>
    sc_shortname perm = shortname \<and> sc_service perm = sq_service_url resolved \<and>
    serves db p (sq_service_url resolved) (sq_target resolved) \<and>
    sq_extra_headers resolved = consumer_headers (sx_float e) i (a_name row)
      (grants_for_provider (stored_grant e) db i (sq_service_url resolved) p)"
proof -
  obtain u v spec rp hs where steps: "lookup_service_by_manifest_shortname (sx_manifest e) i shortname db = Inr (u, v)"
    "resolve_provider (sx_spec e) (sx_rank e) u spec db pin = Inr rp" "app_consumer_headers e i u (rp_app_id rp) db = Some hs"
    and resolved: "sq_service_url resolved = u" "sq_target resolved = rp_target rp" "sq_extra_headers resolved = hs"
    using assms unfolding service_call_common_def
    by (auto split: sum.splits option.splits service_error.splits)
  from lookup_declared [OF steps(1)] resolve_provider_serves [OF steps(2)] steps(3) resolved
  show ?thesis by (fastforce simp: app_consumer_headers_def split: option.splits)
qed

lemma grants_stored:
  assumes "(g, scope) \<in> set (grants_for_provider loads db i u p)"
  shows "\<exists>r\<in>set (permissions db). r_consumer_app_id r = i \<and> r_service_url r = u \<and> g = loads (r_grant_payload r) \<and>
    scope = r_scope r \<and> (r_scope r = ''global'' \<or> r_provider_app_id r = p)"
  using assms by (auto simp: grants_for_provider_def get_granted_permissions_v2_def provider_of_column_def split: if_splits)

lemma owner_route_Inr:
  "owner_route e c db handled = (Inr x, db') \<Longrightarrow> require_owner_auth (sx_auth e) c db = Inr () \<and> handled = (Inr x, db')"
  by (auto simp: owner_route_def split: sum.splits)

lemma grant_row_Inr:
  assumes "grant_row e x y g scope p db = (Inr (), db')"
  shows "\<exists>a u. sql_param_of (sx_float e) x = SqlText a \<and> sql_param_of (sx_float e) y = SqlText u \<and>
    grant_permission_v2 (sx_float e) db a u g scope p = Inr db'"
  using assms by (auto simp: grant_row_def split: sql_param.splits sum.splits)

section \<open>Properties\<close>


text \<open>C22. An app can grant only what is its own to grant: a successful app-scoped grant adds at most one
  row, with the calling app as its provider, for a service the caller is registered for, to an installed app
  (the one of the given name when a name is given), and changes nothing else.\<close>

theorem grant_app_scoped_confined:
  assumes "grant_app_scoped e c data db = (Inr (), db')"
  shows "\<exists>i u consumer. verify_app_auth (sx_auth e) c db = Inr i \<and>
    exists_row (\<lambda>r. v_service_url r = u \<and> v_app_id r = i) (service_providers db) \<and>
    (db' = db \<or> db' = db\<lparr>permissions := permissions db @
       [permission_row_of (sx_float e) consumer u (dict_lookup data ''grant'' PNone) ''app'' (Some i)]\<rparr> \<and>
       consumer \<in> app_ids db) \<and>
    (\<forall>name. dict_lookup data ''consumer_app_name'' PNone = PStr name \<and> name \<noteq> [] \<longrightarrow>
       map_option a_app_id (find_app_by_name db name) = Some consumer)"
proof -
  obtain i who u where auth: "verify_app_auth (sx_auth e) c db = Inr i" and who: "grant_consumer e data db = Inr who"
    and u: "sql_param_of (sx_float e) (dict_lookup data ''service_url'' PNone) = SqlText u"
    and provider: "exists_row (\<lambda>r. v_service_url r = u \<and> v_app_id r = i) (service_providers db)"
    and row: "grant_row e who (dict_lookup data ''service_url'' PNone) (dict_lookup data ''grant'' PNone) ''app'' (Some i) db = (Inr (), db')"
    using assms by (auto simp: grant_app_scoped_def Let_def split: sum.splits if_splits sql_param.splits)
  from grant_row_Inr [OF row] u obtain consumer where consumer: "sql_param_of (sx_float e) who = SqlText consumer"
    and grant: "grant_permission_v2 (sx_float e) db consumer u (dict_lookup data ''grant'' PNone) ''app'' (Some i) = Inr db'"
    by auto
  have "map_option a_app_id (find_app_by_name db name) = Some consumer"
    if "dict_lookup data ''consumer_app_name'' PNone = PStr name" "name \<noteq> []" for name
    using who consumer that by (auto simp: grant_consumer_def sql_param_of_def Let_def split: option.splits)
  with auth provider grant_cases [OF grant] show ?thesis by blast
qed

text \<open>A global grant reaches every provider of the service with the very next call of that app, and
  revoking it with the same request takes it back: the permissions are again those from before the grant.\<close>

lemma global_grant_round_trip:
  assumes "grant_global_scoped e c data db = (Inr (), db1)"
    and "dict_lookup data ''app_id'' PNone = PStr i" and "dict_lookup data ''service_url'' PNone = PStr u"
    and "map_of data ''scope'' = None" and "map_of data ''provider_app_id'' = None"
    and "require_owner_auth (sx_auth e) c2 db1 = Inr ()"
  shows "(stored_grant e (json_dumps (sx_float e) (dict_lookup data ''grant'' PNone)), ''global'')
      \<in> set (grants_for_provider (stored_grant e) db1 i u p) \<and>
    (\<exists>db2. revoke_v2 e c2 data db1 = (Inr (), db2) \<and>
      set (permissions db2) = set (permissions db) -
        {permission_row_of (sx_float e) i u (dict_lookup data ''grant'' PNone) ''global'' None} \<and>
      apps db2 = apps db)"
proof -
  let ?g = "dict_lookup data ''grant'' PNone"
  let ?row = "permission_row_of (sx_float e) i u ?g ''global'' None"
  have given: "i \<noteq> []" "u \<noteq> []" "?g \<noteq> PNone"
    and row: "grant_row e (PStr i) (PStr u) ?g ''global'' None db = (Inr (), db1)"
    using owner_route_Inr [OF assms(1) [unfolded grant_global_scoped_def]] assms(2,3)
    by (auto simp: Let_def split: if_splits)
  have grant: "grant_permission_v2 (sx_float e) db i u ?g ''global'' None = Inr db1"
    using grant_row_Inr [OF row] by (auto simp: sql_param_of_def)
  have mem: "?row \<in> set (permissions db1)" "set (permissions db1) = insert ?row (set (permissions db))" "apps db1 = apps db"
    using grant by (auto simp: grant_permission_v2_def Let_def split: if_splits)
  have "(stored_grant e (json_dumps (sx_float e) ?g), ''global'') \<in> set (grants_for_provider (stored_grant e) db1 i u p)"
    using mem(1)
    by (force simp: grants_for_provider_def get_granted_permissions_v2_def permission_row_of_def image_iff)
  moreover have "revoke_v2 e c2 data db1 = (Inr (), fst (revoke_permission_v2 (sx_float e) db1 i u ?g ''global'' None))"
    using assms(2-6) given mem(1)
    by (simp add: revoke_v2_def owner_route_def sql_param_of_def dict_lookup_def py_or_def revoke_permission_v2_def
        permission_row_of_def provider_column_def exists_row_iff Let_def)
  moreover have "set (permissions (fst (revoke_permission_v2 (sx_float e) db1 i u ?g ''global'' None))) = set (permissions db) - {?row}"
    using mem(2) by (auto simp: revoke_permission_v2_def Let_def table_simps)
  ultimately show ?thesis using mem(3) by (auto simp: revoke_permission_v2_def Let_def)
qed

text \<open>A preflight is answered from the configured domains alone, so it does not tell which apps exist.\<close>

lemma preflight_reveals_no_app:
  assumes "domains db' = domains db"
  shows "service_call_cors c db' = service_call_cors c db"
proof -
  have same: "domain_match db' = domain_match db"
    using assms by (auto simp: fun_eq_iff domain_match_def effective_domains_def load_records_def)
  show ?thesis unfolding service_call_cors_def same ..
qed

section \<open>Concrete instances\<close>

definition demo_service_env :: service_env where
  "demo_service_env = \<lparr>sx_auth = demo_auth_env, sx_manifest = demo_env, sx_spec = demo_spec_env\<lparr>se_version_in := (\<lambda>_ _. True)\<rparr>,
     sx_rank = demo_rank, sx_specifier = as_str, sx_float = (\<lambda>_. ''0.1''), sx_loads = (\<lambda>s. Some (PStr s)), sx_items = id\<rparr>"

text \<open>The app A1 holds the token \<open>old\<close>, consumes \<open>example.com/secrets\<close> as \<open>sec\<close>; A2 provides it.\<close>

definition demo_call_db :: db where
  "demo_call_db = demo_auth_db\<lparr>
     apps := [(demo_app ''A1'' ''notes'' 9000 Running)\<lparr>a_manifest_raw := Some ''new''\<rparr>, demo_app ''A2'' ''vault'' 80 Running],
     service_providers := [\<lparr>v_service_url = ''example.com/secrets'', v_app_id = ''A2'', v_service_version = ''1'', v_endpoint = ''/v1/''\<rparr>],
     permissions := [\<lparr>r_consumer_app_id = ''A1'', r_service_url = ''example.com/secrets'', r_grant_payload = ''read'',
       r_scope = ''global'', r_provider_app_id = []\<rparr>]\<rparr>"

definition demo_call_conn :: conn where
  "demo_call_conn = demo_conn [(''authorization'', ''Bearer old''), (''x-openhost-consumer-id'', ''router'')]\<lparr>cn_cookies := []\<rparr>"


definition demo_grant_conn :: conn where
  "demo_grant_conn = demo_conn [(''authorization'', ''Bearer vault'')]\<lparr>cn_cookies := []\<rparr>"

definition demo_grant_db :: db where
  "demo_grant_db = demo_call_db\<lparr>app_tokens := [\<lparr>t_app_id = ''A2'', t_token_hash = ''vault''\<rparr>]\<rparr>"

definition demo_grant_data :: "(string \<times> pyval) list" where
  "demo_grant_data = [(''consumer_app_name'', PStr ''notes''), (''service_url'', PStr ''example.com/secrets''), (''grant'', PStr ''write'')]"

theorem grant_app_scoped_confined_witness:
  "\<exists>db'. grant_app_scoped demo_service_env demo_grant_conn demo_grant_data demo_grant_db = (Inr (), db') \<and> db' \<noteq> demo_grant_db \<and>
     (\<exists>i. verify_app_auth demo_auth_env demo_grant_conn demo_grant_db = Inr i)"
proof -
  have "case grant_app_scoped demo_service_env demo_grant_conn demo_grant_data demo_grant_db of
      (Inr u, db') \<Rightarrow> length (permissions db') = 2 | _ \<Rightarrow> False" by code_simp
  then obtain db' where ok: "grant_app_scoped demo_service_env demo_grant_conn demo_grant_data demo_grant_db = (Inr (), db')"
    and "length (permissions db') = 2" by (auto split: prod.splits sum.splits)
  then have "db' \<noteq> demo_grant_db" by (auto simp: demo_grant_db_def demo_call_db_def)
  with ok grant_app_scoped_confined [OF ok] show ?thesis by (auto simp: demo_service_env_def)
qed

definition demo_owner_conn :: conn where
  "demo_owner_conn = demo_conn [(''sec-fetch-site'', ''same-origin'')]"

definition demo_global_data :: "(string \<times> pyval) list" where
  "demo_global_data = [(''app_id'', PStr ''A1''), (''service_url'', PStr ''mail''), (''grant'', PStr ''send'')]"

lemma global_grant_round_trip_witness:
  "\<exists>db1 db2. grant_global_scoped demo_service_env demo_owner_conn demo_global_data demo_web_db = (Inr (), db1) \<and>
     revoke_v2 demo_service_env demo_owner_conn demo_global_data db1 = (Inr (), db2) \<and> apps db2 = apps demo_web_db"
proof -
  have "case grant_global_scoped demo_service_env demo_owner_conn demo_global_data demo_web_db of
      (Inr u, db') \<Rightarrow> require_owner_auth (sx_auth demo_service_env) demo_owner_conn db' = Inr () | _ \<Rightarrow> False" by code_simp
  then obtain db1 where ok: "grant_global_scoped demo_service_env demo_owner_conn demo_global_data demo_web_db = (Inr (), db1)"
    and owner: "require_owner_auth (sx_auth demo_service_env) demo_owner_conn db1 = Inr ()"
    by (auto split: prod.splits sum.splits)
  have data: "dict_lookup demo_global_data ''app_id'' PNone = PStr ''A1''" "dict_lookup demo_global_data ''service_url'' PNone = PStr ''mail''"
    "map_of demo_global_data ''scope'' = None" "map_of demo_global_data ''provider_app_id'' = None"
    by (simp_all add: demo_global_data_def dict_lookup_def)
  from global_grant_round_trip [OF ok data owner] ok show ?thesis by blast
qed

end
