(* ===== verification/Startup.thy ===== *)
theory Startup
  imports AppLifecycle
begin

text \<open>
  \<open>core/startup.py\<close>: what happens to the apps when the router process starts. A reboot kills every
  container and may have interrupted a restart, a build or a promotion of a domain. The time the
  process started, podman's list of images and the state of its build cache are arguments; times are
  seconds.
\<close>

section \<open>SQL LIKE\<close>

text \<open>SQLite's \<open>LIKE\<close> without an escape: \<open>%\<close> any text, \<open>_\<close> any character, ASCII letters in either case.\<close>

fun sql_like :: "string \<Rightarrow> string \<Rightarrow> bool" where
  "sql_like [] s = (s = [])"
| "sql_like (p # ps) [] = (p = CHR ''%'' \<and> sql_like ps [])"
| "sql_like (p # ps) (c # cs) =
     (if p = CHR ''%'' then sql_like ps (c # cs) \<or> sql_like (p # ps) cs
      else (p = CHR ''_'' \<or> lower [p] = lower [c]) \<and> sql_like ps cs)"

section \<open>What to do with each app\<close>

datatype row_plan =
    LeaveRow
  | MarkRunning
  | CannotRecover
  | MarkStarting
  | Recover bool bool

definition is_promotion_restart :: "app_row \<Rightarrow> bool" where
  "is_promotion_restart row \<longleftrightarrow>
     a_status row = Starting \<and> a_error_message row = Some PRIMARY_DOMAIN_RESTART_MARKER"

definition container_alive :: "app_row \<Rightarrow> sys \<Rightarrow> bool" where
  "container_alive row s =
     (case non_empty (a_container_id row) of None \<Rightarrow> False | Some c \<Rightarrow> is_container_running c s)"

text \<open>The body of the loop of \<open>check_app_status\<close>; \<open>Recover\<close> says whether the app was stopped by a
  promotion and whether it has to be built.\<close>

definition plan_row :: "host \<Rightarrow> (string \<Rightarrow> bool) \<Rightarrow> int \<Rightarrow> sys \<Rightarrow> app_row \<Rightarrow> row_plan" where
  "plan_row h image_exists process_start s row =
     (let alive = container_alive row s;
          promotion_restart = is_promotion_restart row
      in if \<not> promotion_restart \<and> a_status row = Starting \<and> process_start \<le> a_created_at row then LeaveRow
         else if alive \<and> a_status row \<noteq> Starting
         then (if a_status row = Building then MarkRunning else LeaveRow)
         else
           (let has_repo = a_repo_path row \<noteq> [] \<and> h_is_dir h (a_repo_path row);
                has_manifest = non_empty (a_manifest_raw row) \<noteq> None \<or> has_repo;
                needs_build = (a_status row = Building \<or> \<not> image_exists (app_image_tag (a_name row)))
            in if \<not> has_manifest \<or> (needs_build \<and> \<not> has_repo) then CannotRecover
               else if non_empty (a_container_id row) = None \<and> \<not> promotion_restart
                       \<and> process_start \<le> a_created_at row
               then MarkStarting
               else Recover promotion_restart needs_build))"

definition set_status :: "app_status \<Rightarrow> app_row \<Rightarrow> app_row" where
  "set_status st r = r\<lparr>a_status := st\<rparr>"

fun apply_plan :: "row_plan \<Rightarrow> app_row \<Rightarrow> db \<Rightarrow> db" where
  "apply_plan LeaveRow row db = db"
| "apply_plan MarkRunning row db = update_app (a_app_id row) (set_status Running) db"
| "apply_plan CannotRecover row db =
     mark_error (a_app_id row) (''Cannot recover: repo path missing ('' @ a_repo_path row @ '')'') db"
| "apply_plan MarkStarting row db = update_app (a_app_id row) (set_status Starting) db"
| "apply_plan (Recover promoted needs_build) row db = update_app (a_app_id row) (set_status Starting) db"

text \<open>The loop: the database and the two lists of apps to recover, promoted ones first.\<close>

fun check_rows ::
    "(app_row \<Rightarrow> row_plan) \<Rightarrow> app_row list \<Rightarrow> db \<Rightarrow> db \<times> (string \<times> bool) list \<times> (string \<times> bool) list" where
  "check_rows plan [] db = (db, [], [])"
| "check_rows plan (row # rows) db =
     (let (db', promoted, others) = check_rows plan rows (apply_plan (plan row) row db) in
      case plan row of
        Recover True needs_build \<Rightarrow> (db', (a_app_id row, needs_build) # promoted, others)
      | Recover False needs_build \<Rightarrow> (db', promoted, (a_app_id row, needs_build) # others)
      | _ \<Rightarrow> (db', promoted, others))"

section \<open>Corrupt build caches\<close>

definition is_cache_corrupt_row :: "host \<Rightarrow> app_row \<Rightarrow> bool" where
  "is_cache_corrupt_row h r \<longleftrightarrow>
     a_status r = Errored \<and>
     (case a_error_message r of None \<Rightarrow> False
      | Some m \<Rightarrow> sql_like (''%'' @ BUILD_CACHE_CORRUPT_MARKER @ ''%'') m) \<and>
     a_repo_path r \<noteq> [] \<and> h_is_dir h (a_repo_path r)"

text \<open>\<open>_recover_cache_corrupt_apps\<close>: a failure to drop the cache is logged and changes nothing.\<close>

definition recover_cache_corrupt_apps :: "host \<Rightarrow> db \<Rightarrow> string list \<times> db" where
  "recover_cache_corrupt_apps h db =
     (let corrupt = map a_app_id (filter (is_cache_corrupt_row h) (apps db)) in
      (corrupt, foldl (\<lambda>db i. update_app i (\<lambda>r. r\<lparr>a_status := Starting, a_error_message := None\<rparr>) db) db corrupt))"

section \<open>Recovering\<close>

text \<open>\<open>_restart_apps_sequential\<close>.\<close>

definition recover_app :: "config \<Rightarrow> host \<Rightarrow> string \<times> bool \<Rightarrow> sys \<Rightarrow> sys" where
  "recover_app cfg h app s =
     (let (app_id, needs_build) = app;
          (res, s1) = (if needs_build then start_app_process cfg h False app_id s
                       else restart_app_process cfg h False app_id s)
      in case res of
           Inr u \<Rightarrow> s1
         | Inl e \<Rightarrow> s1\<lparr>sdb := mark_error app_id (h_text h e) (sdb s1)\<rparr>)"

definition restart_apps_sequential :: "config \<Rightarrow> host \<Rightarrow> (string \<times> bool) list \<Rightarrow> sys \<Rightarrow> sys" where
  "restart_apps_sequential cfg h pending s = foldl (\<lambda>s app. recover_app cfg h app s) s pending"

text \<open>
  \<open>check_app_status\<close>: the state when it returns and what the thread it starts has to recover
  (nothing: no thread).
\<close>

definition check_app_status ::
    "config \<Rightarrow> host \<Rightarrow> (string \<Rightarrow> bool) \<Rightarrow> int \<Rightarrow> sys \<Rightarrow> sys \<times> (string \<times> bool) list" where
  "check_app_status cfg h image_exists process_start s =
     (let rows = filter (\<lambda>r. a_status r \<in> {Running, Starting, Building}) (apps (sdb s));
          (db1, promoted, others) = check_rows (plan_row h image_exists process_start s) rows (sdb s);
          (corrupt, db2) = recover_cache_corrupt_apps h db1;
          s1 = s\<lparr>sdb := db2\<rparr>
      in (if promoted = [] then s1 else restart_apps_sequential cfg h promoted s1,
          others @ map (\<lambda>i. (i, True)) corrupt))"

section \<open>Facts\<close>

lemma key_preserving_startup [simp]:
  "key_preserving (set_status st)" "key_preserving (\<lambda>r. r\<lparr>a_status := st, a_error_message := e\<rparr>)"
  by (simp_all add: key_preserving_def set_status_def)

text \<open>What one operation on the app \<open>i\<close> leaves alone.\<close>

definition frame :: "string \<Rightarrow> db \<Rightarrow> db \<Rightarrow> bool" where
  "frame i db db' \<longleftrightarrow> (db_ok db \<longrightarrow> db_ok db') \<and> (\<forall>j. j \<noteq> i \<longrightarrow> find_app j db' = find_app j db) \<and>
     (find_app i db' = None \<longleftrightarrow> find_app i db = None)"

lemma frame_refl [simp]: "frame i db db"
  by (simp add: frame_def)

lemma frame_trans: "frame i db db1 \<Longrightarrow> frame i db1 db2 \<Longrightarrow> frame i db db2"
  by (simp add: frame_def)

lemma frame_update [simp]: "key_preserving f \<Longrightarrow> frame i db (update_app i f db)"
  by (auto simp: frame_def find_app_update_app db_ok_update_app option.map_ident)

lemma frame_update_after [simp]:
  "key_preserving f \<Longrightarrow> frame i db db1 \<Longrightarrow> frame i db (update_app i f db1)"
  by (rule frame_trans [OF _ frame_update])

lemma frame_mark_error [simp]: "frame i db (mark_error i msg db)"
  by (simp add: mark_error_def)

lemma frame_launch:
  assumes "db_ok (sdb s)" and "h_others h = (\<lambda>_ s. s)" and "run_app_image cfg h fk i tag m vars s = (res, s')"
  shows "frame i (sdb s) (sdb s')"
proof (cases "find_app i (sdb s)")
  case None
  with assms show ?thesis by (simp add: run_app_image_def)
next
  case (Some row)
  from assms(1) Some assms(2,3) show ?thesis
  proof (cases rule: run_app_image_cases)
    case (prepare e)
    then show ?thesis by (simp add: fail_launch_def)
  next
    case (run e db1 s2)
    have "frame i (sdb s) db1" using find_app_same_apps [OF run(4)] run(3) by (simp add: frame_def)
    with run show ?thesis by (simp add: mark_app_starting_def fail_launch_def)
  next
    case (ready c db1 s3)
    have "frame i (sdb s) db1" using find_app_same_apps [OF ready(2)] ready(1) by (simp add: frame_def)
    then have "frame i (sdb s) (sdb s3)"
      unfolding ready(3) by (simp add: mark_app_starting_def set_container_def)
    with ready(6) show ?thesis by (auto simp: set_ready_def fail_launch_def split: sum.splits)
  qed
qed

text \<open>One recovery settles its app and leaves the others alone.\<close>

lemma recover_app_frame:
  assumes "db_ok (sdb s)" and "h_others h = (\<lambda>_ s. s)"
  shows "frame i (sdb s) (sdb (recover_app cfg h (i, b) s))"
proof -
  have build: "frame i (sdb s) (sdb s1)"
    if "build_then_run_app cfg h False i n repo m k vars s' = (res, s1)" "sdb s' = mark_app_starting (sdb s) i"
    for n repo m k vars s' res s1
  proof -
    have "frame i (sdb s) (sdb s')" by (simp add: that(2) mark_app_starting_def)
    moreover from this have "frame i (sdb s') (sdb s1)"
      using that(1) assms frame_launch [of s'] by (auto simp: build_then_run_app_def frame_def split: sum.splits)
    ultimately show ?thesis by (rule frame_trans)
  qed
  have "frame i (sdb s) (sdb s1)" if "start_app_process cfg h False i s = (res, s1)" for res s1
    using that build by (auto simp: start_app_process_def split: sum.splits option.splits)
  moreover have "frame i (sdb s) (sdb s1)" if "restart_app_process cfg h False i s = (res, s1)" for res s1
    using that frame_launch [OF assms] by (auto simp: restart_app_process_def split: sum.splits option.splits)
  ultimately show ?thesis
    by (auto simp: recover_app_def Let_def mark_error_def split: prod.splits sum.splits)
qed

lemma recover_app_settles:
  assumes "find_app i (sdb (recover_app cfg h (i, b) s)) = Some r"
  shows "a_status r = Running \<or> a_status r = Errored"
proof -
  have "a_status r = Running \<or> a_status r = Errored"
    if "restart_app_process cfg h False i s = (Inr u, s1)" "find_app i (sdb s1) = Some r" for u s1
    using that run_app_image_ready_status by (auto simp: restart_app_process_def split: sum.splits option.splits)
  then show ?thesis
    using assms mark_error_status [of i _ _ r] start_app_ready_status [of cfg h False i s _ _ r]
    by (auto simp: recover_app_def Let_def split: prod.splits sum.splits if_splits)
qed

definition settled :: "app_row \<Rightarrow> bool" where
  "settled r \<longleftrightarrow> a_status r = Running \<or> a_status r = Errored"

lemma restart_apps_sequential_facts:
  assumes "db_ok (sdb s)" and "h_others h = (\<lambda>_ s. s)"
  shows "db_ok (sdb (restart_apps_sequential cfg h pending s))" (is ?ok)
    and "j \<notin> fst ` set pending \<Longrightarrow>
      find_app j (sdb (restart_apps_sequential cfg h pending s)) = find_app j (sdb s)"
    and "j \<in> fst ` set pending \<Longrightarrow> find_app j (sdb (restart_apps_sequential cfg h pending s)) = Some r \<Longrightarrow> settled r"
    and "find_app j (sdb (restart_apps_sequential cfg h pending s)) = None \<longleftrightarrow> find_app j (sdb s) = None"
proof -
  have "db_ok (sdb (restart_apps_sequential cfg h pending s)) \<and>
    (j \<notin> fst ` set pending \<longrightarrow> find_app j (sdb (restart_apps_sequential cfg h pending s)) = find_app j (sdb s)) \<and>
    (j \<in> fst ` set pending \<longrightarrow> find_app j (sdb (restart_apps_sequential cfg h pending s)) = Some r \<longrightarrow> settled r) \<and>
    (find_app j (sdb (restart_apps_sequential cfg h pending s)) = None \<longleftrightarrow> find_app j (sdb s) = None)"
    using assms(1)
  proof (induction pending arbitrary: s rule: list.induct)
    case Nil
    then show ?case by (simp add: restart_apps_sequential_def)
  next
    case (Cons a pending)
    obtain i b where a: "a = (i, b)" by (cases a)
    let ?s1 = "recover_app cfg h a s"
    have step: "restart_apps_sequential cfg h (a # pending) s = restart_apps_sequential cfg h pending ?s1"
      by (simp add: restart_apps_sequential_def)
    have f: "frame i (sdb s) (sdb ?s1)" unfolding a by (rule recover_app_frame [OF Cons.prems assms(2)])
    then have ok: "db_ok (sdb ?s1)" using Cons.prems by (simp add: frame_def)
    note IH = Cons.IH [OF ok]
    have here: "settled r" if "i = j" "find_app j (sdb ?s1) = Some r"
      using recover_app_settles [of i cfg h b s r] that by (simp add: a settled_def)
    have other: "find_app j (sdb ?s1) = find_app j (sdb s)" if "j \<noteq> i" using f that by (simp add: frame_def)
    have none: "find_app j (sdb ?s1) = None \<longleftrightarrow> find_app j (sdb s) = None"
      using f by (cases "j = i") (simp_all add: frame_def)
    show ?case
    proof (intro conjI impI)
      show "db_ok (sdb (restart_apps_sequential cfg h (a # pending) s))" unfolding step using IH by blast
      show "find_app j (sdb (restart_apps_sequential cfg h (a # pending) s)) = None \<longleftrightarrow> find_app j (sdb s) = None"
        unfolding step using IH none by simp
    next
      assume "j \<notin> fst ` set (a # pending)"
      then show "find_app j (sdb (restart_apps_sequential cfg h (a # pending) s)) = find_app j (sdb s)"
        unfolding step using IH other by (simp add: a)
    next
      assume "j \<in> fst ` set (a # pending)"
        and "find_app j (sdb (restart_apps_sequential cfg h (a # pending) s)) = Some r"
      then show "settled r"
        unfolding step using IH here by (cases "j \<in> fst ` set pending") (auto simp: a)
    qed
  qed
  then show ?ok and "j \<notin> fst ` set pending \<Longrightarrow>
      find_app j (sdb (restart_apps_sequential cfg h pending s)) = find_app j (sdb s)"
    and "j \<in> fst ` set pending \<Longrightarrow> find_app j (sdb (restart_apps_sequential cfg h pending s)) = Some r \<Longrightarrow> settled r"
    and "find_app j (sdb (restart_apps_sequential cfg h pending s)) = None \<longleftrightarrow> find_app j (sdb s) = None"
    by blast+
qed

text \<open>The effect of the loop on each row.\<close>

fun plan_effect :: "row_plan \<Rightarrow> app_row \<Rightarrow> app_row \<Rightarrow> app_row" where
  "plan_effect LeaveRow row r = r"
| "plan_effect MarkRunning row r = set_status Running r"
| "plan_effect CannotRecover row r = error_row (''Cannot recover: repo path missing ('' @ a_repo_path row @ '')'') r"
| "plan_effect MarkStarting row r = set_status Starting r"
| "plan_effect (Recover promoted needs_build) row r = set_status Starting r"

lemma find_apply_plan:
  "find_app j (apply_plan p row db) = map_option (\<lambda>r. if j = a_app_id row then plan_effect p row r else r) (find_app j db)"
  by (cases p; cases "find_app j db") (auto simp: mark_error_def find_app_update_app)

lemma db_ok_apply_plan: "db_ok db \<Longrightarrow> db_ok (apply_plan p row db)"
  by (cases p) (simp_all add: mark_error_def db_ok_update_app)

lemma check_rows_facts:
  assumes "check_rows plan rows db = (db', promoted, others)" and "distinct (map a_app_id rows)"
  shows "db_ok db \<Longrightarrow> db_ok db'"
    and "row \<in> set rows \<Longrightarrow> find_app (a_app_id row) db' =
      map_option (plan_effect (plan row) row) (find_app (a_app_id row) db)"
    and "j \<notin> a_app_id ` set rows \<Longrightarrow> find_app j db' = find_app j db"
    and "fst ` set promoted = a_app_id ` {r \<in> set rows. \<exists>b. plan r = Recover True b}"
    and "fst ` set others = a_app_id ` {r \<in> set rows. \<exists>b. plan r = Recover False b}"
proof -
  have all: "(db_ok db \<longrightarrow> db_ok db') \<and>
    (\<forall>row\<in>set rows. find_app (a_app_id row) db' = map_option (plan_effect (plan row) row) (find_app (a_app_id row) db)) \<and>
    (\<forall>j. j \<notin> a_app_id ` set rows \<longrightarrow> find_app j db' = find_app j db) \<and>
    fst ` set promoted = a_app_id ` {r \<in> set rows. \<exists>b. plan r = Recover True b} \<and>
    fst ` set others = a_app_id ` {r \<in> set rows. \<exists>b. plan r = Recover False b}"
    using assms
  proof (induction rows arbitrary: db promoted others)
    case (Cons a rows)
    obtain pr os where rec: "check_rows plan rows (apply_plan (plan a) a db) = (db', pr, os)"
      and res: "(promoted, others) = (case plan a of
          Recover True b \<Rightarrow> ((a_app_id a, b) # pr, os) | Recover False b \<Rightarrow> (pr, (a_app_id a, b) # os) | _ \<Rightarrow> (pr, os))"
      using Cons.prems(1) by (cases "check_rows plan rows (apply_plan (plan a) a db)")
        (auto simp: Let_def split: row_plan.splits bool.splits)
    from Cons.prems(2) have fresh: "a_app_id a \<notin> a_app_id ` set rows" and "distinct (map a_app_id rows)" by auto
    note IH = Cons.IH [OF rec this(2)]
    have split: "{r \<in> set (a # rows). Q r} = (if Q a then insert a else id) {r \<in> set rows. Q r}" for Q
      by auto
    have sets: "fst ` set promoted = a_app_id ` {r \<in> set (a # rows). \<exists>b. plan r = Recover True b}"
      "fst ` set others = a_app_id ` {r \<in> set (a # rows). \<exists>b. plan r = Recover False b}"
      using res IH unfolding split by (auto split: row_plan.splits bool.splits)
    have "find_app (a_app_id row) db' = map_option (plan_effect (plan row) row) (find_app (a_app_id row) db)"
      if "row \<in> set (a # rows)" for row
    proof (cases "row = a")
      case True
      then show ?thesis using IH fresh by (simp add: find_apply_plan)
    next
      case False
      with that have "row \<in> set rows" "a_app_id row \<noteq> a_app_id a" using fresh by (auto intro: rev_image_eqI)
      then show ?thesis using IH by (simp add: find_apply_plan option.map_ident)
    qed
    moreover have "find_app j db' = find_app j db" if "j \<notin> a_app_id ` set (a # rows)" for j
      using IH that by (simp add: find_apply_plan option.map_ident)
    moreover have "db_ok db \<longrightarrow> db_ok db'" using IH db_ok_apply_plan by simp
    ultimately show ?case using sets by (intro conjI ballI allI impI) simp_all
  qed simp
  show "db_ok db \<Longrightarrow> db_ok db'" using conjunct1 [OF all] by simp
  note all = conjunct2 [OF all]
  show "row \<in> set rows \<Longrightarrow> find_app (a_app_id row) db' =
      map_option (plan_effect (plan row) row) (find_app (a_app_id row) db)"
    using conjunct1 [OF all] by simp
  note all = conjunct2 [OF all]
  show "j \<notin> a_app_id ` set rows \<Longrightarrow> find_app j db' = find_app j db" using conjunct1 [OF all] by simp
  note all = conjunct2 [OF all]
  show "fst ` set promoted = a_app_id ` {r \<in> set rows. \<exists>b. plan r = Recover True b}" by (rule conjunct1 [OF all])
  show "fst ` set others = a_app_id ` {r \<in> set rows. \<exists>b. plan r = Recover False b}" by (rule conjunct2 [OF all])
qed

lemma in_apps_find: "db_ok db \<Longrightarrow> r \<in> set (apps db) \<longleftrightarrow> find_app (a_app_id r) db = Some r"
  using find_unique [of a_app_id "apps db" r] find_app_SomeD [of "a_app_id r" db r]
  by (auto simp: find_app_def db_ok_def apps_ok_def)

lemma recover_cache_corrupt_facts:
  assumes "recover_cache_corrupt_apps h db = (corrupt, db')" and "db_ok db"
  shows "db_ok db'" and "i \<in> set corrupt \<longleftrightarrow> (\<exists>r. find_app i db = Some r \<and> is_cache_corrupt_row h r)"
    and "i \<notin> set corrupt \<Longrightarrow> find_app i db' = find_app i db" and "find_app i db' = None \<longleftrightarrow> find_app i db = None"
proof -
  let ?upd = "\<lambda>r. r\<lparr>a_status := Starting, a_error_message := None\<rparr>"
  have loop: "db_ok (foldl (\<lambda>db i. update_app i ?upd db) db is) \<and>
      find_app i (foldl (\<lambda>db i. update_app i ?upd db) db is) =
        map_option (\<lambda>r. if i \<in> set is then ?upd r else r) (find_app i db)" if "db_ok db" for "is" db
    using that
  proof (induction "is" arbitrary: db)
    case (Cons a "is")
    from Cons.IH [of "update_app a ?upd db"] Cons.prems show ?case
      by (cases "find_app i db") (auto simp: db_ok_update_app find_app_update_app)
  qed (simp add: option.map_ident)
  from assms(1) have c: "corrupt = map a_app_id (filter (is_cache_corrupt_row h) (apps db))"
    and db': "db' = foldl (\<lambda>db i. update_app i ?upd db) db corrupt"
    by (auto simp: recover_cache_corrupt_apps_def Let_def)
  show "db_ok db'" "i \<notin> set corrupt \<Longrightarrow> find_app i db' = find_app i db"
    "find_app i db' = None \<longleftrightarrow> find_app i db = None"
    using loop [OF assms(2), of corrupt] by (simp_all add: db' option.map_ident)
  show "i \<in> set corrupt \<longleftrightarrow> (\<exists>r. find_app i db = Some r \<and> is_cache_corrupt_row h r)"
  proof
    assume "i \<in> set corrupt"
    then obtain r where "r \<in> set (apps db)" "is_cache_corrupt_row h r" "a_app_id r = i" unfolding c by auto
    then show "\<exists>r. find_app i db = Some r \<and> is_cache_corrupt_row h r" using in_apps_find [OF assms(2)] by blast
  next
    assume "\<exists>r. find_app i db = Some r \<and> is_cache_corrupt_row h r"
    then show "i \<in> set corrupt" unfolding c using find_app_SomeD by force
  qed
qed

text \<open>The effect of the whole check on one app, in terms of its row before.\<close>

lemma check_app_status_facts:
  assumes "db_ok (sdb s)" and "h_others h = (\<lambda>_ s. s)" and "find_app i (sdb s) = Some row"
    and "check_app_status cfg h image_exists start s = (s1, pending)"
  defines "r1 \<equiv> (if a_status row \<in> {Running, Starting, Building}
      then plan_effect (plan_row h image_exists start s row) row row else row)"
    and "recovers \<equiv> \<lambda>p. a_status row \<in> {Running, Starting, Building} \<and>
      (\<exists>b. plan_row h image_exists start s row = Recover p b)"
  shows "db_ok (sdb s1)" and "find_app i (sdb s1) \<noteq> None"
    and "i \<in> fst ` set pending \<longleftrightarrow> recovers False \<or> is_cache_corrupt_row h r1"
    and "recovers True \<Longrightarrow> find_app i (sdb s1) = Some r \<Longrightarrow> settled r"
    and "i \<notin> fst ` set pending \<Longrightarrow> \<not> recovers True \<Longrightarrow> find_app i (sdb s1) = Some r1"
proof -
  let ?plan = "plan_row h image_exists start s"
  let ?rows = "filter (\<lambda>r. a_status r \<in> {Running, Starting, Building}) (apps (sdb s))"
  obtain db1 promoted others where rows: "check_rows ?plan ?rows (sdb s) = (db1, promoted, others)"
    by (metis prod.exhaust)
  obtain corrupt db2 where corrupt: "recover_cache_corrupt_apps h db1 = (corrupt, db2)" by fastforce
  let ?s2 = "s\<lparr>sdb := db2\<rparr>"
  have pending: "pending = others @ map (\<lambda>i. (i, True)) corrupt"
    and s1: "s1 = restart_apps_sequential cfg h promoted ?s2"
    using assms(4) unfolding check_app_status_def Let_def rows corrupt prod.case
    by (auto simp: restart_apps_sequential_def split: if_splits)
  have "distinct (map a_app_id ?rows)"
    using assms(1) by (simp add: db_ok_def apps_ok_def distinct_map_filter)
  note R = check_rows_facts [OF rows this]
  have ok1: "db_ok db1" using R(1) assms(1) by blast
  note C = recover_cache_corrupt_facts [OF corrupt ok1]
  have "db_ok (sdb ?s2)" using C(1) by simp
  note P = restart_apps_sequential_facts [OF this assms(2), where cfg = cfg and pending = promoted, folded s1]
  have only: "r = row" if "r \<in> set (apps (sdb s))" "a_app_id r = i" for r
    using that in_apps_find [OF assms(1), of r] assms(3) by simp
  have here: "row \<in> set (apps (sdb s))" "a_app_id row = i" using find_app_SomeD [OF assms(3)] by simp_all
  have members: "i \<in> a_app_id ` {r \<in> set ?rows. Q r} \<longleftrightarrow> a_status row \<in> {Running, Starting, Building} \<and> Q row" for Q
  proof
    assume "i \<in> a_app_id ` {r \<in> set ?rows. Q r}"
    then obtain r where "r \<in> set (apps (sdb s))" "a_status r \<in> {Running, Starting, Building}" "Q r" "a_app_id r = i"
      by (auto simp del: insert_iff)
    then show "a_status row \<in> {Running, Starting, Building} \<and> Q row" using only by blast
  next
    assume "a_status row \<in> {Running, Starting, Building} \<and> Q row"
    then have "row \<in> {r \<in> set ?rows. Q r}" using here by (simp del: insert_iff)
    then show "i \<in> a_app_id ` {r \<in> set ?rows. Q r}" using here(2) by blast
  qed
  have find1: "find_app i db1 = Some r1"
  proof (cases "a_status row \<in> {Running, Starting, Building}")
    case True
    then have "row \<in> set ?rows" using here(1) by (simp del: insert_iff)
    from R(2) [OF this] show ?thesis unfolding here(2) assms(3) r1_def if_P [OF True] by simp
  next
    case False
    then have "i \<notin> a_app_id ` set ?rows" using members [of "\<lambda>_. True"] by simp
    from R(3) [OF this] show ?thesis unfolding assms(3) r1_def if_not_P [OF False] .
  qed
  have prom: "i \<in> fst ` set promoted \<longleftrightarrow> recovers True" unfolding R(4) recovers_def by (rule members)
  have pend: "i \<in> fst ` set pending \<longleftrightarrow> i \<in> fst ` set others \<or> i \<in> set corrupt"
    unfolding pending by (force simp: image_iff)
  have "i \<in> fst ` set others \<longleftrightarrow> recovers False" unfolding R(5) recovers_def by (rule members)
  then show "i \<in> fst ` set pending \<longleftrightarrow> recovers False \<or> is_cache_corrupt_row h r1"
    unfolding pend C(2) find1 by simp
  show "db_ok (sdb s1)" by (rule P(1))
  show "find_app i (sdb s1) \<noteq> None" using P(4) [of i] C(4) [of i] find1 by simp
  show "settled r" if "recovers True" "find_app i (sdb s1) = Some r" using P(3) that prom by blast
  show "find_app i (sdb s1) = Some r1" if "i \<notin> fst ` set pending" "\<not> recovers True"
  proof -
    have "i \<notin> fst ` set promoted" "i \<notin> set corrupt" using that prom pend by blast+
    then show ?thesis using P(2) C(3) find1 by simp
  qed
qed

lemma plan_of_old_row:
  assumes "a_created_at row < start \<or> is_promotion_restart row"
  shows "plan_row h image_exists start s row = (
    if container_alive row s \<and> a_status row \<noteq> Starting
    then (if a_status row = Building then MarkRunning else LeaveRow)
    else (let has_repo = a_repo_path row \<noteq> [] \<and> h_is_dir h (a_repo_path row);
              needs_build = (a_status row = Building \<or> \<not> image_exists (app_image_tag (a_name row)))
          in if \<not> (non_empty (a_manifest_raw row) \<noteq> None \<or> has_repo) \<or> (needs_build \<and> \<not> has_repo)
             then CannotRecover else Recover (is_promotion_restart row) needs_build))"
  using assms by (auto simp: plan_row_def Let_def)

text \<open>What the check and the thread make of a row that was there before the process started.\<close>

lemma row_left_alone:
  assumes "db_ok (sdb s)" and others: "h_others h = (\<lambda>_ s. s)" and "find_app i (sdb s) = Some row"
    and check: "check_app_status cfg h image_exists start s = (s1, pending)"
    and r: "find_app i (sdb (restart_apps_sequential cfg h pending s1)) = Some r"
    and up: "up \<longleftrightarrow> a_status row \<in> {Running, Starting, Building}"
    and plan: "plan = plan_row h image_exists start s row"
    and "\<not> (up \<and> (\<exists>x b. plan = Recover x b))"
    and "\<not> is_cache_corrupt_row h (if up then plan_effect plan row row else row)"
  shows "find_app i (sdb s1) = Some r \<and> r = (if up then plan_effect plan row row else row)"
proof -
  note A = check_app_status_facts [OF assms(1,2,3,4), folded up plan]
  have out: "i \<notin> fst ` set pending" unfolding A(3) using assms(8,9) by blast
  then have "find_app i (sdb s1) = Some (if up then plan_effect plan row row else row)" using assms(8) A(5) by blast
  with restart_apps_sequential_facts(2) [OF A(1) others, where cfg = cfg and pending = pending] out r show ?thesis by simp
qed

lemma row_recovered:
  assumes "db_ok (sdb s)" and others: "h_others h = (\<lambda>_ s. s)" and "find_app i (sdb s) = Some row"
    and check: "check_app_status cfg h image_exists start s = (s1, pending)"
    and r: "find_app i (sdb (restart_apps_sequential cfg h pending s1)) = Some r"
    and up: "a_status row \<in> {Running, Starting, Building}" and plan: "plan_row h image_exists start s row = Recover x b"
  shows "settled r \<and> (x \<longrightarrow> (\<exists>q. find_app i (sdb s1) = Some q \<and> settled q))"
proof -
  note A = check_app_status_facts [OF assms(1,2,3,4)]
  note F = restart_apps_sequential_facts [OF A(1) others, where cfg = cfg and pending = pending]
  show ?thesis
  proof (cases "i \<in> fst ` set pending")
    case True
    then have "settled r" using F(3) r by blast
    moreover obtain q where q: "find_app i (sdb s1) = Some q" using A(2) by blast
    moreover have "settled q" if x using A(4) [OF _ q] up plan that by simp
    ultimately show ?thesis by blast
  next
    case False
    then have "find_app i (sdb s1) = Some r" using F(2) r by simp
    moreover have x
    proof (rule ccontr)
      assume "\<not> x"
      then have "plan_row h image_exists start s row = Recover False b" using plan by simp
      with False A(3) up show False by blast
    qed
    then have "plan_row h image_exists start s row = Recover True b" using plan by simp
    ultimately show ?thesis using A(4) up by blast
  qed
qed

section \<open>Properties\<close>

text \<open>C17. Starting the router strands no app. Once the check and the thread it starts are done, every
  app that was there before the process started is still there: one that was up but whose container
  is gone, or that was left building or starting, is running or in error, and a promoted one already
  when the check returns; one whose container is alive, a stopped one, one being removed, and one in
  error for another reason than a corrupt build cache is exactly as it was.\<close>

theorem startup_strands_no_app:
  assumes "db_ok (sdb s)" and "h_others h = (\<lambda>_ s. s)" and "find_app i (sdb s) = Some row"
    and "a_created_at row < start \<or> is_promotion_restart row"
    and "check_app_status cfg h image_exists start s = (s1, pending)"
  shows "\<exists>r. find_app i (sdb (restart_apps_sequential cfg h pending s1)) = Some r \<and>
    (a_status row \<in> {Starting, Building} \<or> (a_status row = Running \<and> \<not> container_alive row s)
       \<longrightarrow> a_status r = Running \<or> a_status r = Errored) \<and>
    (is_promotion_restart row \<longrightarrow>
       (\<exists>q. find_app i (sdb s1) = Some q \<and> (a_status q = Running \<or> a_status q = Errored))) \<and>
    (a_status row \<in> {Stopped, Removing} \<or> (a_status row = Running \<and> container_alive row s) \<or>
       (a_status row = Errored \<and> \<not> is_cache_corrupt_row h row) \<longrightarrow> r = row)"
proof -
  let ?plan = "plan_row h image_exists start s row"
  let ?up = "a_status row \<in> {Running, Starting, Building}"
  note A = check_app_status_facts [OF assms(1,2,3,5)]
  obtain r where r: "find_app i (sdb (restart_apps_sequential cfg h pending s1)) = Some r"
    using restart_apps_sequential_facts(4) [OF A(1) assms(2), of i cfg pending] A(2) by auto
  note plan = plan_of_old_row [OF assms(4), of h image_exists s]
  note still = row_left_alone [OF assms(1,2,3,5) r refl refl] and recovered = row_recovered [OF assms(1,2,3,5) r]
  have "?plan = LeaveRow" if "a_status row = Running" "container_alive row s" using that by (simp add: plan)
  then have kept: "r = row" if "a_status row \<in> {Stopped, Removing} \<or> (a_status row = Running \<and> container_alive row s) \<or>
      (a_status row = Errored \<and> \<not> is_cache_corrupt_row h row)"
    using that still by (auto simp: is_cache_corrupt_row_def)
  have failed: "settled r \<and> find_app i (sdb s1) = Some r" if "?up" "?plan \<in> {CannotRecover, MarkRunning}"
  proof -
    have "\<not> is_cache_corrupt_row h (plan_effect ?plan row row)"
      using that(2) by (auto simp: is_cache_corrupt_row_def error_row_def set_status_def plan Let_def split: if_splits)
    with still that show ?thesis by (auto simp: settled_def error_row_def set_status_def)
  qed
  have "settled r" if "a_status row \<in> {Starting, Building} \<or> (a_status row = Running \<and> \<not> container_alive row s)"
  proof -
    have up: "?up" using that by auto
    have "?plan \<in> {CannotRecover, MarkRunning} \<or> (\<exists>x b. ?plan = Recover x b)"
      using that by (auto simp: plan Let_def)
    then show ?thesis using failed recovered up by blast
  qed
  moreover have "\<exists>q. find_app i (sdb s1) = Some q \<and> settled q" if "is_promotion_restart row"
  proof -
    have "a_status row = Starting" using that by (simp add: is_promotion_restart_def)
    moreover from this have "?plan = CannotRecover \<or> (\<exists>b. ?plan = Recover True b)"
      using that by (auto simp: plan Let_def)
    ultimately show ?thesis using failed recovered by auto
  qed
  ultimately show ?thesis using r kept by (auto simp: settled_def)
qed

theorem startup_strands_no_app_witness:
  "\<exists>s1 pending r. check_app_status demo_config demo_host_env (\<lambda>_. True) 1 \<lparr>sdb = demo_db, containers = []\<rparr> = (s1, pending) \<and>
     find_app ''A1'' (sdb (restart_apps_sequential demo_config demo_host_env pending s1)) = Some r \<and>
     (a_status r = Running \<or> a_status r = Errored)"
proof -
  let ?s = "\<lparr>sdb = demo_db, containers = []\<rparr>"
  obtain s1 pending where c: "check_app_status demo_config demo_host_env (\<lambda>_. True) 1 ?s = (s1, pending)"
    by (rule prod.exhaust)
  have "a_status (demo_app ''A1'' ''notes'' 9000 Running) = Running \<and>
      \<not> container_alive (demo_app ''A1'' ''notes'' 9000 Running) ?s"
    "h_others demo_host_env = (\<lambda>_ s. s)" "a_created_at (demo_app ''A1'' ''notes'' 9000 Running) < 1"
    by (simp_all add: demo_app_def container_alive_def demo_host_env_def non_empty_def)
  with startup_strands_no_app [OF conjunct1 [OF demo_launch_db] _ conjunct2 [OF demo_launch_db] _ c] c
  show ?thesis by blast
qed

end
