(* ===== verification/Spec2Isabelle.thy ===== *)
theory Spec2Isabelle
  imports AppDefinitions FirstBoot AutoUpdate ArchiveRoutes ServiceRoutes Proxy AppRoutes Startup Accounts Ports Permissions Services
begin

text \<open>
  A model of the router of Cloud in a Bottle (\<open>src/compute_space/src/compute_space\<close>), the web
  service that runs a person's apps in podman containers and answers for them on the owner's domains, and of
  the agent that updates it (\<open>src/openhost_system_agent/src/openhost_system_agent\<close>). Paths below are relative
  to the first directory, those of the agent to the second.

  \<^bold>\<open>The program.\<close> One SQLite database holds the installed apps, the domains, sessions and tokens, the
  permissions granted to apps and the services they provide. Requests arrive at
  \<open>web/middleware/subdomain_proxy.py\<close>: a request to an app's host name is checked and forwarded to
  the app's port, a request to the router's own name goes to the routes, which read and change the
  database and start threads that build, run and remove containers. The agent is a command that runs as
  root, in a unit of its own: it stops the router, walks the checkout from release to release, running each
  one's migrations, and starts the router again; the router calls it, on a schedule or for the owner.

  \<^bold>\<open>The theories\<close>, in the order in which they import each other:

  \<^item> \<open>Prelude\<close>: lists, options, strings, association lists, results as sums. \<open>PyValues\<close>: the
    dynamically typed values of TOML and JSON with Python's truth, equality and iteration.
  \<^item> \<open>AppIds\<close> (\<open>core/app_id.py\<close>) and \<open>Manifest\<close> (\<open>core/manifest.py\<close>): the manifest parser, every
    check and every exception as a value; the diff of permissions and settings of an update.
  \<^item> \<open>Db\<close> (\<open>db/schema.sql\<close>): one record per table, the database as a record of lists of rows, and
    \<open>db_ok\<close>, the uniqueness and foreign-key constraints. The locale of keyed tables is interpreted
    on the tables of the schema.
  \<^item> \<open>Ports\<close>, \<open>Domains\<close>, \<open>Permissions\<close>, \<open>Services\<close> (the modules of those names in \<open>core\<close>), and
    \<open>PublicPaths\<close> (the public-path rules of \<open>core/apps.py\<close>).
  \<^item> \<open>Containers\<close> (\<open>core/containers.py\<close>, \<open>core/data.py\<close>): the podman command of an app, its mounts,
    its environment. \<open>Host\<close> (\<open>core/storage.py\<close>, \<open>image_pruner.py\<close>, \<open>memory_guard.py\<close>): what the
    host answers, the storage guard, the image sweep, the memory warning.
  \<^item> \<open>AppLifecycle\<close> (\<open>core/apps.py\<close>): install, launch, deploy, reload and removal threads, over the
    database and the table of containers (the record \<open>sys\<close>).
  \<^item> \<open>Urls\<close> (\<open>core/git_ops.py\<close>): repository addresses. \<open>Auth\<close> (\<open>core/auth/auth.py\<close>): owner, sessions,
    tokens. \<open>WebAuth\<close> (\<open>web/auth\<close>): the guards of the routes. \<open>Proxy\<close>: the dispatch of requests and
    what is forwarded. \<open>AppRoutes\<close> (\<open>web/routes/api/apps.py\<close>): the handlers that act on apps.
  \<^item> \<open>Startup\<close> (\<open>core/startup.py\<close>): what a restart of the router does to each app. \<open>DefaultApps\<close>
    (\<open>core/default_apps.py\<close>): the installer of the default apps with its retry file. \<open>PyFloat\<close>: Python's
    \<open>float\<close> and \<open>timedelta(hours=...)\<close>. \<open>Accounts\<close>: login, setup, password, name and API tokens
    (\<open>web/routes/pages/login.py\<close>, \<open>web/setup_app.py\<close>, parts of \<open>web/routes/api/settings.py\<close> and \<open>system.py\<close>).
  \<^item> \<open>ServiceRoutes\<close> (\<open>web/routes/services_v2.py\<close> and the routes of services and permissions under
    \<open>web/routes/api\<close>): calls between apps and who may grant what. \<open>Mdns\<close> (\<open>core/mdns\<close>): the responder for
    names under \<open>.local\<close> on the local network, its packets byte for byte.
  \<^item> \<open>Dns\<close> (\<open>core/dns\<close>): the zones and records CoreDNS serves, the files rendered for it, when it is
    started and restarted. \<open>Caddy\<close> (\<open>core/caddy.py\<close>): the Caddyfile and the process that serves it. \<open>Certs\<close>
    (\<open>core/tls\<close>): the state of certificates, acquiring and renewing them. \<open>DomainRoutes\<close>
    (\<open>web/routes/api/domains.py\<close>): the owner's changes to the domains of the running instance, over all four.
  \<^item> \<open>Programs\<close>: statement sequences that raise and change a state, with their weakest preconditions.
    \<open>ArchiveBackend\<close> (\<open>core/archive_backend.py\<close>): the archive's JuiceFS volume, the commands that bring it up,
    restore it and move it to another store; JuiceFS, systemd and S3 are a record of functions on the outside
    world. \<open>ArchiveMigration\<close>: what is relied on of them as laws, and what a migration keeps under these laws.
    \<open>ArchiveRoutes\<close> (\<open>web/routes/api/archive_backend.py\<close>): the owner's requests, with the apps stopped around it.
    \<open>FirstBoot\<close> (\<open>core/first_boot.py\<close>, \<open>core/identity_store.py\<close>): what a fresh instance takes from its file, once.
  \<^item> \<open>AppDefinitions\<close> (\<open>core/app_definitions.py\<close>, \<open>core/app_definition_loader.py\<close> and their routes): the apps of an
    instance as a document, what is exported, what is accepted. The locale of codecs states once what a part of
    the document promises, and is interpreted for each part.
  \<^item> The agent: \<open>ReleaseWalk\<close> (\<open>update.py\<close>, \<open>apply_after_checkout.py\<close>): version tags, the destination, the next
    step in both copies, the walk. \<open>UpdateAgent\<close> (the same files, \<open>updater/progress.py\<close>, \<open>detach.py\<close>,
    \<open>updater/launcher.py\<close>, \<open>reclaim.py\<close>, \<open>migrations\<close>): the update as a unit of the system, its progress log, the
    migrations of the host. \<open>UpdateRemote\<close>: the remote and the pin an owner sets. The router's side is
    \<open>AutoUpdate\<close> (\<open>core/system_agent\<close>, \<open>core/auto_update\<close>, \<open>core/auto_suspend\<close>, \<open>web/routes/api/settings.py\<close>): the calls
    of the agent, the daily update, the routes of the settings page.

  \<^bold>\<open>How code becomes a definition.\<close> A function of the source is a definition of the same name (an
  underscore in front is dropped) with its branches in the same order. A handler takes the state and
  returns the answer with the new state; an exception is the left of a sum, named by the source's own
  exception types. A commit is the point at which a handler returns an updated database. What the
  source asks of code outside it is an argument: the answers of podman, git, the clock, the random
  source, hashes, \<open>tomllib\<close>, \<open>packaging\<close> and the file system (records \<open>manifest_env\<close>, \<open>host\<close>,
  \<open>auth_env\<close>, \<open>route_env\<close>). Where a handler awaits or a thread waits, what other requests do
  meanwhile is an argument too (\<open>h_others\<close>, \<open>re_during_pull\<close>, ...): a theorem about it names what it
  assumes of them.

  \<^bold>\<open>What is shown.\<close> The manifest: what the parser accepts is well formed, and an update that asks for
  more than before is found. Ports: no two mappings share a host port. Domains: there is always one
  primary domain, the longest matching domain wins. Permissions and services: grants behave as a set,
  a call reaches a running provider of a compatible version. Containers: an app's container has only
  the mounts and options its manifest declares. Lifecycle: installing is atomic, each background
  thread ends with the app in a settled state, removal leaves nothing. Access: who passes the guards, that a cookie needs evidence of
  where the request comes from, that a revoked or expired session is out, what the proxy reveals and
  what an app may believe of the forwarded headers. Updates: nothing the owner has not approved is
  started, and a refused update leaves the checkout as it was. Starting up: a restart strands no app, a
  default app is tried a bounded number of times, setup can be done once, a login and an API token last
  as long as they say. Calls between apps: the caller is an app whose manifest declares the service, and it
  is told apart from every other; an app grants only what it provides. The mDNS responder reads what it
  writes, and no packet makes it fail. Names and certificates: CoreDNS serves the zones and records there are,
  a renewal cycle reaches every domain and leaves no challenge behind, a domain that is added is served, one
  that is removed is gone, and another is made primary only when nothing stands in the way. The archive: a
  migration that returns has lost no object, one that fails leaves the source, neither touches other volumes, and
  booting does not touch a formatted volume. Updating: what the page offers is what the walk does,
  the walk ends at its destination, the tree changes only while the router is stopped, every update ends in a
  report, migrations run once and in order, and a scheduled update runs once a day and only where one is
  called for. App definitions: what is written is read back, just the well-formed documents are accepted, an
  export tells no credentials of an address, an import adds verifiers only. \<^bold>\<open>Properties\<close> are the theorems whose text
  begins with C and a number; the lemmas before them carry them. Flaws that modelling showed are
  lemmas too, and are named where they stand.

  \<^bold>\<open>Bounds.\<close> Three recursions have fuel. The wait for the archive's mount counts its looks (\<open>MOUNT_LOOKS\<close>),
  enough for its 30 seconds (\<open>mount_looks_enough\<close>), and the agent's waits (\<open>wait_loop\<close>) the looks that fit before
  their deadlines: 1801 of two seconds in an hour, 101 of 50 milliseconds in five seconds. The walk of an
  update has any fuel, and \<open>walk_reaches_destination\<close> and \<open>update_is_reported\<close> show that two more than the number
  of tags is enough. Every other loop of the modelled code is over a list or a bounded
  range: the build is tried at most twice (\<open>build_attempts\<close>), an app id is drawn at most as often as the
  source retries, percent decoding at most \<open>MAX_PUBLIC_PATH_CHECKS\<close> times, a DNS name is read in at most the 128 steps the source allows. Integers are Python's, so
  unbounded; bytes are characters.

  \<^bold>\<open>Assumed of the agent's surroundings.\<close> Git is the record \<open>git_repo\<close>: tags, what a revision resolves to, ancestry,
  HEAD and the two settings; commands that change it are functions with laws that are hypotheses. Every
  release on a walk is taken to carry the apply file of this one. The log is its lines, parsed or not. The
  router boots again after the unit is over, as the unit's \<open>ExecStopPost\<close> asks for.

  \<^bold>\<open>Not modelled.\<close> Network protocols and subprocesses (ACME, git, JuiceFS), which are arguments; byte
  streams (logs, terminal, WebSocket payloads, streamed bodies) and rendering (docs, diagnostics, templates),
  which keep no state; the SQL that migrates old databases, whose schemas the repository no longer uses; what
  each migration of the host does, which is shell; the page served while the router is down, which is
  sockets and threads; the command lines, bundled apps, tests and scripts, which are clients of the
  modelled code.
\<close>

end
